(* ===== verification/Prelude.thy ===== *)
theory Prelude
  imports Main
begin

text \<open>
  The ground the components share: the exceptions of the Python modules as values, the
  exception and state-with-exception types and their combinators, and the locales
  \<open>machine\<close> (operations that keep an invariant) and \<open>monotone_machine\<close> (operations that
  also only move the state up an order).

  A Python \<open>str\<close> is a HOL \<open>string\<close>, so the model's characters are the code points below
  256. \<open>unicode_space\<close> is Python's \<open>str.isspace\<close> on that range.
\<close>

named_theorems res_simps \<open>when a computation of the exception type succeeds\<close>

section \<open>Exceptions\<close>

text \<open>
  One constructor per exception class of the modelled modules, with its message; the
  built-in classes come first. \<open>KalshiAPIError\<close> and \<open>KalshiSubmissionUnknown\<close> carry their
  attributes instead (status, detail, client order id; client order id, cause), and
  \<open>PaperUnresolvedExitIntent\<close> the decision id.
\<close>

datatype exn =
    ValueError string
  | TypeError string
  | KeyError string
  | AttributeError string
  | OverflowError string
  | RuntimeError string
  | OSError string
  | ZeroDivisionError string
  | InvalidOperation string
  | KalshiProtocolError string
  | LiveTradingNotArmedError string
  | KalshiAPIError int string string
  | KalshiSubmissionUnknown string exn
  | TransportError string
  | DecodingError string
  | HTTPStatusError int
  | KalshiWSProtocolError string
  | KalshiWSContinuityError string
  | KalshiWSLifecycleError string
  | KalshiPrivateWSProtocolError string
  | VenueExecutionConflictError string
  | ReconciliationConflictError string
  | KalshiPortfolioCoverageConflictError string
  | KalshiPortfolioCoverageLeaseError string
  | KalshiPortfolioProjectionFencingError string
  | KalshiPortfolioProjectionLeaseConflictError string
  | KalshiPortfolioPrincipalAmbiguityError "string list"
  | KalshiPortfolioPrincipalNotFoundError string
  | KalshiPaperProtocolError string
  | PaperDecisionConflict string
  | PaperAccountNotFound string
  | PaperOpportunityNotFound string
  | PaperOpportunityIneligible string
  | PaperCancellationConflict string
  | PaperOrderNotCancelable string
  | PaperPositionNotFound string
  | PaperPositionNotClosable string
  | PaperUnresolvedExitIntent string
  | IntegrityError string
  | AssertionError string

text \<open>
  The classes derived from \<open>ValueError\<close> (\<open>except ValueError\<close> catches them).
  \<open>OverflowError\<close> is an \<open>ArithmeticError\<close> and is not among them.
\<close>

fun is_value_error :: "exn \<Rightarrow> bool" where
  "is_value_error (ValueError _) = True"
| "is_value_error (KalshiProtocolError _) = True"
| "is_value_error (KalshiWSProtocolError _) = True"
| "is_value_error (KalshiPrivateWSProtocolError _) = True"
| "is_value_error (KalshiPaperProtocolError _) = True"
| "is_value_error (PaperOpportunityIneligible _) = True"
| "is_value_error _ = False"

fun is_type_error :: "exn \<Rightarrow> bool" where
  "is_type_error (TypeError _) = True"
| "is_type_error _ = False"

fun is_key_error :: "exn \<Rightarrow> bool" where
  "is_key_error (KeyError _) = True"
| "is_key_error _ = False"

section \<open>Results\<close>

type_synonym 'a res = "exn + 'a"

definition bindE :: "'a res \<Rightarrow> ('a \<Rightarrow> 'b res) \<Rightarrow> 'b res" where
  "bindE m f = (case m of Inl e \<Rightarrow> Inl e | Inr x \<Rightarrow> f x)"

text \<open>\<open>try: m except E: h\<close>, where \<open>h\<close> gives \<open>None\<close> for the exceptions it does not catch.\<close>

definition catchE :: "'a res \<Rightarrow> (exn \<Rightarrow> 'a res option) \<Rightarrow> 'a res" where
  "catchE m h = (case m of Inr x \<Rightarrow> Inr x
     | Inl e \<Rightarrow> (case h e of None \<Rightarrow> Inl e | Some r \<Rightarrow> r))"

text \<open>\<open>tuple(f(x) for x in xs)\<close>: the first exception ends the traversal.\<close>

fun traverseE :: "('a \<Rightarrow> 'b res) \<Rightarrow> 'a list \<Rightarrow> 'b list res" where
  "traverseE f [] = Inr []"
| "traverseE f (x # xs) = bindE (f x) (\<lambda>y. bindE (traverseE f xs) (\<lambda>ys. Inr (y # ys)))"

text \<open>A \<open>for\<close> loop over \<open>xs\<close> with loop state \<open>s\<close>.\<close>

fun foldE :: "('s \<Rightarrow> 'a \<Rightarrow> 's res) \<Rightarrow> 's \<Rightarrow> 'a list \<Rightarrow> 's res" where
  "foldE f s [] = Inr s"
| "foldE f s (x # xs) = bindE (f s x) (\<lambda>s'. foldE f s' xs)"

definition is_ok :: "'a res \<Rightarrow> bool" where
  "is_ok r = (case r of Inl _ \<Rightarrow> False | Inr _ \<Rightarrow> True)"

lemma bindE_Inl [simp]: "bindE (Inl e) f = Inl e"
  by (simp add: bindE_def)

lemma bindE_Inr [simp]: "bindE (Inr x) f = f x"
  by (simp add: bindE_def)

lemma bindE_eq_Inr [res_simps]: "bindE m f = Inr y \<longleftrightarrow> (\<exists>x. m = Inr x \<and> f x = Inr y)"
  by (cases m) auto

lemma if_Inl_eq_Inr [res_simps]: "(if c then Inl e else k) = Inr y \<longleftrightarrow> \<not> c \<and> k = Inr y"
  by simp

text \<open>
  The elimination rules of a successful run: the success of each read, and the failure of
  each guard, one after the other.
\<close>

lemma bindE_InrE: "bindE m f = Inr y \<Longrightarrow> (\<And>x. m = Inr x \<Longrightarrow> f x = Inr y \<Longrightarrow> P) \<Longrightarrow> P"
  by (cases m) auto

lemma guard_InrE: "(if c then Inl e else k) = Inr y \<Longrightarrow> (\<not> c \<Longrightarrow> k = Inr y \<Longrightarrow> P) \<Longrightarrow> P"
  by (cases c) auto

lemma option_case_InrE:
  "(case m of None \<Rightarrow> Inl e | Some x \<Rightarrow> f x) = Inr y \<Longrightarrow> (\<And>x. m = Some x \<Longrightarrow> f x = Inr y \<Longrightarrow> P) \<Longrightarrow> P"
  by (cases m) auto

lemma prod_case_InrE: "(case z of (x, y) \<Rightarrow> f x y) = Inr r \<Longrightarrow> (\<And>x y. z = (x, y) \<Longrightarrow> f x y = Inr r \<Longrightarrow> P) \<Longrightarrow> P"
  by (cases z) auto

lemmas run_elims = bindE_InrE guard_InrE option_case_InrE

lemma is_ok_simps [simp]: "is_ok (Inr x)" "\<not> is_ok (Inl e)"
  by (simp_all add: is_ok_def)

lemma is_ok_iff: "is_ok r \<longleftrightarrow> (\<exists>x. r = Inr x)"
  by (cases r) auto

lemma catchE_simps [simp]:
  "catchE (Inr x) h = Inr x"
  "catchE (Inl e) h = (case h e of None \<Rightarrow> Inl e | Some r \<Rightarrow> r)"
  by (simp_all add: catchE_def)

lemma traverseE_cong [fundef_cong]:
  "xs = ys \<Longrightarrow> (\<And>x. x \<in> set ys \<Longrightarrow> f x = g x) \<Longrightarrow> traverseE f xs = traverseE g ys"
  by (induction ys arbitrary: xs) auto

lemma traverseE_Inr_iff:
  "traverseE f xs = Inr ys \<longleftrightarrow> list_all2 (\<lambda>x y. f x = Inr y) xs ys"
proof (induction xs arbitrary: ys)
  case Nil
  show ?case by auto
next
  case (Cons x xs)
  then show ?case by (cases ys) (auto simp: res_simps)
qed

lemma traverseE_length: "traverseE f xs = Inr ys \<Longrightarrow> length ys = length xs"
  by (auto simp: traverseE_Inr_iff dest: list_all2_lengthD)

lemma traverseE_all:
  assumes "traverseE f xs = Inr ys" and "\<And>x y. x \<in> set xs \<Longrightarrow> f x = Inr y \<Longrightarrow> P y"
  shows "\<forall>y \<in> set ys. P y"
proof -
  from assms(1) have "list_all2 (\<lambda>x y. f x = Inr y) xs ys"
    by (simp add: traverseE_Inr_iff)
  then show ?thesis
    using assms(2) by (induction rule: list_all2_induct) auto
qed

text \<open>The loop rule: an invariant that every iteration keeps holds of the loop's result.\<close>

lemma foldE_invariant:
  assumes "foldE f s xs = Inr t" and "I s"
    and "\<And>s x s'. I s \<Longrightarrow> x \<in> set xs \<Longrightarrow> f s x = Inr s' \<Longrightarrow> I s'"
  shows "I t"
  using assms
proof (induction xs arbitrary: s)
  case Nil
  then show ?case by simp
next
  case (Cons x xs)
  from Cons.prems(1) obtain s' where "f s x = Inr s'" and rest: "foldE f s' xs = Inr t"
    by (auto simp: res_simps)
  then have "I s'" using Cons.prems(2,3) by (meson list.set_intros(1))
  with rest show ?case
    using Cons.IH Cons.prems(3) by (meson list.set_intros(2))
qed

lemma foldE_append: "foldE f s (xs @ ys) = bindE (foldE f s xs) (\<lambda>t. foldE f t ys)"
proof (induction xs arbitrary: s)
  case Nil
  show ?case by simp
next
  case (Cons x xs)
  then show ?case by (cases "f s x") simp_all
qed

section \<open>Which exceptions a computation may raise\<close>

definition raises :: "(exn \<Rightarrow> bool) \<Rightarrow> 'a res \<Rightarrow> bool" where
  "raises P m = (case m of Inl e \<Rightarrow> P e | Inr _ \<Rightarrow> True)"

named_theorems raises_intros \<open>the exceptions of a computation, by its structure\<close>

lemma raises_simps [simp]: "raises P (Inr x)" "raises P (Inl e) = P e"
  by (simp_all add: raises_def)

lemma raisesD: "raises P m \<Longrightarrow> m = Inl e \<Longrightarrow> P e"
  by (simp add: raises_def)

lemma raises_mono: "raises P m \<Longrightarrow> (\<And>e. P e \<Longrightarrow> Q e) \<Longrightarrow> raises Q m"
  by (cases m) auto

lemma raises_bindE [raises_intros]:
  "raises P m \<Longrightarrow> (\<And>x. m = Inr x \<Longrightarrow> raises P (f x)) \<Longrightarrow> raises P (bindE m f)"
  by (cases m) auto

lemma raises_if [raises_intros]:
  "(c \<Longrightarrow> raises P a) \<Longrightarrow> (\<not> c \<Longrightarrow> raises P b) \<Longrightarrow> raises P (if c then a else b)"
  by simp

lemma raises_option [raises_intros]:
  "(x = None \<Longrightarrow> raises P a) \<Longrightarrow> (\<And>y. x = Some y \<Longrightarrow> raises P (b y)) \<Longrightarrow>
     raises P (case x of None \<Rightarrow> a | Some y \<Rightarrow> b y)"
  by (cases x) auto

lemma raises_prod [raises_intros]:
  "(\<And>x y. z = (x, y) \<Longrightarrow> raises P (f x y)) \<Longrightarrow> raises P (case z of (x, y) \<Rightarrow> f x y)"
  by (cases z) auto

lemma raises_foldE [raises_intros]:
  "(\<And>s x. x \<in> set xs \<Longrightarrow> raises P (f s x)) \<Longrightarrow> raises P (foldE f s xs)"
proof (induction xs arbitrary: s)
  case (Cons x xs)
  then show ?case by (auto intro!: raises_bindE)
qed simp

lemma raises_traverseE [raises_intros]:
  "(\<And>x. x \<in> set xs \<Longrightarrow> raises P (f x)) \<Longrightarrow> raises P (traverseE f xs)"
proof (induction xs)
  case (Cons x xs)
  then show ?case by (auto intro!: raises_bindE)
qed simp

section \<open>Operations on a state that may raise\<close>

text \<open>
  A Python method may change its object before it raises, so an operation returns the
  result and the state in either case.
\<close>

type_synonym ('s, 'a) action = "'s \<Rightarrow> 'a res \<times> 's"

definition bindA :: "('s, 'a) action \<Rightarrow> ('a \<Rightarrow> ('s, 'b) action) \<Rightarrow> ('s, 'b) action" where
  "bindA m f s = (case m s of (Inl e, t) \<Rightarrow> (Inl e, t) | (Inr x, t) \<Rightarrow> f x t)"

text \<open>
  A database transaction (\<open>session.begin()\<close>): an exception that leaves the block rolls
  the state back.
\<close>

definition transaction :: "('s, 'a) action \<Rightarrow> ('s, 'a) action" where
  "transaction m s = (case m s of (Inl e, t) \<Rightarrow> (Inl e, s) | (Inr x, t) \<Rightarrow> (Inr x, t))"

lemma bindA_eq_Inr [res_simps]:
  "bindA m f s = (Inr y, u) \<longleftrightarrow> (\<exists>x t. m s = (Inr x, t) \<and> f x t = (Inr y, u))"
  by (auto simp: bindA_def split: sum.splits prod.splits)

lemma if_raise_eq_Inr [res_simps]:
  "(if c then (Inl e, s) else k) = (Inr y, u) \<longleftrightarrow> \<not> c \<and> k = (Inr y, u)"
  by simp

lemma transaction_Inl: "transaction m s = (Inl e, t) \<Longrightarrow> t = s"
  by (auto simp: transaction_def split: sum.splits prod.splits)

lemma transaction_Inr [res_simps]: "transaction m s = (Inr x, t) \<longleftrightarrow> m s = (Inr x, t)"
  by (auto simp: transaction_def split: sum.splits prod.splits)

text \<open>A computation without a state, a query of the state, and a \<open>for\<close> loop whose body acts on the state.\<close>

definition liftE :: "'a res \<Rightarrow> ('s, 'a) action" where
  "liftE m s = (m, s)"

definition readA :: "('s \<Rightarrow> 'a) \<Rightarrow> ('s, 'a) action" where
  "readA f s = (Inr (f s), s)"

fun eachA :: "('a \<Rightarrow> ('s, 'b) action) \<Rightarrow> 'a list \<Rightarrow> ('s, unit) action" where
  "eachA f [] = liftE (Inr ())"
| "eachA f (x # xs) = bindA (f x) (\<lambda>_. eachA f xs)"

lemma liftE_eq_Inr [res_simps]: "liftE m s = (Inr x, t) \<longleftrightarrow> m = Inr x \<and> t = s"
  by (auto simp: liftE_def)

lemma readA_eq_Inr [res_simps]: "readA f s = (Inr x, t) \<longleftrightarrow> x = f s \<and> t = s"
  by (auto simp: readA_def)

lemma bindA_readA [simp]: "bindA (readA f) g s = g (f s) s"
  by (simp add: bindA_def readA_def)

text \<open>
  What a program that succeeds does to the state: it keeps an invariant and moves the state
  up a preorder. The rules follow the structure of the program.
\<close>

definition advances :: "('s \<Rightarrow> bool) \<Rightarrow> ('s \<Rightarrow> 's \<Rightarrow> bool) \<Rightarrow> ('s, 'a) action \<Rightarrow> bool" where
  "advances P le m = (\<forall>s x t. P s \<longrightarrow> m s = (Inr x, t) \<longrightarrow> P t \<and> le s t)"

named_theorems advances_intros \<open>what a successful program does to the state, by its structure\<close>

lemma advancesI: "(\<And>s x t. P s \<Longrightarrow> m s = (Inr x, t) \<Longrightarrow> P t \<and> le s t) \<Longrightarrow> advances P le m"
  by (auto simp: advances_def)

lemma advancesD: "advances P le m \<Longrightarrow> P s \<Longrightarrow> m s = (Inr x, t) \<Longrightarrow> P t \<and> le s t"
  unfolding advances_def by blast

lemma advances_liftE [advances_intros]: "reflp le \<Longrightarrow> advances P le (liftE m)"
  by (auto simp: advances_def res_simps intro: reflpD)

lemma advances_readA [advances_intros]: "reflp le \<Longrightarrow> advances P le (readA f)"
  by (auto simp: advances_def res_simps intro: reflpD)

lemma advances_bindA [advances_intros]:
  "transp le \<Longrightarrow> advances P le m \<Longrightarrow> (\<And>x. advances P le (f x)) \<Longrightarrow> advances P le (bindA m f)"
  unfolding advances_def bindA_eq_Inr by (meson transpD)

lemma advances_eachA [advances_intros]:
  "reflp le \<Longrightarrow> transp le \<Longrightarrow> (\<And>x. x \<in> set xs \<Longrightarrow> advances P le (f x)) \<Longrightarrow> advances P le (eachA f xs)"
proof (induction xs)
  case (Cons x xs)
  then show ?case by (simp add: advances_bindA)
qed (simp add: advances_liftE)

lemma advances_if [advances_intros]:
  "(c \<Longrightarrow> advances P le a) \<Longrightarrow> (\<not> c \<Longrightarrow> advances P le b) \<Longrightarrow> advances P le (if c then a else b)"
  by simp

lemma advances_option [advances_intros]:
  "(x = None \<Longrightarrow> advances P le a) \<Longrightarrow> (\<And>y. x = Some y \<Longrightarrow> advances P le (b y)) \<Longrightarrow>
     advances P le (case x of None \<Rightarrow> a | Some y \<Rightarrow> b y)"
  by (cases x) auto

lemma advances_prod [advances_intros]:
  "(\<And>x y. z = (x, y) \<Longrightarrow> advances P le (f x y)) \<Longrightarrow> advances P le (case z of (x, y) \<Rightarrow> f x y)"
  by (cases z) auto

lemma advances_let [advances_intros]: "(\<And>x. x = y \<Longrightarrow> advances P le (f x)) \<Longrightarrow> advances P le (Let y f)"
  by simp

lemma advances_transaction:
  assumes "advances P le m" "reflp le" "P s"
  shows "P (snd (transaction m s)) \<and> le s (snd (transaction m s))"
  using advancesD [OF assms(1,3)] assms(2,3)
  by (auto simp: transaction_def split: prod.splits sum.splits intro: reflpD)

text \<open>What the body of a loop did for one element is still below the state at the end.\<close>

lemma eachA_each:
  assumes "eachA f xs s = (Inr u, t)" "P s" "y \<in> set xs" "reflp le" "transp le"
    and "\<And>x. x \<in> set xs \<Longrightarrow> advances P le (f x)"
  shows "\<exists>a v b. P a \<and> f y a = (Inr v, b) \<and> le b t"
  using assms
proof (induction xs arbitrary: s)
  case (Cons x xs)
  from Cons.prems(1) obtain v b where x: "f x s = (Inr v, b)" and rest: "eachA f xs b = (Inr u, t)"
    unfolding eachA.simps bindA_eq_Inr by blast
  from advancesD [OF Cons.prems(6) Cons.prems(2) x] have b: "P b" by simp
  show ?case
  proof (cases "y = x")
    case True
    have "advances P le (eachA f xs)"
      by (rule advances_eachA [OF Cons.prems(4,5)]) (rule Cons.prems(6), rule list.set_intros(2))
    from advancesD [OF this b rest] have "le b t" by simp
    with x Cons.prems(2) True show ?thesis by blast
  next
    case False
    with Cons.prems(3) have "y \<in> set xs" by simp
    from Cons.IH [OF rest b this Cons.prems(4,5)] Cons.prems(6) show ?thesis
      by (meson list.set_intros(2))
  qed
qed simp

section \<open>Machines\<close>

text \<open>
  An object as the rest of the program sees it: a state, operations that change it, and an
  invariant that every operation keeps, whether it returns or raises.
\<close>

locale machine =
  fixes inv :: "'s \<Rightarrow> bool" and step :: "'op \<Rightarrow> 's \<Rightarrow> 's"
  assumes step_inv: "inv s \<Longrightarrow> inv (step a s)"
begin

lemma run_inv: "inv s \<Longrightarrow> inv (fold step ops s)"
  by (induction ops arbitrary: s) (simp_all add: step_inv)

end

text \<open>In addition, every operation moves the state up a preorder (on the states with the invariant).\<close>

locale monotone_machine = machine inv step
  for inv :: "'s \<Rightarrow> bool" and step :: "'op \<Rightarrow> 's \<Rightarrow> 's" +
  fixes le :: "'s \<Rightarrow> 's \<Rightarrow> bool"
  assumes le_refl: "le s s"
    and le_trans: "le s t \<Longrightarrow> le t u \<Longrightarrow> le s u"
    and step_le: "inv s \<Longrightarrow> le s (step a s)"
begin

lemma run_le: "inv s \<Longrightarrow> le s (fold step ops s)"
proof (induction ops arbitrary: s)
  case Nil
  show ?case by (simp add: le_refl)
next
  case (Cons a ops)
  then show ?case using step_inv step_le le_trans by (metis fold_simps(2))
qed

text \<open>Whatever happened before a point of a run is still below what the run ends with.\<close>

lemma run_prefix_le: "inv s \<Longrightarrow> le (fold step ops s) (fold step (ops @ more) s)"
  by (simp add: run_inv run_le)

end

section \<open>Tables\<close>

text \<open>A list that only ever grows at its end.\<close>

definition extends :: "'a list \<Rightarrow> 'a list \<Rightarrow> bool" where
  "extends xs ys = (take (length xs) ys = xs)"

lemma extends_append [simp]: "extends xs (xs @ ys)"
  by (simp add: extends_def)

lemma extends_refl [simp]: "extends xs xs"
  by (simp add: extends_def)

lemma extends_trans: "extends xs ys \<Longrightarrow> extends ys zs \<Longrightarrow> extends xs zs"
  unfolding extends_def by (metis min.absorb1 take_take length_take min.cobounded1 min.commute)

lemma extends_set: "extends xs ys \<Longrightarrow> set xs \<subseteq> set ys"
  unfolding extends_def by (metis set_take_subset)

lemma find_append:
  "List.find P (xs @ ys) = (case List.find P xs of None \<Rightarrow> List.find P ys | Some x \<Rightarrow> Some x)"
  by (induction xs) auto

lemma find_Some_mem: "List.find P xs = Some x \<Longrightarrow> x \<in> set xs \<and> P x"
  by (induction xs) (auto split: if_splits)

lemma find_None_iff_all: "List.find P xs = None \<longleftrightarrow> (\<forall>x \<in> set xs. \<not> P x)"
  by (induction xs) auto

text \<open>Under a unique key, the row a key finds is the only one that has it.\<close>

lemma find_key: "distinct (map f xs) \<Longrightarrow> x \<in> set xs \<Longrightarrow> List.find (\<lambda>y. f y = f x) xs = Some x"
  by (induction xs) (auto simp: image_iff)

text \<open>Rows with a primary key, and their inserts.\<close>

definition row_of :: "('r \<Rightarrow> 'k) \<Rightarrow> 'k \<Rightarrow> 'r list \<Rightarrow> 'r option" where
  "row_of key k rows = List.find (\<lambda>x. key x = k) rows"

text \<open>\<open>length(btrim(s)) > 0\<close>\<close>

definition not_blank :: "string \<Rightarrow> bool" where
  "not_blank s = list_ex (\<lambda>c. c \<noteq> CHR '' '') s"

text \<open>
  An insert violates a CHECK constraint, a foreign key (\<open>check\<close>) or the primary key; with
  \<open>on_conflict_do_nothing\<close> a row whose key is taken is left alone.
\<close>

definition insert_ignore ::
    "('r \<Rightarrow> 'k) \<Rightarrow> ('s \<Rightarrow> 'r list) \<Rightarrow> (('r list \<Rightarrow> 'r list) \<Rightarrow> 's \<Rightarrow> 's) \<Rightarrow> bool \<Rightarrow> 'r \<Rightarrow> ('s, unit) action" where
  "insert_ignore key rows upd check x s =
     (if \<not> check then (Inl (IntegrityError ''check constraint''), s)
      else if row_of key (key x) (rows s) \<noteq> None then (Inr (), s)
      else (Inr (), upd (\<lambda>xs. xs @ [x]) s))"

definition insert_row ::
    "('r \<Rightarrow> 'k) \<Rightarrow> ('s \<Rightarrow> 'r list) \<Rightarrow> (('r list \<Rightarrow> 'r list) \<Rightarrow> 's \<Rightarrow> 's) \<Rightarrow> ('s \<Rightarrow> bool) \<Rightarrow> 'r \<Rightarrow> ('s, unit) action" where
  "insert_row key rows upd check x s =
     (if \<not> check s \<or> row_of key (key x) (rows s) \<noteq> None then (Inl (IntegrityError ''constraint''), s)
      else (Inr (), upd (\<lambda>xs. xs @ [x]) s))"

lemma row_of_Some: "row_of key k rows = Some x \<Longrightarrow> x \<in> set rows \<and> key x = k"
  unfolding row_of_def by (rule find_Some_mem)

lemma row_of_None: "row_of key k rows = None \<longleftrightarrow> k \<notin> key ` set rows"
  by (auto simp: row_of_def find_None_iff_all)

lemma row_of_append_old: "row_of key k rows = Some x \<Longrightarrow> row_of key k (rows @ new) = Some x"
  by (simp add: row_of_def find_append)

lemma row_of_extends: "extends xs ys \<Longrightarrow> row_of key k xs = Some x \<Longrightarrow> row_of key k ys = Some x"
  unfolding extends_def by (metis append_take_drop_id row_of_append_old)

lemma row_of_snoc [simp]: "row_of key (key x) (rows @ [x]) = Some (case row_of key (key x) rows of None \<Rightarrow> x | Some y \<Rightarrow> y)"
  by (simp add: row_of_def find_append split: option.splits)

lemma insert_ignore_Inr:
  "insert_ignore key rows upd check x s = (Inr u, t) \<longleftrightarrow>
     check \<and> t = (if row_of key (key x) (rows s) = None then upd (\<lambda>xs. xs @ [x]) s else s)"
  by (auto simp: insert_ignore_def)

lemma insert_row_Inr:
  "insert_row key rows upd check x s = (Inr u, t) \<longleftrightarrow>
     check s \<and> row_of key (key x) (rows s) = None \<and> t = upd (\<lambda>xs. xs @ [x]) s"
  by (auto simp: insert_row_def)

text \<open>
  A store in which the first writer of a key wins: an entry is found by its key and is
  never changed; writing the same facts again returns it, writing other facts raises.
  \<open>'f\<close> is what every write draws fresh (ids, the clock).
\<close>

locale write_once =
  fixes inv :: "'s \<Rightarrow> bool" and lookup :: "'k \<Rightarrow> 's \<Rightarrow> 'v option" and key :: "'a \<Rightarrow> 'k"
    and same :: "'v \<Rightarrow> 'a \<Rightarrow> bool" and put :: "'f \<Rightarrow> 'a \<Rightarrow> ('s, 'v) action"
  assumes put_inv: "inv s \<Longrightarrow> inv (snd (put f a s))"
    and put_error: "inv s \<Longrightarrow> put f a s = (Inl e, s') \<Longrightarrow> s' = s"
    and put_known: "inv s \<Longrightarrow> lookup (key a) s = Some v \<Longrightarrow> put f a s = (Inr w, s') \<Longrightarrow>
      w = v \<and> s' = s \<and> same v a"
    and put_again: "inv s \<Longrightarrow> put f a s = (Inr v, s') \<Longrightarrow> put g a s' = (Inr v, s')"
    and put_new: "inv s \<Longrightarrow> lookup (key a) s = None \<Longrightarrow> put f a s = (Inr v, s') \<Longrightarrow>
      lookup (key a) s' = Some v"
    and put_other: "inv s \<Longrightarrow> k \<noteq> key a \<Longrightarrow> lookup k (snd (put f a s)) = lookup k s"
begin

lemma put_lookup: "inv s \<Longrightarrow> put f a s = (Inr v, s') \<Longrightarrow> lookup (key a) s' = Some v"
proof -
  assume inv: "inv s" and p: "put f a s = (Inr v, s')"
  show ?thesis
  proof (cases "lookup (key a) s")
    case None
    from put_new [OF inv None p] show ?thesis .
  next
    case (Some w)
    with put_known [OF inv Some p] show ?thesis by simp
  qed
qed

text \<open>No write changes an entry, its own key's included.\<close>

lemma entry_fixed: "inv s \<Longrightarrow> lookup k s = Some v \<Longrightarrow> lookup k (snd (put f a s)) = Some v"
proof -
  assume inv: "inv s" and v: "lookup k s = Some v"
  show ?thesis
  proof (cases "k = key a")
    case False
    then show ?thesis using put_other [OF inv False, of f] v by simp
  next
    case True
    obtain r s' where p: "put f a s = (r, s')" by fastforce
    show ?thesis
    proof (cases r)
      case (Inl e)
      then have "s' = s" using put_error [OF inv] p by blast
      then show ?thesis using p v by simp
    next
      case (Inr w)
      have "lookup (key a) s = Some v" using v True by simp
      from put_known [OF inv this, of f w s'] show ?thesis using p Inr v by simp
    qed
  qed
qed

lemma entry_fixed_run:
  "inv s \<Longrightarrow> lookup k s = Some v \<Longrightarrow> lookup k (fold (\<lambda>(f, a) s. snd (put f a s)) ws s) = Some v"
proof (induction ws arbitrary: s)
  case (Cons w ws)
  obtain f a where "w = (f, a)" by (cases w)
  then show ?case using Cons entry_fixed put_inv by (simp add: split_beta)
qed simp

text \<open>A second write of the key with other facts raises and changes nothing, at any later time.\<close>

lemma conflict_raises:
  assumes "inv s" "lookup (key b) s = Some v" "\<not> same v b"
  shows "\<exists>e. put g b s = (Inl e, s)"
proof -
  obtain r s' where p: "put g b s = (r, s')" by fastforce
  show ?thesis
  proof (cases r)
    case (Inl e)
    then have "s' = s" using put_error [OF assms(1)] p by blast
    then show ?thesis using p Inl by simp
  next
    case (Inr w)
    then show ?thesis using put_known [OF assms(1,2), of g w s'] p assms(3) by simp
  qed
qed

end

end
