(* ===== verification/PyText.thy ===== *)
theory PyText
  imports Prelude
begin

text \<open>
  The text operations of Python's standard library the sources use: \<open>str.strip\<close>,
  \<open>str.rstrip('/')\<close>, \<open>str.upper\<close>, \<open>str.startswith\<close>, \<open>sep.join\<close>, \<open>str\<close> and \<open>int\<close> between
  integers and text, and the two regular expressions for lower-case SHA-256 text and for
  market tickers. Each decimal text is proved to read back as the number it was printed from.
\<close>

section \<open>Whitespace\<close>

definition unicode_space :: "char \<Rightarrow> bool" where
  "unicode_space c = (let n = (of_char c :: nat) in
     9 \<le> n \<and> n \<le> 13 \<or> 28 \<le> n \<and> n \<le> 32 \<or> n = 133 \<or> n = 160)"

definition strip :: "string \<Rightarrow> string" where
  "strip s = rev (dropWhile unicode_space (rev (dropWhile unicode_space s)))"

definition rstrip_slash :: "string \<Rightarrow> string" where
  "rstrip_slash s = rev (dropWhile (\<lambda>c. c = CHR ''/'') (rev s))"

lemma dropWhile_idem: "dropWhile P (dropWhile P xs) = dropWhile P xs"
  by (induction xs) auto

lemma hd_dropWhile_not: "dropWhile P xs = y # ys \<Longrightarrow> \<not> P y"
  by (induction xs) (auto split: if_splits)

lemma strip_Nil [simp]: "strip [] = []"
  by (simp add: strip_def)

lemma strip_eq_Nil_iff: "strip s = [] \<longleftrightarrow> (\<forall>c \<in> set s. unicode_space c)"
proof
  assume "strip s = []"
  then have "\<forall>c \<in> set (dropWhile unicode_space s). unicode_space c"
    by (simp add: strip_def dropWhile_eq_Nil_conv)
  then have "dropWhile unicode_space s = []"
    by (cases "dropWhile unicode_space s") (auto dest: hd_dropWhile_not)
  then show "\<forall>c \<in> set s. unicode_space c"
    by (simp add: dropWhile_eq_Nil_conv)
next
  assume "\<forall>c \<in> set s. unicode_space c"
  then have "dropWhile unicode_space s = []"
    by (simp add: dropWhile_eq_Nil_conv)
  then show "strip s = []" unfolding strip_def by (simp only: rev.simps dropWhile.simps)
qed

text \<open>A stripped text neither starts nor ends with whitespace, so stripping is idempotent.\<close>

definition stripped :: "string \<Rightarrow> bool" where
  "stripped s = (s = [] \<or> \<not> unicode_space (hd s) \<and> \<not> unicode_space (last s))"

lemma strip_stripped_eq: "stripped s \<Longrightarrow> strip s = s"
proof (cases s)
  case Nil
  then show ?thesis by simp
next
  case (Cons c cs)
  assume "stripped s"
  with Cons have h: "\<not> unicode_space c" and l: "\<not> unicode_space (last s)"
    by (auto simp: stripped_def)
  from l Cons obtain d ds where "rev s = d # ds" and "\<not> unicode_space d"
    by (metis hd_rev list.discI list.exhaust_sel rev_is_Nil_conv)
  then have "dropWhile unicode_space (rev s) = rev s" by simp
  with h Cons show ?thesis by (simp add: strip_def)
qed

lemma last_dropWhile: "dropWhile P xs \<noteq> [] \<Longrightarrow> last (dropWhile P xs) = last xs"
  by (induction xs) auto

lemma stripped_strip: "stripped (strip s)"
proof (cases "strip s = []")
  case True
  then show ?thesis by (simp add: stripped_def)
next
  case False
  let ?t = "dropWhile unicode_space s"
  let ?r = "dropWhile unicode_space (rev ?t)"
  from False have r: "?r \<noteq> []" by (simp add: strip_def)
  then obtain x xs where x: "?r = x # xs" by (cases ?r) auto
  then have "\<not> unicode_space x" by (rule hd_dropWhile_not)
  then have last: "\<not> unicode_space (last (strip s))"
    using x by (simp add: strip_def)
  from r have t: "?t \<noteq> []" by (cases ?t) simp_all
  then obtain y ys where y: "?t = y # ys" by (cases ?t) auto
  then have "\<not> unicode_space y" by (rule hd_dropWhile_not)
  moreover have "hd (strip s) = hd ?t"
    using last_dropWhile [OF r] r t by (simp add: strip_def hd_rev last_rev)
  ultimately have "\<not> unicode_space (hd (strip s))" using y by simp
  with last show ?thesis by (simp add: stripped_def)
qed

lemma strip_strip [simp]: "strip (strip s) = strip s"
  by (rule strip_stripped_eq [OF stripped_strip])

section \<open>Decimal digits\<close>

definition is_digit :: "char \<Rightarrow> bool" where
  "is_digit c = (let n = (of_char c :: nat) in 48 \<le> n \<and> n \<le> 57)"

definition digit_char :: "nat \<Rightarrow> char" where
  "digit_char n = char_of (48 + n)"

definition digit_val :: "char \<Rightarrow> nat" where
  "digit_val c = of_char c - 48"

fun digits_val_from :: "nat \<Rightarrow> string \<Rightarrow> nat" where
  "digits_val_from acc [] = acc"
| "digits_val_from acc (c # cs) = digits_val_from (10 * acc + digit_val c) cs"

definition digits_val :: "string \<Rightarrow> nat" where
  "digits_val s = digits_val_from 0 s"

fun nat_str :: "nat \<Rightarrow> string" where
  "nat_str n = (if n < 10 then [digit_char n] else nat_str (n div 10) @ [digit_char (n mod 10)])"

declare nat_str.simps [simp del]

text \<open>Python's \<open>str(int)\<close>.\<close>

definition int_str :: "int \<Rightarrow> string" where
  "int_str i = (if i < 0 then CHR ''-'' # nat_str (nat (- i)) else nat_str (nat i))"

lemma digit_char_digit: "n < 10 \<Longrightarrow> is_digit (digit_char n)"
  by (simp add: is_digit_def digit_char_def Let_def)

lemma digit_val_digit_char: "n < 10 \<Longrightarrow> digit_val (digit_char n) = n"
  by (simp add: digit_val_def digit_char_def)

lemma digits_val_from_append:
  "digits_val_from acc (xs @ ys) = digits_val_from (digits_val_from acc xs) ys"
  by (induction xs arbitrary: acc) auto

lemma digits_val_from_power:
  "digits_val_from acc xs = acc * 10 ^ length xs + digits_val xs"
proof (induction xs arbitrary: acc)
  case Nil
  show ?case by (simp add: digits_val_def)
next
  case (Cons x xs)
  have "digits_val_from acc (x # xs) = (10 * acc + digit_val x) * 10 ^ length xs + digits_val xs"
    by (simp only: digits_val_from.simps Cons [of "10 * acc + digit_val x"])
  moreover have "digits_val (x # xs) = digit_val x * 10 ^ length xs + digits_val xs"
    by (simp only: digits_val_def [of "x # xs"] digits_val_from.simps Cons [of "10 * 0 + digit_val x"])
      simp
  ultimately show ?case by (simp add: add_mult_distrib)
qed

lemma digits_val_append:
  "digits_val (xs @ ys) = digits_val xs * 10 ^ length ys + digits_val ys"
  by (metis digits_val_def digits_val_from_append digits_val_from_power)

lemma nat_str_digits: "\<forall>c \<in> set (nat_str n). is_digit c"
proof (induction n rule: nat_str.induct)
  case (1 n)
  then show ?case
    by (subst nat_str.simps) (auto simp: digit_char_digit)
qed

lemma nat_str_nonempty [simp]: "nat_str n \<noteq> []"
  by (subst nat_str.simps) simp

lemma digits_val_nat_str [simp]: "digits_val (nat_str n) = n"
proof (induction n rule: nat_str.induct)
  case (1 n)
  show ?case
  proof (cases "n < 10")
    case True
    then show ?thesis
      by (subst nat_str.simps) (simp add: digits_val_def digit_val_digit_char)
  next
    case False
    with 1 show ?thesis
      by (subst nat_str.simps) (simp add: digits_val_append, simp add: digits_val_def digit_val_digit_char)
  qed
qed

lemma nat_str_inject [simp]: "nat_str m = nat_str n \<longleftrightarrow> m = n"
  by (metis digits_val_nat_str)

lemma digits_val_zeros: "digits_val (replicate k CHR ''0'' @ s) = digits_val s"
  by (induction k) (auto simp: digits_val_def digit_val_def)

lemma digits_val_bound: "\<forall>c \<in> set s. is_digit c \<Longrightarrow> digits_val s < 10 ^ length s"
proof (induction s rule: rev_induct)
  case Nil
  show ?case by (simp add: digits_val_def)
next
  case (snoc c s)
  then have "digit_val c < 10" "digits_val s < 10 ^ length s"
    by (auto simp: is_digit_def digit_val_def Let_def)
  then show ?case
    by (simp add: digits_val_append, simp add: digits_val_def)
qed

section \<open>\<open>int(text)\<close>\<close>

text \<open>Digits with single underscores between them.\<close>

fun int_digits :: "bool \<Rightarrow> string \<Rightarrow> string option" where
  "int_digits after [] = (if after then Some [] else None)"
| "int_digits after (c # cs) =
     (if is_digit c then map_option ((#) c) (int_digits True cs)
      else if c = CHR ''_'' \<and> after then int_digits False cs
      else None)"

definition py_int_of_str :: "string \<Rightarrow> int option" where
  "py_int_of_str s = (case strip s of
      [] \<Rightarrow> None
    | c # cs \<Rightarrow>
        (if c = CHR ''-'' then map_option (\<lambda>d. - int (digits_val d)) (int_digits False cs)
         else if c = CHR ''+'' then map_option (\<lambda>d. int (digits_val d)) (int_digits False cs)
         else map_option (\<lambda>d. int (digits_val d)) (int_digits False (c # cs))))"

lemma int_digits_all: "\<forall>c \<in> set s. is_digit c \<Longrightarrow> s \<noteq> [] \<or> b \<Longrightarrow> int_digits b s = Some s"
  by (induction s arbitrary: b) auto

lemma digit_not_space: "is_digit c \<Longrightarrow> \<not> unicode_space c"
  by (simp add: is_digit_def unicode_space_def Let_def)

lemma digit_neq [simp]:
  "\<not> is_digit CHR ''-''" "\<not> is_digit CHR ''+''" "\<not> is_digit CHR ''.''" "\<not> is_digit CHR ''_''"
  "\<not> is_digit CHR ''E''" "\<not> is_digit CHR ''e''"
  by (simp_all add: is_digit_def Let_def)

lemma int_str_stripped: "stripped (int_str i)"
proof -
  have "\<not> unicode_space (hd (nat_str n))" "\<not> unicode_space (last (nat_str n))" for n
    using nat_str_digits [of n] by (simp_all add: digit_not_space)
  moreover have "\<not> unicode_space CHR ''-''" by (simp add: unicode_space_def)
  ultimately show ?thesis by (simp add: stripped_def int_str_def)
qed

lemma py_int_of_str_int_str: "py_int_of_str (int_str i) = Some i"
proof (cases "i < 0")
  case True
  then show ?thesis
    using int_digits_all [OF nat_str_digits, of "nat (- i)" False]
    by (simp add: py_int_of_str_def strip_stripped_eq [OF int_str_stripped]) (simp add: int_str_def)
next
  case False
  obtain c cs where c: "nat_str (nat i) = c # cs" by (cases "nat_str (nat i)") auto
  with nat_str_digits [of "nat i"] have "is_digit c" by auto
  then have "c \<noteq> CHR ''-''" "c \<noteq> CHR ''+''" by auto
  then show ?thesis
    using False c int_digits_all [OF nat_str_digits, of "nat i" False] digits_val_nat_str [of "nat i"]
    by (simp add: py_int_of_str_def strip_stripped_eq [OF int_str_stripped]) (simp add: int_str_def)
qed

section \<open>Case, prefixes, joining\<close>

text \<open>\<open>str.upper\<close> on ASCII text.\<close>

definition upper_char :: "char \<Rightarrow> char" where
  "upper_char c = (let n = (of_char c :: nat) in if 97 \<le> n \<and> n \<le> 122 then char_of (n - 32) else c)"

definition py_upper :: "string \<Rightarrow> string" where
  "py_upper s = map upper_char s"

definition startswith :: "string \<Rightarrow> string \<Rightarrow> bool" where
  "startswith s p = (take (length p) s = p)"

fun join :: "string \<Rightarrow> string list \<Rightarrow> string" where
  "join sep [] = []"
| "join sep [x] = x"
| "join sep (x # y # ys) = x @ sep @ join sep (y # ys)"

fun contains :: "string \<Rightarrow> string \<Rightarrow> bool" where
  "contains [] p = (p = [])"
| "contains (c # cs) p = (startswith (c # cs) p \<or> contains cs p)"

section \<open>Regular expressions\<close>

text \<open>\<open>[0-9a-f]{64}\<close> and \<open>[A-Z0-9.-]+\<close>, matched against the whole text.\<close>

definition sha256_text :: "string \<Rightarrow> bool" where
  "sha256_text s = (length s = 64 \<and>
     list_all (\<lambda>c. is_digit c \<or> (let n = (of_char c :: nat) in 97 \<le> n \<and> n \<le> 102)) s)"

definition upper_letter :: "char \<Rightarrow> bool" where
  "upper_letter c = (let n = (of_char c :: nat) in 65 \<le> n \<and> n \<le> 90)"

definition ticker_char :: "char \<Rightarrow> bool" where
  "ticker_char c = (upper_letter c \<or> is_digit c \<or> c = CHR ''.'' \<or> c = CHR ''-'')"

definition market_ticker_text :: "string \<Rightarrow> bool" where
  "market_ticker_text s = (s \<noteq> [] \<and> list_all ticker_char s)"

end
