(* ===== verification/Decimals.thy ===== *)
theory Decimals
  imports PyText Complex_Main
begin

text \<open>
  Python's \<open>decimal.Decimal\<close>, as far as the sources use it: finite decimals as sign,
  coefficient and exponent (the text form of a value depends on all three), the constructor
  on text, \<open>format(d, 'f')\<close>, \<open>quantize\<close>, addition and multiplication rounded half-even to
  the precision of the context, and truncation. Comparisons are of the exact numeric
  values, \<open>dval\<close>.

  The exponent range of the C implementation (\<open>MAX_EMAX = 999999999999999999\<close>) and the
  context's \<open>Emax = 999999\<close> are not modelled: they bind only beyond the 28 digits of the
  context's precision, where \<open>quantize\<close> has already refused.
\<close>

datatype dec = Dec (dsign: bool) (dcoef: nat) (dexp: int)

datatype pydec = Fin dec | PInf bool | PNaN

text \<open>The precision of the default context (\<open>getcontext().prec\<close>).\<close>

definition default_prec :: nat where
  "default_prec = 28"

section \<open>Values\<close>

definition dnum :: "dec \<Rightarrow> int" where
  "dnum d = (if dsign d then - int (dcoef d) else int (dcoef d))"

definition dval :: "dec \<Rightarrow> rat" where
  "dval d = of_int (dnum d) * 10 powi dexp d"

lemma dval_Dec [code]:
  "dval (Dec s n e) =
     (if s then - of_nat n else of_nat n) * (if 0 \<le> e then 10 ^ nat e else 1 / 10 ^ nat (- e))"
  by (simp add: dval_def dnum_def power_int_def inverse_eq_divide power_one_over)

text \<open>The number of units of \<open>10 powi q\<close> in a decimal whose exponent is at least \<open>q\<close>.\<close>

definition dunits :: "int \<Rightarrow> dec \<Rightarrow> int" where
  "dunits q d = dnum d * 10 ^ nat (dexp d - q)"

lemma powi_ge_zero_split: "q \<le> e \<Longrightarrow> (10::rat) powi e = 10 ^ nat (e - q) * 10 powi q"
proof -
  assume qe: "q \<le> e"
  have "(10::rat) powi ((e - q) + q) = 10 powi (e - q) * 10 powi q"
    by (rule power_int_add) simp
  moreover have "(10::rat) powi (e - q) = 10 ^ nat (e - q)"
    using qe by (simp add: power_int_def)
  ultimately show ?thesis by simp
qed

lemma dval_dunits: "q \<le> dexp d \<Longrightarrow> dval d = of_int (dunits q d) * 10 powi q"
  by (simp add: dval_def dunits_def powi_ge_zero_split)

lemma dval_eq_dunits_iff:
  assumes "q \<le> dexp a" and "q \<le> dexp b"
  shows "dval a = dval b \<longleftrightarrow> dunits q a = dunits q b"
    and "dval a \<le> dval b \<longleftrightarrow> dunits q a \<le> dunits q b"
    and "dval a < dval b \<longleftrightarrow> dunits q a < dunits q b"
  by (simp_all add: dval_dunits [OF assms(1)] dval_dunits [OF assms(2)])

lemma dval_nonneg_iff: "0 \<le> dval d \<longleftrightarrow> 0 \<le> dnum d"
proof -
  obtain p :: rat where p: "p = 10 powi dexp d" and "0 < p" by simp
  then show ?thesis by (auto simp: dval_def zero_le_mult_iff simp flip: p)
qed

lemma dval_zero_iff: "dval d = 0 \<longleftrightarrow> dcoef d = 0"
  by (simp add: dval_def dnum_def)

section \<open>Digits\<close>

fun ndigits :: "nat \<Rightarrow> nat" where
  "ndigits n = (if n < 10 then 1 else Suc (ndigits (n div 10)))"

declare ndigits.simps [simp del]

lemma ndigits_le_iff: "0 < k \<Longrightarrow> ndigits n \<le> k \<longleftrightarrow> n < 10 ^ k"
proof (induction n arbitrary: k rule: ndigits.induct)
  case (1 n)
  show ?case
  proof (cases "n < 10")
    case True
    with "1.prems" have "(10::nat) ^ 1 \<le> 10 ^ k" by (intro power_increasing) auto
    with True "1.prems" show ?thesis by (subst ndigits.simps) simp
  next
    case False
    show ?thesis
    proof (cases "k = 1")
      case True
      with False show ?thesis by (subst ndigits.simps) (simp add: ndigits.simps)
    next
      case kn: False
      with "1.prems" obtain j where j: "k = Suc j" "0 < j" by (cases k) auto
      have "ndigits n \<le> k \<longleftrightarrow> n div 10 < 10 ^ j"
        using False j "1.IH" [OF False j(2)] by (subst ndigits.simps) simp
      also have "\<dots> \<longleftrightarrow> n < 10 ^ k"
        using j by (simp add: div_less_iff_less_mult mult.commute)
      finally show ?thesis .
    qed
  qed
qed

section \<open>Rounding\<close>

definition div_half_even :: "nat \<Rightarrow> nat \<Rightarrow> nat" where
  "div_half_even a b = (let q = a div b; r = a mod b in
     if 2 * r < b then q else if 2 * r > b then Suc q else if even q then q else Suc q)"

text \<open>Give a decimal the exponent \<open>e\<close>, rounding half-even.\<close>

definition dec_rescale :: "dec \<Rightarrow> int \<Rightarrow> dec" where
  "dec_rescale d e =
     (if e \<le> dexp d then Dec (dsign d) (dcoef d * 10 ^ nat (dexp d - e)) e
      else Dec (dsign d) (div_half_even (dcoef d) (10 ^ nat (e - dexp d))) e)"

text \<open>\<open>d.quantize(q)\<close> for a \<open>q\<close> with exponent \<open>e\<close>; \<open>None\<close> is \<open>InvalidOperation\<close>.\<close>

definition dec_quantize :: "nat \<Rightarrow> dec \<Rightarrow> int \<Rightarrow> dec option" where
  "dec_quantize p d e =
     (let r = dec_rescale d e in if ndigits (dcoef r) \<le> p then Some r else None)"

text \<open>Round a result to \<open>p\<close> digits.\<close>

definition dec_fix :: "nat \<Rightarrow> dec \<Rightarrow> dec" where
  "dec_fix p d = (let n = ndigits (dcoef d) in
     if n \<le> p then d
     else let k = n - p; c = div_half_even (dcoef d) (10 ^ k) in
       if c = 10 ^ p then Dec (dsign d) (10 ^ (p - 1)) (dexp d + int k + 1)
       else Dec (dsign d) c (dexp d + int k))"

definition dec_add_exact :: "dec \<Rightarrow> dec \<Rightarrow> dec" where
  "dec_add_exact a b =
     (let e = min (dexp a) (dexp b);
          n = dunits e a + dunits e b
      in Dec (if n = 0 then dsign a \<and> dsign b else n < 0) (nat \<bar>n\<bar>) e)"

definition dec_add :: "nat \<Rightarrow> dec \<Rightarrow> dec \<Rightarrow> dec" where
  "dec_add p a b = dec_fix p (dec_add_exact a b)"

definition dec_mul :: "nat \<Rightarrow> dec \<Rightarrow> dec \<Rightarrow> dec" where
  "dec_mul p a b = dec_fix p (Dec (dsign a \<noteq> dsign b) (dcoef a * dcoef b) (dexp a + dexp b))"

text \<open>\<open>d.to_integral_value(rounding=ROUND_DOWN)\<close>\<close>

definition dec_trunc :: "dec \<Rightarrow> dec" where
  "dec_trunc d = (if 0 \<le> dexp d then d else Dec (dsign d) (dcoef d div 10 ^ nat (- dexp d)) 0)"

definition dec_of_int :: "int \<Rightarrow> dec" where
  "dec_of_int n = Dec (n < 0) (nat \<bar>n\<bar>) 0"

definition dzero :: dec where
  "dzero = Dec False 0 0"

lemma dval_dzero [simp]: "dval dzero = 0"
  by (simp add: dval_def dzero_def dnum_def)

lemma dval_dec_of_int [simp]: "dval (dec_of_int n) = of_int n"
  by (simp add: dval_def dec_of_int_def dnum_def)

lemma dec_rescale_exact: "e \<le> dexp d \<Longrightarrow> dval (dec_rescale d e) = dval d"
  by (simp add: dec_rescale_def dval_def dnum_def powi_ge_zero_split)

lemma dec_quantize_exact:
  "e \<le> dexp d \<Longrightarrow> dec_quantize p d e = Some r \<Longrightarrow> dval r = dval d \<and> dexp r = e"
  by (auto simp: dec_quantize_def Let_def dec_rescale_exact split: if_splits)
    (simp add: dec_rescale_def)

lemma dec_quantize_Some_iff:
  "e \<le> dexp d \<Longrightarrow> 0 < p \<Longrightarrow>
     (\<exists>r. dec_quantize p d e = Some r) \<longleftrightarrow> dcoef d * 10 ^ nat (dexp d - e) < 10 ^ p"
  by (simp add: dec_quantize_def dec_rescale_def Let_def ndigits_le_iff)

lemma dec_fix_exact: "ndigits (dcoef d) \<le> p \<Longrightarrow> dec_fix p d = d"
  by (simp add: dec_fix_def)

lemma dexp_fix: "dexp d \<le> dexp (dec_fix p d)"
  by (auto simp: dec_fix_def Let_def)

lemma dval_add_exact: "dval (dec_add_exact a b) = dval a + dval b"
proof -
  let ?e = "min (dexp a) (dexp b)"
  have "dval (dec_add_exact a b) = of_int (dunits ?e a + dunits ?e b) * 10 powi ?e"
    by (auto simp: dec_add_exact_def dval_def dnum_def Let_def)
  then show ?thesis
    using dval_dunits [of ?e a] dval_dunits [of ?e b] by (simp add: distrib_right)
qed

lemma dexp_add_exact [simp]: "dexp (dec_add_exact a b) = min (dexp a) (dexp b)"
  by (simp add: dec_add_exact_def Let_def)

lemma dexp_add: "min (dexp a) (dexp b) \<le> dexp (dec_add p a b)"
  using dexp_fix [of "dec_add_exact a b" p] by (simp add: dec_add_def)

text \<open>
  Addition is exact unless the sum has more than \<open>p\<close> digits at the smaller of the two
  exponents.
\<close>

lemma dec_add_within:
  assumes "0 < p" and "\<bar>dunits (min (dexp a) (dexp b)) a + dunits (min (dexp a) (dexp b)) b\<bar> < 10 ^ p"
  shows "dec_add p a b = dec_add_exact a b"
proof -
  let ?e = "min (dexp a) (dexp b)"
  have "nat \<bar>dunits ?e a + dunits ?e b\<bar> < 10 ^ p"
    using assms(2) by (simp add: nat_less_iff)
  then have "ndigits (dcoef (dec_add_exact a b)) \<le> p"
    using assms(1) by (simp add: dec_add_exact_def Let_def ndigits_le_iff)
  then show ?thesis by (simp add: dec_add_def dec_fix_exact)
qed

lemma dec_add_exact_of_bound:
  assumes "0 < p" "q \<le> 0" "q \<le> dexp a" "q \<le> dexp b"
    and "\<bar>dval a + dval b\<bar> < 10 powi (int p + q)"
  shows "dval (dec_add p a b) = dval a + dval b" and "q \<le> dexp (dec_add p a b)"
proof -
  let ?e = "min (dexp a) (dexp b)"
  let ?n = "dunits ?e a + dunits ?e b"
  have qe: "q \<le> ?e" using assms by simp
  have v: "dval a + dval b = of_int ?n * 10 powi ?e"
    using dval_dunits [of ?e a] dval_dunits [of ?e b] by (simp add: distrib_right)
  have "\<bar>of_int ?n * (10 ^ nat (?e - q) * 10 powi q)\<bar> < 10 powi (int p) * (10::rat) powi q"
    using assms(5) v powi_ge_zero_split [OF qe] by (simp add: power_int_add)
  then have "\<bar>of_int ?n * (10::rat) ^ nat (?e - q)\<bar> * 10 powi q < 10 ^ p * 10 powi q"
    by (simp add: abs_mult mult.assoc)
  then have b: "\<bar>of_int ?n * (10::rat) ^ nat (?e - q)\<bar> < 10 ^ p"
    by (simp add: mult_less_cancel_right)
  have "\<bar>of_int ?n\<bar> * 1 \<le> \<bar>of_int ?n\<bar> * (10::rat) ^ nat (?e - q)"
    by (rule mult_left_mono) auto
  with b have "\<bar>of_int ?n :: rat\<bar> < 10 ^ p" by (simp add: abs_mult)
  then have "(of_int \<bar>?n\<bar> :: rat) < of_int (10 ^ p)" by simp
  then have "\<bar>?n\<bar> < 10 ^ p" by (simp only: of_int_less_iff)
  then have "dec_add p a b = dec_add_exact a b" by (rule dec_add_within [OF assms(1)])
  then show "dval (dec_add p a b) = dval a + dval b" and "q \<le> dexp (dec_add p a b)"
    using qe by (simp_all add: dval_add_exact)
qed

section \<open>Text\<close>

definition lower_char :: "char \<Rightarrow> char" where
  "lower_char c = (let n = (of_char c :: nat) in if 65 \<le> n \<and> n \<le> 90 then char_of (n + 32) else c)"

definition parse_special :: "bool \<Rightarrow> string \<Rightarrow> pydec option" where
  "parse_special neg s = (let t = map lower_char s in
     if t = ''inf'' \<or> t = ''infinity'' then Some (PInf neg)
     else if take 3 t = ''nan'' \<and> list_all is_digit (drop 3 t) then Some PNaN
     else if take 4 t = ''snan'' \<and> list_all is_digit (drop 4 t) then Some PNaN
     else None)"

definition parse_exponent :: "string \<Rightarrow> int option" where
  "parse_exponent s = (case s of
      [] \<Rightarrow> Some 0
    | c # cs \<Rightarrow>
        if c = CHR ''e'' \<or> c = CHR ''E'' then
          (let neg = (cs \<noteq> [] \<and> hd cs = CHR ''-'');
               ds = (if cs \<noteq> [] \<and> (hd cs = CHR ''-'' \<or> hd cs = CHR ''+'') then tl cs else cs)
           in if ds \<noteq> [] \<and> list_all is_digit ds
              then Some (if neg then - int (digits_val ds) else int (digits_val ds)) else None)
        else None)"

definition parse_unsigned :: "bool \<Rightarrow> string \<Rightarrow> pydec option" where
  "parse_unsigned neg s =
     (let ip = takeWhile is_digit s; r = dropWhile is_digit s;
          dot = (r \<noteq> [] \<and> hd r = CHR ''.'');
          fp = (if dot then takeWhile is_digit (tl r) else []);
          r' = (if dot then dropWhile is_digit (tl r) else r)
      in if ip @ fp = [] then parse_special neg s
         else case parse_exponent r' of
             None \<Rightarrow> None
           | Some e \<Rightarrow> Some (Fin (Dec neg (digits_val (ip @ fp)) (e - int (length fp)))))"

text \<open>\<open>Decimal(text)\<close>; \<open>None\<close> is \<open>InvalidOperation\<close>.\<close>

definition parse_decimal :: "string \<Rightarrow> pydec option" where
  "parse_decimal text = (let s = filter (\<lambda>c. c \<noteq> CHR ''_'') (strip text) in
     if s \<noteq> [] \<and> hd s = CHR ''-'' then parse_unsigned True (tl s)
     else if s \<noteq> [] \<and> hd s = CHR ''+'' then parse_unsigned False (tl s)
     else parse_unsigned False s)"

text \<open>\<open>format(d, 'f')\<close>\<close>

definition format_abs :: "nat \<Rightarrow> int \<Rightarrow> string" where
  "format_abs c e =
     (if 0 \<le> e then (if c = 0 then ''0'' else nat_str c @ replicate (nat e) CHR ''0'')
      else let k = nat (- e);
               ds = replicate (Suc k - length (nat_str c)) CHR ''0'' @ nat_str c;
               i = length ds - k
           in take i ds @ CHR ''.'' # drop i ds)"

definition format_f :: "dec \<Rightarrow> string" where
  "format_f d = (if dsign d then CHR ''-'' # format_abs (dcoef d) (dexp d)
     else format_abs (dcoef d) (dexp d))"

lemma is_digit_zero [simp]: "is_digit CHR ''0''"
  by (simp add: is_digit_def)

lemma takeWhile_dropWhile_digits:
  assumes "\<forall>c \<in> set a. is_digit c" and "b = [] \<or> \<not> is_digit (hd b)"
  shows "takeWhile is_digit (a @ b) = a" and "dropWhile is_digit (a @ b) = b"
  using assms by (cases b; simp add: takeWhile_append2)+

lemma takeWhile_all_digits:
  "\<forall>c \<in> set a. is_digit c \<Longrightarrow> takeWhile is_digit a = a"
  "\<forall>c \<in> set a. is_digit c \<Longrightarrow> dropWhile is_digit a = []"
  by (simp_all add: takeWhile_eq_all_conv dropWhile_eq_Nil_conv)

lemma parse_unsigned_digits:
  assumes "\<forall>c \<in> set a. is_digit c" and "a \<noteq> []"
  shows "parse_unsigned neg a = Some (Fin (Dec neg (digits_val a) 0))"
  using assms by (simp add: parse_unsigned_def parse_exponent_def takeWhile_all_digits)

lemma parse_unsigned_fraction:
  assumes "\<forall>c \<in> set a. is_digit c" and "\<forall>c \<in> set b. is_digit c" and "a \<noteq> []"
  shows "parse_unsigned neg (a @ CHR ''.'' # b) =
    Some (Fin (Dec neg (digits_val (a @ b)) (- int (length b))))"
  using takeWhile_dropWhile_digits [of a "CHR ''.'' # b"] assms
  by (simp add: parse_unsigned_def parse_exponent_def takeWhile_all_digits)

lemma format_abs_chars:
  "\<forall>c \<in> set (format_abs c e). is_digit c \<or> c = CHR ''.''" "format_abs c e \<noteq> []"
  "is_digit (hd (format_abs c e))"
proof -
  let ?k = "nat (- e)"
  let ?ds = "replicate (Suc ?k - length (nat_str c)) CHR ''0'' @ nat_str c"
  have ds: "\<forall>c \<in> set ?ds. is_digit c"
    using nat_str_digits [of c] by auto
  have "0 < length ?ds - ?k" by simp
  then obtain d ds' where c: "take (length ?ds - ?k) ?ds = d # ds'"
    by (metis append_is_Nil_conv list.exhaust nat_str_nonempty neq0_conv take_eq_Nil)
  then have "is_digit d"
    using ds by (metis in_set_takeD list.set_intros(1))
  with c show "is_digit (hd (format_abs c e))"
    using nat_str_digits [of c] by (auto simp: format_abs_def Let_def hd_append)
  show "\<forall>c \<in> set (format_abs c e). is_digit c \<or> c = CHR ''.''"
    using ds nat_str_digits [of c]
    by (auto simp: format_abs_def Let_def dest!: in_set_takeD in_set_dropD)
  show "format_abs c e \<noteq> []"
    by (simp add: format_abs_def Let_def)
qed

lemma format_f_stripped: "stripped (format_f d)"
proof -
  have plain: "\<not> unicode_space c" if "is_digit c \<or> c = CHR ''.''" for c
    using that digit_not_space by (auto simp: unicode_space_def)
  have "\<not> unicode_space (hd (format_abs c e))" "\<not> unicode_space (last (format_abs c e))" for c e
    using format_abs_chars [of c e] plain by (auto intro: last_in_set)
  moreover have "\<not> unicode_space CHR ''-''" by (simp add: unicode_space_def)
  ultimately show ?thesis
    by (auto simp: stripped_def format_f_def format_abs_chars(2))
qed

lemma format_f_no_underscore: "filter (\<lambda>c. c \<noteq> CHR ''_'') (format_f d) = format_f d"
proof (rule filter_True)
  have "\<forall>c \<in> set (format_abs (dcoef d) (dexp d)). c \<noteq> CHR ''_''"
    using format_abs_chars(1) [of "dcoef d" "dexp d"] by auto
  then show "\<forall>c \<in> set (format_f d). c \<noteq> CHR ''_''"
    by (simp add: format_f_def)
qed

lemma parse_unsigned_format_abs:
  assumes "e \<le> 0"
  shows "parse_unsigned neg (format_abs c e) = Some (Fin (Dec neg c e))"
proof (cases "e = 0")
  case True
  then show ?thesis
    using parse_unsigned_digits [OF nat_str_digits nat_str_nonempty, of neg c]
      parse_unsigned_digits [of "''0''" neg] digits_val_zeros [of 1 "[]"]
    by (auto simp: format_abs_def, simp add: digits_val_def)
next
  case False
  with assms have e: "e < 0" by simp
  let ?k = "nat (- e)"
  let ?ds = "replicate (Suc ?k - length (nat_str c)) CHR ''0'' @ nat_str c"
  let ?i = "length ?ds - ?k"
  have ds: "\<forall>c \<in> set ?ds. is_digit c"
    using nat_str_digits [of c] by auto
  have len: "length (drop ?i ?ds) = ?k" by simp
  have "0 < length ?ds - ?k" by simp
  then have ne: "take ?i ?ds \<noteq> []"
    by (metis append_is_Nil_conv nat_str_nonempty neq0_conv take_eq_Nil)
  have "parse_unsigned neg (take ?i ?ds @ CHR ''.'' # drop ?i ?ds) =
    Some (Fin (Dec neg (digits_val (take ?i ?ds @ drop ?i ?ds)) (- int (length (drop ?i ?ds)))))"
    by (rule parse_unsigned_fraction) (use ds ne in \<open>auto dest: in_set_takeD in_set_dropD\<close>)
  also have "\<dots> = Some (Fin (Dec neg c e))"
    using e by (simp only: append_take_drop_id len) (simp add: digits_val_zeros)
  finally show ?thesis using e by (simp add: format_abs_def Let_def)
qed

lemma parse_decimal_format_f:
  assumes "dexp d \<le> 0"
  shows "parse_decimal (format_f d) = Some (Fin d)"
proof -
  have s: "filter (\<lambda>c. c \<noteq> CHR ''_'') (strip (format_f d)) = format_f d"
    by (simp add: strip_stripped_eq [OF format_f_stripped] format_f_no_underscore)
  have h: "hd (format_abs (dcoef d) (dexp d)) \<noteq> CHR ''-''"
    "hd (format_abs (dcoef d) (dexp d)) \<noteq> CHR ''+''"
    using format_abs_chars(3) [of "dcoef d" "dexp d"] by auto
  show ?thesis
    unfolding parse_decimal_def s Let_def
    using h parse_unsigned_format_abs [OF assms, of _ "dcoef d"] format_abs_chars(2)
    by (cases d) (auto simp: format_f_def)
qed

end
