(* ===== verification/PyValue.thy ===== *)
theory PyValue
  imports Decimals
begin

text \<open>
  The Python objects a decoded JSON document is made of, with the operations the parsers
  apply to them: lookup in a dictionary, \<open>str\<close> and \<open>repr\<close>, and \<open>json.dumps\<close> with sorted
  keys. A binary float is only ever looked at through its \<open>repr\<close>, which is what
  \<open>PFloat\<close> holds. A dictionary is the list of its items in insertion order.
\<close>

datatype pyval =
    PNone
  | PBool bool
  | PInt int
  | PFloat string
  | PStr string
  | PDec pydec
  | PList "pyval list"
  | PDict "(string \<times> pyval) list"

type_synonym pydict = "(string \<times> pyval) list"

text \<open>\<open>d.get(k)\<close> and \<open>d.get(k, default)\<close>; \<open>d[k]\<close> raises \<open>KeyError\<close>.\<close>

definition py_get_or :: "pyval \<Rightarrow> pydict \<Rightarrow> string \<Rightarrow> pyval" where
  "py_get_or v d k = (case map_of d k of None \<Rightarrow> v | Some x \<Rightarrow> x)"

abbreviation py_get :: "pydict \<Rightarrow> string \<Rightarrow> pyval" where
  "py_get \<equiv> py_get_or PNone"

definition py_item :: "pydict \<Rightarrow> string \<Rightarrow> pyval res" where
  "py_item d k = (case map_of d k of None \<Rightarrow> Inl (KeyError k) | Some x \<Rightarrow> Inr x)"

lemma py_item_Inr [res_simps]: "py_item d k = Inr v \<longleftrightarrow> map_of d k = Some v"
  by (simp add: py_item_def split: option.splits)

text \<open>\<open>if not isinstance(v, T): raise e\<close>; a \<open>bool\<close> is not taken as an integer.\<close>

definition as_list :: "pyval \<Rightarrow> exn \<Rightarrow> pyval list res" where
  "as_list v e = (case v of PList xs \<Rightarrow> Inr xs | _ \<Rightarrow> Inl e)"

definition as_dict :: "pyval \<Rightarrow> exn \<Rightarrow> pydict res" where
  "as_dict v e = (case v of PDict d \<Rightarrow> Inr d | _ \<Rightarrow> Inl e)"

definition as_text :: "pyval \<Rightarrow> exn \<Rightarrow> string res" where
  "as_text v e = (case v of PStr s \<Rightarrow> Inr s | _ \<Rightarrow> Inl e)"

definition as_int :: "pyval \<Rightarrow> exn \<Rightarrow> int res" where
  "as_int v e = (case v of PInt i \<Rightarrow> Inr i | _ \<Rightarrow> Inl e)"

definition as_bool :: "pyval \<Rightarrow> exn \<Rightarrow> bool res" where
  "as_bool v e = (case v of PBool b \<Rightarrow> Inr b | _ \<Rightarrow> Inl e)"

lemma as_Inr [res_simps]:
  "as_list v e = Inr xs \<longleftrightarrow> v = PList xs"
  "as_dict v e = Inr d \<longleftrightarrow> v = PDict d"
  "as_text v e = Inr s \<longleftrightarrow> v = PStr s"
  "as_int v e = Inr i \<longleftrightarrow> v = PInt i"
  "as_bool v e = Inr b \<longleftrightarrow> v = PBool b"
  by (auto simp: as_list_def as_dict_def as_text_def as_int_def as_bool_def split: pyval.splits)

lemma as_Inl:
  "as_list v e = Inl x \<Longrightarrow> x = e" "as_dict v e = Inl x \<Longrightarrow> x = e" "as_text v e = Inl x \<Longrightarrow> x = e"
  "as_int v e = Inl x \<Longrightarrow> x = e" "as_bool v e = Inl x \<Longrightarrow> x = e"
  by (auto simp: as_list_def as_dict_def as_text_def as_int_def as_bool_def split: pyval.splits)

lemma raises_as [raises_intros]:
  "P e \<Longrightarrow> raises P (as_list v e)" "P e \<Longrightarrow> raises P (as_dict v e)" "P e \<Longrightarrow> raises P (as_text v e)"
  "P e \<Longrightarrow> raises P (as_int v e)" "P e \<Longrightarrow> raises P (as_bool v e)"
  by (auto simp: raises_def dest: as_Inl split: sum.splits)

section \<open>\<open>str\<close> and \<open>repr\<close>\<close>

text \<open>\<open>str(Decimal)\<close>: plain where the exponent is not positive and not far below, else scientific.\<close>

definition dec_str :: "dec \<Rightarrow> string" where
  "dec_str d =
     (let ds = nat_str (dcoef d); left = dexp d + int (length ds);
          body = (if dexp d \<le> 0 \<and> - 6 < left then format_abs (dcoef d) (dexp d)
            else take 1 ds @ (if 1 < length ds then CHR ''.'' # drop 1 ds else [])
              @ CHR ''E'' # (if left - 1 < 0 then int_str (left - 1) else CHR ''+'' # int_str (left - 1)))
      in if dsign d then CHR ''-'' # body else body)"

fun pydec_str :: "pydec \<Rightarrow> string" where
  "pydec_str (Fin d) = dec_str d"
| "pydec_str (PInf neg) = (if neg then ''-Infinity'' else ''Infinity'')"
| "pydec_str PNaN = ''NaN''"

definition hex_char :: "nat \<Rightarrow> char" where
  "hex_char n = (if n < 10 then char_of (48 + n) else char_of (87 + n))"

definition quote_char :: char where
  "quote_char = char_of (39::nat)"

definition repr_char :: "char \<Rightarrow> char \<Rightarrow> string" where
  "repr_char q c = (let n = (of_char c :: nat) in
     if c = q \<or> n = 92 then [char_of (92::nat), c]
     else if n = 9 then [char_of (92::nat), CHR ''t'']
     else if n = 10 then [char_of (92::nat), CHR ''n'']
     else if n = 13 then [char_of (92::nat), CHR ''r'']
     else if 32 \<le> n \<and> n \<le> 126 \<or> 161 \<le> n \<and> n \<noteq> 173 then [c]
     else [char_of (92::nat), CHR ''x'', hex_char (n div 16), hex_char (n mod 16)])"

definition repr_str :: "string \<Rightarrow> string" where
  "repr_str s =
     (let q = (if quote_char \<in> set s \<and> CHR 0x22 \<notin> set s then CHR 0x22 else quote_char)
      in q # concat (map (repr_char q) s) @ [q])"

fun py_repr :: "pyval \<Rightarrow> string" where
  "py_repr PNone = ''None''"
| "py_repr (PBool b) = (if b then ''True'' else ''False'')"
| "py_repr (PInt i) = int_str i"
| "py_repr (PFloat r) = r"
| "py_repr (PStr s) = repr_str s"
| "py_repr (PDec d) = ''Decimal('' @ repr_str (pydec_str d) @ '')''"
| "py_repr (PList xs) = ''['' @ join '', '' (map py_repr xs) @ '']''"
| "py_repr (PDict kvs) =
     ''{'' @ join '', '' (map (\<lambda>(k, v). repr_str k @ '': '' @ py_repr v) kvs) @ ''}''"

definition py_str :: "pyval \<Rightarrow> string" where
  "py_str v = (case v of PStr s \<Rightarrow> s | PDec d \<Rightarrow> pydec_str d | _ \<Rightarrow> py_repr v)"

text \<open>\<open>Decimal(str(v))\<close> for \<open>v\<close> not itself a \<open>Decimal\<close>\<close>

definition decimal_of :: "pyval \<Rightarrow> pydec option" where
  "decimal_of v = (case v of PDec d \<Rightarrow> Some d | _ \<Rightarrow> parse_decimal (py_str v))"

text \<open>\<open>bool(v)\<close>\<close>

definition py_bool :: "pyval \<Rightarrow> bool" where
  "py_bool v =
     (case v of PNone \<Rightarrow> False | PBool b \<Rightarrow> b | PInt i \<Rightarrow> i \<noteq> 0
      | PFloat r \<Rightarrow> (case parse_decimal r of Some (Fin d) \<Rightarrow> dval d \<noteq> 0 | _ \<Rightarrow> True)
      | PStr s \<Rightarrow> s \<noteq> [] | PDec (Fin d) \<Rightarrow> dval d \<noteq> 0 | PDec _ \<Rightarrow> True | PList xs \<Rightarrow> xs \<noteq> [] | PDict d \<Rightarrow> d \<noteq> [])"

section \<open>\<open>json.dumps(value, sort_keys=True, separators=(",", ":"))\<close>\<close>

definition json_char :: "char \<Rightarrow> string" where
  "json_char c = (let n = (of_char c :: nat); b = char_of (92::nat) in
     if n = 34 \<or> n = 92 then [b, c]
     else if n = 8 then [b, CHR ''b'']
     else if n = 9 then [b, CHR ''t'']
     else if n = 10 then [b, CHR ''n'']
     else if n = 12 then [b, CHR ''f'']
     else if n = 13 then [b, CHR ''r'']
     else if 32 \<le> n \<and> n \<le> 126 then [c]
     else [b, CHR ''u'', CHR ''0'', CHR ''0'', hex_char (n div 16), hex_char (n mod 16)])"

definition json_str :: "string \<Rightarrow> string" where
  "json_str s = CHR 0x22 # concat (map json_char s) @ [CHR 0x22]"

text \<open>Lexicographic order of code points, which Python's \<open>sorted\<close> uses on texts.\<close>

fun text_le :: "string \<Rightarrow> string \<Rightarrow> bool" where
  "text_le [] _ = True"
| "text_le (_ # _) [] = False"
| "text_le (a # as) (b # bs) =
     (let m = (of_char a :: nat); n = of_char b in m < n \<or> m = n \<and> text_le as bs)"

fun insert_text :: "string \<times> 'a \<Rightarrow> (string \<times> 'a) list \<Rightarrow> (string \<times> 'a) list" where
  "insert_text x [] = [x]"
| "insert_text x (y # ys) = (if text_le (fst x) (fst y) then x # y # ys else y # insert_text x ys)"

definition sort_items :: "(string \<times> 'a) list \<Rightarrow> (string \<times> 'a) list" where
  "sort_items kvs = foldr insert_text kvs []"

definition sort_texts :: "string list \<Rightarrow> string list" where
  "sort_texts ss = map fst (sort_items (map (\<lambda>s. (s, ())) ss))"

text \<open>
  The encoder, over the values that JSON has; a \<open>Decimal\<close> goes through the \<open>default\<close>
  function, which all callers define as \<open>format(value, 'f')\<close>.
\<close>

fun pydec_format :: "pydec \<Rightarrow> string" where
  "pydec_format (Fin d) = format_f d"
| "pydec_format (PInf neg) = (if neg then ''-Infinity'' else ''Infinity'')"
| "pydec_format PNaN = ''NaN''"

fun json_dumps :: "pyval \<Rightarrow> string" where
  "json_dumps PNone = ''null''"
| "json_dumps (PBool b) = (if b then ''true'' else ''false'')"
| "json_dumps (PInt i) = int_str i"
| "json_dumps (PFloat r) = r"
| "json_dumps (PStr s) = json_str s"
| "json_dumps (PDec d) = json_str (pydec_format d)"
| "json_dumps (PList xs) = ''['' @ join '','' (map json_dumps xs) @ '']''"
| "json_dumps (PDict kvs) =
     ''{'' @ join '','' (map snd (sort_items (map (\<lambda>(k, v). (k, json_str k @ '':'' @ json_dumps v)) kvs)))
       @ ''}''"

lemma set_insert_text: "set (insert_text x ys) = insert x (set ys)"
  by (induction ys) auto

lemma set_sort_items [simp]: "set (sort_items kvs) = set kvs"
  by (induction kvs) (auto simp: sort_items_def set_insert_text)

lemma set_sort_texts [simp]: "set (sort_texts ss) = set ss"
  by (force simp: sort_texts_def image_image)

lemma text_le_total: "text_le s t \<or> text_le t s"
  by (induction s t rule: text_le.induct) (auto simp: Let_def)

lemma text_le_refl [simp]: "text_le s s"
  using text_le_total by blast

lemma text_le_trans: "text_le s t \<Longrightarrow> text_le t u \<Longrightarrow> text_le s u"
proof (induction s t arbitrary: u rule: text_le.induct)
  case (3 a as b bs)
  then show ?case by (cases u) (auto simp: Let_def)
qed auto

lemma text_le_antisym: "text_le s t \<Longrightarrow> text_le t s \<Longrightarrow> s = t"
proof (induction s t rule: text_le.induct)
  case (1 t)
  then show ?case by (cases t) auto
next
  case (3 a as b bs)
  then have "(of_char a :: nat) = of_char b" by (auto simp: Let_def)
  then have "a = b" by simp
  with 3 show ?case by (auto simp: Let_def)
qed auto

lemma sorted_insert_text:
  "sorted_wrt (\<lambda>a b. text_le (fst a) (fst b)) ys \<Longrightarrow>
     sorted_wrt (\<lambda>a b. text_le (fst a) (fst b)) (insert_text x ys)"
proof (induction ys)
  case Nil
  show ?case by simp
next
  case (Cons y ys)
  then show ?case
    using text_le_total [of "fst x" "fst y"] by (auto simp: set_insert_text intro: text_le_trans)
qed

lemma sorted_sort_items: "sorted_wrt (\<lambda>a b. text_le (fst a) (fst b)) (sort_items kvs)"
  unfolding sort_items_def by (induction kvs) (simp_all add: sorted_insert_text)

end
