(* ===== verification/Timestamps.thy ===== *)
theory Timestamps
  imports PyValue "HOL-Library.Monad_Syntax"
begin

text \<open>
  RFC 3339 timestamps as the Kalshi modules read them: the regular expression they share
  (\<open>_RFC3339_PATTERN\<close>), \<open>datetime.fromisoformat\<close> and \<open>astimezone(timezone.utc)\<close>. An aware
  \<open>datetime\<close> is the number of microseconds since 1970-01-01T00:00:00Z; its range is the
  years 1 to 9999, outside which \<open>astimezone\<close> raises \<open>OverflowError\<close>.
\<close>

datatype py_datetime = Aware int | Naive int

record iso_fields =
  f_year :: nat
  f_month :: nat
  f_day :: nat
  f_hour :: nat
  f_minute :: nat
  f_second :: nat
  f_fraction :: "string option"
  f_offset :: int \<comment> \<open>seconds east of UTC\<close>

section \<open>The pattern\<close>

definition digits_n :: "nat \<Rightarrow> string \<Rightarrow> (nat \<times> string) option" where
  "digits_n k s = (if k \<le> length s \<and> list_all is_digit (take k s)
     then Some (digits_val (take k s), drop k s) else None)"

definition expect :: "char \<Rightarrow> string \<Rightarrow> string option" where
  "expect c s = (case s of [] \<Rightarrow> None | d # r \<Rightarrow> if d = c then Some r else None)"

definition fraction_opt :: "string \<Rightarrow> (string option \<times> string) option" where
  "fraction_opt s = (case s of
      [] \<Rightarrow> Some (None, s)
    | d # r \<Rightarrow>
        if d = CHR ''.'' then
          (let ds = takeWhile is_digit r in if ds = [] then None else Some (Some ds, dropWhile is_digit r))
        else Some (None, s))"

definition zone :: "string \<Rightarrow> int option" where
  "zone s = (if s = ''Z'' then Some 0
     else case s of
         [] \<Rightarrow> None
       | c # r \<Rightarrow> if c = CHR ''+'' \<or> c = CHR ''-'' then
           do { (h, r1) \<leftarrow> digits_n 2 r;
                r2 \<leftarrow> expect CHR '':'' r1;
                (m, r3) \<leftarrow> digits_n 2 r2;
                (if r3 = [] then Some (if c = CHR ''-'' then - int (h * 3600 + m * 60) else int (h * 3600 + m * 60))
                 else None) }
         else None)"

definition rfc3339_match :: "string \<Rightarrow> iso_fields option" where
  "rfc3339_match s =
     do { (y, s1) \<leftarrow> digits_n 4 s;
          s2 \<leftarrow> expect CHR ''-'' s1;
          (mo, s3) \<leftarrow> digits_n 2 s2;
          s4 \<leftarrow> expect CHR ''-'' s3;
          (d, s5) \<leftarrow> digits_n 2 s4;
          s6 \<leftarrow> expect CHR ''T'' s5;
          (h, s7) \<leftarrow> digits_n 2 s6;
          s8 \<leftarrow> expect CHR '':'' s7;
          (mi, s9) \<leftarrow> digits_n 2 s8;
          s10 \<leftarrow> expect CHR '':'' s9;
          (se, s11) \<leftarrow> digits_n 2 s10;
          (fr, s12) \<leftarrow> fraction_opt s11;
          off \<leftarrow> zone s12;
          Some \<lparr>f_year = y, f_month = mo, f_day = d, f_hour = h, f_minute = mi, f_second = se,
                f_fraction = fr, f_offset = off\<rparr> }"

section \<open>The calendar\<close>

definition is_leap :: "nat \<Rightarrow> bool" where
  "is_leap y = (4 dvd y \<and> (\<not> 100 dvd y \<or> 400 dvd y))"

definition days_in_month :: "nat \<Rightarrow> nat \<Rightarrow> nat" where
  "days_in_month y m =
     (if m = 2 then (if is_leap y then 29 else 28)
      else if m = 4 \<or> m = 6 \<or> m = 9 \<or> m = 11 then 30 else 31)"

definition days_before_year :: "nat \<Rightarrow> nat" where
  "days_before_year y = (let n = y - 1 in n * 365 + n div 4 - n div 100 + n div 400)"

definition days_before_month :: "nat \<Rightarrow> nat \<Rightarrow> nat" where
  "days_before_month y m = sum_list (map (days_in_month y) [1..<m])"

text \<open>\<open>date.toordinal\<close>: day 1 is 0001-01-01.\<close>

definition ymd_ordinal :: "nat \<Rightarrow> nat \<Rightarrow> nat \<Rightarrow> nat" where
  "ymd_ordinal y m d = days_before_year y + days_before_month y m + d"

definition epoch_ordinal :: nat where
  "epoch_ordinal = 719163"

definition micros_per_day :: int where
  "micros_per_day = 86400000000"

definition min_micros :: int where
  "min_micros = (1 - 719163) * micros_per_day"

definition max_micros :: int where
  "max_micros = (3652059 + 1 - 719163) * micros_per_day - 1"

section \<open>\<open>datetime.fromisoformat\<close> and \<open>astimezone(timezone.utc)\<close>\<close>

definition valid_fields :: "iso_fields \<Rightarrow> bool" where
  "valid_fields f =
     (1 \<le> f_year f \<and> f_year f \<le> 9999 \<and> 1 \<le> f_month f \<and> f_month f \<le> 12
      \<and> 1 \<le> f_day f \<and> f_day f \<le> days_in_month (f_year f) (f_month f)
      \<and> f_hour f \<le> 23 \<and> f_minute f \<le> 59 \<and> f_second f \<le> 59
      \<and> \<bar>f_offset f\<bar> < 86400)"

definition fraction_micros :: "string option \<Rightarrow> nat" where
  "fraction_micros fr = (case fr of None \<Rightarrow> 0
     | Some ds \<Rightarrow> digits_val (take 6 (ds @ replicate 6 CHR ''0'')))"

definition local_micros :: "iso_fields \<Rightarrow> int" where
  "local_micros f =
     (int (ymd_ordinal (f_year f) (f_month f) (f_day f)) - int epoch_ordinal) * micros_per_day
     + (int (f_hour f) * 3600 + int (f_minute f) * 60 + int (f_second f)) * 1000000
     + int (fraction_micros (f_fraction f))"

definition fromisoformat_utc :: "iso_fields \<Rightarrow> int res" where
  "fromisoformat_utc f =
     (if \<not> valid_fields f then Inl (ValueError ''Invalid isoformat string'')
      else let t = local_micros f - f_offset f * 1000000 in
        if t < min_micros \<or> max_micros < t then Inl (OverflowError ''date value out of range'')
        else Inr t)"

lemma fromisoformat_utc_range:
  "fromisoformat_utc f = Inr t \<Longrightarrow> min_micros \<le> t \<and> t \<le> max_micros"
  by (auto simp: fromisoformat_utc_def Let_def split: if_splits)

lemma fromisoformat_utc_error:
  "fromisoformat_utc f = Inl e \<Longrightarrow>
     e = ValueError ''Invalid isoformat string'' \<or> e = OverflowError ''date value out of range''"
  by (auto simp: fromisoformat_utc_def Let_def split: if_splits)

text \<open>
  The \<open>try\<close> around the parse that every caller has: a \<open>ValueError\<close> becomes the caller's
  own exception, an \<open>OverflowError\<close> passes through.
\<close>

definition parse_utc :: "exn \<Rightarrow> iso_fields \<Rightarrow> int res" where
  "parse_utc e f =
     catchE (fromisoformat_utc f) (\<lambda>x. if is_value_error x then Some (Inl e) else None)"

definition excess_fraction :: "iso_fields \<Rightarrow> bool" where
  "excess_fraction f = (case f_fraction f of None \<Rightarrow> False | Some ds \<Rightarrow> 6 < length ds)"

lemma parse_utc_Inr [res_simps]: "parse_utc e f = Inr t \<longleftrightarrow> fromisoformat_utc f = Inr t"
  by (auto simp: parse_utc_def catchE_def split: sum.splits if_splits)

lemma parse_utc_Inl:
  "parse_utc e f = Inl x \<Longrightarrow> x = e \<or> x = OverflowError ''date value out of range''"
  by (auto simp: parse_utc_def catchE_def dest!: fromisoformat_utc_error split: sum.splits if_splits)

text \<open>The calendar counts: the day after the last of a month or a year is the first of the next.\<close>

lemma days_before_month_Suc:
  "1 \<le> m \<Longrightarrow> days_before_month y (Suc m) = days_before_month y m + days_in_month y m"
  by (simp add: days_before_month_def)

lemma days_before_month_year_end:
  "days_before_month y 13 = (if is_leap y then 366 else 365)"
  by (simp add: days_before_month_def days_in_month_def upt_rec)

lemma leap_count:
  fixes a b c n :: nat
  assumes "a' = a + (if p then 1 else 0)" and "b' = b + (if q then 1 else 0)"
    and "c' = c + (if r then 1 else 0)" and "r \<Longrightarrow> q" and "q \<Longrightarrow> p" and "b \<le> n"
  shows "Suc n * 365 + a' - b' + c' = n * 365 + a - b + c + (if p \<and> (\<not> q \<or> r) then 366 else 365)"
  using assms by (cases p; cases q; cases r) auto

lemma div_Suc_dvd: "0 < k \<Longrightarrow> Suc n div k = n div k + (if k dvd Suc n then 1 else 0)"
  by (auto simp: div_Suc dvd_eq_mod_eq_0)

lemma days_before_year_Suc:
  assumes "1 \<le> y"
  shows "days_before_year (Suc y) = days_before_year y + (if is_leap y then 366 else 365)"
proof -
  obtain n where n: "y = Suc n" using assms by (cases y) auto
  have d: "400 dvd Suc n \<Longrightarrow> 100 dvd Suc n" "100 dvd Suc n \<Longrightarrow> 4 dvd Suc n"
    using dvd_trans [of 100 400 "Suc n"] dvd_trans [of 4 100 "Suc n"] by simp_all
  have "n div 100 \<le> n" by simp
  from leap_count [OF div_Suc_dvd [of 4] div_Suc_dvd [of 100] div_Suc_dvd [of 400] d this]
  show ?thesis
    by (simp add: days_before_year_def is_leap_def Let_def n del: div_Suc)
qed

lemma ymd_ordinal_month_end:
  "1 \<le> m \<Longrightarrow> ymd_ordinal y (Suc m) 1 = ymd_ordinal y m (days_in_month y m) + 1"
  by (simp add: ymd_ordinal_def days_before_month_Suc)

lemma ymd_ordinal_year_end:
  "1 \<le> y \<Longrightarrow> ymd_ordinal (Suc y) 1 1 = ymd_ordinal y 12 (days_in_month y 12) + 1"
  using days_before_year_Suc [of y] days_before_month_year_end [of y] days_before_month_Suc [of 12 y]
  by (simp add: ymd_ordinal_def days_before_month_def [of "Suc y"])

section \<open>Instants\<close>

text \<open>\<open>value.astimezone(timezone.utc)\<close>, the system zone being UTC\<close>

definition utc_of :: "py_datetime \<Rightarrow> int" where
  "utc_of t = (case t of Aware i \<Rightarrow> i | Naive i \<Rightarrow> i)"

text \<open>The calendar date of an ordinal, and the text of an instant down to seconds.\<close>

definition pad :: "nat \<Rightarrow> nat \<Rightarrow> string" where
  "pad w n = replicate (w - length (nat_str n)) CHR ''0'' @ nat_str n"

definition ordinal_ymd :: "nat \<Rightarrow> nat \<times> nat \<times> nat" where
  "ordinal_ymd n =
     (let y = the (List.find (\<lambda>y. n \<le> days_before_year (Suc y)) [1..<10000]);
          k = n - days_before_year y;
          m = the (List.find (\<lambda>m. k \<le> days_before_month y (Suc m)) [1..<13])
      in (y, m, k - days_before_month y m))"

definition iso_seconds :: "int \<Rightarrow> string" where
  "iso_seconds t =
     (let (y, m, d) = ordinal_ymd (nat (t div micros_per_day + int epoch_ordinal));
          s = nat (t mod micros_per_day) div 1000000
      in pad 4 y @ ''-'' @ pad 2 m @ ''-'' @ pad 2 d @ ''T'' @ pad 2 (s div 3600) @ '':''
         @ pad 2 (s div 60 mod 60) @ '':'' @ pad 2 (s mod 60))"

text \<open>
  \<open>isoformat(timespec="microseconds")\<close> with \<open>+00:00\<close> written as \<open>Z\<close>, and \<open>isoformat()\<close>, which
  leaves the fraction out when it is zero
\<close>

definition iso_text :: "int \<Rightarrow> string" where
  "iso_text t = iso_seconds t @ ''.'' @ pad 6 (nat (t mod 1000000)) @ ''Z''"

definition isoformat :: "int \<Rightarrow> string" where
  "isoformat t = iso_seconds t
     @ (if t mod 1000000 = 0 then [] else ''.'' @ pad 6 (nat (t mod 1000000))) @ ''+00:00''"

end
