(* ===== verification/KalshiFields.thy ===== *)
theory KalshiFields
  imports Timestamps
begin

text \<open>
  The field readers of \<open>services/venues/kalshi_v2.py\<close>: decimals, fixed-point texts,
  integers, texts, timestamps and booleans taken out of an untrusted response, and the
  query parameters the portfolio reads share. Each reader either returns a value in its
  documented range or raises \<open>KalshiProtocolError\<close>; the lemmas in \<open>field_facts\<close> say what a
  successful read guarantees.
\<close>

named_theorems field_facts \<open>what a successful field read guarantees\<close>

datatype outcome = Yes | No

datatype book_side = Bid | Ask

definition outcome_of :: "string \<Rightarrow> outcome option" where
  "outcome_of s = (if s = ''yes'' then Some Yes else if s = ''no'' then Some No else None)"

definition book_side_of :: "string \<Rightarrow> book_side option" where
  "book_side_of s = (if s = ''bid'' then Some Bid else if s = ''ask'' then Some Ask else None)"

fun outcome_text :: "outcome \<Rightarrow> string" where
  "outcome_text Yes = ''yes''"
| "outcome_text No = ''no''"

fun book_side_text :: "book_side \<Rightarrow> string" where
  "book_side_text Bid = ''bid''"
| "book_side_text Ask = ''ask''"

text \<open>The quanta \<open>Decimal("0.01")\<close> and \<open>Decimal("0.000001")\<close>, by their exponents.\<close>

definition count_quantum :: int where "count_quantum = -2"
definition dollar_quantum :: int where "dollar_quantum = -6"

definition quantum_text :: "int \<Rightarrow> string" where
  "quantum_text q = dec_str (Dec False 1 q)"

definition signed_int64_max :: int where
  "signed_int64_max = 9223372036854775807"

section \<open>Decimals and fixed-point texts\<close>

definition finite_dec :: "pydec option \<Rightarrow> exn \<Rightarrow> dec res" where
  "finite_dec d e = (case d of Some (Fin x) \<Rightarrow> Inr x | _ \<Rightarrow> Inl e)"

lemma finite_dec_Inr [res_simps]: "finite_dec d e = Inr x \<longleftrightarrow> d = Some (Fin x)"
  by (auto simp: finite_dec_def split: option.splits pydec.splits)

lemma raises_finite_dec [raises_intros]: "P e \<Longrightarrow> raises P (finite_dec d e)"
  by (simp add: finite_dec_def split: option.splits pydec.splits)

definition decimal_value :: "pyval \<Rightarrow> string \<Rightarrow> dec res" where
  "decimal_value v field =
     (case v of
        PBool _ \<Rightarrow> Inl (KalshiProtocolError (field @ '' must be a finite decimal''))
      | _ \<Rightarrow> finite_dec (decimal_of v) (KalshiProtocolError (field @ '' must be a finite decimal'')))"

text \<open>\<open>_fixed\<close>: the canonical text of a value that fits the quantum.\<close>

definition fixed_text :: "dec \<Rightarrow> int \<Rightarrow> string \<Rightarrow> string res" where
  "fixed_text d q field =
     (if dexp d < q
      then Inl (KalshiProtocolError
        (field @ '' has more precision than Kalshi V2 permits ('' @ quantum_text q @ '')''))
      else case dec_quantize default_prec d q of
          None \<Rightarrow> Inl (KalshiProtocolError 
            (field @ '' is outside Kalshi'' @ CHR 0x27 # ''s fixed-point range''))
        | Some r \<Rightarrow>
            if dval r \<noteq> dval d
            then Inl (KalshiProtocolError
              (field @ '' has more precision than Kalshi V2 permits ('' @ quantum_text q @ '')''))
            else Inr (format_f r))"

definition integer_value :: "pyval \<Rightarrow> string \<Rightarrow> int res" where
  "integer_value v field = as_int v (KalshiProtocolError (field @ '' must be an integer''))"

text \<open>A decimal that fits the fixed-point grid of exponent \<open>q\<close> within the context's precision.\<close>

definition on_grid :: "int \<Rightarrow> dec \<Rightarrow> bool" where
  "on_grid q d = (q \<le> dexp d \<and> dcoef d * 10 ^ nat (dexp d - q) < 10 ^ default_prec)"

lemma fixed_text_Inr_iff [res_simps]:
  "fixed_text d q field = Inr s \<longleftrightarrow> on_grid q d \<and> s = format_f (dec_rescale d q)"
proof (cases "q \<le> dexp d")
  case True
  have r: "dec_quantize default_prec d q =
      (if on_grid q d then Some (dec_rescale d q) else None)"
    using True by (simp add: dec_quantize_def on_grid_def Let_def dec_rescale_def default_prec_def
        ndigits_le_iff)
  with True show ?thesis
    by (auto simp: fixed_text_def dec_rescale_exact)
next
  case False
  then show ?thesis by (simp add: fixed_text_def on_grid_def)
qed

lemma on_grid_below:
  assumes "on_grid q d"
  shows "\<bar>dval d\<bar> < 10 powi (int default_prec + q)"
proof -
  have q: "q \<le> dexp d" and n: "dcoef d * 10 ^ nat (dexp d - q) < 10 ^ default_prec"
    using assms by (simp_all add: on_grid_def)
  have "\<bar>dunits q d\<bar> = int (dcoef d * 10 ^ nat (dexp d - q))"
    by (simp add: dunits_def dnum_def abs_mult)
  then have "\<bar>dunits q d\<bar> < int (10 ^ default_prec)" using n by linarith
  then have "\<bar>of_int (dunits q d) :: rat\<bar> < of_int (int (10 ^ default_prec))"
    by (metis of_int_abs of_int_less_iff)
  then have "\<bar>of_int (dunits q d)\<bar> * 10 powi q < of_int (int (10 ^ default_prec)) * (10 powi q :: rat)"
    by (intro mult_strict_right_mono) simp_all
  moreover have "(10 :: rat) powi (int default_prec + q) = 10 ^ default_prec * 10 powi q"
    by (simp add: power_int_add)
  ultimately show ?thesis
    by (simp add: dval_dunits [OF q] abs_mult)
qed

section \<open>Texts\<close>

definition required_text :: "pydict \<Rightarrow> string \<Rightarrow> string \<Rightarrow> string res" where
  "required_text p key ctx =
     (case map_of p key of
        None \<Rightarrow> Inl (KalshiProtocolError (''invalid Kalshi '' @ ctx @ '' response''))
      | Some v \<Rightarrow>
          bindE (as_text v (KalshiProtocolError (key @ '' must be a non-empty string''))) (\<lambda>s.
          if strip s = [] then Inl (KalshiProtocolError (key @ '' must be a non-empty string''))
          else Inr (strip s)))"

definition required_text_allow_empty :: "pydict \<Rightarrow> string \<Rightarrow> string \<Rightarrow> string res" where
  "required_text_allow_empty p key ctx =
     (case map_of p key of
        None \<Rightarrow> Inl (KalshiProtocolError (key @ '' is required in the Kalshi '' @ ctx @ '' response''))
      | Some v \<Rightarrow>
          bindE (as_text v (KalshiProtocolError
            (key @ '' must be a string and cannot contain only whitespace''))) (\<lambda>s.
          if s \<noteq> [] \<and> strip s = []
          then Inl (KalshiProtocolError (key @ '' must be a string and cannot contain only whitespace''))
          else Inr (strip s)))"

definition optional_text :: "pydict \<Rightarrow> string \<Rightarrow> string option res" where
  "optional_text p key =
     (case py_get p key of
        PNone \<Rightarrow> Inr None
      | PStr s \<Rightarrow> if strip s = []
                  then Inl (KalshiProtocolError (key @ '' must be a non-empty string when present''))
                  else Inr (Some (strip s))
      | _ \<Rightarrow> Inl (KalshiProtocolError (key @ '' must be a non-empty string when present'')))"

definition text_ok :: "string \<Rightarrow> bool" where
  "text_ok s = (s \<noteq> [] \<and> stripped s)"

lemma required_text_ok [field_facts]: "required_text p key ctx = Inr s \<Longrightarrow> text_ok s"
  by (auto simp: required_text_def text_ok_def stripped_strip res_simps split: option.splits)

lemma required_text_allow_empty_ok [field_facts]:
  "required_text_allow_empty p key ctx = Inr s \<Longrightarrow> stripped s"
  by (auto simp: required_text_allow_empty_def stripped_strip stripped_def [of "[]"] res_simps
      split: option.splits)

lemma optional_text_ok [field_facts]: "optional_text p key = Inr (Some s) \<Longrightarrow> text_ok s"
  by (auto simp: optional_text_def text_ok_def stripped_strip split: pyval.splits if_splits)

section \<open>Timestamps\<close>

definition required_timestamp :: "pydict \<Rightarrow> string \<Rightarrow> string \<Rightarrow> int res" where
  "required_timestamp p key ctx =
     (if map_of p key = None
      then Inl (KalshiProtocolError (key @ '' is required in the Kalshi '' @ ctx @ '' response''))
      else bindE (required_text p key ctx) (\<lambda>value.
        (case rfc3339_match value of
           None \<Rightarrow> Inl (KalshiProtocolError (key @ '' must be RFC3339 with a timezone''))
         | Some f \<Rightarrow>
             if excess_fraction f then Inl (KalshiProtocolError (key @ '' exceeds microsecond precision''))
             else parse_utc (KalshiProtocolError (key @ '' must be RFC3339 with a timezone'')) f)))"

definition optional_timestamp :: "pydict \<Rightarrow> string \<Rightarrow> string \<Rightarrow> int option res" where
  "optional_timestamp p key ctx =
     (if map_of p key = None then Inr None
      else bindE (required_timestamp p key ctx) (\<lambda>t. Inr (Some t)))"

lemma required_timestamp_range [field_facts]:
  "required_timestamp p key ctx = Inr t \<Longrightarrow> min_micros \<le> t \<and> t \<le> max_micros"
  by (auto simp: required_timestamp_def res_simps dest!: fromisoformat_utc_range
      split: option.splits if_splits)

section \<open>Decimals, integers and booleans of a response\<close>

definition required_decimal :: "pydict \<Rightarrow> string \<Rightarrow> string \<Rightarrow> dec res" where
  "required_decimal p key ctx =
     (case map_of p key of
        None \<Rightarrow> Inl (KalshiProtocolError (''invalid Kalshi '' @ ctx @ '' response''))
      | Some v \<Rightarrow> decimal_value v key)"

definition required_fixed :: "int \<Rightarrow> pydict \<Rightarrow> string \<Rightarrow> string \<Rightarrow> dec res" where
  "required_fixed q p key ctx =
     (case map_of p key of
        None \<Rightarrow> Inl (KalshiProtocolError (''invalid Kalshi '' @ ctx @ '' response''))
      | Some v \<Rightarrow>
          bindE (as_text v (KalshiProtocolError (key @ '' must be a fixed-point string''))) (\<lambda>_.
          bindE (required_decimal p key ctx) (\<lambda>d.
          bindE (fixed_text d q key) (\<lambda>_. Inr d))))"

definition optional_integer :: "pydict \<Rightarrow> string \<Rightarrow> int option res" where
  "optional_integer p key =
     (case py_get p key of PNone \<Rightarrow> Inr None
      | v \<Rightarrow> bindE (integer_value v key) (\<lambda>i. Inr (Some i)))"

definition strict_bool :: "pyval \<Rightarrow> string \<Rightarrow> bool res" where
  "strict_bool v field = as_bool v (KalshiProtocolError (field @ '' must be a boolean''))"

lemma required_fixed_on_grid [field_facts]: "required_fixed q p key ctx = Inr d \<Longrightarrow> on_grid q d"
  by (auto simp: required_fixed_def res_simps split: option.splits)

lemma required_fixed_is_text:
  "required_fixed q p key ctx = Inr d \<Longrightarrow>
     \<exists>s. map_of p key = Some (PStr s) \<and> parse_decimal s = Some (Fin d)"
  by (auto simp: required_fixed_def required_decimal_def decimal_value_def decimal_of_def py_str_def
      res_simps split: option.splits)

section \<open>Page queries\<close>

datatype query_value = QText string | QInt int

type_synonym query = "(string \<times> query_value) list"

definition page_limit_ok :: "pyval \<Rightarrow> bool" where
  "page_limit_ok v = (case v of PInt i \<Rightarrow> 1 \<le> i \<and> i \<le> 1000 | _ \<Rightarrow> False)"

definition query_text :: "pyval \<Rightarrow> string \<Rightarrow> string option res" where
  "query_text v name =
     (case v of
        PNone \<Rightarrow> Inr None
      | PStr s \<Rightarrow> if strip s = []
                  then Inl (KalshiProtocolError (name @ '' cannot be empty when provided''))
                  else Inr (Some (strip s))
      | _ \<Rightarrow> Inl (KalshiProtocolError (name @ '' must be a string when provided'')))"

definition query_int :: "int \<Rightarrow> pyval \<Rightarrow> exn \<Rightarrow> int option res" where
  "query_int maxi v e =
     (case v of
        PNone \<Rightarrow> Inr None
      | PInt i \<Rightarrow> if 0 \<le> i \<and> i \<le> maxi then Inr (Some i) else Inl e
      | _ \<Rightarrow> Inl e)"

definition opt_param :: "string \<Rightarrow> ('a \<Rightarrow> query_value) \<Rightarrow> 'a option \<Rightarrow> query" where
  "opt_param name f v = (case v of None \<Rightarrow> [] | Some x \<Rightarrow> [(name, f x)])"

definition ts_order :: "int option \<Rightarrow> int option \<Rightarrow> unit res" where
  "ts_order lo hi =
     (case (lo, hi) of
        (Some a, Some b) \<Rightarrow>
          if b < a then Inl (KalshiProtocolError ''min_ts cannot be greater than max_ts'') else Inr ()
      | _ \<Rightarrow> Inr ())"

definition validate_page_query ::
    "pyval \<Rightarrow> pyval \<Rightarrow> pyval \<Rightarrow> pyval \<Rightarrow> pyval \<Rightarrow> query res" where
  "validate_page_query limit cursor subaccount min_ts max_ts =
     (if \<not> page_limit_ok limit
      then Inl (KalshiProtocolError ''limit must be an integer between 1 and 1000'')
      else
      bindE (query_text cursor ''cursor'') (\<lambda>c.
      bindE (query_int 63 subaccount
        (KalshiProtocolError ''subaccount must be an integer between 0 and 63'')) (\<lambda>sa.
      bindE (query_int signed_int64_max min_ts
        (KalshiProtocolError ''min_ts must be a non-negative signed 64-bit integer'')) (\<lambda>lo.
      bindE (query_int signed_int64_max max_ts
        (KalshiProtocolError ''max_ts must be a non-negative signed 64-bit integer'')) (\<lambda>hi.
      bindE (ts_order lo hi) (\<lambda>_.
      Inr ((''limit'', (case limit of PInt i \<Rightarrow> QInt i | _ \<Rightarrow> QInt 0))
         # opt_param ''cursor'' QText c @ opt_param ''subaccount'' QInt sa
         @ opt_param ''min_ts'' QInt lo @ opt_param ''max_ts'' QInt hi)))))))"

text \<open>\<open>_add_text_query\<close>\<close>

definition add_text_query :: "query \<Rightarrow> string \<Rightarrow> pyval \<Rightarrow> query res" where
  "add_text_query params name v =
     bindE (query_text v name) (\<lambda>t. Inr (params @ opt_param name QText t))"

end
