(* ===== verification/KalshiModels.thy ===== *)
theory KalshiModels
  imports KalshiFields
begin

text \<open>
  The read models of \<open>services/venues/kalshi_v2.py\<close>: historical cutoffs, orders, fills,
  positions, settlements and balances, each with its \<open>from_payload\<close> and the invariant a
  parsed value satisfies. The checks stand in the order of the source, so the exception of
  a response with several faults is the one the source raises.
\<close>

section \<open>Historical cutoff\<close>

record kalshi_cutoff =
  cut_market_settled_at :: int
  cut_trades_created_at :: int
  cut_orders_updated_at :: int
  cut_market_positions_last_updated_at :: "int option"

definition cutoff_from_payload :: "pydict \<Rightarrow> kalshi_cutoff res" where
  "cutoff_from_payload p =
     bindE (required_timestamp p ''market_settled_ts'' ''historical cutoff'') (\<lambda>m.
     bindE (required_timestamp p ''trades_created_ts'' ''historical cutoff'') (\<lambda>t.
     bindE (required_timestamp p ''orders_updated_ts'' ''historical cutoff'') (\<lambda>u.
     bindE (optional_timestamp p ''market_positions_last_updated_ts'' ''historical cutoff'') (\<lambda>l.
     Inr \<lparr>cut_market_settled_at = m, cut_trades_created_at = t, cut_orders_updated_at = u,
          cut_market_positions_last_updated_at = l\<rparr>))))"

section \<open>Orders\<close>

datatype order_type = Limit | Market

datatype order_status = Resting | Canceled | Executed

definition order_type_of :: "string \<Rightarrow> order_type option" where
  "order_type_of s = (if s = ''limit'' then Some Limit else if s = ''market'' then Some Market else None)"

definition order_status_of :: "string \<Rightarrow> order_status option" where
  "order_status_of s = (if s = ''resting'' then Some Resting else if s = ''canceled'' then Some Canceled
     else if s = ''executed'' then Some Executed else None)"

fun order_type_text :: "order_type \<Rightarrow> string" where
  "order_type_text Limit = ''limit''"
| "order_type_text Market = ''market''"

fun order_status_text :: "order_status \<Rightarrow> string" where
  "order_status_text Resting = ''resting''"
| "order_status_text Canceled = ''canceled''"
| "order_status_text Executed = ''executed''"

record kalshi_order =
  ord_order_id :: string
  ord_user_id :: string
  ord_client_order_id :: string
  ord_ticker :: string
  ord_outcome_side :: outcome
  ord_book_side :: book_side
  ord_order_type :: order_type
  ord_status :: order_status
  ord_yes_price :: dec
  ord_no_price :: dec
  ord_fill_count :: dec
  ord_remaining_count :: dec
  ord_initial_count :: dec
  ord_taker_fees :: dec
  ord_maker_fees :: dec
  ord_taker_fill_cost :: dec
  ord_maker_fill_cost :: dec
  ord_created_time :: "string option"
  ord_last_update_time :: "string option"
  ord_expiration_time :: "string option"
  ord_subaccount_number :: "int option"
  ord_exchange_index :: "int option"

definition sides_consistent :: "outcome \<Rightarrow> book_side \<Rightarrow> bool" where
  "sides_consistent out b = ((out = Yes) = (b = Bid))"

definition opt_enum :: "'a option \<Rightarrow> string \<Rightarrow> 'a res" where
  "opt_enum x msg = (case x of None \<Rightarrow> Inl (KalshiProtocolError msg) | Some y \<Rightarrow> Inr y)"

lemma opt_enum_Inr [res_simps]: "opt_enum x msg = Inr y \<longleftrightarrow> x = Some y"
  by (simp add: opt_enum_def split: option.splits)

definition in_unit :: "dec \<Rightarrow> bool" where
  "in_unit d = (0 \<le> dval d \<and> dval d \<le> 1)"

definition subaccount_in_range :: "int option \<Rightarrow> bool" where
  "subaccount_in_range s = (case s of None \<Rightarrow> True | Some i \<Rightarrow> 0 \<le> i \<and> i \<le> 63)"

definition exchange_index_in_range :: "int option \<Rightarrow> bool" where
  "exchange_index_in_range x = (case x of None \<Rightarrow> True | Some i \<Rightarrow> -1 \<le> i)"

definition order_from_payload :: "pydict \<Rightarrow> kalshi_order res" where
  "order_from_payload p =
     bindE (required_text p ''outcome_side'' ''order'') (\<lambda>outcome_side.
     bindE (required_text p ''book_side'' ''order'') (\<lambda>book_side.
     bindE (required_text p ''type'' ''order'') (\<lambda>order_type.
     bindE (required_text p ''status'' ''order'') (\<lambda>status.
     bindE (opt_enum (outcome_of outcome_side)
       (''outcome_side must be '' @ repr_str ''yes'' @ '' or '' @ repr_str ''no'')) (\<lambda>os.
     bindE (opt_enum (book_side_of book_side)
       (''book_side must be '' @ repr_str ''bid'' @ '' or '' @ repr_str ''ask'')) (\<lambda>bs.
     if \<not> sides_consistent os bs
     then Inl (KalshiProtocolError ''outcome_side and book_side are inconsistent'') else
     bindE (opt_enum (order_type_of order_type)
       (''type must be '' @ repr_str ''limit'' @ '' or '' @ repr_str ''market'')) (\<lambda>ty.
     bindE (opt_enum (order_status_of status) ''invalid order status'') (\<lambda>st.
     bindE (required_fixed dollar_quantum p ''yes_price_dollars'' ''order'') (\<lambda>yes_price.
     bindE (required_fixed dollar_quantum p ''no_price_dollars'' ''order'') (\<lambda>no_price.
     bindE (required_fixed count_quantum p ''fill_count_fp'' ''order'') (\<lambda>fill_count.
     bindE (required_fixed count_quantum p ''remaining_count_fp'' ''order'') (\<lambda>remaining_count.
     bindE (required_fixed count_quantum p ''initial_count_fp'' ''order'') (\<lambda>initial_count.
     bindE (required_fixed dollar_quantum p ''taker_fees_dollars'' ''order'') (\<lambda>taker_fees.
     bindE (required_fixed dollar_quantum p ''maker_fees_dollars'' ''order'') (\<lambda>maker_fees.
     bindE (required_fixed dollar_quantum p ''taker_fill_cost_dollars'' ''order'') (\<lambda>taker_fill_cost.
     bindE (required_fixed dollar_quantum p ''maker_fill_cost_dollars'' ''order'') (\<lambda>maker_fill_cost.
     if \<not> (in_unit yes_price \<and> in_unit no_price)
     then Inl (KalshiProtocolError ''order prices must be between 0 and 1'') else
     if dval (dec_add default_prec yes_price no_price) \<noteq> 1
     then Inl (KalshiProtocolError ''order yes and no prices must sum to 1'') else
     if \<not> list_all (\<lambda>v. 0 \<le> dval v) [fill_count, remaining_count, initial_count, taker_fees, maker_fees,
          taker_fill_cost, maker_fill_cost]
     then Inl (KalshiProtocolError ''order counts, fees, and costs cannot be negative'') else
     bindE (optional_integer p ''subaccount_number'') (\<lambda>subaccount.
     bindE (optional_integer p ''exchange_index'') (\<lambda>exchange_index.
     if \<not> subaccount_in_range subaccount
     then Inl (KalshiProtocolError ''subaccount_number must be between 0 and 63'') else
     if \<not> exchange_index_in_range exchange_index
     then Inl (KalshiProtocolError ''exchange_index cannot be less than -1'') else
     bindE (required_text p ''order_id'' ''order'') (\<lambda>order_id.
     bindE (required_text p ''user_id'' ''order'') (\<lambda>user_id.
     bindE (required_text_allow_empty p ''client_order_id'' ''order'') (\<lambda>client_order_id.
     bindE (required_text p ''ticker'' ''order'') (\<lambda>ticker.
     bindE (optional_text p ''created_time'') (\<lambda>created_time.
     bindE (optional_text p ''last_update_time'') (\<lambda>last_update_time.
     bindE (optional_text p ''expiration_time'') (\<lambda>expiration_time.
     Inr \<lparr>ord_order_id = order_id, ord_user_id = user_id, ord_client_order_id = client_order_id,
       ord_ticker = ticker, ord_outcome_side = os, ord_book_side = bs, ord_order_type = ty,
       ord_status = st, ord_yes_price = yes_price, ord_no_price = no_price,
       ord_fill_count = fill_count, ord_remaining_count = remaining_count,
       ord_initial_count = initial_count, ord_taker_fees = taker_fees, ord_maker_fees = maker_fees,
       ord_taker_fill_cost = taker_fill_cost, ord_maker_fill_cost = maker_fill_cost,
       ord_created_time = created_time, ord_last_update_time = last_update_time,
       ord_expiration_time = expiration_time, ord_subaccount_number = subaccount,
       ord_exchange_index = exchange_index\<rparr>))))))))))))))))))))))))))"

definition dict_items :: "pyval list \<Rightarrow> pydict list option" where
  "dict_items xs =
     (if list_all (\<lambda>v. case v of PDict _ \<Rightarrow> True | _ \<Rightarrow> False) xs
      then Some (map (\<lambda>v. case v of PDict d \<Rightarrow> d | _ \<Rightarrow> []) xs) else None)"

record kalshi_orders_page =
  op_orders :: "kalshi_order list"
  op_cursor :: string

definition orders_page_from_payload :: "pydict \<Rightarrow> kalshi_orders_page res" where
  "orders_page_from_payload p =
     bindE (as_list (py_get p ''orders'') (KalshiProtocolError ''invalid Kalshi orders response'')) (\<lambda>orders.
     bindE (as_text (py_get p ''cursor'') (KalshiProtocolError ''orders cursor must be a string'')) (\<lambda>cursor.
     (case dict_items orders of
        None \<Rightarrow> Inl (KalshiProtocolError ''invalid Kalshi order entry'')
      | Some ds \<Rightarrow>
          bindE (traverseE order_from_payload ds) (\<lambda>os.
          Inr \<lparr>op_orders = os, op_cursor = cursor\<rparr>))))"

section \<open>Fills\<close>

record kalshi_fill =
  fil_fill_id :: string
  fil_trade_id :: string
  fil_order_id :: string
  fil_ticker :: string
  fil_market_ticker :: string
  fil_outcome_side :: outcome
  fil_book_side :: book_side
  fil_count :: dec
  fil_yes_price :: dec
  fil_no_price :: dec
  fil_is_taker :: bool
  fil_fee_cost :: dec
  fil_created_time :: "string option"
  fil_subaccount_number :: "int option"
  fil_ts :: "int option"

definition fill_from_payload :: "pydict \<Rightarrow> kalshi_fill res" where
  "fill_from_payload p =
     bindE (required_text p ''outcome_side'' ''fill'') (\<lambda>outcome_side.
     bindE (required_text p ''book_side'' ''fill'') (\<lambda>book_side.
     bindE (opt_enum (outcome_of outcome_side)
       (''outcome_side must be '' @ repr_str ''yes'' @ '' or '' @ repr_str ''no'')) (\<lambda>os.
     bindE (opt_enum (book_side_of book_side)
       (''book_side must be '' @ repr_str ''bid'' @ '' or '' @ repr_str ''ask'')) (\<lambda>bs.
     if \<not> sides_consistent os bs
     then Inl (KalshiProtocolError ''outcome_side and book_side are inconsistent'') else
     bindE (required_fixed count_quantum p ''count_fp'' ''fill'') (\<lambda>count.
     bindE (required_fixed dollar_quantum p ''yes_price_dollars'' ''fill'') (\<lambda>yes_price.
     bindE (required_fixed dollar_quantum p ''no_price_dollars'' ''fill'') (\<lambda>no_price.
     bindE (required_fixed dollar_quantum p ''fee_cost'' ''fill'') (\<lambda>fee_cost.
     if dval count < 0 \<or> dval fee_cost < 0 \<or> \<not> in_unit yes_price \<or> \<not> in_unit no_price
     then Inl (KalshiProtocolError ''invalid numeric values in Kalshi fill'') else
     if dval (dec_add default_prec yes_price no_price) \<noteq> 1
     then Inl (KalshiProtocolError ''fill yes and no prices must sum to 1'') else
     (case map_of p ''is_taker'' of
        None \<Rightarrow> Inl (KalshiProtocolError ''invalid Kalshi fill response'')
      | Some v \<Rightarrow>
     bindE (strict_bool v ''is_taker'') (\<lambda>is_taker.
     bindE (optional_integer p ''subaccount_number'') (\<lambda>subaccount.
     if \<not> subaccount_in_range subaccount
     then Inl (KalshiProtocolError ''subaccount_number must be between 0 and 63'') else
     bindE (required_text p ''fill_id'' ''fill'') (\<lambda>fill_id.
     bindE (required_text p ''trade_id'' ''fill'') (\<lambda>trade_id.
     bindE (required_text p ''ticker'' ''fill'') (\<lambda>ticker.
     bindE (required_text p ''market_ticker'' ''fill'') (\<lambda>market_ticker.
     if fill_id \<noteq> trade_id
     then Inl (KalshiProtocolError ''fill_id and trade_id must match'') else
     if ticker \<noteq> market_ticker
     then Inl (KalshiProtocolError ''ticker and market_ticker must match'') else
     bindE (required_text p ''order_id'' ''fill'') (\<lambda>order_id.
     bindE (optional_text p ''created_time'') (\<lambda>created_time.
     bindE (optional_integer p ''ts'') (\<lambda>ts.
     Inr \<lparr>fil_fill_id = fill_id, fil_trade_id = trade_id, fil_order_id = order_id,
       fil_ticker = ticker, fil_market_ticker = market_ticker, fil_outcome_side = os,
       fil_book_side = bs, fil_count = count, fil_yes_price = yes_price, fil_no_price = no_price,
       fil_is_taker = is_taker, fil_fee_cost = fee_cost, fil_created_time = created_time,
       fil_subaccount_number = subaccount, fil_ts = ts\<rparr>))))))))))))))))))"

record kalshi_fills_page =
  fp_fills :: "kalshi_fill list"
  fp_cursor :: string

definition fills_page_from_payload :: "pydict \<Rightarrow> kalshi_fills_page res" where
  "fills_page_from_payload p =
     bindE (as_list (py_get p ''fills'') (KalshiProtocolError ''invalid Kalshi fills response'')) (\<lambda>fills.
     bindE (as_text (py_get p ''cursor'') (KalshiProtocolError ''fills cursor must be a string'')) (\<lambda>cursor.
     (case dict_items fills of
        None \<Rightarrow> Inl (KalshiProtocolError ''invalid Kalshi fill entry'')
      | Some ds \<Rightarrow>
          bindE (traverseE fill_from_payload ds) (\<lambda>fs.
          Inr \<lparr>fp_fills = fs, fp_cursor = cursor\<rparr>))))"

section \<open>What a parsed order or fill satisfies\<close>

definition prices_complementary :: "dec \<Rightarrow> dec \<Rightarrow> bool" where
  "prices_complementary yes no = (in_unit yes \<and> in_unit no \<and> dval yes + dval no = 1
     \<and> on_grid dollar_quantum yes \<and> on_grid dollar_quantum no)"

definition amount_ok :: "int \<Rightarrow> dec \<Rightarrow> bool" where
  "amount_ok q d = (on_grid q d \<and> 0 \<le> dval d)"

definition order_ok :: "kalshi_order \<Rightarrow> bool" where
  "order_ok r =
     (sides_consistent (ord_outcome_side r) (ord_book_side r)
      \<and> prices_complementary (ord_yes_price r) (ord_no_price r)
      \<and> list_all (amount_ok count_quantum) [ord_fill_count r, ord_remaining_count r, ord_initial_count r]
      \<and> list_all (amount_ok dollar_quantum) [ord_taker_fees r, ord_maker_fees r,
          ord_taker_fill_cost r, ord_maker_fill_cost r]
      \<and> list_all text_ok [ord_order_id r, ord_user_id r, ord_ticker r]
      \<and> stripped (ord_client_order_id r)
      \<and> subaccount_in_range (ord_subaccount_number r)
      \<and> exchange_index_in_range (ord_exchange_index r))"

definition fill_ok :: "kalshi_fill \<Rightarrow> bool" where
  "fill_ok r =
     (sides_consistent (fil_outcome_side r) (fil_book_side r)
      \<and> prices_complementary (fil_yes_price r) (fil_no_price r)
      \<and> amount_ok count_quantum (fil_count r) \<and> amount_ok dollar_quantum (fil_fee_cost r)
      \<and> fil_fill_id r = fil_trade_id r \<and> fil_ticker r = fil_market_ticker r
      \<and> list_all text_ok [fil_fill_id r, fil_order_id r, fil_ticker r]
      \<and> subaccount_in_range (fil_subaccount_number r))"

text \<open>On the six-decimal grid the sum of two prices in the unit interval is not rounded.\<close>

lemma unit_prices_sum_exact:
  assumes "in_unit a" "in_unit b" "on_grid dollar_quantum a" "on_grid dollar_quantum b"
  shows "dval (dec_add default_prec a b) = dval a + dval b"
proof (rule dec_add_exact_of_bound(1) [where q = dollar_quantum])
  have "\<bar>dval a + dval b\<bar> \<le> 2" using assms by (auto simp: in_unit_def)
  also have "(2::rat) < 10 powi (int default_prec + dollar_quantum)"
    by (simp add: default_prec_def dollar_quantum_def)
  finally show "\<bar>dval a + dval b\<bar> < 10 powi (int default_prec + dollar_quantum)" .
qed (use assms in \<open>simp_all add: default_prec_def dollar_quantum_def on_grid_def\<close>)

lemma amount_okI: "required_fixed q p k c = Inr d \<Longrightarrow> 0 \<le> dval d \<Longrightarrow> amount_ok q d"
  by (simp add: amount_ok_def required_fixed_on_grid)

lemma prices_complementaryI:
  assumes "required_fixed dollar_quantum p k c = Inr a" "required_fixed dollar_quantum p k' c' = Inr b"
    and "in_unit a" "in_unit b" and "dval (dec_add default_prec a b) = 1"
  shows "prices_complementary a b"
  using assms by (simp add: prices_complementary_def required_fixed_on_grid unit_prices_sum_exact)

lemmas parsed_intros = amount_okI prices_complementaryI field_facts

lemmas parsed_simps = list.pred_inject opt_enum_Inr not_less de_Morgan_disj simp_thms

lemma order_from_payload_ok: "order_from_payload p = Inr r \<Longrightarrow> order_ok r"
  unfolding order_from_payload_def
  by (elim run_elims, drule Inr_inject, hypsubst, unfold order_ok_def,
      simp only: kalshi_order.select_convs parsed_simps)
    (elim conjE, intro conjI; blast intro: parsed_intros)

lemma fill_from_payload_ok: "fill_from_payload p = Inr r \<Longrightarrow> fill_ok r"
  unfolding fill_from_payload_def
  by (elim run_elims, drule Inr_inject, hypsubst, unfold fill_ok_def,
      simp only: kalshi_fill.select_convs parsed_simps)
    (elim conjE, intro conjI; blast intro: parsed_intros)

text \<open>Every order or fill of a parsed page is a parsed order or fill.\<close>

lemma orders_page_from_payload_ok:
  assumes "orders_page_from_payload p = Inr pg"
  shows "\<forall>r \<in> set (op_orders pg). order_ok r"
  using assms
  by (auto simp: orders_page_from_payload_def res_simps split: option.splits
      dest!: traverseE_all [where P = order_ok, OF _ order_from_payload_ok])

lemma fills_page_from_payload_ok:
  assumes "fills_page_from_payload p = Inr pg"
  shows "\<forall>r \<in> set (fp_fills pg). fill_ok r"
  using assms
  by (auto simp: fills_page_from_payload_def res_simps split: option.splits
      dest!: traverseE_all [where P = fill_ok, OF _ fill_from_payload_ok])

end
