(* ===== verification/KalshiAccounts.thy ===== *)
theory KalshiAccounts
  imports KalshiModels
begin

text \<open>
  The account-level read models of \<open>services/venues/kalshi_v2.py\<close>: market and event
  positions, settlements and balance snapshots, with the invariants their parsers
  establish. A balance's dollar amount, truncated to whole cents by the code's decimal
  arithmetic, is the cents field of the same snapshot.
\<close>

section \<open>Positions\<close>

record kalshi_market_position =
  mp_ticker :: string
  mp_total_traded :: dec
  mp_position :: dec
  mp_market_exposure :: dec
  mp_realized_pnl :: dec
  mp_fees_paid :: dec
  mp_last_updated_ts :: string

definition market_position_fields :: "pydict \<Rightarrow> kalshi_market_position res" where
  "market_position_fields p =
     bindE (required_text p ''ticker'' ''market position'') (\<lambda>ticker.
     bindE (required_fixed dollar_quantum p ''total_traded_dollars'' ''market position'') (\<lambda>total_traded.
     bindE (required_fixed count_quantum p ''position_fp'' ''market position'') (\<lambda>position.
     bindE (required_fixed dollar_quantum p ''market_exposure_dollars'' ''market position'') (\<lambda>exposure.
     bindE (required_fixed dollar_quantum p ''realized_pnl_dollars'' ''market position'') (\<lambda>pnl.
     bindE (required_fixed dollar_quantum p ''fees_paid_dollars'' ''market position'') (\<lambda>fees.
     bindE (required_text p ''last_updated_ts'' ''market position'') (\<lambda>updated.
     Inr \<lparr>mp_ticker = ticker, mp_total_traded = total_traded, mp_position = position,
          mp_market_exposure = exposure, mp_realized_pnl = pnl, mp_fees_paid = fees,
          mp_last_updated_ts = updated\<rparr>)))))))"

text \<open>
  The \<open>except\<close> clause looks at the message: one that already says \<open>market position\<close> is
  raised again, any other is wrapped.
\<close>

definition market_position_from_payload :: "pydict \<Rightarrow> kalshi_market_position res" where
  "market_position_from_payload p =
     catchE (market_position_fields p) (\<lambda>e. case e of
        KalshiProtocolError msg \<Rightarrow>
          if contains msg ''market position'' then Some (Inl e)
          else Some (Inl (KalshiProtocolError (''invalid Kalshi market position response: '' @ msg)))
      | _ \<Rightarrow> None)"

record kalshi_event_position =
  ep_event_ticker :: string
  ep_total_cost :: dec
  ep_total_cost_shares :: dec
  ep_event_exposure :: dec
  ep_realized_pnl :: dec
  ep_fees_paid :: dec

definition event_position_from_payload :: "pydict \<Rightarrow> kalshi_event_position res" where
  "event_position_from_payload p =
     bindE (required_text p ''event_ticker'' ''event position'') (\<lambda>ticker.
     bindE (required_fixed dollar_quantum p ''total_cost_dollars'' ''event position'') (\<lambda>cost.
     bindE (required_fixed count_quantum p ''total_cost_shares_fp'' ''event position'') (\<lambda>shares.
     bindE (required_fixed dollar_quantum p ''event_exposure_dollars'' ''event position'') (\<lambda>exposure.
     bindE (required_fixed dollar_quantum p ''realized_pnl_dollars'' ''event position'') (\<lambda>pnl.
     bindE (required_fixed dollar_quantum p ''fees_paid_dollars'' ''event position'') (\<lambda>fees.
     Inr \<lparr>ep_event_ticker = ticker, ep_total_cost = cost, ep_total_cost_shares = shares,
          ep_event_exposure = exposure, ep_realized_pnl = pnl, ep_fees_paid = fees\<rparr>))))))"

record kalshi_positions_page =
  pp_market_positions :: "kalshi_market_position list"
  pp_event_positions :: "kalshi_event_position list"
  pp_cursor :: string

definition list_of_dicts :: "pyval \<Rightarrow> string \<Rightarrow> pydict list res" where
  "list_of_dicts v msg =
     bindE (as_list v (KalshiProtocolError msg)) (\<lambda>xs.
     (case dict_items xs of None \<Rightarrow> Inl (KalshiProtocolError msg) | Some ds \<Rightarrow> Inr ds))"

definition cursor_text :: "pyval \<Rightarrow> string \<Rightarrow> string res" where
  "cursor_text v msg = as_text v (KalshiProtocolError msg)"

definition positions_page_from_payload :: "pydict \<Rightarrow> kalshi_positions_page res" where
  "positions_page_from_payload p =
     bindE (list_of_dicts (py_get p ''market_positions'') ''invalid Kalshi market positions response'') (\<lambda>ms.
     bindE (list_of_dicts (py_get p ''event_positions'') ''invalid Kalshi event positions response'') (\<lambda>es.
     bindE (cursor_text (py_get_or (PStr []) p ''cursor'') ''positions cursor must be a string'') (\<lambda>cursor.
     bindE (traverseE market_position_from_payload ms) (\<lambda>markets.
     bindE (traverseE event_position_from_payload es) (\<lambda>events.
     Inr \<lparr>pp_market_positions = markets, pp_event_positions = events, pp_cursor = cursor\<rparr>)))))"

section \<open>Settlements\<close>

datatype market_result = ResultYes | ResultNo | ResultScalar

definition market_result_of :: "string \<Rightarrow> market_result option" where
  "market_result_of s = (if s = ''yes'' then Some ResultYes else if s = ''no'' then Some ResultNo
     else if s = ''scalar'' then Some ResultScalar else None)"

record kalshi_settlement =
  set_ticker :: string
  set_event_ticker :: string
  set_market_result :: market_result
  set_yes_count :: dec
  set_yes_total_cost :: dec
  set_no_count :: dec
  set_no_total_cost :: dec
  set_revenue_cents :: int
  set_settled_time :: string
  set_fee_cost :: dec
  set_settlement_value_cents :: "int option"

definition item_integer :: "pydict \<Rightarrow> string \<Rightarrow> string \<Rightarrow> int res" where
  "item_integer p key msg =
     (case map_of p key of None \<Rightarrow> Inl (KalshiProtocolError msg) | Some v \<Rightarrow> integer_value v key)"

definition settlement_value_in_range :: "int option \<Rightarrow> bool" where
  "settlement_value_in_range v = (case v of None \<Rightarrow> True | Some i \<Rightarrow> 0 \<le> i \<and> i \<le> 100)"

definition settlement_from_payload :: "pydict \<Rightarrow> kalshi_settlement res" where
  "settlement_from_payload p =
     bindE (required_text p ''market_result'' ''settlement'') (\<lambda>market_result.
     bindE (opt_enum (market_result_of market_result) ''market_result must be yes, no, or scalar'') (\<lambda>mr.
     bindE (item_integer p ''revenue'' ''invalid Kalshi settlement response'') (\<lambda>revenue.
     bindE (required_fixed count_quantum p ''yes_count_fp'' ''settlement'') (\<lambda>yes_count.
     bindE (required_fixed dollar_quantum p ''yes_total_cost_dollars'' ''settlement'') (\<lambda>yes_cost.
     bindE (required_fixed count_quantum p ''no_count_fp'' ''settlement'') (\<lambda>no_count.
     bindE (required_fixed dollar_quantum p ''no_total_cost_dollars'' ''settlement'') (\<lambda>no_cost.
     bindE (required_fixed dollar_quantum p ''fee_cost'' ''settlement'') (\<lambda>fee_cost.
     if \<not> (0 \<le> revenue \<and> list_all (\<lambda>v. 0 \<le> dval v) [yes_count, yes_cost, no_count, no_cost, fee_cost])
     then Inl (KalshiProtocolError ''settlement counts, costs, fees, and revenue cannot be negative'') else
     bindE (optional_integer p ''value'') (\<lambda>settlement_value.
     if \<not> settlement_value_in_range settlement_value
     then Inl (KalshiProtocolError ''settlement value must be between 0 and 100 cents'') else
     bindE (required_text p ''ticker'' ''settlement'') (\<lambda>ticker.
     bindE (required_text p ''event_ticker'' ''settlement'') (\<lambda>event_ticker.
     bindE (required_text p ''settled_time'' ''settlement'') (\<lambda>settled_time.
     Inr \<lparr>set_ticker = ticker, set_event_ticker = event_ticker, set_market_result = mr,
       set_yes_count = yes_count, set_yes_total_cost = yes_cost, set_no_count = no_count,
       set_no_total_cost = no_cost, set_revenue_cents = revenue, set_settled_time = settled_time,
       set_fee_cost = fee_cost, set_settlement_value_cents = settlement_value\<rparr>))))))))))))"

record kalshi_settlements_page =
  sp_settlements :: "kalshi_settlement list"
  sp_cursor :: string

definition settlements_page_from_payload :: "pydict \<Rightarrow> kalshi_settlements_page res" where
  "settlements_page_from_payload p =
     bindE (list_of_dicts (py_get p ''settlements'') ''invalid Kalshi settlements response'') (\<lambda>ss.
     bindE (cursor_text (py_get_or (PStr []) p ''cursor'') ''settlements cursor must be a string'') (\<lambda>cursor.
     bindE (traverseE settlement_from_payload ss) (\<lambda>settlements.
     Inr \<lparr>sp_settlements = settlements, sp_cursor = cursor\<rparr>)))"

definition settlement_ok :: "kalshi_settlement \<Rightarrow> bool" where
  "settlement_ok s =
     (list_all (amount_ok count_quantum) [set_yes_count s, set_no_count s]
      \<and> list_all (amount_ok dollar_quantum) [set_yes_total_cost s, set_no_total_cost s, set_fee_cost s]
      \<and> 0 \<le> set_revenue_cents s \<and> settlement_value_in_range (set_settlement_value_cents s)
      \<and> list_all text_ok [set_ticker s, set_event_ticker s, set_settled_time s])"

lemma settlement_from_payload_ok: "settlement_from_payload p = Inr s \<Longrightarrow> settlement_ok s"
  unfolding settlement_from_payload_def
  by (elim run_elims, drule Inr_inject, hypsubst, unfold settlement_ok_def,
      simp only: kalshi_settlement.select_convs parsed_simps)
    (elim conjE, intro conjI; blast intro: parsed_intros)

section \<open>Balances\<close>

record kalshi_subaccount_balance =
  sub_exchange_index :: int
  sub_balance :: dec

record kalshi_balance_snapshot =
  bal_balance_cents :: int
  bal_balance_dollars :: dec
  bal_portfolio_value_cents :: int
  bal_updated_ts :: int
  bal_balance_breakdown :: "kalshi_subaccount_balance list"

definition breakdown_entry :: "pyval \<Rightarrow> kalshi_subaccount_balance res" where
  "breakdown_entry v =
     bindE (as_dict v (KalshiProtocolError ''invalid balance_breakdown entry'')) (\<lambda>entry.
     bindE (item_integer entry ''exchange_index'' ''invalid balance_breakdown entry'') (\<lambda>i.
     bindE (required_fixed dollar_quantum entry ''balance'' ''balance_breakdown entry'') (\<lambda>b.
     if i < 0 then Inl (KalshiProtocolError ''exchange_index cannot be negative'') else
     if dval b < 0 then Inl (KalshiProtocolError ''breakdown balance cannot be negative'') else
     Inr \<lparr>sub_exchange_index = i, sub_balance = b\<rparr>)))"

text \<open>\<open>(balance_dollars * 100).to_integral_value(rounding=ROUND_DOWN)\<close>\<close>

definition dollars_in_cents :: "dec \<Rightarrow> dec" where
  "dollars_in_cents d = dec_trunc (dec_mul default_prec d (dec_of_int 100))"

definition balance_from_payload :: "pydict \<Rightarrow> kalshi_balance_snapshot res" where
  "balance_from_payload p =
     bindE (item_integer p ''balance'' ''invalid Kalshi balance response'') (\<lambda>cents.
     bindE (item_integer p ''portfolio_value'' ''invalid Kalshi balance response'') (\<lambda>portfolio.
     bindE (item_integer p ''updated_ts'' ''invalid Kalshi balance response'') (\<lambda>updated.
     bindE (required_fixed dollar_quantum p ''balance_dollars'' ''balance'') (\<lambda>dollars.
     bindE (as_list (py_get_or (PList []) p ''balance_breakdown'')
       (KalshiProtocolError ''balance_breakdown must be a list'')) (\<lambda>entries.
     bindE (traverseE breakdown_entry entries) (\<lambda>breakdown.
     if cents < 0 \<or> portfolio < 0 \<or> updated \<le> 0
     then Inl (KalshiProtocolError ''invalid values in Kalshi balance response'') else
     if dval dollars < 0 then Inl (KalshiProtocolError ''balance_dollars cannot be negative'') else
     if dval (dollars_in_cents dollars) \<noteq> of_int cents
     then Inl (KalshiProtocolError ''balance_dollars does not match balance cents'') else
     Inr \<lparr>bal_balance_cents = cents, bal_balance_dollars = dollars,
          bal_portfolio_value_cents = portfolio, bal_updated_ts = updated,
          bal_balance_breakdown = breakdown\<rparr>))))))"

definition balance_ok :: "kalshi_balance_snapshot \<Rightarrow> bool" where
  "balance_ok b =
     (0 \<le> bal_balance_cents b \<and> 0 \<le> bal_portfolio_value_cents b \<and> 0 < bal_updated_ts b
      \<and> on_grid dollar_quantum (bal_balance_dollars b) \<and> 0 \<le> dval (bal_balance_dollars b)
      \<and> dval (dollars_in_cents (bal_balance_dollars b)) = of_int (bal_balance_cents b)
      \<and> list_all (\<lambda>s. 0 \<le> sub_exchange_index s \<and> amount_ok dollar_quantum (sub_balance s))
          (bal_balance_breakdown b))"

lemma breakdown_entry_ok:
  "breakdown_entry v = Inr s \<Longrightarrow> 0 \<le> sub_exchange_index s \<and> amount_ok dollar_quantum (sub_balance s)"
  by (auto simp: breakdown_entry_def res_simps not_less intro: parsed_intros)

lemma breakdown_entries_ok:
  assumes "traverseE breakdown_entry vs = Inr ss"
  shows "list_all (\<lambda>s. 0 \<le> sub_exchange_index s \<and> amount_ok dollar_quantum (sub_balance s)) ss"
  unfolding list_all_iff by (rule traverseE_all [OF assms], rule breakdown_entry_ok)

lemma balance_from_payload_ok: "balance_from_payload p = Inr b \<Longrightarrow> balance_ok b"
  unfolding balance_from_payload_def
  by (elim run_elims, drule Inr_inject, hypsubst, unfold balance_ok_def,
      simp only: kalshi_balance_snapshot.select_convs parsed_simps not_le)
    (elim conjE, intro conjI; blast intro: parsed_intros breakdown_entries_ok)

end
