(* ===== verification/Contracts.thy ===== *)
theory Contracts
  imports KalshiAccounts
begin

text \<open>
  \<open>services/venues/contracts.py\<close> (the venue-neutral order intent) and the write models of
  \<open>services/venues/kalshi_v2.py\<close>: the event order request with its wire payload, the
  translation of an intent, and the order acknowledgement.
\<close>

datatype venue = Kalshi | Polymarket

datatype time_in_force = GoodTillCanceled | ImmediateOrCancel | FillOrKill

datatype self_trade_prevention = TakerAtCross | Maker

definition venue_of :: "string \<Rightarrow> venue option" where
  "venue_of s = (if s = ''kalshi'' then Some Kalshi else if s = ''polymarket'' then Some Polymarket else None)"

definition time_in_force_of :: "string \<Rightarrow> time_in_force option" where
  "time_in_force_of s = (if s = ''good_till_canceled'' then Some GoodTillCanceled
     else if s = ''immediate_or_cancel'' then Some ImmediateOrCancel
     else if s = ''fill_or_kill'' then Some FillOrKill else None)"

definition self_trade_prevention_of :: "string \<Rightarrow> self_trade_prevention option" where
  "self_trade_prevention_of s = (if s = ''taker_at_cross'' then Some TakerAtCross
     else if s = ''maker'' then Some Maker else None)"

fun venue_text :: "venue \<Rightarrow> string" where
  "venue_text Kalshi = ''kalshi''"
| "venue_text Polymarket = ''polymarket''"

fun time_in_force_text :: "time_in_force \<Rightarrow> string" where
  "time_in_force_text GoodTillCanceled = ''good_till_canceled''"
| "time_in_force_text ImmediateOrCancel = ''immediate_or_cancel''"
| "time_in_force_text FillOrKill = ''fill_or_kill''"

fun self_trade_prevention_text :: "self_trade_prevention \<Rightarrow> string" where
  "self_trade_prevention_text TakerAtCross = ''taker_at_cross''"
| "self_trade_prevention_text Maker = ''maker''"

lemma venue_of_text [simp]: "venue_of (venue_text v) = Some v"
  by (cases v) (simp_all add: venue_of_def)

lemma time_in_force_of_text [simp]: "time_in_force_of (time_in_force_text t) = Some t"
  by (cases t) (simp_all add: time_in_force_of_def)

lemma self_trade_prevention_of_text [simp]:
  "self_trade_prevention_of (self_trade_prevention_text s) = Some s"
  by (cases s) (simp_all add: self_trade_prevention_of_def)

lemma book_side_of_text [simp]: "book_side_of (book_side_text b) = Some b"
  by (cases b) (simp_all add: book_side_of_def)

lemma outcome_of_text [simp]: "outcome_of (outcome_text x) = Some x"
  by (cases x) (simp_all add: outcome_of_def)

lemmas enum_round_trip = venue_of_text time_in_force_of_text self_trade_prevention_of_text
  book_side_of_text outcome_of_text

section \<open>The venue-neutral intent\<close>

text \<open>The constructor's arguments; the numbers may be \<open>Decimal\<close>s or anything \<open>str\<close> prints as one.\<close>

record intent_args =
  ia_venue :: string
  ia_instrument_id :: string
  ia_client_order_id :: string
  ia_book_side :: string
  ia_quantity :: pyval
  ia_limit_price :: pyval
  ia_time_in_force :: string
  ia_post_only :: bool

record venue_order_intent =
  vi_venue :: venue
  vi_instrument_id :: string
  vi_client_order_id :: string
  vi_book_side :: book_side
  vi_quantity :: dec
  vi_limit_price :: dec
  vi_time_in_force :: time_in_force
  vi_post_only :: bool

definition opt_or :: "'a option \<Rightarrow> exn \<Rightarrow> 'a res" where
  "opt_or x e = (case x of None \<Rightarrow> Inl e | Some y \<Rightarrow> Inr y)"

lemma opt_or_Inr [res_simps]: "opt_or x e = Inr y \<longleftrightarrow> x = Some y"
  by (simp add: opt_or_def split: option.splits)

definition make_intent :: "intent_args \<Rightarrow> venue_order_intent res" where
  "make_intent a =
     (let instrument_id = strip (ia_instrument_id a);
          client_order_id = strip (ia_client_order_id a) in
     bindE (opt_or (decimal_of (ia_quantity a))
       (ValueError ''quantity and limit_price must be finite decimals'')) (\<lambda>quantity.
     bindE (opt_or (decimal_of (ia_limit_price a))
       (ValueError ''quantity and limit_price must be finite decimals'')) (\<lambda>limit_price.
     bindE (opt_or (venue_of (ia_venue a)) (ValueError ''unsupported venue'')) (\<lambda>v.
     if instrument_id = [] then Inl (ValueError ''instrument_id is required'') else
     if client_order_id = [] then Inl (ValueError ''client_order_id is required'') else
     bindE (opt_or (book_side_of (ia_book_side a))
       (ValueError (''book_side must be '' @ repr_str ''bid'' @ '' or '' @ repr_str ''ask''))) (\<lambda>side.
     bindE (opt_or (time_in_force_of (ia_time_in_force a))
       (ValueError ''unsupported time_in_force'')) (\<lambda>tif.
     bindE (finite_dec (Some quantity) (ValueError ''quantity must be a positive finite decimal'')) (\<lambda>q.
     if dval q \<le> 0 then Inl (ValueError ''quantity must be a positive finite decimal'') else
     bindE (finite_dec (Some limit_price)
       (ValueError ''limit_price must be greater than 0 and less than 1'')) (\<lambda>lp.
     if dval lp \<le> 0 \<or> 1 \<le> dval lp
     then Inl (ValueError ''limit_price must be greater than 0 and less than 1'') else
     Inr \<lparr>vi_venue = v, vi_instrument_id = instrument_id, vi_client_order_id = client_order_id,
       vi_book_side = side, vi_quantity = q, vi_limit_price = lp, vi_time_in_force = tif,
       vi_post_only = ia_post_only a\<rparr>))))))))"

definition intent_ok :: "venue_order_intent \<Rightarrow> bool" where
  "intent_ok i = (list_all text_ok [vi_instrument_id i, vi_client_order_id i]
     \<and> 0 < dval (vi_quantity i) \<and> 0 < dval (vi_limit_price i) \<and> dval (vi_limit_price i) < 1)"

lemma make_intent_ok: "make_intent a = Inr i \<Longrightarrow> intent_ok i"
  unfolding make_intent_def Let_def
  by (elim run_elims, drule Inr_inject, hypsubst, unfold intent_ok_def text_ok_def,
      simp only: venue_order_intent.select_convs parsed_simps not_le stripped_strip)

section \<open>The event order request\<close>

record event_order_args =
  ea_ticker :: string
  ea_client_order_id :: string
  ea_side :: string
  ea_count :: pyval
  ea_price :: pyval
  ea_time_in_force :: string
  ea_self_trade_prevention_type :: string
  ea_post_only :: bool
  ea_cancel_order_on_pause :: bool
  ea_reduce_only :: bool
  ea_subaccount :: pyval
  ea_exchange_index :: pyval

record event_order_request =
  eo_ticker :: string
  eo_client_order_id :: string
  eo_side :: book_side
  eo_count :: dec
  eo_price :: dec
  eo_time_in_force :: time_in_force
  eo_self_trade_prevention_type :: self_trade_prevention
  eo_post_only :: bool
  eo_cancel_order_on_pause :: bool
  eo_reduce_only :: bool
  eo_subaccount :: int
  eo_exchange_index :: int

definition make_event_order :: "event_order_args \<Rightarrow> event_order_request res" where
  "make_event_order a =
     (let ticker = strip (ea_ticker a); client_order_id = strip (ea_client_order_id a) in
     bindE (decimal_value (ea_count a) ''count'') (\<lambda>count.
     bindE (decimal_value (ea_price a) ''price'') (\<lambda>price.
     if ticker = [] then Inl (KalshiProtocolError ''ticker is required'') else
     if client_order_id = [] then Inl (KalshiProtocolError ''client_order_id is required'') else
     bindE (opt_enum (book_side_of (ea_side a))
       (''side must be '' @ repr_str ''bid'' @ '' or '' @ repr_str ''ask'')) (\<lambda>side.
     bindE (opt_enum (time_in_force_of (ea_time_in_force a)) ''unsupported time_in_force'') (\<lambda>tif.
     bindE (opt_enum (self_trade_prevention_of (ea_self_trade_prevention_type a))
       (''self_trade_prevention_type must be '' @ repr_str ''taker_at_cross'' @ '' or ''
         @ repr_str ''maker'')) (\<lambda>stp.
     if dval count \<le> 0 then Inl (KalshiProtocolError ''count must be greater than zero'') else
     if dval price \<le> 0 \<or> 1 \<le> dval price
     then Inl (KalshiProtocolError ''price must be greater than 0 and less than 1'') else
     bindE (as_int (ea_subaccount a) (KalshiProtocolError ''subaccount must be an integer'')) (\<lambda>subaccount.
     if subaccount < 0 then Inl (KalshiProtocolError ''subaccount cannot be negative'') else
     bindE (as_int (ea_exchange_index a)
       (KalshiProtocolError ''exchange_index must be an integer'')) (\<lambda>exchange_index.
     if exchange_index < -1
     then Inl (KalshiProtocolError ''exchange_index cannot be less than -1'') else
     bindE (fixed_text count count_quantum ''count'') (\<lambda>_.
     bindE (fixed_text price dollar_quantum ''price'') (\<lambda>_.
     Inr \<lparr>eo_ticker = ticker, eo_client_order_id = client_order_id, eo_side = side,
       eo_count = count, eo_price = price, eo_time_in_force = tif,
       eo_self_trade_prevention_type = stp, eo_post_only = ea_post_only a,
       eo_cancel_order_on_pause = ea_cancel_order_on_pause a, eo_reduce_only = ea_reduce_only a,
       eo_subaccount = subaccount, eo_exchange_index = exchange_index\<rparr>))))))))))"

definition event_order_payload :: "event_order_request \<Rightarrow> pydict res" where
  "event_order_payload r =
     bindE (fixed_text (eo_count r) count_quantum ''count'') (\<lambda>count.
     bindE (fixed_text (eo_price r) dollar_quantum ''price'') (\<lambda>price.
     Inr [(''ticker'', PStr (eo_ticker r)),
          (''client_order_id'', PStr (eo_client_order_id r)),
          (''side'', PStr (book_side_text (eo_side r))),
          (''count'', PStr count),
          (''price'', PStr price),
          (''time_in_force'', PStr (time_in_force_text (eo_time_in_force r))),
          (''self_trade_prevention_type'',
             PStr (self_trade_prevention_text (eo_self_trade_prevention_type r))),
          (''post_only'', PBool (eo_post_only r)),
          (''cancel_order_on_pause'', PBool (eo_cancel_order_on_pause r)),
          (''reduce_only'', PBool (eo_reduce_only r)),
          (''subaccount'', PInt (eo_subaccount r)),
          (''exchange_index'', PInt (eo_exchange_index r))]))"

definition event_order_ok :: "event_order_request \<Rightarrow> bool" where
  "event_order_ok r =
     (list_all text_ok [eo_ticker r, eo_client_order_id r]
      \<and> 0 < dval (eo_count r) \<and> on_grid count_quantum (eo_count r)
      \<and> 0 < dval (eo_price r) \<and> dval (eo_price r) < 1 \<and> on_grid dollar_quantum (eo_price r)
      \<and> 0 \<le> eo_subaccount r \<and> -1 \<le> eo_exchange_index r)"

lemma make_event_order_ok: "make_event_order a = Inr r \<Longrightarrow> event_order_ok r"
  unfolding make_event_order_def Let_def
  by (elim run_elims, drule Inr_inject, hypsubst, unfold event_order_ok_def text_ok_def,
      simp only: event_order_request.select_convs parsed_simps not_le stripped_strip fixed_text_Inr_iff)

text \<open>\<open>event_order_from_intent\<close>\<close>

definition event_order_from_intent ::
    "venue_order_intent \<Rightarrow> bool \<Rightarrow> bool \<Rightarrow> int \<Rightarrow> int \<Rightarrow> event_order_request res" where
  "event_order_from_intent i cancel_on_pause reduce_only subaccount exchange_index =
     (if vi_venue i \<noteq> Kalshi
      then Inl (ValueError ''Kalshi translator requires a Kalshi venue intent'')
      else make_event_order
        \<lparr>ea_ticker = vi_instrument_id i, ea_client_order_id = vi_client_order_id i,
         ea_side = book_side_text (vi_book_side i), ea_count = PDec (Fin (vi_quantity i)),
         ea_price = PDec (Fin (vi_limit_price i)),
         ea_time_in_force = time_in_force_text (vi_time_in_force i),
         ea_self_trade_prevention_type = ''taker_at_cross'', ea_post_only = vi_post_only i,
         ea_cancel_order_on_pause = cancel_on_pause, ea_reduce_only = reduce_only,
         ea_subaccount = PInt subaccount, ea_exchange_index = PInt exchange_index\<rparr>)"

lemma decimal_value_PDec [simp]: "decimal_value (PDec (Fin d)) field = Inr d"
  by (simp add: decimal_value_def decimal_of_def finite_dec_def)

text \<open>
  Translation of a valid Kalshi intent succeeds exactly when its numbers fit the venue's
  grids and the routing integers are in range, and then changes none of its terms.
\<close>

lemma event_order_from_intent_eq:
  assumes "intent_ok i" "vi_venue i = Kalshi" "0 \<le> subaccount" "-1 \<le> exchange_index"
    and "on_grid count_quantum (vi_quantity i)" "on_grid dollar_quantum (vi_limit_price i)"
  shows "event_order_from_intent i pause reduce subaccount exchange_index =
    Inr \<lparr>eo_ticker = vi_instrument_id i, eo_client_order_id = vi_client_order_id i,
      eo_side = vi_book_side i, eo_count = vi_quantity i, eo_price = vi_limit_price i,
      eo_time_in_force = vi_time_in_force i, eo_self_trade_prevention_type = TakerAtCross,
      eo_post_only = vi_post_only i, eo_cancel_order_on_pause = pause, eo_reduce_only = reduce,
      eo_subaccount = subaccount, eo_exchange_index = exchange_index\<rparr>"
proof -
  have f: "fixed_text (vi_quantity i) count_quantum ''count'' = Inr (format_f (dec_rescale (vi_quantity i) count_quantum))"
    "fixed_text (vi_limit_price i) dollar_quantum ''price'' = Inr (format_f (dec_rescale (vi_limit_price i) dollar_quantum))"
    using assms(5,6) by (simp_all only: fixed_text_Inr_iff)
  have t: "strip (vi_instrument_id i) = vi_instrument_id i" "strip (vi_client_order_id i) = vi_client_order_id i"
    using assms(1) by (simp_all add: intent_ok_def text_ok_def strip_stripped_eq)
  show ?thesis
    using assms(1-4) self_trade_prevention_of_def
    by (simp add: event_order_from_intent_def make_event_order_def f t as_int_def enum_round_trip opt_enum_def
        intent_ok_def text_ok_def)
qed

section \<open>Acknowledgements\<close>

record order_ack =
  ack_order_id :: string
  ack_client_order_id :: string
  ack_fill_count :: dec
  ack_remaining_count :: dec
  ack_ts_ms :: int

definition int_of_ts :: "pyval \<Rightarrow> int res" where
  "int_of_ts v =
     (case v of
        PInt i \<Rightarrow> Inr i
      | PStr s \<Rightarrow> (case py_int_of_str s of None \<Rightarrow> Inl (ValueError ''invalid literal for int()'')
                   | Some i \<Rightarrow> Inr i)
      | _ \<Rightarrow> Inl (TypeError ''ts_ms must be an integer''))"

definition ack_fields :: "pydict \<Rightarrow> string \<Rightarrow> (string \<times> string \<times> dec \<times> dec \<times> int) res" where
  "ack_fields p submitted =
     bindE (py_item p ''order_id'') (\<lambda>raw_order_id.
     let order_id = strip (py_str raw_order_id);
         raw_client = py_get p ''client_order_id'';
         client_order_id = (if raw_client = PNone then submitted else strip (py_str raw_client)) in
     bindE (py_item p ''fill_count'') (\<lambda>raw_fill.
     bindE (decimal_value raw_fill ''fill_count'') (\<lambda>fill_count.
     bindE (py_item p ''remaining_count'') (\<lambda>raw_remaining.
     bindE (decimal_value raw_remaining ''remaining_count'') (\<lambda>remaining_count.
     bindE (py_item p ''ts_ms'') (\<lambda>raw_ts_ms.
     bindE (int_of_ts raw_ts_ms) (\<lambda>ts_ms.
     Inr (order_id, client_order_id, fill_count, remaining_count, ts_ms))))))))"

definition ack_from_payload :: "pydict \<Rightarrow> string \<Rightarrow> order_ack res" where
  "ack_from_payload p submitted =
     bindE (catchE (ack_fields p submitted)
       (\<lambda>e. if is_key_error e \<or> is_type_error e \<or> is_value_error e
            then Some (Inl (KalshiProtocolError ''invalid Kalshi V2 order acknowledgement'')) else None))
     (\<lambda>(order_id, client_order_id, fill_count, remaining_count, ts_ms).
     if order_id = [] \<or> client_order_id = []
     then Inl (KalshiProtocolError ''order acknowledgement IDs cannot be empty'') else
     if dval fill_count < 0 \<or> dval remaining_count < 0 \<or> ts_ms \<le> 0
     then Inl (KalshiProtocolError ''invalid values in order acknowledgement'') else
     Inr \<lparr>ack_order_id = order_id, ack_client_order_id = client_order_id,
       ack_fill_count = fill_count, ack_remaining_count = remaining_count, ack_ts_ms = ts_ms\<rparr>)"

lemma decimal_value_error: "decimal_value v f = Inl e \<Longrightarrow> is_value_error e"
  by (auto simp: decimal_value_def finite_dec_def split: pyval.splits option.splits pydec.splits)

lemma bindE_InlE:
  "bindE m f = Inl e \<Longrightarrow> (m = Inl e \<Longrightarrow> P) \<Longrightarrow> (\<And>x. m = Inr x \<Longrightarrow> f x = Inl e \<Longrightarrow> P) \<Longrightarrow> P"
  by (cases m) auto

lemma py_item_error: "py_item p k = Inl e \<Longrightarrow> is_key_error e"
  by (auto simp: py_item_def split: option.splits)

lemma int_of_ts_error: "int_of_ts v = Inl e \<Longrightarrow> is_type_error e \<or> is_value_error e"
  by (auto simp: int_of_ts_def split: pyval.splits option.splits)

lemma ack_fields_error:
  "ack_fields p s = Inl e \<Longrightarrow> is_key_error e \<or> is_type_error e \<or> is_value_error e"
  unfolding ack_fields_def Let_def
  by (elim bindE_InlE) (auto dest: py_item_error decimal_value_error int_of_ts_error)

text \<open>A response that is not an acknowledgement raises \<open>KalshiProtocolError\<close>, never anything else.\<close>

lemma ack_from_payload_error: "ack_from_payload p s = Inl e \<Longrightarrow> \<exists>m. e = KalshiProtocolError m"
  by (cases "ack_fields p s")
    (auto simp: ack_from_payload_def dest!: ack_fields_error split: if_splits)

lemma ack_from_payload_ok:
  "ack_from_payload p s = Inr a \<Longrightarrow>
     ack_order_id a \<noteq> [] \<and> ack_client_order_id a \<noteq> [] \<and> 0 \<le> dval (ack_fill_count a)
     \<and> 0 \<le> dval (ack_remaining_count a) \<and> 0 < ack_ts_ms a"
  by (cases "ack_fields p s")
    (auto simp: ack_from_payload_def dest!: ack_fields_error split: if_splits)

end
