(* ===== verification/KalshiClient.thy ===== *)
theory KalshiClient
  imports Contracts
begin

text \<open>
  The signer and the client of \<open>services/venues/kalshi_v2.py\<close>: origins, the principal
  fingerprint, signed headers, the portfolio reads and the only write, \<open>create_order\<close>.

  What the sources take from other packages is an argument: \<open>digest\<close> (SHA-256 of a text as a hex
  text), the key loader and the RSA-PSS signature of \<open>cryptography\<close>, and the HTTP
  transport of \<open>httpx\<close>. The state of a client is the list of the requests it has handed to
  the transport, oldest first.
\<close>

section \<open>Constants\<close>

definition api_prefix :: string where "api_prefix = ''/trade-api/v2''"
definition ws_path :: string where "ws_path = ''/trade-api/ws/v2''"
definition production_origin :: string where "production_origin = ''https://external-api.kalshi.com''"
definition demo_origin :: string where "demo_origin = ''https://external-api.demo.kalshi.co''"

definition production_ws_url :: string where
  "production_ws_url = ''wss://external-api-ws.kalshi.com'' @ ws_path"

definition demo_ws_url :: string where
  "demo_ws_url = ''wss://external-api-ws.demo.kalshi.co'' @ ws_path"

definition ws_url_by_origin :: "(string \<times> string) list" where
  "ws_url_by_origin =
     [(production_origin, production_ws_url),
      (''https://api.elections.kalshi.com'', production_ws_url),
      (demo_origin, demo_ws_url),
      (''https://demo-api.kalshi.co'', demo_ws_url)]"

definition approved_origins :: "string list" where
  "approved_origins =
     [production_origin, ''https://api.elections.kalshi.com'', demo_origin, ''https://demo-api.kalshi.co'']"

definition event_orders_path :: string where "event_orders_path = api_prefix @ ''/portfolio/events/orders''"
definition balance_path :: string where "balance_path = api_prefix @ ''/portfolio/balance''"
definition orders_path :: string where "orders_path = api_prefix @ ''/portfolio/orders''"
definition fills_path :: string where "fills_path = api_prefix @ ''/portfolio/fills''"
definition positions_path :: string where "positions_path = api_prefix @ ''/portfolio/positions''"
definition settlements_path :: string where "settlements_path = api_prefix @ ''/portfolio/settlements''"
definition historical_cutoff_path :: string where "historical_cutoff_path = api_prefix @ ''/historical/cutoff''"
definition historical_orders_path :: string where "historical_orders_path = api_prefix @ ''/historical/orders''"
definition historical_fills_path :: string where "historical_fills_path = api_prefix @ ''/historical/fills''"

lemmas path_defs = api_prefix_def event_orders_path_def balance_path_def orders_path_def
  fills_path_def positions_path_def settlements_path_def historical_cutoff_path_def
  historical_orders_path_def historical_fills_path_def

section \<open>Origins and the principal fingerprint\<close>

definition normalize_origin :: "string \<Rightarrow> string" where
  "normalize_origin s = rstrip_slash (strip s)"

text \<open>The hashed text frames the origin by its length, so that no two pairs share it.\<close>

definition fingerprint_material :: "string \<Rightarrow> string \<Rightarrow> string" where
  "fingerprint_material origin key_id = nat_str (length origin) @ '':'' @ origin @ key_id"

definition kalshi_principal_fingerprint :: "(string \<Rightarrow> string) \<Rightarrow> string \<Rightarrow> string \<Rightarrow> string res" where
  "kalshi_principal_fingerprint digest origin key_id =
     (let normalized_origin = normalize_origin origin; normalized_key_id = strip key_id in
      if normalized_origin \<notin> set approved_origins
      then Inl (KalshiProtocolError ''principal fingerprint requires an approved Kalshi origin'')
      else if normalized_key_id = [] then Inl (KalshiProtocolError ''Kalshi key_id is required'')
      else Inr (digest (fingerprint_material normalized_origin normalized_key_id)))"

definition kalshi_websocket_url_for_origin :: "string \<Rightarrow> string res" where
  "kalshi_websocket_url_for_origin origin =
     (case map_of ws_url_by_origin (normalize_origin origin) of
        None \<Rightarrow> Inl (KalshiProtocolError ''WebSocket credentials require an approved Kalshi origin'')
      | Some url \<Rightarrow> Inr url)"

lemma fingerprint_material_inject:
  "fingerprint_material o1 k1 = fingerprint_material o2 k2 \<longleftrightarrow> o1 = o2 \<and> k1 = k2"
proof
  assume eq: "fingerprint_material o1 k1 = fingerprint_material o2 k2"
  have colon: "\<not> is_digit CHR '':''" by (simp add: is_digit_def Let_def)
  have tw: "takeWhile is_digit (nat_str n @ CHR '':'' # r) = nat_str n" for n r
    using colon nat_str_digits by (simp add: takeWhile_append2)
  from eq have "nat_str (length o1) = nat_str (length o2)"
    unfolding fingerprint_material_def by (metis append_Cons append_Nil tw)
  then have "length o1 = length o2" by simp
  with eq show "o1 = o2 \<and> k1 = k2"
    by (simp add: fingerprint_material_def)
qed simp

text \<open>Every approved origin has a WebSocket endpoint, and no other origin has one.\<close>

lemma ws_url_iff_approved:
  "(\<exists>u. kalshi_websocket_url_for_origin s = Inr u) \<longleftrightarrow> normalize_origin s \<in> set approved_origins"
proof -
  have "dom (map_of ws_url_by_origin) = set approved_origins"
    by (simp add: ws_url_by_origin_def approved_origins_def dom_map_of_conv_image_fst insert_commute)
  then have "(\<exists>u. map_of ws_url_by_origin t = Some u) \<longleftrightarrow> t \<in> set approved_origins" for t
    by (metis domIff option.exhaust option.distinct(1))
  from this [of "normalize_origin s"] show ?thesis
    by (cases "map_of ws_url_by_origin (normalize_origin s)")
      (simp_all add: kalshi_websocket_url_for_origin_def)
qed

section \<open>\<open>urlsplit\<close>\<close>

text \<open>
  \<open>urllib.parse.urlsplit\<close>, as far as the module looks at it: leading control characters
  and spaces are dropped, tabs and line breaks removed, then the scheme, the network
  location and the path are cut off. Unbalanced brackets raise; the syntax of a bracketed
  address is not looked at (no approved origin has one).
\<close>

definition ascii_letter :: "char \<Rightarrow> bool" where
  "ascii_letter c = (let n = (of_char c :: nat) in 65 \<le> n \<and> n \<le> 90 \<or> 97 \<le> n \<and> n \<le> 122)"

definition scheme_char :: "char \<Rightarrow> bool" where
  "scheme_char c = (ascii_letter c \<or> is_digit c \<or> c = CHR ''+'' \<or> c = CHR ''-'' \<or> c = CHR ''.'')"

definition url_clean :: "string \<Rightarrow> string" where
  "url_clean s = filter (\<lambda>c. (of_char c :: nat) \<notin> {9, 10, 13})
     (dropWhile (\<lambda>c. (of_char c :: nat) \<le> 32) s)"

definition url_scheme :: "string \<Rightarrow> string \<times> string" where
  "url_scheme s =
     (let p = takeWhile (\<lambda>c. c \<noteq> CHR '':'') s in
      if p \<noteq> [] \<and> length p < length s \<and> ascii_letter (hd p) \<and> list_all scheme_char p
      then (map lower_char p, drop (Suc (length p)) s) else ([], s))"

definition url_netloc :: "string \<Rightarrow> string \<times> string" where
  "url_netloc s =
     (if startswith s ''//''
      then (takeWhile (\<lambda>c. c \<notin> {CHR ''/'', CHR ''?'', CHR ''#''}) (drop 2 s),
            dropWhile (\<lambda>c. c \<notin> {CHR ''/'', CHR ''?'', CHR ''#''}) (drop 2 s))
      else ([], s))"

definition urlsplit :: "string \<Rightarrow> (string \<times> string \<times> string) res" where
  "urlsplit s =
     (let (scheme, r) = url_scheme (url_clean s); (netloc, r') = url_netloc r in
      if (CHR ''['' \<in> set netloc) \<noteq> (CHR '']'' \<in> set netloc) then Inl (ValueError ''Invalid IPv6 URL'')
      else Inr (scheme, netloc, takeWhile (\<lambda>c. c \<notin> {CHR ''?'', CHR ''#''}) r'))"

section \<open>The signer\<close>

datatype 'k pem = NotAKey | OtherKey | RsaKey 'k

record 'k signer =
  sg_key_id :: string
  sg_key :: 'k

definition make_signer :: "(string \<Rightarrow> 'k pem) \<Rightarrow> string \<Rightarrow> string \<Rightarrow> 'k signer res" where
  "make_signer load key_id private_key_pem =
     (if strip key_id = [] then Inl (KalshiProtocolError ''Kalshi key_id is required'')
      else case load private_key_pem of
          NotAKey \<Rightarrow> Inl (KalshiProtocolError ''invalid Kalshi RSA private key'')
        | OtherKey \<Rightarrow> Inl (KalshiProtocolError ''Kalshi private key must be RSA'')
        | RsaKey k \<Rightarrow> Inr \<lparr>sg_key_id = strip key_id, sg_key = k\<rparr>)"

type_synonym headers = "(string \<times> string) list"

definition signed_message :: "int \<Rightarrow> string \<Rightarrow> string \<Rightarrow> string" where
  "signed_message timestamp_ms method_upper path = int_str timestamp_ms @ method_upper @ path"

definition signed_headers ::
    "('k \<Rightarrow> string \<Rightarrow> string) \<Rightarrow> 'k signer \<Rightarrow> int \<Rightarrow> string \<Rightarrow> string \<Rightarrow> headers res" where
  "signed_headers sign s timestamp_ms method path =
     (if timestamp_ms \<le> 0 then Inl (KalshiProtocolError ''timestamp_ms must be positive'') else
      let method_upper = py_upper (strip method) in
      if method_upper = [] then Inl (KalshiProtocolError ''HTTP method is required'') else
      bindE (urlsplit path) (\<lambda>(_, _, path_without_query).
      if \<not> (startswith path_without_query (api_prefix @ ''/'') \<or> path_without_query = ws_path)
      then Inl (KalshiProtocolError (''signed path must start with '' @ api_prefix
             @ ''/ or equal '' @ ws_path)) else
      Inr [(''KALSHI-ACCESS-KEY'', sg_key_id s),
           (''KALSHI-ACCESS-TIMESTAMP'', int_str timestamp_ms),
           (''KALSHI-ACCESS-SIGNATURE'',
             sign (sg_key s) (signed_message timestamp_ms method_upper path_without_query))]))"

text \<open>The paths of the module split into themselves: they carry no query and no fragment.\<close>

lemma urlsplit_api_paths [simp]:
  "urlsplit event_orders_path = Inr ([], [], event_orders_path)"
  "urlsplit balance_path = Inr ([], [], balance_path)"
  "urlsplit orders_path = Inr ([], [], orders_path)"
  "urlsplit fills_path = Inr ([], [], fills_path)"
  "urlsplit positions_path = Inr ([], [], positions_path)"
  "urlsplit settlements_path = Inr ([], [], settlements_path)"
  "urlsplit historical_cutoff_path = Inr ([], [], historical_cutoff_path)"
  "urlsplit historical_orders_path = Inr ([], [], historical_orders_path)"
  "urlsplit historical_fills_path = Inr ([], [], historical_fills_path)"
  by code_simp+

section \<open>The client\<close>

record 'k client =
  cl_origin :: string
  cl_signer :: "'k signer"
  cl_principal_fingerprint :: string
  cl_allow_writes :: bool

definition make_client ::
    "(string \<Rightarrow> string) \<Rightarrow> (string \<Rightarrow> 'k pem) \<Rightarrow> string \<Rightarrow> string \<Rightarrow> string \<Rightarrow> bool \<Rightarrow> 'k client res" where
  "make_client digest load key_id private_key_pem raw_origin allow_writes =
     (let orig = normalize_origin raw_origin in
      bindE (urlsplit orig) (\<lambda>(scheme, netloc, _).
      if scheme \<noteq> ''https'' \<or> netloc = []
      then Inl (KalshiProtocolError ''Kalshi origin must be an HTTPS origin'') else
      if orig \<notin> set approved_origins
      then Inl (KalshiProtocolError ''credentials may only be sent to an approved Kalshi origin'') else
      bindE (make_signer load key_id private_key_pem) (\<lambda>s.
      bindE (kalshi_principal_fingerprint digest orig (sg_key_id s)) (\<lambda>fp.
      Inr \<lparr>cl_origin = orig, cl_signer = s, cl_principal_fingerprint = fp,
        cl_allow_writes = allow_writes\<rparr>))))"

datatype http_method = GET | POST

record http_request =
  rq_method :: http_method
  rq_url :: string
  rq_headers :: headers
  rq_params :: query
  rq_json :: "pydict option"

text \<open>
  What a transport may do with a request: raise, or answer with a status, the body's text
  and what \<open>response.json()\<close> makes of it (\<open>None\<close>: not JSON, which raises a \<open>ValueError\<close>).
\<close>

datatype http_outcome = Raised exn | Response int string "pyval option"

type_synonym transport = "http_request \<Rightarrow> http_outcome"

definition is_transport_error :: "exn \<Rightarrow> bool" where
  "is_transport_error e = (case e of TransportError _ \<Rightarrow> True | _ \<Rightarrow> False)"

definition with_accept :: "headers \<Rightarrow> headers" where
  "with_accept hs = hs @ [(''Accept'', ''application/json'')]"

definition get_response :: "string \<Rightarrow> http_outcome \<Rightarrow> pydict res" where
  "get_response name r =
     (case r of
        Raised e \<Rightarrow> Inl e
      | Response status text body \<Rightarrow>
          if \<not> (200 \<le> status \<and> status \<le> 299) then Inl (HTTPStatusError status)
          else case body of
              None \<Rightarrow> Inl (KalshiProtocolError (''Kalshi '' @ name @ '' response was not JSON''))
            | Some v \<Rightarrow> as_dict v (KalshiProtocolError (''Kalshi '' @ name @ '' response must be an object'')))"

text \<open>\<open>_signed_get_json\<close>: sign, send, check the status, decode an object.\<close>

definition signed_get_json ::
    "('k \<Rightarrow> string \<Rightarrow> string) \<Rightarrow> transport \<Rightarrow> int \<Rightarrow> 'k client \<Rightarrow> string \<Rightarrow> query \<Rightarrow> string
       \<Rightarrow> (http_request list, pydict) action" where
  "signed_get_json sign http now_ms c path params name sent =
     (case signed_headers sign (cl_signer c) now_ms ''GET'' path of
        Inl e \<Rightarrow> (Inl e, sent)
      | Inr hs \<Rightarrow>
          let rq = \<lparr>rq_method = GET, rq_url = cl_origin c @ path, rq_headers = with_accept hs,
                    rq_params = params, rq_json = None\<rparr>
          in (get_response name (http rq), sent @ [rq]))"

text \<open>The operations of the client, with the arguments a caller gives them.\<close>

record page_args =
  pa_limit :: pyval
  pa_cursor :: pyval
  pa_subaccount :: pyval
  pa_min_ts :: pyval
  pa_max_ts :: pyval

definition page_query :: "page_args \<Rightarrow> query res" where
  "page_query a = validate_page_query (pa_limit a) (pa_cursor a) (pa_subaccount a) (pa_min_ts a) (pa_max_ts a)"

text \<open>\<open>params["event_ticker"]\<close> and \<open>params["status"]\<close> of \<open>get_orders\<close>\<close>

definition event_tickers_query :: "query \<Rightarrow> string list \<Rightarrow> query res" where
  "event_tickers_query params event_tickers =
     (if 10 < length event_tickers
      then Inl (KalshiProtocolError ''event_tickers cannot contain more than 10 values'')
      else if event_tickers = [] then Inr params
      else if \<exists>v \<in> set event_tickers. strip v = []
      then Inl (KalshiProtocolError ''event_tickers cannot contain empty values'')
      else Inr (params @ [(''event_ticker'', QText (join '','' (map strip event_tickers)))]))"

definition status_query :: "query \<Rightarrow> string option \<Rightarrow> query res" where
  "status_query params status =
     (case status of
        None \<Rightarrow> Inr params
      | Some s \<Rightarrow>
          if s \<notin> {''resting'', ''canceled'', ''executed''}
          then Inl (KalshiProtocolError ''status must be resting, canceled, or executed'')
          else Inr (params @ [(''status'', QText s)]))"

definition count_filter_query :: "query \<Rightarrow> string list \<Rightarrow> query res" where
  "count_filter_query params count_filter =
     (if count_filter = [] then Inr params
      else if \<exists>v \<in> set count_filter. v \<notin> {''position'', ''total_traded''}
      then Inl (KalshiProtocolError ''count_filter values must be position or total_traded'')
      else if \<not> distinct count_filter
      then Inl (KalshiProtocolError ''count_filter values cannot be duplicated'')
      else Inr (params @ [(''count_filter'', QText (join '','' count_filter))]))"

text \<open>An operation that builds a query, reads with it and parses the response.\<close>

definition read_with ::
    "('k \<Rightarrow> string \<Rightarrow> string) \<Rightarrow> transport \<Rightarrow> int \<Rightarrow> 'k client \<Rightarrow> string \<Rightarrow> string \<Rightarrow> query res
       \<Rightarrow> (pydict \<Rightarrow> 'r res) \<Rightarrow> (http_request list, 'r) action" where
  "read_with sign http now_ms c path name params parse sent =
     (case params of
        Inl e \<Rightarrow> (Inl e, sent)
      | Inr q \<Rightarrow> (case signed_get_json sign http now_ms c path q name sent of
            (Inl e, sent') \<Rightarrow> (Inl e, sent')
          | (Inr payload, sent') \<Rightarrow> (parse payload, sent')))"

definition get_balance where
  "get_balance sign http now_ms c =
     read_with sign http now_ms c balance_path ''balance'' (Inr []) balance_from_payload"

definition get_historical_cutoff where
  "get_historical_cutoff sign http now_ms c =
     read_with sign http now_ms c historical_cutoff_path ''historical cutoff'' (Inr []) cutoff_from_payload"

definition get_historical_orders where
  "get_historical_orders sign http now_ms c ticker max_ts limit cursor =
     read_with sign http now_ms c historical_orders_path ''historical orders''
       (bindE (validate_page_query limit cursor PNone PNone max_ts) (\<lambda>q. add_text_query q ''ticker'' ticker))
       orders_page_from_payload"

definition get_historical_fills where
  "get_historical_fills sign http now_ms c ticker max_ts limit cursor =
     read_with sign http now_ms c historical_fills_path ''historical fills''
       (bindE (validate_page_query limit cursor PNone PNone max_ts) (\<lambda>q. add_text_query q ''ticker'' ticker))
       fills_page_from_payload"

definition get_orders where
  "get_orders sign http now_ms c ticker event_tickers status min_ts max_ts limit cursor subaccount =
     read_with sign http now_ms c orders_path ''orders''
       (bindE (validate_page_query limit cursor subaccount min_ts max_ts) (\<lambda>q.
        bindE (add_text_query q ''ticker'' ticker) (\<lambda>q.
        bindE (event_tickers_query q event_tickers) (\<lambda>q. status_query q status))))
       orders_page_from_payload"

definition get_fills where
  "get_fills sign http now_ms c ticker order_id min_ts max_ts limit cursor subaccount =
     read_with sign http now_ms c fills_path ''fills''
       (bindE (validate_page_query limit cursor subaccount min_ts max_ts) (\<lambda>q.
        bindE (add_text_query q ''ticker'' ticker) (\<lambda>q. add_text_query q ''order_id'' order_id)))
       fills_page_from_payload"

definition get_positions where
  "get_positions sign http now_ms c cursor limit count_filter ticker event_ticker subaccount =
     read_with sign http now_ms c positions_path ''positions''
       (bindE (validate_page_query limit cursor subaccount PNone PNone) (\<lambda>q.
        bindE (add_text_query q ''ticker'' ticker) (\<lambda>q.
        bindE (add_text_query q ''event_ticker'' event_ticker) (\<lambda>q. count_filter_query q count_filter))))
       positions_page_from_payload"

definition get_settlements where
  "get_settlements sign http now_ms c limit cursor ticker event_ticker min_ts max_ts subaccount =
     read_with sign http now_ms c settlements_path ''settlements''
       (bindE (validate_page_query limit cursor subaccount min_ts max_ts) (\<lambda>q.
        bindE (add_text_query q ''ticker'' ticker) (\<lambda>q. add_text_query q ''event_ticker'' event_ticker)))
       settlements_page_from_payload"

section \<open>\<open>create_order\<close>\<close>

text \<open>What the answer to the one POST means for the caller.\<close>

definition submission_result :: "string \<Rightarrow> http_outcome \<Rightarrow> order_ack res" where
  "submission_result client_order_id r =
     (case r of
        Raised e \<Rightarrow>
          Inl (if is_transport_error e then KalshiSubmissionUnknown client_order_id e else e)
      | Response status text body \<Rightarrow>
          if 500 \<le> status
          then Inl (KalshiSubmissionUnknown client_order_id
                 (KalshiAPIError status (take 1000 text) client_order_id))
          else if 400 \<le> status \<and> status \<le> 599
          then Inl (KalshiAPIError status (take 1000 text) client_order_id)
          else catchE
            (bindE (opt_or body (ValueError ''response is not JSON'')) (\<lambda>v.
             bindE (as_dict v
               (KalshiProtocolError ''Kalshi V2 order acknowledgement must be an object'')) (\<lambda>payload.
             bindE (ack_from_payload payload client_order_id) (\<lambda>acknowledgement.
             if ack_client_order_id acknowledgement \<noteq> client_order_id
             then Inl (KalshiProtocolError
                    ''Kalshi acknowledgement client_order_id did not match submission'')
             else Inr acknowledgement))))
            (\<lambda>e. if is_value_error e \<or> is_type_error e
                 then Some (Inl (KalshiSubmissionUnknown client_order_id e)) else None))"

definition create_order ::
    "('k \<Rightarrow> string \<Rightarrow> string) \<Rightarrow> transport \<Rightarrow> int \<Rightarrow> 'k client \<Rightarrow> event_order_request
       \<Rightarrow> (http_request list, order_ack) action" where
  "create_order sign http now_ms c order sent =
     (if \<not> cl_allow_writes c
      then (Inl (LiveTradingNotArmedError ''Kalshi writes are disabled; no request was sent''), sent)
      else case signed_headers sign (cl_signer c) now_ms ''POST'' event_orders_path of
          Inl e \<Rightarrow> (Inl e, sent)
        | Inr hs \<Rightarrow>
            (case event_order_payload order of
               Inl e \<Rightarrow> (Inl e, sent)
             | Inr payload \<Rightarrow>
                 let rq = \<lparr>rq_method = POST, rq_url = cl_origin c @ event_orders_path,
                           rq_headers = with_accept hs @ [(''Content-Type'', ''application/json'')],
                           rq_params = [], rq_json = Some payload\<rparr>
                 in (submission_result (eo_client_order_id order) (http rq), sent @ [rq])))"


lemma create_order_unarmed:
  "\<not> cl_allow_writes c \<Longrightarrow> create_order sign http now c r sent =
     (Inl (LiveTradingNotArmedError ''Kalshi writes are disabled; no request was sent''), sent)"
  by (simp add: create_order_def)

text \<open>The outcomes of a submission that has been transmitted.\<close>

definition submission_settled :: "string \<Rightarrow> order_ack res \<Rightarrow> bool" where
  "submission_settled client_order_id r =
     (case r of
        Inr a \<Rightarrow> ack_client_order_id a = client_order_id \<and> ack_order_id a \<noteq> []
          \<and> 0 \<le> dval (ack_fill_count a) \<and> 0 \<le> dval (ack_remaining_count a) \<and> 0 < ack_ts_ms a
      | Inl (KalshiAPIError status _ c) \<Rightarrow> 400 \<le> status \<and> status < 500 \<and> c = client_order_id
      | Inl (KalshiSubmissionUnknown c _) \<Rightarrow> c = client_order_id
      | Inl _ \<Rightarrow> False)"

lemma submission_result_settled:
  assumes "\<And>e. r = Raised e \<Longrightarrow> is_transport_error e"
  shows "submission_settled cid (submission_result cid r)"
proof (cases r)
  case (Raised e)
  with assms show ?thesis by (simp add: submission_result_def submission_settled_def)
next
  case (Response status shown body)
  show ?thesis
  proof (cases "400 \<le> status")
    case True
    with Response show ?thesis by (simp add: submission_result_def submission_settled_def)
  next
    case False
    let ?m = "bindE (opt_or body (ValueError ''response is not JSON'')) (\<lambda>v.
       bindE (as_dict v (KalshiProtocolError ''Kalshi V2 order acknowledgement must be an object''))
         (\<lambda>payload. bindE (ack_from_payload payload cid) (\<lambda>a.
           if ack_client_order_id a \<noteq> cid
           then Inl (KalshiProtocolError
                  ''Kalshi acknowledgement client_order_id did not match submission'')
           else Inr a)))"
    show ?thesis
    proof (cases ?m)
      case (Inr a)
      then have "\<exists>p. ack_from_payload p cid = Inr a \<and> ack_client_order_id a = cid"
        by (auto simp: res_simps split: if_splits)
      with False Response Inr show ?thesis
        by (auto simp: submission_result_def submission_settled_def dest: ack_from_payload_ok)
    next
      case (Inl e)
      then have "is_value_error e"
        by (elim bindE_InlE)
          (auto simp: opt_or_def dest: as_Inl ack_from_payload_error split: option.splits if_splits)
      with False Response Inl show ?thesis
        by (simp add: submission_result_def submission_settled_def)
    qed
  qed
qed

text \<open>A request the venue accepts reaches the wire, and exactly once.\<close>

lemma event_order_ok_payload:
  "event_order_ok r \<Longrightarrow> event_order_payload r =
     Inr [(''ticker'', PStr (eo_ticker r)),
          (''client_order_id'', PStr (eo_client_order_id r)),
          (''side'', PStr (book_side_text (eo_side r))),
          (''count'', PStr (format_f (dec_rescale (eo_count r) count_quantum))),
          (''price'', PStr (format_f (dec_rescale (eo_price r) dollar_quantum))),
          (''time_in_force'', PStr (time_in_force_text (eo_time_in_force r))),
          (''self_trade_prevention_type'',
             PStr (self_trade_prevention_text (eo_self_trade_prevention_type r))),
          (''post_only'', PBool (eo_post_only r)),
          (''cancel_order_on_pause'', PBool (eo_cancel_order_on_pause r)),
          (''reduce_only'', PBool (eo_reduce_only r)),
          (''subaccount'', PInt (eo_subaccount r)),
          (''exchange_index'', PInt (eo_exchange_index r))]"
proof -
  assume "event_order_ok r"
  then have "fixed_text (eo_count r) count_quantum ''count'' =
      Inr (format_f (dec_rescale (eo_count r) count_quantum))"
    "fixed_text (eo_price r) dollar_quantum ''price'' =
      Inr (format_f (dec_rescale (eo_price r) dollar_quantum))"
    by (simp_all only: fixed_text_Inr_iff event_order_ok_def simp_thms)
  then show ?thesis by (simp only: event_order_payload_def bindE_Inr)
qed

lemma signed_headers_ok:
  "0 < now \<Longrightarrow> path \<in> {event_orders_path, balance_path, orders_path, fills_path, positions_path,
      settlements_path, historical_cutoff_path, historical_orders_path, historical_fills_path} \<Longrightarrow>
   meth \<in> {''GET'', ''POST''} \<Longrightarrow>
   signed_headers sign s now meth path =
     Inr [(''KALSHI-ACCESS-KEY'', sg_key_id s), (''KALSHI-ACCESS-TIMESTAMP'', int_str now),
       (''KALSHI-ACCESS-SIGNATURE'', sign (sg_key s) (signed_message now meth path))]"
proof -
  assume now: "0 < now" and path: "path \<in> {event_orders_path, balance_path, orders_path, fills_path,
      positions_path, settlements_path, historical_cutoff_path, historical_orders_path,
      historical_fills_path}" and meth: "meth \<in> {''GET'', ''POST''}"
  have "urlsplit path = Inr ([], [], path)" using path by auto
  moreover have "startswith path (api_prefix @ ''/'')"
    using path by (elim insertE emptyE) (simp_all add: path_defs startswith_def)
  moreover have "py_upper (strip meth) = meth" "meth \<noteq> []"
    using meth by (auto simp: py_upper_def upper_char_def strip_def unicode_space_def Let_def)
  ultimately show ?thesis
    using now by (simp add: signed_headers_def Let_def)
qed

section \<open>What a client ever sends\<close>

datatype client_op =
    Balance
  | HistoricalCutoff
  | HistoricalOrders pyval pyval pyval pyval
  | HistoricalFills pyval pyval pyval pyval
  | Orders pyval "string list" "string option" pyval pyval pyval pyval pyval
  | Fills pyval pyval pyval pyval pyval pyval pyval
  | Positions pyval pyval "string list" pyval pyval pyval
  | Settlements pyval pyval pyval pyval pyval pyval pyval
  | PlaceOrder event_order_request

text \<open>The list of requests after one call at clock reading \<open>now_ms\<close>.\<close>

fun client_step ::
    "('k \<Rightarrow> string \<Rightarrow> string) \<Rightarrow> transport \<Rightarrow> 'k client \<Rightarrow> int \<times> client_op
       \<Rightarrow> http_request list \<Rightarrow> http_request list" where
  "client_step sign http c (now, Balance) sent = snd (get_balance sign http now c sent)"
| "client_step sign http c (now, HistoricalCutoff) sent = snd (get_historical_cutoff sign http now c sent)"
| "client_step sign http c (now, HistoricalOrders t m l cur) sent =
     snd (get_historical_orders sign http now c t m l cur sent)"
| "client_step sign http c (now, HistoricalFills t m l cur) sent =
     snd (get_historical_fills sign http now c t m l cur sent)"
| "client_step sign http c (now, Orders t es st lo hi l cur sub) sent =
     snd (get_orders sign http now c t es st lo hi l cur sub sent)"
| "client_step sign http c (now, Fills t oid lo hi l cur sub) sent =
     snd (get_fills sign http now c t oid lo hi l cur sub sent)"
| "client_step sign http c (now, Positions cur l cf t e sub) sent =
     snd (get_positions sign http now c cur l cf t e sub sent)"
| "client_step sign http c (now, Settlements l cur t e lo hi sub) sent =
     snd (get_settlements sign http now c l cur t e lo hi sub sent)"
| "client_step sign http c (now, PlaceOrder r) sent = snd (create_order sign http now c r sent)"

definition request_authorized :: "'k client \<Rightarrow> http_request \<Rightarrow> bool" where
  "request_authorized c rq =
     (startswith (rq_url rq) (cl_origin c @ api_prefix @ ''/'')
      \<and> map_of (rq_headers rq) ''KALSHI-ACCESS-KEY'' = Some (sg_key_id (cl_signer c))
      \<and> (rq_method rq = POST \<longrightarrow> cl_allow_writes c \<and> rq_url rq = cl_origin c @ event_orders_path)
      \<and> (rq_method rq = GET \<longrightarrow> rq_json rq = None))"

definition requests_authorized :: "'k client \<Rightarrow> http_request list \<Rightarrow> bool" where
  "requests_authorized c sent = list_all (request_authorized c) sent"

lemma signed_headers_key:
  "signed_headers sign s now meth path = Inr hs \<Longrightarrow>
     map_of hs ''KALSHI-ACCESS-KEY'' = Some (sg_key_id s) \<and> 0 < now"
  by (auto simp: signed_headers_def res_simps Let_def)

lemma startswith_append [simp]: "startswith (p @ s) (p @ q) = startswith s q"
  by (simp add: startswith_def)

lemma api_paths_start [simp]:
  "startswith event_orders_path (api_prefix @ ''/'')"
  "startswith balance_path (api_prefix @ ''/'')"
  "startswith orders_path (api_prefix @ ''/'')"
  "startswith fills_path (api_prefix @ ''/'')"
  "startswith positions_path (api_prefix @ ''/'')"
  "startswith settlements_path (api_prefix @ ''/'')"
  "startswith historical_cutoff_path (api_prefix @ ''/'')"
  "startswith historical_orders_path (api_prefix @ ''/'')"
  "startswith historical_fills_path (api_prefix @ ''/'')"
  by (simp_all add: path_defs startswith_def)

text \<open>A read sends at most one request, a GET below its path.\<close>

lemma read_with_sends:
  "snd (read_with sign http now c path name q parse sent) = sent \<or>
   (\<exists>rq. snd (read_with sign http now c path name q parse sent) = sent @ [rq] \<and> rq_method rq = GET
      \<and> rq_url rq = cl_origin c @ path \<and> rq_json rq = None
      \<and> map_of (rq_headers rq) ''KALSHI-ACCESS-KEY'' = Some (sg_key_id (cl_signer c)))"
  by (auto simp: read_with_def signed_get_json_def with_accept_def Let_def
      dest!: signed_headers_key split: sum.splits prod.splits)

lemma read_with_authorized:
  "requests_authorized c sent \<Longrightarrow> startswith path (api_prefix @ ''/'') \<Longrightarrow>
     requests_authorized c (snd (read_with sign http now c path name q parse sent))"
  using read_with_sends [of sign http now c path name q parse sent]
  by (auto simp: requests_authorized_def request_authorized_def)

lemma create_order_cases:
  obtains (not_sent) e where "create_order sign http now c r sent = (Inl e, sent)"
  | (sent_once) hs payload rq where
      "create_order sign http now c r sent =
         (submission_result (eo_client_order_id r) (http rq), sent @ [rq])"
      "cl_allow_writes c" "event_order_payload r = Inr payload"
      "signed_headers sign (cl_signer c) now ''POST'' event_orders_path = Inr hs"
      "rq = \<lparr>rq_method = POST, rq_url = cl_origin c @ event_orders_path,
         rq_headers = with_accept hs @ [(''Content-Type'', ''application/json'')],
         rq_params = [], rq_json = Some payload\<rparr>"
proof (cases "\<not> cl_allow_writes c")
  case True
  then show ?thesis using not_sent by (simp add: create_order_def)
next
  case False
  show ?thesis
    by (cases "signed_headers sign (cl_signer c) now ''POST'' event_orders_path";
        cases "event_order_payload r")
      (use False not_sent sent_once in \<open>auto simp: create_order_def Let_def\<close>)
qed

lemma create_order_authorized:
  "requests_authorized c sent \<Longrightarrow> requests_authorized c (snd (create_order sign http now c r sent))"
  by (cases rule: create_order_cases [of sign http now c r sent])
    (auto simp: requests_authorized_def request_authorized_def with_accept_def dest: signed_headers_key)

lemma client_step_authorized:
  "requests_authorized c sent \<Longrightarrow> requests_authorized c (client_step sign http c x sent)"
  by (cases "(sign, http, c, x, sent)" rule: client_step.cases)
    (simp_all add: create_order_authorized read_with_authorized get_balance_def
      get_historical_cutoff_def get_historical_orders_def get_historical_fills_def get_orders_def
      get_fills_def get_positions_def get_settlements_def)

lemma client_step_extends: "extends sent (client_step sign http c x sent)"
proof -
  have r: "extends sent (snd (read_with sign http now c path name q parse sent))" for now path name q
    and parse :: "pydict \<Rightarrow> 'r res"
    using read_with_sends [of sign http now c path name q parse sent] extends_append [of sent "[]"] by auto
  have w: "extends sent (snd (create_order sign http now c r sent))" for now r
    by (cases rule: create_order_cases [of sign http now c r sent]) (use extends_append [of sent "[]"] in auto)
  show ?thesis
    by (cases "(sign, http, c, x, sent)" rule: client_step.cases)
      (simp_all add: r w get_balance_def get_historical_cutoff_def get_historical_orders_def
        get_historical_fills_def get_orders_def get_fills_def get_positions_def get_settlements_def)
qed

interpretation requests: monotone_machine "requests_authorized c" "client_step sign http c" extends
  for c sign http
proof
  fix sent x
  show "requests_authorized c sent \<Longrightarrow> requests_authorized c (client_step sign http c x sent)"
    by (rule client_step_authorized)
  show "extends sent (client_step sign http c x sent)" by (rule client_step_extends)
next
  fix s t u :: "http_request list"
  show "extends s s" by (simp add: extends_def)
  show "extends s t \<Longrightarrow> extends t u \<Longrightarrow> extends s u" by (rule extends_trans)
qed

lemma approved_origin_normalized:
  "u \<in> set approved_origins \<Longrightarrow> normalize_origin u = u"
proof -
  have "list_all (\<lambda>u. normalize_origin u = u) approved_origins" by code_simp
  then show "u \<in> set approved_origins \<Longrightarrow> normalize_origin u = u" by (simp add: list_all_iff)
qed

lemma make_client_ok:
  "make_client digest load key_id pem raw_origin armed = Inr c \<Longrightarrow>
     cl_origin c \<in> set approved_origins \<and> cl_allow_writes c = armed
     \<and> text_ok (sg_key_id (cl_signer c)) \<and> sg_key_id (cl_signer c) = strip key_id
     \<and> kalshi_principal_fingerprint digest raw_origin key_id = Inr (cl_principal_fingerprint c)"
  by (auto simp: make_client_def make_signer_def res_simps Let_def text_ok_def stripped_strip
      kalshi_principal_fingerprint_def approved_origin_normalized split: pem.splits if_splits)

section \<open>Properties of the client\<close>

text \<open>
  A client that was not armed raises \<open>LiveTradingNotArmedError\<close> for every order and
  hands nothing to the transport, whatever the order, the clock and the key.
\<close>

theorem unarmed_client_sends_no_order:
  "create_order sign http now (c\<lparr>cl_allow_writes := False\<rparr>) r sent =
     (Inl (LiveTradingNotArmedError ''Kalshi writes are disabled; no request was sent''), sent)"
  by (simp add: create_order_def)

text \<open>
  C1: \<open>create_order\<close> never retries. Either it raises before anything is sent, or it was
  armed and sent exactly one POST, the order's payload to the order endpoint of the
  client's origin. An answer of the transport, and a transport error, settle the result: it is
  an acknowledgement of this client order id with an order id and counts in range, a
  \<open>KalshiAPIError\<close> with a 4xx status, or a \<open>KalshiSubmissionUnknown\<close> for this client order id,
  which is what every transport error becomes. Any other exception of the transport after the
  POST, such as a body it cannot decode, reaches the caller as it is.
\<close>

theorem create_order_sends_at_most_once:
  assumes "create_order sign http now c r sent = (res, sent')"
  shows "sent' = sent \<and> \<not> is_ok res \<or>
    (\<exists>rq payload. sent' = sent @ [rq] \<and> cl_allow_writes c \<and> rq_method rq = POST
       \<and> rq_url rq = cl_origin c @ event_orders_path
       \<and> event_order_payload r = Inr payload \<and> rq_json rq = Some payload
       \<and> (case http rq of
            Response _ _ _ \<Rightarrow> submission_settled (eo_client_order_id r) res
          | Raised e \<Rightarrow>
              res = Inl (if is_transport_error e then KalshiSubmissionUnknown (eo_client_order_id r) e else e)))"
proof (cases rule: create_order_cases [of sign http now c r sent])
  case not_sent
  then show ?thesis using assms by simp
next
  case (sent_once hs payload rq)
  have res: "res = submission_result (eo_client_order_id r) (http rq)"
    using sent_once(1) assms by simp
  have "case http rq of
      Response _ _ _ \<Rightarrow> submission_settled (eo_client_order_id r) res
    | Raised e \<Rightarrow>
        res = Inl (if is_transport_error e then KalshiSubmissionUnknown (eo_client_order_id r) e else e)"
  proof (cases "http rq")
    case (Raised e)
    then show ?thesis by (simp add: res submission_result_def)
  next
    case (Response status shown body)
    then show ?thesis using submission_result_settled [of "Response status shown body"] by (simp add: res)
  qed
  moreover have "rq_method rq = POST" "rq_url rq = cl_origin c @ event_orders_path"
    "rq_json rq = Some payload" "sent' = sent @ [rq]"
    using sent_once(1,5) assms by simp_all
  ultimately show ?thesis using sent_once(2,3) by blast
qed

text \<open>
  An armed client with a positive clock does send every valid order: one POST goes out
  with the order's payload, and the caller gets what the transport's answer means.
\<close>

theorem armed_client_sends_valid_order:
  assumes "cl_allow_writes c" "0 < now" "event_order_ok r"
  shows "\<exists>rq payload. event_order_payload r = Inr payload
    \<and> create_order sign http now c r sent =
        (submission_result (eo_client_order_id r) (http rq), sent @ [rq])
    \<and> rq = \<lparr>rq_method = POST, rq_url = cl_origin c @ event_orders_path,
        rq_headers =
          [(''KALSHI-ACCESS-KEY'', sg_key_id (cl_signer c)), (''KALSHI-ACCESS-TIMESTAMP'', int_str now),
           (''KALSHI-ACCESS-SIGNATURE'', sign (sg_key (cl_signer c))
              (int_str now @ ''POST/trade-api/v2/portfolio/events/orders'')),
           (''Accept'', ''application/json''), (''Content-Type'', ''application/json'')],
        rq_params = [], rq_json = Some payload\<rparr>"
proof -
  have "signed_message now ''POST'' event_orders_path =
      int_str now @ ''POST/trade-api/v2/portfolio/events/orders''"
    by (simp add: signed_message_def path_defs)
  then show ?thesis
    using assms event_order_ok_payload [OF assms(3)]
      signed_headers_ok [of now event_orders_path "''POST''" sign "cl_signer c"]
    by (simp add: create_order_def Let_def with_accept_def)
qed

text \<open>
  C2: over any run of calls, a constructed client sends its credentials only to the
  authenticated endpoints of an approved Kalshi origin, sends a POST only when it was
  armed and only to the order endpoint, and never withdraws a request from its history.
\<close>

theorem client_requests_stay_authorized:
  assumes "make_client digest load key_id pem raw_origin armed = Inr c"
  shows "\<forall>rq \<in> set (fold (client_step sign http c) ops []).
    (\<exists>u \<in> set approved_origins. startswith (rq_url rq) (u @ api_prefix @ ''/''))
    \<and> (rq_method rq = POST \<longrightarrow> armed \<and> rq_url rq = cl_origin c @ event_orders_path)"
proof -
  have "requests_authorized c (fold (client_step sign http c) ops [])"
    by (rule requests.run_inv) (simp add: requests_authorized_def)
  then show ?thesis
    using make_client_ok [OF assms]
    by (auto simp: requests_authorized_def request_authorized_def list_all_iff)
qed

lemma principal_fingerprint_Inr:
  "kalshi_principal_fingerprint digest u k = Inr f \<Longrightarrow>
     f = digest (fingerprint_material (normalize_origin u) (strip k))"
  unfolding kalshi_principal_fingerprint_def Let_def by (elim run_elims) (rule Inr_inject [symmetric])

text \<open>
  the principal fingerprint identifies the pair of origin and key id. It hashes one
  framed text per pair, so that if SHA-256 tells the two hashed texts apart, two equal
  fingerprints come from the same normalised origin and the same key id; in particular no
  key id can be chosen that shifts characters between the origin and the key.
\<close>

theorem principal_fingerprint_identifies:
  assumes "inj_on digest {fingerprint_material (normalize_origin o1) (strip k1),
      fingerprint_material (normalize_origin o2) (strip k2)}"
    and "kalshi_principal_fingerprint digest o1 k1 = Inr f"
    and "kalshi_principal_fingerprint digest o2 k2 = Inr f"
  shows "normalize_origin o1 = normalize_origin o2 \<and> strip k1 = strip k2"
proof -
  have "digest (fingerprint_material (normalize_origin o1) (strip k1)) =
      digest (fingerprint_material (normalize_origin o2) (strip k2))"
    using assms(2,3) [THEN principal_fingerprint_Inr] by simp
  then show ?thesis
    using inj_onD [OF assms(1)] by (metis fingerprint_material_inject insertCI)
qed

section \<open>Properties of the order translation\<close>

definition wire_decimal :: "pydict \<Rightarrow> string \<Rightarrow> rat option" where
  "wire_decimal p key = (case decimal_value (py_get p key) key of Inl _ \<Rightarrow> None | Inr d \<Rightarrow> Some (dval d))"

lemma decimal_value_wire:
  "on_grid q d \<Longrightarrow> q \<le> 0 \<Longrightarrow>
     decimal_value (PStr (format_f (dec_rescale d q))) key = Inr (dec_rescale d q)"
  by (simp add: decimal_value_def decimal_of_def finite_dec_def py_str_def parse_decimal_format_f
      on_grid_def dec_rescale_def)

text \<open>
  C3: an intent that fits the venue's grids reaches the wire without losing anything: the
  translated request is valid, and its payload carries the intent's client order id, side
  and time in force, a count that reads back as exactly the intent's quantity and a price
  that reads back as exactly its limit price.
\<close>

theorem intent_reaches_wire_exactly:
  assumes i: "intent_ok i" "vi_venue i = Kalshi" and routing: "0 \<le> subaccount" "-1 \<le> exchange_index"
    and grid: "on_grid count_quantum (vi_quantity i)" "on_grid dollar_quantum (vi_limit_price i)"
  shows "\<exists>r p. event_order_from_intent i pause reduce subaccount exchange_index = Inr r
    \<and> event_order_ok r \<and> event_order_payload r = Inr p
    \<and> py_get p ''ticker'' = PStr (vi_instrument_id i)
    \<and> py_get p ''client_order_id'' = PStr (vi_client_order_id i)
    \<and> py_get p ''side'' = PStr (book_side_text (vi_book_side i))
    \<and> py_get p ''time_in_force'' = PStr (time_in_force_text (vi_time_in_force i))
    \<and> wire_decimal p ''count'' = Some (dval (vi_quantity i))
    \<and> wire_decimal p ''price'' = Some (dval (vi_limit_price i))"
proof -
  note eq = event_order_from_intent_eq [OF i routing grid, of pause reduce]
  let ?r = "\<lparr>eo_ticker = vi_instrument_id i, eo_client_order_id = vi_client_order_id i,
      eo_side = vi_book_side i, eo_count = vi_quantity i, eo_price = vi_limit_price i,
      eo_time_in_force = vi_time_in_force i, eo_self_trade_prevention_type = TakerAtCross,
      eo_post_only = vi_post_only i, eo_cancel_order_on_pause = pause, eo_reduce_only = reduce,
      eo_subaccount = subaccount, eo_exchange_index = exchange_index\<rparr>"
  have ok: "event_order_ok ?r"
    using i routing grid by (simp add: event_order_ok_def intent_ok_def)
  have e: "count_quantum \<le> 0" "dollar_quantum \<le> 0" "count_quantum \<le> dexp (vi_quantity i)"
    "dollar_quantum \<le> dexp (vi_limit_price i)"
    using grid by (simp_all add: on_grid_def count_quantum_def dollar_quantum_def)
  show ?thesis
    unfolding eq using ok event_order_ok_payload [OF ok]
    by (simp add: py_get_or_def wire_decimal_def decimal_value_wire grid e dec_rescale_exact)
qed

section \<open>Properties of the queries\<close>

definition query_text_ok :: "query \<Rightarrow> string \<Rightarrow> bool" where
  "query_text_ok q k = (case map_of q k of None \<Rightarrow> True | Some (QText t) \<Rightarrow> text_ok t | _ \<Rightarrow> False)"

definition query_int_within :: "query \<Rightarrow> string \<Rightarrow> int \<Rightarrow> bool" where
  "query_int_within q k m =
     (case map_of q k of None \<Rightarrow> True | Some (QInt i) \<Rightarrow> 0 \<le> i \<and> i \<le> m | _ \<Rightarrow> False)"

definition page_query_ok :: "query \<Rightarrow> bool" where
  "page_query_ok q =
     ((case map_of q ''limit'' of Some (QInt l) \<Rightarrow> 1 \<le> l \<and> l \<le> 1000 | _ \<Rightarrow> False)
      \<and> query_text_ok q ''cursor'' \<and> query_int_within q ''subaccount'' 63
      \<and> query_int_within q ''min_ts'' signed_int64_max \<and> query_int_within q ''max_ts'' signed_int64_max
      \<and> (case (map_of q ''min_ts'', map_of q ''max_ts'') of
           (Some (QInt a), Some (QInt b)) \<Rightarrow> a \<le> b | _ \<Rightarrow> True))"

lemma query_text_okI:
  "query_text v n = Inr t \<Longrightarrow> map_of q k = map_option QText t \<Longrightarrow> query_text_ok q k"
  by (auto simp: query_text_def query_text_ok_def text_ok_def stripped_strip
      split: pyval.splits if_splits)

lemma query_int_withinI:
  "query_int m v e = Inr t \<Longrightarrow> map_of q k = map_option QInt t \<Longrightarrow> query_int_within q k m"
  by (auto simp: query_int_def query_int_within_def split: pyval.splits if_splits)

lemma map_of_opt_param [simp]:
  "map_of (opt_param k f v) k' = (if k = k' then map_option f v else None)"
  by (auto simp: opt_param_def split: option.splits)

text \<open>
  a page query that passes validation is within the venue's documented ranges: a limit
  between 1 and 1000, a non-blank cursor, a subaccount up to 63, time bounds that fit a
  signed 64-bit integer and are in order.
\<close>

theorem validated_page_query_in_range:
  "validate_page_query limit cursor subaccount min_ts max_ts = Inr q \<Longrightarrow> page_query_ok q"
proof -
  assume "validate_page_query limit cursor subaccount min_ts max_ts = Inr q"
  then obtain l c sa lo hi where l: "page_limit_ok limit" and c: "query_text cursor ''cursor'' = Inr c"
    and n: "query_int 63 subaccount (KalshiProtocolError
          ''subaccount must be an integer between 0 and 63'') = Inr sa"
      "query_int signed_int64_max min_ts (KalshiProtocolError
          ''min_ts must be a non-negative signed 64-bit integer'') = Inr lo"
      "query_int signed_int64_max max_ts (KalshiProtocolError
          ''max_ts must be a non-negative signed 64-bit integer'') = Inr hi"
    and ord: "ts_order lo hi = Inr ()"
    and q: "q = (''limit'', (case limit of PInt i \<Rightarrow> QInt i | _ \<Rightarrow> QInt 0))
         # opt_param ''cursor'' QText c @ opt_param ''subaccount'' QInt sa
         @ opt_param ''min_ts'' QInt lo @ opt_param ''max_ts'' QInt hi"
    unfolding validate_page_query_def by (elim run_elims) (auto)
  from l obtain i where i: "limit = PInt i" "1 \<le> i" "i \<le> 1000"
    by (auto simp: page_limit_ok_def split: pyval.splits)
  have m: "map_of q ''limit'' = Some (QInt i)" "map_of q ''cursor'' = map_option QText c"
    "map_of q ''subaccount'' = map_option QInt sa" "map_of q ''min_ts'' = map_option QInt lo"
    "map_of q ''max_ts'' = map_option QInt hi"
    unfolding q i by (simp_all add: map_add_def split: option.splits)
  have "query_text_ok q ''cursor''" by (rule query_text_okI [OF c m(2)])
  moreover have "query_int_within q ''subaccount'' 63" by (rule query_int_withinI [OF n(1) m(3)])
  moreover have "query_int_within q ''min_ts'' signed_int64_max"
    by (rule query_int_withinI [OF n(2) m(4)])
  moreover have "query_int_within q ''max_ts'' signed_int64_max"
    by (rule query_int_withinI [OF n(3) m(5)])
  moreover have "case (map_option QInt lo, map_option QInt hi) of
      (Some (QInt a), Some (QInt b)) \<Rightarrow> a \<le> b | _ \<Rightarrow> True"
    using ord by (cases lo; cases hi; simp add: ts_order_def split: if_splits)
  ultimately show ?thesis
    unfolding page_query_ok_def m using i(2,3) by (simp only: option.case query_value.case simp_thms)
qed

section \<open>Concrete instances\<close>

definition sample_intent :: venue_order_intent where
  "sample_intent = \<lparr>vi_venue = Kalshi, vi_instrument_id = ''KXA-26'', vi_client_order_id = ''c-1'',
     vi_book_side = Bid, vi_quantity = Dec False 15 (-1), vi_limit_price = Dec False 42 (-2),
     vi_time_in_force = ImmediateOrCancel, vi_post_only = False\<rparr>"

definition sample_order :: event_order_request where
  "sample_order = \<lparr>eo_ticker = ''KXA-26'', eo_client_order_id = ''c-1'', eo_side = Bid,
     eo_count = Dec False 15 (-1), eo_price = Dec False 42 (-2), eo_time_in_force = ImmediateOrCancel,
     eo_self_trade_prevention_type = TakerAtCross, eo_post_only = False,
     eo_cancel_order_on_pause = False, eo_reduce_only = False, eo_subaccount = 0,
     eo_exchange_index = 0\<rparr>"

definition sample_client :: "unit client" where
  "sample_client = \<lparr>cl_origin = demo_origin, cl_signer = \<lparr>sg_key_id = ''key'', sg_key = ()\<rparr>,
     cl_principal_fingerprint = fingerprint_material demo_origin ''key'', cl_allow_writes = True\<rparr>"

definition sample_transport :: transport where
  "sample_transport rq = Response 201 [] (Some (PDict
     [(''order_id'', PStr ''o-1''), (''client_order_id'', PStr ''c-1''), (''fill_count'', PStr ''1.00''),
      (''remaining_count'', PStr ''0.50''), (''ts_ms'', PInt 1)]))"

lemma sample_order_ok: "event_order_ok sample_order"
  by (simp add: event_order_ok_def sample_order_def text_ok_def stripped_def unicode_space_def
      on_grid_def count_quantum_def dollar_quantum_def default_prec_def dval_def dnum_def)

lemma create_order_sends_at_most_once_witness:
  "\<exists>rq. create_order (\<lambda>_ m. m) (\<lambda>_. Raised (DecodingError ''gzip'')) 5 sample_client sample_order []
     = (Inl (DecodingError ''gzip''), [rq]) \<and> rq_method rq = POST"
proof -
  define http :: transport where "http = (\<lambda>_. Raised (DecodingError ''gzip''))"
  obtain res sent' where run: "create_order (\<lambda>_ m. m) http 5 sample_client sample_order [] = (res, sent')"
    by (cases "create_order (\<lambda>_ m. m) http 5 sample_client sample_order []") simp
  have "sent' \<noteq> []"
    using armed_client_sends_valid_order [of sample_client 5 sample_order "\<lambda>_ m. m" http "[]", OF _ _ sample_order_ok] run
    by (auto simp: sample_client_def)
  with create_order_sends_at_most_once [OF run]
  have "\<exists>rq. sent' = [rq] \<and> rq_method rq = POST \<and> res = Inl (DecodingError ''gzip'')"
    by (auto simp: http_def is_transport_error_def exn.simps)
  then obtain rq where "sent' = [rq]" "rq_method rq = POST" "res = Inl (DecodingError ''gzip'')" by blast
  with run show ?thesis by (simp add: http_def)
qed

lemma armed_client_sends_valid_order_witness:
  "length (snd (create_order (\<lambda>_ m. m) sample_transport 5 sample_client sample_order [])) = 1"
  using armed_client_sends_valid_order
    [of sample_client 5 sample_order "\<lambda>_ m. m" sample_transport "[]", OF _ _ sample_order_ok]
  by (auto simp: sample_client_def)

lemma client_requests_stay_authorized_witness:
  "let rqs = fold (client_step (\<lambda>_ m. m) sample_transport sample_client) [(6, PlaceOrder sample_order)] [] in
   map rq_method rqs = [POST]
   \<and> (\<exists>u \<in> set approved_origins. startswith (rq_url (rqs ! 0)) (u @ api_prefix @ ''/''))
   \<and> rq_url (rqs ! 0) = demo_origin @ event_orders_path"
proof -
  define rqs where
    "rqs = fold (client_step (\<lambda>_ m. m) sample_transport sample_client) [(6, PlaceOrder sample_order)] []"
  have "make_client (\<lambda>s. s) (\<lambda>_. RsaKey ()) ''key'' ''pem'' (demo_origin @ ''/'') True = Inr sample_client"
    by code_simp
  note ok = client_requests_stay_authorized [OF this, of "\<lambda>_ m. m" sample_transport
      "[(6, PlaceOrder sample_order)]", folded rqs_def]
  have "map rq_method rqs = [POST]"
    by (simp add: rqs_def create_order_def Let_def sample_client_def signed_headers_ok
        event_order_ok_payload [OF sample_order_ok])
  then obtain a where "rqs = [a]" "rq_method a = POST" by auto
  with ok show ?thesis
    unfolding rqs_def [symmetric] by (auto simp: sample_client_def)
qed

lemma principal_fingerprint_identifies_witness:
  "normalize_origin (demo_origin @ ''/'') = normalize_origin demo_origin \<and> strip '' k'' = strip ''k''"
  by (rule principal_fingerprint_identifies [where digest = "\<lambda>s. s"
        and f = "fingerprint_material demo_origin ''k''"])
    (simp, code_simp, code_simp)

lemma intent_reaches_wire_exactly_witness:
  "\<exists>r p. event_order_from_intent sample_intent False False 0 0 = Inr r
    \<and> event_order_payload r = Inr p
    \<and> wire_decimal p ''count'' = Some (dval (vi_quantity sample_intent))"
proof -
  have "intent_ok sample_intent" "vi_venue sample_intent = Kalshi"
    "on_grid count_quantum (vi_quantity sample_intent)"
    "on_grid dollar_quantum (vi_limit_price sample_intent)"
    by (simp_all add: intent_ok_def sample_intent_def text_ok_def stripped_def unicode_space_def
        on_grid_def count_quantum_def dollar_quantum_def default_prec_def dval_def dnum_def)
  from intent_reaches_wire_exactly [OF this(1,2) _ _ this(3,4), of 0 0 False False]
  show ?thesis by auto
qed

lemma validated_page_query_in_range_witness:
  "page_query_ok [(''limit'', QInt 100), (''cursor'', QText ''abc'')]"
  by (rule validated_page_query_in_range [of "PInt 100" "PStr ''abc ''" PNone PNone PNone]) code_simp

end
