(* ===== verification/Orderbook.thy ===== *)
theory Orderbook
  imports KalshiFields
begin

text \<open>
  \<open>services/venues/kalshi_v2_ws.py\<close>: the orderbook frames (snapshot and delta) and the
  continuity state of one subscription, which rebuilds the book from a snapshot and the
  deltas that follow it without a gap, and fails closed on anything else.

  A side of the book is the list of its levels in price order. Two decimals are the same
  key of a Python \<open>dict\<close> when they are numerically equal, so levels are looked up by value.
  The abstract book is the function from prices to quantities, \<open>book_of\<close>.
\<close>

section \<open>Field readers\<close>

definition ws_mapping :: "pyval \<Rightarrow> string \<Rightarrow> pydict res" where
  "ws_mapping v field = as_dict v (KalshiWSProtocolError (field @ '' must be an object''))"

definition ws_positive_integer :: "pyval \<Rightarrow> string \<Rightarrow> int res" where
  "ws_positive_integer v field =
     bindE (as_int v (KalshiWSProtocolError (field @ '' must be a positive integer''))) (\<lambda>i.
     if i \<le> 0 then Inl (KalshiWSProtocolError (field @ '' must be a positive integer'')) else Inr i)"

definition ws_optional_nonnegative_integer :: "pydict \<Rightarrow> string \<Rightarrow> int option res" where
  "ws_optional_nonnegative_integer p field =
     (case py_get p field of
        PNone \<Rightarrow> Inr None
      | PInt i \<Rightarrow> if i < 0 then Inl (KalshiWSProtocolError (field @ '' must be an integer''))
                  else Inr (Some i)
      | _ \<Rightarrow> Inl (KalshiWSProtocolError (field @ '' must be an integer'')))"

definition ws_text :: "pydict \<Rightarrow> string \<Rightarrow> string res" where
  "ws_text p field =
     bindE (as_text (py_get p field) (KalshiWSProtocolError (field @ '' must be a non-empty string''))) (\<lambda>s.
     if strip s = [] then Inl (KalshiWSProtocolError (field @ '' must be a non-empty string''))
     else Inr (strip s))"

definition ws_optional_text :: "pydict \<Rightarrow> string \<Rightarrow> string option res" where
  "ws_optional_text p field =
     (case py_get p field of
        PNone \<Rightarrow> Inr None
      | PStr s \<Rightarrow> if strip s = []
                  then Inl (KalshiWSProtocolError (field @ '' must be a non-empty string when present''))
                  else Inr (Some (strip s))
      | _ \<Rightarrow> Inl (KalshiWSProtocolError (field @ '' must be a non-empty string when present'')))"

definition ws_fixed_point :: "pyval \<Rightarrow> string \<Rightarrow> int \<Rightarrow> dec res" where
  "ws_fixed_point v field q =
     bindE (as_text v (KalshiWSProtocolError (field @ '' must be a fixed-point string''))) (\<lambda>s.
     bindE (finite_dec (parse_decimal s)
       (KalshiWSProtocolError (field @ '' must be a finite decimal''))) (\<lambda>d.
     if dexp d < q
     then Inl (KalshiWSProtocolError
       (field @ '' has more precision than Callisto permits ('' @ quantum_text q @ '')''))
     else case dec_quantize default_prec d q of
         None \<Rightarrow> Inl (KalshiWSProtocolError
           (field @ '' is outside Callisto'' @ CHR 0x27 # ''s fixed-point range''))
       | Some r \<Rightarrow>
           if dval r \<noteq> dval d
           then Inl (KalshiWSProtocolError
             (field @ '' has more precision than Callisto permits ('' @ quantum_text q @ '')''))
           else Inr d))"

text \<open>
  \<open>uuid.UUID(text)\<close> for its check only: the text without \<open>urn:\<close>, \<open>uuid:\<close>, outer braces
  and hyphens must have 32 characters that \<open>int(_, 16)\<close> accepts.
\<close>

fun replace_all :: "string \<Rightarrow> nat \<Rightarrow> string \<Rightarrow> string" where
  "replace_all p skip [] = []"
| "replace_all p (Suc n) (c # cs) = replace_all p n cs"
| "replace_all p 0 (c # cs) =
     (if startswith (c # cs) p then replace_all p (length p - 1) cs else c # replace_all p 0 cs)"

definition strip_braces :: "string \<Rightarrow> string" where
  "strip_braces s = (let b = (\<lambda>c. c = CHR ''{'' \<or> c = CHR ''}'') in
     rev (dropWhile b (rev (dropWhile b s))))"

definition hex_digit :: "char \<Rightarrow> bool" where
  "hex_digit c = (is_digit c \<or> (let n = (of_char c :: nat) in 65 \<le> n \<and> n \<le> 70 \<or> 97 \<le> n \<and> n \<le> 102))"

fun hex_digits :: "bool \<Rightarrow> string \<Rightarrow> bool" where
  "hex_digits after [] = after"
| "hex_digits after (c # cs) =
     (hex_digit c \<and> hex_digits True cs \<or> c = CHR ''_'' \<and> after \<and> hex_digits False cs)"

definition int16_text :: "string \<Rightarrow> bool" where
  "int16_text s =
     (let t = strip s;
          u = (if startswith t ''+'' then drop 1 t else t)
      in if startswith u ''0x'' \<or> startswith u ''0X''
         then hex_digits False (drop (if startswith (drop 2 u) ''_'' then 3 else 2) u)
         else hex_digits False u)"

definition uuid_text :: "string \<Rightarrow> bool" where
  "uuid_text s =
     (let h = filter (\<lambda>c. c \<noteq> CHR ''-'')
            (strip_braces (replace_all ''uuid:'' 0 (replace_all ''urn:'' 0 s)))
      in length h = 32 \<and> int16_text h)"

definition ws_identity :: "pydict \<Rightarrow> (string \<times> string) res" where
  "ws_identity p =
     bindE (ws_text p ''market_ticker'') (\<lambda>market_ticker.
     if \<not> market_ticker_text market_ticker then Inl (KalshiWSProtocolError ''invalid market_ticker'') else
     bindE (ws_text p ''market_id'') (\<lambda>market_id.
     if \<not> uuid_text market_id then Inl (KalshiWSProtocolError ''market_id must be a UUID'') else
     Inr (market_ticker, market_id)))"

definition ws_envelope :: "pydict \<Rightarrow> string \<Rightarrow> (int \<times> int \<times> pydict) res" where
  "ws_envelope p expected_type =
     (if py_get p ''type'' \<noteq> PStr expected_type
      then Inl (KalshiWSProtocolError (''type must be '' @ repr_str expected_type)) else
      bindE (ws_positive_integer (py_get p ''sid'') ''sid'') (\<lambda>sid.
      bindE (ws_positive_integer (py_get p ''seq'') ''seq'') (\<lambda>sq.
      bindE (ws_mapping (py_get p ''msg'') ''msg'') (\<lambda>message.
      Inr (sid, sq, message)))))"

section \<open>Levels\<close>

type_synonym level = "dec \<times> dec"

fun level_get :: "level list \<Rightarrow> dec \<Rightarrow> dec option" where
  "level_get [] p = None"
| "level_get ((k, q) # ls) p = (if dval k = dval p then Some q else level_get ls p)"

text \<open>\<open>levels[p] = q\<close>: an equal key keeps its place and its own form.\<close>

fun level_put :: "level list \<Rightarrow> dec \<Rightarrow> dec \<Rightarrow> level list" where
  "level_put [] p q = [(p, q)]"
| "level_put ((k, r) # ls) p q = (if dval k = dval p then (k, q) # ls else (k, r) # level_put ls p q)"

text \<open>\<open>levels.pop(p, None)\<close>\<close>

fun level_pop :: "level list \<Rightarrow> dec \<Rightarrow> level list" where
  "level_pop [] p = []"
| "level_pop ((k, r) # ls) p = (if dval k = dval p then ls else (k, r) # level_pop ls p)"

text \<open>\<open>tuple(sorted(levels.items()))\<close>: no two prices are equal, so the price decides.\<close>

fun insert_level :: "level \<Rightarrow> level list \<Rightarrow> level list" where
  "insert_level l [] = [l]"
| "insert_level l (m # ms) = (if dval (fst l) \<le> dval (fst m) then l # m # ms else m # insert_level l ms)"

fun sort_levels :: "level list \<Rightarrow> level list" where
  "sort_levels [] = []"
| "sort_levels (l # ls) = insert_level l (sort_levels ls)"

definition raw_level :: "pyval \<Rightarrow> (string \<times> string) res" where
  "raw_level v =
     (case v of
        PList [PStr p, PStr q] \<Rightarrow> Inr (p, q)
      | _ \<Rightarrow> Inl (KalshiWSProtocolError ''price level must contain exactly two strings''))"

definition add_level :: "string \<Rightarrow> string \<Rightarrow> level list \<Rightarrow> pyval \<Rightarrow> level list res" where
  "add_level field side levels v =
     bindE (raw_level v) (\<lambda>(p, q).
     bindE (ws_fixed_point (PStr p) (field @ '' price'') dollar_quantum) (\<lambda>price.
     bindE (ws_fixed_point (PStr q) (field @ '' quantity'') count_quantum) (\<lambda>quantity.
     if \<not> (0 \<le> dval price \<and> dval price \<le> 1)
     then Inl (KalshiWSProtocolError ''snapshot price must be between 0 and 1'') else
     if dval quantity \<le> 0
     then Inl (KalshiWSProtocolError ''snapshot quantity must be positive'') else
     if level_get levels price \<noteq> None
     then Inl (KalshiWSProtocolError (''duplicate '' @ side @ '' price level'')) else
     Inr (level_put levels price quantity))))"

definition ws_levels :: "pydict \<Rightarrow> string \<Rightarrow> string \<Rightarrow> level list res" where
  "ws_levels p field side =
     bindE (as_list (py_get_or (PList []) p field)
       (KalshiWSProtocolError (field @ '' must be an array''))) (\<lambda>raw_levels.
     bindE (foldE (add_level field side) [] raw_levels) (\<lambda>levels.
     Inr (sort_levels levels)))"

section \<open>Frames\<close>

record ob_snapshot =
  sn_sid :: int
  sn_seq :: int
  sn_market_ticker :: string
  sn_market_id :: string
  sn_yes_levels :: "level list"
  sn_no_levels :: "level list"

definition snapshot_from_payload :: "pydict \<Rightarrow> ob_snapshot res" where
  "snapshot_from_payload p =
     bindE (ws_envelope p ''orderbook_snapshot'') (\<lambda>(sid, sq, message).
     bindE (ws_identity message) (\<lambda>(market_ticker, market_id).
     bindE (ws_levels message ''yes_dollars_fp'' ''yes'') (\<lambda>yes_levels.
     bindE (ws_levels message ''no_dollars_fp'' ''no'') (\<lambda>no_levels.
     Inr \<lparr>sn_sid = sid, sn_seq = sq, sn_market_ticker = market_ticker, sn_market_id = market_id,
       sn_yes_levels = yes_levels, sn_no_levels = no_levels\<rparr>))))"

record ob_delta =
  dl_sid :: int
  dl_seq :: int
  dl_market_ticker :: string
  dl_market_id :: string
  dl_price :: dec
  dl_delta :: dec
  dl_side :: outcome
  dl_client_order_id :: "string option"
  dl_subaccount :: "int option"
  dl_timestamp_ms :: "int option"

text \<open>\<open>side not in {"yes", "no"}\<close> hashes the value: a list or an object raises \<open>TypeError\<close>.\<close>

definition ws_side :: "pyval \<Rightarrow> outcome res" where
  "ws_side v =
     (case v of
        PStr s \<Rightarrow> (case outcome_of s of None \<Rightarrow>
            Inl (KalshiWSProtocolError (''side must be '' @ repr_str ''yes'' @ '' or '' @ repr_str ''no''))
          | Some x \<Rightarrow> Inr x)
      | PList _ \<Rightarrow> Inl (TypeError ''unhashable type'')
      | PDict _ \<Rightarrow> Inl (TypeError ''unhashable type'')
      | _ \<Rightarrow> Inl (KalshiWSProtocolError (''side must be '' @ repr_str ''yes'' @ '' or '' @ repr_str ''no'')))"

definition delta_from_payload :: "pydict \<Rightarrow> ob_delta res" where
  "delta_from_payload p =
     bindE (ws_envelope p ''orderbook_delta'') (\<lambda>(sid, sq, message).
     bindE (ws_identity message) (\<lambda>(market_ticker, market_id).
     bindE (ws_fixed_point (py_get message ''price_dollars'') ''price_dollars'' dollar_quantum) (\<lambda>price.
     bindE (ws_fixed_point (py_get message ''delta_fp'') ''delta_fp'' count_quantum) (\<lambda>delta.
     if \<not> (0 \<le> dval price \<and> dval price \<le> 1)
     then Inl (KalshiWSProtocolError ''price_dollars must be between 0 and 1'') else
     bindE (ws_side (py_get message ''side'')) (\<lambda>side.
     bindE (ws_optional_text message ''client_order_id'') (\<lambda>client_order_id.
     bindE (ws_optional_nonnegative_integer message ''subaccount'') (\<lambda>subaccount.
     bindE (ws_optional_nonnegative_integer message ''ts_ms'') (\<lambda>timestamp_ms.
     Inr \<lparr>dl_sid = sid, dl_seq = sq, dl_market_ticker = market_ticker, dl_market_id = market_id,
       dl_price = price, dl_delta = delta, dl_side = side, dl_client_order_id = client_order_id,
       dl_subaccount = subaccount, dl_timestamp_ms = timestamp_ms\<rparr>))))))))"

record ob_view =
  vw_sid :: int
  vw_seq :: int
  vw_market_ticker :: string
  vw_market_id :: string
  vw_yes_levels :: "level list"
  vw_no_levels :: "level list"

record ob_recovery =
  rc_sid :: int
  rc_market_ticker :: string

definition recovery_command_payload :: "int \<Rightarrow> int \<Rightarrow> string \<Rightarrow> pydict" where
  "recovery_command_payload command_id sid market_ticker =
     [(''id'', PInt command_id), (''cmd'', PStr ''update_subscription''),
      (''params'', PDict
        [(''sids'', PList [PInt sid]), (''market_tickers'', PList [PStr market_ticker]),
         (''action'', PStr ''get_snapshot'')])]"

definition recovery_command :: "ob_recovery \<Rightarrow> int \<Rightarrow> pydict res" where
  "recovery_command r command_id =
     (if command_id \<le> 0 then Inl (KalshiWSProtocolError ''command_id must be a positive integer'')
      else Inr (recovery_command_payload command_id (rc_sid r) (rc_market_ticker r)))"

section \<open>The continuity state\<close>

record ob_state =
  ob_expected_sid :: int
  ob_market_ticker :: string
  ob_market_id :: string
  ob_view_opt :: "ob_view option"
  ob_recovery_opt :: "ob_recovery option"
  ob_valid :: bool

definition make_orderbook :: "int \<Rightarrow> string \<Rightarrow> string \<Rightarrow> ob_state res" where
  "make_orderbook expected_sid market_ticker market_id =
     bindE (ws_positive_integer (PInt expected_sid) ''expected_sid'') (\<lambda>sid.
     bindE (ws_identity [(''market_ticker'', PStr market_ticker), (''market_id'', PStr market_id)])
       (\<lambda>(ticker, mid).
     Inr \<lparr>ob_expected_sid = sid, ob_market_ticker = ticker, ob_market_id = mid,
       ob_view_opt = None, ob_recovery_opt = None, ob_valid = False\<rparr>))"

definition orderbook_view :: "ob_state \<Rightarrow> ob_view option" where
  "orderbook_view st = (if ob_valid st then ob_view_opt st else None)"

text \<open>Dataclass equality compares the decimals by value.\<close>

definition levels_eq :: "level list \<Rightarrow> level list \<Rightarrow> bool" where
  "levels_eq xs ys =
     list_all2 (\<lambda>(p, q) (p', q'). dval p = dval p' \<and> dval q = dval q') xs ys"

definition view_eq :: "ob_view \<Rightarrow> ob_view \<Rightarrow> bool" where
  "view_eq v w = (vw_sid v = vw_sid w \<and> vw_seq v = vw_seq w
     \<and> vw_market_ticker v = vw_market_ticker w \<and> vw_market_id v = vw_market_id w
     \<and> levels_eq (vw_yes_levels v) (vw_yes_levels w) \<and> levels_eq (vw_no_levels v) (vw_no_levels w))"

definition view_of_snapshot :: "ob_snapshot \<Rightarrow> ob_view" where
  "view_of_snapshot s =
     \<lparr>vw_sid = sn_sid s, vw_seq = sn_seq s, vw_market_ticker = sn_market_ticker s,
      vw_market_id = sn_market_id s, vw_yes_levels = sn_yes_levels s, vw_no_levels = sn_no_levels s\<rparr>"

definition apply_snapshot :: "ob_snapshot \<Rightarrow> (ob_state, ob_view) action" where
  "apply_snapshot s st =
     (if sn_sid s \<noteq> ob_expected_sid st \<or> sn_market_ticker s \<noteq> ob_market_ticker st
         \<or> sn_market_id s \<noteq> ob_market_id st
      then (Inl (KalshiWSContinuityError ''snapshot does not match the acknowledged subscription''), st)
      else
      let v = view_of_snapshot s;
          accepted = (Inr v, st\<lparr>ob_view_opt := Some v, ob_recovery_opt := None, ob_valid := True\<rparr>)
      in case ob_view_opt st of
          None \<Rightarrow> accepted
        | Some current \<Rightarrow>
            if ob_valid st
            then (if view_eq v current then (Inr current, st)
                  else (Inl (KalshiWSContinuityError
                    ''unsolicited snapshot cannot replace a valid orderbook''), st))
            else if sn_seq s \<le> vw_seq current
            then (Inl (KalshiWSContinuityError
                    ''recovery snapshot must advance the orderbook sequence''), st)
            else accepted)"

definition invalidate :: "ob_state \<Rightarrow> ob_state" where
  "invalidate st =
     (case ob_view_opt st of
        None \<Rightarrow> st\<lparr>ob_valid := False\<rparr>
      | Some v \<Rightarrow> st\<lparr>ob_valid := False, ob_recovery_opt :=
          Some \<lparr>rc_sid = vw_sid v, rc_market_ticker = vw_market_ticker v\<rparr>\<rparr>)"

text \<open>\<open>target.get(price, Decimal(0)) + delta\<close>, rounded to the context's precision.\<close>

definition delta_quantity :: "level list \<Rightarrow> ob_delta \<Rightarrow> dec" where
  "delta_quantity target d =
     dec_add default_prec (case level_get target (dl_price d) of None \<Rightarrow> dzero | Some q \<Rightarrow> q) (dl_delta d)"

definition updated_levels :: "level list \<Rightarrow> dec \<Rightarrow> dec \<Rightarrow> level list" where
  "updated_levels target price quantity =
     sort_levels (if dval quantity = 0 then level_pop target price else level_put target price quantity)"

definition target_levels :: "ob_view \<Rightarrow> outcome \<Rightarrow> level list" where
  "target_levels v side = (case side of Yes \<Rightarrow> vw_yes_levels v | No \<Rightarrow> vw_no_levels v)"

definition apply_delta :: "ob_delta \<Rightarrow> (ob_state, ob_view) action" where
  "apply_delta d st =
     (case ob_view_opt st of
        None \<Rightarrow> (Inl (KalshiWSContinuityError ''orderbook requires a snapshot before any delta''), st)
      | Some current \<Rightarrow>
          if dl_sid d \<noteq> vw_sid current
          then (Inl (KalshiWSContinuityError ''delta does not belong to the active subscription''), st)
          else if \<not> ob_valid st
          then (Inl (KalshiWSContinuityError
                  ''orderbook requires a fresh snapshot before more deltas''), st)
          else if dl_market_ticker d \<noteq> vw_market_ticker current \<or> dl_market_id d \<noteq> vw_market_id current
          then (Inl (KalshiWSContinuityError
                  ''delta market identity does not match the active snapshot''), invalidate st)
          else if dl_seq d \<noteq> vw_seq current + 1
          then (Inl (KalshiWSContinuityError
                  (''non-contiguous sequence: expected '' @ int_str (vw_seq current + 1)
                    @ '', received '' @ int_str (dl_seq d))), invalidate st)
          else
          let target = target_levels current (dl_side d);
              quantity = delta_quantity target d
          in if dval quantity < 0
          then (Inl (KalshiWSContinuityError ''delta would make an orderbook level negative''), invalidate st)
          else
          let levels = updated_levels target (dl_price d) quantity;
              v = (case dl_side d of
                    Yes \<Rightarrow> current\<lparr>vw_seq := dl_seq d, vw_yes_levels := levels,
                             vw_no_levels := sort_levels (vw_no_levels current)\<rparr>
                  | No \<Rightarrow> current\<lparr>vw_seq := dl_seq d, vw_yes_levels := sort_levels (vw_yes_levels current),
                             vw_no_levels := levels\<rparr>)
          in (Inr v, st\<lparr>ob_view_opt := Some v\<rparr>))"

section \<open>Levels and the abstract book\<close>

fun book_of :: "level list \<Rightarrow> rat \<Rightarrow> rat" where
  "book_of [] x = 0"
| "book_of ((k, q) # ls) x = (if dval k = x then dval q else book_of ls x)"

abbreviation prices :: "level list \<Rightarrow> rat list" where
  "prices ls \<equiv> map (\<lambda>l. dval (fst l)) ls"

definition level_ok :: "level \<Rightarrow> bool" where
  "level_ok l = (0 \<le> dval (fst l) \<and> dval (fst l) \<le> 1 \<and> 0 < dval (snd l)
     \<and> count_quantum \<le> dexp (snd l))"

text \<open>
  Prices strictly increase and lie between 0 and 1; every quantity is positive and a
  multiple of the quantity quantum.
\<close>

definition levels_ok :: "level list \<Rightarrow> bool" where
  "levels_ok ls = (sorted_wrt (<) (prices ls) \<and> list_all level_ok ls)"

lemma level_get_book: "dval (case level_get ls p of None \<Rightarrow> dzero | Some q \<Rightarrow> q) = book_of ls (dval p)"
  by (induction ls p rule: level_get.induct) auto

lemma level_get_None: "level_get ls p = None \<longleftrightarrow> dval p \<notin> set (prices ls)"
  by (induction ls p rule: level_get.induct) auto

lemma book_of_absent: "x \<notin> set (prices ls) \<Longrightarrow> book_of ls x = 0"
  by (induction ls) auto

lemma book_of_put: "book_of (level_put ls p q) = (book_of ls)(dval p := dval q)"
  by (induction ls p q rule: level_put.induct) auto

lemma book_of_pop: "distinct (prices ls) \<Longrightarrow> book_of (level_pop ls p) = (book_of ls)(dval p := 0)"
  by (induction ls p rule: level_pop.induct) (auto simp: book_of_absent)

lemma book_of_insert:
  "dval (fst l) \<notin> set (prices ls) \<Longrightarrow> book_of (insert_level l ls) = (book_of ls)(dval (fst l) := dval (snd l))"
  by (induction l ls rule: insert_level.induct) auto

lemma set_insert_level: "set (insert_level l ls) = insert l (set ls)"
  by (induction l ls rule: insert_level.induct) auto

lemma set_sort_levels [simp]: "set (sort_levels ls) = set ls"
  by (induction ls) (auto simp: set_insert_level)

lemma book_of_sort: "distinct (prices ls) \<Longrightarrow> book_of (sort_levels ls) = book_of ls"
  by (induction ls) (auto simp: book_of_insert)

lemma prices_put: "set (prices (level_put ls p q)) = insert (dval p) (set (prices ls))"
  by (induction ls p q rule: level_put.induct) auto

lemma distinct_put: "distinct (prices ls) \<Longrightarrow> distinct (prices (level_put ls p q))"
proof (induction ls p q rule: level_put.induct)
  case (2 k r ls p q)
  then show ?case using prices_put [of ls p q] by (cases "dval k = dval p") simp_all
qed simp

lemma prices_pop: "set (prices (level_pop ls p)) \<subseteq> set (prices ls)"
  by (induction ls p rule: level_pop.induct) auto

lemma distinct_pop: "distinct (prices ls) \<Longrightarrow> distinct (prices (level_pop ls p))"
proof (induction ls p rule: level_pop.induct)
  case (2 k r ls p)
  then show ?case using prices_pop [of ls p] by auto
qed simp

lemma sorted_insert_level:
  "sorted_wrt (<) (prices ls) \<Longrightarrow> dval (fst l) \<notin> set (prices ls) \<Longrightarrow>
     sorted_wrt (<) (prices (insert_level l ls))"
  by (induction l ls rule: insert_level.induct) (auto simp: set_insert_level)

lemma sorted_sort_levels: "distinct (prices ls) \<Longrightarrow> sorted_wrt (<) (prices (sort_levels ls))"
  by (induction ls) (auto intro!: sorted_insert_level)

lemma sorted_distinct: "sorted_wrt (<) (prices ls) \<Longrightarrow> distinct (prices ls)"
  by (induction ls) auto

lemma insert_level_least: "(\<And>m. m \<in> set ms \<Longrightarrow> dval (fst l) \<le> dval (fst m)) \<Longrightarrow> insert_level l ms = l # ms"
  by (cases ms) auto

lemma sort_levels_sorted: "sorted_wrt (<) (prices ls) \<Longrightarrow> sort_levels ls = ls"
  by (induction ls) (auto intro!: insert_level_least order.strict_implies_order)

lemma put_ok: "list_all level_ok ls \<Longrightarrow> level_ok (p, q) \<Longrightarrow> list_all level_ok (level_put ls p q)"
  by (induction ls p q rule: level_put.induct) (auto simp: level_ok_def)

lemma pop_ok: "list_all level_ok ls \<Longrightarrow> list_all level_ok (level_pop ls p)"
  by (induction ls p rule: level_pop.induct) auto

lemma list_all_sort_levels [simp]: "list_all P (sort_levels ls) \<longleftrightarrow> list_all P ls"
  by (simp add: list_all_iff)

lemma updated_levels_ok:
  assumes "levels_ok ls" "0 \<le> dval p" "dval p \<le> 1" "0 \<le> dval q" "count_quantum \<le> dexp q"
  shows "levels_ok (updated_levels ls p q)"
  using assms sorted_distinct [of ls]
  by (auto simp: updated_levels_def levels_ok_def level_ok_def
      intro!: sorted_sort_levels distinct_put distinct_pop put_ok pop_ok)

lemma book_of_updated:
  "levels_ok ls \<Longrightarrow> book_of (updated_levels ls p q) = (book_of ls)(dval p := dval q)"
  using sorted_distinct [of ls]
  by (auto simp: updated_levels_def levels_ok_def book_of_sort distinct_put distinct_pop
      book_of_put book_of_pop)

lemma book_of_nonneg: "list_all level_ok ls \<Longrightarrow> 0 \<le> book_of ls x"
  by (induction ls) (auto simp: level_ok_def)

section \<open>Frames are well formed\<close>

lemma ws_fixed_point_on_grid: "ws_fixed_point v f q = Inr d \<Longrightarrow> q \<le> dexp d"
  by (auto simp: ws_fixed_point_def res_simps split: option.splits if_splits)

lemma add_level_ok:
  assumes "add_level f side ls v = Inr ls'" and "distinct (prices ls) \<and> list_all level_ok ls"
  shows "distinct (prices ls') \<and> list_all level_ok ls'"
  using assms
  by (auto simp: add_level_def res_simps level_ok_def intro!: distinct_put put_ok
      elim!: bindE_InrE split: prod.splits dest!: ws_fixed_point_on_grid)

lemma ws_levels_ok: "ws_levels p f side = Inr ls \<Longrightarrow> levels_ok ls"
proof -
  assume "ws_levels p f side = Inr ls"
  then obtain raw ls0 where fold: "foldE (add_level f side) [] raw = Inr ls0" and ls: "ls = sort_levels ls0"
    by (auto simp: ws_levels_def res_simps)
  have "distinct (prices ls0) \<and> list_all level_ok ls0"
    by (rule foldE_invariant [where I = "\<lambda>ls. distinct (prices ls) \<and> list_all level_ok ls", OF fold])
      (auto dest: add_level_ok)
  then show "levels_ok ls" by (simp add: ls levels_ok_def sorted_sort_levels)
qed

definition snapshot_ok :: "ob_snapshot \<Rightarrow> bool" where
  "snapshot_ok s = (0 < sn_sid s \<and> 0 < sn_seq s \<and> levels_ok (sn_yes_levels s) \<and> levels_ok (sn_no_levels s))"

definition delta_ok :: "ob_delta \<Rightarrow> bool" where
  "delta_ok d = (0 < dl_sid d \<and> 0 < dl_seq d \<and> 0 \<le> dval (dl_price d) \<and> dval (dl_price d) \<le> 1
     \<and> dollar_quantum \<le> dexp (dl_price d) \<and> count_quantum \<le> dexp (dl_delta d))"

lemma ws_positive_integer_ok: "ws_positive_integer v f = Inr i \<Longrightarrow> 0 < i"
  by (auto simp: ws_positive_integer_def res_simps)

lemma ws_envelope_ok: "ws_envelope p t = Inr (sid, sq, m) \<Longrightarrow> 0 < sid \<and> 0 < sq"
  by (auto simp: ws_envelope_def res_simps dest: ws_positive_integer_ok)

lemma snapshot_from_payload_ok: "snapshot_from_payload p = Inr s \<Longrightarrow> snapshot_ok s"
  unfolding snapshot_from_payload_def
  by (auto simp: snapshot_ok_def elim!: bindE_InrE split: prod.splits dest: ws_levels_ok ws_envelope_ok)

lemma delta_from_payload_ok: "delta_from_payload p = Inr d \<Longrightarrow> delta_ok d"
  unfolding delta_from_payload_def
  by (auto simp: delta_ok_def elim!: bindE_InrE split: prod.splits if_splits
      dest!: ws_envelope_ok ws_fixed_point_on_grid)

text \<open>What the readers raise: \<open>KalshiWSProtocolError\<close>, and \<open>TypeError\<close> for an unhashable side.\<close>

lemma raises_ws [raises_intros]:
  "raises is_value_error (ws_mapping v f)"
  "raises is_value_error (ws_positive_integer v f)"
  "raises is_value_error (ws_optional_nonnegative_integer p f)"
  "raises is_value_error (ws_text p f)"
  "raises is_value_error (ws_optional_text p f)"
  "raises is_value_error (ws_fixed_point v f q)"
  "raises is_value_error (raw_level v)"
  unfolding ws_mapping_def ws_positive_integer_def ws_text_def ws_fixed_point_def
  by (auto simp: ws_optional_nonnegative_integer_def ws_optional_text_def raw_level_def
      intro!: raises_intros split: pyval.splits list.splits)

lemma raises_ws_frames [raises_intros]:
  "raises is_value_error (ws_identity p)"
  "raises is_value_error (ws_envelope p t)"
  "raises is_value_error (ws_levels p f side)"
  unfolding ws_identity_def ws_envelope_def ws_levels_def add_level_def
  by (auto intro!: raises_intros)

lemma raises_make_orderbook: "raises is_value_error (make_orderbook sid t m)"
  unfolding make_orderbook_def by (auto intro!: raises_intros)

lemma raises_snapshot_from_payload: "raises is_value_error (snapshot_from_payload p)"
  unfolding snapshot_from_payload_def by (auto intro!: raises_intros)

lemma raises_delta_from_payload:
  "raises (\<lambda>e. is_value_error e \<or> is_type_error e) (delta_from_payload p)"
proof -
  have side: "raises (\<lambda>e. is_value_error e \<or> is_type_error e) (ws_side v)" for v
    by (auto simp: ws_side_def split: pyval.splits option.splits)
  have v: "raises (\<lambda>e. is_value_error e \<or> is_type_error e) m" if "raises is_value_error m" for m :: "'x res"
    by (rule raises_mono [OF that]) simp
  show ?thesis
    unfolding delta_from_payload_def
    by (auto intro!: raises_bindE raises_prod raises_if side v [OF raises_ws(3)] v [OF raises_ws(5)]
        v [OF raises_ws(6)] v [OF raises_ws_frames(1)] v [OF raises_ws_frames(2)])
qed

section \<open>The state keeps its invariant\<close>

definition orderbook_ok :: "ob_state \<Rightarrow> bool" where
  "orderbook_ok st =
     (case ob_view_opt st of
        None \<Rightarrow> \<not> ob_valid st \<and> ob_recovery_opt st = None
      | Some v \<Rightarrow>
          vw_sid v = ob_expected_sid st \<and> vw_market_ticker v = ob_market_ticker st
          \<and> vw_market_id v = ob_market_id st \<and> 0 < vw_seq v
          \<and> levels_ok (vw_yes_levels v) \<and> levels_ok (vw_no_levels v)
          \<and> ob_recovery_opt st =
              (if ob_valid st then None
               else Some \<lparr>rc_sid = vw_sid v, rc_market_ticker = vw_market_ticker v\<rparr>))"

lemma make_orderbook_ok: "make_orderbook sid t m = Inr st \<Longrightarrow> orderbook_ok st"
  by (auto simp: make_orderbook_def orderbook_ok_def res_simps split: prod.splits)

lemma apply_snapshot_ok:
  "snapshot_ok s \<Longrightarrow> orderbook_ok st \<Longrightarrow> orderbook_ok (snd (apply_snapshot s st))"
  by (auto simp: apply_snapshot_def orderbook_ok_def snapshot_ok_def view_of_snapshot_def Let_def
      split: option.splits)

lemma sort_levels_ok: "levels_ok ls \<Longrightarrow> sort_levels ls = ls"
  by (simp add: levels_ok_def sort_levels_sorted)

lemma invalidate_ok: "orderbook_ok st \<Longrightarrow> orderbook_ok (invalidate st)"
  by (auto simp: invalidate_def orderbook_ok_def split: option.splits)

lemma target_levels_ok:
  "orderbook_ok st \<Longrightarrow> ob_view_opt st = Some v \<Longrightarrow> levels_ok (target_levels v side)"
  by (auto simp: orderbook_ok_def target_levels_def split: outcome.splits)

text \<open>The accepted deltas, and what they do.\<close>

definition delta_accepted :: "ob_delta \<Rightarrow> ob_state \<Rightarrow> ob_view \<Rightarrow> bool" where
  "delta_accepted d st v =
     (ob_view_opt st = Some v \<and> ob_valid st \<and> dl_sid d = vw_sid v
      \<and> dl_market_ticker d = vw_market_ticker v \<and> dl_market_id d = vw_market_id v
      \<and> dl_seq d = vw_seq v + 1 \<and> 0 \<le> dval (delta_quantity (target_levels v (dl_side d)) d))"

definition view_after :: "ob_delta \<Rightarrow> ob_view \<Rightarrow> ob_view" where
  "view_after d v =
     (let levels = updated_levels (target_levels v (dl_side d)) (dl_price d)
            (delta_quantity (target_levels v (dl_side d)) d)
      in case dl_side d of
          Yes \<Rightarrow> v\<lparr>vw_seq := dl_seq d, vw_yes_levels := levels\<rparr>
        | No \<Rightarrow> v\<lparr>vw_seq := dl_seq d, vw_no_levels := levels\<rparr>)"

lemma apply_delta_cases:
  assumes "orderbook_ok st"
  obtains (accepted) v where "delta_accepted d st v"
      "apply_delta d st = (Inr (view_after d v), st\<lparr>ob_view_opt := Some (view_after d v)\<rparr>)"
  | (kept) e where "apply_delta d st = (Inl e, st)" "\<not> (\<exists>v. delta_accepted d st v)"
      "\<not> ob_valid st \<or> dl_sid d \<noteq> ob_expected_sid st"
  | (invalidated) e where "apply_delta d st = (Inl e, invalidate st)" "\<not> (\<exists>v. delta_accepted d st v)"
      "ob_view_opt st \<noteq> None" "ob_valid st"
proof (cases "ob_view_opt st")
  case None
  then show ?thesis using kept assms by (simp add: apply_delta_def delta_accepted_def orderbook_ok_def)
next
  case (Some v)
  have l: "sort_levels (vw_yes_levels v) = vw_yes_levels v" "sort_levels (vw_no_levels v) = vw_no_levels v"
    using target_levels_ok [OF assms Some, of Yes] target_levels_ok [OF assms Some, of No]
    by (simp_all add: target_levels_def sort_levels_ok)
  show ?thesis
  proof (cases "delta_accepted d st v")
    case True
    then have "apply_delta d st = (Inr (view_after d v), st\<lparr>ob_view_opt := Some (view_after d v)\<rparr>)"
      by (simp add: apply_delta_def delta_accepted_def view_after_def l Let_def split: outcome.splits)
    with True show ?thesis by (rule accepted)
  next
    case False
    then have no: "\<not> (\<exists>v. delta_accepted d st v)" using Some by (auto simp: delta_accepted_def)
    have "(\<exists>e. apply_delta d st = (Inl e, st)) \<and> (\<not> ob_valid st \<or> dl_sid d \<noteq> vw_sid v)
        \<or> (\<exists>e. apply_delta d st = (Inl e, invalidate st)) \<and> ob_valid st"
      using False Some by (auto simp: apply_delta_def delta_accepted_def Let_def)
    moreover have "vw_sid v = ob_expected_sid st" using assms Some by (simp add: orderbook_ok_def)
    ultimately show ?thesis using kept [OF _ no] invalidated [OF _ no] Some by auto
  qed
qed

lemma level_get_mem: "level_get ls p = Some q \<Longrightarrow> \<exists>k. (k, q) \<in> set ls"
  by (induction ls p rule: level_get.induct) (auto split: if_splits)

lemma level_get_grid:
  "list_all level_ok ls \<Longrightarrow>
     count_quantum \<le> dexp (case level_get ls p of None \<Rightarrow> dzero | Some q \<Rightarrow> q)"
  by (cases "level_get ls p")
    (auto simp: level_ok_def list_all_iff count_quantum_def dzero_def dest!: level_get_mem)

lemma delta_quantity_grid:
  "levels_ok ls \<Longrightarrow> delta_ok d \<Longrightarrow> count_quantum \<le> dexp (delta_quantity ls d)"
  using level_get_grid [of ls "dl_price d"]
    dexp_add [of "case level_get ls (dl_price d) of None \<Rightarrow> dzero | Some q \<Rightarrow> q" "dl_delta d"]
  unfolding delta_quantity_def levels_ok_def delta_ok_def
  by (meson le_trans min.boundedI order_trans)

lemma view_after_ok:
  assumes st: "orderbook_ok st" and d: "delta_ok d" and a: "delta_accepted d st v"
  shows "orderbook_ok (st\<lparr>ob_view_opt := Some (view_after d v)\<rparr>)"
proof -
  have "levels_ok (updated_levels (target_levels v (dl_side d)) (dl_price d)
      (delta_quantity (target_levels v (dl_side d)) d))"
    using a d target_levels_ok [OF st] delta_quantity_grid [OF target_levels_ok [OF st] d]
    by (auto simp: updated_levels_ok delta_accepted_def delta_ok_def)
  then show ?thesis
    using st a d
    by (auto simp: orderbook_ok_def view_after_def delta_accepted_def delta_ok_def Let_def
        split: outcome.splits)
qed

lemma apply_delta_ok: "orderbook_ok st \<Longrightarrow> delta_ok d \<Longrightarrow> orderbook_ok (snd (apply_delta d st))"
  by (cases rule: apply_delta_cases [of st d]) (auto intro: view_after_ok invalidate_ok)

text \<open>The frames of a connection, as the session feeds them; a frame that does not parse changes nothing.\<close>

datatype ob_frame = SnapshotFrame pydict | DeltaFrame pydict

fun orderbook_step :: "ob_frame \<Rightarrow> ob_state \<Rightarrow> ob_state" where
  "orderbook_step (SnapshotFrame p) st =
     (case snapshot_from_payload p of Inl _ \<Rightarrow> st | Inr s \<Rightarrow> snd (apply_snapshot s st))"
| "orderbook_step (DeltaFrame p) st =
     (case delta_from_payload p of Inl _ \<Rightarrow> st | Inr d \<Rightarrow> snd (apply_delta d st))"

definition seq_le :: "ob_state \<Rightarrow> ob_state \<Rightarrow> bool" where
  "seq_le st st' =
     (case ob_view_opt st of None \<Rightarrow> True
      | Some v \<Rightarrow> (case ob_view_opt st' of None \<Rightarrow> False | Some w \<Rightarrow> vw_seq v \<le> vw_seq w))"

lemma seq_le_invalidate: "seq_le st (invalidate st)"
  by (simp add: seq_le_def invalidate_def split: option.splits)

lemma apply_snapshot_seq_le: "seq_le st (snd (apply_snapshot s st))"
  by (auto simp: apply_snapshot_def seq_le_def view_of_snapshot_def Let_def split: option.splits)

lemma apply_delta_seq_le: "orderbook_ok st \<Longrightarrow> seq_le st (snd (apply_delta d st))"
  by (cases rule: apply_delta_cases [of st d])
    (auto simp: seq_le_invalidate, auto simp: seq_le_def delta_accepted_def view_after_def Let_def
      split: option.splits outcome.splits)

interpretation orderbook: monotone_machine orderbook_ok orderbook_step seq_le
proof
  fix st :: ob_state and x
  assume st: "orderbook_ok st"
  then show "orderbook_ok (orderbook_step x st)"
    by (cases x) (auto simp: apply_snapshot_ok apply_delta_ok snapshot_from_payload_ok
        delta_from_payload_ok split: sum.splits)
  have refl: "seq_le st st" by (simp add: seq_le_def split: option.splits)
  from st show "seq_le st (orderbook_step x st)"
    by (cases x) (auto simp: apply_snapshot_seq_le apply_delta_seq_le refl split: sum.splits)
next
  fix s t u :: ob_state
  show "seq_le s s" by (simp add: seq_le_def split: option.splits)
  show "seq_le s t \<Longrightarrow> seq_le t u \<Longrightarrow> seq_le s u"
    by (auto simp: seq_le_def split: option.splits)
qed

section \<open>Properties of the orderbook\<close>

text \<open>The abstract book of a view: the quantity each side rests at each price.\<close>

definition abs_book :: "ob_view \<Rightarrow> outcome \<Rightarrow> rat \<Rightarrow> rat" where
  "abs_book v side = book_of (target_levels v side)"

definition abs_delta :: "ob_delta \<Rightarrow> (outcome \<Rightarrow> rat \<Rightarrow> rat) \<Rightarrow> outcome \<Rightarrow> rat \<Rightarrow> rat" where
  "abs_delta d b = b(dl_side d := (b (dl_side d))(dval (dl_price d) :=
     b (dl_side d) (dval (dl_price d)) + dval (dl_delta d)))"

definition quantity_limit :: rat where
  "quantity_limit = 10 ^ 26"

lemma delta_quantity_exact:
  assumes "levels_ok ls" "delta_ok d"
    and "\<bar>book_of ls (dval (dl_price d)) + dval (dl_delta d)\<bar> < quantity_limit"
  shows "dval (delta_quantity ls d) = book_of ls (dval (dl_price d)) + dval (dl_delta d)"
proof -
  let ?q = "case level_get ls (dl_price d) of None \<Rightarrow> dzero | Some q \<Rightarrow> q"
  have "quantity_limit = 10 powi (int default_prec + count_quantum)"
    by (simp add: quantity_limit_def default_prec_def count_quantum_def power_int_def)
  then show ?thesis
    using dec_add_exact_of_bound(1) [of default_prec count_quantum ?q "dl_delta d"]
      level_get_grid [of ls "dl_price d"] assms
    by (simp add: delta_quantity_def levels_ok_def delta_ok_def level_get_book default_prec_def
        count_quantum_def)
qed

lemma abs_book_view_after:
  assumes "orderbook_ok st" "delta_accepted d st v" "delta_ok d"
    and "\<bar>abs_book v (dl_side d) (dval (dl_price d)) + dval (dl_delta d)\<bar> < quantity_limit"
  shows "abs_book (view_after d v) = abs_delta d (abs_book v)"
proof -
  have l: "levels_ok (target_levels v side)" for side
    using assms(1,2) target_levels_ok by (auto simp: delta_accepted_def)
  have q: "dval (delta_quantity (target_levels v (dl_side d)) d) =
      book_of (target_levels v (dl_side d)) (dval (dl_price d)) + dval (dl_delta d)"
    using delta_quantity_exact [OF l assms(3)] assms(4) by (simp add: abs_book_def)
  have "target_levels (view_after d v) side =
      (if side = dl_side d then updated_levels (target_levels v side) (dl_price d)
         (delta_quantity (target_levels v side) d) else target_levels v side)" for side
    by (cases side; cases "dl_side d"; simp add: view_after_def target_levels_def Let_def)
  then show ?thesis
    by (auto simp: fun_eq_iff abs_book_def abs_delta_def book_of_updated [OF l] q)
qed

lemma apply_delta_refines:
  assumes "orderbook_ok st" "delta_ok d" "ob_view_opt st = Some v"
    and "apply_delta d st = (Inr w, st')"
    and "\<bar>abs_book v (dl_side d) (dval (dl_price d)) + dval (dl_delta d)\<bar> < quantity_limit"
  shows "abs_book w = abs_delta d (abs_book v) \<and> vw_seq w = vw_seq v + 1 \<and> orderbook_view st' = Some w"
proof (cases rule: apply_delta_cases [OF assms(1), of d])
  case (1 u)
  then have "u = v" using assms(3) by (simp add: delta_accepted_def)
  moreover have "vw_seq (view_after d v) = dl_seq d"
    by (simp add: view_after_def Let_def split: outcome.splits)
  ultimately show ?thesis
    using 1 assms abs_book_view_after [OF assms(1) _ assms(2,5)]
    by (auto simp: delta_accepted_def orderbook_view_def)
qed (use assms(4) in auto)

text \<open>
  C6: a delta the state accepts does to the abstract book exactly what it says, it adds
  its signed quantity at its price on its side and leaves every other price and the other
  side alone, and the sequence number advances by one. The bound is that of the context's
  28 digits: a level beyond \<open>10 ^ 26\<close> contracts would be rounded.
\<close>

theorem delta_refines_abstract_book:
  assumes "orderbook_ok st" "delta_ok d" "ob_view_opt st = Some v"
    and "apply_delta d st = (Inr w, st')"
    and "\<bar>abs_book v (dl_side d) (dval (dl_price d)) + dval (dl_delta d)\<bar> < quantity_limit"
  shows "abs_book w = abs_delta d (abs_book v) \<and> vw_seq w = vw_seq v + 1 \<and> orderbook_view st' = Some w"
  using assms by (rule apply_delta_refines)

text \<open>A replay: the deltas of a list are accepted one after the other.\<close>

inductive replays :: "ob_state \<Rightarrow> ob_delta list \<Rightarrow> ob_state \<Rightarrow> bool" where
  none: "replays st [] st"
| step: "apply_delta d st = (Inr w, st') \<Longrightarrow> replays st' ds st'' \<Longrightarrow> replays st (d # ds) st''"

inductive_cases replays_NilE: "replays st [] st'"
inductive_cases replays_ConsE: "replays st (d # ds) st'"

definition net_delta :: "ob_delta list \<Rightarrow> outcome \<Rightarrow> rat \<Rightarrow> rat" where
  "net_delta ds side x =
     (\<Sum>d\<leftarrow>ds. if dl_side d = side \<and> dval (dl_price d) = x then dval (dl_delta d) else 0)"

definition turnover :: "ob_delta list \<Rightarrow> rat" where
  "turnover ds = (\<Sum>d\<leftarrow>ds. \<bar>dval (dl_delta d)\<bar>)"

lemma turnover_nonneg: "0 \<le> turnover ds"
  unfolding turnover_def by (induction ds) simp_all

text \<open>
  C7: replaying a gapless run of deltas over a published book gives the book plus, at every
  price of every side, the sum of the deltas there, at the sequence number of the start
  plus the number of deltas; so two replicas that saw the same snapshot and deltas agree.
  The bound keeps every intermediate quantity within the 28 digits of the context.
\<close>

theorem replay_sums_deltas:
  assumes "replays st ds st'" and "orderbook_ok st" and "orderbook_view st = Some v"
    and "list_all delta_ok ds"
    and "\<And>side x. abs_book v side x + turnover ds < quantity_limit"
  shows "\<exists>w. orderbook_view st' = Some w \<and> vw_seq w = vw_seq v + int (length ds)
    \<and> (\<forall>side x. abs_book w side x = abs_book v side x + net_delta ds side x)"
  using assms
proof (induction arbitrary: v rule: replays.induct)
  case (none st)
  then show ?case by (auto simp: net_delta_def)
next
  case (step d st w st' ds st'')
  have v: "ob_view_opt st = Some v"
    using step.prems(2) by (simp add: orderbook_view_def split: if_splits)
  have d: "delta_ok d" and ds: "list_all delta_ok ds" using step.prems(3) by simp_all
  have nonneg: "0 \<le> abs_book v side x" for side x
    using target_levels_ok [OF step.prems(1) v, of side] by (simp add: abs_book_def levels_ok_def book_of_nonneg)
  have t: "turnover (d # ds) = \<bar>dval (dl_delta d)\<bar> + turnover ds" and t0: "0 \<le> turnover ds"
    by (simp_all add: turnover_def turnover_nonneg [unfolded turnover_def])
  have b: "\<bar>abs_book v (dl_side d) (dval (dl_price d)) + dval (dl_delta d)\<bar> < quantity_limit"
    using step.prems(4) [of "dl_side d" "dval (dl_price d)"] nonneg [of "dl_side d" "dval (dl_price d)"] t t0
    by linarith
  have w: "abs_book w = abs_delta d (abs_book v)" "vw_seq w = vw_seq v + 1" "orderbook_view st' = Some w"
    using apply_delta_refines [OF step.prems(1) d v step.hyps(1) b] by simp_all
  have "orderbook_ok st'" using apply_delta_ok [OF step.prems(1) d] step.hyps(1) by simp
  moreover have "abs_book w side x + turnover ds < quantity_limit" for side x
    using step.prems(4) [of side x] t by (auto simp: w abs_delta_def)
  ultimately obtain u where u: "orderbook_view st'' = Some u" "vw_seq u = vw_seq w + int (length ds)"
    "\<forall>side x. abs_book u side x = abs_book w side x + net_delta ds side x"
    using step.IH [of w] w ds by blast
  then show ?case
    using w by (auto simp: abs_delta_def net_delta_def)
qed

lemma delta_frames_stay_invalid:
  "orderbook_ok st \<Longrightarrow> \<not> ob_valid st \<Longrightarrow> fold (\<lambda>p. orderbook_step (DeltaFrame p)) ps st = st"
proof (induction ps)
  case (Cons p ps)
  have "snd (apply_delta d st) = st" for d
    using Cons.prems(2) by (simp add: apply_delta_def split: option.splits)
  then have "orderbook_step (DeltaFrame p) st = st" by (simp split: sum.splits)
  with Cons show ?case by simp
qed simp

text \<open>
  fail closed. A delta of this subscription that is not the next one (another
  market, a gap, a repeat, a level that would go negative) withdraws the book and names
  the snapshot to ask for; no further delta brings it back, whatever it holds.
\<close>

theorem discontinuity_withdraws_book:
  assumes "orderbook_ok st" "orderbook_view st = Some v" "dl_sid d = vw_sid v"
    and "\<not> is_ok (fst (apply_delta d st))"
  shows "orderbook_view (fold (\<lambda>p. orderbook_step (DeltaFrame p)) ps (snd (apply_delta d st))) = None
    \<and> ob_recovery_opt (snd (apply_delta d st)) =
        Some \<lparr>rc_sid = ob_expected_sid st, rc_market_ticker = ob_market_ticker st\<rparr>"
proof -
  have v: "ob_view_opt st = Some v" and valid: "ob_valid st"
    using assms(2) by (simp_all add: orderbook_view_def split: if_splits)
  have "snd (apply_delta d st) = invalidate st"
    using assms(3,4) v valid by (auto simp: apply_delta_def Let_def)
  moreover have "\<not> ob_valid (invalidate st)" by (simp add: invalidate_def v)
  moreover have "orderbook_ok (invalidate st)" by (rule invalidate_ok [OF assms(1)])
  moreover have "ob_recovery_opt (invalidate st) =
      Some \<lparr>rc_sid = ob_expected_sid st, rc_market_ticker = ob_market_ticker st\<rparr>"
    using assms(1) v by (simp add: invalidate_def orderbook_ok_def)
  ultimately show ?thesis by (simp add: delta_frames_stay_invalid orderbook_view_def)
qed

text \<open>
  once withdrawn, the book comes back exactly with a snapshot of the same subscription
  whose sequence number is beyond the last one applied, and then shows that snapshot.
\<close>

theorem recovery_needs_newer_snapshot:
  assumes "orderbook_ok st" "ob_view_opt st = Some v" "\<not> ob_valid st"
  shows "orderbook_view (snd (apply_snapshot s st)) =
    (if sn_sid s = ob_expected_sid st \<and> sn_market_ticker s = ob_market_ticker st
        \<and> sn_market_id s = ob_market_id st \<and> vw_seq v < sn_seq s
     then Some (view_of_snapshot s) else None)"
  using assms by (auto simp: apply_snapshot_def orderbook_view_def Let_def)

text \<open>
  C8: whatever frames arrive, in whatever order, a constructed state only ever publishes a
  book of its own subscription and its own market, ticker and id, with a positive sequence
  number and levels that strictly increase in price within 0 to 1 with positive quantities,
  and the sequence number never falls.
\<close>

theorem published_book_is_well_formed:
  assumes "make_orderbook sid ticker mid = Inr st"
    and "orderbook_view (fold orderbook_step frames st) = Some v"
  shows "vw_sid v = sid \<and> vw_market_ticker v = strip ticker \<and> vw_market_id v = strip mid \<and> 0 < vw_seq v
    \<and> levels_ok (vw_yes_levels v) \<and> levels_ok (vw_no_levels v)
    \<and> seq_le (fold orderbook_step frames st) (fold orderbook_step (frames @ later) st)"
proof -
  have st: "orderbook_ok st" by (rule make_orderbook_ok [OF assms(1)])
  let ?of = "\<lambda>s. (ob_expected_sid s, ob_market_ticker s, ob_market_id s)"
  have "?of (orderbook_step x s) = ?of s" for x s
    by (cases x) (auto simp: apply_snapshot_def apply_delta_def invalidate_def Let_def
        split: sum.splits option.splits outcome.splits)
  then have "?of (fold orderbook_step frames st) = ?of st"
    by (induction frames arbitrary: st) simp_all
  moreover have "?of st = (sid, strip ticker, strip mid)"
    using assms(1) by (auto simp: make_orderbook_def ws_positive_integer_def ws_identity_def ws_text_def as_int_def
        as_text_def py_get_or_def res_simps split: prod.splits if_splits)
  ultimately show ?thesis
    using orderbook.run_inv [OF st, of frames] orderbook.run_prefix_le [OF st, of frames later] assms(2)
    by (auto simp: orderbook_ok_def orderbook_view_def split: if_splits)
qed

section \<open>Concrete instances\<close>

definition sample_view :: ob_view where
  "sample_view = \<lparr>vw_sid = 7, vw_seq = 3, vw_market_ticker = ''KX'', vw_market_id = ''m'',
     vw_yes_levels = [(Dec False 40 (-2), Dec False 5 0)], vw_no_levels = []\<rparr>"

definition sample_state :: ob_state where
  "sample_state = \<lparr>ob_expected_sid = 7, ob_market_ticker = ''KX'', ob_market_id = ''m'',
     ob_view_opt = Some sample_view, ob_recovery_opt = None, ob_valid = True\<rparr>"

text \<open>A change at 0.4, which is the book's 0.40.\<close>

definition sample_delta :: "int \<Rightarrow> int \<Rightarrow> ob_delta" where
  "sample_delta sq n = \<lparr>dl_sid = 7, dl_seq = sq, dl_market_ticker = ''KX'', dl_market_id = ''m'',
     dl_price = Dec False 4 (-1), dl_delta = Dec (n < 0) (nat \<bar>n\<bar>) (-2), dl_side = Yes,
     dl_client_order_id = None, dl_subaccount = None, dl_timestamp_ms = None\<rparr>"

lemmas sample_defs = sample_state_def sample_view_def sample_delta_def orderbook_ok_def delta_ok_def
  levels_ok_def level_ok_def count_quantum_def dollar_quantum_def dval_Dec

lemma sample_fields:
  "dl_sid (sample_delta sq n) = 7" "dl_seq (sample_delta sq n) = sq"
  "dl_market_ticker (sample_delta sq n) = ''KX''" "dl_market_id (sample_delta sq n) = ''m''"
  "dl_side (sample_delta sq n) = Yes" "vw_sid sample_view = 7" "vw_seq sample_view = 3"
  "vw_market_ticker sample_view = ''KX''" "vw_market_id sample_view = ''m''"
  "ob_valid sample_state"
  by (simp_all add: sample_delta_def sample_view_def sample_state_def)

lemma sample_state_ok: "orderbook_ok sample_state"
  by (simp add: sample_defs)

lemma sample_state_view:
  "ob_view_opt sample_state = Some sample_view" "orderbook_view sample_state = Some sample_view"
  by (simp_all add: sample_state_def orderbook_view_def)

lemma sample_delta_ok: "0 < sq \<Longrightarrow> delta_ok (sample_delta sq n)"
  by (simp add: sample_defs)

lemma sample_book: "abs_book sample_view side x = (if side = Yes \<and> x = 2 / 5 then 5 else 0)"
  by (cases side) (auto simp: sample_defs abs_book_def target_levels_def)

lemma sample_delta_values:
  "dval (dl_price (sample_delta 4 (-500))) = 2 / 5" "dval (dl_delta (sample_delta 4 (-500))) = -5"
  by (simp_all add: sample_defs)

lemma sample_apply:
  obtains w st where "apply_delta (sample_delta 4 (-500)) sample_state = (Inr w, st)"
proof -
  have "delta_quantity (target_levels sample_view Yes) (sample_delta 4 (-500)) = Dec False 0 (-2)"
    by (simp add: delta_quantity_def target_levels_def sample_view_def sample_delta_def dval_Dec
        dec_add_def dec_add_exact_def dunits_def dnum_def dec_fix_exact default_prec_def ndigits.simps)
  then have "\<exists>w. fst (apply_delta (sample_delta 4 (-500)) sample_state) = Inr w"
    by (simp add: apply_delta_def sample_state_view Let_def sample_fields dval_Dec)
  then show thesis using that by (metis prod.collapse)
qed

lemma delta_refines_abstract_book_witness:
  "\<exists>w st. apply_delta (sample_delta 4 (-500)) sample_state = (Inr w, st)
     \<and> abs_book w = abs_delta (sample_delta 4 (-500)) (abs_book sample_view)
     \<and> orderbook_view st = Some w"
proof -
  obtain w st where a: "apply_delta (sample_delta 4 (-500)) sample_state = (Inr w, st)"
    by (rule sample_apply)
  then show ?thesis
    using delta_refines_abstract_book [OF sample_state_ok sample_delta_ok sample_state_view(1) a]
    by (simp add: sample_book sample_delta_values quantity_limit_def)
qed

lemma replay_sums_deltas_witness:
  "\<exists>w st. orderbook_view st = Some w \<and> vw_seq w = 4
    \<and> (\<forall>side x. abs_book w side x = abs_book sample_view side x + net_delta [sample_delta 4 (-500)] side x)"
proof -
  obtain w st where "apply_delta (sample_delta 4 (-500)) sample_state = (Inr w, st)"
    by (rule sample_apply)
  then have "replays sample_state [sample_delta 4 (-500)] st"
    by (rule replays.step [OF _ replays.none])
  moreover have "abs_book sample_view side x + turnover [sample_delta 4 (-500)] < quantity_limit" for side x
    by (simp add: turnover_def sample_delta_values sample_book quantity_limit_def)
  moreover have "vw_seq sample_view = 3" by (simp add: sample_view_def)
  ultimately show ?thesis
    using replay_sums_deltas [OF _ sample_state_ok sample_state_view(2), of "[sample_delta 4 (-500)]" st]
    by (auto simp: sample_delta_ok)
qed

lemma discontinuity_withdraws_book_witness:
  "orderbook_view (fold (\<lambda>p. orderbook_step (DeltaFrame p)) [[]]
     (snd (apply_delta (sample_delta 6 100) sample_state))) = None"
proof -
  have "orderbook_view sample_state = ob_view_opt sample_state"
    "\<not> is_ok (fst (apply_delta (sample_delta 6 100) sample_state))"
    by (simp_all add: orderbook_view_def apply_delta_def sample_state_def sample_delta_def sample_view_def)
  then show ?thesis
    using discontinuity_withdraws_book [OF sample_state_ok sample_state_view(2), of "sample_delta 6 100" "[[]]"]
    by (simp add: sample_view_def sample_delta_def)
qed

lemma recovery_needs_newer_snapshot_witness:
  "orderbook_view (snd (apply_snapshot
      \<lparr>sn_sid = 7, sn_seq = 3, sn_market_ticker = ''KX'', sn_market_id = ''m'', sn_yes_levels = [],
       sn_no_levels = []\<rparr> (invalidate sample_state))) = None"
  by (subst recovery_needs_newer_snapshot [OF invalidate_ok [OF sample_state_ok], of sample_view])
    (simp_all add: invalidate_def sample_state_def sample_view_def)

lemma sample_numbers:
  "parse_decimal ''0.5'' = Some (Fin (Dec False 5 (-1)))" "parse_decimal ''3'' = Some (Fin (Dec False 3 0))"
  "parse_decimal ''0.40'' = Some (Fin (Dec False 40 (-2)))" "parse_decimal ''5.00'' = Some (Fin (Dec False 500 (-2)))"
  by code_simp+

lemma sample_points:
  "ws_fixed_point (PStr ''0.5'') f dollar_quantum = Inr (Dec False 5 (-1))"
  "ws_fixed_point (PStr ''0.40'') f dollar_quantum = Inr (Dec False 40 (-2))"
  "ws_fixed_point (PStr ''3'') f count_quantum = Inr (Dec False 3 0)"
  "ws_fixed_point (PStr ''5.00'') f count_quantum = Inr (Dec False 500 (-2))"
  by (simp_all add: ws_fixed_point_def as_text_def finite_dec_def sample_numbers dec_quantize_def dec_rescale_def
      dollar_quantum_def count_quantum_def default_prec_def dval_Dec ndigits_le_iff Let_def)

lemma sample_levels:
  "ws_levels [(''market_ticker'', PStr ''KX''), (''market_id'', PStr m),
       (''yes_dollars_fp'', PList [PList [PStr ''0.5'', PStr ''3''], PList [PStr ''0.40'', PStr ''5.00'']])]
     ''yes_dollars_fp'' ''yes'' = Inr [(Dec False 40 (-2), Dec False 500 (-2)), (Dec False 5 (-1), Dec False 3 0)]"
  "ws_levels [(''market_ticker'', PStr ''KX''), (''market_id'', PStr m),
       (''yes_dollars_fp'', PList [PList [PStr ''0.5'', PStr ''3''], PList [PStr ''0.40'', PStr ''5.00'']])]
     ''no_dollars_fp'' ''no'' = Inr []"
  by (simp_all add: ws_levels_def py_get_or_def as_list_def add_level_def raw_level_def sample_points dval_Dec)

text \<open>A frame whose levels come in falling order.\<close>

definition book_market_id :: string where
  "book_market_id = ''01234567-89ab-cdef-0123-456789abcdef''"

definition book_frame :: pydict where
  "book_frame = [(''type'', PStr ''orderbook_snapshot''), (''sid'', PInt 7), (''seq'', PInt 1),
     (''msg'', PDict [(''market_ticker'', PStr ''KX''), (''market_id'', PStr book_market_id),
       (''yes_dollars_fp'', PList [PList [PStr ''0.5'', PStr ''3''], PList [PStr ''0.40'', PStr ''5.00'']])])]"

lemma published_book_is_well_formed_witness:
  "\<exists>st v. make_orderbook 7 '' KX '' book_market_id = Inr st
     \<and> orderbook_view (fold orderbook_step [SnapshotFrame book_frame] st) = Some v
     \<and> vw_market_ticker v = ''KX'' \<and> vw_market_id v = book_market_id
     \<and> vw_yes_levels v = [(Dec False 40 (-2), Dec False 500 (-2)), (Dec False 5 (-1), Dec False 3 0)]
     \<and> levels_ok (vw_yes_levels v)"
proof -
  let ?msg = "[(''market_ticker'', PStr ''KX''), (''market_id'', PStr book_market_id),
       (''yes_dollars_fp'', PList [PList [PStr ''0.5'', PStr ''3''], PList [PStr ''0.40'', PStr ''5.00'']])]"
  have strips: "strip '' KX '' = ''KX''" "strip book_market_id = book_market_id" by code_simp+
  have made: "make_orderbook 7 '' KX '' book_market_id = Inr \<lparr>ob_expected_sid = 7, ob_market_ticker = ''KX'',
      ob_market_id = book_market_id, ob_view_opt = None, ob_recovery_opt = None, ob_valid = False\<rparr>"
    by code_simp
  have "ws_identity ?msg = Inr (''KX'', book_market_id)" by code_simp
  then have "snapshot_from_payload book_frame = Inr \<lparr>sn_sid = 7, sn_seq = 1, sn_market_ticker = ''KX'', sn_market_id = book_market_id,
      sn_yes_levels = [(Dec False 40 (-2), Dec False 500 (-2)), (Dec False 5 (-1), Dec False 3 0)], sn_no_levels = []\<rparr>"
    by (simp add: book_frame_def snapshot_from_payload_def ws_envelope_def ws_positive_integer_def ws_mapping_def py_get_or_def
        as_int_def as_dict_def sample_levels)
  then have "\<exists>v. orderbook_view (fold orderbook_step [SnapshotFrame book_frame] \<lparr>ob_expected_sid = 7, ob_market_ticker = ''KX'',
      ob_market_id = book_market_id, ob_view_opt = None, ob_recovery_opt = None, ob_valid = False\<rparr>) = Some v
      \<and> vw_yes_levels v = [(Dec False 40 (-2), Dec False 500 (-2)), (Dec False 5 (-1), Dec False 3 0)]"
    by (simp add: apply_snapshot_def view_of_snapshot_def orderbook_view_def Let_def)
  then obtain v where "orderbook_view (fold orderbook_step [SnapshotFrame book_frame] \<lparr>ob_expected_sid = 7, ob_market_ticker = ''KX'',
      ob_market_id = book_market_id, ob_view_opt = None, ob_recovery_opt = None, ob_valid = False\<rparr>) = Some v"
    "vw_yes_levels v = [(Dec False 40 (-2), Dec False 500 (-2)), (Dec False 5 (-1), Dec False 3 0)]" by blast
  with published_book_is_well_formed [OF made this(1)] made strips show ?thesis by auto
qed

end
