(* ===== verification/Lifecycle.thy ===== *)
theory Lifecycle
  imports KalshiClient Orderbook "HOL-Library.AList"
begin

text \<open>
  \<open>services/venues/kalshi_v2_ws_lifecycle.py\<close>: one WebSocket connection at a time, its
  epoch, the three subscriptions and their acknowledgements, the orderbook behind them, and
  the watermark a recovery snapshot has to reach. A Python \<open>dict\<close> is an association list.
\<close>

definition lc_positive_integer :: "pyval \<Rightarrow> string \<Rightarrow> int res" where
  "lc_positive_integer v field =
     bindE (as_int v (KalshiWSLifecycleError (field @ '' must be a positive integer''))) (\<lambda>i.
     if i \<le> 0 then Inl (KalshiWSLifecycleError (field @ '' must be a positive integer'')) else Inr i)"

definition lc_mapping :: "pyval \<Rightarrow> string \<Rightarrow> pydict res" where
  "lc_mapping v field = as_dict v (KalshiWSLifecycleError (field @ '' must be an object''))"

definition lc_text :: "pyval \<Rightarrow> string \<Rightarrow> string res" where
  "lc_text v field =
     bindE (as_text v (KalshiWSLifecycleError (field @ '' must be a non-empty string''))) (\<lambda>s.
     if strip s = [] then Inl (KalshiWSLifecycleError (field @ '' must be a non-empty string''))
     else Inr (strip s))"

record ws_subscribed =
  ws_command_id :: int
  ws_channel :: string
  ws_sid :: int

definition subscribed_from_payload :: "pydict \<Rightarrow> ws_subscribed res" where
  "subscribed_from_payload p =
     (if py_get p ''type'' \<noteq> PStr ''subscribed''
      then Inl (KalshiWSLifecycleError (''subscription response type must be '' @ repr_str ''subscribed'')) else
      bindE (lc_mapping (py_get p ''msg'') ''subscription msg'') (\<lambda>message.
      bindE (lc_positive_integer (py_get p ''id'') ''subscription command id'') (\<lambda>command_id.
      bindE (lc_text (py_get message ''channel'') ''subscription channel'') (\<lambda>channel.
      bindE (lc_positive_integer (py_get message ''sid'') ''subscription sid'') (\<lambda>sid.
      Inr \<lparr>ws_command_id = command_id, ws_channel = channel, ws_sid = sid\<rparr>)))))"

record ws_error_response =
  we_command_id :: int
  we_code :: int
  we_message :: string

definition error_from_payload :: "pydict \<Rightarrow> ws_error_response res" where
  "error_from_payload p =
     (if py_get p ''type'' \<noteq> PStr ''error''
      then Inl (KalshiWSLifecycleError (''error response type must be '' @ repr_str ''error'')) else
      bindE (lc_mapping (py_get p ''msg'') ''error msg'') (\<lambda>message.
      bindE (lc_positive_integer (py_get message ''code'') ''error code'') (\<lambda>code.
      if 28 < code then Inl (KalshiWSLifecycleError ''error code must be between 1 and 28'') else
      bindE (lc_positive_integer (py_get p ''id'') ''error command id'') (\<lambda>command_id.
      bindE (lc_text (py_get message ''msg'') ''error message'') (\<lambda>m.
      Inr \<lparr>we_command_id = command_id, we_code = code, we_message = m\<rparr>)))))"

record ws_subscription_command =
  sc_command_id :: int
  sc_channel :: string
  sc_payload :: pydict

record ws_instructions =
  in_epoch_id :: int
  in_timestamp_ms :: int
  in_url :: string
  in_headers :: headers
  in_subscriptions :: "ws_subscription_command list"

definition channels :: "string list" where
  "channels = [''orderbook_delta'', ''user_orders'', ''fill'']"

record 'k lifecycle =
  lc_signer :: "'k signer"
  lc_market_ticker :: string
  lc_market_id :: string
  lc_epoch_counter :: int
  lc_command_counter :: int
  lc_last_timestamp_ms :: int
  lc_current_epoch_id :: "int option"
  lc_epoch_commands :: "(int \<times> string) list"
  lc_pending :: "(int \<times> string) list"
  lc_acknowledged :: "(string \<times> int) list"
  lc_early_snapshot :: "ob_snapshot option"
  lc_orderbook_state :: "ob_state option"
  lc_minimum_recovery_sequence :: "int option"
  lc_terminal_reason :: "string option"

text \<open>\<open>str(exc)\<close> of the exceptions the module converts.\<close>

fun exn_text :: "exn \<Rightarrow> string" where
  "exn_text (KalshiWSProtocolError m) = m"
| "exn_text (KalshiWSContinuityError m) = m"
| "exn_text (KalshiWSLifecycleError m) = m"
| "exn_text (ValueError m) = m"
| "exn_text _ = []"

definition make_lifecycle :: "'k signer \<Rightarrow> string \<Rightarrow> string \<Rightarrow> 'k lifecycle res" where
  "make_lifecycle s market_ticker market_id =
     bindE (catchE (make_orderbook 1 market_ticker market_id)
       (\<lambda>e. if is_value_error e then Some (Inl (KalshiWSLifecycleError (exn_text e))) else None)) (\<lambda>_.
     Inr \<lparr>lc_signer = s, lc_market_ticker = market_ticker, lc_market_id = market_id,
       lc_epoch_counter = 0, lc_command_counter = 0, lc_last_timestamp_ms = 0,
       lc_current_epoch_id = None, lc_epoch_commands = [], lc_pending = [], lc_acknowledged = [],
       lc_early_snapshot = None, lc_orderbook_state = None, lc_minimum_recovery_sequence = None,
       lc_terminal_reason = None\<rparr>)"

definition orderbook_publishable :: "'k lifecycle \<Rightarrow> bool" where
  "orderbook_publishable lc =
     (lc_current_epoch_id lc \<noteq> None \<and> lc_terminal_reason lc = None
      \<and> length (lc_acknowledged lc) = length channels
      \<and> (case lc_orderbook_state lc of None \<Rightarrow> False | Some ob \<Rightarrow> ob_valid ob))"

definition lc_orderbook_view :: "'k lifecycle \<Rightarrow> ob_view option" where
  "lc_orderbook_view lc =
     (if \<not> orderbook_publishable lc then None
      else case lc_orderbook_state lc of None \<Rightarrow> None | Some ob \<Rightarrow> orderbook_view ob)"

section \<open>Transitions\<close>

definition lc_clear :: "'k lifecycle \<Rightarrow> 'k lifecycle" where
  "lc_clear lc = lc\<lparr>lc_epoch_commands := [], lc_pending := [], lc_acknowledged := [],
     lc_early_snapshot := None, lc_orderbook_state := None, lc_minimum_recovery_sequence := None\<rparr>"

definition lc_terminate :: "string \<Rightarrow> 'k lifecycle \<Rightarrow> 'k lifecycle" where
  "lc_terminate reason lc = lc_clear (lc\<lparr>lc_terminal_reason := Some reason, lc_current_epoch_id := None\<rparr>)"

text \<open>The body of the \<open>for channel in _CHANNELS\<close> loop.\<close>

definition subscribe_command :: "string \<Rightarrow> int \<Rightarrow> string \<Rightarrow> ws_subscription_command" where
  "subscribe_command ticker command_id channel =
     \<lparr>sc_command_id = command_id, sc_channel = channel,
      sc_payload = [(''id'', PInt command_id), (''cmd'', PStr ''subscribe''),
        (''params'', PDict ((''channels'', PList [PStr channel])
           # (if channel = ''orderbook_delta'' then [(''market_ticker'', PStr ticker)] else [])))]\<rparr>"

fun subscribe_all :: "string list \<Rightarrow> 'k lifecycle \<Rightarrow> ws_subscription_command list \<times> 'k lifecycle" where
  "subscribe_all [] lc = ([], lc)"
| "subscribe_all (channel # cs) lc =
     (let n = lc_command_counter lc + 1;
          lc' = lc\<lparr>lc_command_counter := n,
            lc_epoch_commands := AList.update n channel (lc_epoch_commands lc),
            lc_pending := AList.update n channel (lc_pending lc)\<rparr>;
          (commands, lc'') = subscribe_all cs lc'
      in (subscribe_command (lc_market_ticker lc) n channel # commands, lc''))"

definition begin_connection ::
    "('k \<Rightarrow> string \<Rightarrow> string) \<Rightarrow> int \<Rightarrow> ('k lifecycle, ws_instructions) action" where
  "begin_connection sign timestamp_ms lc =
     (if timestamp_ms \<le> 0
      then (Inl (KalshiWSLifecycleError ''timestamp_ms must be a positive integer''), lc)
      else if timestamp_ms \<le> lc_last_timestamp_ms lc
      then (Inl (KalshiWSLifecycleError ''connection timestamp_ms must strictly increase''), lc)
      else
      let n = lc_epoch_counter lc + 1;
          lc' = lc_clear (lc\<lparr>lc_last_timestamp_ms := timestamp_ms, lc_epoch_counter := n,
            lc_current_epoch_id := Some n, lc_terminal_reason := None\<rparr>);
          (commands, lc'') = subscribe_all channels lc'
      in case signed_headers sign (lc_signer lc'') timestamp_ms ''GET'' ws_path of
          Inl e \<Rightarrow> (Inl e, lc'')
        | Inr hs \<Rightarrow>
            (Inr \<lparr>in_epoch_id = n, in_timestamp_ms = timestamp_ms, in_url = production_ws_url,
               in_headers = hs, in_subscriptions = commands\<rparr>, lc''))"

definition require_epoch :: "int \<Rightarrow> 'k lifecycle \<Rightarrow> unit res" where
  "require_epoch epoch_id lc =
     (case lc_current_epoch_id lc of
        None \<Rightarrow> Inl (KalshiWSLifecycleError ''no active connection epoch'')
      | Some e \<Rightarrow>
          if epoch_id \<noteq> e
          then Inl (KalshiWSLifecycleError ''frame does not belong to the current connection epoch'')
          else if lc_terminal_reason lc \<noteq> None
          then Inl (KalshiWSLifecycleError ''current connection epoch is terminal'')
          else Inr ())"

text \<open>\<open>self._terminate(reason); raise KalshiWSLifecycleError(message)\<close>\<close>

definition fail_epoch :: "string \<Rightarrow> string \<Rightarrow> ('k lifecycle, 'a) action" where
  "fail_epoch reason m lc = (Inl (KalshiWSLifecycleError m), lc_terminate reason lc)"

definition receive_subscribed :: "int \<Rightarrow> ws_subscribed \<Rightarrow> ('k lifecycle, unit) action" where
  "receive_subscribed epoch_id r lc =
     (case require_epoch epoch_id lc of
        Inl e \<Rightarrow> (Inl e, lc)
      | Inr _ \<Rightarrow>
     case map_of (lc_pending lc) (ws_command_id r) of
        None \<Rightarrow>
          if map_of (lc_epoch_commands lc) (ws_command_id r) \<noteq> None
          then fail_epoch ''invalid_subscription_acknowledgement''
                 ''subscription command was already acknowledged'' lc
          else fail_epoch ''invalid_subscription_acknowledgement''
                 ''subscription acknowledgement has an unknown command id'' lc
      | Some expected \<Rightarrow>
          if ws_channel r \<noteq> expected
          then fail_epoch ''invalid_subscription_acknowledgement''
                 ''subscription acknowledgement channel does not match its command'' lc
          else if map_of (lc_acknowledged lc) (ws_channel r) \<noteq> None
          then fail_epoch ''invalid_subscription_acknowledgement''
                 ''subscription channel was already acknowledged'' lc
          else
          let lc' = lc\<lparr>lc_pending := AList.delete (ws_command_id r) (lc_pending lc),
                lc_acknowledged := AList.update (ws_channel r) (ws_sid r) (lc_acknowledged lc)\<rparr>
          in if ws_channel r \<noteq> ''orderbook_delta'' then (Inr (), lc')
          else case make_orderbook (ws_sid r) (lc_market_ticker lc) (lc_market_id lc) of
              Inl e \<Rightarrow> (Inl e, lc')
            | Inr st \<Rightarrow>
                (case lc_early_snapshot lc' of
                   None \<Rightarrow> (Inr (), lc'\<lparr>lc_orderbook_state := Some st\<rparr>)
                 | Some s \<Rightarrow>
                     (case apply_snapshot s st of
                        (Inl e, _) \<Rightarrow> fail_epoch ''invalid_orderbook_snapshot'' (exn_text e) lc'
                      | (Inr _, st') \<Rightarrow>
                          (Inr (), lc'\<lparr>lc_early_snapshot := None, lc_orderbook_state := Some st'\<rparr>))))"

definition snapshot_eq :: "ob_snapshot \<Rightarrow> ob_snapshot \<Rightarrow> bool" where
  "snapshot_eq s t = view_eq (view_of_snapshot s) (view_of_snapshot t)"

text \<open>\<open>self._acknowledged["orderbook_delta"]\<close>\<close>

definition expected_sid :: "'k lifecycle \<Rightarrow> int res" where
  "expected_sid lc = (case map_of (lc_acknowledged lc) ''orderbook_delta'' of
     None \<Rightarrow> Inl (KeyError ''orderbook_delta'') | Some sid \<Rightarrow> Inr sid)"

definition receive_snapshot :: "int \<Rightarrow> ob_snapshot \<Rightarrow> ('k lifecycle, ob_view option) action" where
  "receive_snapshot epoch_id s lc =
     (case require_epoch epoch_id lc of
        Inl e \<Rightarrow> (Inl e, lc)
      | Inr _ \<Rightarrow>
     if sn_market_ticker s \<noteq> lc_market_ticker lc \<or> sn_market_id s \<noteq> lc_market_id lc
     then fail_epoch ''invalid_orderbook_identity'' ''snapshot does not match the active subscription'' lc
     else case lc_orderbook_state lc of
        None \<Rightarrow>
          if (case lc_early_snapshot lc of None \<Rightarrow> False | Some t \<Rightarrow> \<not> snapshot_eq t s)
          then fail_epoch ''conflicting_early_orderbook_snapshot''
                 ''conflicting orderbook snapshots arrived before acknowledgement'' lc
          else (Inr None, lc\<lparr>lc_early_snapshot := Some s\<rparr>)
      | Some st \<Rightarrow>
     case expected_sid lc of
        Inl e \<Rightarrow> (Inl e, lc)
      | Inr sid \<Rightarrow>
          if sn_sid s \<noteq> sid
          then fail_epoch ''invalid_orderbook_identity''
                 ''snapshot does not match the active subscription'' lc
          else if (case lc_minimum_recovery_sequence lc of None \<Rightarrow> False | Some m \<Rightarrow> sn_seq s < m)
          then (Inl (KalshiWSLifecycleError
                 ''recovery snapshot does not advance through the observed gap''), lc)
          else case apply_snapshot s st of
              (Inl e, st') \<Rightarrow>
                if ob_valid st then fail_epoch ''invalid_orderbook_snapshot'' (exn_text e) lc
                else (Inl (KalshiWSLifecycleError (exn_text e)), lc\<lparr>lc_orderbook_state := Some st'\<rparr>)
            | (Inr v, st') \<Rightarrow>
                (Inr (Some v), lc\<lparr>lc_orderbook_state := Some st', lc_minimum_recovery_sequence := None\<rparr>))"

definition receive_delta :: "int \<Rightarrow> ob_delta \<Rightarrow> ('k lifecycle, ob_view) action" where
  "receive_delta epoch_id d lc =
     (case require_epoch epoch_id lc of
        Inl e \<Rightarrow> (Inl e, lc)
      | Inr _ \<Rightarrow>
     case lc_orderbook_state lc of
        None \<Rightarrow> (Inl (KalshiWSLifecycleError
            ''orderbook subscription acknowledgement and snapshot are required''), lc)
      | Some st \<Rightarrow>
     case expected_sid lc of
        Inl e \<Rightarrow> (Inl e, lc)
      | Inr sid \<Rightarrow>
     if dl_sid d \<noteq> sid \<or> dl_market_ticker d \<noteq> lc_market_ticker lc \<or> dl_market_id d \<noteq> lc_market_id lc
     then fail_epoch ''invalid_orderbook_identity'' ''delta does not match the active subscription'' lc
     else
     let m1 = (case lc_minimum_recovery_sequence lc of None \<Rightarrow> None | Some m \<Rightarrow> Some (max m (dl_seq d)));
         current = orderbook_view st;
         m2 = (case current of
                 Some v \<Rightarrow> if dl_seq d \<noteq> vw_seq v + 1 then Some (max (vw_seq v + 1) (dl_seq d)) else m1
               | None \<Rightarrow> m1)
     in case apply_delta d st of
         (Inr v, st') \<Rightarrow> (Inr v, lc\<lparr>lc_minimum_recovery_sequence := m2, lc_orderbook_state := Some st'\<rparr>)
       | (Inl e, st') \<Rightarrow>
           let m3 = (case current of
                 None \<Rightarrow> m2
               | Some v \<Rightarrow>
                   let r = max (vw_seq v + 1) (dl_seq d)
                   in Some (max (case m2 of None \<Rightarrow> r | Some m \<Rightarrow> if m = 0 then r else m) r))
           in (Inl (KalshiWSLifecycleError (exn_text e)),
               lc\<lparr>lc_minimum_recovery_sequence := m3, lc_orderbook_state := Some st'\<rparr>))"

definition lc_recovery_command :: "('k lifecycle, pydict) action" where
  "lc_recovery_command lc =
     (case (lc_current_epoch_id lc, lc_orderbook_state lc) of
        (Some _, Some st) \<Rightarrow>
          (case ob_recovery_opt st of
             None \<Rightarrow> (Inl (KalshiWSLifecycleError ''orderbook recovery is not required''), lc)
           | Some r \<Rightarrow>
               let n = lc_command_counter lc + 1
               in (recovery_command r n, lc\<lparr>lc_command_counter := n\<rparr>))
      | _ \<Rightarrow> (Inl (KalshiWSLifecycleError ''no active orderbook recovery is available''), lc))"

definition receive_error :: "int \<Rightarrow> ws_error_response \<Rightarrow> ('k lifecycle, unit) action" where
  "receive_error epoch_id r lc =
     (case require_epoch epoch_id lc of
        Inl e \<Rightarrow> (Inl e, lc)
      | Inr _ \<Rightarrow>
          if map_of (lc_epoch_commands lc) (we_command_id r) = None
          then fail_epoch ''invalid_error_correlation'' ''error response has an unknown command id'' lc
          else (Inr (), lc_terminate (''kalshi_ws_error:'' @ int_str (we_code r)) lc))"

definition terminate_epoch :: "int \<Rightarrow> string \<Rightarrow> ('k lifecycle, unit) action" where
  "terminate_epoch epoch_id reason lc =
     (case require_epoch epoch_id lc of
        Inl e \<Rightarrow> (Inl e, lc)
      | Inr _ \<Rightarrow>
          if strip reason = []
          then (Inl (KalshiWSLifecycleError ''termination reason must be a non-empty string''), lc)
          else (Inr (), lc_terminate (strip reason) lc))"

definition disconnect :: "int \<Rightarrow> ('k lifecycle, unit) action" where
  "disconnect epoch_id = terminate_epoch epoch_id ''disconnected''"

text \<open>The properties of the class that never hold, in any state.\<close>

definition retry_allowed :: "'k lifecycle \<Rightarrow> bool" where "retry_allowed lc = False"
definition private_stream_healthy :: "'k lifecycle \<Rightarrow> bool" where "private_stream_healthy lc = False"
definition connection_healthy :: "'k lifecycle \<Rightarrow> bool" where "connection_healthy lc = False"

section \<open>The invariant\<close>

text \<open>The channels that wait for an acknowledgement and those that have one partition the three.\<close>

definition subscriptions_ok :: "(int \<times> string) list \<Rightarrow> (string \<times> int) list \<Rightarrow> bool" where
  "subscriptions_ok pending acknowledged =
     (distinct (map fst pending) \<and> distinct (map snd pending @ map fst acknowledged)
      \<and> set (map snd pending @ map fst acknowledged) = set channels)"

text \<open>
  The watermark exists exactly while a book that was published is withdrawn, and lies
  beyond the last sequence number applied.
\<close>

definition watermark_ok :: "ob_state \<Rightarrow> int option \<Rightarrow> bool" where
  "watermark_ok st minimum =
     (case ob_view_opt st of
        None \<Rightarrow> minimum = None
      | Some v \<Rightarrow> if ob_valid st then minimum = None
                  else (case minimum of None \<Rightarrow> False | Some m \<Rightarrow> vw_seq v < m))"

definition epoch_ok :: "'k lifecycle \<Rightarrow> bool" where
  "epoch_ok lc =
     (subscriptions_ok (lc_pending lc) (lc_acknowledged lc)
      \<and> (case lc_orderbook_state lc of
           None \<Rightarrow> map_of (lc_acknowledged lc) ''orderbook_delta'' = None
             \<and> lc_minimum_recovery_sequence lc = None
         | Some st \<Rightarrow> orderbook_ok st \<and> lc_early_snapshot lc = None
             \<and> map_of (lc_acknowledged lc) ''orderbook_delta'' = Some (ob_expected_sid st)
             \<and> watermark_ok st (lc_minimum_recovery_sequence lc))
      \<and> (case lc_early_snapshot lc of None \<Rightarrow> True | Some s \<Rightarrow> snapshot_ok s))"

definition lifecycle_ok :: "'k lifecycle \<Rightarrow> bool" where
  "lifecycle_ok lc =
     (is_ok (make_orderbook 1 (lc_market_ticker lc) (lc_market_id lc))
      \<and> 0 \<le> lc_epoch_counter lc \<and> 0 \<le> lc_command_counter lc \<and> 0 \<le> lc_last_timestamp_ms lc
      \<and> (case lc_current_epoch_id lc of
           None \<Rightarrow> lc_epoch_commands lc = [] \<and> lc_pending lc = [] \<and> lc_acknowledged lc = []
             \<and> lc_early_snapshot lc = None \<and> lc_orderbook_state lc = None
             \<and> lc_minimum_recovery_sequence lc = None
         | Some e \<Rightarrow> e = lc_epoch_counter lc \<and> lc_terminal_reason lc = None \<and> epoch_ok lc))"

lemma make_lifecycle_ok: "make_lifecycle s t m = Inr lc \<Longrightarrow> lifecycle_ok lc"
  by (cases "make_orderbook 1 t m")
    (auto simp: make_lifecycle_def lifecycle_ok_def split: if_splits)

lemma lc_terminate_fields [simp]:
  "lc_market_ticker (lc_terminate r lc) = lc_market_ticker lc"
  "lc_market_id (lc_terminate r lc) = lc_market_id lc"
  "lc_epoch_counter (lc_terminate r lc) = lc_epoch_counter lc"
  "lc_command_counter (lc_terminate r lc) = lc_command_counter lc"
  "lc_last_timestamp_ms (lc_terminate r lc) = lc_last_timestamp_ms lc"
  "lc_current_epoch_id (lc_terminate r lc) = None"
  "lc_terminal_reason (lc_terminate r lc) = Some r"
  by (simp_all add: lc_terminate_def lc_clear_def)

lemma lc_terminate_ok: "lifecycle_ok lc \<Longrightarrow> lifecycle_ok (lc_terminate r lc)"
  by (simp add: lifecycle_ok_def lc_terminate_def lc_clear_def)

lemma fail_epoch_ok: "lifecycle_ok lc \<Longrightarrow> lifecycle_ok (snd (fail_epoch r m lc))"
  by (simp add: fail_epoch_def lc_terminate_ok)

lemma require_epoch_Inr [res_simps]:
  "require_epoch e lc = Inr u \<longleftrightarrow> lc_current_epoch_id lc = Some e \<and> lc_terminal_reason lc = None"
  by (auto simp: require_epoch_def split: option.splits)

lemma lifecycle_ok_current:
  "lifecycle_ok lc \<Longrightarrow> lc_current_epoch_id lc = Some e \<Longrightarrow>
     require_epoch e lc = Inr () \<and> epoch_ok lc \<and> e = lc_epoch_counter lc"
  by (simp add: lifecycle_ok_def require_epoch_Inr)

text \<open>An update of the components of an open epoch that keeps \<open>epoch_ok\<close> keeps the invariant.\<close>

lemma lifecycle_ok_update:
  assumes "lifecycle_ok lc" "lc_current_epoch_id lc = Some e" "epoch_ok lc'"
    and "lc_market_ticker lc' = lc_market_ticker lc" "lc_market_id lc' = lc_market_id lc"
    and "lc_epoch_counter lc' = lc_epoch_counter lc"
    and "lc_command_counter lc \<le> lc_command_counter lc'"
    and "lc_last_timestamp_ms lc' = lc_last_timestamp_ms lc"
    and "lc_current_epoch_id lc' = Some e" "lc_terminal_reason lc' = lc_terminal_reason lc"
  shows "lifecycle_ok lc'"
  using assms by (simp add: lifecycle_ok_def)

section \<open>Every transition keeps it\<close>

lemma begin_connection_state:
  assumes "0 < ts" "lc_last_timestamp_ms lc < ts"
  shows "snd (begin_connection sign ts lc) =
    (let n = lc_command_counter lc in
     lc\<lparr>lc_last_timestamp_ms := ts, lc_epoch_counter := lc_epoch_counter lc + 1,
       lc_current_epoch_id := Some (lc_epoch_counter lc + 1), lc_terminal_reason := None,
       lc_command_counter := n + 3,
       lc_epoch_commands := [(n + 1, ''orderbook_delta''), (n + 2, ''user_orders''), (n + 3, ''fill'')],
       lc_pending := [(n + 1, ''orderbook_delta''), (n + 2, ''user_orders''), (n + 3, ''fill'')],
       lc_acknowledged := [], lc_early_snapshot := None, lc_orderbook_state := None,
       lc_minimum_recovery_sequence := None\<rparr>)"
  using assms
  by (simp add: begin_connection_def channels_def lc_clear_def Let_def split: sum.splits)

lemma begin_connection_ok: "lifecycle_ok lc \<Longrightarrow> lifecycle_ok (snd (begin_connection sign ts lc))"
proof (cases "0 < ts \<and> lc_last_timestamp_ms lc < ts")
  case True
  assume "lifecycle_ok lc"
  with True show ?thesis
    by (simp add: begin_connection_state lifecycle_ok_def epoch_ok_def subscriptions_ok_def
        channels_def Let_def)
next
  case False
  assume "lifecycle_ok lc"
  with False show ?thesis by (auto simp: begin_connection_def)
qed

lemma alist_update_fresh: "k \<notin> fst ` set al \<Longrightarrow> AList.update k v al = al @ [(k, v)]"
  by (induction al) auto

text \<open>An acknowledgement moves one channel across a partition into waiting and acknowledged ones.\<close>

lemma partition_acknowledge:
  assumes d: "distinct (map fst pending)" and dd: "distinct (map snd pending @ map fst acknowledged)"
    and n: "map_of pending n = Some c"
  shows "distinct (map fst (AList.delete n pending))"
    and "distinct (map snd (AList.delete n pending) @ map fst (AList.update c sid acknowledged))"
    and "set (map snd (AList.delete n pending) @ map fst (AList.update c sid acknowledged))
      = set (map snd pending @ map fst acknowledged)"
    and "AList.update c sid acknowledged = acknowledged @ [(c, sid)]"
proof -
  have mem: "(n, c) \<in> set pending" using n by (rule map_of_SomeD)
  then have img: "c \<in> snd ` set pending" by force
  from mem have fresh: "c \<notin> fst ` set acknowledged" using dd by force
  then show update: "AList.update c sid acknowledged = acknowledged @ [(c, sid)]" by (rule alist_update_fresh)
  have "snd ` set (AList.delete n pending) = snd ` set pending - {c}"
  proof -
    have "k = n \<longleftrightarrow> x = c" if "(k, x) \<in> set pending" for k x
      using that mem d dd by (metis distinct_append distinct_map eq_key_imp_eq_value fst_conv
          inj_on_eq_iff snd_conv)
    then show ?thesis by (force simp: AList.delete_eq)
  qed
  moreover have "distinct (map snd (AList.delete n pending))" "distinct (map fst (AList.delete n pending))"
    using d dd by (simp_all add: AList.delete_eq distinct_map_filter)
  ultimately show "distinct (map fst (AList.delete n pending))"
    "distinct (map snd (AList.delete n pending) @ map fst (AList.update c sid acknowledged))"
    "set (map snd (AList.delete n pending) @ map fst (AList.update c sid acknowledged))
      = set (map snd pending @ map fst acknowledged)"
    using dd fresh img unfolding update by auto
qed

lemma subscriptions_ok_acknowledge:
  assumes "subscriptions_ok pending acknowledged" "map_of pending n = Some c"
  shows "subscriptions_ok (AList.delete n pending) (AList.update c sid acknowledged)"
  using assms partition_acknowledge [where pending = pending and acknowledged = acknowledged and n = n and c = c]
  unfolding subscriptions_ok_def by metis

text \<open>A constructed orderbook has the sid it was given and the market of the lifecycle.\<close>

lemma make_orderbook_Inr:
  "make_orderbook sid t m = Inr st \<Longrightarrow>
     ob_expected_sid st = sid \<and> ob_view_opt st = None \<and> \<not> ob_valid st
     \<and> orderbook_ok st"
  using make_orderbook_ok [of sid t m st]
  by (auto simp: make_orderbook_def ws_positive_integer_def as_int_def res_simps split: prod.splits)

lemma make_orderbook_any_sid:
  "is_ok (make_orderbook 1 t m) \<Longrightarrow> 0 < sid \<Longrightarrow> is_ok (make_orderbook sid t m)"
  by (auto simp: make_orderbook_def ws_positive_integer_def as_int_def is_ok_iff res_simps)

lemma apply_snapshot_fields:
  "ob_expected_sid (snd (apply_snapshot s st)) = ob_expected_sid st"
  "apply_snapshot s st = (Inr v, st') \<Longrightarrow> ob_valid st' \<and> ob_view_opt st' = Some v"
  "apply_snapshot s st = (Inl e, st') \<Longrightarrow> st' = st"
  by (auto simp: apply_snapshot_def Let_def split: option.splits if_splits)

lemma apply_delta_expected_sid: "ob_expected_sid (snd (apply_delta d st)) = ob_expected_sid st"
  by (auto simp: apply_delta_def invalidate_def Let_def split: option.splits outcome.splits)

lemma receive_subscribed_ok:
  assumes lc: "lifecycle_ok lc" and sid: "0 < ws_sid r"
  shows "lifecycle_ok (snd (receive_subscribed e r lc))"
proof (cases "require_epoch e lc")
  case (Inl x)
  then show ?thesis using lc by (simp add: receive_subscribed_def)
next
  case (Inr u)
  then have cur: "lc_current_epoch_id lc = Some e" by (simp add: require_epoch_Inr)
  note ep = lifecycle_ok_current [OF lc cur]
  have bad: "lifecycle_ok (snd (fail_epoch x m lc))" for x m by (rule fail_epoch_ok [OF lc])
  show ?thesis
  proof (cases "map_of (lc_pending lc) (ws_command_id r) = Some (ws_channel r)
      \<and> map_of (lc_acknowledged lc) (ws_channel r) = None")
    case False
    then show ?thesis
      using Inr bad by (auto simp: receive_subscribed_def split: option.splits)
  next
    case True
    let ?lc = "lc\<lparr>lc_pending := AList.delete (ws_command_id r) (lc_pending lc),
       lc_acknowledged := AList.update (ws_channel r) (ws_sid r) (lc_acknowledged lc)\<rparr>"
    have subs: "subscriptions_ok (lc_pending ?lc) (lc_acknowledged ?lc)"
      using ep True by (simp add: epoch_ok_def subscriptions_ok_acknowledge)
    show ?thesis
    proof (cases "ws_channel r = ''orderbook_delta''")
      case False
      then have "epoch_ok ?lc"
        using ep subs by (cases "lc_orderbook_state lc"; cases "lc_early_snapshot lc"; simp add: epoch_ok_def update_conv)
      then have "lifecycle_ok ?lc"
        by (rule lifecycle_ok_update [OF lc cur]) (simp_all add: cur)
      then show ?thesis using True False Inr by (simp add: receive_subscribed_def Let_def)
    next
      case ob: True
      have nob: "lc_orderbook_state lc = None" and nmin: "lc_minimum_recovery_sequence lc = None"
        using ep True ob by (auto simp: epoch_ok_def split: option.splits)
      have early: "case lc_early_snapshot lc of None \<Rightarrow> True | Some s \<Rightarrow> snapshot_ok s"
        using ep by (simp add: epoch_ok_def)
      have "is_ok (make_orderbook (ws_sid r) (lc_market_ticker lc) (lc_market_id lc))"
        using lc sid by (simp add: lifecycle_ok_def make_orderbook_any_sid)
      then obtain st where st: "make_orderbook (ws_sid r) (lc_market_ticker lc) (lc_market_id lc) = Inr st"
        by (auto simp: is_ok_iff)
      note mk = make_orderbook_Inr [OF st]
      have fin: "lifecycle_ok lc'" if "epoch_ok lc'"
        "lc' = ?lc\<lparr>lc_early_snapshot := None, lc_orderbook_state := Some st'\<rparr>" for lc' st'
        by (rule lifecycle_ok_update [OF lc cur that(1)]) (simp_all add: that(2) cur)
      show ?thesis
      proof (cases "lc_early_snapshot lc")
        case None
        then have "epoch_ok (?lc\<lparr>lc_orderbook_state := Some st\<rparr>)"
          using subs mk nmin ob by (simp add: epoch_ok_def update_conv watermark_ok_def)
        then have "lifecycle_ok (?lc\<lparr>lc_orderbook_state := Some st\<rparr>)"
          by (rule lifecycle_ok_update [OF lc cur]) (simp_all add: cur)
        then show ?thesis
          using True ob Inr st None by (simp add: receive_subscribed_def Let_def)
      next
        case (Some s)
        obtain x st' where a: "apply_snapshot s st = (x, st')" by fastforce
        show ?thesis
        proof (cases x)
          case (Inl z)
          have "lifecycle_ok (snd (fail_epoch y m ?lc))" for y m
            using lc by (simp add: fail_epoch_def lc_terminate_def lc_clear_def lifecycle_ok_def)
          then show ?thesis using True ob Inr st Some a Inl by (simp add: receive_subscribed_def Let_def)
        next
          case (Inr v)
          have "orderbook_ok st'"
            using apply_snapshot_ok [of s st] early Some mk a by simp
          then have "epoch_ok (?lc\<lparr>lc_early_snapshot := None, lc_orderbook_state := Some st'\<rparr>)"
            using subs mk nmin ob a Inr apply_snapshot_fields(1) [of s st]
              apply_snapshot_fields(2) [of s st v st']
            by (simp add: epoch_ok_def update_conv watermark_ok_def)
          then show ?thesis
            using fin [OF _ refl, of st'] True ob \<open>require_epoch e lc = Inr u\<close> st Some a Inr
            by (simp add: receive_subscribed_def Let_def)
        qed
      qed
    qed
  qed
qed

lemma apply_snapshot_watermark:
  "apply_snapshot s st = (Inr v, st') \<Longrightarrow> watermark_ok st' None"
  using apply_snapshot_fields(2) [of s st v st'] by (simp add: watermark_ok_def)

lemma receive_snapshot_ok:
  assumes lc: "lifecycle_ok lc" and s: "snapshot_ok s"
  shows "lifecycle_ok (snd (receive_snapshot e s lc))"
proof (cases "require_epoch e lc")
  case (Inl x)
  then show ?thesis using lc by (simp add: receive_snapshot_def)
next
  case (Inr u)
  then have cur: "lc_current_epoch_id lc = Some e" by (simp add: require_epoch_Inr)
  note ep = lifecycle_ok_current [OF lc cur]
  show ?thesis
  proof (cases "lc_orderbook_state lc")
    case None
    then have "epoch_ok (lc\<lparr>lc_early_snapshot := Some s\<rparr>)" using ep s by (simp add: epoch_ok_def)
    then have "lifecycle_ok (lc\<lparr>lc_early_snapshot := Some s\<rparr>)"
      by (rule lifecycle_ok_update [OF lc cur]) (simp_all add: cur)
    then show ?thesis using None Inr by (simp add: receive_snapshot_def fail_epoch_ok [OF lc])
  next
    case (Some st)
    obtain x st' where a: "apply_snapshot s st = (x, st')" by fastforce
    have sid: "expected_sid lc = Inr (ob_expected_sid st)" and st: "orderbook_ok st"
      and early: "lc_early_snapshot lc = None"
      using ep Some by (simp_all add: epoch_ok_def expected_sid_def)
    show ?thesis
    proof (cases x)
      case (Inl z)
      have "st' = st" using apply_snapshot_fields(3) [of s st z st'] a Inl by simp
      then have "lc\<lparr>lc_orderbook_state := Some st'\<rparr> = lc" using Some by simp
      then show ?thesis
        using Some a Inl sid lc \<open>require_epoch e lc = Inr u\<close>
        by (simp add: receive_snapshot_def fail_epoch_ok [OF lc])
    next
      case (Inr v)
      have "orderbook_ok st'" using apply_snapshot_ok [OF s st] a by simp
      then have "epoch_ok (lc\<lparr>lc_orderbook_state := Some st', lc_minimum_recovery_sequence := None\<rparr>)"
        using ep Some early apply_snapshot_watermark [of s st v st'] apply_snapshot_fields(1) [of s st] a Inr
        by (simp add: epoch_ok_def)
      then have "lifecycle_ok (lc\<lparr>lc_orderbook_state := Some st', lc_minimum_recovery_sequence := None\<rparr>)"
        by (rule lifecycle_ok_update [OF lc cur]) (simp_all add: cur)
      then show ?thesis
        using Some a Inr sid lc \<open>require_epoch e lc = Inr u\<close>
        by (simp add: receive_snapshot_def fail_epoch_ok [OF lc])
    qed
  qed
qed

text \<open>The three ways a delta of the acknowledged subscription leaves the book and the watermark.\<close>

lemma receive_delta_state:
  assumes lc: "lifecycle_ok lc" and cur: "lc_current_epoch_id lc = Some e"
    and ob: "lc_orderbook_state lc = Some st"
    and d: "dl_sid d = ob_expected_sid st" "dl_market_ticker d = lc_market_ticker lc"
      "dl_market_id d = lc_market_id lc"
  obtains (accepted) v where "apply_delta d st = (Inr v, st\<lparr>ob_view_opt := Some v\<rparr>)"
      "receive_delta e d lc = (Inr v, lc\<lparr>lc_orderbook_state := Some (st\<lparr>ob_view_opt := Some v\<rparr>)\<rparr>)"
      "ob_valid st" "lc_minimum_recovery_sequence lc = None"
  | (withdrawn) z v where "apply_delta d st = (Inl z, invalidate st)" "ob_view_opt st = Some v" "ob_valid st"
      "receive_delta e d lc = (Inl (KalshiWSLifecycleError (exn_text z)),
         lc\<lparr>lc_orderbook_state := Some (invalidate st),
            lc_minimum_recovery_sequence := Some (max (vw_seq v + 1) (dl_seq d))\<rparr>)"
  | (ignored) z where "apply_delta d st = (Inl z, st)" "\<not> ob_valid st"
      "receive_delta e d lc = (Inl (KalshiWSLifecycleError (exn_text z)),
         lc\<lparr>lc_minimum_recovery_sequence :=
              map_option (\<lambda>m. max m (dl_seq d)) (lc_minimum_recovery_sequence lc)\<rparr>)"
proof -
  note ep = lifecycle_ok_current [OF lc cur]
  then have req: "require_epoch e lc = Inr ()" by blast
  have st: "orderbook_ok st" and w: "watermark_ok st (lc_minimum_recovery_sequence lc)"
    and sid: "expected_sid lc = Inr (ob_expected_sid st)"
    using ep ob by (simp_all add: epoch_ok_def expected_sid_def)
  have same: "lc\<lparr>lc_minimum_recovery_sequence := m, lc_orderbook_state := Some st\<rparr> =
      lc\<lparr>lc_minimum_recovery_sequence := m\<rparr>" for m
    using ob by (cases lc) simp
  have ign: thesis if a: "apply_delta d st = (Inl z, st)" and inv: "\<not> ob_valid st" for z
    by (rule ignored [OF a inv], cases "lc_minimum_recovery_sequence lc")
      (use a inv req ob d sid same in \<open>simp_all add: receive_delta_def orderbook_view_def Let_def\<close>)
  show ?thesis
  proof (cases "ob_view_opt st")
    case None
    then have inv: "\<not> ob_valid st" using st by (simp add: orderbook_ok_def)
    moreover have a: "apply_delta d st =
        (Inl (KalshiWSContinuityError ''orderbook requires a snapshot before any delta''), st)"
      using None by (simp add: apply_delta_def)
    ultimately show ?thesis by (rule ign [rotated])
  next
    case (Some v)
    show ?thesis
    proof (cases "ob_valid st")
      case False
      moreover obtain z where "apply_delta d st = (Inl z, st)"
        using Some False by (cases "dl_sid d = vw_sid v") (simp_all add: apply_delta_def)
      ultimately show ?thesis by (rule ign [rotated])
    next
      case True
      then have m: "lc_minimum_recovery_sequence lc = None" and view: "orderbook_view st = Some v"
        and sidv: "dl_sid d = vw_sid v"
        using w Some st d by (simp_all add: watermark_ok_def orderbook_view_def orderbook_ok_def)
      show ?thesis
      proof (cases rule: apply_delta_cases [OF st, of d])
        case (1 u)
        have "dl_seq d = vw_seq v + 1" using 1(1) Some by (simp add: delta_accepted_def)
        moreover have "lc\<lparr>lc_minimum_recovery_sequence := None\<rparr> = lc" using m by simp
        ultimately show ?thesis
          using accepted [of "view_after d u"] 1(2) True m req ob d sid view
          by (simp add: receive_delta_def Let_def)
      next
        case (2 z)
        then show ?thesis using True d by simp
      next
        case (3 z)
        have "0 < vw_seq v" using st Some by (simp add: orderbook_ok_def)
        then show ?thesis
          using withdrawn [OF 3(1) Some True] 3(1) m req ob d sid view
          by (simp add: receive_delta_def Let_def)
      qed
    qed
  qed
qed

lemma receive_delta_ok:
  assumes lc: "lifecycle_ok lc" and d: "delta_ok d"
  shows "lifecycle_ok (snd (receive_delta e d lc))"
proof (cases "require_epoch e lc")
  case (Inl x)
  then show ?thesis using lc by (simp add: receive_delta_def)
next
  case req: (Inr u)
  then have cur: "lc_current_epoch_id lc = Some e" by (simp add: require_epoch_Inr)
  note ep = lifecycle_ok_current [OF lc cur]
  show ?thesis
  proof (cases "lc_orderbook_state lc")
    case None
    then show ?thesis using req lc by (simp add: receive_delta_def)
  next
    case ob: (Some st)
    then have sid: "expected_sid lc = Inr (ob_expected_sid st)" and st: "orderbook_ok st"
      and early: "lc_early_snapshot lc = None"
      and w: "watermark_ok st (lc_minimum_recovery_sequence lc)"
      using ep by (simp_all add: epoch_ok_def expected_sid_def)
    have upd: "lifecycle_ok (lc\<lparr>lc_orderbook_state := Some st', lc_minimum_recovery_sequence := m\<rparr>)"
      if "orderbook_ok st'" "ob_expected_sid st' = ob_expected_sid st" "watermark_ok st' m" for st' m
    proof (rule lifecycle_ok_update [OF lc cur])
      show "epoch_ok (lc\<lparr>lc_orderbook_state := Some st', lc_minimum_recovery_sequence := m\<rparr>)"
        using ep ob that early by (simp add: epoch_ok_def)
    qed (simp_all add: cur)
    show ?thesis
    proof (cases "dl_sid d = ob_expected_sid st \<and> dl_market_ticker d = lc_market_ticker lc
        \<and> dl_market_id d = lc_market_id lc")
      case False
      then show ?thesis
        using req ob sid by (auto simp: receive_delta_def fail_epoch_ok [OF lc])
    next
      case True
      then have d3: "dl_sid d = ob_expected_sid st" "dl_market_ticker d = lc_market_ticker lc"
        "dl_market_id d = lc_market_id lc" by simp_all
      have keep: "orderbook_ok (snd (apply_delta d st))"
        "ob_expected_sid (snd (apply_delta d st)) = ob_expected_sid st"
        using apply_delta_ok [OF st d] apply_delta_expected_sid by simp_all
      show ?thesis
      proof (cases rule: receive_delta_state [OF lc cur ob d3])
        case (1 v)
        have "watermark_ok (st\<lparr>ob_view_opt := Some v\<rparr>) None"
          using 1 by (simp add: watermark_ok_def)
        then have "lifecycle_ok (lc\<lparr>lc_orderbook_state := Some (st\<lparr>ob_view_opt := Some v\<rparr>),
            lc_minimum_recovery_sequence := None\<rparr>)"
          using keep 1(1) by (intro upd) simp_all
        moreover have "lc\<lparr>lc_orderbook_state := Some (st\<lparr>ob_view_opt := Some v\<rparr>),
            lc_minimum_recovery_sequence := None\<rparr> = lc\<lparr>lc_orderbook_state := Some (st\<lparr>ob_view_opt := Some v\<rparr>)\<rparr>"
          using 1(4) by (cases lc) simp
        ultimately show ?thesis using 1(2) by simp
      next
        case (2 z v)
        have "watermark_ok (invalidate st) (Some (max (vw_seq v + 1) (dl_seq d)))"
          using 2 by (simp add: watermark_ok_def invalidate_def)
        then have "lifecycle_ok (lc\<lparr>lc_orderbook_state := Some (invalidate st),
            lc_minimum_recovery_sequence := Some (max (vw_seq v + 1) (dl_seq d))\<rparr>)"
          using keep 2(1) by (intro upd) simp_all
        then show ?thesis using 2(4) by simp
      next
        case (3 z)
        have "watermark_ok st (map_option (\<lambda>m. max m (dl_seq d)) (lc_minimum_recovery_sequence lc))"
          using w 3(2) by (auto simp: watermark_ok_def split: option.splits)
        then have "lifecycle_ok (lc\<lparr>lc_orderbook_state := Some st, lc_minimum_recovery_sequence :=
            map_option (\<lambda>m. max m (dl_seq d)) (lc_minimum_recovery_sequence lc)\<rparr>)"
          using st by (intro upd) simp_all
        moreover have "lc\<lparr>lc_orderbook_state := Some st, lc_minimum_recovery_sequence :=
            map_option (\<lambda>m. max m (dl_seq d)) (lc_minimum_recovery_sequence lc)\<rparr> =
          lc\<lparr>lc_minimum_recovery_sequence :=
            map_option (\<lambda>m. max m (dl_seq d)) (lc_minimum_recovery_sequence lc)\<rparr>"
          using ob by (cases lc) simp
        ultimately show ?thesis using 3(3) by simp
      qed
    qed
  qed
qed

lemma receive_error_ok: "lifecycle_ok lc \<Longrightarrow> lifecycle_ok (snd (receive_error e r lc))"
  by (simp add: receive_error_def fail_epoch_ok lc_terminate_ok split: sum.splits)

lemma terminate_epoch_ok: "lifecycle_ok lc \<Longrightarrow> lifecycle_ok (snd (terminate_epoch e r lc))"
  by (simp add: terminate_epoch_def lc_terminate_ok split: sum.splits)

lemma recovery_command_ok: "lifecycle_ok lc \<Longrightarrow> lifecycle_ok (snd (lc_recovery_command lc))"
  by (auto simp: lc_recovery_command_def lifecycle_ok_def epoch_ok_def Let_def split: option.splits)

section \<open>The lifecycle as a machine\<close>

datatype lc_op =
    Begin int
  | Subscribed int pydict
  | Snapshot int pydict
  | Delta int pydict
  | ErrorFrame int pydict
  | Terminate int string
  | RecoveryCommand

fun lifecycle_step :: "('k \<Rightarrow> string \<Rightarrow> string) \<Rightarrow> lc_op \<Rightarrow> 'k lifecycle \<Rightarrow> 'k lifecycle" where
  "lifecycle_step sign (Begin ts) lc = snd (begin_connection sign ts lc)"
| "lifecycle_step sign (Subscribed e p) lc =
     (case subscribed_from_payload p of Inl _ \<Rightarrow> lc | Inr r \<Rightarrow> snd (receive_subscribed e r lc))"
| "lifecycle_step sign (Snapshot e p) lc =
     (case snapshot_from_payload p of Inl _ \<Rightarrow> lc | Inr s \<Rightarrow> snd (receive_snapshot e s lc))"
| "lifecycle_step sign (Delta e p) lc =
     (case delta_from_payload p of Inl _ \<Rightarrow> lc | Inr d \<Rightarrow> snd (receive_delta e d lc))"
| "lifecycle_step sign (ErrorFrame e p) lc =
     (case error_from_payload p of Inl _ \<Rightarrow> lc | Inr r \<Rightarrow> snd (receive_error e r lc))"
| "lifecycle_step sign (Terminate e r) lc = snd (terminate_epoch e r lc)"
| "lifecycle_step sign RecoveryCommand lc = snd (lc_recovery_command lc)"

lemma subscribed_from_payload_ok: "subscribed_from_payload p = Inr r \<Longrightarrow> 0 < ws_sid r \<and> 0 < ws_command_id r"
  by (auto simp: subscribed_from_payload_def lc_positive_integer_def res_simps elim!: bindE_InrE)

lemma lifecycle_step_ok: "lifecycle_ok lc \<Longrightarrow> lifecycle_ok (lifecycle_step sign x lc)"
  by (cases x) (auto simp: begin_connection_ok receive_error_ok terminate_epoch_ok recovery_command_ok
      split: sum.splits dest: subscribed_from_payload_ok snapshot_from_payload_ok delta_from_payload_ok
      intro: receive_subscribed_ok receive_snapshot_ok receive_delta_ok)

definition counters_le :: "'k lifecycle \<Rightarrow> 'k lifecycle \<Rightarrow> bool" where
  "counters_le lc lc' =
     (lc_epoch_counter lc \<le> lc_epoch_counter lc' \<and> lc_command_counter lc \<le> lc_command_counter lc'
      \<and> lc_last_timestamp_ms lc \<le> lc_last_timestamp_ms lc')"

lemma counters_le_same:
  "lc_epoch_counter lc' = lc_epoch_counter lc \<Longrightarrow> lc_command_counter lc' = lc_command_counter lc \<Longrightarrow>
   lc_last_timestamp_ms lc' = lc_last_timestamp_ms lc \<Longrightarrow> counters_le lc lc'"
  by (simp add: counters_le_def)

lemma receive_counters:
  "counters_le lc (snd (receive_subscribed e r lc))"
  "counters_le lc (snd (receive_snapshot e s lc))"
  "counters_le lc (snd (receive_delta e d lc))"
  "counters_le lc (snd (receive_error e x lc))"
  "counters_le lc (snd (terminate_epoch e reason lc))"
  "counters_le lc (snd (lc_recovery_command lc))"
  by (auto simp: receive_subscribed_def receive_snapshot_def receive_delta_def receive_error_def
      terminate_epoch_def lc_recovery_command_def fail_epoch_def counters_le_def Let_def
      split: sum.splits option.splits prod.splits)

lemma begin_counters: "counters_le lc (snd (begin_connection sign ts lc))"
  by (cases "0 < ts \<and> lc_last_timestamp_ms lc < ts")
    (auto simp: begin_connection_state counters_le_def Let_def, auto simp: begin_connection_def)

interpretation lifecycle: monotone_machine lifecycle_ok "lifecycle_step sign" counters_le
  for sign :: "'k \<Rightarrow> string \<Rightarrow> string"
proof
  fix lc :: "'k lifecycle" and x
  assume lc: "lifecycle_ok lc"
  then show "lifecycle_ok (lifecycle_step sign x lc)" by (rule lifecycle_step_ok)
  have "counters_le lc lc" by (simp add: counters_le_def)
  then show "counters_le lc (lifecycle_step sign x lc)"
    by (cases x) (auto simp: receive_counters begin_counters split: sum.splits)
qed (auto simp: counters_le_def)

section \<open>Properties of the lifecycle\<close>

lemma subscriptions_complete:
  "subscriptions_ok pending acknowledged \<Longrightarrow> length acknowledged = length channels \<Longrightarrow>
     pending = [] \<and> set (map fst acknowledged) = set channels"
proof -
  assume ok: "subscriptions_ok pending acknowledged" and n: "length acknowledged = length channels"
  have "length (map snd pending @ map fst acknowledged) = card (set channels)"
    using ok distinct_card unfolding subscriptions_ok_def by metis
  then have "pending = []" using n by (simp add: channels_def)
  then show ?thesis using ok by (simp add: subscriptions_ok_def)
qed

text \<open>
  C9: whatever calls a lifecycle has seen, it shows a book only while an epoch is open, all
  three subscriptions of that epoch are acknowledged and none is pending; the book then
  belongs to the acknowledged orderbook subscription and is well formed.
\<close>

theorem lifecycle_publishes_only_complete_epochs:
  assumes "make_lifecycle s ticker mid = Inr lc"
    and "lc_orderbook_view (fold (lifecycle_step sign) ops lc) = Some v"
  shows "\<exists>lc'. fold (lifecycle_step sign) ops lc = lc'
    \<and> lc_current_epoch_id lc' = Some (lc_epoch_counter lc') \<and> lc_pending lc' = []
    \<and> set (map fst (lc_acknowledged lc')) = {''orderbook_delta'', ''user_orders'', ''fill''}
    \<and> map_of (lc_acknowledged lc') ''orderbook_delta'' = Some (vw_sid v)
    \<and> levels_ok (vw_yes_levels v) \<and> levels_ok (vw_no_levels v)"
proof -
  let ?lc = "fold (lifecycle_step sign) ops lc"
  have ok: "lifecycle_ok ?lc" by (rule lifecycle.run_inv [OF make_lifecycle_ok [OF assms(1)]])
  obtain e st where cur: "lc_current_epoch_id ?lc = Some e" and st: "lc_orderbook_state ?lc = Some st"
    and n: "length (lc_acknowledged ?lc) = length channels" and view: "orderbook_view st = Some v"
    using assms(2) by (auto simp: lc_orderbook_view_def orderbook_publishable_def split: option.splits if_splits)
  note ep = lifecycle_ok_current [OF ok cur]
  have "lc_pending ?lc = [] \<and> set (map fst (lc_acknowledged ?lc)) = set channels"
    using ep n by (intro subscriptions_complete) (simp add: epoch_ok_def)
  moreover have "orderbook_ok st" "map_of (lc_acknowledged ?lc) ''orderbook_delta'' = Some (ob_expected_sid st)"
    using ep st by (simp_all add: epoch_ok_def)
  ultimately show ?thesis
    using view cur ep by (auto simp: orderbook_view_def orderbook_ok_def channels_def split: if_splits)
qed

text \<open>
  a frame that names any epoch but the open one raises and leaves the lifecycle as it
  was: a reader left over from an earlier connection cannot touch the current one.
\<close>

theorem stale_epoch_changes_nothing:
  assumes "lc_current_epoch_id lc \<noteq> Some e"
  shows "\<exists>m. receive_subscribed e r lc = (Inl (KalshiWSLifecycleError m), lc)
    \<and> receive_snapshot e s lc = (Inl (KalshiWSLifecycleError m), lc)
    \<and> receive_delta e d lc = (Inl (KalshiWSLifecycleError m), lc)
    \<and> receive_error e x lc = (Inl (KalshiWSLifecycleError m), lc)
    \<and> terminate_epoch e reason lc = (Inl (KalshiWSLifecycleError m), lc)"
proof -
  have "\<exists>m. require_epoch e lc = Inl (KalshiWSLifecycleError m)"
    using assms by (auto simp: require_epoch_def split: option.splits)
  then obtain m where "require_epoch e lc = Inl (KalshiWSLifecycleError m)" ..
  then show ?thesis
    by (simp add: receive_subscribed_def receive_snapshot_def receive_delta_def receive_error_def
        terminate_epoch_def)
qed

text \<open>The sequence number a book has reached, or has to reach before it is shown again.\<close>

definition frontier :: "'k lifecycle \<Rightarrow> int option" where
  "frontier lc =
     (case lc_orderbook_state lc of
        None \<Rightarrow> None
      | Some st \<Rightarrow> (case ob_view_opt st of
          None \<Rightarrow> None
        | Some v \<Rightarrow> Some (case lc_minimum_recovery_sequence lc of None \<Rightarrow> vw_seq v | Some m \<Rightarrow> m)))"

lemma receive_delta_frontier:
  assumes lc: "lifecycle_ok lc" and cur: "lc_current_epoch_id lc = Some e" and f: "frontier lc = Some f"
  shows "lc_current_epoch_id (snd (receive_delta e d lc)) = None
    \<or> lc_current_epoch_id (snd (receive_delta e d lc)) = Some e
      \<and> (\<exists>f'. frontier (snd (receive_delta e d lc)) = Some f' \<and> f \<le> f' \<and> dl_seq d \<le> f')"
proof -
  obtain st v where ob: "lc_orderbook_state lc = Some st" and v: "ob_view_opt st = Some v"
    using f by (auto simp: frontier_def split: option.splits)
  note ep = lifecycle_ok_current [OF lc cur]
  then have st: "orderbook_ok st" and sid: "expected_sid lc = Inr (ob_expected_sid st)"
    and w: "watermark_ok st (lc_minimum_recovery_sequence lc)"
    using ob by (simp_all add: epoch_ok_def expected_sid_def)
  have req: "require_epoch e lc = Inr ()" using ep by blast
  show ?thesis
  proof (cases "dl_sid d = ob_expected_sid st \<and> dl_market_ticker d = lc_market_ticker lc
      \<and> dl_market_id d = lc_market_id lc")
    case False
    then show ?thesis using req ob sid by (auto simp: receive_delta_def fail_epoch_def)
  next
    case True
    then have d3: "dl_sid d = ob_expected_sid st" "dl_market_ticker d = lc_market_ticker lc"
      "dl_market_id d = lc_market_id lc" by simp_all
    show ?thesis
    proof (cases rule: receive_delta_state [OF lc cur ob d3])
      case (1 u)
      have "delta_accepted d st v \<and> u = view_after d v"
        using 1(1) v by (cases rule: apply_delta_cases [OF st, of d]) (auto simp: delta_accepted_def)
      then have "vw_seq u = dl_seq d" "dl_seq d = vw_seq v + 1"
        by (auto simp: delta_accepted_def view_after_def Let_def split: outcome.splits)
      then show ?thesis using 1 f ob v cur by (auto simp: frontier_def)
    next
      case (2 z u)
      then have "lc_minimum_recovery_sequence lc = None" "u = v"
        using w v by (simp_all add: watermark_ok_def)
      then show ?thesis using 2 f ob v cur by (auto simp: frontier_def invalidate_def)
    next
      case (3 z)
      moreover from 3 w v obtain m where "lc_minimum_recovery_sequence lc = Some m"
        by (auto simp: watermark_ok_def split: option.splits)
      ultimately show ?thesis using f ob v cur by (auto simp: frontier_def)
    qed
  qed
qed

lemma receive_deltas_frontier:
  assumes "lifecycle_ok lc" "lc_current_epoch_id lc = Some e" "frontier lc = Some f" "list_all delta_ok ds"
  defines "lc' \<equiv> fold (\<lambda>d l. snd (receive_delta e d l)) ds lc"
  shows "lifecycle_ok lc' \<and> (lc_current_epoch_id lc' = None
    \<or> lc_current_epoch_id lc' = Some e \<and> (\<exists>f'. frontier lc' = Some f' \<and> (\<forall>d \<in> set ds. dl_seq d \<le> f') \<and> f \<le> f'))"
  unfolding lc'_def using assms(1-4)
proof (induction ds arbitrary: lc f)
  case (Cons d ds)
  let ?l = "snd (receive_delta e d lc)"
  have ok: "lifecycle_ok ?l" using receive_delta_ok [OF Cons.prems(1)] Cons.prems(4) by simp
  have closed: "fold (\<lambda>d l. snd (receive_delta e d l)) ds l = l" if "lc_current_epoch_id l = None" for l :: "'a lifecycle"
    using that by (induction ds) (simp_all add: receive_delta_def require_epoch_def)
  from receive_delta_frontier [OF Cons.prems(1-3), of d] show ?case
  proof (elim disjE conjE exE)
    assume "lc_current_epoch_id ?l = None"
    then show ?thesis using ok by (simp add: closed)
  next
    fix f' assume f': "lc_current_epoch_id ?l = Some e" "frontier ?l = Some f'" "f \<le> f'" "dl_seq d \<le> f'"
    have "list_all delta_ok ds" using Cons.prems(4) by simp
    from Cons.IH [OF ok f'(1,2) this] show ?thesis using f'(3,4) by (auto intro: order_trans)
  qed
qed auto

text \<open>
  C10: a recovered book covers every delta that was seen. After any deltas of an epoch,
  whether they were applied, opened a gap or arrived while the book was withdrawn, a
  snapshot that the lifecycle shows has a sequence number at least that of each of them.
\<close>

theorem recovery_snapshot_covers_seen_deltas:
  assumes "lifecycle_ok lc" "lc_current_epoch_id lc = Some e" "frontier lc = Some f"
    and "list_all delta_ok ds"
    and "receive_snapshot e s (fold (\<lambda>d l. snd (receive_delta e d l)) ds lc) = (Inr (Some w), lc')"
  shows "f \<le> vw_seq w \<and> (\<forall>d \<in> set ds. dl_seq d \<le> vw_seq w)"
proof -
  let ?l = "fold (\<lambda>d l. snd (receive_delta e d l)) ds lc"
  have cur: "lc_current_epoch_id ?l = Some e"
    using assms(5) by (auto simp: receive_snapshot_def require_epoch_def split: option.splits if_splits)
  then obtain f' where ok: "lifecycle_ok ?l" and f': "frontier ?l = Some f'"
    and all: "\<forall>d \<in> set ds. dl_seq d \<le> f'" "f \<le> f'"
    using receive_deltas_frontier [OF assms(1-4)] by auto
  obtain st v where ob: "lc_orderbook_state ?l = Some st" and v: "ob_view_opt st = Some v"
    using f' by (auto simp: frontier_def split: option.splits)
  have w: "watermark_ok st (lc_minimum_recovery_sequence ?l)"
    using lifecycle_ok_current [OF ok cur] ob by (simp add: epoch_ok_def)
  from assms(5) ob obtain st' where a: "apply_snapshot s st = (Inr w, st')"
    and m: "case lc_minimum_recovery_sequence ?l of None \<Rightarrow> True | Some m \<Rightarrow> m \<le> sn_seq s"
    by (auto simp: receive_snapshot_def fail_epoch_def split: option.splits sum.splits prod.splits if_splits)
  have "f' \<le> vw_seq w"
  proof (cases "ob_valid st")
    case True
    then have "w = v" using a v by (auto simp: apply_snapshot_def Let_def split: if_splits)
    then show ?thesis using f' ob v w True by (auto simp: frontier_def watermark_ok_def)
  next
    case False
    then have "w = view_of_snapshot s" using a v by (auto simp: apply_snapshot_def Let_def split: if_splits)
    then show ?thesis
      using f' ob v w False m by (auto simp: frontier_def watermark_ok_def view_of_snapshot_def split: option.splits)
  qed
  then show ?thesis using all by auto
qed

text \<open>
  every new connection starts from nothing. Its epoch id is beyond that of every
  earlier one, its three command ids have never been used, and no book, acknowledgement or
  early snapshot of an earlier connection survives into it.
\<close>

theorem new_connection_starts_clean:
  assumes "make_lifecycle s ticker mid = Inr lc0"
    and "lc1 = fold (lifecycle_step sign) ops1 lc0" and "lc2 = fold (lifecycle_step sign) ops2 lc1"
    and "begin_connection sign ts lc2 = (Inr ins, lc3)"
  shows "lc_epoch_counter lc1 < in_epoch_id ins
    \<and> map sc_channel (in_subscriptions ins) = [''orderbook_delta'', ''user_orders'', ''fill'']
    \<and> distinct (map sc_command_id (in_subscriptions ins))
    \<and> (\<forall>c \<in> set (in_subscriptions ins). lc_command_counter lc1 < sc_command_id c)
    \<and> lc_acknowledged lc3 = [] \<and> lc_early_snapshot lc3 = None \<and> lc_orderbook_view lc3 = None"
proof -
  have lc1: "lifecycle_ok lc1" using lifecycle.run_inv [OF make_lifecycle_ok [OF assms(1)]] assms(2) by simp
  then have le: "counters_le lc1 lc2" using lifecycle.run_le assms(3) by simp
  have ts: "0 < ts" "lc_last_timestamp_ms lc2 < ts"
    using assms(4) by (auto simp: begin_connection_def split: if_splits)
  then have lc3: "lc_acknowledged lc3 = [] \<and> lc_early_snapshot lc3 = None \<and> lc_orderbook_state lc3 = None"
    using begin_connection_state [of ts lc2 sign] assms(4) by (simp add: Let_def)
  have ins: "in_epoch_id ins = lc_epoch_counter lc2 + 1"
    "map sc_channel (in_subscriptions ins) = [''orderbook_delta'', ''user_orders'', ''fill'']"
    "map sc_command_id (in_subscriptions ins) =
      [lc_command_counter lc2 + 1, lc_command_counter lc2 + 2, lc_command_counter lc2 + 3]"
    using assms(4) ts
    by (auto simp: begin_connection_def channels_def lc_clear_def subscribe_command_def Let_def split: sum.splits)
  then have "sc_command_id c \<in> {lc_command_counter lc2 + 1, lc_command_counter lc2 + 2, lc_command_counter lc2 + 3}"
    if "c \<in> set (in_subscriptions ins)" for c
    using that by (metis (no_types, lifting) image_eqI list.set_map list.simps(15) set_empty2 list.set(1))
  then show ?thesis
    using lc3 le ins by (force simp: counters_le_def lc_orderbook_view_def orderbook_publishable_def)
qed

section \<open>Concrete instances\<close>

definition sample_market_id :: string where
  "sample_market_id = ''01234567-89ab-cdef-0123-456789abcdef''"

definition sample_signer :: "unit signer" where
  "sample_signer = \<lparr>sg_key_id = ''key'', sg_key = ()\<rparr>"

definition ack_frame :: "int \<Rightarrow> string \<Rightarrow> int \<Rightarrow> pydict" where
  "ack_frame command_id channel sid =
     [(''type'', PStr ''subscribed''), (''id'', PInt command_id),
      (''msg'', PDict [(''channel'', PStr channel), (''sid'', PInt sid)])]"

definition empty_book_frame :: "int \<Rightarrow> int \<Rightarrow> pydict" where
  "empty_book_frame sid sq =
     [(''type'', PStr ''orderbook_snapshot''), (''sid'', PInt sid), (''seq'', PInt sq),
      (''msg'', PDict [(''market_ticker'', PStr ''KX''), (''market_id'', PStr sample_market_id)])]"

definition open_ops :: "lc_op list" where
  "open_ops = [Begin 5, Subscribed 1 (ack_frame 1 ''orderbook_delta'' 7),
     Subscribed 1 (ack_frame 2 ''user_orders'' 8), Subscribed 1 (ack_frame 3 ''fill'' 9),
     Snapshot 1 (empty_book_frame 7 4)]"

definition fresh_lifecycle :: "unit lifecycle" where
  "fresh_lifecycle = \<lparr>lc_signer = sample_signer, lc_market_ticker = ''KX'',
     lc_market_id = sample_market_id, lc_epoch_counter = 0, lc_command_counter = 0,
     lc_last_timestamp_ms = 0, lc_current_epoch_id = None, lc_epoch_commands = [], lc_pending = [],
     lc_acknowledged = [], lc_early_snapshot = None, lc_orderbook_state = None,
     lc_minimum_recovery_sequence = None, lc_terminal_reason = None\<rparr>"

definition open_lifecycle :: "unit lifecycle" where
  "open_lifecycle = fold (lifecycle_step (\<lambda>_ m. m)) open_ops fresh_lifecycle"

lemma fresh_lifecycle_made: "make_lifecycle sample_signer ''KX'' sample_market_id = Inr fresh_lifecycle"
  by code_simp

lemma open_lifecycle_values:
  "lc_orderbook_view open_lifecycle = Some \<lparr>vw_sid = 7, vw_seq = 4, vw_market_ticker = ''KX'',
     vw_market_id = sample_market_id, vw_yes_levels = [], vw_no_levels = []\<rparr>"
  "lc_current_epoch_id open_lifecycle = Some 1" "frontier open_lifecycle = Some 4"
  "lc_command_counter open_lifecycle = 3" "lc_epoch_counter open_lifecycle = 1"
  by code_simp+

lemma open_lifecycle_ok: "lifecycle_ok open_lifecycle"
  unfolding open_lifecycle_def
  by (rule lifecycle.run_inv [OF make_lifecycle_ok [OF fresh_lifecycle_made]])

lemma lifecycle_publishes_only_complete_epochs_witness:
  "map_of (lc_acknowledged open_lifecycle) ''orderbook_delta'' = Some 7"
  using lifecycle_publishes_only_complete_epochs [OF fresh_lifecycle_made,
      where sign = "\<lambda>_ m. m" and ops = open_ops] open_lifecycle_values(1)
  by (auto simp: open_lifecycle_def)

lemma stale_epoch_changes_nothing_witness:
  "\<exists>m. terminate_epoch 2 ''disconnected'' open_lifecycle = (Inl (KalshiWSLifecycleError m), open_lifecycle)"
proof -
  have "lc_current_epoch_id open_lifecycle \<noteq> Some 2" by (simp add: open_lifecycle_values)
  from stale_epoch_changes_nothing [OF this, of _ _ _ _ "''disconnected''"] show ?thesis by blast
qed

text \<open>A delta that skips to sequence 9 withdraws the book; the snapshot at 9 restores it.\<close>

definition gap_delta :: ob_delta where
  "gap_delta = \<lparr>dl_sid = 7, dl_seq = 9, dl_market_ticker = ''KX'', dl_market_id = sample_market_id,
     dl_price = Dec False 4 (-1), dl_delta = Dec False 1 0, dl_side = Yes,
     dl_client_order_id = None, dl_subaccount = None, dl_timestamp_ms = None\<rparr>"

definition recovery_snapshot :: ob_snapshot where
  "recovery_snapshot = \<lparr>sn_sid = 7, sn_seq = 9, sn_market_ticker = ''KX'',
     sn_market_id = sample_market_id, sn_yes_levels = [], sn_no_levels = []\<rparr>"

lemma gap_delta_ok: "delta_ok gap_delta"
  by (simp add: gap_delta_def delta_ok_def dval_Dec dollar_quantum_def count_quantum_def)

lemma recovery_snapshot_covers_seen_deltas_witness:
  "\<exists>w lc'. receive_snapshot 1 recovery_snapshot
      (fold (\<lambda>d l. snd (receive_delta 1 d l)) [gap_delta] open_lifecycle) = (Inr (Some w), lc')
    \<and> 4 \<le> vw_seq w \<and> 9 \<le> vw_seq w"
proof -
  let ?r = "receive_snapshot 1 recovery_snapshot
      (fold (\<lambda>d l. snd (receive_delta 1 d l)) [gap_delta] open_lifecycle)"
  have "(case fst ?r of Inr (Some _) \<Rightarrow> True | _ \<Rightarrow> False)" by code_simp
  then obtain w where "?r = (Inr (Some w), snd ?r)"
    by (cases "fst ?r") (auto simp: prod_eq_iff split: option.splits)
  moreover have "dl_seq gap_delta = 9" by (simp add: gap_delta_def)
  ultimately show ?thesis
    using recovery_snapshot_covers_seen_deltas [OF open_lifecycle_ok open_lifecycle_values(2,3),
        of "[gap_delta]" recovery_snapshot w "snd ?r"] gap_delta_ok
    by auto
qed

lemma new_connection_starts_clean_witness:
  "\<exists>ins lc. begin_connection (\<lambda>_ m. m) 6 open_lifecycle = (Inr ins, lc) \<and> 1 < in_epoch_id ins
     \<and> lc_orderbook_view lc = None"
proof -
  let ?r = "begin_connection (\<lambda>_ m. m) 6 open_lifecycle"
  have "is_ok (fst ?r)" by code_simp
  then obtain ins where r: "?r = (Inr ins, snd ?r)"
    by (cases "fst ?r") (auto simp: prod_eq_iff)
  show ?thesis
    using new_connection_starts_clean [OF fresh_lifecycle_made, of open_lifecycle "\<lambda>_ m. m" open_ops
        open_lifecycle "[]", OF _ _ r] r
    by (auto simp: open_lifecycle_def [symmetric] open_lifecycle_values)
qed

end
