(* ===== verification/Session.thy ===== *)
theory Session
  imports Lifecycle
begin

text \<open>
  \<open>services/venues/kalshi_v2_ws_session.py\<close>: the frame session, which routes decoded
  frames of one epoch into the lifecycle and answers each with one outcome.
\<close>

datatype private_channel = UserOrdersChannel | FillChannel

fun private_channel_text :: "private_channel \<Rightarrow> string" where
  "private_channel_text UserOrdersChannel = ''user_orders''"
| "private_channel_text FillChannel = ''fill''"

datatype session_outcome =
    NoOp int string
  | Published int ob_view
  | RecoveryRequested int int int string
  | PrivateFrame int private_channel int
  | Terminated int string

record 'k session =
  ss_lifecycle :: "'k lifecycle"
  ss_epoch_id :: "int option"
  ss_channel_sids :: "(string \<times> int) list"
  ss_recovery_emitted :: bool

definition make_session :: "'k lifecycle \<Rightarrow> 'k session" where
  "make_session lc = \<lparr>ss_lifecycle = lc, ss_epoch_id = None, ss_channel_sids = [],
     ss_recovery_emitted = False\<rparr>"

text \<open>The property \<open>command\<close> of a requested recovery.\<close>

fun outcome_command :: "session_outcome \<Rightarrow> pydict option" where
  "outcome_command (RecoveryRequested _ command_id sid ticker) =
     Some (recovery_command_payload command_id sid ticker)"
| "outcome_command _ = None"

definition session_begin ::
    "('k \<Rightarrow> string \<Rightarrow> string) \<Rightarrow> int \<Rightarrow> ('k session, ws_instructions) action" where
  "session_begin sign ts ss =
     (case begin_connection sign ts (ss_lifecycle ss) of
        (Inl e, lc) \<Rightarrow> (Inl e, ss\<lparr>ss_lifecycle := lc\<rparr>)
      | (Inr ins, lc) \<Rightarrow> (Inr ins, \<lparr>ss_lifecycle = lc, ss_epoch_id = Some (in_epoch_id ins),
          ss_channel_sids = [], ss_recovery_emitted = False\<rparr>))"

text \<open>\<open>_terminate\<close>, which may itself raise what \<open>terminate_epoch\<close> raises.\<close>

definition session_terminate :: "int \<Rightarrow> string \<Rightarrow> ('k session, session_outcome) action" where
  "session_terminate epoch_id reason ss =
     (if lc_current_epoch_id (ss_lifecycle ss) = Some epoch_id
      then case terminate_epoch epoch_id reason (ss_lifecycle ss) of
          (Inl e, lc) \<Rightarrow> (Inl e, ss\<lparr>ss_lifecycle := lc\<rparr>)
        | (Inr _, lc) \<Rightarrow> (Inr (Terminated epoch_id reason), ss\<lparr>ss_lifecycle := lc\<rparr>)
      else (Inr (Terminated epoch_id reason), ss))"

text \<open>\<open>self._lifecycle.terminal_reason or fallback\<close>\<close>

definition terminal_reason_or :: "string \<Rightarrow> 'k lifecycle \<Rightarrow> string" where
  "terminal_reason_or fallback lc =
     (case lc_terminal_reason lc of None \<Rightarrow> fallback | Some r \<Rightarrow> if r = [] then fallback else r)"

definition private_frame :: "int \<Rightarrow> private_channel \<Rightarrow> pydict \<Rightarrow> ('k session, session_outcome) action" where
  "private_frame epoch_id channel p ss =
     (case (py_get p ''sid'', py_get p ''msg'') of
        (PInt sid, PDict _) \<Rightarrow>
          if sid \<le> 0 \<or> map_of (ss_channel_sids ss) (private_channel_text channel) \<noteq> Some sid
          then session_terminate epoch_id ''invalid_private_frame_envelope'' ss
          else (Inr (PrivateFrame epoch_id channel sid), ss)
      | _ \<Rightarrow> session_terminate epoch_id ''invalid_private_frame_envelope'' ss)"

definition on_subscribed :: "int \<Rightarrow> pydict \<Rightarrow> ('k session, session_outcome) action" where
  "on_subscribed epoch_id p ss =
     (case subscribed_from_payload p of
        Inl e \<Rightarrow> (Inl e, ss)
      | Inr r \<Rightarrow>
          (case receive_subscribed epoch_id r (ss_lifecycle ss) of
             (Inl e, lc) \<Rightarrow> (Inl e, ss\<lparr>ss_lifecycle := lc\<rparr>)
           | (Inr _, lc) \<Rightarrow>
               let ss' = ss\<lparr>ss_lifecycle := lc,
                     ss_channel_sids := AList.update (ws_channel r) (ws_sid r) (ss_channel_sids ss)\<rparr>
               in case lc_orderbook_view lc of
                   Some v \<Rightarrow> (Inr (Published epoch_id v), ss')
                 | None \<Rightarrow> (Inr (NoOp epoch_id ''subscription_acknowledged''), ss')))"

definition on_error :: "int \<Rightarrow> pydict \<Rightarrow> ('k session, session_outcome) action" where
  "on_error epoch_id p ss =
     (case error_from_payload p of
        Inl e \<Rightarrow> (Inl e, ss)
      | Inr r \<Rightarrow>
          (case receive_error epoch_id r (ss_lifecycle ss) of
             (Inl e, lc) \<Rightarrow> (Inl e, ss\<lparr>ss_lifecycle := lc\<rparr>)
           | (Inr _, lc) \<Rightarrow>
               (Inr (Terminated epoch_id (terminal_reason_or ''kalshi_ws_error'' lc)),
                ss\<lparr>ss_lifecycle := lc\<rparr>)))"

definition is_lifecycle_error :: "exn \<Rightarrow> bool" where
  "is_lifecycle_error e = (case e of KalshiWSLifecycleError _ \<Rightarrow> True | _ \<Rightarrow> False)"

definition on_snapshot :: "int \<Rightarrow> pydict \<Rightarrow> ('k session, session_outcome) action" where
  "on_snapshot epoch_id p ss =
     (case snapshot_from_payload p of
        Inl e \<Rightarrow> (Inl e, ss)
      | Inr s \<Rightarrow>
          (case receive_snapshot epoch_id s (ss_lifecycle ss) of
             (Inl e, lc) \<Rightarrow>
               let ss' = ss\<lparr>ss_lifecycle := lc\<rparr> in
               if \<not> is_lifecycle_error e then (Inl e, ss')
               else if lc_current_epoch_id lc = None
               then (Inr (Terminated epoch_id (terminal_reason_or ''invalid_orderbook_snapshot'' lc)), ss')
               else (Inr (NoOp epoch_id ''recovery_snapshot_below_watermark''), ss')
           | (Inr None, lc) \<Rightarrow>
               (Inr (NoOp epoch_id ''snapshot_not_publishable''), ss\<lparr>ss_lifecycle := lc\<rparr>)
           | (Inr (Some v), lc) \<Rightarrow>
               let ss' = ss\<lparr>ss_lifecycle := lc, ss_recovery_emitted := False\<rparr> in
               if orderbook_publishable lc then (Inr (Published epoch_id v), ss')
               else (Inr (NoOp epoch_id ''snapshot_not_publishable''), ss')))"

text \<open>The identifiers read back out of the recovery command.\<close>

definition recovery_ids :: "pydict \<Rightarrow> (int \<times> int \<times> string) option" where
  "recovery_ids command =
     (case py_get command ''params'' of
        PDict params \<Rightarrow>
          (case (py_get command ''id'', py_get params ''sids'', py_get params ''market_tickers'') of
             (PInt command_id, PList [PInt sid], PList [PStr ticker]) \<Rightarrow> Some (command_id, sid, ticker)
           | _ \<Rightarrow> None)
      | _ \<Rightarrow> None)"

definition on_delta :: "int \<Rightarrow> pydict \<Rightarrow> ('k session, session_outcome) action" where
  "on_delta epoch_id p ss =
     (case delta_from_payload p of
        Inl e \<Rightarrow> (Inl e, ss)
      | Inr d \<Rightarrow>
          (case receive_delta epoch_id d (ss_lifecycle ss) of
             (Inr v, lc) \<Rightarrow>
               if orderbook_publishable lc then (Inr (Published epoch_id v), ss\<lparr>ss_lifecycle := lc\<rparr>)
               else (Inr (NoOp epoch_id ''delta_not_publishable''), ss\<lparr>ss_lifecycle := lc\<rparr>)
           | (Inl e, lc) \<Rightarrow>
               let ss' = ss\<lparr>ss_lifecycle := lc\<rparr> in
               if \<not> is_lifecycle_error e then (Inl e, ss')
               else if lc_current_epoch_id lc = None
               then (Inr (Terminated epoch_id (terminal_reason_or ''invalid_orderbook_delta'' lc)), ss')
               else if ss_recovery_emitted ss'
               then (Inr (NoOp epoch_id ''recovery_in_progress''), ss')
               else case lc_recovery_command lc of
                   (Inl e', lc') \<Rightarrow> (Inl e', ss'\<lparr>ss_lifecycle := lc'\<rparr>)
                 | (Inr command, lc') \<Rightarrow>
                     let ss'' = ss'\<lparr>ss_lifecycle := lc'\<rparr> in
                     case recovery_ids command of
                       None \<Rightarrow> session_terminate epoch_id ''invalid_recovery_command'' ss''
                     | Some (command_id, sid, ticker) \<Rightarrow>
                         (Inr (RecoveryRequested epoch_id command_id sid ticker),
                          ss''\<lparr>ss_recovery_emitted := True\<rparr>)))"

definition session_caught :: "exn \<Rightarrow> bool" where
  "session_caught e = (is_lifecycle_error e \<or> is_value_error e \<or> is_key_error e \<or> is_type_error e)"

text \<open>The \<open>try\<close> block of \<open>receive\<close>, by the type of the frame; \<open>None\<close> falls out of it.\<close>

definition route_frame ::
    "int \<Rightarrow> string \<Rightarrow> pydict \<Rightarrow> 'k session \<Rightarrow> (session_outcome res \<times> 'k session) option" where
  "route_frame epoch_id frame_type p ss =
     (if frame_type = ''subscribed'' then Some (on_subscribed epoch_id p ss)
      else if frame_type = ''error'' then Some (on_error epoch_id p ss)
      else if frame_type = ''orderbook_snapshot'' then Some (on_snapshot epoch_id p ss)
      else if frame_type = ''orderbook_delta'' then Some (on_delta epoch_id p ss)
      else if frame_type = ''user_order'' then Some (private_frame epoch_id UserOrdersChannel p ss)
      else if frame_type = ''fill'' then Some (private_frame epoch_id FillChannel p ss)
      else None)"

definition session_receive :: "int \<Rightarrow> pyval \<Rightarrow> ('k session, session_outcome) action" where
  "session_receive epoch_id payload ss =
     (if ss_epoch_id ss \<noteq> Some epoch_id \<or> lc_current_epoch_id (ss_lifecycle ss) \<noteq> Some epoch_id
      then (Inr (NoOp epoch_id ''stale_epoch''), ss)
      else case payload of
          PDict p \<Rightarrow>
            (case py_get p ''type'' of
               PStr frame_type \<Rightarrow>
                 (case route_frame epoch_id frame_type p ss of
                    None \<Rightarrow> session_terminate epoch_id ''unknown_frame_type'' ss
                  | Some (Inr r, ss') \<Rightarrow> (Inr r, ss')
                  | Some (Inl e, ss') \<Rightarrow>
                      if \<not> session_caught e then (Inl e, ss')
                      else if lc_current_epoch_id (ss_lifecycle ss') = None
                      then (Inr (Terminated epoch_id (terminal_reason_or ''invalid_frame'' (ss_lifecycle ss'))), ss')
                      else session_terminate epoch_id ''malformed_frame'' ss')
             | _ \<Rightarrow> session_terminate epoch_id ''malformed_frame'' ss)
        | _ \<Rightarrow> session_terminate epoch_id ''malformed_frame'' ss)"

section \<open>What a frame can raise inside the session\<close>

lemma is_lifecycle_error_simps [simp]:
  "is_lifecycle_error (KalshiWSLifecycleError m)" "\<not> is_lifecycle_error (KeyError k)"
  by (simp_all add: is_lifecycle_error_def)

lemma session_caught_simps [simp]:
  "session_caught (KalshiWSLifecycleError m)" "session_caught (KeyError k)"
  by (simp_all add: session_caught_def)

lemma raises_subscribed: "raises is_lifecycle_error (subscribed_from_payload p)"
  unfolding subscribed_from_payload_def lc_mapping_def lc_positive_integer_def lc_text_def
  by (auto intro!: raises_intros)

lemma raises_error: "raises is_lifecycle_error (error_from_payload p)"
  unfolding error_from_payload_def lc_mapping_def lc_positive_integer_def lc_text_def
  by (auto intro!: raises_intros)

lemma raises_require_epoch: "raises is_lifecycle_error (require_epoch e lc)"
  by (simp add: require_epoch_def split: option.splits)

lemma raises_receive_subscribed: "raises session_caught (fst (receive_subscribed e r lc))"
  using raises_require_epoch [of e lc] raises_make_orderbook [of "ws_sid r" "lc_market_ticker lc" "lc_market_id lc"]
  by (auto simp: receive_subscribed_def fail_epoch_def session_caught_def Let_def raises_def
      split: sum.splits option.splits prod.splits)

lemma raises_receive_snapshot:
  "raises (\<lambda>e. is_lifecycle_error e \<or> is_key_error e) (fst (receive_snapshot e s lc))"
  using raises_require_epoch [of e lc]
  by (auto simp: receive_snapshot_def fail_epoch_def expected_sid_def raises_def
      split: sum.splits option.splits prod.splits)

lemma raises_receive_delta:
  "raises (\<lambda>e. is_lifecycle_error e \<or> is_key_error e) (fst (receive_delta e d lc))"
  using raises_require_epoch [of e lc]
  by (auto simp: receive_delta_def fail_epoch_def expected_sid_def raises_def Let_def
      split: sum.splits option.splits prod.splits)

lemma raises_receive_error: "raises is_lifecycle_error (fst (receive_error e r lc))"
  using raises_require_epoch [of e lc]
  by (auto simp: receive_error_def fail_epoch_def raises_def split: sum.splits)

lemma raises_terminate_epoch: "raises is_lifecycle_error (fst (terminate_epoch e r lc))"
  using raises_require_epoch [of e lc]
  by (auto simp: terminate_epoch_def raises_def split: sum.splits)

lemma raises_recovery: "raises session_caught (fst (lc_recovery_command lc))"
  by (auto simp: lc_recovery_command_def recovery_command_def session_caught_def Let_def
      split: option.splits)

lemma raises_session_terminate: "raises session_caught (fst (session_terminate e r ss))"
  using raises_terminate_epoch [of e r "ss_lifecycle ss"]
  by (auto simp: session_terminate_def raises_def session_caught_def split: sum.splits prod.splits)

lemma raises_private_frame: "raises session_caught (fst (private_frame e c p ss))"
  by (auto simp: private_frame_def raises_session_terminate split: pyval.splits)

lemma lifecycle_error_caught: "is_lifecycle_error e \<Longrightarrow> session_caught e"
  "is_value_error e \<Longrightarrow> session_caught e"
  by (simp_all add: session_caught_def)

lemma raises_on_subscribed: "raises session_caught (fst (on_subscribed e p ss))"
proof (cases "subscribed_from_payload p")
  case (Inl z)
  then show ?thesis
    using raisesD [OF raises_subscribed Inl] by (simp add: on_subscribed_def lifecycle_error_caught)
next
  case (Inr r)
  obtain x lc where x: "receive_subscribed e r (ss_lifecycle ss) = (x, lc)" by fastforce
  then have "raises session_caught x" using raises_receive_subscribed [of e r "ss_lifecycle ss"] by simp
  with Inr x show ?thesis
    by (cases x) (auto simp: on_subscribed_def Let_def split: option.splits)
qed

lemma raises_on_error: "raises session_caught (fst (on_error e p ss))"
proof (cases "error_from_payload p")
  case (Inl z)
  then show ?thesis using raisesD [OF raises_error Inl] by (simp add: on_error_def lifecycle_error_caught)
next
  case (Inr r)
  obtain x lc where x: "receive_error e r (ss_lifecycle ss) = (x, lc)" by fastforce
  then have "raises session_caught x"
    using raises_receive_error [of e r "ss_lifecycle ss"] by (auto intro: raises_mono lifecycle_error_caught)
  with Inr x show ?thesis by (cases x) (auto simp: on_error_def)
qed

lemma raises_on_snapshot: "raises session_caught (fst (on_snapshot e p ss))"
proof (cases "snapshot_from_payload p")
  case (Inl z)
  then show ?thesis
    using raisesD [OF raises_snapshot_from_payload Inl] by (simp add: on_snapshot_def lifecycle_error_caught)
next
  case (Inr s)
  obtain x lc where x: "receive_snapshot e s (ss_lifecycle ss) = (x, lc)" by fastforce
  then have "raises session_caught x"
    using raises_receive_snapshot [of e s "ss_lifecycle ss"]
    by (auto simp: session_caught_def elim: raises_mono)
  with Inr x show ?thesis
    by (cases x) (auto simp: on_snapshot_def Let_def split: option.splits)
qed

lemma raises_on_delta: "raises session_caught (fst (on_delta e p ss))"
proof (cases "delta_from_payload p")
  case (Inl x)
  then show ?thesis
    using raisesD [OF raises_delta_from_payload Inl] by (auto simp: on_delta_def session_caught_def)
next
  case (Inr d)
  obtain x lc where x: "receive_delta e d (ss_lifecycle ss) = (x, lc)" by fastforce
  then have "raises session_caught x"
    using raises_receive_delta [of e d "ss_lifecycle ss"]
    by (auto simp: session_caught_def elim: raises_mono)
  moreover obtain y lc' where y: "lc_recovery_command lc = (y, lc')" by fastforce
  moreover have "raises session_caught y" using raises_recovery [of lc] y by simp
  ultimately show ?thesis
    using Inr x by (cases x; cases y)
      (auto simp: on_delta_def Let_def raises_session_terminate split: option.splits)
qed

lemma raises_route_frame:
  "route_frame e t p ss = Some (x, ss') \<Longrightarrow> raises session_caught x"
  using raises_on_subscribed [of e p ss] raises_on_error [of e p ss] raises_on_snapshot [of e p ss]
    raises_on_delta [of e p ss] raises_private_frame [of e _ p ss]
  by (auto simp: route_frame_def prod_eq_iff split: if_splits)

section \<open>The session keeps the lifecycle's invariant\<close>

definition session_ok :: "'k session \<Rightarrow> bool" where
  "session_ok ss = lifecycle_ok (ss_lifecycle ss)"

lemma session_terminate_ok: "session_ok ss \<Longrightarrow> session_ok (snd (session_terminate e r ss))"
  using terminate_epoch_ok [of "ss_lifecycle ss" e r]
  by (auto simp: session_terminate_def session_ok_def split: sum.splits prod.splits)

lemma private_frame_ok: "session_ok ss \<Longrightarrow> session_ok (snd (private_frame e c p ss))"
  by (auto simp: private_frame_def session_terminate_ok split: pyval.splits)

lemma on_subscribed_ok: "session_ok ss \<Longrightarrow> session_ok (snd (on_subscribed e p ss))"
proof (cases "subscribed_from_payload p")
  case (Inr r)
  assume "session_ok ss"
  then have "lifecycle_ok (snd (receive_subscribed e r (ss_lifecycle ss)))"
    using subscribed_from_payload_ok [OF Inr] by (simp add: session_ok_def receive_subscribed_ok)
  then show ?thesis
    using Inr by (auto simp: on_subscribed_def session_ok_def Let_def split: sum.splits prod.splits option.splits)
qed (simp add: on_subscribed_def)

lemma on_error_ok: "session_ok ss \<Longrightarrow> session_ok (snd (on_error e p ss))"
proof (cases "error_from_payload p")
  case (Inr r)
  assume "session_ok ss"
  then have "lifecycle_ok (snd (receive_error e r (ss_lifecycle ss)))"
    by (simp add: session_ok_def receive_error_ok)
  then show ?thesis using Inr by (auto simp: on_error_def session_ok_def split: sum.splits prod.splits)
qed (simp add: on_error_def)

lemma on_snapshot_ok: "session_ok ss \<Longrightarrow> session_ok (snd (on_snapshot e p ss))"
proof (cases "snapshot_from_payload p")
  case (Inr s)
  assume "session_ok ss"
  then have "lifecycle_ok (snd (receive_snapshot e s (ss_lifecycle ss)))"
    using snapshot_from_payload_ok [OF Inr] by (simp add: session_ok_def receive_snapshot_ok)
  then show ?thesis
    using Inr by (auto simp: on_snapshot_def session_ok_def Let_def split: sum.splits prod.splits option.splits)
qed (simp add: on_snapshot_def)

lemma on_delta_ok: "session_ok ss \<Longrightarrow> session_ok (snd (on_delta e p ss))"
proof (cases "delta_from_payload p")
  case (Inr d)
  assume "session_ok ss"
  obtain x lc where x: "receive_delta e d (ss_lifecycle ss) = (x, lc)" by fastforce
  then have lc: "lifecycle_ok lc"
    using \<open>session_ok ss\<close> receive_delta_ok [of "ss_lifecycle ss" d e] delta_from_payload_ok [OF Inr]
    by (simp add: session_ok_def)
  obtain y lc' where y: "lc_recovery_command lc = (y, lc')" by fastforce
  then have lc': "lifecycle_ok lc'" using recovery_command_ok [OF lc] by simp
  have t: "session_ok (snd (session_terminate e r (ss\<lparr>ss_lifecycle := lc'\<rparr>)))" for r
    using lc' by (intro session_terminate_ok) (simp add: session_ok_def)
  show ?thesis
    using Inr x y lc lc' t
    by (cases x; cases y) (auto simp: on_delta_def session_ok_def Let_def split: option.splits)
qed (simp add: on_delta_def)

lemma route_frame_ok:
  "session_ok ss \<Longrightarrow> route_frame e t p ss = Some (x, ss') \<Longrightarrow> session_ok ss'"
  using on_subscribed_ok [of ss e p] on_error_ok [of ss e p] on_snapshot_ok [of ss e p]
    on_delta_ok [of ss e p] private_frame_ok [of ss e _ p]
  by (auto simp: route_frame_def prod_eq_iff split: if_splits)

lemma session_terminate_returns:
  "session_ok ss \<Longrightarrow> strip r \<noteq> [] \<Longrightarrow>
     fst (session_terminate e r ss) = Inr (Terminated e r)
     \<and> lc_current_epoch_id (ss_lifecycle (snd (session_terminate e r ss))) \<noteq> Some e"
  by (auto simp: session_terminate_def session_ok_def lifecycle_ok_def terminate_epoch_def
      require_epoch_def split: option.splits)

lemma reason_texts [simp]:
  "strip ''unknown_frame_type'' \<noteq> []" "strip ''malformed_frame'' \<noteq> []"
  "strip ''invalid_private_frame_envelope'' \<noteq> []" "strip ''invalid_recovery_command'' \<noteq> []"
  by (simp_all add: strip_def unicode_space_def)

section \<open>What an outcome means\<close>

definition outcome_sound :: "int \<Rightarrow> 'k session \<Rightarrow> session_outcome \<Rightarrow> 'k session \<Rightarrow> bool" where
  "outcome_sound e ss r ss' =
     (case r of
        NoOp e' _ \<Rightarrow> e' = e
      | Published e' v \<Rightarrow> e' = e \<and> lc_orderbook_view (ss_lifecycle ss') = Some v
      | RecoveryRequested e' command_id sid ticker \<Rightarrow>
          e' = e \<and> \<not> ss_recovery_emitted ss \<and> ss_recovery_emitted ss'
          \<and> lc_command_counter (ss_lifecycle ss) < command_id
          \<and> lc_orderbook_view (ss_lifecycle ss') = None
      | PrivateFrame e' channel sid \<Rightarrow>
          e' = e \<and> ss' = ss \<and> map_of (ss_channel_sids ss) (private_channel_text channel) = Some sid
      | Terminated e' _ \<Rightarrow> e' = e \<and> lc_current_epoch_id (ss_lifecycle ss') = None)"

text \<open>One handler: it returns or raises, keeps the invariant, and its outcome is sound.\<close>

definition handler_ok :: "int \<Rightarrow> 'k session \<Rightarrow> session_outcome res \<times> 'k session \<Rightarrow> bool" where
  "handler_ok e ss x =
     (session_ok (snd x) \<and> lc_current_epoch_id (ss_lifecycle (snd x)) \<in> {None, Some e}
      \<and> (case fst x of Inl z \<Rightarrow> session_caught z | Inr r \<Rightarrow> outcome_sound e ss r (snd x)))"

lemma receive_keeps_epoch:
  "lc_current_epoch_id lc = Some e \<Longrightarrow>
     lc_current_epoch_id (snd (receive_subscribed e r lc)) \<in> {None, Some e}"
  "lc_current_epoch_id lc = Some e \<Longrightarrow> lc_current_epoch_id (snd (receive_snapshot e s lc)) \<in> {None, Some e}"
  "lc_current_epoch_id lc = Some e \<Longrightarrow> lc_current_epoch_id (snd (receive_delta e d lc)) \<in> {None, Some e}"
  "lc_current_epoch_id lc = Some e \<Longrightarrow> lc_current_epoch_id (snd (lc_recovery_command lc)) \<in> {None, Some e}"
  by (auto simp: receive_subscribed_def receive_snapshot_def receive_delta_def fail_epoch_def
      lc_recovery_command_def Let_def split: sum.splits option.splits prod.splits)

lemma session_terminate_handler:
  assumes "session_ok ss0" "session_ok ss" "strip r \<noteq> []"
    and "lc_current_epoch_id (ss_lifecycle ss) = Some e"
  shows "handler_ok e ss0 (session_terminate e r ss) \<and> is_ok (fst (session_terminate e r ss))"
  using assms session_terminate_ok [OF assms(2), of e r]
  by (simp add: handler_ok_def outcome_sound_def session_terminate_def terminate_epoch_def require_epoch_def
      session_ok_def lifecycle_ok_def)

lemma on_subscribed_handler:
  assumes "session_ok ss" "lc_current_epoch_id (ss_lifecycle ss) = Some e"
  shows "handler_ok e ss (on_subscribed e p ss)"
proof (cases "subscribed_from_payload p")
  case (Inl z)
  then show ?thesis
    using assms raisesD [OF raises_on_subscribed, of e p ss z]
    by (simp add: handler_ok_def on_subscribed_def)
next
  case (Inr r)
  obtain x lc where x: "receive_subscribed e r (ss_lifecycle ss) = (x, lc)" by fastforce
  then have "lc_current_epoch_id lc \<in> {None, Some e}"
    using receive_keeps_epoch(1) [OF assms(2), of r] by simp
  then show ?thesis
    using Inr x raises_on_subscribed [of e p ss] on_subscribed_ok [OF assms(1), of e p]
    by (cases x; cases "lc_orderbook_view lc")
      (auto simp: on_subscribed_def handler_ok_def outcome_sound_def Let_def)
qed

lemma on_error_handler:
  assumes "session_ok ss" "lc_current_epoch_id (ss_lifecycle ss) = Some e"
  shows "handler_ok e ss (on_error e p ss)"
proof (cases "error_from_payload p")
  case (Inl z)
  then show ?thesis
    using assms raisesD [OF raises_on_error, of e p ss z]
    by (simp add: handler_ok_def on_error_def)
next
  case (Inr r)
  have "require_epoch e (ss_lifecycle ss) = Inr ()"
    using assms lifecycle_ok_current by (auto simp: session_ok_def)
  then show ?thesis
    using Inr raises_on_error [of e p ss] on_error_ok [OF assms(1), of e p]
    by (cases "map_of (lc_epoch_commands (ss_lifecycle ss)) (we_command_id r)")
      (auto simp: on_error_def receive_error_def fail_epoch_def handler_ok_def outcome_sound_def)
qed

text \<open>A book that a receiver returns is the one the lifecycle then shows, if it shows one.\<close>

lemma receive_snapshot_view:
  "receive_snapshot e s lc = (Inr (Some v), lc') \<Longrightarrow> orderbook_publishable lc' \<Longrightarrow>
     lc_orderbook_view lc' = Some v"
  by (auto simp: receive_snapshot_def lc_orderbook_view_def orderbook_view_def fail_epoch_def
      dest: apply_snapshot_fields(2) split: option.splits sum.splits prod.splits if_splits)

lemma apply_delta_view: "apply_delta d st = (Inr v, st') \<Longrightarrow> ob_view_opt st' = Some v \<and> ob_valid st'"
  by (auto simp: apply_delta_def Let_def split: option.splits if_splits)

lemma receive_delta_view:
  "receive_delta e d lc = (Inr v, lc') \<Longrightarrow> orderbook_publishable lc' \<Longrightarrow> lc_orderbook_view lc' = Some v"
  by (auto simp: receive_delta_def lc_orderbook_view_def orderbook_view_def fail_epoch_def Let_def
      dest: apply_delta_view split: option.splits sum.splits prod.splits if_splits)

lemma on_snapshot_handler:
  assumes "session_ok ss" "lc_current_epoch_id (ss_lifecycle ss) = Some e"
  shows "handler_ok e ss (on_snapshot e p ss)"
proof (cases "snapshot_from_payload p")
  case (Inl z)
  then show ?thesis
    using assms raisesD [OF raises_on_snapshot, of e p ss z]
    by (simp add: handler_ok_def on_snapshot_def)
next
  case (Inr s)
  obtain x lc where x: "receive_snapshot e s (ss_lifecycle ss) = (x, lc)" by fastforce
  then have cur: "lc_current_epoch_id lc \<in> {None, Some e}"
    using receive_keeps_epoch(2) [OF assms(2), of s] by simp
  show ?thesis
  proof (cases x)
    case (Inl z)
    then show ?thesis
      using \<open>snapshot_from_payload p = Inr s\<close> x cur raises_on_snapshot [of e p ss] on_snapshot_ok [OF assms(1), of e p]
      by (auto simp: on_snapshot_def handler_ok_def outcome_sound_def Let_def split: if_splits)
  next
    case (Inr v)
    then show ?thesis
      using \<open>snapshot_from_payload p = Inr s\<close> x cur on_snapshot_ok [OF assms(1), of e p]
        receive_snapshot_view [of e s "ss_lifecycle ss" _ lc]
      by (cases v) (auto simp: on_snapshot_def handler_ok_def outcome_sound_def Let_def)
  qed
qed

lemma private_frame_handler:
  assumes "session_ok ss" "lc_current_epoch_id (ss_lifecycle ss) = Some e"
  shows "handler_ok e ss (private_frame e c p ss)"
proof -
  have t: "handler_ok e ss (session_terminate e ''invalid_private_frame_envelope'' ss)"
    using session_terminate_handler [OF assms(1,1) _ assms(2)] by simp
  have "handler_ok e ss (Inr (PrivateFrame e c sid), ss)"
    if "map_of (ss_channel_sids ss) (private_channel_text c) = Some sid" for sid
    using assms that by (simp add: handler_ok_def outcome_sound_def)
  with t show ?thesis by (simp add: private_frame_def split: pyval.splits)
qed

lemma recovery_ids_command [simp]:
  "recovery_ids (recovery_command_payload command_id sid ticker) = Some (command_id, sid, ticker)"
  by (simp add: recovery_ids_def recovery_command_payload_def py_get_or_def)

lemma on_delta_handler:
  assumes ss: "session_ok ss" and cur: "lc_current_epoch_id (ss_lifecycle ss) = Some e"
  shows "handler_ok e ss (on_delta e p ss)"
proof (cases "delta_from_payload p")
  case (Inl z)
  then show ?thesis
    using assms raisesD [OF raises_on_delta, of e p ss z] by (simp add: handler_ok_def on_delta_def)
next
  case d: (Inr d)
  obtain x lc where x: "receive_delta e d (ss_lifecycle ss) = (x, lc)" by fastforce
  then have c: "lc_current_epoch_id lc \<in> {None, Some e}"
    using receive_keeps_epoch(3) [OF cur, of d] by simp
  have counters: "counters_le (ss_lifecycle ss) lc" using receive_counters(3) [of "ss_lifecycle ss" e d] x by simp
  have lc: "lifecycle_ok lc"
    using ss x receive_delta_ok [of "ss_lifecycle ss" d e] delta_from_payload_ok [OF d]
    by (simp add: session_ok_def)
  note raised = raises_on_delta [of e p ss] and kept = on_delta_ok [OF ss, of e p]
  show ?thesis
  proof (cases x)
    case (Inr v)
    then show ?thesis
      using d x c kept receive_delta_view [of e d "ss_lifecycle ss" v lc]
      by (auto simp: on_delta_def handler_ok_def outcome_sound_def)
  next
    case (Inl z)
    show ?thesis
    proof (cases "is_lifecycle_error z \<and> lc_current_epoch_id lc \<noteq> None \<and> \<not> ss_recovery_emitted ss")
      case False
      then show ?thesis
        using Inl d x c kept raised by (auto simp: on_delta_def handler_ok_def outcome_sound_def Let_def)
    next
      case True
      then have lce: "lc_current_epoch_id lc = Some e" using c by auto
      show ?thesis
      proof (cases "lc_recovery_command lc")
        case (Pair y lc')
        have c': "lc_current_epoch_id lc' \<in> {None, Some e}" using receive_keeps_epoch(4) [OF lce] Pair by simp
        show ?thesis
        proof (cases y)
          case y: (Inl z')
          then show ?thesis
            using Inl True d x c' Pair kept raised by (auto simp: on_delta_def handler_ok_def Let_def)
        next
          case y: (Inr command)
          obtain st r where st: "lc_orderbook_state lc = Some st" and r: "ob_recovery_opt st = Some r"
            and lc': "lc' = lc\<lparr>lc_command_counter := lc_command_counter lc + 1\<rparr>"
            and command: "command = recovery_command_payload (lc_command_counter lc + 1) (rc_sid r) (rc_market_ticker r)"
            using Pair y by (auto simp: lc_recovery_command_def recovery_command_def Let_def
                split: option.splits if_splits)
          have "orderbook_ok st" using lifecycle_ok_current [OF lc lce] st by (simp add: epoch_ok_def)
          then have "\<not> ob_valid st" using r by (auto simp: orderbook_ok_def split: option.splits if_splits)
          then have "lc_orderbook_view lc' = None"
            using st lc' by (simp add: lc_orderbook_view_def orderbook_publishable_def)
          then show ?thesis
            using Inl True d x c' Pair y kept counters lc' command
            by (auto simp: on_delta_def handler_ok_def outcome_sound_def Let_def counters_le_def)
        qed
      qed
    qed
  qed
qed

lemma route_frame_handler:
  assumes "session_ok ss" "lc_current_epoch_id (ss_lifecycle ss) = Some e"
    and "route_frame e t p ss = Some x"
  shows "handler_ok e ss x"
  using assms(3) on_subscribed_handler [OF assms(1,2)] on_error_handler [OF assms(1,2)]
    on_snapshot_handler [OF assms(1,2)] on_delta_handler [OF assms(1,2)] private_frame_handler [OF assms(1,2)]
  by (auto simp: route_frame_def split: if_splits)

text \<open>The whole of \<open>receive\<close> returns, keeps the invariant, and answers soundly.\<close>

lemma session_receive_sound:
  assumes ss: "session_ok ss"
  shows "\<exists>r. fst (session_receive e payload ss) = Inr r
    \<and> session_ok (snd (session_receive e payload ss))
    \<and> outcome_sound e ss r (snd (session_receive e payload ss))"
proof (cases "ss_epoch_id ss = Some e \<and> lc_current_epoch_id (ss_lifecycle ss) = Some e")
  case False
  then show ?thesis using ss by (auto simp: session_receive_def outcome_sound_def)
next
  case True
  then have cur: "lc_current_epoch_id (ss_lifecycle ss) = Some e" by simp
  have close: "\<exists>r. fst (session_terminate e m ss') = Inr r \<and> session_ok (snd (session_terminate e m ss'))
      \<and> outcome_sound e ss r (snd (session_terminate e m ss'))"
    if "session_ok ss'" "lc_current_epoch_id (ss_lifecycle ss') = Some e" "strip m \<noteq> []" for m ss'
    using session_terminate_handler [OF ss that(1,3,2)]
    by (auto simp: handler_ok_def is_ok_iff)
  show ?thesis
  proof (cases "\<exists>p t x. payload = PDict p \<and> py_get p ''type'' = PStr t \<and> route_frame e t p ss = Some x")
    case False
    then have "session_receive e payload ss = session_terminate e ''malformed_frame'' ss
      \<or> session_receive e payload ss = session_terminate e ''unknown_frame_type'' ss"
      using True by (auto simp: session_receive_def split: pyval.splits option.splits)
    then show ?thesis using close [OF ss cur] by auto
  next
    case routed: True
    then obtain p t x where payload: "payload = PDict p" "py_get p ''type'' = PStr t"
      and x: "route_frame e t p ss = Some x" by blast
    have h: "handler_ok e ss x" by (rule route_frame_handler [OF ss cur x])
    obtain y ss' where y: "x = (y, ss')" by (cases x)
    show ?thesis
    proof (cases y)
      case (Inr r)
      then show ?thesis using True payload x y h by (simp add: session_receive_def handler_ok_def)
    next
      case (Inl z)
      then have ss': "session_ok ss'" "lc_current_epoch_id (ss_lifecycle ss') \<in> {None, Some e}" "session_caught z"
        using h y by (simp_all add: handler_ok_def)
      show ?thesis
      proof (cases "lc_current_epoch_id (ss_lifecycle ss') = None")
        case none: True
        then show ?thesis
          using True payload x y Inl ss' by (simp add: session_receive_def outcome_sound_def)
      next
        case False
        then have "lc_current_epoch_id (ss_lifecycle ss') = Some e" using ss'(2) by auto
        from close [OF ss'(1) this, of "''malformed_frame''"] show ?thesis
          using True payload x y Inl ss' False by (simp add: session_receive_def)
      qed
    qed
  qed
qed

section \<open>Properties of the session\<close>

datatype session_op = BeginEpoch int | Frame int pyval

fun session_step :: "('k \<Rightarrow> string \<Rightarrow> string) \<Rightarrow> session_op \<Rightarrow> 'k session \<Rightarrow> 'k session" where
  "session_step sign (BeginEpoch ts) ss = snd (session_begin sign ts ss)"
| "session_step sign (Frame e p) ss = snd (session_receive e p ss)"

lemma session_begin_ok: "session_ok ss \<Longrightarrow> session_ok (snd (session_begin sign ts ss))"
  using begin_connection_ok [of "ss_lifecycle ss" sign ts]
  by (auto simp: session_begin_def session_ok_def split: prod.splits sum.splits)

interpretation session: machine session_ok "session_step sign"
  for sign :: "'k \<Rightarrow> string \<Rightarrow> string"
proof
  fix ss :: "'k session" and x
  assume "session_ok ss"
  then show "session_ok (session_step sign x ss)"
    using session_receive_sound [of ss] by (cases x) (auto simp: session_begin_ok)
qed

text \<open>
  C11: the session is total. After any connections and frames, whatever the next frame is
  (not an object, unknown, malformed, stale, or one the lifecycle rejects), \<open>receive\<close>
  returns an outcome and never raises, and the outcome is sound: a published book is the one
  the lifecycle shows, a termination has closed the epoch, a private frame came on the
  acknowledged subscription, and a requested recovery carries a new command id while no
  book is shown.
\<close>

theorem session_answers_every_frame:
  assumes "make_lifecycle s ticker mid = Inr lc"
    and "ss = fold (session_step sign) ops (make_session lc)"
  shows "\<exists>r ss'. session_receive e payload ss = (Inr r, ss') \<and> outcome_sound e ss r ss'"
proof -
  have "session_ok (make_session lc)"
    using make_lifecycle_ok [OF assms(1)] by (simp add: session_ok_def make_session_def)
  then have "session_ok ss" unfolding assms(2) by (rule session.run_inv)
  from session_receive_sound [OF this, of e payload] show ?thesis
    by (metis prod.collapse)
qed

fun session_trace :: "int \<Rightarrow> pyval list \<Rightarrow> 'k session \<Rightarrow> session_outcome list" where
  "session_trace e [] ss = []"
| "session_trace e (p # ps) ss =
     (case session_receive e p ss of
        (Inl _, ss') \<Rightarrow> session_trace e ps ss'
      | (Inr r, ss') \<Rightarrow> r # session_trace e ps ss')"

definition is_recovery :: "session_outcome \<Rightarrow> bool" where
  "is_recovery r = (case r of RecoveryRequested _ _ _ _ \<Rightarrow> True | _ \<Rightarrow> False)"

definition is_snapshot_frame :: "pyval \<Rightarrow> bool" where
  "is_snapshot_frame v = (case v of PDict p \<Rightarrow> py_get p ''type'' = PStr ''orderbook_snapshot'' | _ \<Rightarrow> False)"

lemma session_terminate_emitted [simp]:
  "ss_recovery_emitted (snd (session_terminate e r ss)) = ss_recovery_emitted ss"
  by (auto simp: session_terminate_def split: prod.splits sum.splits)

lemma handlers_keep_emitted:
  "ss_recovery_emitted ss \<Longrightarrow> ss_recovery_emitted (snd (on_subscribed e p ss))"
  "ss_recovery_emitted ss \<Longrightarrow> ss_recovery_emitted (snd (on_error e p ss))"
  "ss_recovery_emitted ss \<Longrightarrow> ss_recovery_emitted (snd (on_delta e p ss))"
  "ss_recovery_emitted ss \<Longrightarrow> ss_recovery_emitted (snd (private_frame e c p ss))"
  by (auto simp: on_subscribed_def on_error_def on_delta_def private_frame_def Let_def
      split: sum.splits prod.splits option.splits pyval.splits)

lemma session_receive_keeps_emitted:
  assumes "ss_recovery_emitted ss" "\<not> is_snapshot_frame payload"
  shows "ss_recovery_emitted (snd (session_receive e payload ss))"
proof -
  have "ss_recovery_emitted ss'" if "payload = PDict p" "py_get p ''type'' = PStr t"
    "route_frame e t p ss = Some (x, ss')" for p t x ss'
    using that assms handlers_keep_emitted [OF assms(1)]
    by (auto simp: route_frame_def is_snapshot_frame_def prod_eq_iff split: if_splits)
  then show ?thesis
    using assms(1) by (auto simp: session_receive_def split: pyval.splits option.splits sum.splits)
qed

lemma no_recovery_while_emitted:
  "session_ok ss \<Longrightarrow> ss_recovery_emitted ss \<Longrightarrow> \<forall>p \<in> set ps. \<not> is_snapshot_frame p \<Longrightarrow>
     filter is_recovery (session_trace e ps ss) = []"
proof (induction ps arbitrary: ss)
  case (Cons p ps)
  obtain r ss' where r: "session_receive e p ss = (Inr r, ss')" "session_ok ss'" "outcome_sound e ss r ss'"
    using session_receive_sound [OF Cons.prems(1), of e p] by (metis prod.collapse)
  have "ss_recovery_emitted ss'"
    using session_receive_keeps_emitted [of ss p e] Cons.prems r(1) by simp
  moreover have "\<not> is_recovery r"
    using r(3) Cons.prems(2) by (auto simp: outcome_sound_def is_recovery_def split: session_outcome.splits)
  ultimately show ?case using Cons r by simp
qed simp

text \<open>
  at most one recovery is in flight. Until a snapshot frame arrives, the outcomes of
  one epoch hold at most one request for a recovery snapshot, however many deltas are out
  of sequence.
\<close>

theorem one_recovery_in_flight:
  assumes "session_ok ss" and "\<forall>p \<in> set ps. \<not> is_snapshot_frame p"
  shows "length (filter is_recovery (session_trace e ps ss)) \<le> 1"
  using assms
proof (induction ps arbitrary: ss)
  case (Cons p ps)
  obtain r ss' where r: "session_receive e p ss = (Inr r, ss')" "session_ok ss'" "outcome_sound e ss r ss'"
    using session_receive_sound [OF Cons.prems(1), of e p] by (metis prod.collapse)
  show ?case
  proof (cases "is_recovery r")
    case True
    then have "ss_recovery_emitted ss'"
      using r(3) by (auto simp: outcome_sound_def is_recovery_def split: session_outcome.splits)
    then show ?thesis using no_recovery_while_emitted [OF r(2), of ps e] Cons.prems r(1) True by simp
  next
    case False
    then show ?thesis using Cons r by simp
  qed
qed simp

section \<open>Concrete instances\<close>

lemma session_answers_every_frame_witness:
  "\<exists>r ss'. session_receive 1 (PInt 3)
      (fold (session_step (\<lambda>_ m. m)) [BeginEpoch 5] (make_session fresh_lifecycle)) = (Inr r, ss')
    \<and> outcome_sound 1 (fold (session_step (\<lambda>_ m. m)) [BeginEpoch 5] (make_session fresh_lifecycle)) r ss'"
  by (rule session_answers_every_frame [OF fresh_lifecycle_made refl])

lemma one_recovery_in_flight_witness:
  "length (filter is_recovery (session_trace 1 [PNone, PDict []]
     \<lparr>ss_lifecycle = open_lifecycle, ss_epoch_id = Some 1, ss_channel_sids = [], ss_recovery_emitted = False\<rparr>)) \<le> 1"
  by (rule one_recovery_in_flight)
    (simp_all add: session_ok_def open_lifecycle_ok is_snapshot_frame_def py_get_or_def)

end
