(* ===== verification/Ledger.thy ===== *)
theory Ledger
  imports Contracts
begin

text \<open>
  \<open>services/venue_execution_ledger.py\<close> over the tables of \<open>models/database.py\<close> it writes:
  order intents, execution events and provider acknowledgements. A table is the list of its
  rows in insertion order. The unique constraints of the tables are checked where the
  statements of the source meet them; \<open>uuid4()\<close> and \<open>now()\<close> are arguments. The locks the
  source takes make each operation atomic, so an operation is a function of the tables.

  An exact numeric keeps its value in its column, not its form, and two of them are
  compared by value. Evidence with datetimes in its payload is not modelled (no caller in
  the modelled modules has any).
\<close>

section \<open>Python equality of decoded values\<close>

text \<open>
  \<open>==\<close> on what JSON evidence is made of: booleans are the integers 0 and 1, and the order
  of a dictionary's items is immaterial.
\<close>

fun py_eq :: "pyval \<Rightarrow> pyval \<Rightarrow> bool" where
  "py_eq (PBool a) (PInt i) = (i = (if a then 1 else 0))"
| "py_eq (PInt i) (PBool a) = (i = (if a then 1 else 0))"
| "py_eq (PList xs) (PList ys) = list_all2 py_eq xs ys"
| "py_eq (PDict d) (PDict e) =
     (length d = length e
      \<and> list_all (\<lambda>kv. case map_of e (fst kv) of None \<Rightarrow> False | Some w \<Rightarrow> py_eq (snd kv) w) d)"
| "py_eq v w = (v = w)"

definition payload_eq :: "pydict \<Rightarrow> pydict \<Rightarrow> bool" where
  "payload_eq p q = (p = q \<or> py_eq (PDict p) (PDict q))"

lemma payload_eq_refl [simp]: "payload_eq p p"
  by (simp add: payload_eq_def)

section \<open>Normalisation\<close>

definition numeric_scale :: int where "numeric_scale = 18"
definition numeric_limit :: rat where "numeric_limit = 10 ^ 20"

definition exact_numeric :: "dec \<Rightarrow> string \<Rightarrow> dec res" where
  "exact_numeric d field_name =
     (if dexp d < - numeric_scale then Inl (ValueError (field_name @ '' exceeds 18 decimal places''))
      else if numeric_limit \<le> \<bar>dval d\<bar>
      then Inl (ValueError (field_name @ '' exceeds 20 integer digits''))
      else Inr d)"

definition blank_to_none :: "string option \<Rightarrow> string option" where
  "blank_to_none v = (case v of None \<Rightarrow> None | Some s \<Rightarrow> if strip s = [] then None else Some (strip s))"

text \<open>\<open>_json_evidence\<close>: decimals become text, binary floats are refused.\<close>

fun json_evidence :: "pyval \<Rightarrow> pyval res" where
  "json_evidence (PDict d) =
     bindE (traverseE (\<lambda>kv. bindE (json_evidence (snd kv)) (\<lambda>v. Inr (fst kv, v))) d) (\<lambda>kvs. Inr (PDict kvs))"
| "json_evidence (PList xs) = bindE (traverseE json_evidence xs) (\<lambda>ys. Inr (PList ys))"
| "json_evidence (PDec d) = Inr (PStr (pydec_format d))"
| "json_evidence (PFloat r) = Inl (TypeError ''JSON financial evidence cannot contain binary floats'')"
| "json_evidence v = Inr v"

definition json_payload :: "pydict \<Rightarrow> pydict res" where
  "json_payload p =
     traverseE (\<lambda>kv. bindE (json_evidence (snd kv)) (\<lambda>v. Inr (fst kv, v))) p"

text \<open>\<open>value.tzinfo is None: raise\<close>, else the instant in UTC.\<close>

definition aware_instant :: "py_datetime \<Rightarrow> string \<Rightarrow> int res" where
  "aware_instant t m = (case t of Aware i \<Rightarrow> Inr i | Naive _ \<Rightarrow> Inl (ValueError m))"

section \<open>Provenance and acknowledgement evidence\<close>

record provenance =
  pv_source :: string
  pv_source_id :: "string option"
  pv_decision_id :: "string option"
  pv_strategy_key :: "string option"
  pv_strategy_version :: "int option"
  pv_trace_id :: "string option"
  pv_fingerprint :: "string option"

definition make_provenance :: "provenance \<Rightarrow> provenance res" where
  "make_provenance a =
     (if strip (pv_source a) = [] then Inl (ValueError ''provenance source is required'')
      else if (case pv_fingerprint a of None \<Rightarrow> False | Some f \<Rightarrow> \<not> sha256_text f)
      then Inl (ValueError ''authenticated principal fingerprint must be a lowercase SHA-256'')
      else Inr (a\<lparr>pv_source := strip (pv_source a)\<rparr>))"

record ack_args =
  aa_venue :: string
  aa_client_order_id :: string
  aa_provider_order_id :: string
  aa_provider_status :: string
  aa_filled_quantity :: dec
  aa_remaining_quantity :: dec
  aa_provider_timestamp :: py_datetime
  aa_payload :: pydict

record initial_ack =
  va_venue :: venue
  va_client_order_id :: string
  va_provider_order_id :: string
  va_provider_status :: string
  va_filled_quantity :: dec
  va_remaining_quantity :: dec
  va_provider_timestamp :: int
  va_payload :: pydict

definition make_initial_ack :: "ack_args \<Rightarrow> initial_ack res" where
  "make_initial_ack a =
     (let client_order_id = strip (aa_client_order_id a);
          provider_order_id = strip (aa_provider_order_id a);
          provider_status = strip (aa_provider_status a) in
     bindE (opt_or (venue_of (strip (aa_venue a))) (ValueError ''unsupported acknowledgement venue'')) (\<lambda>v.
     if client_order_id = [] \<or> provider_order_id = [] \<or> provider_status = []
     then Inl (ValueError ''acknowledgement identities and status are required'') else
     bindE (exact_numeric (aa_filled_quantity a) ''filled_quantity'') (\<lambda>filled.
     bindE (exact_numeric (aa_remaining_quantity a) ''remaining_quantity'') (\<lambda>remaining.
     if dval filled < 0 \<or> dval remaining < 0
     then Inl (ValueError ''acknowledgement quantities cannot be negative'') else
     bindE (aware_instant (aa_provider_timestamp a) ''provider_timestamp must be timezone-aware'') (\<lambda>ts.
     bindE (json_payload (aa_payload a)) (\<lambda>payload.
     Inr \<lparr>va_venue = v, va_client_order_id = client_order_id, va_provider_order_id = provider_order_id,
       va_provider_status = provider_status, va_filled_quantity = filled,
       va_remaining_quantity = remaining, va_provider_timestamp = ts, va_payload = payload\<rparr>))))))"

section \<open>The tables\<close>

record intent_row =
  ir_id :: string
  ir_intent :: venue_order_intent
  ir_provenance :: provenance
  ir_created_at :: int

record event_row =
  ev_id :: string
  ev_intent_id :: string
  ev_venue :: venue
  ev_sequence :: nat
  ev_event_type :: string
  ev_source :: string
  ev_dedupe_key :: string
  ev_provider_order_id :: "string option"
  ev_provider_event_id :: "string option"
  ev_occurred_at :: int
  ev_payload :: pydict
  ev_created_at :: int

record ack_row =
  ar_intent_id :: string
  ar_venue :: venue
  ar_client_order_id :: string
  ar_provider_order_id :: string
  ar_provider_status :: string
  ar_filled_quantity :: dec
  ar_remaining_quantity :: dec
  ar_provider_timestamp :: int
  ar_payload :: pydict
  ar_created_at :: int

record ledger =
  lg_intents :: "intent_row list"
  lg_events :: "event_row list"
  lg_acks :: "ack_row list"

definition empty_ledger :: ledger where
  "empty_ledger = \<lparr>lg_intents = [], lg_events = [], lg_acks = []\<rparr>"

text \<open>The selects.\<close>

definition intent_by_id :: "string \<Rightarrow> ledger \<Rightarrow> intent_row option" where
  "intent_by_id i lg = List.find (\<lambda>r. ir_id r = i) (lg_intents lg)"

definition intent_by_client :: "venue \<times> string \<Rightarrow> ledger \<Rightarrow> intent_row option" where
  "intent_by_client k lg =
     List.find (\<lambda>r. (vi_venue (ir_intent r), vi_client_order_id (ir_intent r)) = k) (lg_intents lg)"

definition events_of :: "string \<Rightarrow> ledger \<Rightarrow> event_row list" where
  "events_of i lg = filter (\<lambda>e. ev_intent_id e = i) (lg_events lg)"

definition event_by_dedupe :: "string \<times> string \<Rightarrow> ledger \<Rightarrow> event_row option" where
  "event_by_dedupe k lg = List.find (\<lambda>e. (ev_intent_id e, ev_dedupe_key e) = k) (lg_events lg)"

definition event_by_provider :: "venue \<Rightarrow> string \<Rightarrow> ledger \<Rightarrow> event_row option" where
  "event_by_provider v pe lg =
     List.find (\<lambda>e. ev_venue e = v \<and> ev_provider_event_id e = Some pe) (lg_events lg)"

definition ack_by_intent :: "string \<Rightarrow> ledger \<Rightarrow> ack_row option" where
  "ack_by_intent i lg = List.find (\<lambda>a. ar_intent_id a = i) (lg_acks lg)"

definition ack_by_provider :: "venue \<times> string \<Rightarrow> ledger \<Rightarrow> ack_row option" where
  "ack_by_provider k lg = List.find (\<lambda>a. (ar_venue a, ar_provider_order_id a) = k) (lg_acks lg)"

text \<open>\<open>(max(sequence) or 0) + 1\<close>\<close>

definition next_sequence :: "string \<Rightarrow> ledger \<Rightarrow> nat" where
  "next_sequence i lg = foldr (\<lambda>e m. max (ev_sequence e) m) (events_of i lg) 0 + 1"

text \<open>
  \<open>session.add(event); flush()\<close>: the insert fails when the row's id, dedupe key or provider
  event id is taken.
\<close>

definition insert_event :: "event_row \<Rightarrow> (ledger, event_row) action" where
  "insert_event e lg =
     (if ev_id e \<in> set (map ev_id (lg_events lg))
         \<or> event_by_dedupe (ev_intent_id e, ev_dedupe_key e) lg \<noteq> None
         \<or> (case ev_provider_event_id e of None \<Rightarrow> False
            | Some pe \<Rightarrow> event_by_provider (ev_venue e) pe lg \<noteq> None)
      then (Inl (IntegrityError ''venue_execution_events''), lg)
      else (Inr e, lg\<lparr>lg_events := lg_events lg @ [e]\<rparr>))"

section \<open>\<open>record_intent\<close>\<close>

definition intent_eq :: "venue_order_intent \<Rightarrow> venue_order_intent \<Rightarrow> bool" where
  "intent_eq i j =
     (vi_venue i = vi_venue j \<and> vi_client_order_id i = vi_client_order_id j
      \<and> vi_instrument_id i = vi_instrument_id j \<and> vi_book_side i = vi_book_side j
      \<and> dval (vi_quantity i) = dval (vi_quantity j)
      \<and> dval (vi_limit_price i) = dval (vi_limit_price j)
      \<and> vi_time_in_force i = vi_time_in_force j \<and> vi_post_only i = vi_post_only j)"

definition stored_provenance :: "provenance \<Rightarrow> provenance" where
  "stored_provenance p =
     p\<lparr>pv_source_id := blank_to_none (pv_source_id p), pv_decision_id := blank_to_none (pv_decision_id p),
       pv_strategy_key := blank_to_none (pv_strategy_key p), pv_trace_id := blank_to_none (pv_trace_id p)\<rparr>"

text \<open>\<open>_intent_matches\<close>\<close>

definition intent_matches :: "intent_row \<Rightarrow> venue_order_intent \<times> provenance \<Rightarrow> bool" where
  "intent_matches r a = (intent_eq (ir_intent r) (fst a) \<and> ir_provenance r = stored_provenance (snd a))"

definition intent_key :: "venue_order_intent \<times> provenance \<Rightarrow> venue \<times> string" where
  "intent_key a = (vi_venue (fst a), vi_client_order_id (fst a))"

definition intent_recorded_event :: "string \<Rightarrow> intent_row \<Rightarrow> event_row" where
  "intent_recorded_event u r =
     \<lparr>ev_id = u, ev_intent_id = ir_id r, ev_venue = vi_venue (ir_intent r), ev_sequence = 1,
      ev_event_type = ''intent_recorded'', ev_source = pv_source (ir_provenance r),
      ev_dedupe_key = ''intent_recorded:v1'', ev_provider_order_id = None,
      ev_provider_event_id = None, ev_occurred_at = ir_created_at r, ev_payload = [],
      ev_created_at = ir_created_at r\<rparr>"

text \<open>The arguments \<open>u\<close>, \<open>u'\<close> and \<open>now\<close> are the two fresh ids and the clock.\<close>

definition record_intent ::
    "string \<times> string \<times> int \<Rightarrow> venue_order_intent \<times> provenance \<Rightarrow> (ledger, intent_row) action" where
  "record_intent f a lg =
     (let (u, u', now) = f in
      case bindE (exact_numeric (vi_quantity (fst a)) ''quantity'')
             (\<lambda>_. exact_numeric (vi_limit_price (fst a)) ''limit_price'') of
        Inl e \<Rightarrow> (Inl e, lg)
      | Inr _ \<Rightarrow>
          (case intent_by_client (intent_key a) lg of
             Some existing \<Rightarrow>
               if intent_matches existing a then (Inr existing, lg)
               else (Inl (VenueExecutionConflictError
                      ''client_order_id is already bound to different immutable intent facts''), lg)
           | None \<Rightarrow>
               if intent_by_id u lg \<noteq> None then (Inl (IntegrityError ''venue_order_intents''), lg)
               else
               let r = \<lparr>ir_id = u, ir_intent = fst a, ir_provenance = stored_provenance (snd a),
                     ir_created_at = now\<rparr>;
                   lg' = lg\<lparr>lg_intents := lg_intents lg @ [r]\<rparr>
               in case insert_event (intent_recorded_event u' r) lg' of
                   (Inl e, lg'') \<Rightarrow> (Inl e, lg'')
                 | (Inr _, lg'') \<Rightarrow> (Inr r, lg'')))"

section \<open>\<open>record_event\<close>\<close>

record event_args =
  ga_intent_id :: string
  ga_event_type :: string
  ga_source :: string
  ga_dedupe_key :: string
  ga_occurred_at :: py_datetime
  ga_payload :: pydict
  ga_provider_order_id :: "string option"
  ga_provider_event_id :: "string option"

text \<open>What the call asks to be recorded, normalised.\<close>

record event_facts =
  ef_event_type :: string
  ef_source :: string
  ef_provider_order_id :: "string option"
  ef_provider_event_id :: "string option"
  ef_occurred_at :: int
  ef_payload :: pydict

definition event_facts :: "event_args \<Rightarrow> event_facts res" where
  "event_facts a =
     (let event_type = strip (ga_event_type a); src = strip (ga_source a) in
      if event_type = [] \<or> event_type = ''intent_recorded''
      then Inl (ValueError ''event_type is required and intent_recorded is reserved'') else
      if src = [] \<or> strip (ga_dedupe_key a) = []
      then Inl (ValueError ''event source and dedupe_key are required'') else
      bindE (aware_instant (ga_occurred_at a) ''event occurred_at must be timezone-aware'') (\<lambda>t.
      bindE (json_payload (ga_payload a)) (\<lambda>payload.
      Inr \<lparr>ef_event_type = event_type, ef_source = src,
        ef_provider_order_id = blank_to_none (ga_provider_order_id a),
        ef_provider_event_id = blank_to_none (ga_provider_event_id a),
        ef_occurred_at = t, ef_payload = payload\<rparr>)))"

text \<open>\<open>_event_matches\<close>, with the venue and the dedupe key the row was found by.\<close>

definition event_matches :: "event_row \<Rightarrow> event_facts \<Rightarrow> bool" where
  "event_matches e x =
     (ev_event_type e = ef_event_type x \<and> ev_source e = ef_source x
      \<and> ev_provider_order_id e = ef_provider_order_id x
      \<and> ev_provider_event_id e = ef_provider_event_id x
      \<and> ev_occurred_at e = ef_occurred_at x \<and> payload_eq (ev_payload e) (ef_payload x))"

definition provider_order_known :: "string \<Rightarrow> string option \<Rightarrow> ledger \<Rightarrow> bool" where
  "provider_order_known i po lg =
     (case po of None \<Rightarrow> True
      | Some p \<Rightarrow> (case ack_by_intent i lg of None \<Rightarrow> False | Some a \<Rightarrow> ar_provider_order_id a = p))"

definition record_event :: "string \<times> int \<Rightarrow> event_args \<Rightarrow> (ledger, event_row) action" where
  "record_event f a lg =
     (case event_facts a of
        Inl e \<Rightarrow> (Inl e, lg)
      | Inr x \<Rightarrow>
     case intent_by_id (ga_intent_id a) lg of
        None \<Rightarrow> (Inl (VenueExecutionConflictError ''unknown order intent''), lg)
      | Some r \<Rightarrow>
     if ef_provider_event_id x \<noteq> None \<and> ef_provider_order_id x = None
     then (Inl (ValueError ''provider_event_id requires provider_order_id''), lg)
     else if \<not> provider_order_known (ga_intent_id a) (ef_provider_order_id x) lg
     then (Inl (VenueExecutionConflictError
            (''provider_order_id does not match the intent'' @ CHR 0x27 # ''s immutable acknowledgement'')), lg)
     else case event_by_dedupe (ga_intent_id a, strip (ga_dedupe_key a)) lg of
        Some existing \<Rightarrow>
          if ev_venue existing = vi_venue (ir_intent r) \<and> event_matches existing x
          then (Inr existing, lg)
          else (Inl (VenueExecutionConflictError
                 ''event dedupe_key is already bound to different immutable evidence''), lg)
      | None \<Rightarrow>
     if (case ef_provider_event_id x of None \<Rightarrow> False
         | Some pe \<Rightarrow> event_by_provider (vi_venue (ir_intent r)) pe lg \<noteq> None)
     then (Inl (VenueExecutionConflictError
            ''provider_event_id is already bound to different immutable evidence''), lg)
     else insert_event
       \<lparr>ev_id = fst f, ev_intent_id = ga_intent_id a, ev_venue = vi_venue (ir_intent r),
        ev_sequence = next_sequence (ga_intent_id a) lg, ev_event_type = ef_event_type x,
        ev_source = ef_source x, ev_dedupe_key = strip (ga_dedupe_key a),
        ev_provider_order_id = ef_provider_order_id x, ev_provider_event_id = ef_provider_event_id x,
        ev_occurred_at = ef_occurred_at x, ev_payload = ef_payload x, ev_created_at = snd f\<rparr> lg)"

section \<open>\<open>record_initial_acknowledgement\<close>\<close>

text \<open>\<open>_acknowledgement_matches\<close>\<close>

definition ack_matches :: "ack_row \<Rightarrow> string \<times> initial_ack \<Rightarrow> bool" where
  "ack_matches r x =
     (let (i, a) = x in
      ar_intent_id r = i \<and> ar_venue r = va_venue a \<and> ar_client_order_id r = va_client_order_id a
      \<and> ar_provider_order_id r = va_provider_order_id a \<and> ar_provider_status r = va_provider_status a
      \<and> dval (ar_filled_quantity r) = dval (va_filled_quantity a)
      \<and> dval (ar_remaining_quantity r) = dval (va_remaining_quantity a)
      \<and> ar_provider_timestamp r = va_provider_timestamp a
      \<and> payload_eq (ar_payload r) (va_payload a))"

text \<open>\<open>with localcontext() as c: c.prec = 39\<close>\<close>

definition acknowledged_quantity :: "initial_ack \<Rightarrow> dec" where
  "acknowledged_quantity a = dec_add 39 (va_filled_quantity a) (va_remaining_quantity a)"

definition submission_acknowledged_event :: "string \<Rightarrow> nat \<Rightarrow> int \<Rightarrow> string \<Rightarrow> initial_ack \<Rightarrow> event_row" where
  "submission_acknowledged_event u sq now i a =
     \<lparr>ev_id = u, ev_intent_id = i, ev_venue = va_venue a, ev_sequence = sq,
      ev_event_type = ''submission_acknowledged'', ev_source = ''provider_acknowledgement'',
      ev_dedupe_key = ''submission_acknowledged:'' @ va_provider_order_id a,
      ev_provider_order_id = Some (va_provider_order_id a), ev_provider_event_id = None,
      ev_occurred_at = va_provider_timestamp a, ev_payload = va_payload a, ev_created_at = now\<rparr>"

definition record_initial_acknowledgement ::
    "string \<times> int \<Rightarrow> string \<times> initial_ack \<Rightarrow> (ledger, ack_row) action" where
  "record_initial_acknowledgement f x lg =
     (let (u, now) = f; (i, a) = x in
      case intent_by_id i lg of
        None \<Rightarrow> (Inl (VenueExecutionConflictError ''unknown order intent''), lg)
      | Some r \<Rightarrow>
     if vi_venue (ir_intent r) \<noteq> va_venue a
     then (Inl (VenueExecutionConflictError ''acknowledgement venue does not match intent''), lg)
     else if vi_client_order_id (ir_intent r) \<noteq> va_client_order_id a
     then (Inl (VenueExecutionConflictError ''acknowledgement client_order_id does not match intent''), lg)
     else if dval (acknowledged_quantity a) \<noteq> dval (vi_quantity (ir_intent r))
     then (Inl (VenueExecutionConflictError
            ''acknowledgement quantity does not match the intended quantity''), lg)
     else case ack_by_intent i lg of
        Some existing \<Rightarrow>
          if ack_matches existing x then (Inr existing, lg)
          else (Inl (VenueExecutionConflictError
                 ''intent already has a different immutable provider acknowledgement''), lg)
      | None \<Rightarrow>
     if ack_by_provider (va_venue a, va_provider_order_id a) lg \<noteq> None
     then (Inl (VenueExecutionConflictError
            ''provider_order_id is already bound to another order intent''), lg)
     else
     let row = \<lparr>ar_intent_id = i, ar_venue = va_venue a, ar_client_order_id = va_client_order_id a,
           ar_provider_order_id = va_provider_order_id a, ar_provider_status = va_provider_status a,
           ar_filled_quantity = va_filled_quantity a, ar_remaining_quantity = va_remaining_quantity a,
           ar_provider_timestamp = va_provider_timestamp a, ar_payload = va_payload a, ar_created_at = now\<rparr>;
         lg' = lg\<lparr>lg_acks := lg_acks lg @ [row]\<rparr>
     in case insert_event (submission_acknowledged_event u (next_sequence i lg) now i a) lg' of
         (Inl e, lg'') \<Rightarrow> (Inl e, lg'')
       | (Inr _, lg'') \<Rightarrow> (Inr row, lg''))"

section \<open>The invariant of the tables\<close>

definition event_row_ok :: "ledger \<Rightarrow> event_row \<Rightarrow> bool" where
  "event_row_ok lg e =
     ((case intent_by_id (ev_intent_id e) lg of None \<Rightarrow> False
       | Some r \<Rightarrow> vi_venue (ir_intent r) = ev_venue e)
      \<and> provider_order_known (ev_intent_id e) (ev_provider_order_id e) lg)"

definition ack_row_ok :: "ledger \<Rightarrow> ack_row \<Rightarrow> bool" where
  "ack_row_ok lg a =
     (case intent_by_id (ar_intent_id a) lg of None \<Rightarrow> False
      | Some r \<Rightarrow> vi_venue (ir_intent r) = ar_venue a \<and> vi_client_order_id (ir_intent r) = ar_client_order_id a)"

definition sequences_ok :: "ledger \<Rightarrow> bool" where
  "sequences_ok lg = (\<forall>i. map ev_sequence (events_of i lg) = [1..<Suc (length (events_of i lg))])"

abbreviation client_keys :: "ledger \<Rightarrow> (venue \<times> string) list" where
  "client_keys lg \<equiv> map (\<lambda>r. (vi_venue (ir_intent r), vi_client_order_id (ir_intent r))) (lg_intents lg)"

abbreviation dedupe_keys :: "ledger \<Rightarrow> (string \<times> string) list" where
  "dedupe_keys lg \<equiv> map (\<lambda>e. (ev_intent_id e, ev_dedupe_key e)) (lg_events lg)"

abbreviation provider_keys :: "ledger \<Rightarrow> (venue \<times> string) list" where
  "provider_keys lg \<equiv> map (\<lambda>a. (ar_venue a, ar_provider_order_id a)) (lg_acks lg)"

text \<open>The provider event ids, with their venue.\<close>

definition provider_events :: "event_row list \<Rightarrow> (venue \<times> string) list" where
  "provider_events es =
     List.map_filter (\<lambda>e. map_option (\<lambda>p. (ev_venue e, p)) (ev_provider_event_id e)) es"

definition tables_ok :: "ledger \<Rightarrow> bool" where
  "tables_ok lg =
     (distinct (map ir_id (lg_intents lg)) \<and> distinct (client_keys lg)
      \<and> distinct (dedupe_keys lg) \<and> distinct (provider_events (lg_events lg))
      \<and> distinct (map ar_intent_id (lg_acks lg)) \<and> distinct (provider_keys lg)
      \<and> (\<forall>e \<in> set (lg_events lg). event_row_ok lg e) \<and> (\<forall>a \<in> set (lg_acks lg). ack_row_ok lg a)
      \<and> sequences_ok lg)"

text \<open>Every intent has the event of its recording, at sequence 1.\<close>

definition opened :: "ledger \<Rightarrow> bool" where
  "opened lg = (\<forall>r \<in> set (lg_intents lg). \<exists>e \<in> set (lg_events lg).
     ev_intent_id e = ir_id r \<and> ev_sequence e = 1 \<and> ev_event_type e = ''intent_recorded'')"

definition ledger_ok :: "ledger \<Rightarrow> bool" where
  "ledger_ok lg = (tables_ok lg \<and> opened lg)"

lemma foldr_max_from: "foldr (\<lambda>e m. max (f e) m) xs (k :: nat) = max (foldr (\<lambda>e m. max (f e) m) xs 0) k"
  by (induction xs) auto

lemma foldr_max_upt: "map f es = [1..<Suc n] \<Longrightarrow> foldr (\<lambda>e m. max (f e) m) es 0 = (n :: nat)"
proof (induction n arbitrary: es)
  case (Suc n)
  then have m: "map f es = [1..<Suc n] @ [Suc n]" by simp
  then obtain es' e where es: "es = es' @ [e]" by (cases es rule: rev_cases) auto
  with m have "map f es' = [1..<Suc n]" "f e = Suc n" by auto
  then show ?case using Suc.IH es foldr_max_from [of f es' "Suc n"] by simp
qed simp

lemma next_sequence_length: "sequences_ok lg \<Longrightarrow> next_sequence i lg = Suc (length (events_of i lg))"
  unfolding sequences_ok_def next_sequence_def using foldr_max_upt by fastforce

lemma intent_by_id_Some: "intent_by_id i lg = Some r \<Longrightarrow> r \<in> set (lg_intents lg) \<and> ir_id r = i"
  by (auto simp: intent_by_id_def dest: find_Some_mem)

lemma intent_by_id_append:
  "intent_by_id i (lg\<lparr>lg_intents := lg_intents lg @ [r]\<rparr>) =
     (case intent_by_id i lg of None \<Rightarrow> if ir_id r = i then Some r else None | Some x \<Rightarrow> Some x)"
  by (simp add: intent_by_id_def find_append split: option.splits)

lemma ack_by_intent_append:
  "ack_by_intent i (lg\<lparr>lg_acks := lg_acks lg @ [a]\<rparr>) =
     (case ack_by_intent i lg of None \<Rightarrow> if ar_intent_id a = i then Some a else None | Some x \<Rightarrow> Some x)"
  by (simp add: ack_by_intent_def find_append split: option.splits)

lemma table_selects [simp]:
  "intent_by_id i (lg\<lparr>lg_events := es\<rparr>) = intent_by_id i lg"
  "intent_by_id i (lg\<lparr>lg_acks := as\<rparr>) = intent_by_id i lg"
  "ack_by_intent i (lg\<lparr>lg_events := es\<rparr>) = ack_by_intent i lg"
  "ack_by_intent i (lg\<lparr>lg_intents := is\<rparr>) = ack_by_intent i lg"
  "events_of i (lg\<lparr>lg_acks := as\<rparr>) = events_of i lg"
  "events_of i (lg\<lparr>lg_intents := is\<rparr>) = events_of i lg"
  "event_by_dedupe k (lg\<lparr>lg_acks := as\<rparr>) = event_by_dedupe k lg"
  "event_by_dedupe k (lg\<lparr>lg_intents := is\<rparr>) = event_by_dedupe k lg"
  "next_sequence i (lg\<lparr>lg_acks := as\<rparr>) = next_sequence i lg"
  "intent_by_client c (lg\<lparr>lg_events := es\<rparr>) = intent_by_client c lg"
  "intent_by_client c (lg\<lparr>lg_acks := as\<rparr>) = intent_by_client c lg"
  by (simp_all add: intent_by_id_def ack_by_intent_def events_of_def event_by_dedupe_def next_sequence_def
      intent_by_client_def)

lemma event_by_dedupe_None:
  "event_by_dedupe k lg = None \<longleftrightarrow> k \<notin> set (dedupe_keys lg)"
  by (auto simp: event_by_dedupe_def find_None_iff_all)

lemma provider_events_set:
  "(v, p) \<in> set (provider_events es) \<longleftrightarrow> (\<exists>e \<in> set es. ev_venue e = v \<and> ev_provider_event_id e = Some p)"
  by (force simp: provider_events_def map_filter_def)

lemma provider_events_append [simp]: "provider_events (xs @ ys) = provider_events xs @ provider_events ys"
  by (simp add: provider_events_def map_filter_def)

lemma provider_events_single [simp]:
  "provider_events [e] = (case ev_provider_event_id e of None \<Rightarrow> [] | Some p \<Rightarrow> [(ev_venue e, p)])"
  by (simp add: provider_events_def map_filter_def split: option.splits)

lemma event_by_provider_None:
  "event_by_provider v p lg = None \<longleftrightarrow> (v, p) \<notin> set (provider_events (lg_events lg))"
  by (auto simp: event_by_provider_def find_None_iff_all provider_events_set)

lemma insert_event_Inr:
  "insert_event e lg = (Inr x, lg') \<longleftrightarrow>
     x = e \<and> lg' = lg\<lparr>lg_events := lg_events lg @ [e]\<rparr> \<and> ev_id e \<notin> set (map ev_id (lg_events lg))
     \<and> (ev_intent_id e, ev_dedupe_key e) \<notin> set (dedupe_keys lg)
     \<and> (case ev_provider_event_id e of None \<Rightarrow> True
        | Some p \<Rightarrow> (ev_venue e, p) \<notin> set (provider_events (lg_events lg)))"
  by (auto simp: insert_event_def event_by_dedupe_None event_by_provider_None simp del: set_map
      split: option.splits if_splits)

lemma insert_event_Inl: "insert_event e lg = (Inl x, lg') \<Longrightarrow> lg' = lg"
  by (auto simp: insert_event_def split: if_splits)

lemma tables_ok_add_event:
  assumes ok: "tables_ok lg" and row: "event_row_ok lg e"
    and sq: "ev_sequence e = next_sequence (ev_intent_id e) lg"
    and ins: "insert_event e lg = (Inr x, lg')"
  shows "tables_ok lg'"
proof -
  note new = ins [unfolded insert_event_Inr]
  let ?lg = "lg\<lparr>lg_events := lg_events lg @ [e]\<rparr>"
  have lg': "lg' = ?lg" using new by simp
  have seq: "sequences_ok lg" using ok by (simp add: tables_ok_def)
  have "map ev_sequence (events_of i ?lg) = [1..<Suc (length (events_of i ?lg))]" for i
    using seq next_sequence_length [OF seq, of i] sq
    by (auto simp: sequences_ok_def events_of_def)
  then have "sequences_ok ?lg" by (simp add: sequences_ok_def)
  moreover have "distinct (provider_events (lg_events lg @ [e]))"
    using ok new by (auto simp: tables_ok_def split: option.splits)
  moreover have "event_row_ok ?lg y = event_row_ok lg y" "ack_row_ok ?lg z = ack_row_ok lg z" for y z
    by (simp_all add: event_row_ok_def ack_row_ok_def provider_order_known_def split: option.splits)
  ultimately show ?thesis
    using ok row new unfolding lg' tables_ok_def by (auto simp del: set_map)
qed

lemma tables_ok_add_intent:
  assumes ok: "tables_ok lg" and "intent_by_id (ir_id r) lg = None"
    and "(vi_venue (ir_intent r), vi_client_order_id (ir_intent r)) \<notin> set (client_keys lg)"
  shows "tables_ok (lg\<lparr>lg_intents := lg_intents lg @ [r]\<rparr>)"
proof -
  let ?lg = "lg\<lparr>lg_intents := lg_intents lg @ [r]\<rparr>"
  have "ir_id r \<notin> set (map ir_id (lg_intents lg))"
    using assms(2) by (auto simp: intent_by_id_def find_None_iff_all)
  moreover have "event_row_ok lg e \<Longrightarrow> event_row_ok ?lg e" "ack_row_ok lg a \<Longrightarrow> ack_row_ok ?lg a" for e a
    by (auto simp: event_row_ok_def ack_row_ok_def provider_order_known_def intent_by_id_append
        split: option.splits)
  moreover have "sequences_ok ?lg = sequences_ok lg" by (simp add: sequences_ok_def)
  ultimately show ?thesis using ok assms(3) by (auto simp: tables_ok_def simp del: set_map)
qed

lemma tables_ok_add_ack:
  assumes ok: "tables_ok lg" and "ack_by_intent (ar_intent_id a) lg = None"
    and "(ar_venue a, ar_provider_order_id a) \<notin> set (provider_keys lg)" and row: "ack_row_ok lg a"
  shows "tables_ok (lg\<lparr>lg_acks := lg_acks lg @ [a]\<rparr>)"
proof -
  let ?lg = "lg\<lparr>lg_acks := lg_acks lg @ [a]\<rparr>"
  have "ar_intent_id a \<notin> set (map ar_intent_id (lg_acks lg))"
    using assms(2) by (auto simp: ack_by_intent_def find_None_iff_all)
  moreover have "event_row_ok lg e \<Longrightarrow> event_row_ok ?lg e" "ack_row_ok ?lg z = ack_row_ok lg z" for e z
    by (auto simp: event_row_ok_def ack_row_ok_def provider_order_known_def ack_by_intent_append
        split: option.splits)
  moreover have "sequences_ok ?lg = sequences_ok lg" by (simp add: sequences_ok_def)
  ultimately show ?thesis using ok assms(3) row by (auto simp: tables_ok_def simp del: set_map)
qed

section \<open>The operations keep the invariant\<close>

lemma intent_by_client_None:
  "intent_by_client k lg = None \<longleftrightarrow> k \<notin> set (client_keys lg)"
  by (auto simp: intent_by_client_def find_None_iff_all)

lemma intent_by_client_Some:
  "intent_by_client k lg = Some r \<Longrightarrow>
     r \<in> set (lg_intents lg) \<and> (vi_venue (ir_intent r), vi_client_order_id (ir_intent r)) = k"
  by (auto simp: intent_by_client_def dest: find_Some_mem)

text \<open>A successful call has found the canonical row or appended one.\<close>

lemma record_intent_cases:
  assumes "record_intent f a lg = (Inr r, lg')"
  obtains (known) "intent_by_client (intent_key a) lg = Some r" "intent_matches r a" "lg' = lg"
  | (new) e where "intent_by_client (intent_key a) lg = None" "intent_by_id (ir_id r) lg = None"
      "ir_intent r = fst a" "ir_provenance r = stored_provenance (snd a)"
      "e = intent_recorded_event (fst (snd f)) r"
      "insert_event e (lg\<lparr>lg_intents := lg_intents lg @ [r]\<rparr>) = (Inr e, lg')"
      "lg' = lg\<lparr>lg_intents := lg_intents lg @ [r], lg_events := lg_events lg @ [e]\<rparr>"
proof (cases "intent_by_client (intent_key a) lg")
  case (Some x)
  then show ?thesis
    using assms known by (auto simp: record_intent_def Let_def split: sum.splits prod.splits if_splits)
next
  case None
  obtain u u' now where f: "f = (u, u', now)" by (cases f)
  let ?r = "\<lparr>ir_id = u, ir_intent = fst a, ir_provenance = stored_provenance (snd a), ir_created_at = now\<rparr>"
  have "r = ?r \<and> intent_by_id u lg = None \<and>
      (\<exists>x. insert_event (intent_recorded_event u' ?r) (lg\<lparr>lg_intents := lg_intents lg @ [?r]\<rparr>) = (Inr x, lg'))"
    using assms None f by (auto simp: record_intent_def Let_def split: sum.splits prod.splits if_splits)
  then show ?thesis using new None f by (auto simp: insert_event_Inr)
qed

lemma record_intent_ok:
  assumes "ledger_ok lg" "record_intent f a lg = (Inr r, lg')"
  shows "ledger_ok lg'"
  using assms(2)
proof (cases rule: record_intent_cases)
  case known
  then show ?thesis using assms(1) by simp
next
  case (new e)
  let ?lg = "lg\<lparr>lg_intents := lg_intents lg @ [r]\<rparr>"
  have t: "tables_ok ?lg"
    using assms(1) new by (intro tables_ok_add_intent) (simp_all add: ledger_ok_def intent_by_client_None intent_key_def)
  have noev: "events_of (ir_id r) ?lg = []"
    using assms(1) new(2)
    by (auto simp: ledger_ok_def tables_ok_def event_row_ok_def events_of_def filter_empty_conv split: option.splits)
  have "tables_ok lg'"
  proof (rule tables_ok_add_event [OF t _ _ new(6)])
    show "event_row_ok ?lg e"
      using new by (simp add: event_row_ok_def intent_recorded_event_def intent_by_id_append
          provider_order_known_def)
    show "ev_sequence e = next_sequence (ev_intent_id e) ?lg"
      using noev new(5) by (simp add: next_sequence_def intent_recorded_event_def)
  qed
  moreover have "opened lg'"
    using assms(1) new(5,7) by (auto simp: ledger_ok_def opened_def intent_recorded_event_def)
  ultimately show ?thesis by (simp add: ledger_ok_def)
qed

lemma record_event_cases:
  assumes "record_event f a lg = (Inr e, lg')"
  obtains (known) x r where "event_facts a = Inr x" "intent_by_id (ga_intent_id a) lg = Some r"
      "event_by_dedupe (ga_intent_id a, strip (ga_dedupe_key a)) lg = Some e"
      "ev_venue e = vi_venue (ir_intent r)" "event_matches e x" "lg' = lg"
  | (new) x r where "event_facts a = Inr x" "intent_by_id (ga_intent_id a) lg = Some r"
      "event_by_dedupe (ga_intent_id a, strip (ga_dedupe_key a)) lg = None"
      "provider_order_known (ga_intent_id a) (ef_provider_order_id x) lg"
      "ef_provider_event_id x \<noteq> None \<longrightarrow> ef_provider_order_id x \<noteq> None"
      "ev_intent_id e = ga_intent_id a" "ev_dedupe_key e = strip (ga_dedupe_key a)"
      "ev_venue e = vi_venue (ir_intent r)" "event_matches e x"
      "ev_sequence e = next_sequence (ga_intent_id a) lg"
      "insert_event e lg = (Inr e, lg')"
proof -
  obtain x r where x: "event_facts a = Inr x" and r: "intent_by_id (ga_intent_id a) lg = Some r"
    using assms by (auto simp: record_event_def split: sum.splits option.splits)
  show ?thesis
  proof (cases "event_by_dedupe (ga_intent_id a, strip (ga_dedupe_key a)) lg")
    case (Some y)
    then show ?thesis
      using assms x r known by (auto simp: record_event_def split: if_splits)
  next
    case None
    let ?e = "\<lparr>ev_id = fst f, ev_intent_id = ga_intent_id a, ev_venue = vi_venue (ir_intent r),
        ev_sequence = next_sequence (ga_intent_id a) lg, ev_event_type = ef_event_type x,
        ev_source = ef_source x, ev_dedupe_key = strip (ga_dedupe_key a),
        ev_provider_order_id = ef_provider_order_id x, ev_provider_event_id = ef_provider_event_id x,
        ev_occurred_at = ef_occurred_at x, ev_payload = ef_payload x, ev_created_at = snd f\<rparr>"
    have ins: "insert_event ?e lg = (Inr e, lg')" and known: "provider_order_known (ga_intent_id a) (ef_provider_order_id x) lg"
      and pe: "\<not> (ef_provider_event_id x \<noteq> None \<and> ef_provider_order_id x = None)"
      using assms x r None by (simp_all add: record_event_def split: if_splits)
    moreover from ins have "e = ?e" by (simp add: insert_event_Inr)
    ultimately show ?thesis
      using x r None by (intro new) (auto simp: event_matches_def)
  qed
qed

lemma record_event_ok:
  assumes "ledger_ok lg" "record_event f a lg = (Inr e, lg')"
  shows "ledger_ok lg'"
  using assms(2)
proof (cases rule: record_event_cases)
  case (known x r)
  then show ?thesis using assms(1) by simp
next
  case (new x r)
  have "tables_ok lg'"
  proof (rule tables_ok_add_event [OF _ _ _ new(11)])
    show "tables_ok lg" using assms(1) by (simp add: ledger_ok_def)
    show "event_row_ok lg e" using new by (simp add: event_row_ok_def event_matches_def)
    show "ev_sequence e = next_sequence (ev_intent_id e) lg" using new by simp
  qed
  moreover have "opened lg'"
    using assms(1) new(11) by (auto simp: ledger_ok_def opened_def insert_event_Inr)
  ultimately show ?thesis by (simp add: ledger_ok_def)
qed

lemma ack_by_provider_None: "ack_by_provider k lg = None \<longleftrightarrow> k \<notin> set (provider_keys lg)"
  by (auto simp: ack_by_provider_def find_None_iff_all)

lemma record_ack_cases:
  assumes "record_initial_acknowledgement f (i, a) lg = (Inr r, lg')"
  obtains (known) "ack_by_intent i lg = Some r" "ack_matches r (i, a)" "lg' = lg"
  | (new) q e where "ack_by_intent i lg = None" "(va_venue a, va_provider_order_id a) \<notin> set (provider_keys lg)"
      "intent_by_id i lg = Some q" "vi_venue (ir_intent q) = va_venue a"
      "vi_client_order_id (ir_intent q) = va_client_order_id a"
      "dval (acknowledged_quantity a) = dval (vi_quantity (ir_intent q))"
      "ar_intent_id r = i" "ack_matches r (i, a)"
      "e = submission_acknowledged_event (fst f) (next_sequence i lg) (snd f) i a"
      "insert_event e (lg\<lparr>lg_acks := lg_acks lg @ [r]\<rparr>) = (Inr e, lg')"
proof -
  obtain u now where f: "f = (u, now)" by (cases f)
  obtain q where q: "intent_by_id i lg = Some q" "vi_venue (ir_intent q) = va_venue a"
      "vi_client_order_id (ir_intent q) = va_client_order_id a"
      "dval (acknowledged_quantity a) = dval (vi_quantity (ir_intent q))"
    using assms by (auto simp: record_initial_acknowledgement_def f split: option.splits if_splits)
  show ?thesis
  proof (cases "ack_by_intent i lg")
    case (Some x)
    then show ?thesis
      using assms q known by (auto simp: record_initial_acknowledgement_def f split: if_splits)
  next
    case None
    let ?r = "\<lparr>ar_intent_id = i, ar_venue = va_venue a, ar_client_order_id = va_client_order_id a,
           ar_provider_order_id = va_provider_order_id a, ar_provider_status = va_provider_status a,
           ar_filled_quantity = va_filled_quantity a, ar_remaining_quantity = va_remaining_quantity a,
           ar_provider_timestamp = va_provider_timestamp a, ar_payload = va_payload a, ar_created_at = now\<rparr>"
    let ?e = "submission_acknowledged_event u (next_sequence i lg) now i a"
    have "r = ?r \<and> ack_by_provider (va_venue a, va_provider_order_id a) lg = None
        \<and> (\<exists>x. insert_event ?e (lg\<lparr>lg_acks := lg_acks lg @ [?r]\<rparr>) = (Inr x, lg'))"
      using assms q None
      by (auto simp: record_initial_acknowledgement_def f Let_def split: if_splits sum.splits prod.splits)
    then show ?thesis
      using q None by (intro new) (auto simp: f insert_event_Inr ack_by_provider_None ack_matches_def)
  qed
qed

lemma record_ack_ok:
  assumes "ledger_ok lg" "record_initial_acknowledgement f (i, a) lg = (Inr r, lg')"
  shows "ledger_ok lg'"
  using assms(2)
proof (cases rule: record_ack_cases)
  case known
  then show ?thesis using assms(1) by simp
next
  case (new q e)
  let ?lg = "lg\<lparr>lg_acks := lg_acks lg @ [r]\<rparr>"
  have t: "tables_ok ?lg"
    using assms(1) new by (intro tables_ok_add_ack) (auto simp: ledger_ok_def ack_row_ok_def ack_matches_def)
  have "tables_ok lg'"
  proof (rule tables_ok_add_event [OF t _ _ new(10)])
    show "event_row_ok ?lg e"
      using new by (simp add: event_row_ok_def submission_acknowledged_event_def ack_by_intent_append
          provider_order_known_def ack_matches_def)
    show "ev_sequence e = next_sequence (ev_intent_id e) ?lg"
      using new(9) by (simp add: submission_acknowledged_event_def)
  qed
  moreover have "opened lg'"
    using assms(1) new(10) by (auto simp: ledger_ok_def opened_def insert_event_Inr)
  ultimately show ?thesis by (simp add: ledger_ok_def)
qed

section \<open>Write once\<close>

text \<open>
  Inside a transaction, each of the three operations is a store in which the first writer
  of its key wins: the client order id of an intent, the dedupe key of an event, the intent
  of an acknowledgement.
\<close>

definition put_intent where "put_intent f a = transaction (record_intent f a)"
definition put_event where "put_event f a = transaction (record_event f a)"
definition put_ack where "put_ack f x = transaction (record_initial_acknowledgement f x)"

lemmas put_defs = put_intent_def put_event_def put_ack_def

definition event_key :: "event_args \<Rightarrow> string \<times> string" where
  "event_key a = (ga_intent_id a, strip (ga_dedupe_key a))"

definition event_same :: "event_row \<Rightarrow> event_args \<Rightarrow> bool" where
  "event_same e a = (case event_facts a of Inl _ \<Rightarrow> False | Inr x \<Rightarrow> event_matches e x)"

lemma transaction_inv:
  "P s \<Longrightarrow> (\<And>x t. m s = (Inr x, t) \<Longrightarrow> P t) \<Longrightarrow> P (snd (transaction m s))"
  by (auto simp: transaction_def split: sum.splits prod.splits)

lemma transaction_cases:
  assumes "transaction m s = (r, t)"
  obtains (raised) e where "r = Inl e" "t = s" | (returned) x where "r = Inr x" "m s = (Inr x, t)"
  using assms by (auto simp: transaction_def split: sum.splits prod.splits)

lemma put_table_ok:
  "ledger_ok lg \<Longrightarrow> ledger_ok (snd (put_intent f a lg))"
  "ledger_ok lg \<Longrightarrow> ledger_ok (snd (put_event g b lg))"
  "ledger_ok lg \<Longrightarrow> ledger_ok (snd (put_ack h x lg))"
  unfolding put_defs
  by (rule transaction_inv; (simp; fail)?; cases x; blast intro: record_intent_ok record_event_ok record_ack_ok)+

lemma stored_provenance_eq:
  "stored_provenance p = stored_provenance q \<longleftrightarrow>
     pv_source p = pv_source q \<and> blank_to_none (pv_source_id p) = blank_to_none (pv_source_id q)
     \<and> blank_to_none (pv_decision_id p) = blank_to_none (pv_decision_id q)
     \<and> blank_to_none (pv_strategy_key p) = blank_to_none (pv_strategy_key q)
     \<and> pv_strategy_version p = pv_strategy_version q
     \<and> blank_to_none (pv_trace_id p) = blank_to_none (pv_trace_id q) \<and> pv_fingerprint p = pv_fingerprint q"
  by (cases p; cases q) (simp add: stored_provenance_def)

lemma intent_eq_refl [simp]: "intent_eq i i"
  by (simp add: intent_eq_def)

lemma intent_numeric_ok:
  "record_intent f a lg = (Inr r, lg') \<Longrightarrow>
     is_ok (bindE (exact_numeric (vi_quantity (fst a)) ''quantity'')
       (\<lambda>_. exact_numeric (vi_limit_price (fst a)) ''limit_price''))"
  by (auto simp: record_intent_def Let_def is_ok_iff split: sum.splits prod.splits)

lemma record_intent_known_again:
  "intent_by_client (intent_key a) lg = Some r \<Longrightarrow> intent_matches r a \<Longrightarrow>
   is_ok (bindE (exact_numeric (vi_quantity (fst a)) ''quantity'')
       (\<lambda>_. exact_numeric (vi_limit_price (fst a)) ''limit_price'')) \<Longrightarrow>
   record_intent g a lg = (Inr r, lg)"
  by (auto simp: record_intent_def Let_def is_ok_iff split: prod.splits)

lemma intent_by_client_append:
  "intent_by_client k (lg\<lparr>lg_intents := lg_intents lg @ [r]\<rparr>) =
     (case intent_by_client k lg of
        None \<Rightarrow> if (vi_venue (ir_intent r), vi_client_order_id (ir_intent r)) = k then Some r else None
      | Some x \<Rightarrow> Some x)"
  by (simp add: intent_by_client_def find_append split: option.splits)

lemma record_intent_again:
  assumes "record_intent f a lg = (Inr r, lg')"
  shows "record_intent g a lg' = (Inr r, lg')"
  using assms
proof (cases rule: record_intent_cases)
  case known
  then show ?thesis using record_intent_known_again intent_numeric_ok [OF assms] by simp
next
  case (new e)
  have "intent_by_client (intent_key a) lg' = Some r"
    using new by (simp add: intent_by_client_append intent_key_def)
  moreover have "intent_matches r a" using new by (simp add: intent_matches_def)
  ultimately show ?thesis using record_intent_known_again intent_numeric_ok [OF assms] by simp
qed

interpretation intents: write_once ledger_ok intent_by_client intent_key intent_matches put_intent
proof
  fix f g a lg r lg' k e
  show "ledger_ok lg \<Longrightarrow> ledger_ok (snd (put_intent f a lg))" by (rule put_table_ok)
  show "put_intent f a lg = (Inl e, lg') \<Longrightarrow> lg' = lg"
    unfolding put_defs by (rule transaction_Inl)
  show "intent_by_client (intent_key a) lg = Some v \<Longrightarrow> put_intent f a lg = (Inr r, lg') \<Longrightarrow>
      r = v \<and> lg' = lg \<and> intent_matches v a" for v
    unfolding put_defs transaction_Inr by (erule record_intent_cases) simp_all
  show "put_intent f a lg = (Inr r, lg') \<Longrightarrow> put_intent g a lg' = (Inr r, lg')"
    unfolding put_defs transaction_Inr by (rule record_intent_again)
  show "intent_by_client (intent_key a) lg = None \<Longrightarrow> put_intent f a lg = (Inr r, lg') \<Longrightarrow>
      intent_by_client (intent_key a) lg' = Some r"
    unfolding put_defs transaction_Inr
    by (erule record_intent_cases) (simp_all add: intent_by_client_append intent_key_def)
  show "k \<noteq> intent_key a \<Longrightarrow> intent_by_client k (snd (put_intent f a lg)) = intent_by_client k lg"
  proof (cases "put_intent f a lg" rule: prod.exhaust)
    case (Pair x t)
    assume "k \<noteq> intent_key a"
    with Pair [unfolded put_defs] have "intent_by_client k t = intent_by_client k lg"
      by (cases rule: transaction_cases)
        (auto simp: intent_by_client_append intent_key_def elim!: record_intent_cases split: option.splits)
    then show ?thesis by (simp add: Pair)
  qed
qed

lemma event_by_dedupe_append:
  "event_by_dedupe k (lg\<lparr>lg_events := lg_events lg @ [e]\<rparr>) =
     (case event_by_dedupe k lg of
        None \<Rightarrow> if (ev_intent_id e, ev_dedupe_key e) = k then Some e else None
      | Some x \<Rightarrow> Some x)"
  by (simp add: event_by_dedupe_def find_append split: option.splits)

lemma event_facts_grid: "event_facts a = Inr x \<Longrightarrow> event_same e a = event_matches e x"
  by (simp add: event_same_def)

text \<open>The checks before the lookup still pass on a repeat: what they look at has not changed.\<close>

lemma record_event_known_again:
  assumes "ledger_ok lg" "event_facts a = Inr x" "intent_by_id (ga_intent_id a) lg = Some r"
    and "event_by_dedupe (ga_intent_id a, strip (ga_dedupe_key a)) lg = Some e"
    and "event_matches e x" "ef_provider_event_id x \<noteq> None \<longrightarrow> ef_provider_order_id x \<noteq> None"
  shows "record_event g a lg = (Inr e, lg)"
proof -
  have e: "e \<in> set (lg_events lg)" "ev_intent_id e = ga_intent_id a"
    using assms(4) by (auto simp: event_by_dedupe_def dest: find_Some_mem)
  then have "event_row_ok lg e" using assms(1) by (simp add: ledger_ok_def tables_ok_def)
  then show ?thesis
    using assms e by (auto simp: record_event_def event_row_ok_def event_matches_def)
qed

lemma record_event_again:
  assumes lg: "ledger_ok lg" and "record_event f a lg = (Inr e, lg')"
  shows "record_event g a lg' = (Inr e, lg')"
  using assms(2)
proof (cases rule: record_event_cases)
  case (known x r)
  have "\<not> (ef_provider_event_id x \<noteq> None \<and> ef_provider_order_id x = None)"
    using assms(2) known by (auto simp: record_event_def split: if_splits)
  then have "ef_provider_event_id x \<noteq> None \<longrightarrow> ef_provider_order_id x \<noteq> None" by auto
  from record_event_known_again [OF lg known(1-3,5) this] show ?thesis unfolding known(6) .
next
  case (new x r)
  have lg': "lg' = lg\<lparr>lg_events := lg_events lg @ [e]\<rparr>" using new(11) by (simp add: insert_event_Inr)
  have "event_by_dedupe (ga_intent_id a, strip (ga_dedupe_key a)) lg' = Some e"
    using new(3,6,7) by (simp add: lg' event_by_dedupe_append)
  then show ?thesis
    using record_event_known_again [OF record_event_ok [OF lg assms(2)] new(1), of r e] new(2,5,9)
    by (simp add: lg')
qed

interpretation events: write_once ledger_ok event_by_dedupe event_key event_same put_event
proof
  fix f g a lg r lg' k e
  show "ledger_ok lg \<Longrightarrow> ledger_ok (snd (put_event f a lg))" by (rule put_table_ok)
  show "put_event f a lg = (Inl e, lg') \<Longrightarrow> lg' = lg"
    unfolding put_defs by (rule transaction_Inl)
  show "event_by_dedupe (event_key a) lg = Some v \<Longrightarrow> put_event f a lg = (Inr r, lg') \<Longrightarrow>
      r = v \<and> lg' = lg \<and> event_same v a" for v
    unfolding put_defs transaction_Inr event_key_def
    by (erule record_event_cases) (simp_all add: event_same_def)
  show "ledger_ok lg \<Longrightarrow> put_event f a lg = (Inr r, lg') \<Longrightarrow> put_event g a lg' = (Inr r, lg')"
    unfolding put_defs transaction_Inr by (rule record_event_again)
  show "event_by_dedupe (event_key a) lg = None \<Longrightarrow> put_event f a lg = (Inr r, lg') \<Longrightarrow>
      event_by_dedupe (event_key a) lg' = Some r"
    unfolding put_defs transaction_Inr event_key_def
    by (erule record_event_cases) (simp_all add: event_by_dedupe_append insert_event_Inr)
  show "k \<noteq> event_key a \<Longrightarrow> event_by_dedupe k (snd (put_event f a lg)) = event_by_dedupe k lg"
  proof (cases "put_event f a lg" rule: prod.exhaust)
    case (Pair x t)
    assume "k \<noteq> event_key a"
    with Pair [unfolded put_defs] have "event_by_dedupe k t = event_by_dedupe k lg"
      by (cases rule: transaction_cases)
        (auto simp: event_by_dedupe_append event_key_def insert_event_Inr
          elim!: record_event_cases split: option.splits)
    then show ?thesis by (simp add: Pair)
  qed
qed

lemma record_ack_known_again:
  assumes "ack_by_intent i lg = Some r" "ack_matches r (i, a)" "intent_by_id i lg = Some q"
    and "vi_venue (ir_intent q) = va_venue a" "vi_client_order_id (ir_intent q) = va_client_order_id a"
    and "dval (acknowledged_quantity a) = dval (vi_quantity (ir_intent q))"
  shows "record_initial_acknowledgement g (i, a) lg = (Inr r, lg)"
  using assms by (cases g) (simp add: record_initial_acknowledgement_def)

lemma record_ack_again:
  assumes "record_initial_acknowledgement f (i, a) lg = (Inr r, lg')"
  shows "record_initial_acknowledgement g (i, a) lg' = (Inr r, lg')"
  using assms
proof (cases rule: record_ack_cases)
  case known
  then show ?thesis
    using assms by (cases f; cases g) (auto simp: record_initial_acknowledgement_def split: option.splits if_splits)
next
  case (new q e)
  show ?thesis
    by (rule record_ack_known_again [where q = q])
      (use new in \<open>simp_all add: insert_event_Inr ack_by_intent_append\<close>)
qed

interpretation acks: write_once ledger_ok ack_by_intent fst ack_matches put_ack
proof
  fix f g and x :: "string \<times> initial_ack" and lg r lg' k e
  obtain i a where x: "x = (i, a)" by (cases x)
  show "ledger_ok lg \<Longrightarrow> ledger_ok (snd (put_ack f x lg))" by (rule put_table_ok)
  show "put_ack f x lg = (Inl e, lg') \<Longrightarrow> lg' = lg"
    unfolding put_defs by (rule transaction_Inl)
  show "ack_by_intent (fst x) lg = Some v \<Longrightarrow> put_ack f x lg = (Inr r, lg') \<Longrightarrow>
      r = v \<and> lg' = lg \<and> ack_matches v x" for v
    unfolding put_defs transaction_Inr x by (erule record_ack_cases) simp_all
  show "put_ack f x lg = (Inr r, lg') \<Longrightarrow> put_ack g x lg' = (Inr r, lg')"
    unfolding put_defs transaction_Inr x by (rule record_ack_again)
  show "ack_by_intent (fst x) lg = None \<Longrightarrow> put_ack f x lg = (Inr r, lg') \<Longrightarrow>
      ack_by_intent (fst x) lg' = Some r"
    unfolding put_defs transaction_Inr x
    by (erule record_ack_cases) (simp_all add: ack_by_intent_append insert_event_Inr)
  show "k \<noteq> fst x \<Longrightarrow> ack_by_intent k (snd (put_ack f x lg)) = ack_by_intent k lg"
  proof (cases "put_ack f x lg" rule: prod.exhaust)
    case (Pair y t)
    assume "k \<noteq> fst x"
    with Pair [unfolded put_defs x] have "ack_by_intent k t = ack_by_intent k lg"
      by (cases rule: transaction_cases)
        (auto simp: x ack_by_intent_append insert_event_Inr elim!: record_ack_cases split: option.splits)
    then show ?thesis by (simp add: Pair)
  qed
qed

section \<open>The ledger as a machine\<close>

datatype ledger_op =
    RecordIntent "string \<times> string \<times> int" venue_order_intent provenance
  | RecordEvent "string \<times> int" event_args
  | RecordAck "string \<times> int" string initial_ack

fun ledger_step :: "ledger_op \<Rightarrow> ledger \<Rightarrow> ledger" where
  "ledger_step (RecordIntent f i p) lg = snd (put_intent f (i, p) lg)"
| "ledger_step (RecordEvent f a) lg = snd (put_event f a lg)"
| "ledger_step (RecordAck f i a) lg = snd (put_ack f (i, a) lg)"

text \<open>No row is ever changed or removed.\<close>

definition ledger_extends :: "ledger \<Rightarrow> ledger \<Rightarrow> bool" where
  "ledger_extends lg lg' =
     (extends (lg_intents lg) (lg_intents lg') \<and> extends (lg_events lg) (lg_events lg')
      \<and> extends (lg_acks lg) (lg_acks lg'))"

lemma record_extends:
  "record_intent f a lg = (Inr r, lg') \<Longrightarrow> ledger_extends lg lg'"
  "record_event g b lg = (Inr e, lg') \<Longrightarrow> ledger_extends lg lg'"
  "record_initial_acknowledgement g (i, c) lg = (Inr k, lg') \<Longrightarrow> ledger_extends lg lg'"
  by (auto simp: ledger_extends_def insert_event_Inr elim!: record_intent_cases record_event_cases record_ack_cases)

lemma ledger_extends_refl [simp]: "ledger_extends lg lg"
  by (simp add: ledger_extends_def)

lemma put_extends:
  "ledger_extends lg (snd (put_intent f a lg))"
  "ledger_extends lg (snd (put_event g b lg))"
  "ledger_extends lg (snd (put_ack g (i, c) lg))"
  unfolding put_defs by (rule transaction_inv; blast intro: record_extends ledger_extends_refl)+

interpretation ledger: monotone_machine ledger_ok ledger_step ledger_extends
proof
  fix lg :: ledger and x
  assume "ledger_ok lg"
  then show "ledger_ok (ledger_step x lg)" by (cases x) (simp_all add: put_table_ok)
  show "ledger_extends lg (ledger_step x lg)" by (cases x) (simp_all add: put_extends)
next
  fix s t u :: ledger
  show "ledger_extends s s" by simp
  show "ledger_extends s t \<Longrightarrow> ledger_extends t u \<Longrightarrow> ledger_extends s u"
    by (auto simp: ledger_extends_def intro: extends_trans)
qed

section \<open>Properties of the ledger\<close>

lemma find_extends: "extends xs ys \<Longrightarrow> List.find P xs = Some v \<Longrightarrow> List.find P ys = Some v"
  unfolding extends_def by (metis append_take_drop_id find_append option.simps(5))

lemma selects_extend:
  "ledger_extends lg lg' \<Longrightarrow> intent_by_client k lg = Some r \<Longrightarrow> intent_by_client k lg' = Some r"
  "ledger_extends lg lg' \<Longrightarrow> intent_by_id i lg = Some r \<Longrightarrow> intent_by_id i lg' = Some r"
  "ledger_extends lg lg' \<Longrightarrow> event_by_dedupe d lg = Some e \<Longrightarrow> event_by_dedupe d lg' = Some e"
  "ledger_extends lg lg' \<Longrightarrow> ack_by_intent i lg = Some a \<Longrightarrow> ack_by_intent i lg' = Some a"
  by (auto simp: ledger_extends_def intent_by_client_def intent_by_id_def event_by_dedupe_def
      ack_by_intent_def intro: find_extends)

lemma empty_ledger_ok: "ledger_ok empty_ledger"
  by (simp add: empty_ledger_def ledger_ok_def tables_ok_def opened_def sequences_ok_def events_of_def
      provider_events_def map_filter_simps)

text \<open>
  C4: from empty tables, through any calls in any order and whatever they raise, the ledger
  is append only and consistent: no row ever changes, the events of every intent are
  numbered 1, 2, 3, ... without a gap, the first is the record of the intent itself, and
  client order ids, dedupe keys, provider event ids and provider order ids are unique.
\<close>

theorem ledger_is_append_only_and_gapless:
  "let lg = fold ledger_step ops empty_ledger; lg' = fold ledger_step (ops @ later) empty_ledger in
   ledger_extends lg lg'
   \<and> (\<forall>i. map ev_sequence (events_of i lg') = [1..<Suc (length (events_of i lg'))])
   \<and> list_all (\<lambda>r. list_ex (\<lambda>e. ev_intent_id e = ir_id r \<and> ev_sequence e = 1
        \<and> ev_event_type e = ''intent_recorded'') (lg_events lg')) (lg_intents lg')
   \<and> distinct (client_keys lg') \<and> distinct (dedupe_keys lg')
   \<and> distinct (provider_events (lg_events lg')) \<and> distinct (provider_keys lg')"
proof -
  have "ledger_ok (fold ledger_step (ops @ later) empty_ledger)"
    by (rule ledger.run_inv [OF empty_ledger_ok])
  moreover have "ledger_extends (fold ledger_step ops empty_ledger) (fold ledger_step (ops @ later) empty_ledger)"
    by (rule ledger.run_prefix_le [OF empty_ledger_ok])
  ultimately show ?thesis
    by (simp add: Let_def ledger_ok_def tables_ok_def sequences_ok_def opened_def list_all_iff list_ex_iff
        del: fold_append)
qed

text \<open>
  C5: an intent is recorded once. After it is recorded, through any later calls, recording
  it again returns the same row and changes nothing. Another intent under the same client
  order id raises and changes nothing when any one of its facts differs: the instrument, the
  side, the value of the quantity or of the limit price, the time in force, post-only, or a fact
  of the provenance; a source id, a decision id, a strategy key and a trace id that are blank
  count as absent.
\<close>

theorem intent_is_recorded_once:
  assumes lg: "ledger_ok lg" and put: "put_intent f (i, p) lg = (Inr r, lg1)"
    and later: "lg2 = fold ledger_step ops lg1"
  shows "put_intent g (i, p) lg2 = (Inr r, lg2)
    \<and> (vi_venue j = vi_venue i \<and> vi_client_order_id j = vi_client_order_id i
       \<and> (vi_instrument_id j \<noteq> vi_instrument_id i \<or> vi_book_side j \<noteq> vi_book_side i
          \<or> dval (vi_quantity j) \<noteq> dval (vi_quantity i) \<or> dval (vi_limit_price j) \<noteq> dval (vi_limit_price i)
          \<or> vi_time_in_force j \<noteq> vi_time_in_force i \<or> vi_post_only j \<noteq> vi_post_only i
          \<or> pv_source q \<noteq> pv_source p \<or> blank_to_none (pv_source_id q) \<noteq> blank_to_none (pv_source_id p)
          \<or> blank_to_none (pv_decision_id q) \<noteq> blank_to_none (pv_decision_id p)
          \<or> blank_to_none (pv_strategy_key q) \<noteq> blank_to_none (pv_strategy_key p)
          \<or> pv_strategy_version q \<noteq> pv_strategy_version p
          \<or> blank_to_none (pv_trace_id q) \<noteq> blank_to_none (pv_trace_id p)
          \<or> pv_fingerprint q \<noteq> pv_fingerprint p)
       \<longrightarrow> (\<exists>e. put_intent g (j, q) lg2 = (Inl e, lg2)))"
proof -
  have ok1: "ledger_ok lg1" using intents.put_inv [OF lg, of f "(i, p)"] put by simp
  have le: "ledger_extends lg1 lg2" using ledger.run_le [OF ok1] later by simp
  have ok2: "ledger_ok lg2" using ledger.run_inv [OF ok1] later by simp
  note known = intents.put_lookup [OF lg put]
  then have found: "intent_by_client (intent_key (i, p)) lg2 = Some r" by (rule selects_extend(1) [OF le])
  have "record_intent f (i, p) lg = (Inr r, lg1)" using put by (simp add: put_defs transaction_Inr)
  from intent_numeric_ok [OF this]
  have num: "is_ok (bindE (exact_numeric (vi_quantity i) ''quantity'')
      (\<lambda>_. exact_numeric (vi_limit_price i) ''limit_price''))" by simp
  have m: "intent_matches r (i, p)"
    using intents.put_known [OF ok1 known intents.put_again [OF lg put, of f]] by blast
  have "put_intent g (i, p) lg2 = (Inr r, lg2)"
    using record_intent_known_again [OF found m] num by (simp add: put_defs transaction_Inr)
  moreover have "\<exists>e. put_intent g (j, q) lg2 = (Inl e, lg2)"
    if key: "vi_venue j = vi_venue i" "vi_client_order_id j = vi_client_order_id i" and other: "\<not> intent_matches r (j, q)"
  proof -
    have "intent_by_client (intent_key (j, q)) lg2 = Some r" using found key by (simp add: intent_key_def)
    then show ?thesis using intents.conflict_raises [OF ok2 _ other] by blast
  qed
  moreover have "intent_eq i j \<and> stored_provenance p = stored_provenance q" if "intent_matches r (j, q)"
    using that m by (simp add: intent_matches_def intent_eq_def)
  ultimately show ?thesis unfolding intent_eq_def stored_provenance_eq by metis
qed

text \<open>
  evidence is recorded once. After an event is recorded under its dedupe key, through
  any later calls, recording it again returns the same row (so a reconciliation may be
  replayed), and other evidence under that key raises; either way nothing changes.
\<close>

theorem event_is_recorded_once:
  assumes lg: "ledger_ok lg" and put: "put_event f a lg = (Inr e, lg1)"
    and later: "lg2 = fold ledger_step ops lg1"
  shows "put_event g a lg2 = (Inr e, lg2)
    \<and> (event_key b = event_key a \<and> \<not> event_same e b \<longrightarrow> (\<exists>x. put_event g b lg2 = (Inl x, lg2)))"
proof -
  have rec: "record_event f a lg = (Inr e, lg1)" using put by (simp add: put_defs transaction_Inr)
  have ok1: "ledger_ok lg1" using events.put_inv [OF lg, of f a] put by simp
  have le: "ledger_extends lg1 lg2" using ledger.run_le [OF ok1] later by simp
  have ok2: "ledger_ok lg2" using ledger.run_inv [OF ok1] later by simp
  have found1: "event_by_dedupe (event_key a) lg1 = Some e" by (rule events.put_lookup [OF lg put])
  then have found: "event_by_dedupe (event_key a) lg2 = Some e" by (rule selects_extend(3) [OF le])
  have "record_event g a lg1 = (Inr e, lg1)" by (rule record_event_again [OF lg rec])
  then obtain x r where x: "event_facts a = Inr x" "intent_by_id (ga_intent_id a) lg1 = Some r"
    "event_matches e x" "ef_provider_event_id x \<noteq> None \<longrightarrow> ef_provider_order_id x \<noteq> None"
    using found1 by (auto simp: record_event_def event_key_def split: sum.splits option.splits if_splits)
  have "record_event g a lg2 = (Inr e, lg2)"
    using record_event_known_again [OF ok2 x(1) selects_extend(2) [OF le x(2)] _ x(3,4)] found
    by (simp add: event_key_def)
  then have "put_event g a lg2 = (Inr e, lg2)" by (simp add: put_defs transaction_Inr)
  moreover have "\<exists>x. put_event g b lg2 = (Inl x, lg2)" if "event_key b = event_key a" "\<not> event_same e b"
    using events.conflict_raises [OF ok2, of b e g] found that by simp
  ultimately show ?thesis by blast
qed

lemma exact_numeric_Inr [res_simps]:
  "exact_numeric d f = Inr e \<longleftrightarrow> e = d \<and> -18 \<le> dexp d \<and> \<bar>dval d\<bar> < 10 ^ 20"
  by (auto simp: exact_numeric_def numeric_scale_def numeric_limit_def)

lemma make_initial_ack_ok:
  "make_initial_ack args = Inr a \<Longrightarrow>
     -18 \<le> dexp (va_filled_quantity a) \<and> -18 \<le> dexp (va_remaining_quantity a)
     \<and> 0 \<le> dval (va_filled_quantity a) \<and> dval (va_filled_quantity a) < 10 ^ 20
     \<and> 0 \<le> dval (va_remaining_quantity a) \<and> dval (va_remaining_quantity a) < 10 ^ 20"
  by (auto simp: make_initial_ack_def res_simps Let_def)

text \<open>
  the acknowledgement a ledger accepts accounts for the whole order: filled and
  remaining quantity add up to exactly the intended quantity (the 39 digits of the local
  context suffice for any two quantities of the numeric envelope, so the check is never
  fooled by rounding), the provider's order id is bound to this intent from then on, and
  the event of the acknowledgement is in the ledger.
\<close>

theorem acknowledgement_accounts_for_order:
  assumes lg: "ledger_ok lg" and made: "make_initial_ack args = Inr a"
    and put: "put_ack f (i, a) lg = (Inr r, lg1)" and fresh: "ack_by_intent i lg = None"
  shows "\<exists>q. intent_by_id i lg1 = Some q
    \<and> dval (ar_filled_quantity r) + dval (ar_remaining_quantity r) = dval (vi_quantity (ir_intent q))
    \<and> ack_by_intent i (fold ledger_step ops lg1) = Some r
    \<and> (\<exists>e \<in> set (lg_events lg1). ev_intent_id e = i \<and> ev_event_type e = ''submission_acknowledged''
         \<and> ev_provider_order_id e = Some (ar_provider_order_id r))"
proof -
  have rec: "record_initial_acknowledgement f (i, a) lg = (Inr r, lg1)"
    using put by (simp add: put_defs transaction_Inr)
  note b = make_initial_ack_ok [OF made]
  have "\<bar>dval (va_filled_quantity a) + dval (va_remaining_quantity a)\<bar> < 10 powi (int 39 + -18)"
    using b by simp
  then have sum: "dval (acknowledged_quantity a) = dval (va_filled_quantity a) + dval (va_remaining_quantity a)"
    using b dec_add_exact_of_bound(1) [of 39 "-18" "va_filled_quantity a" "va_remaining_quantity a"]
    by (simp add: acknowledged_quantity_def)
  have ok1: "ledger_ok lg1" using acks.put_inv [OF lg, of f "(i, a)"] put by simp
  have "ack_by_intent (fst (i, a)) lg1 = Some r" by (rule acks.put_lookup [OF lg put])
  then have kept: "ack_by_intent i (fold ledger_step ops lg1) = Some r"
    using selects_extend(4) [OF ledger.run_le [OF ok1]] by simp
  from rec show ?thesis
  proof (cases rule: record_ack_cases)
    case known
    then show ?thesis using fresh by simp
  next
    case (new q e)
    then have "intent_by_id i lg1 = Some q" by (simp add: insert_event_Inr)
    moreover have "dval (ar_filled_quantity r) + dval (ar_remaining_quantity r) = dval (vi_quantity (ir_intent q))"
      using new sum by (simp add: ack_matches_def)
    moreover have "e \<in> set (lg_events lg1)" using new(10) by (simp add: insert_event_Inr)
    moreover have "ev_intent_id e = i" "ev_event_type e = ''submission_acknowledged''"
      "ev_provider_order_id e = Some (ar_provider_order_id r)"
      using new(8,9) by (simp_all add: submission_acknowledged_event_def ack_matches_def)
    ultimately show ?thesis using kept by blast
  qed
qed

section \<open>Concrete instances\<close>

definition sample_provenance :: provenance where
  "sample_provenance = \<lparr>pv_source = ''test'', pv_source_id = None, pv_decision_id = None,
     pv_strategy_key = None, pv_strategy_version = None, pv_trace_id = None, pv_fingerprint = None\<rparr>"

definition sample_order_intent :: venue_order_intent where
  "sample_order_intent = \<lparr>vi_venue = Kalshi, vi_instrument_id = ''KX'', vi_client_order_id = ''c'',
     vi_book_side = Bid, vi_quantity = Dec False 5 0, vi_limit_price = Dec False 4 (-1),
     vi_time_in_force = GoodTillCanceled, vi_post_only = False\<rparr>"

definition one_intent :: ledger where
  "one_intent = snd (put_intent (''i'', ''e1'', 1) (sample_order_intent, sample_provenance) empty_ledger)"

lemma one_intent_ok: "ledger_ok one_intent"
  unfolding one_intent_def by (rule intents.put_inv [OF empty_ledger_ok])

lemma numeric_sample:
  "exact_numeric (Dec False 5 0) x = Inr (Dec False 5 0)" "exact_numeric (Dec False 2 0) x = Inr (Dec False 2 0)"
  "exact_numeric (Dec False 3 0) x = Inr (Dec False 3 0)"
  "exact_numeric (Dec False 4 (-1)) x = Inr (Dec False 4 (-1))"
  by (simp_all add: exact_numeric_def numeric_scale_def numeric_limit_def dval_Dec)

definition sample_row :: intent_row where
  "sample_row = \<lparr>ir_id = ''i'', ir_intent = sample_order_intent,
     ir_provenance = stored_provenance sample_provenance, ir_created_at = 1\<rparr>"

lemma one_intent_recorded:
  "record_intent (''i'', ''e1'', 1) (sample_order_intent, sample_provenance) empty_ledger =
     (Inr sample_row, \<lparr>lg_intents = [sample_row], lg_events = [intent_recorded_event ''e1'' sample_row], lg_acks = []\<rparr>)"
proof -
  have "vi_quantity sample_order_intent = Dec False 5 0" "vi_limit_price sample_order_intent = Dec False 4 (-1)"
    by (simp_all add: sample_order_intent_def)
  then show ?thesis
    by (simp add: record_intent_def numeric_sample empty_ledger_def intent_by_client_def intent_by_id_def
        insert_event_def event_by_dedupe_def Let_def sample_row_def)
      (simp add: intent_recorded_event_def)
qed

lemma one_intent_eq:
  "one_intent = \<lparr>lg_intents = [sample_row], lg_events = [intent_recorded_event ''e1'' sample_row], lg_acks = []\<rparr>"
  by (simp add: one_intent_def put_defs transaction_def one_intent_recorded)

lemma one_intent_put:
  "\<exists>r. put_intent (''i'', ''e1'', 1) (sample_order_intent, sample_provenance) empty_ledger = (Inr r, one_intent)
     \<and> intent_by_id ''i'' one_intent = Some r \<and> ir_intent r = sample_order_intent"
  by (simp add: put_defs transaction_Inr one_intent_recorded one_intent_eq intent_by_id_def)
    (simp add: sample_row_def)

lemma one_intent_selects:
  "intent_by_id ''i'' one_intent = Some sample_row" "lg_acks one_intent = []"
  "lg_events one_intent = [intent_recorded_event ''e1'' sample_row]" "ir_intent sample_row = sample_order_intent"
  by (simp_all add: one_intent_eq intent_by_id_def) (simp_all add: sample_row_def)

lemma intent_is_recorded_once_witness:
  "(\<exists>r. put_intent (''j'', ''e9'', 9) (sample_order_intent, sample_provenance) one_intent = (Inr r, one_intent))
   \<and> (\<exists>e. put_intent (''j'', ''e9'', 9) (sample_order_intent\<lparr>vi_limit_price := Dec False 3 0\<rparr>, sample_provenance)
        one_intent = (Inl e, one_intent))"
proof -
  obtain r where "put_intent (''i'', ''e1'', 1) (sample_order_intent, sample_provenance) empty_ledger = (Inr r, one_intent)"
    using one_intent_put by blast
  from intent_is_recorded_once [OF empty_ledger_ok this, of one_intent "[]" "(''j'', ''e9'', 9)"
      "sample_order_intent\<lparr>vi_limit_price := Dec False 3 0\<rparr>" sample_provenance]
  show ?thesis by (auto simp: sample_order_intent_def dval_Dec)
qed

definition sample_event :: event_args where
  "sample_event = \<lparr>ga_intent_id = ''i'', ga_event_type = ''submission_started'', ga_source = ''s'',
     ga_dedupe_key = ''k'', ga_occurred_at = Aware 5, ga_payload = [], ga_provider_order_id = None,
     ga_provider_event_id = None\<rparr>"

lemma strip_samples: "strip ''submission_started'' = ''submission_started''" "strip ''s'' = ''s''" "strip ''k'' = ''k''"
  by code_simp+

lemma event_is_recorded_once_witness:
  "\<exists>e lg. put_event (''e2'', 6) sample_event one_intent = (Inr e, lg)
     \<and> put_event (''e3'', 7) sample_event lg = (Inr e, lg)"
proof -
  have "event_facts sample_event = Inr \<lparr>ef_event_type = ''submission_started'', ef_source = ''s'',
      ef_provider_order_id = None, ef_provider_event_id = None, ef_occurred_at = 5, ef_payload = []\<rparr>"
    by (simp add: event_facts_def sample_event_def strip_samples aware_instant_def json_payload_def
        blank_to_none_def)
  then have "\<exists>e lg. record_event (''e2'', 6) sample_event one_intent = (Inr e, lg)"
    by (simp add: one_intent_selects record_event_def sample_event_def provider_order_known_def strip_samples
        event_by_dedupe_def insert_event_def intent_recorded_event_def)
  then obtain e lg where "put_event (''e2'', 6) sample_event one_intent = (Inr e, lg)"
    by (auto simp: put_defs transaction_Inr)
  with event_is_recorded_once [OF one_intent_ok this, of lg "[]"] show ?thesis by auto
qed

definition sample_ack_args :: ack_args where
  "sample_ack_args = \<lparr>aa_venue = ''kalshi'', aa_client_order_id = ''c'', aa_provider_order_id = ''o'',
     aa_provider_status = ''resting'', aa_filled_quantity = Dec False 2 0, aa_remaining_quantity = Dec False 3 0,
     aa_provider_timestamp = Aware 5, aa_payload = []\<rparr>"

definition sample_ack :: initial_ack where
  "sample_ack = \<lparr>va_venue = Kalshi, va_client_order_id = ''c'', va_provider_order_id = ''o'',
     va_provider_status = ''resting'', va_filled_quantity = Dec False 2 0, va_remaining_quantity = Dec False 3 0,
     va_provider_timestamp = 5, va_payload = []\<rparr>"

lemma sample_ack_made: "make_initial_ack sample_ack_args = Inr sample_ack"
proof -
  have "strip ''kalshi'' = ''kalshi''" "strip ''c'' = ''c''" "strip ''o'' = ''o''" "strip ''resting'' = ''resting''"
    by code_simp+
  then show ?thesis
    by (simp add: make_initial_ack_def sample_ack_args_def sample_ack_def opt_or_def venue_of_def numeric_sample
        aware_instant_def json_payload_def dval_Dec Let_def)
qed

lemma acknowledgement_accounts_for_order_witness:
  "\<exists>r lg q. put_ack (''e2'', 6) (''i'', sample_ack) one_intent = (Inr r, lg) \<and> intent_by_id ''i'' lg = Some q
     \<and> dval (ar_filled_quantity r) + dval (ar_remaining_quantity r) = dval (vi_quantity (ir_intent q))"
proof -
  have "dval (acknowledged_quantity sample_ack) = 5"
    by (simp add: acknowledged_quantity_def sample_ack_def dec_add_def dec_add_exact_def dunits_def dnum_def
        dec_fix_exact ndigits.simps dval_Dec)
  moreover have none: "ack_by_intent ''i'' one_intent = None" by (simp add: ack_by_intent_def one_intent_selects)
  ultimately have "\<exists>r lg. record_initial_acknowledgement (''e2'', 6) (''i'', sample_ack) one_intent = (Inr r, lg)"
    by (simp add: one_intent_selects record_initial_acknowledgement_def sample_ack_def sample_order_intent_def dval_Dec
        ack_by_provider_def insert_event_def submission_acknowledged_event_def intent_recorded_event_def
        event_by_dedupe_def Let_def)
  then obtain r lg where "put_ack (''e2'', 6) (''i'', sample_ack) one_intent = (Inr r, lg)"
    by (auto simp: put_defs transaction_Inr)
  with acknowledgement_accounts_for_order [OF one_intent_ok sample_ack_made this none] show ?thesis by blast
qed

end
