(* ===== verification/LedgerPrograms.thy ===== *)
theory LedgerPrograms
  imports Ledger
begin

text \<open>
  What the transactions of the callers need to know of the ledger: the effect of a sequence of
  its operations (\<open>appends\<close>), which dedupe keys a program leaves free (\<open>spares\<close>), and the row
  a successful \<open>record_event\<close> leaves.
\<close>

lemma extends_reflp [simp]: "reflp ledger_extends"
  by (simp add: reflp_def)

lemma extends_transp [simp]: "transp ledger_extends"
  by (rule transpI) (rule ledger.le_trans)

text \<open>A program of the ledger that succeeds keeps the tables consistent and only adds rows.\<close>

abbreviation appends :: "(ledger, 'a) action \<Rightarrow> bool" where
  "appends \<equiv> advances ledger_ok ledger_extends"

lemma appends_record [advances_intros]:
  "appends (record_event f a)" "appends (record_initial_acknowledgement g (i, b))"
  by (rule advancesI; blast intro: record_event_ok record_ack_ok record_extends)+

lemmas appends_rules = advances_intros extends_reflp extends_transp

lemma transaction_appends:
  assumes "appends m" "ledger_ok lg" "transaction m lg = (res, lg')"
  shows "ledger_ok lg' \<and> ledger_extends lg lg' \<and> (\<forall>e. res = Inl e \<longrightarrow> lg' = lg)"
  using advances_transaction [OF assms(1) extends_reflp assms(2)] assms(3) transaction_Inl by fastforce

lemma record_event_new:
  assumes "record_event f a lg = (Inr e, lg')" "event_by_dedupe (ga_intent_id a, strip (ga_dedupe_key a)) lg = None"
  shows "\<exists>x. event_facts a = Inr x \<and> ev_event_type e = ef_event_type x \<and> ev_payload e = ef_payload x
    \<and> event_by_dedupe (ga_intent_id a, strip (ga_dedupe_key a)) lg' = Some e"
  using assms
  by (auto simp: record_event_def insert_event_Inr event_by_dedupe_append split: sum.splits option.splits if_splits)

text \<open>A program that leaves the slot of a dedupe key free.\<close>

abbreviation spares :: "string \<times> string \<Rightarrow> (ledger, 'a) action \<Rightarrow> bool" where
  "spares k \<equiv> advances (\<lambda>lg. ledger_ok lg \<and> event_by_dedupe k lg = None) ledger_extends"

lemma spares_record_event:
  "k \<noteq> (ga_intent_id a, strip (ga_dedupe_key a)) \<Longrightarrow> spares k (record_event f a)"
proof (rule advancesI)
  fix s x t
  assume k: "k \<noteq> (ga_intent_id a, strip (ga_dedupe_key a))"
    and s: "ledger_ok s \<and> event_by_dedupe k s = None" and r: "record_event f a s = (Inr x, t)"
  from r have "event_by_dedupe k t = None"
    by (rule record_event_cases) (use k s in \<open>auto simp: insert_event_Inr event_by_dedupe_append split: option.splits\<close>)
  with s r show "(ledger_ok t \<and> event_by_dedupe k t = None) \<and> ledger_extends s t"
    using record_event_ok record_extends(2) by blast
qed

lemma spares_record_ack:
  "k \<noteq> (i, ''submission_acknowledged:'' @ va_provider_order_id b) \<Longrightarrow>
     spares k (record_initial_acknowledgement f (i, b))"
proof (rule advancesI)
  fix s x t
  assume k: "k \<noteq> (i, ''submission_acknowledged:'' @ va_provider_order_id b)"
    and s: "ledger_ok s \<and> event_by_dedupe k s = None"
    and r: "record_initial_acknowledgement f (i, b) s = (Inr x, t)"
  have grown: "event_by_dedupe k t = None" if "lg_events t = lg_events s @ [e]" "(ev_intent_id e, ev_dedupe_key e) \<noteq> k" for e
    using s that by (simp add: event_by_dedupe_def find_append)
  from r have "event_by_dedupe k t = None"
  proof (cases rule: record_ack_cases)
    case known
    then show ?thesis using s by simp
  next
    case (new q e)
    from new(10) have "lg_events t = lg_events s @ [e]" by (simp add: insert_event_Inr)
    then show ?thesis by (rule grown) (use k in \<open>simp add: new(9) submission_acknowledged_event_def\<close>)
  qed
  with s r show "(ledger_ok t \<and> event_by_dedupe k t = None) \<and> ledger_extends s t"
    using record_ack_ok record_extends(3) by blast
qed

lemma event_facts_fields:
  "event_facts a = Inr x \<Longrightarrow> ef_event_type x = strip (ga_event_type a)
     \<and> ef_provider_event_id x = blank_to_none (ga_provider_event_id a)
     \<and> ef_provider_order_id x = blank_to_none (ga_provider_order_id a)"
  by (auto simp: event_facts_def Let_def res_simps)

lemma record_event_row:
  assumes "record_event f a lg = (Inr e, lg')"
  shows "e \<in> set (events_of (ga_intent_id a) lg') \<and> ev_event_type e = strip (ga_event_type a)
    \<and> ev_provider_event_id e = blank_to_none (ga_provider_event_id a)
    \<and> ev_provider_order_id e = blank_to_none (ga_provider_order_id a)"
  using assms
proof (cases rule: record_event_cases)
  case (known x r)
  then show ?thesis
    using event_facts_fields [OF known(1)] find_Some_mem [OF known(3) [unfolded event_by_dedupe_def]]
    by (auto simp: events_of_def event_matches_def)
next
  case (new x r)
  then show ?thesis
    using event_facts_fields [OF new(1)] by (auto simp: events_of_def event_matches_def insert_event_Inr)
qed

lemma events_of_extends: "ledger_extends lg lg' \<Longrightarrow> set (events_of i lg) \<subseteq> set (events_of i lg')"
  using extends_set by (auto simp: ledger_extends_def events_of_def)

text \<open>A new event, under a free id, dedupe key and provider event id, is recorded.\<close>

lemma record_event_fresh:
  assumes "event_facts a = Inr x" "intent_by_id (ga_intent_id a) lg = Some q"
    and "ef_provider_event_id x \<noteq> None \<longrightarrow> ef_provider_order_id x \<noteq> None"
    and "provider_order_known (ga_intent_id a) (ef_provider_order_id x) lg"
    and "fst f \<notin> set (map ev_id (lg_events lg))"
    and "strip (ga_dedupe_key a) \<notin> set (map ev_dedupe_key (lg_events lg))"
    and "\<forall>p. ef_provider_event_id x = Some p \<longrightarrow> Some p \<notin> set (map ev_provider_event_id (lg_events lg))"
  shows "\<exists>e. record_event f a lg = (Inr e, lg\<lparr>lg_events := lg_events lg @ [e]\<rparr>) \<and> ev_id e = fst f
    \<and> ev_dedupe_key e = strip (ga_dedupe_key a) \<and> ev_provider_event_id e = ef_provider_event_id x"
proof -
  have "event_by_dedupe (ga_intent_id a, strip (ga_dedupe_key a)) lg = None"
    using assms(6) by (auto simp: event_by_dedupe_None)
  moreover have "event_by_provider v p lg = None" if "ef_provider_event_id x = Some p" for v p
    using assms(7) that by (force simp: event_by_provider_def find_None_iff_all)
  ultimately show ?thesis
    using assms(1-5) by (auto simp: record_event_def insert_event_def split: option.splits)
qed

end
