(* ===== verification/Pagination.thy ===== *)
theory Pagination
  imports Prelude
begin

text \<open>
  The cursor loop both reads of \<open>services/kalshi_read_reconciliation.py\<close> are written as: fetch a
  page, take its items into the result, stop at an empty cursor, refuse a cursor that was seen
  before. The provider may answer every call differently, so a fetch knows the number of the call.
  The loop may run for ever, which is the value \<open>None\<close>.
\<close>

text \<open>A page: its items and the cursor of the next one.\<close>

type_synonym 'i page = "'i list \<times> string"

partial_function (option) walk_pages ::
    "(nat \<Rightarrow> string option \<Rightarrow> 'i page res) \<Rightarrow> ('a \<Rightarrow> 'i \<Rightarrow> 'a res) \<Rightarrow> exn
       \<Rightarrow> nat \<Rightarrow> string option \<Rightarrow> string list \<Rightarrow> 'a \<Rightarrow> 'a res option" where
  [code]: "walk_pages fetch take_item repeated n cursor seen acc =
     (case bindE (fetch n cursor) (\<lambda>(items, next). bindE (foldE take_item acc items) (\<lambda>acc'. Inr (acc', next))) of
        Inl e \<Rightarrow> Some (Inl e)
      | Inr (acc', next) \<Rightarrow>
          if next = [] then Some (Inr acc')
          else if next \<in> set seen then Some (Inl repeated)
          else walk_pages fetch take_item repeated (Suc n) (Some next) (next # seen) acc')"

definition read_pages ::
    "(nat \<Rightarrow> string option \<Rightarrow> 'i page res) \<Rightarrow> ('a \<Rightarrow> 'i \<Rightarrow> 'a res) \<Rightarrow> exn \<Rightarrow> 'a \<Rightarrow> 'a res option" where
  "read_pages fetch take_item repeated acc = walk_pages fetch take_item repeated 0 None [] acc"

section \<open>Termination\<close>

text \<open>The provider's cursors: whatever it answers, and whenever, the next cursor is one of \<open>C\<close>.\<close>

definition cursors_within :: "(nat \<Rightarrow> string option \<Rightarrow> 'i page res) \<Rightarrow> string set \<Rightarrow> bool" where
  "cursors_within fetch C = (\<forall>n c items next. fetch n c = Inr (items, next) \<longrightarrow> next = [] \<or> next \<in> C)"

lemma walk_pages_returns:
  assumes "finite C" "cursors_within fetch C"
  shows "\<exists>r. walk_pages fetch take_item repeated n cursor seen acc = Some r"
proof (induction "card (C - set seen)" arbitrary: n cursor seen acc rule: less_induct)
  case less
  show ?case
  proof (cases "bindE (fetch n cursor)
      (\<lambda>(items, next). bindE (foldE take_item acc items) (\<lambda>acc'. Inr (acc', next)))")
    case (Inl e)
    then show ?thesis by (subst walk_pages.simps) simp
  next
    case (Inr r)
    obtain acc' cur where r: "r = (acc', cur)" by fastforce
    with Inr have "cur = [] \<or> cur \<in> C"
      using assms(2) by (force simp: res_simps cursors_within_def)
    moreover have "card (C - set (cur # seen)) < card (C - set seen)" if "cur \<in> C" "cur \<notin> set seen"
      using that assms(1) by (intro psubset_card_mono) auto
    ultimately show ?thesis
      using less [of "cur # seen"] Inr r by (subst walk_pages.simps) auto
  qed
qed

lemma read_pages_returns:
  assumes "finite C" "cursors_within fetch C"
  shows "\<exists>r. read_pages fetch take_item repeated acc = Some r"
  unfolding read_pages_def by (rule walk_pages_returns [OF assms])

section \<open>What the loop has read\<close>

text \<open>The pages from a cursor on, each named by the one before, up to one without a cursor.\<close>

inductive page_chain :: "(nat \<Rightarrow> string option \<Rightarrow> 'i page res) \<Rightarrow> nat \<Rightarrow> string option \<Rightarrow> 'i list list \<Rightarrow> bool"
  for fetch where
  last: "fetch n c = Inr (items, []) \<Longrightarrow> page_chain fetch n c [items]"
| more: "fetch n c = Inr (items, next) \<Longrightarrow> next \<noteq> [] \<Longrightarrow> page_chain fetch (Suc n) (Some next) pages \<Longrightarrow>
    page_chain fetch n c (items # pages)"

lemma page_chain_fetched:
  "page_chain fetch n c pages \<Longrightarrow> items \<in> set pages \<Longrightarrow> \<exists>n c next. fetch n c = Inr (items, next)"
  by (induction rule: page_chain.induct) auto

text \<open>The loop is the fold over all items of a chain of pages.\<close>

lemma walk_pages_chain:
  fixes fetch :: "nat \<Rightarrow> string option \<Rightarrow> 'i page res" and acc :: 'a
  assumes "walk_pages fetch take_item repeated n cursor seen acc = Some (Inr acc')"
  shows "\<exists>pages. page_chain fetch n cursor pages \<and> foldE take_item acc (concat pages) = Inr acc'"
proof -
  define P where "P = (\<lambda>(f :: nat \<Rightarrow> string option \<Rightarrow> 'i page res) (t :: 'a \<Rightarrow> 'i \<Rightarrow> 'a res) (rep :: exn) n c
      (seen :: string list) acc (r :: 'a res). \<forall>acc'. r = Inr acc' \<longrightarrow>
    (\<exists>pages. page_chain f n c pages \<and> foldE t acc (concat pages) = Inr acc'))"
  have "P fetch take_item repeated n cursor seen acc (Inr acc')"
    using assms
  proof (rule walk_pages.raw_induct [where P = P, rotated])
    fix walk f t rep n c seen acc r
    assume IH: "\<And>f t rep n c seen acc r. walk f t rep n c seen acc = Some r \<Longrightarrow> P f t rep n c seen acc r"
      and body: "(case bindE (f n c) (\<lambda>(items, next). bindE (foldE t acc items) (\<lambda>acc'. Inr (acc', next))) of
          Inl e \<Rightarrow> Some (Inl e)
        | Inr (acc', next) \<Rightarrow> if next = [] then Some (Inr acc')
            else if next \<in> set seen then Some (Inl rep)
            else walk f t rep (Suc n) (Some next) (next # seen) acc') = Some r"
    show "P f t rep n c seen acc r"
    proof (unfold P_def, intro allI impI)
      fix out assume r: "r = Inr out"
      from body r obtain items cur acc' where page: "f n c = Inr (items, cur)"
        and taken: "foldE t acc items = Inr acc'"
        and rest: "cur = [] \<and> acc' = out
          \<or> cur \<noteq> [] \<and> walk f t rep (Suc n) (Some cur) (cur # seen) acc' = Some (Inr out)"
        by (cases "f n c"; cases "foldE t acc (fst (projr (f n c)))") (auto split: if_splits prod.splits)
      show "\<exists>pages. page_chain f n c pages \<and> foldE t acc (concat pages) = Inr out"
      proof (cases "cur = []")
        case True
        with page taken rest have "page_chain f n c [items] \<and> foldE t acc (concat [items]) = Inr out"
          by (simp add: page_chain.last)
        then show ?thesis by blast
      next
        case False
        with rest have "walk f t rep (Suc n) (Some cur) (cur # seen) acc' = Some (Inr out)" by simp
        from IH [OF this] obtain pages where "page_chain f (Suc n) (Some cur) pages"
            "foldE t acc' (concat pages) = Inr out"
          unfolding P_def by blast
        with page taken False have "page_chain f n c (items # pages)"
          "foldE t acc (concat (items # pages)) = Inr out"
          by (auto simp: foldE_append intro: page_chain.more)
        then show ?thesis by blast
      qed
    qed
  qed
  then show ?thesis by (simp add: P_def)
qed

text \<open>
  A loop body whose result is, at any time, related to the items taken so far. The relation
  then holds of the items of all pages.
\<close>

locale page_collector =
  fixes take_item :: "'a \<Rightarrow> 'i \<Rightarrow> 'a res" and start :: 'a
    and good :: "'i \<Rightarrow> bool" and kept :: "'i list \<Rightarrow> 'a \<Rightarrow> bool"
  assumes start_kept: "kept [] start"
    and take_kept: "kept xs acc \<Longrightarrow> good i \<Longrightarrow> take_item acc i = Inr acc' \<Longrightarrow> kept (xs @ [i]) acc'"
begin

lemma fold_kept: "foldE take_item start xs = Inr acc \<Longrightarrow> \<forall>i \<in> set xs. good i \<Longrightarrow> kept xs acc"
proof (induction xs arbitrary: acc rule: rev_induct)
  case Nil
  then show ?case using start_kept by simp
next
  case (snoc x xs)
  then obtain a where "foldE take_item start xs = Inr a" "take_item a x = Inr acc"
    unfolding foldE_append bindE_eq_Inr by (auto simp: bindE_eq_Inr)
  with snoc show ?case by (auto intro: take_kept)
qed

lemma read_kept:
  assumes "read_pages fetch take_item repeated start = Some (Inr acc)"
    and "\<And>n c items next. fetch n c = Inr (items, next) \<Longrightarrow> \<forall>i \<in> set items. good i"
  shows "\<exists>pages. page_chain fetch 0 None pages \<and> kept (concat pages) acc"
proof -
  from walk_pages_chain [OF assms(1) [unfolded read_pages_def]] obtain pages
    where p: "page_chain fetch 0 None pages" "foldE take_item start (concat pages) = Inr acc" by blast
  moreover have "\<forall>i \<in> set (concat pages). good i"
    using page_chain_fetched [OF p(1)] assms(2) by fastforce
  ultimately show ?thesis using fold_kept by blast
qed

end

end
