(* ===== verification/Reconciliation.thy ===== *)
theory Reconciliation
  imports LedgerPrograms Pagination "HOL-Library.AList"
begin

text \<open>
  \<open>services/kalshi_read_reconciliation.py\<close>: one persisted intent against the venue's current
  orders and fills. The reads of the provider are arguments (\<open>KalshiReadClient\<close> is a protocol);
  so are SHA-256, the fresh ids and the clock of the ledger. The service reads the tables, then
  the venue, and only then opens its transaction; \<open>lg0\<close> are the tables of the first read and
  \<open>lg1\<close> those the transaction finds.
\<close>

section \<open>Searching the current orders\<close>

text \<open>\<open>==\<close> on the frozen dataclasses: decimals are equal when their values are.\<close>

definition order_eq :: "kalshi_order \<Rightarrow> kalshi_order \<Rightarrow> bool" where
  "order_eq a b =
     (list_all2 (\<lambda>x y. dval x = dval y)
        [ord_yes_price a, ord_no_price a, ord_fill_count a, ord_remaining_count a, ord_initial_count a,
         ord_taker_fees a, ord_maker_fees a, ord_taker_fill_cost a, ord_maker_fill_cost a]
        [ord_yes_price b, ord_no_price b, ord_fill_count b, ord_remaining_count b, ord_initial_count b,
         ord_taker_fees b, ord_maker_fees b, ord_taker_fill_cost b, ord_maker_fill_cost b]
      \<and> ord_order_id a = ord_order_id b \<and> ord_user_id a = ord_user_id b
      \<and> ord_client_order_id a = ord_client_order_id b \<and> ord_ticker a = ord_ticker b
      \<and> ord_outcome_side a = ord_outcome_side b \<and> ord_book_side a = ord_book_side b
      \<and> ord_order_type a = ord_order_type b \<and> ord_status a = ord_status b
      \<and> ord_created_time a = ord_created_time b \<and> ord_last_update_time a = ord_last_update_time b
      \<and> ord_expiration_time a = ord_expiration_time b
      \<and> ord_subaccount_number a = ord_subaccount_number b \<and> ord_exchange_index a = ord_exchange_index b)"

definition fill_eq :: "kalshi_fill \<Rightarrow> kalshi_fill \<Rightarrow> bool" where
  "fill_eq a b =
     (list_all2 (\<lambda>x y. dval x = dval y)
        [fil_count a, fil_yes_price a, fil_no_price a, fil_fee_cost a]
        [fil_count b, fil_yes_price b, fil_no_price b, fil_fee_cost b]
      \<and> fil_fill_id a = fil_fill_id b \<and> fil_trade_id a = fil_trade_id b
      \<and> fil_order_id a = fil_order_id b \<and> fil_ticker a = fil_ticker b
      \<and> fil_market_ticker a = fil_market_ticker b \<and> fil_outcome_side a = fil_outcome_side b
      \<and> fil_book_side a = fil_book_side b \<and> fil_is_taker a = fil_is_taker b
      \<and> fil_created_time a = fil_created_time b
      \<and> fil_subaccount_number a = fil_subaccount_number b \<and> fil_ts a = fil_ts b)"

text \<open>The body of the loop over a page's orders; the matches are a dictionary by order id.\<close>

definition collect_order ::
    "string \<Rightarrow> (string \<times> kalshi_order) list \<Rightarrow> kalshi_order \<Rightarrow> (string \<times> kalshi_order) list res" where
  "collect_order client_order_id matches r =
     (if ord_client_order_id r \<noteq> client_order_id then Inr matches
      else if (case map_of matches (ord_order_id r) of None \<Rightarrow> False | Some s \<Rightarrow> \<not> order_eq s r)
      then Inl (ReconciliationConflictError ''one provider_order_id returned conflicting order snapshots'')
      else Inr (AList.update (ord_order_id r) r matches))"

definition find_current_orders ::
    "(string \<Rightarrow> nat \<Rightarrow> string option \<Rightarrow> kalshi_order page res) \<Rightarrow> venue_order_intent
       \<Rightarrow> kalshi_order list res option" where
  "find_current_orders get_orders i =
     map_option (\<lambda>m. bindE m (\<lambda>matches. Inr (map snd matches)))
       (read_pages (get_orders (vi_instrument_id i)) (collect_order (vi_client_order_id i))
         (ReconciliationConflictError ''Kalshi orders pagination cursor repeated'') [])"

section \<open>Reading the fills of the matched order\<close>

definition other_subaccount :: "int option \<Rightarrow> int option \<Rightarrow> bool" where
  "other_subaccount a b = (a \<noteq> None \<and> b \<noteq> None \<and> a \<noteq> b)"

definition collect_fill ::
    "kalshi_order \<Rightarrow> (string \<times> kalshi_fill) list \<times> dec \<Rightarrow> kalshi_fill
       \<Rightarrow> ((string \<times> kalshi_fill) list \<times> dec) res" where
  "collect_fill r = (\<lambda>(fills, observed) f.
     if fil_order_id f \<noteq> ord_order_id r
     then Inl (ReconciliationConflictError ''Kalshi fill order_id conflicts with the matched order'')
     else if fil_ticker f \<noteq> ord_ticker r \<or> fil_book_side f \<noteq> ord_book_side r
     then Inl (ReconciliationConflictError
            ''Kalshi fill instrument or side conflicts with the matched order'')
     else if other_subaccount (fil_subaccount_number f) (ord_subaccount_number r)
     then Inl (ReconciliationConflictError ''Kalshi fill subaccount conflicts with the matched order'')
     else case map_of fills (fil_fill_id f) of
        Some g \<Rightarrow>
          if \<not> fill_eq g f
          then Inl (ReconciliationConflictError ''one fill_id returned conflicting fill evidence'')
          else Inr (fills, observed)
      | None \<Rightarrow>
          let total = dec_add 39 observed (fil_count f) in
          if dval (ord_initial_count r) < dval total
          then Inl (ReconciliationConflictError
                 ''observed Kalshi fill quantity exceeds initial order quantity'')
          else Inr (AList.update (fil_fill_id f) f fills, total))"

definition get_current_fills ::
    "(string \<Rightarrow> nat \<Rightarrow> string option \<Rightarrow> kalshi_fill page res) \<Rightarrow> kalshi_order
       \<Rightarrow> kalshi_fill list res option" where
  "get_current_fills get_fills r =
     map_option (\<lambda>m. bindE m (\<lambda>(fills, _). Inr (map snd fills)))
       (read_pages (get_fills (ord_order_id r)) (collect_fill r)
         (ReconciliationConflictError ''Kalshi fills pagination cursor repeated'') ([], dzero))"

section \<open>Checking the order against the intent\<close>

definition effective_price :: "kalshi_order \<Rightarrow> dec" where
  "effective_price r = (if ord_book_side r = Bid then ord_yes_price r else ord_no_price r)"

definition validate_order :: "venue_order_intent \<Rightarrow> kalshi_order \<Rightarrow> unit res" where
  "validate_order i r =
     (if ord_ticker r \<noteq> vi_instrument_id i
      then Inl (ReconciliationConflictError ''Kalshi order ticker conflicts with the immutable intent'')
      else if ord_book_side r \<noteq> vi_book_side i
      then Inl (ReconciliationConflictError ''Kalshi order book_side conflicts with the immutable intent'')
      else if ord_order_type r \<noteq> Limit
      then Inl (ReconciliationConflictError
             ''Kalshi order type conflicts with the immutable limit-order intent'')
      else if dval (ord_initial_count r) \<noteq> dval (vi_quantity i)
      then Inl (ReconciliationConflictError ''Kalshi order initial_count conflicts with the immutable intent'')
      else if dval (effective_price r) \<noteq> dval (vi_limit_price i)
      then Inl (ReconciliationConflictError ''Kalshi order limit price conflicts with the immutable intent'')
      else Inr ())"

section \<open>Timestamps of the evidence\<close>

definition provider_datetime :: "string option \<Rightarrow> string \<Rightarrow> int res" where
  "provider_datetime value field_name =
     (case value of
        None \<Rightarrow> Inl (ReconciliationConflictError
                  (''Kalshi '' @ field_name @ '' is required for durable evidence''))
      | Some s \<Rightarrow>
          (case rfc3339_match s of
             None \<Rightarrow> Inl (ReconciliationConflictError (''Kalshi '' @ field_name @ '' must be RFC3339''))
           | Some f \<Rightarrow>
               if excess_fraction f
               then Inl (ReconciliationConflictError
                      (''Kalshi '' @ field_name @ '' exceeds database timestamp precision''))
               else parse_utc (ReconciliationConflictError (''Kalshi '' @ field_name @ '' must be RFC3339'')) f))"

text \<open>
  \<open>datetime.fromtimestamp(ts, tz=utc)\<close> for a non-negative \<open>ts\<close>: a \<open>datetime\<close> up to the year
  9999; beyond, the exception depends on where the conversion gives up (the calendar, the C
  library's year, \<open>time_t\<close>).
\<close>

definition fromtimestamp_utc :: "int \<Rightarrow> int res" where
  "fromtimestamp_utc ts =
     (if 9223372036854775808 \<le> ts
      then Inl (OverflowError ''timestamp out of range for platform time_t'')
      else if 67768036191676800 \<le> ts then Inl (OSError ''Value too large for defined data type'')
      else if 253402300800 \<le> ts then Inl (ValueError ''year is out of range'')
      else Inr (ts * 1000000))"

definition fill_datetime :: "kalshi_fill \<Rightarrow> int res" where
  "fill_datetime f =
     (case fil_created_time f of
        Some t \<Rightarrow> provider_datetime (Some t) ''fill created_time''
      | None \<Rightarrow>
          (case fil_ts f of
             None \<Rightarrow> Inl (ReconciliationConflictError
                       ''Kalshi fill requires created_time or a non-negative ts'')
           | Some ts \<Rightarrow>
               if ts < 0
               then Inl (ReconciliationConflictError
                      ''Kalshi fill requires created_time or a non-negative ts'')
               else fromtimestamp_utc ts))"

section \<open>Payloads\<close>

definition py_opt :: "('a \<Rightarrow> pyval) \<Rightarrow> 'a option \<Rightarrow> pyval" where
  "py_opt f x = (case x of None \<Rightarrow> PNone | Some y \<Rightarrow> f y)"

abbreviation py_dec :: "dec \<Rightarrow> pyval" where
  "py_dec d \<equiv> PDec (Fin d)"

definition order_payload :: "kalshi_order \<Rightarrow> pydict" where
  "order_payload r =
     [(''order_id'', PStr (ord_order_id r)), (''client_order_id'', PStr (ord_client_order_id r)),
      (''ticker'', PStr (ord_ticker r)), (''outcome_side'', PStr (outcome_text (ord_outcome_side r))),
      (''book_side'', PStr (book_side_text (ord_book_side r))),
      (''order_type'', PStr (order_type_text (ord_order_type r))),
      (''status'', PStr (order_status_text (ord_status r))),
      (''yes_price'', py_dec (ord_yes_price r)), (''no_price'', py_dec (ord_no_price r)),
      (''fill_count'', py_dec (ord_fill_count r)), (''remaining_count'', py_dec (ord_remaining_count r)),
      (''initial_count'', py_dec (ord_initial_count r)), (''taker_fees'', py_dec (ord_taker_fees r)),
      (''maker_fees'', py_dec (ord_maker_fees r)), (''taker_fill_cost'', py_dec (ord_taker_fill_cost r)),
      (''maker_fill_cost'', py_dec (ord_maker_fill_cost r)),
      (''created_time'', py_opt PStr (ord_created_time r)),
      (''last_update_time'', py_opt PStr (ord_last_update_time r)),
      (''expiration_time'', py_opt PStr (ord_expiration_time r)),
      (''subaccount_number'', py_opt PInt (ord_subaccount_number r)),
      (''exchange_index'', py_opt PInt (ord_exchange_index r))]"

definition fill_payload :: "kalshi_fill \<Rightarrow> pydict" where
  "fill_payload f =
     [(''fill_id'', PStr (fil_fill_id f)), (''trade_id'', PStr (fil_trade_id f)),
      (''order_id'', PStr (fil_order_id f)), (''ticker'', PStr (fil_ticker f)),
      (''market_ticker'', PStr (fil_market_ticker f)),
      (''outcome_side'', PStr (outcome_text (fil_outcome_side f))),
      (''book_side'', PStr (book_side_text (fil_book_side f))),
      (''count'', py_dec (fil_count f)), (''yes_price'', py_dec (fil_yes_price f)),
      (''no_price'', py_dec (fil_no_price f)), (''is_taker'', PBool (fil_is_taker f)),
      (''fee_cost'', py_dec (fil_fee_cost f)), (''created_time'', py_opt PStr (fil_created_time f)),
      (''subaccount_number'', py_opt PInt (fil_subaccount_number f)), (''ts'', py_opt PInt (fil_ts f))]"

definition evidence_hash :: "(string \<Rightarrow> string) \<Rightarrow> pydict \<Rightarrow> string" where
  "evidence_hash digest payload = digest (json_dumps (PDict payload))"

section \<open>Reconciling an intent\<close>

datatype reconciliation_outcome = Matched | Inconclusive

record reconciliation_result =
  rr_outcome :: reconciliation_outcome
  rr_provider_order_id :: "string option"
  rr_provider_status :: "string option"
  rr_observed_fill_count :: int
  rr_retry_allowed :: bool

text \<open>\<open>retry_allowed: Literal[False] = False\<close> is never set by any caller.\<close>

definition reconciled ::
    "reconciliation_outcome \<Rightarrow> string option \<Rightarrow> string option \<Rightarrow> int \<Rightarrow> reconciliation_result" where
  "reconciled outc po st n =
     \<lparr>rr_outcome = outc, rr_provider_order_id = po, rr_provider_status = st,
      rr_observed_fill_count = n, rr_retry_allowed = False\<rparr>"

definition optional_payload_text :: "pyval \<Rightarrow> string \<Rightarrow> string option res" where
  "optional_payload_text v m =
     (case v of PNone \<Rightarrow> Inr None | PStr s \<Rightarrow> Inr (Some s) | _ \<Rightarrow> Inl (ReconciliationConflictError m))"

definition result_from_attempt :: "event_row \<Rightarrow> reconciliation_result res" where
  "result_from_attempt e =
     (if ev_event_type e \<notin> {''reconciliation_inconclusive'', ''reconciliation_matched''}
      then Inl (ReconciliationConflictError
             ''reconciliation attempt key is bound to an invalid event type'') else
      let p = ev_payload e in
      bindE (optional_payload_text (py_get p ''provider_order_id'')
        ''persisted reconciliation provider_order_id is invalid'') (\<lambda>po.
      bindE (optional_payload_text (py_get p ''provider_status'')
        ''persisted reconciliation provider_status is invalid'') (\<lambda>st.
      bindE (as_int (py_get_or (PInt 0) p ''observed_fill_count'')
        (ReconciliationConflictError ''persisted reconciliation observed_fill_count is invalid'')) (\<lambda>n.
      if n < 0
      then Inl (ReconciliationConflictError ''persisted reconciliation observed_fill_count is invalid'')
      else Inr (reconciled
        (if ev_event_type e = ''reconciliation_matched'' then Matched else Inconclusive) po st n)))))"

definition attempt_key :: "string \<Rightarrow> string" where
  "attempt_key reconciliation_id = ''reconciliation_attempt:'' @ reconciliation_id"

text \<open>What the service draws fresh: the ids and the clock of the events it records, by position.\<close>

type_synonym fresh = "nat \<Rightarrow> string \<times> int"

section \<open>No current order\<close>

definition inconclusive_event :: "string \<Rightarrow> string \<Rightarrow> int \<Rightarrow> ack_row option \<Rightarrow> event_args" where
  "inconclusive_event i reconciliation_id observed_at a =
     \<lparr>ga_intent_id = i, ga_event_type = ''reconciliation_inconclusive'',
      ga_source = ''kalshi_rest_reconciliation'', ga_dedupe_key = attempt_key reconciliation_id,
      ga_occurred_at = Aware observed_at,
      ga_payload =
        [(''reconciliation_id'', PStr reconciliation_id),
         (''reason'', PStr ''not_found_in_current_orders''),
         (''historical_search_performed'', PBool False),
         (''provider_order_id'', py_opt PStr (map_option ar_provider_order_id a)),
         (''provider_status'', py_opt PStr (map_option ar_provider_status a)),
         (''retry_allowed'', PBool False)],
      ga_provider_order_id = None, ga_provider_event_id = None\<rparr>"

definition commit_inconclusive ::
    "fresh \<Rightarrow> string \<Rightarrow> string \<Rightarrow> int \<Rightarrow> (ledger, reconciliation_result) action" where
  "commit_inconclusive fr i reconciliation_id observed_at =
     transaction (
       bindA (readA (intent_by_id i)) (\<lambda>q. case q of
         None \<Rightarrow> liftE (Inl (ReconciliationConflictError ''order intent disappeared during reconciliation''))
       | Some _ \<Rightarrow>
       bindA (readA (ack_by_intent i)) (\<lambda>a.
       bindA (record_event (fr 0) (inconclusive_event i reconciliation_id observed_at a)) (\<lambda>_.
       liftE (Inr (reconciled Inconclusive (map_option ar_provider_order_id a)
         (map_option ar_provider_status a) 0))))))"

section \<open>A matched order\<close>

definition initial_ack_args :: "string \<Rightarrow> kalshi_order \<Rightarrow> int \<Rightarrow> ack_args" where
  "initial_ack_args client_order_id r created_at =
     \<lparr>aa_venue = ''kalshi'', aa_client_order_id = client_order_id, aa_provider_order_id = ord_order_id r,
      aa_provider_status = order_status_text (ord_status r), aa_filled_quantity = ord_fill_count r,
      aa_remaining_quantity = ord_remaining_count r, aa_provider_timestamp = Aware created_at,
      aa_payload = order_payload r\<rparr>"

definition acknowledge_order ::
    "fresh \<Rightarrow> intent_row \<Rightarrow> kalshi_order \<Rightarrow> int \<Rightarrow> (ledger, unit) action" where
  "acknowledge_order fr q r created_at =
     bindA (readA (ack_by_intent (ir_id q))) (\<lambda>known. case known of
        None \<Rightarrow>
          bindA (liftE (make_initial_ack (initial_ack_args (vi_client_order_id (ir_intent q)) r created_at)))
            (\<lambda>a. bindA (record_initial_acknowledgement (fr 0) (ir_id q, a)) (\<lambda>_. liftE (Inr ())))
      | Some a \<Rightarrow>
          if ar_provider_order_id a \<noteq> ord_order_id r
          then liftE (Inl (ReconciliationConflictError
                 ''current provider_order_id conflicts with the immutable acknowledgement''))
          else liftE (Inr ()))"

definition fill_event :: "string \<Rightarrow> kalshi_order \<Rightarrow> kalshi_fill \<Rightarrow> int \<Rightarrow> event_args" where
  "fill_event i r f occurred_at =
     \<lparr>ga_intent_id = i, ga_event_type = ''fill_observed'', ga_source = ''kalshi_rest_reconciliation'',
      ga_dedupe_key = ''fill_observed:'' @ ord_order_id r @ '':'' @ fil_fill_id f,
      ga_occurred_at = Aware occurred_at, ga_payload = fill_payload f,
      ga_provider_order_id = Some (ord_order_id r), ga_provider_event_id = Some (fil_fill_id f)\<rparr>"

definition record_fill ::
    "fresh \<Rightarrow> string \<Rightarrow> kalshi_order \<Rightarrow> nat \<times> kalshi_fill \<Rightarrow> (ledger, event_row) action" where
  "record_fill fr i r = (\<lambda>(k, f).
     bindA (liftE (fill_datetime f)) (\<lambda>t. record_event (fr k) (fill_event i r f t)))"

definition order_event :: "(string \<Rightarrow> string) \<Rightarrow> string \<Rightarrow> kalshi_order \<Rightarrow> int \<Rightarrow> event_args" where
  "order_event digest i r occurred_at =
     \<lparr>ga_intent_id = i, ga_event_type = ''order_observed'', ga_source = ''kalshi_rest_reconciliation'',
      ga_dedupe_key = ''order_observed:'' @ ord_order_id r @ '':'' @ evidence_hash digest (order_payload r),
      ga_occurred_at = Aware occurred_at, ga_payload = order_payload r,
      ga_provider_order_id = Some (ord_order_id r), ga_provider_event_id = None\<rparr>"

definition matched_event :: "string \<Rightarrow> string \<Rightarrow> int \<Rightarrow> kalshi_order \<Rightarrow> nat \<Rightarrow> event_args" where
  "matched_event i reconciliation_id observed_at r n =
     \<lparr>ga_intent_id = i, ga_event_type = ''reconciliation_matched'',
      ga_source = ''kalshi_rest_reconciliation'', ga_dedupe_key = attempt_key reconciliation_id,
      ga_occurred_at = Aware observed_at,
      ga_payload =
        [(''reconciliation_id'', PStr reconciliation_id),
         (''search_scope'', PStr ''current_orders_and_fills''),
         (''global_client_order_id_uniqueness_proven'', PBool False),
         (''provider_order_id'', PStr (ord_order_id r)),
         (''provider_status'', PStr (order_status_text (ord_status r))),
         (''observed_fill_count'', PInt (int n)), (''retry_allowed'', PBool False)],
      ga_provider_order_id = Some (ord_order_id r), ga_provider_event_id = None\<rparr>"

text \<open>\<open>except VenueExecutionConflictError as exc: raise ReconciliationConflictError(str(exc))\<close>\<close>

definition conflict_wrapped :: "'a res \<Rightarrow> 'a res" where
  "conflict_wrapped m = catchE m (\<lambda>e. case e of
      VenueExecutionConflictError t \<Rightarrow> Some (Inl (ReconciliationConflictError t)) | _ \<Rightarrow> None)"

text \<open>The statements of the transaction.\<close>

definition matched_evidence ::
    "(string \<Rightarrow> string) \<Rightarrow> fresh \<Rightarrow> intent_row \<Rightarrow> string \<Rightarrow> int \<Rightarrow> kalshi_order \<Rightarrow> kalshi_fill list
       \<Rightarrow> int \<Rightarrow> int \<Rightarrow> (ledger, reconciliation_result) action" where
  "matched_evidence digest fr q reconciliation_id observed_at r fills order_occurred_at order_created_at =
     (let n = length fills in
      bindA (acknowledge_order fr q r order_created_at) (\<lambda>_.
      bindA (eachA (record_fill fr (ir_id q) r) (enumerate 1 fills)) (\<lambda>_.
      bindA (record_event (fr (n + 1)) (order_event digest (ir_id q) r order_occurred_at)) (\<lambda>_.
      bindA (record_event (fr (n + 2)) (matched_event (ir_id q) reconciliation_id observed_at r n)) (\<lambda>_.
      liftE (Inr (reconciled Matched (Some (ord_order_id r))
        (Some (order_status_text (ord_status r))) (int n))))))))"

definition commit_matched ::
    "(string \<Rightarrow> string) \<Rightarrow> fresh \<Rightarrow> intent_row \<Rightarrow> string \<Rightarrow> int \<Rightarrow> kalshi_order \<Rightarrow> kalshi_fill list
       \<Rightarrow> int \<Rightarrow> int \<Rightarrow> (ledger, reconciliation_result) action" where
  "commit_matched digest fr q reconciliation_id observed_at r fills order_occurred_at order_created_at lg =
     apfst conflict_wrapped (transaction
       (matched_evidence digest fr q reconciliation_id observed_at r fills order_occurred_at order_created_at)
       lg)"

text \<open>\<open>order.last_update_time or order.created_time\<close>\<close>

definition latest_time :: "kalshi_order \<Rightarrow> string option" where
  "latest_time r = (case ord_last_update_time r of
      None \<Rightarrow> ord_created_time r | Some s \<Rightarrow> if s = [] then ord_created_time r else Some s)"

text \<open>
  The service: \<open>None\<close> while a read of the provider has not come back.
\<close>

definition reconcile_intent ::
    "(string \<Rightarrow> string) \<Rightarrow> (string \<Rightarrow> nat \<Rightarrow> string option \<Rightarrow> kalshi_order page res)
       \<Rightarrow> (string \<Rightarrow> nat \<Rightarrow> string option \<Rightarrow> kalshi_fill page res) \<Rightarrow> fresh
       \<Rightarrow> string \<Rightarrow> string \<Rightarrow> py_datetime \<Rightarrow> ledger \<Rightarrow> ledger
       \<Rightarrow> (reconciliation_result res \<times> ledger) option" where
  "reconcile_intent digest get_orders get_fills fr i raw_id raw_at lg0 lg1 =
     (let reconciliation_id = strip raw_id in
      if reconciliation_id = [] then Some (Inl (ValueError ''reconciliation_id is required''), lg1) else
      case aware_instant raw_at ''observed_at must be timezone-aware'' of
        Inl e \<Rightarrow> Some (Inl e, lg1)
      | Inr observed_at \<Rightarrow>
      case intent_by_id i lg0 of
        None \<Rightarrow> Some (Inl (ReconciliationConflictError ''unknown order intent''), lg1)
      | Some q \<Rightarrow>
      if vi_venue (ir_intent q) \<noteq> Kalshi
      then Some (Inl (ReconciliationConflictError
                   ''Kalshi reconciliation requires a Kalshi order intent''), lg1) else
      case event_by_dedupe (i, attempt_key reconciliation_id) lg0 of
        Some e \<Rightarrow> Some (result_from_attempt e, lg1)
      | None \<Rightarrow>
      case find_current_orders get_orders (ir_intent q) of
        None \<Rightarrow> None
      | Some (Inl e) \<Rightarrow> Some (Inl e, lg1)
      | Some (Inr []) \<Rightarrow> Some (commit_inconclusive fr (ir_id q) reconciliation_id observed_at lg1)
      | Some (Inr (_ # _ # _)) \<Rightarrow>
          Some (Inl (ReconciliationConflictError
                  ''multiple current Kalshi orders share the persisted client_order_id''), lg1)
      | Some (Inr [r]) \<Rightarrow>
      case bindE (validate_order (ir_intent q) r) (\<lambda>_.
             case ack_by_intent i lg0 of
               None \<Rightarrow> Inr ()
             | Some a \<Rightarrow>
                 if ar_provider_order_id a \<noteq> ord_order_id r
                 then Inl (ReconciliationConflictError
                        ''current provider_order_id conflicts with the immutable acknowledgement'')
                 else Inr ()) of
        Inl e \<Rightarrow> Some (Inl e, lg1)
      | Inr _ \<Rightarrow>
      case get_current_fills get_fills r of
        None \<Rightarrow> None
      | Some (Inl e) \<Rightarrow> Some (Inl e, lg1)
      | Some (Inr fills) \<Rightarrow>
      case bindE (provider_datetime (latest_time r) ''order last_update_time or created_time'') (\<lambda>t.
           bindE (provider_datetime (ord_created_time r) ''order created_time'') (\<lambda>c. Inr (t, c))) of
        Inl e \<Rightarrow> Some (Inl e, lg1)
      | Inr (order_occurred_at, order_created_at) \<Rightarrow>
          Some (commit_matched digest fr q reconciliation_id observed_at r fills
            order_occurred_at order_created_at lg1))"

section \<open>What the searches find\<close>

lemma update_set_distinct:
  "distinct (map fst al) \<Longrightarrow> set (AList.update k v al) = insert (k, v) {(j, w) \<in> set al. j \<noteq> k}"
  by (induction al) (auto simp: image_iff)

lemma order_eq_refl [simp]: "order_eq r r"
  by (simp add: order_eq_def)

lemma order_eq_sym: "order_eq r s \<Longrightarrow> order_eq s r"
  by (simp add: order_eq_def)

lemma order_eq_trans: "order_eq q r \<Longrightarrow> order_eq r s \<Longrightarrow> order_eq q s"
  by (simp add: order_eq_def)

text \<open>The matches are the orders of the client id among the items read, once per order id.\<close>

definition orders_found :: "string \<Rightarrow> kalshi_order list \<Rightarrow> (string \<times> kalshi_order) list \<Rightarrow> bool" where
  "orders_found c xs matches =
     (distinct (map fst matches)
      \<and> (\<forall>(k, r) \<in> set matches. k = ord_order_id r \<and> ord_client_order_id r = c \<and> r \<in> set xs)
      \<and> (\<forall>r \<in> set xs. ord_client_order_id r = c \<longrightarrow> (\<exists>s. (ord_order_id r, s) \<in> set matches \<and> order_eq s r)))"

lemma collect_order_kept:
  assumes kept: "orders_found c xs matches" and "collect_order c matches r = Inr matches'"
  shows "orders_found c (xs @ [r]) matches'"
proof (cases "ord_client_order_id r = c")
  case False
  then show ?thesis using assms by (auto simp: collect_order_def orders_found_def)
next
  case True
  have d: "distinct (map fst matches)" using kept by (simp add: orders_found_def)
  have m: "matches' = AList.update (ord_order_id r) r matches"
    using assms(2) True by (auto simp: collect_order_def split: if_splits)
  have same: "order_eq s r" if "(ord_order_id r, s) \<in> set matches" for s
    using assms(2) True map_of_is_SomeI [OF d that] by (auto simp: collect_order_def split: if_splits)
  have "\<exists>s. (ord_order_id q, s) \<in> set matches' \<and> order_eq s q"
    if q: "q \<in> set xs" "ord_client_order_id q = c" for q
  proof -
    obtain s where s: "(ord_order_id q, s) \<in> set matches" "order_eq s q"
      using kept q unfolding orders_found_def by blast
    show ?thesis
    proof (cases "ord_order_id q = ord_order_id r")
      case True
      with s same have "order_eq r q" by (metis order_eq_sym order_eq_trans)
      then show ?thesis using True by (auto simp: m update_set_distinct [OF d])
    next
      case False
      then show ?thesis using s by (auto simp: m update_set_distinct [OF d])
    qed
  qed
  moreover have "distinct (map fst matches')" using d by (simp add: m distinct_update)
  ultimately show ?thesis
    using kept True by (auto simp: orders_found_def m update_set_distinct [OF d])
qed

interpretation current_orders:
  page_collector "collect_order c" "[]" "\<lambda>_. True" "orders_found c" for c
proof
  show "orders_found c [] []" by (simp add: orders_found_def)
  show "orders_found c (xs @ [i]) acc'" if "orders_found c xs acc" "collect_order c acc i = Inr acc'"
    for xs acc acc' i
    using that by (rule collect_order_kept)
qed

text \<open>The fills: their count, to the last digit, stays within the order's.\<close>

definition fill_belongs :: "kalshi_order \<Rightarrow> kalshi_fill \<Rightarrow> bool" where
  "fill_belongs r f =
     (fil_order_id f = ord_order_id r \<and> fil_ticker f = ord_ticker r \<and> fil_book_side f = ord_book_side r
      \<and> \<not> other_subaccount (fil_subaccount_number f) (ord_subaccount_number r))"

definition total_count :: "kalshi_fill list \<Rightarrow> rat" where
  "total_count fs = (\<Sum>f\<leftarrow>fs. dval (fil_count f))"

definition fills_found ::
    "kalshi_order \<Rightarrow> kalshi_fill list \<Rightarrow> (string \<times> kalshi_fill) list \<times> dec \<Rightarrow> bool" where
  "fills_found r xs = (\<lambda>(fills, observed).
     distinct (map fst fills)
     \<and> (\<forall>(k, f) \<in> set fills. k = fil_fill_id f \<and> fill_belongs r f \<and> f \<in> set xs)
     \<and> (\<forall>f \<in> set xs. \<exists>g. (fil_fill_id f, g) \<in> set fills \<and> fill_eq g f)
     \<and> count_quantum \<le> dexp observed \<and> dval observed = total_count (map snd fills)
     \<and> 0 \<le> dval observed \<and> dval observed \<le> dval (ord_initial_count r))"

lemma fill_eq_refl [simp]: "fill_eq f f"
  by (simp add: fill_eq_def)

lemma fill_total_exact:
  assumes "count_quantum \<le> dexp observed" "0 \<le> dval observed" "dval observed \<le> dval n"
    and "on_grid count_quantum n" "on_grid count_quantum c"
  shows "dval (dec_add 39 observed c) = dval observed + dval c"
    and "count_quantum \<le> dexp (dec_add 39 observed c)"
proof -
  have "\<bar>dval n\<bar> < 10 ^ 26" "\<bar>dval c\<bar> < 10 ^ 26"
    using on_grid_below [OF assms(4)] on_grid_below [OF assms(5)]
    by (simp_all add: default_prec_def count_quantum_def power_int_def)
  then have "\<bar>dval observed + dval c\<bar> < 10 powi (int 39 + count_quantum)"
    using assms(2,3) by (simp add: count_quantum_def power_int_def)
  moreover have "count_quantum \<le> dexp c" using assms(5) by (simp add: on_grid_def)
  ultimately show "dval (dec_add 39 observed c) = dval observed + dval c"
    "count_quantum \<le> dexp (dec_add 39 observed c)"
    using dec_add_exact_of_bound [of 39 count_quantum observed c] assms(1)
    by (simp_all add: count_quantum_def)
qed

lemma total_count_snoc [simp]: "total_count (xs @ [f]) = total_count xs + dval (fil_count f)"
  by (simp add: total_count_def)

lemma update_new: "map_of al k = None \<Longrightarrow> AList.update k v al = al @ [(k, v)]"
  by (induction al) (auto split: if_splits)

lemma collect_fill_kept:
  assumes order: "order_ok r" and kept: "fills_found r xs s" and f: "fill_ok f"
    and take: "collect_fill r s f = Inr s'"
  shows "fills_found r (xs @ [f]) s'"
proof -
  obtain fills observed where s: "s = (fills, observed)" by (cases s)
  have belongs: "fill_belongs r f"
    using take by (auto simp: collect_fill_def s fill_belongs_def split: if_splits)
  show ?thesis
  proof (cases "map_of fills (fil_fill_id f)")
    case (Some g)
    then have "(fil_fill_id f, g) \<in> set fills" by (rule map_of_SomeD)
    moreover have "s' = s \<and> fill_eq g f"
      using take Some by (auto simp: collect_fill_def s split: if_splits)
    ultimately show ?thesis using kept by (auto simp: fills_found_def s)
  next
    case None
    define total where "total = dec_add 39 observed (fil_count f)"
    have s': "s' = (fills @ [(fil_fill_id f, f)], total)" and le: "dval total \<le> dval (ord_initial_count r)"
      using take None by (auto simp: collect_fill_def s total_def Let_def update_new split: if_splits)
    have grid: "on_grid count_quantum (ord_initial_count r)" "on_grid count_quantum (fil_count f)"
      "0 \<le> dval (fil_count f)"
      using order f by (simp_all add: order_ok_def fill_ok_def amount_ok_def)
    have obs: "count_quantum \<le> dexp observed" "0 \<le> dval observed" "dval observed \<le> dval (ord_initial_count r)"
      using kept by (simp_all add: fills_found_def s)
    have new: "fil_fill_id f \<notin> fst ` set fills" using None by (simp add: map_of_eq_None_iff)
    show ?thesis
      using kept belongs le new grid(3) fill_total_exact [OF obs grid(1,2)]
      by (auto simp: fills_found_def s s' total_def)
  qed
qed

lemma total_count_Nil [simp]: "total_count [] = 0"
  by (simp add: total_count_def)

interpretation current_fills:
  page_collector "collect_fill r" "([], dzero)" fill_ok "\<lambda>xs s. order_ok r \<longrightarrow> fills_found r xs s" for r
proof
  show "order_ok r \<longrightarrow> fills_found r [] ([], dzero)"
    by (simp add: fills_found_def order_ok_def amount_ok_def) (simp add: dzero_def count_quantum_def)
  show "order_ok r \<longrightarrow> fills_found r (xs @ [i]) acc'"
    if "order_ok r \<longrightarrow> fills_found r xs acc" "fill_ok i" "collect_fill r acc i = Inr acc'" for xs acc acc' i
    using that by (blast intro: collect_fill_kept)
qed

section \<open>What the transaction does to the ledger\<close>

lemma appends_commits:
  "appends (acknowledge_order fr q r t)"
  "appends (record_fill fr i r kf)"
  "appends (matched_evidence digest fr q rid obs r fills t c)"
proof -
  show ack: "appends (acknowledge_order fr q r t)" for t
    unfolding acknowledge_order_def by (intro appends_rules)
  show fill: "appends (record_fill fr i r kf)" for i kf
    unfolding record_fill_def by (intro appends_rules)
  show "appends (matched_evidence digest fr q rid obs r fills t c)"
    unfolding matched_evidence_def by (intro appends_rules ack fill)
qed

lemma commit_inconclusive_ok:
  assumes "ledger_ok lg" "commit_inconclusive fr i rid t lg = (res, lg')"
  shows "ledger_ok lg' \<and> ledger_extends lg lg' \<and> (\<forall>e. res = Inl e \<longrightarrow> lg' = lg)"
  by (rule transaction_appends [OF _ assms(1) assms(2) [unfolded commit_inconclusive_def]])
    (intro appends_rules)

lemma conflict_wrapped_return [simp]: "conflict_wrapped (Inr x) = Inr x"
  by (simp add: conflict_wrapped_def)

lemma conflict_wrapped_Inr [res_simps]: "conflict_wrapped m = Inr x \<longleftrightarrow> m = Inr x"
  by (auto simp: conflict_wrapped_def catchE_def split: sum.splits exn.splits)

lemma commit_matched_ok:
  assumes "ledger_ok lg" "commit_matched digest fr q rid obs r fills t c lg = (res, lg')"
  shows "ledger_ok lg' \<and> ledger_extends lg lg' \<and> (\<forall>e. res = Inl e \<longrightarrow> lg' = lg)"
proof -
  obtain m where m: "transaction (matched_evidence digest fr q rid obs r fills t c) lg = (m, lg')"
    and res: "res = conflict_wrapped m"
    using assms(2) unfolding commit_matched_def by (metis apfst_conv prod.inject surj_pair)
  have "\<exists>e'. m = Inl e'" if "res = Inl e" for e
    using that res by (cases m) auto
  with transaction_appends [OF appends_commits(3) assms(1) m] show ?thesis by blast
qed

lemma reconcile_cases:
  assumes "reconcile_intent digest get_orders get_fills fr i raw_id raw_at lg0 lg1 = Some (res, lg')"
  obtains (unchanged) "lg' = lg1" "is_ok res \<Longrightarrow> event_by_dedupe (i, attempt_key (strip raw_id)) lg0 \<noteq> None"
  | (inconclusive) q obs where "intent_by_id i lg0 = Some q" "strip raw_id \<noteq> []"
      "vi_venue (ir_intent q) = Kalshi"
      "commit_inconclusive fr (ir_id q) (strip raw_id) obs lg1 = (res, lg')"
  | (matched) q obs r fills t c where "intent_by_id i lg0 = Some q" "strip raw_id \<noteq> []"
      "vi_venue (ir_intent q) = Kalshi"
      "find_current_orders get_orders (ir_intent q) = Some (Inr [r])"
      "validate_order (ir_intent q) r = Inr ()"
      "get_current_fills get_fills r = Some (Inr fills)"
      "commit_matched digest fr q (strip raw_id) obs r fills t c lg1 = (res, lg')"
  using assms unfolding reconcile_intent_def Let_def
  by (auto split: if_splits option.splits sum.splits list.splits simp: res_simps)

lemma reconcile_waits:
  assumes "\<nexists>out. reconcile_intent digest get_orders get_fills fr i raw_id raw_at lg0 lg1 = Some out"
  shows "\<exists>v r. find_current_orders get_orders v = None \<or> get_current_fills get_fills r = None"
proof -
  have "reconcile_intent digest get_orders get_fills fr i raw_id raw_at lg0 lg1 = None"
    using assms by (rule contrapos_np) (metis option.exhaust)
  then show ?thesis
    unfolding reconcile_intent_def Let_def
    by (auto split: if_splits option.splits sum.splits list.splits)
qed

text \<open>The recorded attempt of a reconciliation reads back as its result.\<close>

definition attempt_recorded :: "string \<Rightarrow> string \<Rightarrow> reconciliation_result \<Rightarrow> ledger \<Rightarrow> bool" where
  "attempt_recorded i rid r lg =
     (\<exists>e. event_by_dedupe (i, attempt_key rid) lg = Some e \<and> result_from_attempt e = Inr r)"

lemma strip_append:
  "strip rid = rid \<Longrightarrow> rid \<noteq> [] \<Longrightarrow> p \<noteq> [] \<Longrightarrow> \<not> unicode_space (hd p) \<Longrightarrow> strip (p @ rid) = p @ rid"
  using stripped_strip [of rid] by (intro strip_stripped_eq) (simp add: stripped_def)

lemma attempt_key_strip: "strip rid = rid \<Longrightarrow> rid \<noteq> [] \<Longrightarrow> strip (attempt_key rid) = attempt_key rid"
  unfolding attempt_key_def by (rule strip_append) (simp_all add: unicode_space_def)

lemma reconciliation_texts [simp]:
  "strip ''reconciliation_inconclusive'' = ''reconciliation_inconclusive''"
  "strip ''reconciliation_matched'' = ''reconciliation_matched''"
  "strip ''kalshi_rest_reconciliation'' = ''kalshi_rest_reconciliation''"
  "strip ''fill_observed'' = ''fill_observed''" "strip ''order_observed'' = ''order_observed''"
  by code_simp+

text \<open>The payloads of an attempt hold no decimals, so they are stored as they are.\<close>

lemma inconclusive_facts:
  "event_facts (inconclusive_event i rid obs a) = Inr x \<Longrightarrow>
     ef_event_type x = ''reconciliation_inconclusive'' \<and> ef_payload x = ga_payload (inconclusive_event i rid obs a)"
  by (cases a) (auto simp: event_facts_def Let_def aware_instant_def inconclusive_event_def json_payload_def
      py_opt_def res_simps)

lemma matched_facts:
  "event_facts (matched_event i rid obs r n) = Inr x \<Longrightarrow>
     ef_event_type x = ''reconciliation_matched'' \<and> ef_payload x = ga_payload (matched_event i rid obs r n)"
  by (auto simp: event_facts_def Let_def aware_instant_def matched_event_def json_payload_def res_simps)

lemma inconclusive_attempt:
  assumes "record_event f (inconclusive_event i rid obs a) lg = (Inr e, lg')"
    and "event_by_dedupe (i, attempt_key rid) lg = None" "strip rid = rid" "rid \<noteq> []"
  shows "attempt_recorded i rid (reconciled Inconclusive (map_option ar_provider_order_id a)
    (map_option ar_provider_status a) 0) lg'"
proof -
  let ?g = "inconclusive_event i rid obs a"
  have key: "ga_intent_id ?g = i" "strip (ga_dedupe_key ?g) = attempt_key rid"
    using assms(3,4) by (simp_all add: inconclusive_event_def attempt_key_strip)
  obtain x where x: "event_facts ?g = Inr x"
    and e: "ev_event_type e = ef_event_type x" "ev_payload e = ef_payload x"
    and found: "event_by_dedupe (i, attempt_key rid) lg' = Some e"
    using record_event_new [OF assms(1)] assms(2) unfolding key by blast
  have "result_from_attempt e = Inr (reconciled Inconclusive (map_option ar_provider_order_id a)
      (map_option ar_provider_status a) 0)"
    unfolding result_from_attempt_def Let_def e using inconclusive_facts [OF x]
    by (cases a) (simp_all add: inconclusive_event_def py_get_or_def py_opt_def optional_payload_text_def as_int_def)
  with found show ?thesis unfolding attempt_recorded_def by blast
qed

lemma matched_attempt:
  assumes "record_event f (matched_event i rid obs r n) lg = (Inr e, lg')"
    and "event_by_dedupe (i, attempt_key rid) lg = None" "strip rid = rid" "rid \<noteq> []"
  shows "attempt_recorded i rid (reconciled Matched (Some (ord_order_id r))
    (Some (order_status_text (ord_status r))) (int n)) lg'"
proof -
  let ?g = "matched_event i rid obs r n"
  have key: "ga_intent_id ?g = i" "strip (ga_dedupe_key ?g) = attempt_key rid"
    using assms(3,4) by (simp_all add: matched_event_def attempt_key_strip)
  obtain x where x: "event_facts ?g = Inr x"
    and e: "ev_event_type e = ef_event_type x" "ev_payload e = ef_payload x"
    and found: "event_by_dedupe (i, attempt_key rid) lg' = Some e"
    using record_event_new [OF assms(1)] assms(2) unfolding key by blast
  have "result_from_attempt e = Inr (reconciled Matched (Some (ord_order_id r))
      (Some (order_status_text (ord_status r))) (int n))"
    unfolding result_from_attempt_def Let_def e using matched_facts [OF x]
    by (simp add: matched_event_def py_get_or_def optional_payload_text_def as_int_def)
  with found show ?thesis unfolding attempt_recorded_def by blast
qed

lemma strip_Cons: "\<not> unicode_space c \<Longrightarrow> \<exists>s'. strip (c # s) = c # s'"
  by (simp add: strip_def dropWhile_append3)

lemma strip_not_attempt:
  "\<not> unicode_space c \<Longrightarrow> c \<noteq> CHR ''r'' \<Longrightarrow> attempt_key rid \<noteq> strip (c # s)"
  using strip_Cons [of c s] by (auto simp: attempt_key_def)

lemma spares_evidence:
  "spares (i, attempt_key rid) (acknowledge_order fr q r t)"
  "spares (i, attempt_key rid) (record_fill fr j r kf)"
  "spares (i, attempt_key rid) (record_event f (order_event digest j r t))"
proof -
  have ack: "(i, attempt_key rid) \<noteq> (j, ''submission_acknowledged:'' @ s)" for j s
    by (simp add: attempt_key_def)
  show "spares (i, attempt_key rid) (acknowledge_order fr q r t)"
    unfolding acknowledge_order_def by (intro appends_rules spares_record_ack ack)
  have fill: "(i, attempt_key rid) \<noteq> (ga_intent_id (fill_event j r f u), strip (ga_dedupe_key (fill_event j r f u)))"
    for f u
    unfolding fill_event_def by (simp add: strip_not_attempt unicode_space_def)
  show "spares (i, attempt_key rid) (record_fill fr j r kf)"
    unfolding record_fill_def by (intro appends_rules spares_record_event fill)
  show "spares (i, attempt_key rid) (record_event f (order_event digest j r t))"
    by (rule spares_record_event) (simp add: order_event_def strip_not_attempt unicode_space_def)
qed

lemma commit_matched_attempt:
  assumes ok: "ledger_ok lg" "event_by_dedupe (ir_id q, attempt_key rid) lg = None"
    and rid: "strip rid = rid" "rid \<noteq> []"
    and commit: "commit_matched digest fr q rid obs r fills t c lg = (Inr res, lg')"
  shows "attempt_recorded (ir_id q) rid res lg'"
proof -
  let ?n = "length fills" and ?free = "\<lambda>lg. ledger_ok lg \<and> event_by_dedupe (ir_id q, attempt_key rid) lg = None"
  have "matched_evidence digest fr q rid obs r fills t c lg = (Inr res, lg')"
    using commit unfolding commit_matched_def transaction_def
    by (cases "matched_evidence digest fr q rid obs r fills t c lg") (auto simp: res_simps split: sum.splits)
  then obtain u lg2 v lg3 w lg4 e
    where run: "acknowledge_order fr q r c lg = (Inr u, lg2)"
      "eachA (record_fill fr (ir_id q) r) (enumerate 1 fills) lg2 = (Inr v, lg3)"
      "record_event (fr (?n + 1)) (order_event digest (ir_id q) r t) lg3 = (Inr w, lg4)"
      and attempt: "record_event (fr (?n + 2)) (matched_event (ir_id q) rid obs r ?n) lg4 = (Inr e, lg')"
      and res: "res = reconciled Matched (Some (ord_order_id r)) (Some (order_status_text (ord_status r))) (int ?n)"
    unfolding matched_evidence_def Let_def bindA_eq_Inr liftE_eq_Inr by blast
  have free: "?free lg2" using advancesD [OF spares_evidence(1) _ run(1)] ok by blast
  have "spares (ir_id q, attempt_key rid) (eachA (record_fill fr (ir_id q) r) (enumerate 1 fills))"
    by (intro appends_rules spares_evidence(2))
  from advancesD [OF this free run(2)] have "?free lg3" by simp
  then have "?free lg4" using advancesD [OF spares_evidence(3) _ run(3)] by blast
  then show ?thesis unfolding res using matched_attempt [OF attempt _ rid] by blast
qed

lemma commit_inconclusive_attempt:
  assumes "event_by_dedupe (i, attempt_key rid) lg = None" "strip rid = rid" "rid \<noteq> []"
    and "commit_inconclusive fr i rid obs lg = (Inr res, lg')"
  shows "attempt_recorded i rid res lg'"
  using assms(4)
  by (auto simp: commit_inconclusive_def res_simps split: option.splits
      intro: inconclusive_attempt [OF _ assms(1-3)])

section \<open>Properties of a reconciliation\<close>

text \<open>
  C15: a reconciliation comes back. If the provider only ever names cursors out of a finite
  set, in whatever order, repeated or not and differently on every call, both paginated reads
  end, so the call returns a result or raises.
\<close>

theorem reconciliation_returns:
  assumes "finite C" "\<And>ticker. cursors_within (get_orders ticker) C"
    and "\<And>order_id. cursors_within (get_fills order_id) C"
  shows "\<exists>out. reconcile_intent digest get_orders get_fills fr i raw_id raw_at lg0 lg1 = Some out"
proof -
  have "find_current_orders get_orders v \<noteq> None" "get_current_fills get_fills r \<noteq> None" for v r
    using read_pages_returns [OF assms(1,2)] read_pages_returns [OF assms(1,3)]
    by (fastforce simp: find_current_orders_def get_current_fills_def)+
  then show ?thesis using reconcile_waits by blast
qed

text \<open>
  C13: a reconciliation is atomic and only adds evidence. Whatever the provider answers, the
  ledger stays consistent and keeps all its rows; a call that raises leaves it untouched; and
  no result ever allows the order to be sent again.
\<close>

theorem reconciliation_is_atomic:
  assumes "ledger_ok lg1"
    and "reconcile_intent digest get_orders get_fills fr i raw_id raw_at lg0 lg1 = Some (res, lg')"
  shows "ledger_ok lg' \<and> ledger_extends lg1 lg' \<and> (\<forall>e. res = Inl e \<longrightarrow> lg' = lg1)"
  using assms(2)
proof (cases rule: reconcile_cases)
  case unchanged
  then show ?thesis using assms(1) by simp
next
  case (inconclusive q obs)
  then show ?thesis using commit_inconclusive_ok [OF assms(1)] by blast
next
  case (matched q obs r fills t c)
  then show ?thesis using commit_matched_ok [OF assms(1)] by blast
qed

text \<open>
  C14: a reconciliation that returned may be repeated. Under the same reconciliation id, at any
  later time, whatever else was recorded in between and whatever the provider would answer
  now, the call returns the recorded result and changes nothing.
\<close>

theorem reconciliation_is_idempotent:
  assumes "ledger_ok lg1" "ledger_extends lg0 lg1"
    and "event_by_dedupe (i, attempt_key (strip raw_id)) lg1 = None"
    and "reconcile_intent digest get_orders get_fills fr i raw_id raw_at lg0 lg1 = Some (Inr res, lg2)"
    and "lg3 = fold ledger_step ops lg2"
  shows "reconcile_intent digest' get_orders' get_fills' fr' i raw_id (Aware t) lg3 lg4 = Some (Inr res, lg4)"
proof -
  have free: "event_by_dedupe (i, attempt_key (strip raw_id)) lg0 = None"
    using selects_extend(3) [OF assms(2)] assms(3) by (cases "event_by_dedupe (i, attempt_key (strip raw_id)) lg0") auto
  have id: "strip (strip raw_id) = strip raw_id" by simp
  obtain q where q: "intent_by_id i lg0 = Some q" "strip raw_id \<noteq> []" "vi_venue (ir_intent q) = Kalshi"
    and rec: "attempt_recorded i (strip raw_id) res lg2"
    and lg2: "ledger_ok lg2 \<and> ledger_extends lg1 lg2"
    using assms(4)
  proof (cases rule: reconcile_cases)
    case unchanged
    then show ?thesis using free by simp
  next
    case (inconclusive q obs)
    have "ir_id q = i" using intent_by_id_Some [OF inconclusive(1)] by simp
    then show ?thesis
      using that [OF inconclusive(1-3)] inconclusive commit_inconclusive_attempt [OF _ id] assms(3)
        commit_inconclusive_ok [OF assms(1)] by blast
  next
    case (matched q obs r fills t c)
    have "ir_id q = i" using intent_by_id_Some [OF matched(1)] by simp
    with assms(3) have "event_by_dedupe (ir_id q, attempt_key (strip raw_id)) lg1 = None" by simp
    from commit_matched_attempt [OF assms(1) this id matched(2,7)] \<open>ir_id q = i\<close>
    show ?thesis using that [OF matched(1-3)] commit_matched_ok [OF assms(1) matched(7)] by blast
  qed
  have grown: "ledger_extends lg2 lg3"
    unfolding assms(5) using lg2 ledger.run_le by blast
  then have "ledger_extends lg0 lg3"
    using assms(2) lg2 ledger.le_trans by blast
  then have "intent_by_id i lg3 = Some q" using q(1) selects_extend(2) by blast
  moreover obtain e where "event_by_dedupe (i, attempt_key (strip raw_id)) lg3 = Some e" "result_from_attempt e = Inr res"
    using rec grown selects_extend(3) unfolding attempt_recorded_def by blast
  ultimately show ?thesis
    using q(2,3) by (simp add: reconcile_intent_def aware_instant_def)
qed

lemma current_orders_read:
  assumes "find_current_orders get_orders v = Some (Inr found)"
  obtains pages matches where "page_chain (get_orders (vi_instrument_id v)) 0 None pages"
    "orders_found (vi_client_order_id v) (concat pages) matches" "found = map snd matches"
proof -
  from assms obtain matches
    where m: "read_pages (get_orders (vi_instrument_id v)) (collect_order (vi_client_order_id v))
      (ReconciliationConflictError ''Kalshi orders pagination cursor repeated'') [] = Some (Inr matches)"
    and found: "found = map snd matches"
    by (auto simp: find_current_orders_def res_simps)
  from current_orders.read_kept [OF m] found that show thesis by auto
qed

lemma current_fills_read:
  assumes "order_ok r" "get_current_fills get_fills r = Some (Inr fills)"
    and "\<And>order_id n c page next. get_fills order_id n c = Inr (page, next) \<Longrightarrow> \<forall>f \<in> set page. fill_ok f"
  obtains pages table observed where "page_chain (get_fills (ord_order_id r)) 0 None pages"
    "fills_found r (concat pages) (table, observed)" "fills = map snd table"
proof -
  from assms(2) obtain table observed
    where m: "read_pages (get_fills (ord_order_id r)) (collect_fill r)
      (ReconciliationConflictError ''Kalshi fills pagination cursor repeated'') ([], dzero) = Some (Inr (table, observed))"
    and fills: "fills = map snd table"
    by (auto simp: get_current_fills_def res_simps)
  have "\<exists>pages. page_chain (get_fills (ord_order_id r)) 0 None pages
      \<and> (order_ok r \<longrightarrow> fills_found r (concat pages) (table, observed))"
    by (rule current_fills.read_kept [OF m]) (rule assms(3))
  with assms(1) fills that show thesis by blast
qed

lemma found_covers:
  assumes "orders_found c xs matches" "r \<in> set xs" "ord_client_order_id r = c"
  shows "\<exists>s \<in> set (map snd matches). order_eq s r"
proof -
  obtain s where s: "(ord_order_id r, s) \<in> set matches" "order_eq s r"
    using assms unfolding orders_found_def by blast
  from imageI [OF s(1), of snd] have "s \<in> set (map snd matches)" by simp
  with s(2) show ?thesis by (rule bexI)
qed

lemma fills_cover:
  assumes "fills_found r xs (table, observed)" "f \<in> set xs"
  shows "\<exists>g \<in> set (map snd table). fill_eq g f"
proof -
  obtain g where g: "(fil_fill_id f, g) \<in> set table" "fill_eq g f"
    using assms unfolding fills_found_def prod.case by blast
  from imageI [OF g(1), of snd] have "g \<in> set (map snd table)" by simp
  with g(2) show ?thesis by (rule bexI)
qed

lemma found_keys:
  "orders_found c xs matches \<Longrightarrow> map ord_order_id (map snd matches) = map fst matches"
  "fills_found r ys (table, observed) \<Longrightarrow> map fil_fill_id (map snd table) = map fst table"
  by (auto simp: orders_found_def fills_found_def)

text \<open>
  The search for the order is exact. The orders it returns are orders of the pages the
  provider chained, with the intent's client order id and pairwise different order ids; and
  every order with that client order id on any of those pages is among them, up to the form
  of its decimals. So one result means the client order id is not shared on those pages.
\<close>

theorem current_order_search_is_exact:
  assumes "find_current_orders get_orders v = Some (Inr found)"
  shows "\<exists>pages. page_chain (get_orders (vi_instrument_id v)) 0 None pages
    \<and> distinct (map ord_order_id found)
    \<and> set found \<subseteq> {r \<in> set (concat pages). ord_client_order_id r = vi_client_order_id v}
    \<and> (\<forall>r \<in> set (concat pages). ord_client_order_id r = vi_client_order_id v \<longrightarrow> (\<exists>s \<in> set found. order_eq s r))"
  using assms
proof (rule current_orders_read)
  fix pages matches
  assume p: "page_chain (get_orders (vi_instrument_id v)) 0 None pages"
    and kept: "orders_found (vi_client_order_id v) (concat pages) matches" and found: "found = map snd matches"
  have "\<exists>s \<in> set found. order_eq s r"
    if "r \<in> set (concat pages)" "ord_client_order_id r = vi_client_order_id v" for r
    unfolding found by (rule found_covers [OF kept that])
  moreover have "set found \<subseteq> {r \<in> set (concat pages). ord_client_order_id r = vi_client_order_id v}"
    using kept unfolding found orders_found_def by fastforce
  moreover have "distinct (map ord_order_id found)"
    unfolding found found_keys(1) [OF kept] using kept by (simp add: orders_found_def)
  ultimately show ?thesis using p by blast
qed

text \<open>
  C16: the fills of an order never exceed it. If the provider's pages hold parsed fills, the
  fills returned have pairwise different ids, all belong to the order (its id, ticker, side
  and subaccount), cover every fill of the chained pages, and their counts add up, exactly,
  to at most the order's initial count: the 39 digits of the local context never round.
\<close>

theorem observed_fills_within_order:
  assumes "order_ok r" "get_current_fills get_fills r = Some (Inr fills)"
    and "\<And>order_id n c page next. get_fills order_id n c = Inr (page, next) \<Longrightarrow> \<forall>f \<in> set page. fill_ok f"
  shows "\<exists>pages. page_chain (get_fills (ord_order_id r)) 0 None pages
    \<and> distinct (map fil_fill_id fills) \<and> set fills \<subseteq> {f \<in> set (concat pages). fill_belongs r f}
    \<and> (\<forall>f \<in> set (concat pages). \<exists>g \<in> set fills. fill_eq g f)
    \<and> total_count fills \<le> dval (ord_initial_count r)"
  using assms
proof (rule current_fills_read)
  fix pages table observed
  assume p: "page_chain (get_fills (ord_order_id r)) 0 None pages"
    and kept: "fills_found r (concat pages) (table, observed)" and fills: "fills = map snd table"
  have "set fills \<subseteq> {f \<in> set (concat pages). fill_belongs r f}"
    using kept unfolding fills fills_found_def by auto
  moreover have "\<exists>g \<in> set fills. fill_eq g f" if "f \<in> set (concat pages)" for f
    unfolding fills by (rule fills_cover [OF kept that])
  moreover have "distinct (map fil_fill_id fills)"
    unfolding fills found_keys(2) [OF kept] using kept by (simp add: fills_found_def)
  moreover have "total_count fills \<le> dval (ord_initial_count r)"
    using kept by (simp add: fills_found_def fills)
  ultimately show ?thesis using p by blast
qed

lemma validate_order_Inr:
  "validate_order v r = Inr u \<longleftrightarrow>
     ord_ticker r = vi_instrument_id v \<and> ord_book_side r = vi_book_side v \<and> ord_order_type r = Limit
     \<and> dval (ord_initial_count r) = dval (vi_quantity v) \<and> dval (effective_price r) = dval (vi_limit_price v)"
  by (auto simp: validate_order_def)

lemma current_order_parsed:
  assumes "find_current_orders get_orders v = Some (Inr [r])"
    and "\<And>ticker n c page next. get_orders ticker n c = Inr (page, next) \<Longrightarrow> \<forall>r \<in> set page. order_ok r"
  shows "order_ok r"
  using assms(1)
proof (rule current_orders_read)
  fix pages matches
  assume p: "page_chain (get_orders (vi_instrument_id v)) 0 None pages"
    and "orders_found (vi_client_order_id v) (concat pages) matches" "[r] = map snd matches"
  then have "r \<in> set (concat pages)" by (auto simp: orders_found_def Cons_eq_map_conv)
  then show ?thesis using page_chain_fetched [OF p] assms(2) by fastforce
qed

lemma current_fills_parsed:
  assumes "order_ok r" "get_current_fills get_fills r = Some (Inr fills)"
    and "\<And>order_id n c page next. get_fills order_id n c = Inr (page, next) \<Longrightarrow> \<forall>f \<in> set page. fill_ok f"
  shows "\<forall>f \<in> set fills. fill_ok f"
  using assms
proof (rule current_fills_read)
  fix pages table observed
  assume p: "page_chain (get_fills (ord_order_id r)) 0 None pages"
    and "fills_found r (concat pages) (table, observed)" "fills = map snd table"
  then have "set fills \<subseteq> set (concat pages)" by (auto simp: fills_found_def)
  then show ?thesis using page_chain_fetched [OF p] assms(3) by fastforce
qed

lemma commit_matched_run:
  "commit_matched digest fr q rid obs r fills t c lg = (Inr res, lg') \<Longrightarrow>
     matched_evidence digest fr q rid obs r fills t c lg = (Inr res, lg')"
  unfolding commit_matched_def transaction_def
  by (cases "matched_evidence digest fr q rid obs r fills t c lg") (auto simp: res_simps split: sum.splits)

lemma acknowledge_order_binds:
  assumes "ledger_ok lg" "acknowledge_order fr q r t lg = (Inr u, lg')" "text_ok (ord_order_id r)"
  shows "\<exists>a. ack_by_intent (ir_id q) lg' = Some a \<and> ar_provider_order_id a = ord_order_id r"
proof (cases "ack_by_intent (ir_id q) lg")
  case (Some a)
  then show ?thesis using assms(2) by (auto simp: acknowledge_order_def res_simps split: if_splits)
next
  case None
  with assms(2) obtain b row where b: "make_initial_ack (initial_ack_args (vi_client_order_id (ir_intent q)) r t) = Inr b"
    and row: "record_initial_acknowledgement (fr 0) (ir_id q, b) lg = (Inr row, lg')"
    by (auto simp: acknowledge_order_def res_simps)
  have "va_provider_order_id b = ord_order_id r"
    using b strip_stripped_eq assms(3) by (auto simp: make_initial_ack_def Let_def initial_ack_args_def text_ok_def res_simps)
  moreover have "ack_by_intent (ir_id q) lg' = Some row \<and> ack_matches row (ir_id q, b)"
    using row
  proof (cases rule: record_ack_cases)
    case (new q' e)
    then show ?thesis
      by (auto simp: insert_event_Inr ack_by_intent_def find_append split: option.splits)
  qed simp
  ultimately show ?thesis by (simp add: ack_matches_def)
qed

lemma text_ok_kept: "text_ok s \<Longrightarrow> blank_to_none (Some s) = Some s"
  by (simp add: text_ok_def blank_to_none_def strip_stripped_eq)

lemma matched_evidence_records:
  assumes ok: "ledger_ok lg" and r: "text_ok (ord_order_id r)" and fs: "\<forall>f \<in> set fills. text_ok (fil_fill_id f)"
    and run: "matched_evidence digest fr q rid obs r fills t c lg = (Inr res, lg')"
  shows "\<exists>a. ack_by_intent (ir_id q) lg' = Some a \<and> ar_provider_order_id a = ord_order_id r"
    and "\<forall>f \<in> set fills. \<exists>e \<in> set (events_of (ir_id q) lg'). ev_event_type e = ''fill_observed''
      \<and> ev_provider_event_id e = Some (fil_fill_id f) \<and> ev_provider_order_id e = Some (ord_order_id r)"
    and "res = reconciled Matched (Some (ord_order_id r)) (Some (order_status_text (ord_status r))) (int (length fills))"
proof -
  let ?n = "length fills"
  from run obtain u lg2 v lg3 w lg4 e
    where run: "acknowledge_order fr q r c lg = (Inr u, lg2)"
      "eachA (record_fill fr (ir_id q) r) (enumerate 1 fills) lg2 = (Inr v, lg3)"
      "record_event (fr (?n + 1)) (order_event digest (ir_id q) r t) lg3 = (Inr w, lg4)"
      "record_event (fr (?n + 2)) (matched_event (ir_id q) rid obs r ?n) lg4 = (Inr e, lg')"
      and res: "res = reconciled Matched (Some (ord_order_id r)) (Some (order_status_text (ord_status r))) (int ?n)"
    unfolding matched_evidence_def Let_def bindA_eq_Inr liftE_eq_Inr by blast
  show "res = reconciled Matched (Some (ord_order_id r)) (Some (order_status_text (ord_status r))) (int ?n)"
    by (rule res)
  have lg2: "ledger_ok lg2" using advancesD [OF appends_commits(1) ok run(1)] by simp
  have "appends (eachA (record_fill fr (ir_id q) r) (enumerate 1 fills))"
    by (intro appends_rules appends_commits(2))
  from advancesD [OF this lg2 run(2)] have "ledger_extends lg2 lg3" by simp
  moreover have rest: "ledger_extends lg3 lg'"
    using run(3,4) record_extends(2) ledger.le_trans by blast
  ultimately have "ledger_extends lg2 lg'" by (rule ledger.le_trans)
  then show "\<exists>a. ack_by_intent (ir_id q) lg' = Some a \<and> ar_provider_order_id a = ord_order_id r"
    using acknowledge_order_binds [OF ok run(1) r] selects_extend(4) by blast
  show "\<forall>f \<in> set fills. \<exists>e \<in> set (events_of (ir_id q) lg'). ev_event_type e = ''fill_observed''
      \<and> ev_provider_event_id e = Some (fil_fill_id f) \<and> ev_provider_order_id e = Some (ord_order_id r)"
  proof
    fix f assume f: "f \<in> set fills"
    then obtain k where "(k, f) \<in> set (enumerate 1 fills)"
      by (metis in_set_conv_nth in_set_enumerate_eq diff_add_inverse fst_conv le_add1 length_enumerate
          nth_enumerate_eq nth_mem)
    from eachA_each [OF run(2) lg2 this extends_reflp extends_transp appends_commits(2)]
    obtain a x b where "record_fill fr (ir_id q) r (k, f) a = (Inr x, b)" and b: "ledger_extends b lg3" by blast
    then obtain t' where "record_event (fr k) (fill_event (ir_id q) r f t') a = (Inr x, b)"
      by (auto simp: record_fill_def res_simps)
    from record_event_row [OF this] have "x \<in> set (events_of (ir_id q) b)" "ev_event_type x = ''fill_observed''"
      "ev_provider_event_id x = Some (fil_fill_id f)" "ev_provider_order_id x = Some (ord_order_id r)"
      using f fs r by (simp_all add: fill_event_def text_ok_kept)
    moreover have "set (events_of (ir_id q) b) \<subseteq> set (events_of (ir_id q) lg')"
      using events_of_extends ledger.le_trans [OF b rest] by blast
    ultimately show "\<exists>e \<in> set (events_of (ir_id q) lg'). ev_event_type e = ''fill_observed''
      \<and> ev_provider_event_id e = Some (fil_fill_id f) \<and> ev_provider_order_id e = Some (ord_order_id r)"
      by blast
  qed
qed

text \<open>
  C12: a match is backed by evidence. When the provider's pages hold parsed orders and fills
  and a new reconciliation matches, the order it names agrees with the recorded intent in
  ticker, side, quantity and price; the intent's acknowledgement is bound to that order; and
  every fill counted is an event of the intent under the provider's own ids.
\<close>

theorem match_is_backed_by_evidence:
  assumes lg1: "ledger_ok lg1" "ledger_extends lg0 lg1"
    and new: "event_by_dedupe (i, attempt_key (strip raw_id)) lg0 = None"
    and run: "reconcile_intent digest get_orders get_fills fr i raw_id raw_at lg0 lg1 = Some (Inr res, lg')"
    and matched: "rr_outcome res = Matched"
    and orders: "\<And>ticker n c page next. get_orders ticker n c = Inr (page, next) \<Longrightarrow> \<forall>r \<in> set page. order_ok r"
    and fills: "\<And>order_id n c page next. get_fills order_id n c = Inr (page, next) \<Longrightarrow> \<forall>f \<in> set page. fill_ok f"
  shows "\<exists>q r fills a. intent_by_id i lg' = Some q \<and> ack_by_intent i lg' = Some a
    \<and> find_current_orders get_orders (ir_intent q) = Some (Inr [r])
    \<and> get_current_fills get_fills r = Some (Inr fills)
    \<and> ord_ticker r = vi_instrument_id (ir_intent q) \<and> ord_book_side r = vi_book_side (ir_intent q)
    \<and> dval (ord_initial_count r) = dval (vi_quantity (ir_intent q))
    \<and> dval (effective_price r) = dval (vi_limit_price (ir_intent q))
    \<and> ar_provider_order_id a = ord_order_id r \<and> rr_provider_order_id res = Some (ord_order_id r)
    \<and> rr_observed_fill_count res = int (length fills)
    \<and> (\<forall>f \<in> set fills. \<exists>e \<in> set (events_of i lg'). ev_event_type e = ''fill_observed''
        \<and> ev_provider_event_id e = Some (fil_fill_id f) \<and> ev_provider_order_id e = Some (ord_order_id r))"
  using run
proof (cases rule: reconcile_cases)
  case unchanged
  then show ?thesis using new by simp
next
  case (inconclusive q obs)
  then show ?thesis using matched by (auto simp: commit_inconclusive_def res_simps reconciled_def split: option.splits)
next
  case (matched q obs r fs t c)
  have id: "ir_id q = i" using intent_by_id_Some [OF matched(1)] by simp
  have "ledger_extends lg0 lg'"
    using commit_matched_ok [OF lg1(1) matched(7)] lg1(2) ledger.le_trans by blast
  then have q: "intent_by_id i lg' = Some q" using matched(1) selects_extend(2) by blast
  have r: "order_ok r" by (rule current_order_parsed [OF matched(4)]) (rule orders)
  have "\<forall>f \<in> set fs. fill_ok f" by (rule current_fills_parsed [OF r matched(6)]) (rule fills)
  then have fs: "\<forall>f \<in> set fs. text_ok (fil_fill_id f)" by (auto simp: fill_ok_def)
  have "text_ok (ord_order_id r)" using r by (simp add: order_ok_def)
  note evidence = matched_evidence_records [OF lg1(1) this fs commit_matched_run [OF matched(7)], unfolded id]
  from evidence(1) obtain a where "ack_by_intent i lg' = Some a" "ar_provider_order_id a = ord_order_id r" by blast
  moreover have "rr_provider_order_id res = Some (ord_order_id r)" "rr_observed_fill_count res = int (length fs)"
    by (simp_all add: evidence(3) reconciled_def)
  ultimately show ?thesis
    using q matched(4,6) evidence(2) matched(5) [unfolded validate_order_Inr] by blast
qed

text \<open>
  C17: the price check reads an ask on the wrong side. The venue quotes both sides from YES, and
  the request of an ask carries the limit price as \<open>price\<close>; an ask resting at exactly the
  intent's limit price is nevertheless rejected, unless that price is one half, because the
  check compares the limit with the complementary NO price.
\<close>

theorem resting_ask_at_limit_is_rejected:
  assumes "order_ok r" "ord_book_side r = Ask" "dval (ord_yes_price r) = dval (vi_limit_price v)"
    and "dval (vi_limit_price v) \<noteq> 1 / 2"
  shows "\<exists>m. validate_order v r = Inl (ReconciliationConflictError m)"
proof -
  have "dval (effective_price r) \<noteq> dval (vi_limit_price v)"
    using assms by (auto simp: effective_price_def order_ok_def prices_complementary_def)
  then show ?thesis by (auto simp: validate_order_def)
qed

section \<open>Concrete instances\<close>

definition sample_kalshi_order :: kalshi_order where
  "sample_kalshi_order = \<lparr>ord_order_id = ''o'', ord_user_id = ''u'', ord_client_order_id = ''c'',
     ord_ticker = ''KX'', ord_outcome_side = Yes, ord_book_side = Bid, ord_order_type = Limit,
     ord_status = Resting, ord_yes_price = Dec False 4 (-1), ord_no_price = Dec False 6 (-1),
     ord_fill_count = Dec False 2 0, ord_remaining_count = Dec False 3 0, ord_initial_count = Dec False 5 0,
     ord_taker_fees = dzero, ord_maker_fees = dzero, ord_taker_fill_cost = dzero, ord_maker_fill_cost = dzero,
     ord_created_time = Some ''1970-01-01T00:00:00.000005Z'', ord_last_update_time = None,
     ord_expiration_time = None, ord_subaccount_number = None, ord_exchange_index = None\<rparr>"

definition sample_kalshi_fill :: kalshi_fill where
  "sample_kalshi_fill = \<lparr>fil_fill_id = ''f'', fil_trade_id = ''f'', fil_order_id = ''o'', fil_ticker = ''KX'',
     fil_market_ticker = ''KX'', fil_outcome_side = Yes, fil_book_side = Bid, fil_count = Dec False 2 0,
     fil_yes_price = Dec False 4 (-1), fil_no_price = Dec False 6 (-1), fil_is_taker = True,
     fil_fee_cost = dzero, fil_created_time = None, fil_subaccount_number = None, fil_ts = Some 7\<rparr>"

lemma sample_provider_ok: "order_ok sample_kalshi_order" "fill_ok sample_kalshi_fill"
  by (simp_all add: order_ok_def fill_ok_def sample_kalshi_order_def sample_kalshi_fill_def
      sides_consistent_def prices_complementary_def in_unit_def amount_ok_def on_grid_def text_ok_def
      stripped_def subaccount_in_range_def exchange_index_in_range_def unicode_space_def
      count_quantum_def dollar_quantum_def default_prec_def dzero_def dval_Dec)

definition no_page :: "nat \<Rightarrow> string option \<Rightarrow> 'i page res" where
  "no_page n c = Inr ([], [])"

definition one_item :: "'i \<Rightarrow> string \<Rightarrow> nat \<Rightarrow> string option \<Rightarrow> 'i page res" where
  "one_item x key n c = Inr ([x], [])"

definition sample_fresh :: fresh where
  "sample_fresh n = (replicate (Suc n) CHR ''r'', 9)"

lemma read_one_page:
  "read_pages (\<lambda>n c. Inr (items, [])) take_item e acc = Some (foldE take_item acc items)"
  by (cases "foldE take_item acc items") (simp_all add: read_pages_def walk_pages.simps [of "\<lambda>n c. Inr (items, [])"])

lemma sample_searches:
  "find_current_orders (\<lambda>_. no_page) v = Some (Inr [])"
  "find_current_orders (one_item sample_kalshi_order) sample_order_intent = Some (Inr [sample_kalshi_order])"
  "get_current_fills (one_item sample_kalshi_fill) sample_kalshi_order = Some (Inr [sample_kalshi_fill])"
proof -
  have "dval (dec_add 39 dzero (Dec False 2 0)) = 2"
    by (simp add: dec_add_def dec_add_exact_def dunits_def dnum_def dec_fix_exact ndigits.simps dval_Dec dzero_def)
  then show "get_current_fills (one_item sample_kalshi_fill) sample_kalshi_order = Some (Inr [sample_kalshi_fill])"
    by (simp add: get_current_fills_def one_item_def [abs_def] read_one_page collect_fill_def
        sample_kalshi_fill_def sample_kalshi_order_def other_subaccount_def Let_def dval_Dec)
  show "find_current_orders (\<lambda>_. no_page) v = Some (Inr [])"
    by (simp add: find_current_orders_def no_page_def [abs_def] read_one_page)
  show "find_current_orders (one_item sample_kalshi_order) sample_order_intent = Some (Inr [sample_kalshi_order])"
    by (simp add: find_current_orders_def one_item_def [abs_def] read_one_page collect_order_def
        sample_kalshi_order_def sample_order_intent_def)
qed

lemma reconciliation_returns_witness:
  "\<exists>out. reconcile_intent (\<lambda>s. s) (\<lambda>_. no_page) (\<lambda>_. no_page) sample_fresh ''i'' ''a'' (Aware 3)
     one_intent one_intent = Some out"
  by (rule reconciliation_returns [where C = "{}"]) (simp_all add: cursors_within_def no_page_def)

lemma sample_inconclusive:
  "\<exists>lg. reconcile_intent (\<lambda>s. s) (\<lambda>_. no_page) (\<lambda>_. no_page) sample_fresh ''i'' ''a'' (Aware 3)
     one_intent one_intent = Some (Inr (reconciled Inconclusive None None 0), lg)"
proof -
  have row: "vi_venue (ir_intent sample_row) = Kalshi" "ir_id sample_row = ''i''"
    by (simp_all add: sample_row_def sample_order_intent_def)
  have strip: "strip ''a'' = ''a''" "strip (attempt_key ''a'') = attempt_key ''a''" by code_simp+
  have free: "event_by_dedupe (''i'', attempt_key ''a'') one_intent = None"
    by (simp add: event_by_dedupe_def one_intent_selects intent_recorded_event_def attempt_key_def)
  have none: "ack_by_intent ''i'' one_intent = None" by (simp add: ack_by_intent_def one_intent_selects)
  have "\<exists>e lg. record_event (sample_fresh 0) (inconclusive_event ''i'' ''a'' 3 None) one_intent = (Inr e, lg)"
    using free strip attempt_key_def [of "''a''"]
    by (simp add: record_event_def inconclusive_event_def event_facts_def Let_def aware_instant_def json_payload_def
        py_opt_def blank_to_none_def one_intent_selects provider_order_known_def insert_event_def
        intent_recorded_event_def sample_fresh_def)
  then show ?thesis
    using row strip free none
    by (auto simp: reconcile_intent_def aware_instant_def one_intent_selects sample_searches commit_inconclusive_def
        transaction_def bindA_def readA_def liftE_def)
qed

lemma reconciliation_is_atomic_witness:
  "\<exists>res lg. reconcile_intent (\<lambda>s. s) (\<lambda>_. no_page) (\<lambda>_. no_page) sample_fresh ''i'' ''a'' (Aware 3)
     one_intent one_intent = Some (Inr res, lg) \<and> ledger_ok lg \<and> ledger_extends one_intent lg"
  using sample_inconclusive reconciliation_is_atomic [OF one_intent_ok] by blast

lemma reconciliation_is_idempotent_witness:
  "\<exists>res lg. reconcile_intent (\<lambda>s. s) (\<lambda>_. no_page) (\<lambda>_. no_page) sample_fresh ''i'' ''a'' (Aware 3)
       one_intent one_intent = Some (Inr res, lg)
     \<and> reconcile_intent (\<lambda>s. s) (\<lambda>_. one_item sample_kalshi_order ''o'') (\<lambda>_. no_page) sample_fresh ''i'' ''a''
         (Aware 8) lg lg = Some (Inr res, lg)"
proof -
  obtain lg where run: "reconcile_intent (\<lambda>s. s) (\<lambda>_. no_page) (\<lambda>_. no_page) sample_fresh ''i'' ''a'' (Aware 3)
     one_intent one_intent = Some (Inr (reconciled Inconclusive None None 0), lg)"
    using sample_inconclusive by blast
  have "strip ''a'' = ''a''" by code_simp
  then have "event_by_dedupe (''i'', attempt_key (strip ''a'')) one_intent = None"
    by (simp add: event_by_dedupe_def one_intent_selects intent_recorded_event_def attempt_key_def)
  from reconciliation_is_idempotent [OF one_intent_ok ledger_extends_refl this run, of lg "[]"] run
  show ?thesis by auto
qed

lemma current_order_search_is_exact_witness:
  "\<exists>pages. page_chain (one_item sample_kalshi_order (vi_instrument_id sample_order_intent)) 0 None pages
    \<and> distinct (map ord_order_id [sample_kalshi_order])"
  using current_order_search_is_exact [OF sample_searches(2)] by blast

lemma one_item_good: "P x \<Longrightarrow> one_item x key n c = Inr (page, cur) \<Longrightarrow> \<forall>y \<in> set page. P y"
  by (auto simp: one_item_def)

lemma observed_fills_within_order_witness:
  "total_count [sample_kalshi_fill] \<le> dval (ord_initial_count sample_kalshi_order)"
proof -
  have good: "one_item sample_kalshi_fill k n c = Inr (page, cur) \<Longrightarrow> \<forall>f \<in> set page. fill_ok f" for k n c page cur
    by (rule one_item_good [where P = fill_ok and x = sample_kalshi_fill, OF sample_provider_ok(2)])
  show ?thesis
    by (rule exE [OF observed_fills_within_order [OF sample_provider_ok(1) sample_searches(3)]])
      (erule good, elim conjE, assumption)
qed

lemma resting_ask_at_limit_is_rejected_witness:
  "\<exists>m. validate_order (sample_order_intent\<lparr>vi_book_side := Ask\<rparr>)
     (sample_kalshi_order\<lparr>ord_book_side := Ask, ord_outcome_side := No\<rparr>) = Inl (ReconciliationConflictError m)"
proof (rule resting_ask_at_limit_is_rejected)
  show "order_ok (sample_kalshi_order\<lparr>ord_book_side := Ask, ord_outcome_side := No\<rparr>)"
    using sample_provider_ok(1) by (simp add: order_ok_def sides_consistent_def)
qed (simp_all add: sample_kalshi_order_def sample_order_intent_def dval_Dec)

definition sample_evidence_ack :: initial_ack where
  "sample_evidence_ack = projr (make_initial_ack (initial_ack_args ''c'' sample_kalshi_order 5))"

lemma sample_evidence_ack_made:
  "make_initial_ack (initial_ack_args ''c'' sample_kalshi_order 5) = Inr sample_evidence_ack"
  "va_venue sample_evidence_ack = Kalshi" "va_client_order_id sample_evidence_ack = ''c''"
  "va_provider_order_id sample_evidence_ack = ''o''" "va_provider_timestamp sample_evidence_ack = 5"
  "dval (acknowledged_quantity sample_evidence_ack) = 5"
proof -
  have s: "strip ''kalshi'' = ''kalshi''" "strip ''c'' = ''c''" "strip ''o'' = ''o''" "strip ''resting'' = ''resting''"
    by code_simp+
  have "dval (dec_add 39 (Dec False 2 0) (Dec False 3 0)) = 5"
    by (simp add: dec_add_def dec_add_exact_def dunits_def dnum_def dec_fix_exact ndigits.simps dval_Dec)
  then have "\<exists>a. make_initial_ack (initial_ack_args ''c'' sample_kalshi_order 5) = Inr a \<and> va_venue a = Kalshi
      \<and> va_client_order_id a = ''c'' \<and> va_provider_order_id a = ''o'' \<and> va_provider_timestamp a = 5
      \<and> dval (acknowledged_quantity a) = 5"
    using s by (simp add: make_initial_ack_def initial_ack_args_def order_payload_def sample_kalshi_order_def
        opt_or_def venue_of_def numeric_sample aware_instant_def json_payload_def dval_Dec Let_def py_opt_def
        acknowledged_quantity_def)
  then show "make_initial_ack (initial_ack_args ''c'' sample_kalshi_order 5) = Inr sample_evidence_ack"
    "va_venue sample_evidence_ack = Kalshi" "va_client_order_id sample_evidence_ack = ''c''"
    "va_provider_order_id sample_evidence_ack = ''o''" "va_provider_timestamp sample_evidence_ack = 5"
    "dval (acknowledged_quantity sample_evidence_ack) = 5"
    unfolding sample_evidence_ack_def by auto
qed

lemma sample_facts:
  "\<exists>x. event_facts (fill_event ''i'' sample_kalshi_order sample_kalshi_fill 7000000) = Inr x
     \<and> ef_provider_event_id x = Some ''f'' \<and> ef_provider_order_id x = Some ''o''"
  "\<exists>x. event_facts (order_event (\<lambda>_. ''h'') ''i'' sample_kalshi_order 5) = Inr x
     \<and> ef_provider_event_id x = None \<and> ef_provider_order_id x = Some ''o''"
  "\<exists>x. event_facts (matched_event ''i'' ''a'' 3 sample_kalshi_order n) = Inr x
     \<and> ef_provider_event_id x = None \<and> ef_provider_order_id x = Some ''o''"
  "strip (ga_dedupe_key (fill_event ''i'' sample_kalshi_order sample_kalshi_fill 7000000)) = ''fill_observed:o:f''"
  "strip (ga_dedupe_key (order_event (\<lambda>_. ''h'') ''i'' sample_kalshi_order 5)) = ''order_observed:o:h''"
  "strip (ga_dedupe_key (matched_event ''i'' ''a'' 3 sample_kalshi_order n)) = ''reconciliation_attempt:a''"
proof -
  have k: "strip ''fill_observed:o:f'' = ''fill_observed:o:f''" "strip ''order_observed:o:h'' = ''order_observed:o:h''"
    "strip ''reconciliation_attempt:a'' = ''reconciliation_attempt:a''" "strip ''o'' = ''o''" "strip ''f'' = ''f''"
    by code_simp+
  note d = event_facts_def Let_def aware_instant_def json_payload_def blank_to_none_def py_opt_def
    fill_event_def order_event_def matched_event_def evidence_hash_def sample_kalshi_order_def sample_kalshi_fill_def
    fill_payload_def order_payload_def attempt_key_def
  show "\<exists>x. event_facts (fill_event ''i'' sample_kalshi_order sample_kalshi_fill 7000000) = Inr x
     \<and> ef_provider_event_id x = Some ''f'' \<and> ef_provider_order_id x = Some ''o''"
    "\<exists>x. event_facts (order_event (\<lambda>_. ''h'') ''i'' sample_kalshi_order 5) = Inr x
     \<and> ef_provider_event_id x = None \<and> ef_provider_order_id x = Some ''o''"
    "\<exists>x. event_facts (matched_event ''i'' ''a'' 3 sample_kalshi_order n) = Inr x
     \<and> ef_provider_event_id x = None \<and> ef_provider_order_id x = Some ''o''"
    "strip (ga_dedupe_key (fill_event ''i'' sample_kalshi_order sample_kalshi_fill 7000000)) = ''fill_observed:o:f''"
    "strip (ga_dedupe_key (order_event (\<lambda>_. ''h'') ''i'' sample_kalshi_order 5)) = ''order_observed:o:h''"
    "strip (ga_dedupe_key (matched_event ''i'' ''a'' 3 sample_kalshi_order n)) = ''reconciliation_attempt:a''"
    using k by (simp_all add: d)
qed

lemma sample_acknowledged:
  "\<exists>a e. acknowledge_order sample_fresh sample_row sample_kalshi_order 5 one_intent =
      (Inr (), \<lparr>lg_intents = [sample_row], lg_events = [intent_recorded_event ''e1'' sample_row, e], lg_acks = [a]\<rparr>)
    \<and> ar_intent_id a = ''i'' \<and> ar_provider_order_id a = ''o'' \<and> ev_id e = ''r''
    \<and> ev_dedupe_key e = ''submission_acknowledged:o'' \<and> ev_provider_event_id e = None"
proof -
  have row: "ir_id sample_row = ''i''" "ir_intent sample_row = sample_order_intent"
    "vi_client_order_id sample_order_intent = ''c''" "vi_venue sample_order_intent = Kalshi"
    "dval (vi_quantity sample_order_intent) = 5"
    by (simp_all add: sample_row_def sample_order_intent_def dval_Dec)
  have "sample_fresh 0 = (''r'', 9)" by (simp add: sample_fresh_def)
  then show ?thesis
    using row sample_evidence_ack_made
    by (simp add: acknowledge_order_def bindA_def readA_def liftE_def ack_by_intent_def one_intent_eq
        record_initial_acknowledgement_def intent_by_id_def ack_by_provider_def insert_event_def Let_def
        submission_acknowledged_event_def event_by_dedupe_def intent_recorded_event_def)
qed

lemma sample_evidence:
  "\<exists>res lg. matched_evidence (\<lambda>_. ''h'') sample_fresh sample_row ''a'' 3 sample_kalshi_order [sample_kalshi_fill]
      5 5 one_intent = (Inr res, lg) \<and> rr_outcome res = Matched"
proof -
  obtain a e where ack: "acknowledge_order sample_fresh sample_row sample_kalshi_order 5 one_intent =
      (Inr (), \<lparr>lg_intents = [sample_row], lg_events = [intent_recorded_event ''e1'' sample_row, e], lg_acks = [a]\<rparr>)"
    and a: "ar_intent_id a = ''i''" "ar_provider_order_id a = ''o''"
    and e: "ev_id e = ''r''" "ev_dedupe_key e = ''submission_acknowledged:o''" "ev_provider_event_id e = None"
    using sample_acknowledged by blast
  define tables where "tables es = \<lparr>lg_intents = [sample_row],
    lg_events = [intent_recorded_event ''e1'' sample_row, e] @ es, lg_acks = [a]\<rparr>" for es
  have known: "intent_by_id ''i'' (tables es) = Some sample_row" "provider_order_known ''i'' (Some ''o'') (tables es)"
    "lg_events (tables es) = [intent_recorded_event ''e1'' sample_row, e] @ es"
    "(tables es)\<lparr>lg_events := intent_recorded_event ''e1'' sample_row # e # fs\<rparr> = tables fs" for es fs
    by (simp_all add: tables_def intent_by_id_def sample_row_def provider_order_known_def ack_by_intent_def a)
  have ids: "fst (sample_fresh (Suc 0)) = ''rr''" "fst (sample_fresh 2) = ''rrr''" "fst (sample_fresh 3) = ''rrrr''"
    by (simp_all add: sample_fresh_def numeral_eq_Suc)
  have intent: "ga_intent_id (fill_event ''i'' r f t) = ''i''" "ga_intent_id (order_event d ''i'' r t) = ''i''"
    "ga_intent_id (matched_event ''i'' x t r n) = ''i''" for d r f t x n
    by (simp_all add: fill_event_def order_event_def matched_event_def)
  have add: "\<exists>e'. record_event f g (tables es) = (Inr e', tables (es @ [e'])) \<and> ev_id e' = fst f
      \<and> ev_dedupe_key e' = strip (ga_dedupe_key g) \<and> ev_provider_event_id e' = ef_provider_event_id x"
    if "event_facts g = Inr x" "ef_provider_order_id x = Some ''o''" "ga_intent_id g = ''i''"
      "fst f \<notin> {''e1'', ''r''} \<union> ev_id ` set es"
      "strip (ga_dedupe_key g) \<notin> {''intent_recorded:v1'', ''submission_acknowledged:o''} \<union> ev_dedupe_key ` set es"
      "ef_provider_event_id x = None \<or> es = []"
    for f g es x
  proof -
    have "\<exists>e'. record_event f g (tables es) = (Inr e', (tables es)\<lparr>lg_events := lg_events (tables es) @ [e']\<rparr>)
        \<and> ev_id e' = fst f \<and> ev_dedupe_key e' = strip (ga_dedupe_key g)
        \<and> ev_provider_event_id e' = ef_provider_event_id x"
      by (rule record_event_fresh [OF that(1)])
        (use that(2-6) in \<open>auto simp: known e intent_recorded_event_def\<close>)
    then show ?thesis by (simp add: known)
  qed
  obtain x1 where x1: "event_facts (fill_event ''i'' sample_kalshi_order sample_kalshi_fill 7000000) = Inr x1"
    "ef_provider_event_id x1 = Some ''f''" "ef_provider_order_id x1 = Some ''o''" using sample_facts(1) by blast
  from add [OF x1(1,3) intent(1), of "sample_fresh 1" "[]"] obtain e1
    where e1: "record_event (sample_fresh 1) (fill_event ''i'' sample_kalshi_order sample_kalshi_fill 7000000)
      (tables []) = (Inr e1, tables [e1])" "ev_id e1 = ''rr''" "ev_dedupe_key e1 = ''fill_observed:o:f''"
    by (auto simp: ids sample_facts(4))
  obtain x2 where x2: "event_facts (order_event (\<lambda>_. ''h'') ''i'' sample_kalshi_order 5) = Inr x2"
    "ef_provider_event_id x2 = None" "ef_provider_order_id x2 = Some ''o''" using sample_facts(2) by blast
  from add [OF x2(1,3) intent(2), of "sample_fresh 2" "[e1]"] obtain e2
    where e2: "record_event (sample_fresh 2) (order_event (\<lambda>_. ''h'') ''i'' sample_kalshi_order 5)
      (tables [e1]) = (Inr e2, tables [e1, e2])" "ev_id e2 = ''rrr''" "ev_dedupe_key e2 = ''order_observed:o:h''"
    by (auto simp: ids sample_facts(5) e1 x2)
  obtain x3 where x3: "event_facts (matched_event ''i'' ''a'' 3 sample_kalshi_order 1) = Inr x3"
    "ef_provider_event_id x3 = None" "ef_provider_order_id x3 = Some ''o''" using sample_facts(3) by blast
  from add [OF x3(1,3) intent(3), of "sample_fresh 3" "[e1, e2]"] obtain e3
    where e3: "record_event (sample_fresh 3) (matched_event ''i'' ''a'' 3 sample_kalshi_order 1)
      (tables [e1, e2]) = (Inr e3, tables [e1, e2, e3])"
    by (auto simp: ids sample_facts(6) e1 e2 x3)
  have "fill_datetime sample_kalshi_fill = Inr 7000000" "ir_id sample_row = ''i''"
    by (simp_all add: fill_datetime_def sample_kalshi_fill_def fromtimestamp_utc_def sample_row_def)
  then show ?thesis
    using ack e1(1) e2(1) e3
    by (simp add: matched_evidence_def bindA_def liftE_def record_fill_def tables_def reconciled_def numeral_eq_Suc)
qed

lemma sample_match:
  "\<exists>res lg. reconcile_intent (\<lambda>_. ''h'') (one_item sample_kalshi_order) (one_item sample_kalshi_fill) sample_fresh
       ''i'' ''a'' (Aware 3) one_intent one_intent = Some (Inr res, lg) \<and> rr_outcome res = Matched"
proof -
  have row: "vi_venue sample_order_intent = Kalshi" "strip ''a'' = ''a''"
    by (simp add: sample_order_intent_def) code_simp
  have free: "event_by_dedupe (''i'', attempt_key ''a'') one_intent = None"
    by (simp add: event_by_dedupe_def one_intent_selects intent_recorded_event_def attempt_key_def)
  have none: "ack_by_intent ''i'' one_intent = None" by (simp add: ack_by_intent_def one_intent_selects)
  have valid: "validate_order sample_order_intent sample_kalshi_order = Inr ()"
    by (simp add: validate_order_Inr effective_price_def sample_kalshi_order_def sample_order_intent_def)
  have "rfc3339_match ''1970-01-01T00:00:00.000005Z'' = Some \<lparr>f_year = 1970, f_month = 1, f_day = 1, f_hour = 0,
      f_minute = 0, f_second = 0, f_fraction = Some ''000005'', f_offset = 0\<rparr>" by code_simp
  moreover have "digits_val ''000005'' = 5" by code_simp
  then have "fromisoformat_utc \<lparr>f_year = 1970, f_month = 1, f_day = 1, f_hour = 0,
      f_minute = 0, f_second = 0, f_fraction = Some ''000005'', f_offset = 0\<rparr> = Inr 5"
    by (simp add: fromisoformat_utc_def valid_fields_def days_in_month_def local_micros_def ymd_ordinal_def
        days_before_year_def days_before_month_def epoch_ordinal_def fraction_micros_def micros_per_day_def
        min_micros_def max_micros_def Let_def)
  ultimately have times: "provider_datetime (latest_time sample_kalshi_order) x = Inr 5"
    "provider_datetime (ord_created_time sample_kalshi_order) x = Inr 5" for x
    by (simp_all add: latest_time_def sample_kalshi_order_def provider_datetime_def excess_fraction_def res_simps)
  have "\<exists>res lg. commit_matched (\<lambda>_. ''h'') sample_fresh sample_row ''a'' 3 sample_kalshi_order [sample_kalshi_fill]
      5 5 one_intent = (Inr res, lg) \<and> rr_outcome res = Matched"
    using sample_evidence by (auto simp: commit_matched_def transaction_def)
  then show ?thesis
    using row free none valid times
    by (simp add: reconcile_intent_def aware_instant_def one_intent_selects sample_searches)
qed

lemma match_is_backed_by_evidence_witness:
  "\<exists>lg q r a. intent_by_id ''i'' lg = Some q \<and> ack_by_intent ''i'' lg = Some a
     \<and> ar_provider_order_id a = ord_order_id r
     \<and> find_current_orders (one_item sample_kalshi_order) (ir_intent q) = Some (Inr [r])"
proof -
  have "strip ''a'' = ''a''" by code_simp
  then have free: "event_by_dedupe (''i'', attempt_key (strip ''a'')) one_intent = None"
    by (simp add: event_by_dedupe_def one_intent_selects intent_recorded_event_def attempt_key_def)
  obtain res lg where run: "reconcile_intent (\<lambda>_. ''h'') (one_item sample_kalshi_order) (one_item sample_kalshi_fill)
      sample_fresh ''i'' ''a'' (Aware 3) one_intent one_intent = Some (Inr res, lg)" "rr_outcome res = Matched"
    using sample_match by blast
  show ?thesis
  proof (rule exE [OF match_is_backed_by_evidence [OF one_intent_ok ledger_extends_refl free run]], goal_cases)
    case 1
    then show ?case by (rule one_item_good [where P = order_ok, OF sample_provider_ok(1)])
  next
    case 2
    then show ?case by (rule one_item_good [where P = fill_ok, OF sample_provider_ok(2)])
  next
    case (3 q)
    then obtain a r where "intent_by_id ''i'' lg = Some q" "ack_by_intent ''i'' lg = Some a"
      "ar_provider_order_id a = ord_order_id r"
      "find_current_orders (one_item sample_kalshi_order) (ir_intent q) = Some (Inr [r])" by blast
    then show ?thesis by blast
  qed
qed

end
