(* ===== verification/PaperUnits.thy ===== *)
theory PaperUnits
  imports KalshiFields
begin

text \<open>
  The units of \<open>services/kalshi_paper_execution.py\<close>: the strict decimal strings of the market
  data, exact conversion between decimals and integers of a fixed scale, the price ranges of a
  market and their ticks, and the division behind an average price. Every amount of the paper
  engine is an \<open>int\<close> of one of these scales; Python's integers are unbounded, and its limit of
  4300 digits for the conversion of an integer to text is not modelled.
\<close>

definition price_scale :: nat where "price_scale = 6"
definition quantity_scale :: nat where "quantity_scale = 2"
definition money_scale :: nat where "money_scale = 18"

abbreviation paper_error :: "string \<Rightarrow> 'a res" where
  "paper_error m \<equiv> Inl (KalshiPaperProtocolError m)"

section \<open>Decimal strings\<close>

text \<open>\<open>_DECIMAL_PATTERN\<close>, matched against the whole text: \<open>(0|[1-9]\d*)(\.\d+)?\<close>\<close>

definition plain_decimal :: "string \<Rightarrow> bool" where
  "plain_decimal s =
     (let ip = takeWhile is_digit s; r = dropWhile is_digit s in
      ip \<noteq> [] \<and> (hd ip = CHR ''0'' \<longrightarrow> ip = ''0'')
      \<and> (r = [] \<or> hd r = CHR ''.'' \<and> tl r \<noteq> [] \<and> list_all is_digit (tl r)))"

text \<open>\<open>_decimal_string\<close>\<close>

definition read_decimal_string :: "pyval \<Rightarrow> string \<Rightarrow> nat \<Rightarrow> dec res" where
  "read_decimal_string v field max_scale =
     (case v of
        PStr s \<Rightarrow>
          if \<not> plain_decimal s then paper_error (field @ '' must be a decimal string'')
          else bindE (finite_dec (parse_decimal s)
                 (KalshiPaperProtocolError (field @ '' must be a finite decimal string''))) (\<lambda>d.
            if dexp d < - int max_scale
            then paper_error (field @ '' has more than '' @ nat_str max_scale @ '' decimal places'')
            else Inr d)
      | _ \<Rightarrow> paper_error (field @ '' must be a decimal string''))"

definition parse_price :: "pyval \<Rightarrow> string \<Rightarrow> dec res" where
  "parse_price v field =
     bindE (read_decimal_string v field price_scale) (\<lambda>d.
     if dval d \<le> 0 \<or> 1 \<le> dval d
     then paper_error (field @ '' must be greater than 0 and less than 1'') else Inr d)"

definition parse_quantity :: "pyval \<Rightarrow> string \<Rightarrow> dec res" where
  "parse_quantity v field =
     bindE (read_decimal_string v field quantity_scale) (\<lambda>d.
     if dval d \<le> 0 then paper_error (field @ '' must be greater than 0'') else Inr d)"

definition parse_money :: "pyval \<Rightarrow> string \<Rightarrow> dec res" where
  "parse_money v field =
     bindE (read_decimal_string v field price_scale) (\<lambda>d.
     if dval d < 0 then paper_error (field @ '' must be non-negative'') else Inr d)"

section \<open>Integers of a fixed scale\<close>

definition to_scaled_int :: "nat \<Rightarrow> string \<Rightarrow> pydec \<Rightarrow> int res" where
  "to_scaled_int scale field v =
     (case v of
        Fin d \<Rightarrow>
          let shift = dexp d + int scale; signed = (\<lambda>n. if dsign d then - int n else int n) in
          if 0 \<le> shift then Inr (signed (dcoef d * 10 ^ nat shift))
          else if dcoef d mod 10 ^ nat (- shift) \<noteq> 0
          then paper_error (field @ '' has more than '' @ nat_str scale @ '' decimal places'')
          else Inr (signed (dcoef d div 10 ^ nat (- shift)))
      | _ \<Rightarrow> paper_error (field @ '' must be a finite decimal''))"

definition from_scaled_int :: "nat \<Rightarrow> int \<Rightarrow> dec" where
  "from_scaled_int scale n = Dec (n < 0) (nat \<bar>n\<bar>) (- int scale)"

text \<open>\<open>decimal_string(value, scale=\<dots>)\<close>; \<open>None\<close> is the call without a scale.\<close>

definition decimal_string :: "pydec \<Rightarrow> nat option \<Rightarrow> string res" where
  "decimal_string v scale =
     (case v of
        Fin d \<Rightarrow>
          (case scale of
             None \<Rightarrow> Inr (format_f d)
           | Some k \<Rightarrow> bindE (to_scaled_int k ''financial value'' v) (\<lambda>n. Inr (format_f (from_scaled_int k n))))
      | _ \<Rightarrow> paper_error ''financial value must be finite'')"

text \<open>The value of a decimal, with a number for the values that are not finite.\<close>

fun pval :: "pydec \<Rightarrow> rat" where
  "pval (Fin d) = dval d"
| "pval _ = 0"

lemma dval_from_scaled [simp]: "dval (from_scaled_int k n) = of_int n / 10 ^ k"
  by (simp add: from_scaled_int_def dval_def dnum_def power_int_minus divide_inverse)

lemma dexp_from_scaled [simp]: "dexp (from_scaled_int k n) = - int k"
  by (simp add: from_scaled_int_def)

lemma exact_div_iff:
  fixes c m :: nat
  assumes "0 < m"
  shows "c mod m = 0 \<and> n = (if s then - int (c div m) else int (c div m))
    \<longleftrightarrow> (if s then - int c else int c) = n * int m"
proof -
  have "c mod m = 0 \<and> i = int (c div m) \<longleftrightarrow> int c = i * int m" for i
  proof
    assume "c mod m = 0 \<and> i = int (c div m)"
    then show "int c = i * int m" by (auto simp: zdiv_int)
  next
    assume c: "int c = i * int m"
    then have "int c mod int m = 0" "int c div int m = i" using assms by simp_all
    then show "c mod m = 0 \<and> i = int (c div m)" by (simp add: zdiv_int flip: zmod_int)
  qed
  from this [of n] this [of "- n"] show ?thesis by (cases s) auto
qed

text \<open>The conversion is exact: it succeeds on the decimals that are a whole number of units.\<close>

lemma to_scaled_int_Inr_iff:
  "to_scaled_int k field v = Inr n \<longleftrightarrow> (\<exists>d. v = Fin d \<and> dval d * 10 ^ k = of_int n)"
proof (cases v)
  case (Fin d)
  let ?sh = "dexp d + int k"
  have pow: "dval d * 10 ^ k = of_int (dnum d) * 10 powi ?sh"
    by (simp add: dval_def power_int_add mult.assoc)
  show ?thesis
  proof (cases "0 \<le> ?sh")
    case True
    then have "dval d * 10 ^ k = of_int (dnum d * 10 ^ nat ?sh)"
      by (simp add: pow power_int_def)
    then have "dval d * 10 ^ k = of_int n \<longleftrightarrow> dnum d * 10 ^ nat ?sh = n"
      by (metis of_int_eq_iff)
    then show ?thesis using True Fin by (auto simp: to_scaled_int_def Let_def dnum_def)
  next
    case False
    define m where "m = (10::nat) ^ nat (- ?sh)"
    have m: "0 < m" by (simp add: m_def)
    have "dval d * 10 ^ k = of_int (dnum d) / of_nat m"
      using False by (simp only: pow power_int_def m_def if_False of_nat_power of_nat_numeral divide_inverse power_inverse)
    then have "dval d * 10 ^ k = of_int n \<longleftrightarrow> (of_int (dnum d) :: rat) = of_int (n * int m)"
      using m by (simp only: divide_eq_eq) simp
    then have eq: "dval d * 10 ^ k = of_int n \<longleftrightarrow> dnum d = n * int m"
      by (metis of_int_eq_iff)
    have "to_scaled_int k field v = Inr n \<longleftrightarrow>
        dcoef d mod m = 0 \<and> n = (if dsign d then - int (dcoef d div m) else int (dcoef d div m))"
      using False Fin by (auto simp: to_scaled_int_def Let_def m_def)
    also have "\<dots> \<longleftrightarrow> dnum d = n * int m"
      using exact_div_iff [OF m, of "dcoef d"] by (simp add: dnum_def)
    finally show ?thesis using eq Fin by simp
  qed
qed (simp_all add: to_scaled_int_def)

lemma to_scaled_int_units [res_simps]:
  "to_scaled_int k field v = Inr n \<Longrightarrow> pval v = of_int n / 10 ^ k"
  by (auto simp: to_scaled_int_Inr_iff field_simps)

lemma to_from_scaled [simp]: "to_scaled_int k field (Fin (from_scaled_int k n)) = Inr n"
  by (simp add: to_scaled_int_Inr_iff)

lemma to_scaled_int_cong: "pval v = pval w \<Longrightarrow> v = Fin a \<Longrightarrow> w = Fin b \<Longrightarrow>
    to_scaled_int k f v = Inr n \<longleftrightarrow> to_scaled_int k g w = Inr n"
  by (simp add: to_scaled_int_Inr_iff)

lemma raises_to_scaled [raises_intros]:
  "(\<And>m. P (KalshiPaperProtocolError m)) \<Longrightarrow> raises P (to_scaled_int k field v)"
  by (simp add: to_scaled_int_def Let_def split: pydec.splits)

section \<open>Price ranges\<close>

record paper_price_range =
  pr_start :: pydec
  pr_end :: pydec
  pr_step :: pydec

definition range_name :: "nat \<Rightarrow> string" where
  "range_name index = ''price_ranges['' @ nat_str index @ '']''"

text \<open>The body of the loop of \<open>_parse_price_ranges\<close>: the end of the previous range, the ranges so far.\<close>

definition add_price_range ::
    "int option \<times> paper_price_range list \<Rightarrow> nat \<times> pyval \<Rightarrow> (int option \<times> paper_price_range list) res" where
  "add_price_range = (\<lambda>(previous_end, parsed) (index, raw).
     let name = range_name index in
     bindE (as_dict raw (KalshiPaperProtocolError (''Kalshi market '' @ name @ '' must be an object''))) (\<lambda>p.
     bindE (read_decimal_string (py_get p ''start'') (name @ ''.start'') price_scale) (\<lambda>start.
     bindE (read_decimal_string (py_get p ''end'') (name @ ''.end'') price_scale) (\<lambda>stop.
     bindE (read_decimal_string (py_get p ''step'') (name @ ''.step'') price_scale) (\<lambda>step.
     bindE (to_scaled_int price_scale (name @ ''.start'') (Fin start)) (\<lambda>start_units.
     bindE (to_scaled_int price_scale (name @ ''.end'') (Fin stop)) (\<lambda>end_units.
     bindE (to_scaled_int price_scale (name @ ''.step'') (Fin step)) (\<lambda>step_units.
     if start_units < 0 \<or> 10 ^ price_scale < end_units \<or> end_units \<le> start_units
     then paper_error (''Kalshi market '' @ name @ '' has invalid bounds'')
     else if step_units \<le> 0 \<or> (end_units - start_units) mod step_units \<noteq> 0
     then paper_error (''Kalshi market '' @ name @ '' has an invalid step'')
     else if previous_end \<noteq> None \<and> start_units < the previous_end
     then paper_error ''Kalshi market price_ranges overlap or are out of order''
     else Inr (Some end_units,
       parsed @ [\<lparr>pr_start = Fin start, pr_end = Fin stop, pr_step = Fin step\<rparr>])))))))))"

definition parse_price_ranges :: "pyval \<Rightarrow> paper_price_range list res" where
  "parse_price_ranges v =
     (case v of
        PList (x # xs) \<Rightarrow>
          bindE (foldE add_price_range (None, []) (enumerate 0 (x # xs))) (\<lambda>(_, parsed). Inr parsed)
      | _ \<Rightarrow> paper_error ''Kalshi market price_ranges must be a non-empty list'')"

fun price_is_on_tick :: "int \<Rightarrow> paper_price_range list \<Rightarrow> bool res" where
  "price_is_on_tick price_units [] = Inr False"
| "price_is_on_tick price_units (r # rs) =
     bindE (to_scaled_int price_scale ''price range start'' (pr_start r)) (\<lambda>start_units.
     bindE (to_scaled_int price_scale ''price range end'' (pr_end r)) (\<lambda>end_units.
     bindE (to_scaled_int price_scale ''price range step'' (pr_step r)) (\<lambda>step_units.
     if start_units \<le> price_units \<and> price_units \<le> end_units
     then if step_units = 0 then Inl (ZeroDivisionError ''integer modulo by zero'')
       else if (price_units - start_units) mod step_units = 0 then Inr True
       else price_is_on_tick price_units rs
     else price_is_on_tick price_units rs)))"

text \<open>
  What a range promises: bounds within the unit interval and a positive step that divides it. A
  price is on a tick when some range reaches it from its start in whole steps.
\<close>

definition range_ok :: "paper_price_range \<Rightarrow> bool" where
  "range_ok r = (\<exists>a b c :: int.
     to_scaled_int price_scale [] (pr_start r) = Inr a \<and> to_scaled_int price_scale [] (pr_end r) = Inr b
     \<and> to_scaled_int price_scale [] (pr_step r) = Inr c
     \<and> 0 \<le> a \<and> a < b \<and> b \<le> 10 ^ price_scale \<and> 0 < c \<and> c dvd b - a)"

definition ranges_ok :: "paper_price_range list \<Rightarrow> bool" where
  "ranges_ok rs = (list_all range_ok rs \<and> sorted_wrt (\<lambda>r s. pval (pr_end r) \<le> pval (pr_start s)) rs)"

definition on_tick :: "rat \<Rightarrow> paper_price_range \<Rightarrow> bool" where
  "on_tick x r = (pval (pr_start r) \<le> x \<and> x \<le> pval (pr_end r)
     \<and> (x - pval (pr_start r)) / pval (pr_step r) \<in> \<int>)"

lemma to_scaled_any_field: "to_scaled_int k f v = Inr n \<Longrightarrow> to_scaled_int k g v = Inr n"
  by (simp add: to_scaled_int_Inr_iff)

lemma int_quotient_iff:
  fixes a c :: int
  assumes "c \<noteq> 0"
  shows "(of_int a :: rat) / of_int c \<in> \<int> \<longleftrightarrow> c dvd a"
proof
  assume "(of_int a :: rat) / of_int c \<in> \<int>"
  then obtain n where "(of_int a :: rat) / of_int c = of_int n" by (elim Ints_cases)
  then have "(of_int a :: rat) = of_int (n * c)" using assms by (simp add: divide_eq_eq)
  then have "a = n * c" by (simp only: of_int_eq_iff)
  then show "c dvd a" by simp
next
  assume "c dvd a"
  then show "(of_int a :: rat) / of_int c \<in> \<int>" using assms by (auto simp: elim!: dvdE)
qed

lemma range_ok_tick:
  assumes "range_ok r"
  shows "price_is_on_tick n (r # rs) =
    (if on_tick (of_int n / 10 ^ price_scale) r then Inr True else price_is_on_tick n rs)"
proof -
  obtain a b c where u: "to_scaled_int price_scale f (pr_start r) = Inr a"
    "to_scaled_int price_scale f (pr_end r) = Inr b" "to_scaled_int price_scale f (pr_step r) = Inr c"
    "0 < c" for f
    using assms to_scaled_any_field unfolding range_ok_def by meson
  then have v: "pval (pr_start r) = of_int a / 10 ^ price_scale" "pval (pr_end r) = of_int b / 10 ^ price_scale"
    "pval (pr_step r) = of_int c / 10 ^ price_scale"
    using to_scaled_int_units by blast+
  have "(of_int n / 10 ^ price_scale - of_int a / 10 ^ price_scale) / (of_int c / 10 ^ price_scale)
      = (of_int (n - a) / of_int c :: rat)"
    by (simp add: diff_divide_distrib [symmetric])
  then have "on_tick (of_int n / 10 ^ price_scale) r \<longleftrightarrow> a \<le> n \<and> n \<le> b \<and> c dvd n - a"
    using int_quotient_iff [of c "n - a"] u(4) by (simp add: on_tick_def v divide_le_cancel)
  then show ?thesis using u by (simp add: mod_eq_0_iff_dvd)
qed

lemma price_is_on_tick_eq:
  "list_all range_ok rs \<Longrightarrow>
     price_is_on_tick n rs = Inr (list_ex (on_tick (of_int n / 10 ^ price_scale)) rs)"
  by (induction rs) (simp_all add: range_ok_tick del: price_is_on_tick.simps(2))

text \<open>The loop invariant: everything so far ends at or before the previous end.\<close>

definition ranges_upto :: "int option \<times> paper_price_range list \<Rightarrow> bool" where
  "ranges_upto = (\<lambda>(prev, rs). ranges_ok rs \<and> (case prev of None \<Rightarrow> rs = []
     | Some b \<Rightarrow> rs \<noteq> [] \<and> (\<forall>r \<in> set rs. pval (pr_end r) \<le> of_int b / 10 ^ price_scale)))"

lemma ranges_upto_add:
  assumes "ranges_upto (prev, rs)" "prev = None \<or> the prev \<le> a"
    and u: "to_scaled_int price_scale f (Fin start) = Inr a" "to_scaled_int price_scale g (Fin stop) = Inr b"
      "to_scaled_int price_scale h (Fin step) = Inr c"
    and g: "0 \<le> a" "a < b" "b \<le> 10 ^ price_scale" "0 < c" "(b - a) mod c = 0"
  shows "ranges_upto (Some b, rs @ [\<lparr>pr_start = Fin start, pr_end = Fin stop, pr_step = Fin step\<rparr>])"
proof -
  let ?r = "\<lparr>pr_start = Fin start, pr_end = Fin stop, pr_step = Fin step\<rparr>"
  have v: "dval start = of_int a / 10 ^ price_scale" "dval stop = of_int b / 10 ^ price_scale"
    using u(1,2) by (simp_all add: to_scaled_int_Inr_iff field_simps)
  have "range_ok ?r"
    using u [THEN to_scaled_any_field [where g = "[]"]] g by (simp add: range_ok_def mod_eq_0_iff_dvd)
  moreover have "pval (pr_end s) \<le> dval start" if "s \<in> set rs" for s
  proof -
    obtain e where e: "prev = Some e" "pval (pr_end s) \<le> of_int e / 10 ^ price_scale"
      using assms(1) \<open>s \<in> set rs\<close> by (cases prev) (auto simp: ranges_upto_def)
    then have "(of_int e :: rat) / 10 ^ price_scale \<le> of_int a / 10 ^ price_scale"
      using assms(2) by (simp add: divide_le_cancel)
    with e v show ?thesis by simp
  qed
  moreover have "dval start \<le> dval stop" using g(2) by (simp add: v divide_le_cancel)
  ultimately show ?thesis
    using assms(1) v by (force simp: ranges_upto_def ranges_ok_def sorted_wrt_append)
qed

lemma add_price_range_ok:
  assumes "add_price_range s x = Inr s'" "ranges_upto s"
  shows "ranges_upto s' \<and> snd s' \<noteq> []"
proof -
  obtain prev rs index raw where s: "s = (prev, rs)" "x = (index, raw)" by fastforce
  from assms(1) show ?thesis
    unfolding s add_price_range_def Let_def prod.case
  proof (elim run_elims, goal_cases)
    case (1 p start stop step a b c)
    then have "ranges_upto (Some b, rs @ [\<lparr>pr_start = Fin start, pr_end = Fin stop, pr_step = Fin step\<rparr>])"
      using assms(2) by (intro ranges_upto_add [of prev rs a _ start _ stop b _ step c]) (auto simp: s)
    with 1 show ?case by auto
  qed
qed

lemma parse_price_ranges_ok:
  assumes "parse_price_ranges v = Inr rs"
  shows "ranges_ok rs" "rs \<noteq> []"
proof -
  obtain x xs where v: "v = PList (x # xs)"
    using assms by (auto simp: parse_price_ranges_def split: pyval.splits list.splits)
  obtain prev where run: "foldE add_price_range (None, []) (enumerate 0 (x # xs)) = Inr (prev, rs)"
    using assms unfolding v parse_price_ranges_def by (auto simp: bindE_eq_Inr simp del: foldE.simps enumerate_simps)
  have "ranges_upto (None, [])" by (simp add: ranges_upto_def ranges_ok_def)
  with run obtain s where first: "add_price_range (None, []) (0, x) = Inr s"
    and rest: "foldE add_price_range s (enumerate 1 xs) = Inr (prev, rs)"
    by (auto simp: res_simps)
  have "ranges_upto (prev, rs) \<and> snd (prev, rs) \<noteq> []"
    by (rule foldE_invariant [OF rest]) (use add_price_range_ok first \<open>ranges_upto (None, [])\<close> in blast)+
  then show "ranges_ok rs" "rs \<noteq> []" by (simp_all add: ranges_upto_def)
qed

end
