(* ===== verification/PaperStrings.thy ===== *)
theory PaperStrings
  imports PaperUnits
begin

text \<open>
  The texts of the paper engine's evidence: a value written at a scale is a plain decimal, and
  the strict reader gives the same units back; and what parsed price ranges promise.
\<close>

lemma hd_nat_str_zero: "hd (nat_str n) = CHR ''0'' \<longleftrightarrow> n = 0"
proof (induction n rule: nat_str.induct)
  case (1 n)
  show ?case
  proof (cases "n < 10")
    case True
    have "digit_char 0 = CHR ''0''" by code_simp
    then have "digit_char n = CHR ''0'' \<longleftrightarrow> n = 0"
      using digit_val_digit_char [OF True] digit_val_digit_char [of 0] by auto
    then show ?thesis using True by (subst nat_str.simps) simp
  next
    case False
    then show ?thesis using 1 by (subst nat_str.simps) (simp add: hd_append)
  qed
qed

lemma plain_decimal_parts:
  assumes "\<forall>c \<in> set ip. is_digit c" "ip \<noteq> []" "hd ip = CHR ''0'' \<Longrightarrow> ip = ''0''"
    and "\<forall>c \<in> set fp. is_digit c"
  shows "plain_decimal ip" "fp \<noteq> [] \<Longrightarrow> plain_decimal (ip @ CHR ''.'' # fp)"
proof -
  have "takeWhile is_digit (ip @ CHR ''.'' # fp) = ip" "dropWhile is_digit (ip @ CHR ''.'' # fp) = CHR ''.'' # fp"
    using takeWhile_dropWhile_digits [OF assms(1), of "CHR ''.'' # fp"] by simp_all
  then show "plain_decimal ip" "fp \<noteq> [] \<Longrightarrow> plain_decimal (ip @ CHR ''.'' # fp)"
    unfolding plain_decimal_def Let_def takeWhile_all_digits [OF assms(1)]
    using assms(2-4) by (auto simp: list_all_iff)
qed

lemma plain_format_abs: "plain_decimal (format_abs c (- int k))"
proof (cases "k = 0")
  case True
  have "nat_str 0 = ''0''" by code_simp
  then show ?thesis
    using plain_decimal_parts(1) [OF nat_str_digits nat_str_nonempty, of c "[]"] True hd_nat_str_zero [of c] \<open>nat_str 0 = ''0''\<close>
      plain_decimal_parts(1) [of "''0''" "[]"] by (simp add: format_abs_def)
next
  case False
  define pad where "pad = Suc k - length (nat_str c)"
  define ds where "ds = replicate pad CHR ''0'' @ nat_str c"
  define i where "i = length ds - k"
  have "\<forall>x \<in> set ds. is_digit x" using nat_str_digits [of c] by (auto simp: ds_def)
  then have parts: "\<forall>x \<in> set (take i ds). is_digit x" "\<forall>x \<in> set (drop i ds). is_digit x"
    by (meson in_set_takeD in_set_dropD)+
  have "k < length ds" by (simp add: ds_def pad_def)
  then have ne: "take i ds \<noteq> []" "drop i ds \<noteq> []" using False by (auto simp: i_def)
  have "take i ds = ''0''" if "hd (take i ds) = CHR ''0''"
  proof (cases pad)
    case 0
    then have "c = 0" using that ne hd_nat_str_zero [of c] by (simp add: ds_def hd_take)
    then have "length (nat_str c) = 1" by (simp add: nat_str.simps)
    with 0 False show ?thesis by (simp add: pad_def)
  next
    case (Suc j)
    then have "i = 1" "ds = CHR ''0'' # replicate j CHR ''0'' @ nat_str c" by (simp_all add: i_def ds_def pad_def)
    then show ?thesis by simp
  qed
  from plain_decimal_parts(2) [OF parts(1) ne(1) this parts(2) ne(2)]
  show ?thesis using False by (simp add: format_abs_def Let_def ds_def i_def pad_def)
qed

text \<open>
  C22: what is written at a scale is read back exactly. The text of a non-negative value is
  produced only when the value is a whole number of units, the strict reader accepts it at
  that scale, and what it reads has the same number of units and the same value.
\<close>

theorem scaled_strings_round_trip:
  assumes "decimal_string v (Some k) = Inr s" "0 \<le> pval v"
  shows "\<exists>n. to_scaled_int k field v = Inr n \<and> read_decimal_string (PStr s) field k = Inr (from_scaled_int k n)
    \<and> to_scaled_int k field (Fin (from_scaled_int k n)) = Inr n \<and> dval (from_scaled_int k n) = pval v"
proof -
  obtain n where n: "to_scaled_int k ''financial value'' v = Inr n" "s = format_f (from_scaled_int k n)"
    using assms(1) by (auto simp: decimal_string_def bindE_eq_Inr split: pydec.splits)
  have v: "pval v = of_int n / 10 ^ k" by (rule to_scaled_int_units [OF n(1)])
  then have "(of_int n :: rat) = pval v * 10 ^ k" by simp
  then have "0 \<le> (of_int n :: rat)" using assms(2) by simp
  then have "0 \<le> n" by simp
  then have "plain_decimal s"
    using plain_format_abs [of "nat n" k] by (simp add: n(2) format_f_def from_scaled_int_def)
  moreover have "parse_decimal s = Some (Fin (from_scaled_int k n))"
    unfolding n(2) by (rule parse_decimal_format_f) simp
  ultimately have "read_decimal_string (PStr s) field k = Inr (from_scaled_int k n)"
    by (simp add: read_decimal_string_def finite_dec_def)
  then show ?thesis using to_scaled_any_field [OF n(1)] v by auto
qed

text \<open>
  parsed price ranges decide the ticks. They are in order, do not overlap, lie within the
  unit interval and have positive steps that divide them; and for every number of units the
  tick test returns, with the answer: whether some range reaches that price in whole steps.
\<close>

theorem parsed_price_ranges_decide_ticks:
  assumes "parse_price_ranges v = Inr rs"
  shows "rs \<noteq> [] \<and> ranges_ok rs
    \<and> price_is_on_tick n rs = Inr (list_ex (on_tick (of_int n / 10 ^ price_scale)) rs)"
  using parse_price_ranges_ok [OF assms] price_is_on_tick_eq [of rs n] by (simp add: ranges_ok_def)

definition sample_price_ranges :: pyval where
  "sample_price_ranges = PList [PDict [(''start'', PStr ''0''), (''end'', PStr ''0.5''), (''step'', PStr ''0.25'')],
     PDict [(''start'', PStr ''0.5''), (''end'', PStr ''1.00''), (''step'', PStr ''0.10'')]]"

lemma sample_decimal_strings:
  "read_decimal_string (PStr ''0'') f price_scale = Inr (Dec False 0 0)"
  "read_decimal_string (PStr ''0.5'') f price_scale = Inr (Dec False 5 (-1))"
  "read_decimal_string (PStr ''0.25'') f price_scale = Inr (Dec False 25 (-2))"
  "read_decimal_string (PStr ''10'') f price_scale = Inr (Dec False 10 0)"
  "read_decimal_string (PStr ''0.10'') f price_scale = Inr (Dec False 10 (-2))"
  "read_decimal_string (PStr ''1.00'') f price_scale = Inr (Dec False 100 (-2))"
proof -
  have "plain_decimal ''0''" "parse_decimal ''0'' = Some (Fin (Dec False 0 0))"
    "plain_decimal ''0.5''" "parse_decimal ''0.5'' = Some (Fin (Dec False 5 (-1)))"
    "plain_decimal ''0.25''" "parse_decimal ''0.25'' = Some (Fin (Dec False 25 (-2)))"
    "plain_decimal ''10''" "parse_decimal ''10'' = Some (Fin (Dec False 10 0))"
    "plain_decimal ''0.10''" "parse_decimal ''0.10'' = Some (Fin (Dec False 10 (-2)))"
    "plain_decimal ''1.00''" "parse_decimal ''1.00'' = Some (Fin (Dec False 100 (-2)))"
    by code_simp+
  then show "read_decimal_string (PStr ''0'') f price_scale = Inr (Dec False 0 0)"
    "read_decimal_string (PStr ''0.5'') f price_scale = Inr (Dec False 5 (-1))"
    "read_decimal_string (PStr ''0.25'') f price_scale = Inr (Dec False 25 (-2))"
    "read_decimal_string (PStr ''10'') f price_scale = Inr (Dec False 10 0)"
    "read_decimal_string (PStr ''0.10'') f price_scale = Inr (Dec False 10 (-2))"
    "read_decimal_string (PStr ''1.00'') f price_scale = Inr (Dec False 100 (-2))"
    by (simp_all add: read_decimal_string_def finite_dec_def price_scale_def)
qed

lemma sample_price_ranges_parse:
  "parse_price_ranges sample_price_ranges =
     Inr [\<lparr>pr_start = Fin (Dec False 0 0), pr_end = Fin (Dec False 5 (-1)), pr_step = Fin (Dec False 25 (-2))\<rparr>,
       \<lparr>pr_start = Fin (Dec False 5 (-1)), pr_end = Fin (Dec False 100 (-2)), pr_step = Fin (Dec False 10 (-2))\<rparr>]"
  by (simp add: sample_price_ranges_def parse_price_ranges_def add_price_range_def as_dict_def py_get_or_def
      sample_decimal_strings [unfolded price_scale_def] to_scaled_int_def Let_def price_scale_def)

lemma parsed_price_ranges_decide_ticks_witness:
  "\<exists>rs. parse_price_ranges sample_price_ranges = Inr rs \<and> ranges_ok rs \<and> rs \<noteq> []"
  using parsed_price_ranges_decide_ticks [OF sample_price_ranges_parse] sample_price_ranges_parse by blast

lemma scaled_strings_round_trip_witness:
  "\<exists>s n. decimal_string (Fin (Dec False 25 (-2))) (Some price_scale) = Inr s
     \<and> read_decimal_string (PStr s) ''f'' price_scale = Inr (from_scaled_int price_scale n)"
proof -
  have "decimal_string (Fin (Dec False 25 (-2))) (Some price_scale) = Inr (format_f (from_scaled_int price_scale 250000))"
    by (simp add: decimal_string_def to_scaled_int_def price_scale_def)
  with scaled_strings_round_trip [OF this] show ?thesis by (auto simp: dval_Dec)
qed

end
