(* ===== verification/DecimalDivision.thy ===== *)
theory DecimalDivision
  imports Decimals
begin

text \<open>
  \<open>Decimal.__truediv__\<close> under a context of precision \<open>p\<close> with half-even rounding, and how far
  a rounded result is from the exact one. \<open>None\<close> is a division by zero.
\<close>

text \<open>
  An exact quotient gives up its trailing zeros until it reaches the ideal exponent; \<open>k\<close> is the
  distance to it.
\<close>

primrec strip_zeros :: "nat \<Rightarrow> nat \<Rightarrow> nat \<times> nat" where
  "strip_zeros 0 c = (c, 0)"
| "strip_zeros (Suc k) c = (if c mod 10 = 0 then strip_zeros k (c div 10) else (c, Suc k))"

text \<open>An inexact one becomes sticky: a last digit 0 or 5 is raised, so that the rounding sees the remainder.\<close>

definition dec_div :: "nat \<Rightarrow> dec \<Rightarrow> dec \<Rightarrow> dec option" where
  "dec_div p a b =
     (if dcoef b = 0 then None else
      let s = (dsign a \<noteq> dsign b); ideal = dexp a - dexp b in
      if dcoef a = 0 then Some (dec_fix p (Dec s 0 ideal)) else
      let shift = int (ndigits (dcoef b)) - int (ndigits (dcoef a)) + int p + 1;
          num = dcoef a * 10 ^ nat shift; den = dcoef b * 10 ^ nat (- shift); c = num div den in
      if num mod den \<noteq> 0
      then Some (dec_fix p (Dec s (if c mod 5 = 0 then c + 1 else c) (ideal - shift)))
      else let (c', k) = strip_zeros (nat shift) c in
        Some (dec_fix p (Dec s c' (ideal - int k + int (nat (- shift))))))"

section \<open>Rounding errors\<close>

lemma div_half_even_error:
  assumes "0 < b"
  shows "\<bar>of_nat (div_half_even a b) * of_nat b - of_nat a\<bar> \<le> (of_nat b :: rat) / 2"
proof -
  define q r where "q = a div b" and "r = a mod b"
  have a: "(of_nat a :: rat) = of_nat q * of_nat b + of_nat r"
    by (simp add: q_def r_def flip: of_nat_mult of_nat_add)
  have r: "(of_nat r :: rat) < of_nat b" "(0::rat) \<le> of_nat r" using assms by (simp_all add: r_def)
  have "div_half_even a b = q \<and> 2 * r \<le> b \<or> div_half_even a b = Suc q \<and> b \<le> 2 * r"
    by (auto simp: div_half_even_def Let_def q_def r_def)
  then have "div_half_even a b = q \<and> 2 * of_nat r \<le> (of_nat b :: rat)
      \<or> div_half_even a b = Suc q \<and> (of_nat b :: rat) \<le> 2 * of_nat r"
    by (metis of_nat_le_iff of_nat_mult of_nat_numeral)
  then show ?thesis using r by (auto simp: a distrib_right)
qed

lemma ndigits_lower: "0 < n \<Longrightarrow> 10 ^ (ndigits n - 1) \<le> n"
proof (cases "ndigits n = 1")
  case False
  assume "0 < n"
  have "1 \<le> ndigits n" by (subst ndigits.simps) simp
  with False show ?thesis using ndigits_le_iff [of "ndigits n - 1" n] by (cases "n < 10 ^ (ndigits n - 1)") auto
qed simp

lemma ndigits_pos [simp]: "0 < ndigits n"
  by (subst ndigits.simps) simp

lemma ndigits_upper: "n < 10 ^ ndigits n"
  using ndigits_le_iff [of "ndigits n" n] by simp

lemma dval_abs: "\<bar>dval d\<bar> = of_nat (dcoef d) * 10 powi dexp d"
  by (simp add: dval_def dnum_def abs_mult)

lemma dval_signed: "dval (Dec s n e) = (if s then -1 else 1) * (of_nat n * 10 powi e)"
  by (simp add: dval_def dnum_def)

lemma dec_rescale_error: "\<bar>dval (dec_rescale d e) - dval d\<bar> \<le> 10 powi e / 2"
proof (cases "e \<le> dexp d")
  case True
  then show ?thesis by (simp add: dec_rescale_exact)
next
  case False
  define k where "k = nat (e - dexp d)"
  have e: "(10::rat) powi e = of_nat (10 ^ k) * 10 powi dexp d"
    using False by (simp add: k_def powi_ge_zero_split)
  let ?c = "div_half_even (dcoef d) (10 ^ k)"
  have "dec_rescale d e = Dec (dsign d) ?c e" using False by (simp add: dec_rescale_def k_def)
  moreover have "dval d = (if dsign d then -1 else 1) * (of_nat (dcoef d) * 10 powi dexp d)"
    by (cases d) (simp add: dval_signed)
  ultimately have "dval (dec_rescale d e) - dval d
      = (if dsign d then -1 else 1) * ((of_nat ?c * of_nat (10 ^ k) - of_nat (dcoef d)) * 10 powi dexp d)"
    by (simp add: dval_signed e algebra_simps)
  then have "\<bar>dval (dec_rescale d e) - dval d\<bar>
      = \<bar>of_nat ?c * of_nat (10 ^ k) - of_nat (dcoef d)\<bar> * 10 powi dexp d"
    by (simp add: abs_mult)
  also have "\<dots> \<le> of_nat (10 ^ k) / 2 * 10 powi dexp d"
    by (rule mult_right_mono [OF div_half_even_error]) simp_all
  finally show ?thesis by (simp add: e)
qed

text \<open>Rounding to \<open>p\<close> digits loses at most half a unit of the last one.\<close>

lemma dec_fix_value:
  assumes "p < ndigits (dcoef d)" "0 < p"
  shows "dval (dec_fix p d) = dval (dec_rescale d (dexp d + int (ndigits (dcoef d) - p)))"
proof -
  define k where "k = ndigits (dcoef d) - p"
  have "0 < k" using assms by (simp add: k_def)
  have "(10::rat) ^ (p - 1) * 10 powi (dexp d + int k + 1) = 10 ^ p * 10 powi (dexp d + int k)"
    using assms(2) by (cases p) (simp_all add: power_int_add)
  then show ?thesis
    using assms \<open>0 < k\<close>
    by (simp add: dec_fix_def Let_def dec_rescale_def flip: k_def) (auto simp: dval_signed)
qed

lemma dec_fix_error:
  assumes "0 < p"
  shows "\<bar>dval (dec_fix p d) - dval d\<bar> \<le> \<bar>dval d\<bar> / (2 * 10 ^ (p - 1))"
proof (cases "ndigits (dcoef d) \<le> p")
  case True
  then show ?thesis by (simp add: dec_fix_exact)
next
  case False
  define k where "k = ndigits (dcoef d) - p"
  have pos: "0 < dcoef d" using False assms by (cases "dcoef d = 0") (simp_all add: ndigits.simps)
  have "ndigits (dcoef d) - 1 = (p - 1) + k" using False assms by (simp add: k_def)
  with ndigits_lower [OF pos] have "10 ^ (p - 1) * 10 ^ k \<le> dcoef d" by (simp add: power_add)
  then have "(of_nat (10 ^ (p - 1) * 10 ^ k) :: rat) \<le> of_nat (dcoef d)"
    by (simp only: of_nat_le_iff)
  then have "(10::rat) ^ (p - 1) * 10 ^ k \<le> of_nat (dcoef d)" by simp
  then have "10 ^ (p - 1) * (10 ^ k * 10 powi dexp d) \<le> \<bar>dval d\<bar>"
    by (simp add: dval_abs mult_right_mono flip: mult.assoc)
  then have "(10::rat) powi (dexp d + int k) / 2 \<le> \<bar>dval d\<bar> / (2 * 10 ^ (p - 1))"
    by (simp add: power_int_add field_simps)
  with dec_rescale_error [of d "dexp d + int k"] False assms show ?thesis
    by (simp add: dec_fix_value k_def)
qed

lemma strip_zeros_value:
  "strip_zeros k c = (c', j) \<Longrightarrow> j \<le> k \<and> c = c' * 10 ^ (k - j)"
proof (induction k arbitrary: c)
  case (Suc k)
  show ?case
  proof (cases "c mod 10 = 0")
    case True
    with Suc have j: "j \<le> k" "c div 10 = c' * 10 ^ (k - j)" by auto
    have "c = c div 10 * 10" using True by auto
    then have "c = c' * 10 ^ (k - j) * 10" by (simp only: j(2))
    then show ?thesis using j(1) by (simp add: Suc_diff_le)
  next
    case False
    then show ?thesis using Suc.prems by simp
  qed
qed simp

section \<open>The quotient\<close>

lemma dec_div_error:
  assumes q: "dec_div p a b = Some q" and p: "0 < p"
    and pos: "\<not> dsign a" "\<not> dsign b" "0 < dcoef a"
  shows "\<bar>dval q - dval a / dval b\<bar> \<le> dval a / dval b / 10 ^ (p - 1)"
proof -
  define ideal where "ideal = dexp a - dexp b"
  define shift where "shift = int (ndigits (dcoef b)) - int (ndigits (dcoef a)) + int p + 1"
  define num den c where "num = dcoef a * 10 ^ nat shift" and "den = dcoef b * 10 ^ nat (- shift)"
    and "c = num div den"
  have b: "0 < dcoef b" using q by (simp add: dec_div_def split: if_splits)
  have den: "0 < den" using b by (simp add: den_def)
  define x where "x = dval a / dval b"
  have "10 powi shift = (if 0 \<le> shift then 10 ^ nat shift else 1 / 10 ^ nat (- shift) :: rat)"
    by (simp add: power_int_def inverse_eq_divide power_one_over)
  then have "10 powi shift = (10 ^ nat shift / 10 ^ nat (- shift) :: rat)" by auto
  then have sh: "(of_nat num / of_nat den :: rat) = of_nat (dcoef a) / of_nat (dcoef b) * 10 powi shift"
    by (simp add: num_def den_def)
  have "x = of_nat (dcoef a) / of_nat (dcoef b) * 10 powi ideal"
    using pos by (simp add: x_def dval_def dnum_def ideal_def power_int_diff)
  then have x: "x = of_nat num / of_nat den * 10 powi (ideal - shift)"
    using sh by (simp add: power_int_diff)
  have "10 ^ p * den \<le> num"
  proof -
    have "10 ^ p * (dcoef b * 10 ^ nat (- shift)) \<le> 10 ^ p * 10 ^ ndigits (dcoef b) * 10 ^ nat (- shift)"
      using ndigits_upper [of "dcoef b"] by simp
    also have "\<dots> = 10 ^ (p + ndigits (dcoef b) + nat (- shift))" by (simp add: power_add)
    also have "p + ndigits (dcoef b) + nat (- shift) = ndigits (dcoef a) - 1 + nat shift"
    proof -
      have "int (ndigits (dcoef a) - 1) = int (ndigits (dcoef a)) - 1"
        using ndigits_pos [of "dcoef a"] by linarith
      then show ?thesis unfolding shift_def by linarith
    qed
    also have "10 ^ (ndigits (dcoef a) - 1 + nat shift) \<le> dcoef a * 10 ^ nat shift"
      using ndigits_lower [OF pos(3)] by (simp add: power_add)
    finally show ?thesis by (simp add: num_def den_def)
  qed
  then have big: "(10 ^ p :: rat) \<le> of_nat num / of_nat den"
    using den by (simp add: le_divide_eq flip: of_nat_le_iff [where 'a = rat])
  define u where "u = (10::rat) powi (ideal - shift)"
  have u: "0 < u" by (simp add: u_def)
  have ulp: "10 ^ p * u \<le> x" unfolding x u_def [symmetric] using big u by (intro mult_right_mono) simp_all
  have near: "\<exists>v. q = dec_fix p v \<and> \<bar>dval v - x\<bar> \<le> u"
  proof (cases "num mod den = 0")
    case True
    obtain c' k where st: "strip_zeros (nat shift) c = (c', k)" by fastforce
    let ?v = "Dec False c' (ideal - int k + int (nat (- shift)))"
    have "q = dec_fix p ?v"
      using q pos b True st unfolding dec_div_def Let_def
      by (simp flip: shift_def num_def den_def c_def ideal_def)
    moreover have "dval ?v = of_nat c * u"
    proof -
      from strip_zeros_value [OF st] have k: "k \<le> nat shift" "c = c' * 10 ^ (nat shift - k)" by auto
      have "(of_nat c :: rat) * u = of_nat c' * (10 powi (int (nat shift) - int k) * 10 powi (ideal - shift))"
        unfolding of_nat_diff [OF k(1), symmetric] power_int_of_nat by (simp add: k(2) u_def)
      also have "\<dots> = of_nat c' * 10 powi (int (nat shift) - int k + (ideal - shift))"
        by (simp add: power_int_add)
      also have "int (nat shift) - int k + (ideal - shift) = ideal - int k + int (nat (- shift))" by simp
      also have "of_nat c' * 10 powi (ideal - int k + int (nat (- shift))) = dval ?v" by (simp add: dval_signed)
      finally show ?thesis by simp
    qed
    moreover have "num = c * den" using True by (auto simp: c_def)
    then have "(of_nat num / of_nat den :: rat) = of_nat c" using den by simp
    then have "x = of_nat c * u" using x by (simp add: u_def)
    ultimately show ?thesis using u by auto
  next
    case False
    let ?c = "if c mod 5 = 0 then c + 1 else c"
    have fixed: "q = dec_fix p (Dec False ?c (ideal - shift))"
      using q pos b False
      unfolding dec_div_def Let_def shift_def [symmetric] ideal_def [symmetric] num_def [symmetric]
        den_def [symmetric] c_def [symmetric]
      by simp
    have "of_nat c \<le> (of_nat num / of_nat den :: rat)" "of_nat num / of_nat den \<le> (of_nat c + 1 :: rat)"
    proof -
      have "c * den \<le> num" "num \<le> (c + 1) * den"
        using den by (simp_all add: c_def) (metis add.commute div_mult_mod_eq le_add1 less_imp_le mod_less_divisor
            add_le_cancel_left mult.commute)
      then have "of_nat (c * den) \<le> (of_nat num :: rat)" "of_nat num \<le> (of_nat ((c + 1) * den) :: rat)"
        by (simp_all only: of_nat_le_iff)
      then show "of_nat c \<le> (of_nat num / of_nat den :: rat)" "of_nat num / of_nat den \<le> (of_nat c + 1 :: rat)"
        using den by (simp_all add: le_divide_eq divide_le_eq distrib_right)
    qed
    then have "\<bar>of_nat ?c - (of_nat num / of_nat den :: rat)\<bar> \<le> 1" by auto
    then have "\<bar>of_nat ?c - (of_nat num / of_nat den :: rat)\<bar> * u \<le> u"
      using u mult_right_mono [of _ 1 u] by simp
    moreover have "dval (Dec False ?c (ideal - shift)) - x = (of_nat ?c - of_nat num / of_nat den) * u"
      by (simp add: dval_signed x u_def left_diff_distrib)
    ultimately have "\<bar>dval (Dec False ?c (ideal - shift)) - x\<bar> \<le> u"
      using u by (simp add: abs_mult)
    then show ?thesis using fixed by blast
  qed
  then obtain v where v: "q = dec_fix p v" "\<bar>dval v - x\<bar> \<le> u" by blast
  define h where "h = (1::rat) / 10 ^ (p - 1)"
  have h: "0 < h" "h \<le> 1" by (simp_all add: h_def)
  have "(10::rat) ^ p = 10 / h" using p by (cases p) (simp_all add: h_def)
  then have "10 / h * u \<le> x" using ulp by simp
  then have ux: "10 * u \<le> x * h" using h by (simp add: divide_le_eq)
  have "0 < 10 ^ p * u" using u by simp
  then have x0: "0 < x" using ulp by (rule less_le_trans)
  have "\<bar>dval q - dval v\<bar> \<le> \<bar>dval v\<bar> * h / 2"
    using dec_fix_error [OF p, of v] by (simp add: v h_def)
  also have "\<bar>dval v\<bar> * h / 2 \<le> (x + u) * h / 2"
    using v(2) x0 h by (intro divide_right_mono mult_right_mono) auto
  finally have "\<bar>dval q - x\<bar> \<le> (x + u) * h / 2 + u" using v(2) by linarith
  also have "\<dots> \<le> x * h"
  proof -
    have "u * h \<le> u" using u h by (simp add: mult_le_cancel_left1)
    then show ?thesis using ux u unfolding distrib_right add_divide_distrib by linarith
  qed
  finally show ?thesis by (simp add: x_def h_def)
qed

end
