(* ===== verification/PaperMatching.thy ===== *)
theory PaperMatching
  imports PaperUnits DecimalDivision "HOL-Library.Product_Lexorder" "HOL-Library.Multiset"
begin

text \<open>
  The execution arithmetic of \<open>services/kalshi_paper_execution.py\<close>: an immediate-or-cancel order
  against the displayed depth of a book. A buy of one outcome takes the bids of the other at the
  complementary price; a sell takes the bids of its own. Prices and quantities are integers of
  the scales of theory \<open>PaperUnits\<close>.
\<close>

section \<open>Data\<close>

record paper_book_level =
  pl_price :: pydec
  pl_quantity :: pydec

record paper_book =
  pb_ticker :: string
  pb_yes_bids :: "paper_book_level list"
  pb_no_bids :: "paper_book_level list"
  pb_source_origin :: string
  pb_observed_at :: int
  pb_fetched_at :: int
  pb_evidence_hash :: string
  pb_evidence_json :: string

datatype paper_fill_status = Filled | Partial | NoFill

record paper_fill =
  pf_sequence :: nat
  pf_quantity :: dec
  pf_price :: dec
  pf_notional :: dec
  pf_source_bid_price :: dec
  pf_source_side :: outcome

record paper_fill_result =
  px_status :: paper_fill_status
  px_reason :: string
  px_requested_quantity :: dec
  px_filled_quantity :: dec
  px_remaining_quantity :: dec
  px_average_fill_price :: "dec option"
  px_notional :: dec
  px_fee :: dec
  px_fills :: "paper_fill list"
  px_formula_version :: string

section \<open>Taking displayed depth\<close>

definition validated_level :: "paper_price_range list \<Rightarrow> paper_book_level \<Rightarrow> (int \<times> int) res" where
  "validated_level ranges l =
     bindE (to_scaled_int price_scale ''book price'' (pl_price l)) (\<lambda>price_units.
     bindE (to_scaled_int quantity_scale ''book quantity'' (pl_quantity l)) (\<lambda>quantity_units.
     if price_units \<le> 0 \<or> 10 ^ price_scale \<le> price_units
     then paper_error ''book price must be greater than 0 and less than 1'' else
     bindE (price_is_on_tick price_units ranges) (\<lambda>tick.
     if \<not> tick then paper_error ''book price is not valid for the market price ranges''
     else if quantity_units \<le> 0 then paper_error ''book quantity must be greater than 0''
     else Inr (price_units, quantity_units))))"

definition make_fill :: "outcome \<Rightarrow> nat \<Rightarrow> int \<times> int \<times> int \<Rightarrow> paper_fill" where
  "make_fill side sequence = (\<lambda>(source, price, units).
     \<lparr>pf_sequence = sequence, pf_quantity = from_scaled_int quantity_scale units,
      pf_price = from_scaled_int price_scale price,
      pf_notional = from_scaled_int (price_scale + quantity_scale) (price * units),
      pf_source_bid_price = from_scaled_int price_scale source, pf_source_side = side\<rparr>)"

text \<open>
  The loop over the sorted levels, with the remaining units, the notional so far and the fills.
  The execution price of a level is computed, and checked, before its limit is looked at; the
  loop ends as soon as nothing remains.
\<close>

fun take_depth ::
    "(int \<Rightarrow> int res) \<Rightarrow> (int \<Rightarrow> bool) \<Rightarrow> outcome \<Rightarrow> int \<times> int \<times> paper_fill list \<Rightarrow> (int \<times> int) list
       \<Rightarrow> (int \<times> int \<times> paper_fill list) res" where
  "take_depth execution crosses side s [] = Inr s"
| "take_depth execution crosses side (remaining, notional, fills) ((source, available) # levels) =
     bindE (execution source) (\<lambda>price.
     if \<not> crosses price then take_depth execution crosses side (remaining, notional, fills) levels
     else let units = min remaining available in
       if units \<le> 0 then take_depth execution crosses side (remaining, notional, fills) levels
       else let s = (remaining - units, notional + price * units,
                     fills @ [make_fill side (length fills + 1) (source, price, units)]) in
         if remaining - units = 0 then Inr s else take_depth execution crosses side s levels)"

section \<open>The result of an order\<close>

text \<open>
  The average price: two divisions in a local context wide enough for both integers and 20
  digits more, then 18 decimal places. \<open>None\<close> is \<open>InvalidOperation\<close>.
\<close>

definition average_price :: "int \<Rightarrow> int \<Rightarrow> dec option" where
  "average_price notional filled =
     (let prec = max 50 (ndigits (nat \<bar>notional\<bar>) + ndigits (nat \<bar>filled\<bar>) + 20) in
      Option.bind (dec_div prec (dec_of_int notional) (dec_of_int filled)) (\<lambda>q.
      Option.bind (dec_div prec q (dec_of_int (10 ^ price_scale))) (\<lambda>raw.
      dec_quantize prec raw (- int money_scale))))"

record reasons =
  rs_empty :: string
  rs_uncrossed :: string
  rs_filled :: string
  rs_partial :: string

definition ioc_result ::
    "reasons \<Rightarrow> string \<Rightarrow> int \<Rightarrow> (int \<times> int) list \<Rightarrow> int \<times> int \<times> paper_fill list \<Rightarrow> paper_fill_result res" where
  "ioc_result rs formula quantity_units levels = (\<lambda>(remaining, notional, fills).
     let filled = quantity_units - remaining;
         (status, reason) =
           (if filled = 0 then (NoFill, if levels = [] then rs_empty rs else rs_uncrossed rs)
            else if remaining = 0 then (Filled, rs_filled rs) else (Partial, rs_partial rs)) in
     bindE (if filled = 0 then Inr None
            else case average_price notional filled of
               None \<Rightarrow> Inl (InvalidOperation ''quantize result has too many digits for current context'')
             | Some a \<Rightarrow> Inr (Some a)) (\<lambda>average.
     Inr \<lparr>px_status = status, px_reason = reason,
          px_requested_quantity = from_scaled_int quantity_scale quantity_units,
          px_filled_quantity = from_scaled_int quantity_scale filled,
          px_remaining_quantity = from_scaled_int quantity_scale remaining,
          px_average_fill_price = average,
          px_notional = from_scaled_int (price_scale + quantity_scale) notional,
          px_fee = Dec False 0 (- int money_scale), px_fills = fills, px_formula_version = formula\<rparr>))"

section \<open>Immediate-or-cancel orders\<close>

definition order_units ::
    "string \<Rightarrow> pydec \<Rightarrow> pydec \<Rightarrow> paper_price_range list \<Rightarrow> (int \<times> int) res" where
  "order_units name quantity price ranges =
     bindE (to_scaled_int quantity_scale ''quantity'' quantity) (\<lambda>quantity_units.
     if quantity_units \<le> 0 then paper_error ''quantity must be greater than 0'' else
     bindE (to_scaled_int price_scale name price) (\<lambda>price_units.
     if price_units \<le> 0 \<or> 10 ^ price_scale \<le> price_units
     then paper_error (name @ '' must be greater than 0 and less than 1'') else
     bindE (price_is_on_tick price_units ranges) (\<lambda>tick.
     if \<not> tick then paper_error (name @ '' is not valid for the market price ranges'')
     else Inr (quantity_units, price_units))))"

definition opposite :: "outcome \<Rightarrow> outcome" where
  "opposite side = (if side = Yes then No else Yes)"

definition bids :: "paper_book \<Rightarrow> outcome \<Rightarrow> paper_book_level list" where
  "bids book side = (if side = Yes then pb_yes_bids book else pb_no_bids book)"

definition complementary_price :: "paper_price_range list \<Rightarrow> int \<Rightarrow> int res" where
  "complementary_price ranges source =
     bindE (price_is_on_tick (10 ^ price_scale - source) ranges) (\<lambda>tick.
     if tick then Inr (10 ^ price_scale - source)
     else paper_error ''complementary execution price is not valid for the market price ranges'')"

definition buy_reasons :: reasons where
  "buy_reasons = \<lparr>rs_empty = ''displayed_depth_empty'', rs_uncrossed = ''limit_does_not_cross_displayed_depth'',
     rs_filled = ''displayed_depth_filled_ioc'', rs_partial = ''displayed_depth_partially_filled_ioc''\<rparr>"

definition sell_reasons :: reasons where
  "sell_reasons =
     \<lparr>rs_empty = ''displayed_owned_depth_empty'', rs_uncrossed = ''minimum_does_not_cross_owned_depth'',
      rs_filled = ''displayed_owned_depth_filled_ioc'',
      rs_partial = ''displayed_owned_depth_partially_filled_ioc''\<rparr>"

definition simulate_buy_ioc ::
    "paper_book \<Rightarrow> string \<Rightarrow> pydec \<Rightarrow> pydec \<Rightarrow> paper_price_range list \<Rightarrow> paper_fill_result res" where
  "simulate_buy_ioc book outcome quantity limit_price ranges =
     (case outcome_of outcome of
        None \<Rightarrow> paper_error ''outcome must be yes or no''
      | Some side \<Rightarrow>
          bindE (order_units ''limit_price'' quantity limit_price ranges) (\<lambda>(quantity_units, limit_units).
          bindE (traverseE (validated_level ranges) (bids book (opposite side))) (\<lambda>levels.
          bindE (take_depth (complementary_price ranges) (\<lambda>price. price \<le> limit_units) (opposite side)
                   (quantity_units, 0, []) (rev (sort levels))) (\<lambda>s.
          ioc_result buy_reasons ''kalshi-complementary-depth-ioc-v1'' quantity_units levels s))))"

definition simulate_sell_ioc ::
    "paper_book \<Rightarrow> string \<Rightarrow> pydec \<Rightarrow> pydec \<Rightarrow> paper_price_range list \<Rightarrow> paper_fill_result res" where
  "simulate_sell_ioc book outcome quantity minimum_price ranges =
     (case outcome_of outcome of
        None \<Rightarrow> paper_error ''outcome must be yes or no''
      | Some side \<Rightarrow>
          bindE (order_units ''minimum_price'' quantity minimum_price ranges) (\<lambda>(quantity_units, minimum_units).
          bindE (traverseE (validated_level ranges) (bids book side)) (\<lambda>levels.
          bindE (take_depth Inr (\<lambda>price. minimum_units \<le> price) side
                   (quantity_units, 0, []) (rev (sort levels))) (\<lambda>s.
          ioc_result sell_reasons ''kalshi-owned-depth-sell-ioc-v1'' quantity_units levels s))))"

section \<open>Matching as an abstract function\<close>

text \<open>
  Over levels given as source price, execution price and available units: take from each in
  turn until nothing remains. The loop above computes this on the levels that cross.
\<close>

fun best_fills :: "int \<Rightarrow> (int \<times> int \<times> int) list \<Rightarrow> (int \<times> int \<times> int) list" where
  "best_fills remaining [] = []"
| "best_fills remaining ((source, price, available) # levels) =
     (if remaining \<le> 0 then []
      else (source, price, min remaining available) # best_fills (remaining - min remaining available) levels)"

definition filled_units :: "(int \<times> int \<times> int) list \<Rightarrow> int" where
  "filled_units es = (\<Sum>(_, _, n)\<leftarrow>es. n)"

definition notional_units :: "(int \<times> int \<times> int) list \<Rightarrow> int" where
  "notional_units es = (\<Sum>(_, p, n)\<leftarrow>es. p * n)"

definition numbered_fills :: "outcome \<Rightarrow> nat \<Rightarrow> (int \<times> int \<times> int) list \<Rightarrow> paper_fill list" where
  "numbered_fills side k es = map (\<lambda>(i, e). make_fill side i e) (enumerate k es)"

definition crossing_levels ::
    "(int \<Rightarrow> int) \<Rightarrow> (int \<Rightarrow> bool) \<Rightarrow> (int \<times> int) list \<Rightarrow> (int \<times> int \<times> int) list" where
  "crossing_levels price crosses levels = [(s, price s, a). (s, a) \<leftarrow> levels, crosses (price s)]"

lemma units_simps [simp]:
  "filled_units [] = 0" "filled_units (e # es) = snd (snd e) + filled_units es"
  "notional_units [] = 0" "notional_units (e # es) = fst (snd e) * snd (snd e) + notional_units es"
  by (simp_all add: filled_units_def notional_units_def split: prod.splits)

lemma best_fills_none [simp]: "remaining \<le> 0 \<Longrightarrow> best_fills remaining ls = []"
  by (cases ls) auto

lemma take_depth_best:
  assumes "\<And>s x. execution s = Inr x \<Longrightarrow> x = price s"
  shows "take_depth execution crosses side (remaining, notional, fills) levels = Inr s \<Longrightarrow>
    0 < remaining \<Longrightarrow> \<forall>(_, a) \<in> set levels. 0 < a \<Longrightarrow>
    s = (let es = best_fills remaining (crossing_levels price crosses levels) in
      (remaining - filled_units es, notional + notional_units es,
       fills @ numbered_fills side (length fills + 1) es))"
proof (induction levels arbitrary: remaining notional fills)
  case Nil
  then show ?case by (simp add: crossing_levels_def numbered_fills_def)
next
  case (Cons l levels)
  obtain source available where l: "l = (source, available)" by fastforce
  from Cons.prems(1) have x: "execution source = Inr (price source)"
    using assms by (auto simp: l bindE_eq_Inr)
  show ?case
  proof (cases "crosses (price source)")
    case False
    with Cons x show ?thesis by (simp add: l crossing_levels_def)
  next
    case True
    define n where "n = min remaining available"
    have n: "0 < n" using Cons.prems by (simp add: l n_def)
    let ?f = "make_fill side (length fills + 1) (source, price source, n)"
    have es: "best_fills remaining (crossing_levels price crosses (l # levels)) =
        (source, price source, n) # best_fills (remaining - n) (crossing_levels price crosses levels)"
      using True Cons.prems(2) by (simp add: l crossing_levels_def n_def)
    show ?thesis
    proof (cases "remaining - n = 0")
      case True
      with Cons.prems(1) x n \<open>crosses (price source)\<close> show ?thesis
        unfolding es by (simp add: l numbered_fills_def flip: n_def)
    next
      case False
      with Cons.prems(1) x n \<open>crosses (price source)\<close>
      have run: "take_depth execution crosses side
          (remaining - n, notional + price source * n, fills @ [?f]) levels = Inr s"
        by (simp add: l flip: n_def)
      have "0 < remaining - n" using False by (simp add: n_def)
      from Cons.IH [OF run this] Cons.prems(3) show ?thesis
        unfolding es by (simp add: l numbered_fills_def Let_def algebra_simps)
    qed
  qed
qed

text \<open>As much as the order asks for, or all there is.\<close>

definition depth_units :: "(int \<times> int \<times> int) list \<Rightarrow> int" where
  "depth_units ls = (\<Sum>(_, _, a)\<leftarrow>ls. a)"

lemma best_fills_amount:
  "0 \<le> remaining \<Longrightarrow> \<forall>(_, _, a) \<in> set ls. 0 < a \<Longrightarrow>
     filled_units (best_fills remaining ls) = min remaining (depth_units ls)
     \<and> 0 \<le> depth_units ls"
proof (induction remaining ls rule: best_fills.induct)
  case (2 remaining source price available ls)
  show ?case
  proof (cases "remaining \<le> 0")
    case True
    moreover have "0 \<le> depth_units ls"
      using "2.prems"(2) unfolding depth_units_def by (intro sum_list_nonneg) auto
    ultimately show ?thesis using "2.prems" by (auto simp: depth_units_def)
  next
    case False
    with 2 show ?thesis by (auto simp: depth_units_def min_def)
  qed
qed (simp add: depth_units_def)

lemma best_fills_entries:
  "0 \<le> remaining \<Longrightarrow> \<forall>(_, _, a) \<in> set ls. 0 < a \<Longrightarrow> (s, p, n) \<in> set (best_fills remaining ls) \<Longrightarrow>
     0 < n \<and> (\<exists>a. (s, p, a) \<in> set ls \<and> n \<le> a)"
  by (induction remaining ls rule: best_fills.induct) (force split: if_splits)+

section \<open>Best execution\<close>

text \<open>
  A price threshold certifies a greedy run over levels sorted by a key: the notional is what
  the threshold would charge, less what the better levels, all taken in full, save. The key is
  the price of a buy and the negated price of a sell.
\<close>

definition savings :: "int \<Rightarrow> (int \<times> int) list \<Rightarrow> int" where
  "savings t ks = (\<Sum>(k, a)\<leftarrow>ks. if k < t then (k - t) * a else 0)"

definition keyed :: "int \<Rightarrow> (int \<times> int \<times> int) list \<Rightarrow> (int \<times> int) list" where
  "keyed sign ls = map (\<lambda>(_, p, a). (sign * p, a)) ls"

lemma savings_Cons [simp]: "savings t ((k, a) # ks) = (if k < t then (k - t) * a else 0) + savings t ks"
  by (simp add: savings_def)

lemma savings_none: "\<forall>(k, _) \<in> set ks. t \<le> k \<Longrightarrow> savings t ks = 0"
  by (induction ks) (auto simp: savings_def)

lemma keyed_simps [simp]:
  "keyed sign [] = []" "keyed sign ((s, p, a) # ls) = (sign * p, a) # keyed sign ls"
  by (simp_all add: keyed_def)

lemma best_fills_threshold:
  "sorted (map fst (keyed sign ls)) \<Longrightarrow> \<forall>(k, a) \<in> set (keyed sign ls). b \<le> k \<Longrightarrow>
     \<exists>t \<ge> b. sign * notional_units (best_fills remaining ls) =
       t * filled_units (best_fills remaining ls) + savings t (keyed sign ls)"
proof (induction remaining ls arbitrary: b rule: best_fills.induct)
  case (1 remaining)
  show ?case by (auto simp: savings_def)
next
  case (2 remaining s p a ls)
  have least: "\<forall>(k, _) \<in> set (keyed sign ls). sign * p \<le> k"
    using "2.prems"(1) by (auto simp: image_iff)
  consider "remaining \<le> 0" | "0 < remaining" "remaining \<le> a" | "0 < remaining" "a < remaining" by linarith
  then show ?case
  proof cases
    case 1
    then show ?thesis using savings_none [OF "2.prems"(2)] by auto
  next
    case 2
    then have "best_fills remaining ((s, p, a) # ls) = [(s, p, remaining)]" by simp
    moreover have "savings (sign * p) (keyed sign ls) = 0" by (rule savings_none [OF least])
    moreover have "b \<le> sign * p" using "2.prems"(2) by simp
    ultimately show ?thesis by (intro exI [of _ "sign * p"]) (simp add: algebra_simps)
  next
    case 3
    then have n: "min remaining a = a" by simp
    let ?es = "best_fills (remaining - a) ls"
    obtain t where t: "sign * p \<le> t"
      "sign * notional_units ?es = t * filled_units ?es + savings t (keyed sign ls)"
      using "2.IH" [of "sign * p"] least "2.prems"(1) 3 n by auto
    moreover have "b \<le> sign * p" using "2.prems"(2) by simp
    ultimately show ?thesis
      using 3 n by (intro exI [of _ t]) (auto simp: algebra_simps)
  qed
qed

text \<open>Any other way to take as much from the same levels does not beat the threshold.\<close>

definition allocation :: "(rat \<Rightarrow> bool) \<Rightarrow> (rat \<times> rat) list \<Rightarrow> rat list \<Rightarrow> bool" where
  "allocation acceptable depth xs =
     list_all2 (\<lambda>(p, q) x. 0 \<le> x \<and> x \<le> q \<and> (x = 0 \<or> acceptable p)) depth xs"

definition cost :: "(rat \<times> rat) list \<Rightarrow> rat list \<Rightarrow> rat" where
  "cost depth xs = (\<Sum>((p, _), x)\<leftarrow>zip depth xs. p * x)"

lemma cost_Cons [simp]: "cost ((p, q) # depth) (x # xs) = p * x + cost depth xs"
  by (simp add: cost_def)

lemma allocation_amount:
  "allocation acceptable depth xs \<Longrightarrow> sum_list xs \<le> (\<Sum>(p, q)\<leftarrow>depth. if acceptable p then q else 0)"
  unfolding allocation_def by (induction rule: list_all2_induct) auto

lemma allocation_threshold:
  assumes "allocation acceptable depth xs"
  shows "t * sum_list xs + (\<Sum>(p, q)\<leftarrow>depth. if acceptable p \<and> sign * p < t then (sign * p - t) * q else 0)
    \<le> sign * cost depth xs"
  using assms unfolding allocation_def
proof (induction rule: list_all2_induct)
  case Nil
  show ?case by (simp add: cost_def)
next
  case (Cons l depth x xs)
  obtain p q where l: "l = (p, q)" by fastforce
  have "(if acceptable p \<and> sign * p < t then (sign * p - t) * q else 0) \<le> (sign * p - t) * x"
    using Cons(1) by (auto simp: l intro: mult_left_mono_neg)
  with Cons show ?case by (simp add: l algebra_simps)
qed

section \<open>From units to values\<close>

definition depth_of :: "(int \<Rightarrow> int) \<Rightarrow> (int \<times> int) list \<Rightarrow> (rat \<times> rat) list" where
  "depth_of price levels =
     map (\<lambda>(s, a). (of_int (price s) / 10 ^ price_scale, of_int a / 10 ^ quantity_scale)) levels"

lemma depth_of_sums:
  assumes "\<And>s. acceptable (of_int (price s) / 10 ^ price_scale) = crosses (price s)"
  shows "(\<Sum>(p, q)\<leftarrow>depth_of price levels. if acceptable p then q else 0)
      = of_int (\<Sum>(s, a)\<leftarrow>levels. if crosses (price s) then a else 0) / 10 ^ quantity_scale"
    and "(\<Sum>(p, q)\<leftarrow>depth_of price levels. if acceptable p \<and> of_int sign * p < of_int t / 10 ^ price_scale
        then (of_int sign * p - of_int t / 10 ^ price_scale) * q else 0)
      = of_int (\<Sum>(s, a)\<leftarrow>levels. if crosses (price s) \<and> sign * price s < t then (sign * price s - t) * a else 0)
        / 10 ^ (price_scale + quantity_scale)"
proof -
  have less: "of_int sign * of_int (price s) / 10 ^ price_scale < (of_int t / 10 ^ price_scale :: rat)
      \<longleftrightarrow> sign * price s < t" for s
    by (simp add: divide_less_cancel flip: of_int_mult)
  have "(of_int sign * of_int (price s) / 10 ^ price_scale - of_int t / 10 ^ price_scale) * of_int a / 10 ^ quantity_scale
      = (of_int ((sign * price s - t) * a) / 10 ^ (price_scale + quantity_scale) :: rat)" for s a
    by (simp add: power_add diff_divide_distrib left_diff_distrib)
  then show "(\<Sum>(p, q)\<leftarrow>depth_of price levels. if acceptable p then q else 0)
      = of_int (\<Sum>(s, a)\<leftarrow>levels. if crosses (price s) then a else 0) / 10 ^ quantity_scale"
    "(\<Sum>(p, q)\<leftarrow>depth_of price levels. if acceptable p \<and> of_int sign * p < of_int t / 10 ^ price_scale
        then (of_int sign * p - of_int t / 10 ^ price_scale) * q else 0)
      = of_int (\<Sum>(s, a)\<leftarrow>levels. if crosses (price s) \<and> sign * price s < t then (sign * price s - t) * a else 0)
        / 10 ^ (price_scale + quantity_scale)"
    unfolding depth_of_def
    by (induction levels) (auto simp: assms less add_divide_distrib simp del: of_int_mult of_int_diff)
qed

lemma sum_best_levels:
  "(\<Sum>x\<leftarrow>rev (sort levels). f x) = (\<Sum>x\<leftarrow>levels. f x)" for f :: "int \<times> int \<Rightarrow> int"
  by (metis mset_rev mset_sort mset_map sum_mset_sum_list)

lemma crossing_sums:
  "depth_units (crossing_levels price crosses ls) = (\<Sum>(s, a)\<leftarrow>ls. if crosses (price s) then a else 0)"
  "savings t (keyed sign (crossing_levels price crosses ls)) =
     (\<Sum>(s, a)\<leftarrow>ls. if crosses (price s) \<and> sign * price s < t then (sign * price s - t) * a else 0)"
  by (induction ls) (auto simp: depth_units_def savings_def crossing_levels_def)

lemma crossing_positive:
  "\<forall>(_, a) \<in> set ls. 0 < a \<Longrightarrow> \<forall>(_, _, a) \<in> set (crossing_levels price crosses ls). 0 < a"
  by (auto simp: crossing_levels_def split: if_splits)

lemma crossing_sorted:
  assumes "\<And>s s'. s \<le> s' \<Longrightarrow> sign * price s' \<le> sign * price s"
  shows "sorted_wrt (\<lambda>x y. fst y \<le> fst x) ls \<Longrightarrow>
    sorted (map fst (keyed sign (crossing_levels price crosses ls)))"
  by (induction ls) (force simp: crossing_levels_def keyed_def intro: assms split: if_splits)+

lemma best_levels_sorted: "sorted_wrt (\<lambda>x y. fst y \<le> fst x) (rev (sort levels))"
  for levels :: "(int \<times> int) list"
proof -
  have "sorted_wrt (\<lambda>x y. fst x \<le> fst y) (sort levels)"
    by (rule sorted_wrt_mono_rel [OF _ sorted_sort]) (auto simp: less_eq_prod_def)
  then show ?thesis by (simp add: sorted_wrt_rev)
qed

text \<open>The run of an order: its fills, and the certificate that they are the best ones.\<close>

lemma depth_run:
  assumes exec: "\<And>s x. execution s = Inr x \<Longrightarrow> x = price s"
    and mono: "\<And>s s'. s \<le> s' \<Longrightarrow> sign * price s' \<le> sign * price s"
    and pos: "0 < quantity" "\<forall>(_, a) \<in> set levels. 0 < a"
    and run: "take_depth execution crosses side (quantity, 0, []) (rev (sort levels)) = Inr (remaining, notional, fills)"
  obtains es t where "es = best_fills quantity (crossing_levels price crosses (rev (sort levels)))"
    and "fills = numbered_fills side 1 es" "remaining = quantity - filled_units es" "notional = notional_units es"
    and "filled_units es = min quantity (\<Sum>(s, a)\<leftarrow>levels. if crosses (price s) then a else 0)"
    and "sign * notional = t * filled_units es +
      (\<Sum>(s, a)\<leftarrow>levels. if crosses (price s) \<and> sign * price s < t then (sign * price s - t) * a else 0)"
proof -
  let ?ls = "crossing_levels price crosses (rev (sort levels))"
  define es where "es = best_fills quantity ?ls"
  have pos': "\<forall>(_, a) \<in> set (rev (sort levels)). 0 < a" using pos(2) by simp
  note es = take_depth_best [of execution price, OF exec run pos(1) pos', unfolded Let_def, folded es_def]
  have sorted: "sorted (map fst (keyed sign ?ls))"
    by (rule crossing_sorted [OF mono best_levels_sorted])
  have "\<exists>b. \<forall>(k, a) \<in> set (keyed sign ?ls). b \<le> k"
  proof (cases "keyed sign ?ls")
    case (Cons l ls)
    with sorted show ?thesis by (intro exI [of _ "fst l"]) auto
  qed simp
  then obtain b where "\<forall>(k, a) \<in> set (keyed sign ?ls). b \<le> k" ..
  from best_fills_threshold [OF sorted this] obtain t
    where "sign * notional_units es = t * filled_units es + savings t (keyed sign ?ls)"
    unfolding es_def by blast
  moreover have "filled_units es = min quantity (depth_units ?ls)"
    unfolding es_def using pos(1) best_fills_amount crossing_positive [OF pos'] by auto
  ultimately show thesis
    using that [OF es_def] es by (simp add: crossing_sums sum_best_levels)
qed

lemma depth_run_best:
  assumes exec: "\<And>s x. execution s = Inr x \<Longrightarrow> x = price s"
    and mono: "\<And>s s'. s \<le> s' \<Longrightarrow> sign * price s' \<le> sign * price s"
    and pos: "0 < quantity" "\<forall>(_, a) \<in> set levels. 0 < a"
    and run: "take_depth execution crosses side (quantity, 0, []) (rev (sort levels)) = Inr (remaining, notional, fills)"
    and accept: "\<And>s. acceptable (of_int (price s) / 10 ^ price_scale) = crosses (price s)"
    and other: "allocation acceptable (depth_of price levels) xs" "sum_list xs \<le> of_int quantity / 10 ^ quantity_scale"
  defines "filled \<equiv> (of_int (quantity - remaining) / 10 ^ quantity_scale :: rat)"
  shows "sum_list xs \<le> filled"
    and "sum_list xs = filled \<Longrightarrow>
      of_int sign * (of_int notional / 10 ^ (price_scale + quantity_scale)) \<le> of_int sign * cost (depth_of price levels) xs"
proof -
  obtain es t where es: "remaining = quantity - filled_units es"
    "filled_units es = min quantity (\<Sum>(s, a)\<leftarrow>levels. if crosses (price s) then a else 0)"
    "sign * notional = t * filled_units es +
      (\<Sum>(s, a)\<leftarrow>levels. if crosses (price s) \<and> sign * price s < t then (sign * price s - t) * a else 0)"
    by (rule depth_run [OF exec mono pos run])
  have "sum_list xs \<le> of_int (\<Sum>(s, a)\<leftarrow>levels. if crosses (price s) then a else 0) / 10 ^ quantity_scale"
    using allocation_amount [OF other(1)] unfolding depth_of_sums(1) [of acceptable price crosses, OF accept] .
  then show "sum_list xs \<le> filled"
    using other(2) by (simp add: filled_def es(1,2) min_def)
  assume eq: "sum_list xs = filled"
  let ?t = "of_int t / 10 ^ price_scale :: rat"
  let ?s = "\<Sum>(s, a)\<leftarrow>levels. if crosses (price s) \<and> sign * price s < t then (sign * price s - t) * a else 0"
  have "of_int sign * (of_int notional / 10 ^ (price_scale + quantity_scale))
      = (of_int (sign * notional) / 10 ^ (price_scale + quantity_scale) :: rat)" by simp
  also have "\<dots> = ?t * filled + of_int ?s / 10 ^ (price_scale + quantity_scale)"
    unfolding es(3) filled_def by (simp add: es(1) add_divide_distrib power_add)
  also have "\<dots> \<le> of_int sign * cost (depth_of price levels) xs"
    using allocation_threshold [OF other(1), of ?t "of_int sign"]
    unfolding eq depth_of_sums(2) [of acceptable price crosses, OF accept] .
  finally show "of_int sign * (of_int notional / 10 ^ (price_scale + quantity_scale))
    \<le> of_int sign * cost (depth_of price levels) xs" .
qed

section \<open>Orders against a book\<close>

definition buy_depth :: "paper_book \<Rightarrow> outcome \<Rightarrow> (rat \<times> rat) list" where
  "buy_depth book side =
     map (\<lambda>l. (1 - pval (pl_price l), pval (pl_quantity l))) (bids book (opposite side))"

definition sell_depth :: "paper_book \<Rightarrow> outcome \<Rightarrow> (rat \<times> rat) list" where
  "sell_depth book side = map (\<lambda>l. (pval (pl_price l), pval (pl_quantity l))) (bids book side)"

lemma validated_level_ok:
  assumes "validated_level ranges l = Inr (p, a)"
  shows "pval (pl_price l) = of_int p / 10 ^ price_scale" "pval (pl_quantity l) = of_int a / 10 ^ quantity_scale"
    and "0 < p" "p < 10 ^ price_scale" "0 < a"
  using assms to_scaled_int_units
  by (auto simp: validated_level_def bindE_eq_Inr split: if_splits)

lemma list_all2_mem: "list_all2 P xs ys \<Longrightarrow> y \<in> set ys \<Longrightarrow> \<exists>x \<in> set xs. P x y"
  by (induction rule: list_all2_induct) auto

lemma validated_levels:
  assumes "traverseE (validated_level ranges) ls = Inr levels"
  shows "\<forall>(s, a) \<in> set levels. 0 < s \<and> s < 10 ^ price_scale \<and> 0 < a"
    and "map (\<lambda>l. (pval (pl_price l), pval (pl_quantity l))) ls = depth_of (\<lambda>s. s) levels"
    and "map (\<lambda>l. (1 - pval (pl_price l), pval (pl_quantity l))) ls = depth_of (\<lambda>s. 10 ^ price_scale - s) levels"
proof -
  have all: "list_all2 (\<lambda>l x. validated_level ranges l = Inr x) ls levels"
    using assms by (simp add: traverseE_Inr_iff)
  show "\<forall>(s, a) \<in> set levels. 0 < s \<and> s < 10 ^ price_scale \<and> 0 < a"
    using all by (induction rule: list_all2_induct) (auto dest: validated_level_ok)
  show "map (\<lambda>l. (pval (pl_price l), pval (pl_quantity l))) ls = depth_of (\<lambda>s. s) levels"
    using all unfolding depth_of_def
    by (induction rule: list_all2_induct) (auto dest: validated_level_ok(1,2))
  show "map (\<lambda>l. (1 - pval (pl_price l), pval (pl_quantity l))) ls = depth_of (\<lambda>s. 10 ^ price_scale - s) levels"
    using all unfolding depth_of_def
    by (induction rule: list_all2_induct) (auto dest: validated_level_ok(1,2) simp: diff_divide_distrib)
qed

lemma order_units_ok:
  assumes "order_units name quantity price ranges = Inr (q, p)"
  shows "pval quantity = of_int q / 10 ^ quantity_scale" "pval price = of_int p / 10 ^ price_scale"
    and "0 < q" "0 < p" "p < 10 ^ price_scale"
  using assms to_scaled_int_units by (auto simp: order_units_def bindE_eq_Inr split: if_splits)

text \<open>The result, in terms of the loop's final state.\<close>

lemma ioc_result_Inr:
  assumes "ioc_result rs formula q levels (remaining, notional, fills) = Inr r"
  shows "px_requested_quantity r = from_scaled_int quantity_scale q"
    and "px_filled_quantity r = from_scaled_int quantity_scale (q - remaining)"
    and "px_remaining_quantity r = from_scaled_int quantity_scale remaining"
    and "px_notional r = from_scaled_int (price_scale + quantity_scale) notional"
    and "px_fills r = fills"
    and "px_status r = (if q - remaining = 0 then NoFill else if remaining = 0 then Filled else Partial)"
    and "px_average_fill_price r = (if q - remaining = 0 then None else average_price notional (q - remaining))"
  using assms
  by (auto simp: ioc_result_def Let_def bindE_eq_Inr split: if_splits option.splits)

lemma simulate_buy_run:
  assumes "simulate_buy_ioc book outc quantity limit_price ranges = Inr r" "outcome_of outc = Some side"
  obtains q limit levels remaining notional fills where
    "order_units ''limit_price'' quantity limit_price ranges = Inr (q, limit)"
    "traverseE (validated_level ranges) (bids book (opposite side)) = Inr levels"
    "take_depth (complementary_price ranges) (\<lambda>price. price \<le> limit) (opposite side) (q, 0, []) (rev (sort levels))
       = Inr (remaining, notional, fills)"
    "ioc_result buy_reasons ''kalshi-complementary-depth-ioc-v1'' q levels (remaining, notional, fills) = Inr r"
  using assms unfolding simulate_buy_ioc_def by (auto simp: bindE_eq_Inr)

lemma simulate_sell_run:
  assumes "simulate_sell_ioc book outc quantity minimum_price ranges = Inr r" "outcome_of outc = Some side"
  obtains q minimum levels remaining notional fills where
    "order_units ''minimum_price'' quantity minimum_price ranges = Inr (q, minimum)"
    "traverseE (validated_level ranges) (bids book side) = Inr levels"
    "take_depth Inr (\<lambda>price. minimum \<le> price) side (q, 0, []) (rev (sort levels))
       = Inr (remaining, notional, fills)"
    "ioc_result sell_reasons ''kalshi-owned-depth-sell-ioc-v1'' q levels (remaining, notional, fills) = Inr r"
  using assms unfolding simulate_sell_ioc_def by (auto simp: bindE_eq_Inr)

lemma complementary_price_Inr: "complementary_price ranges s = Inr x \<Longrightarrow> x = 10 ^ price_scale - s"
  by (auto simp: complementary_price_def bindE_eq_Inr split: if_splits)

text \<open>The fills are themselves one way to take the depth.\<close>

lemma best_fills_taken:
  "0 \<le> remaining \<Longrightarrow> \<forall>(_, a) \<in> set levels. 0 < a \<Longrightarrow>
     \<exists>ys. list_all2 (\<lambda>l y. l = fst y \<and> 0 \<le> snd y \<and> snd y \<le> snd l \<and> (snd y = 0 \<or> crosses (price (fst l)))) levels ys
       \<and> (\<Sum>(l, n)\<leftarrow>ys. n) = filled_units (best_fills remaining (crossing_levels price crosses levels))
       \<and> (\<Sum>(l, n)\<leftarrow>ys. price (fst l) * n) = notional_units (best_fills remaining (crossing_levels price crosses levels))"
proof (induction levels arbitrary: remaining)
  case Nil
  show ?case by (simp add: crossing_levels_def)
next
  case (Cons l levels)
  obtain s a where l: "l = (s, a)" by fastforce
  define n where "n = (if crosses (price s) then min remaining a else 0)"
  have n: "0 \<le> n" "n \<le> a" "n \<le> remaining" "n = 0 \<or> crosses (price s)"
    using Cons.prems by (auto simp: n_def l)
  have "0 \<le> remaining - n" "\<forall>(_, a) \<in> set levels. 0 < a" using n Cons.prems by simp_all
  from Cons.IH [OF this] obtain ys where ys:
    "list_all2 (\<lambda>l y. l = fst y \<and> 0 \<le> snd y \<and> snd y \<le> snd l \<and> (snd y = 0 \<or> crosses (price (fst l)))) levels ys"
    "(\<Sum>(l, n)\<leftarrow>ys. n) = filled_units (best_fills (remaining - n) (crossing_levels price crosses levels))"
    "(\<Sum>(l, n)\<leftarrow>ys. price (fst l) * n) = notional_units (best_fills (remaining - n) (crossing_levels price crosses levels))"
    by blast
  have "0 < a" using Cons.prems by (simp add: l)
  then show ?case
    using ys n by (intro exI [of _ "(l, n) # ys"]) (cases "remaining = 0", auto simp: l n_def crossing_levels_def)
qed

lemma taken_allocation:
  assumes "list_all2 (\<lambda>l y. l = fst y \<and> 0 \<le> snd y \<and> snd y \<le> snd l \<and> (snd y = 0 \<or> crosses (price (fst l)))) levels ys"
    and accept: "\<And>s. acceptable (of_int (price s) / 10 ^ price_scale) = crosses (price s)"
  defines "xs \<equiv> map (\<lambda>(_, n). of_int n / 10 ^ quantity_scale) ys"
  shows "allocation acceptable (depth_of price levels) xs"
    and "sum_list xs = of_int (\<Sum>(l, n)\<leftarrow>ys. n) / 10 ^ quantity_scale"
    and "cost (depth_of price levels) xs
      = of_int (\<Sum>(l, n)\<leftarrow>ys. price (fst l) * n) / 10 ^ (price_scale + quantity_scale)"
proof -
  have "allocation acceptable (depth_of price levels) (map (\<lambda>(_, n). of_int n / 10 ^ quantity_scale) ys)
    \<and> sum_list (map (\<lambda>(_, n). of_int n / 10 ^ quantity_scale) ys) = (of_int (\<Sum>(l, n)\<leftarrow>ys. n) / 10 ^ quantity_scale :: rat)
    \<and> cost (depth_of price levels) (map (\<lambda>(_, n). of_int n / 10 ^ quantity_scale) ys)
      = of_int (\<Sum>(l, n)\<leftarrow>ys. price (fst l) * n) / 10 ^ (price_scale + quantity_scale)"
    using assms(1)
  proof (induction rule: list_all2_induct)
    case Nil
    show ?case by (simp add: allocation_def depth_of_def cost_def)
  next
    case (Cons l levels y ys)
    obtain s a n where "y = ((s, a), n)" by (metis prod.exhaust)
    with Cons(1) have "l = (s, a)" "y = ((s, a), n)" "0 \<le> n" "n \<le> a" "n = 0 \<or> crosses (price s)" by auto
    with Cons show ?case
      by (auto simp: allocation_def depth_of_def accept add_divide_distrib power_add divide_le_cancel)
  qed
  then show "allocation acceptable (depth_of price levels) xs"
    "sum_list xs = of_int (\<Sum>(l, n)\<leftarrow>ys. n) / 10 ^ quantity_scale"
    "cost (depth_of price levels) xs
      = of_int (\<Sum>(l, n)\<leftarrow>ys. price (fst l) * n) / 10 ^ (price_scale + quantity_scale)"
    by (simp_all add: xs_def)
qed

lemma fills_allocation:
  assumes "0 \<le> remaining" "\<forall>(_, a) \<in> set levels. 0 < a"
    and accept: "\<And>s. acceptable (of_int (price s) / 10 ^ price_scale) = crosses (price s)"
    and es: "es = best_fills remaining (crossing_levels price crosses (rev (sort levels)))"
  shows "\<exists>xs. allocation acceptable (depth_of price levels) xs
    \<and> sum_list xs = of_int (filled_units es) / 10 ^ quantity_scale
    \<and> cost (depth_of price levels) xs = of_int (notional_units es) / 10 ^ (price_scale + quantity_scale)"
proof -
  let ?R = "\<lambda>l y. l = fst y \<and> 0 \<le> snd y \<and> snd y \<le> snd l \<and> (snd y = 0 \<or> crosses (price (fst l)))"
  have "\<forall>(_, a) \<in> set (rev (sort levels)). 0 < a" using assms(2) by simp
  from best_fills_taken [OF assms(1) this] obtain ys where ys: "list_all2 ?R (rev (sort levels)) ys"
    "(\<Sum>(l, n)\<leftarrow>ys. n) = filled_units es" "(\<Sum>(l, n)\<leftarrow>ys. price (fst l) * n) = notional_units es"
    unfolding es by blast
  have "mset levels = mset (rev (sort levels))" by simp
  from list_all2_reorder_left_invariance [OF ys(1) this] obtain zs
    where zs: "list_all2 ?R levels zs" "mset zs = mset ys" by blast
  have sums: "(\<Sum>y\<leftarrow>zs. f y) = (\<Sum>y\<leftarrow>ys. f y)" for f :: "(int \<times> int) \<times> int \<Rightarrow> int"
    using zs(2) by (metis mset_map sum_mset_sum_list)
  show ?thesis
    using taken_allocation [of crosses price levels zs acceptable, OF zs(1) accept]
    unfolding sums ys(2,3) by blast
qed

section \<open>The account of an order\<close>

definition fills_account :: "paper_fill_result \<Rightarrow> bool" where
  "fills_account r =
     (dval (px_filled_quantity r) + dval (px_remaining_quantity r) = dval (px_requested_quantity r)
      \<and> 0 \<le> dval (px_filled_quantity r) \<and> 0 \<le> dval (px_remaining_quantity r)
      \<and> (\<Sum>f\<leftarrow>px_fills r. dval (pf_quantity f)) = dval (px_filled_quantity r)
      \<and> (\<Sum>f\<leftarrow>px_fills r. dval (pf_price f) * dval (pf_quantity f)) = dval (px_notional r)
      \<and> list_all (\<lambda>f. 0 < dval (pf_quantity f)
          \<and> dval (pf_notional f) = dval (pf_price f) * dval (pf_quantity f)) (px_fills r)
      \<and> map pf_sequence (px_fills r) = [1 ..< Suc (length (px_fills r))]
      \<and> (px_status r = NoFill) = (dval (px_filled_quantity r) = 0)
      \<and> (px_status r = Filled) = (dval (px_remaining_quantity r) = 0))"

lemma numbered_fills_sums:
  "(\<Sum>f\<leftarrow>numbered_fills side k es. dval (pf_quantity f)) = of_int (filled_units es) / 10 ^ quantity_scale"
  "(\<Sum>f\<leftarrow>numbered_fills side k es. dval (pf_price f) * dval (pf_quantity f))
     = of_int (notional_units es) / 10 ^ (price_scale + quantity_scale)"
  "map pf_sequence (numbered_fills side k es) = [k ..< k + length es]"
  "length (numbered_fills side k es) = length es"
  by (induction es arbitrary: k)
    (auto simp: numbered_fills_def make_fill_def add_divide_distrib power_add upt_rec)

lemma numbered_fills_mem:
  assumes "f \<in> set (numbered_fills side k es)"
  shows "\<exists>i s p n. (s, p, n) \<in> set es \<and> f = make_fill side i (s, p, n)"
proof -
  obtain i e where ie: "(i, e) \<in> set (enumerate k es)" "f = make_fill side i e"
    using assms by (auto simp: numbered_fills_def)
  have "e \<in> snd ` set (enumerate k es)" by (rule image_eqI [OF _ ie(1)]) simp
  then have "e \<in> set (map snd (enumerate k es))" by (simp only: set_map)
  then have "e \<in> set es" by simp
  then show ?thesis using ie(2) by (metis prod_cases3)
qed

lemma depth_run_account:
  assumes es: "es = best_fills q (crossing_levels price crosses ls)" "fills = numbered_fills side 1 es"
      "remaining = q - filled_units es" "notional = notional_units es"
    and pos: "0 < q" "\<forall>(_, a) \<in> set ls. 0 < a"
    and res: "ioc_result rs formula q levels (remaining, notional, fills) = Inr r"
  shows "fills_account r"
    and "f \<in> set fills \<Longrightarrow> \<exists>s a n i. (s, a) \<in> set ls \<and> crosses (price s) \<and> 0 < n \<and> n \<le> a
      \<and> f = make_fill side i (s, price s, n)"
proof -
  note pos' = crossing_positive [OF pos(2), of price crosses]
  have amount: "0 \<le> filled_units es" "filled_units es \<le> q"
    using best_fills_amount [of q] pos(1) pos' by (auto simp: es(1))
  have entry: "\<exists>s a n i. (s, a) \<in> set ls \<and> crosses (price s) \<and> 0 < n \<and> n \<le> a \<and> f = make_fill side i (s, price s, n)"
    if "f \<in> set fills" for f
  proof -
    obtain i s p n where f: "(s, p, n) \<in> set es" "f = make_fill side i (s, p, n)"
      using numbered_fills_mem \<open>f \<in> set fills\<close> es(2) by blast
    obtain a where a: "0 < n" "(s, p, a) \<in> set (crossing_levels price crosses ls)" "n \<le> a"
      using best_fills_entries [of q] pos(1) pos' f(1) unfolding es(1) by (meson order_less_imp_le)
    then have "(s, a) \<in> set ls" "p = price s" "crosses p"
      by (auto simp: crossing_levels_def split: if_splits)
    with a f show ?thesis by blast
  qed
  then show "f \<in> set fills \<Longrightarrow> \<exists>s a n i. (s, a) \<in> set ls \<and> crosses (price s) \<and> 0 < n \<and> n \<le> a
      \<and> f = make_fill side i (s, price s, n)" .
  have each: "\<forall>f \<in> set fills. 0 < dval (pf_quantity f) \<and> dval (pf_notional f) = dval (pf_price f) * dval (pf_quantity f)"
    using entry by (fastforce simp: make_fill_def power_add)
  show "fills_account r"
    using amount each pos(1) numbered_fills_sums [of side 1 es]
    unfolding fills_account_def ioc_result_Inr [OF res]
    by (simp add: es(2-4) list_all_iff add_divide_distrib [symmetric] flip: of_int_add)
qed

section \<open>Properties of the simulated orders\<close>

text \<open>
  C18: a buy executes at the best prices. Whatever other way there is to take displayed depth
  within the limit price and the quantity of the order, in any fractions, it takes no more than
  the simulation does; and if it takes as much, it costs at least as much.
\<close>

theorem buy_is_best_execution:
  assumes "simulate_buy_ioc book outc quantity limit_price ranges = Inr r" "outcome_of outc = Some side"
    and "allocation (\<lambda>p. p \<le> pval limit_price) (buy_depth book side) xs" "sum_list xs \<le> pval quantity"
  shows "sum_list xs \<le> dval (px_filled_quantity r) \<and>
    (sum_list xs = dval (px_filled_quantity r) \<longrightarrow> dval (px_notional r) \<le> cost (buy_depth book side) xs)"
proof (rule simulate_buy_run [OF assms(1,2)])
  fix q limit levels remaining notional fills
  assume order: "order_units ''limit_price'' quantity limit_price ranges = Inr (q, limit)"
    and levels: "traverseE (validated_level ranges) (bids book (opposite side)) = Inr levels"
    and run: "take_depth (complementary_price ranges) (\<lambda>price. price \<le> limit) (opposite side) (q, 0, [])
       (rev (sort levels)) = Inr (remaining, notional, fills)"
    and res: "ioc_result buy_reasons ''kalshi-complementary-depth-ioc-v1'' q levels (remaining, notional, fills) = Inr r"
  note q = order_units_ok [OF order]
  have depth: "buy_depth book side = depth_of (\<lambda>s. 10 ^ price_scale - s) levels"
    using validated_levels(3) [OF levels] by (simp add: buy_depth_def)
  have pos: "\<forall>(_, a) \<in> set levels. 0 < a" using validated_levels(1) [OF levels] by auto
  have accept: "of_int (10 ^ price_scale - s) / 10 ^ price_scale \<le> pval limit_price
      \<longleftrightarrow> 10 ^ price_scale - s \<le> limit" for s
    unfolding q(2) divide_le_cancel by (simp only: of_int_le_iff) simp
  note best = depth_run_best [where sign = 1 and price = "\<lambda>s. 10 ^ price_scale - s"
      and acceptable = "\<lambda>p. p \<le> pval limit_price",
      OF complementary_price_Inr _ q(3) pos run accept assms(3,4) [unfolded depth q(1)]]
  show ?thesis
    using best ioc_result_Inr [OF res] by (simp add: depth)
qed

text \<open>
  a sell executes at the best prices, dually: no other way to use the owned side's depth
  at or above the minimum price sells more, and none that sells as much earns more.
\<close>

theorem sell_is_best_execution:
  assumes "simulate_sell_ioc book outc quantity minimum_price ranges = Inr r" "outcome_of outc = Some side"
    and "allocation (\<lambda>p. pval minimum_price \<le> p) (sell_depth book side) xs" "sum_list xs \<le> pval quantity"
  shows "sum_list xs \<le> dval (px_filled_quantity r) \<and>
    (sum_list xs = dval (px_filled_quantity r) \<longrightarrow> cost (sell_depth book side) xs \<le> dval (px_notional r))"
proof (rule simulate_sell_run [OF assms(1,2)])
  fix q minimum levels remaining notional fills
  assume order: "order_units ''minimum_price'' quantity minimum_price ranges = Inr (q, minimum)"
    and levels: "traverseE (validated_level ranges) (bids book side) = Inr levels"
    and run: "take_depth Inr (\<lambda>price. minimum \<le> price) side (q, 0, [])
       (rev (sort levels)) = Inr (remaining, notional, fills)"
    and res: "ioc_result sell_reasons ''kalshi-owned-depth-sell-ioc-v1'' q levels (remaining, notional, fills) = Inr r"
  note q = order_units_ok [OF order]
  have depth: "sell_depth book side = depth_of (\<lambda>s. s) levels"
    using validated_levels(2) [OF levels] by (simp add: sell_depth_def)
  have pos: "\<forall>(_, a) \<in> set levels. 0 < a" using validated_levels(1) [OF levels] by auto
  have accept: "pval minimum_price \<le> of_int s / 10 ^ price_scale \<longleftrightarrow> minimum \<le> s" for s
    unfolding q(2) divide_le_cancel by (simp only: of_int_le_iff) simp
  note best = depth_run_best [where sign = "-1" and price = "\<lambda>s. s"
      and acceptable = "\<lambda>p. pval minimum_price \<le> p",
      OF _ _ q(3) pos run accept assms(3,4) [unfolded depth q(1)]]
  show ?thesis
    using best ioc_result_Inr [OF res] by (simp add: depth)
qed

text \<open>The level of a book a fill came from.\<close>

definition taken_from :: "paper_book_level list \<Rightarrow> paper_fill \<Rightarrow> bool" where
  "taken_from ls f = list_ex (\<lambda>l. pval (pl_price l) = dval (pf_source_bid_price f)
     \<and> dval (pf_quantity f) \<le> pval (pl_quantity l)) ls"

lemma taken_fromI:
  assumes "list_all2 (\<lambda>l x. validated_level ranges l = Inr x) ls levels" "(s, a) \<in> set levels" "n \<le> a"
  shows "taken_from ls (make_fill side i (s, p, n))"
proof -
  obtain l where "l \<in> set ls" "validated_level ranges l = Inr (s, a)"
    using list_all2_mem [OF assms(1,2)] by blast
  then show ?thesis
    using validated_level_ok [of ranges l s a] assms(3)
    by (auto simp: taken_from_def list_ex_iff make_fill_def divide_le_cancel intro!: bexI [of _ l])
qed

text \<open>
  C19: the account of a buy. The filled and the remaining quantity add up to the requested one;
  the fills add up to the filled quantity and, at their prices, to the notional; they are
  numbered from one, each within the limit price, each at the complement of the bid of the
  other outcome it consumes, no larger than that bid; together they are one way to take the
  displayed depth; and the status says what happened.
\<close>

theorem buy_account_balances:
  assumes "simulate_buy_ioc book outc quantity limit_price ranges = Inr r" "outcome_of outc = Some side"
  shows "fills_account r \<and> dval (px_requested_quantity r) = pval quantity
    \<and> list_all (\<lambda>f. dval (pf_price f) + dval (pf_source_bid_price f) = 1 \<and> dval (pf_price f) \<le> pval limit_price
        \<and> pf_source_side f = opposite side \<and> taken_from (bids book (opposite side)) f) (px_fills r)
    \<and> (\<exists>xs. allocation (\<lambda>p. p \<le> pval limit_price) (buy_depth book side) xs
        \<and> sum_list xs = dval (px_filled_quantity r) \<and> cost (buy_depth book side) xs = dval (px_notional r))"
proof (rule simulate_buy_run [OF assms])
  fix q limit levels remaining notional fills
  assume order: "order_units ''limit_price'' quantity limit_price ranges = Inr (q, limit)"
    and levels: "traverseE (validated_level ranges) (bids book (opposite side)) = Inr levels"
    and run: "take_depth (complementary_price ranges) (\<lambda>price. price \<le> limit) (opposite side) (q, 0, [])
       (rev (sort levels)) = Inr (remaining, notional, fills)"
    and res: "ioc_result buy_reasons ''kalshi-complementary-depth-ioc-v1'' q levels (remaining, notional, fills) = Inr r"
  note q = order_units_ok [OF order]
  have pos: "\<forall>(_, a) \<in> set levels. 0 < a" "\<forall>(_, a) \<in> set (rev (sort levels)). 0 < a"
    using validated_levels(1) [OF levels] by auto
  have depth: "buy_depth book side = depth_of (\<lambda>s. 10 ^ price_scale - s) levels"
    using validated_levels(3) [OF levels] by (simp add: buy_depth_def)
  have accept: "of_int (10 ^ price_scale - s) / 10 ^ price_scale \<le> pval limit_price
      \<longleftrightarrow> 10 ^ price_scale - s \<le> limit" for s
    unfolding q(2) divide_le_cancel by (simp only: of_int_le_iff) simp
  obtain es where es: "es = best_fills q (crossing_levels (\<lambda>s. 10 ^ price_scale - s) (\<lambda>p. p \<le> limit) (rev (sort levels)))"
    "fills = numbered_fills (opposite side) 1 es" "remaining = q - filled_units es" "notional = notional_units es"
    by (rule depth_run [where sign = 1, OF complementary_price_Inr _ q(3) pos(1) run]) auto
  note account = depth_run_account [OF es q(3) pos(2) res]
  have all: "list_all2 (\<lambda>l x. validated_level ranges l = Inr x) (bids book (opposite side)) levels"
    using levels by (simp add: traverseE_Inr_iff)
  have each: "dval (pf_price f) + dval (pf_source_bid_price f) = 1 \<and> dval (pf_price f) \<le> pval limit_price
      \<and> pf_source_side f = opposite side \<and> taken_from (bids book (opposite side)) f" if "f \<in> set fills" for f
  proof -
    obtain s a n i where f: "(s, a) \<in> set levels" "10 ^ price_scale - s \<le> limit" "n \<le> a"
      "f = make_fill (opposite side) i (s, 10 ^ price_scale - s, n)"
      using account(2) [OF \<open>f \<in> set fills\<close>] by auto
    then show ?thesis
      using taken_fromI [OF all f(1,3)] accept [of s] by (simp add: make_fill_def diff_divide_distrib)
  qed
  have "\<exists>xs. allocation (\<lambda>p. p \<le> pval limit_price) (buy_depth book side) xs
      \<and> sum_list xs = of_int (filled_units es) / 10 ^ quantity_scale
      \<and> cost (buy_depth book side) xs = of_int (notional_units es) / 10 ^ (price_scale + quantity_scale)"
    unfolding depth by (rule fills_allocation [OF _ pos(1) accept es(1)]) (use q(3) in simp)
  then show ?thesis
    using account(1) each ioc_result_Inr [OF res] es(3,4) by (simp add: q(1) list_all_iff)
qed

text \<open>
  the account of a sell. As for a buy, with every fill at the price of the owned bid it
  consumes, at or above the minimum price.
\<close>

theorem sell_account_balances:
  assumes "simulate_sell_ioc book outc quantity minimum_price ranges = Inr r" "outcome_of outc = Some side"
  shows "fills_account r \<and> dval (px_requested_quantity r) = pval quantity
    \<and> list_all (\<lambda>f. dval (pf_price f) = dval (pf_source_bid_price f) \<and> pval minimum_price \<le> dval (pf_price f)
        \<and> pf_source_side f = side \<and> taken_from (bids book side) f) (px_fills r)
    \<and> (\<exists>xs. allocation (\<lambda>p. pval minimum_price \<le> p) (sell_depth book side) xs
        \<and> sum_list xs = dval (px_filled_quantity r) \<and> cost (sell_depth book side) xs = dval (px_notional r))"
proof (rule simulate_sell_run [OF assms])
  fix q minimum levels remaining notional fills
  assume order: "order_units ''minimum_price'' quantity minimum_price ranges = Inr (q, minimum)"
    and levels: "traverseE (validated_level ranges) (bids book side) = Inr levels"
    and run: "take_depth Inr (\<lambda>price. minimum \<le> price) side (q, 0, [])
       (rev (sort levels)) = Inr (remaining, notional, fills)"
    and res: "ioc_result sell_reasons ''kalshi-owned-depth-sell-ioc-v1'' q levels (remaining, notional, fills) = Inr r"
  note q = order_units_ok [OF order]
  have pos: "\<forall>(_, a) \<in> set levels. 0 < a" "\<forall>(_, a) \<in> set (rev (sort levels)). 0 < a"
    using validated_levels(1) [OF levels] by auto
  have depth: "sell_depth book side = depth_of (\<lambda>s. s) levels"
    using validated_levels(2) [OF levels] by (simp add: sell_depth_def)
  have accept: "pval minimum_price \<le> of_int s / 10 ^ price_scale \<longleftrightarrow> minimum \<le> s" for s
    unfolding q(2) divide_le_cancel by (simp only: of_int_le_iff) simp
  obtain es where es: "es = best_fills q (crossing_levels (\<lambda>s. s) (\<lambda>p. minimum \<le> p) (rev (sort levels)))"
    "fills = numbered_fills side 1 es" "remaining = q - filled_units es" "notional = notional_units es"
    by (rule depth_run [where sign = "-1" and price = "\<lambda>s. s", OF _ _ q(3) pos(1) run]) auto
  note account = depth_run_account [OF es q(3) pos(2) res]
  have all: "list_all2 (\<lambda>l x. validated_level ranges l = Inr x) (bids book side) levels"
    using levels by (simp add: traverseE_Inr_iff)
  have each: "dval (pf_price f) = dval (pf_source_bid_price f) \<and> pval minimum_price \<le> dval (pf_price f)
      \<and> pf_source_side f = side \<and> taken_from (bids book side) f" if "f \<in> set fills" for f
  proof -
    obtain s a n i where f: "(s, a) \<in> set levels" "minimum \<le> s" "n \<le> a"
      "f = make_fill side i (s, s, n)"
      using account(2) [OF \<open>f \<in> set fills\<close>] by auto
    then show ?thesis
      using taken_fromI [OF all f(1,3)] accept [of s] by (simp add: make_fill_def)
  qed
  have "\<exists>xs. allocation (\<lambda>p. pval minimum_price \<le> p) (sell_depth book side) xs
      \<and> sum_list xs = of_int (filled_units es) / 10 ^ quantity_scale
      \<and> cost (sell_depth book side) xs = of_int (notional_units es) / 10 ^ (price_scale + quantity_scale)"
    unfolding depth by (rule fills_allocation [OF _ pos(1) accept es(1)]) (use q(3) in simp)
  moreover have "list_all (\<lambda>f. dval (pf_price f) = dval (pf_source_bid_price f) \<and> pval minimum_price \<le> dval (pf_price f)
      \<and> pf_source_side f = side \<and> taken_from (bids book side) f) (px_fills r)"
    unfolding list_all_iff ioc_result_Inr(5) [OF res] using each by blast
  ultimately show ?thesis
    using account(1) ioc_result_Inr [OF res] es(3,4) by (simp add: q(1))
qed

end
