(* ===== verification/PaperAverage.thy ===== *)
theory PaperAverage
  imports PaperMatching
begin

text \<open>
  The average price of a simulated order, how far it is from the exact quotient, and which
  orders the simulation takes at all; with a sample book for the concrete instances.
\<close>

section \<open>The average price\<close>

lemma dec_div_Some: "dcoef b \<noteq> 0 \<Longrightarrow> \<exists>q. dec_div p a b = Some q"
  by (auto simp: dec_div_def Let_def split: prod.split)

lemma dval_pos: "0 < dval d \<Longrightarrow> \<not> dsign d \<and> 0 < dcoef d"
  using dval_nonneg_iff [of d] dval_zero_iff [of d] by (auto simp: dnum_def split: if_splits)

lemma dec_rescale_dexp [simp]: "dexp (dec_rescale d e) = e"
  by (simp add: dec_rescale_def)

text \<open>Two divisions and a quantization of a price of at most one lose less than one unit of the last place.\<close>

lemma average_price_exact:
  assumes pos: "0 < notional" "0 < filled" and le: "notional \<le> filled * 10 ^ price_scale"
  defines "y \<equiv> (of_int notional / of_int filled / 10 ^ price_scale :: rat)"
  shows "\<exists>a. average_price notional filled = Some a \<and> dexp a = - int money_scale
    \<and> \<bar>dval a - y\<bar> < 1 / 10 ^ money_scale"
proof -
  define p where "p = max 50 (ndigits (nat \<bar>notional\<bar>) + ndigits (nat \<bar>filled\<bar>) + 20)"
  define h where "h = (1::rat) / 10 ^ (p - 1)"
  have p: "50 \<le> p" by (simp add: p_def)
  then have "(10::rat) ^ 49 \<le> 10 ^ (p - 1)" by (intro power_increasing) auto
  then have h: "0 < h" "h \<le> 1 / 10 ^ 49" by (simp_all add: h_def frac_le)
  then have h1: "h \<le> 1" by (simp add: order.trans)
  let ?n = "dec_of_int notional" and ?f = "dec_of_int filled" and ?m = "dec_of_int (10 ^ price_scale)"
  have ok: "\<not> dsign ?n" "\<not> dsign ?f" "\<not> dsign ?m" "0 < dcoef ?n" "dcoef ?f \<noteq> 0" "dcoef ?m \<noteq> 0"
    using pos by (simp_all add: dec_of_int_def price_scale_def)
  obtain q where q: "dec_div p ?n ?f = Some q" using dec_div_Some [OF ok(5)] by blast
  let ?x = "of_int notional / of_int filled :: rat"
  have e1: "\<bar>dval q - ?x\<bar> \<le> ?x * h"
    using dec_div_error [OF q _ ok(1,2,4)] p by (simp add: h_def)
  have x: "0 < ?x" using pos by simp
  have y: "?x / 10 ^ price_scale = y" "0 < y" "y \<le> 1"
    using pos le by (simp_all add: y_def divide_le_eq mult.commute flip: of_int_le_iff [where 'a = rat])
  have "h < 1" by (rule le_less_trans [OF h(2)]) simp
  then have "?x * h < ?x * 1" by (rule mult_strict_left_mono [OF _ x])
  then have "0 < dval q" using e1 by linarith
  then have "\<not> dsign q" "0 < dcoef q" using dval_pos by auto
  obtain raw where raw: "dec_div p q ?m = Some raw" using dec_div_Some [OF ok(6)] by blast
  have "\<bar>dval raw - dval q / 10 ^ price_scale\<bar> \<le> dval q / 10 ^ price_scale * h"
    using dec_div_error [OF raw _ \<open>\<not> dsign q\<close> ok(3) \<open>0 < dcoef q\<close>] p by (simp add: h_def)
  moreover have e2: "\<bar>dval q / 10 ^ price_scale - y\<bar> \<le> y * h"
  proof -
    have "\<bar>dval q / 10 ^ price_scale - y\<bar> = \<bar>dval q - ?x\<bar> / 10 ^ price_scale"
      by (simp add: y(1) [symmetric] diff_divide_distrib [symmetric] del: divide_divide_eq_left)
    also have "\<dots> \<le> ?x * h / 10 ^ price_scale" by (rule divide_right_mono [OF e1]) simp
    finally show ?thesis by (simp add: y(1) [symmetric] mult.commute)
  qed
  moreover have "y * h \<le> h" using y h by (simp add: mult_le_cancel_right1)
  moreover have "dval q / 10 ^ price_scale * h \<le> 2 * h"
    using e2 \<open>y * h \<le> h\<close> y(3) h1 h(1) by (intro mult_right_mono) linarith+
  ultimately have e3: "\<bar>dval raw - y\<bar> \<le> 3 * h" by linarith
  define r where "r = dec_rescale raw (- int money_scale)"
  define u where "u = (1::rat) / 10 ^ money_scale"
  have u: "u \<le> 1" "(10::rat) powi (- int money_scale) = u"
    by (simp_all add: u_def power_int_minus inverse_eq_divide)
  then have e4: "\<bar>dval r - dval raw\<bar> \<le> u / 2"
    using dec_rescale_error [of raw "- int money_scale"] by (simp add: r_def)
  have tiny: "3 * h < u / 2" using h(2) by (simp add: u_def money_scale_def)
  have near: "\<bar>dval r - y\<bar> < u" using e3 e4 tiny by linarith
  then have "\<bar>dval r\<bar> \<le> 2" using y(2,3) u(1) by linarith
  then have "of_nat (dcoef r) / (10::rat) ^ money_scale \<le> 2"
    by (simp add: dval_abs r_def power_int_minus inverse_eq_divide)
  then have "(of_nat (dcoef r) :: rat) \<le> of_nat (2 * 10 ^ money_scale)" by (simp add: divide_le_eq)
  then have "dcoef r \<le> 2 * 10 ^ money_scale" by (simp only: of_nat_le_iff)
  also have "2 * 10 ^ money_scale < (10::nat) ^ 50" by (simp add: money_scale_def)
  also have "(10::nat) ^ 50 \<le> 10 ^ p" using p by (intro power_increasing) auto
  finally have "ndigits (dcoef r) \<le> p" using p by (simp add: ndigits_le_iff)
  then have "average_price notional filled = Some r"
    using q raw by (simp add: average_price_def Let_def dec_quantize_def flip: p_def r_def)
  then show ?thesis using near by (simp add: r_def u_def)
qed


lemma units_between:
  "\<forall>(s, p, n) \<in> set es. 0 < n \<and> 0 < p \<and> p \<le> m \<Longrightarrow>
     0 \<le> filled_units es \<and> notional_units es \<le> filled_units es * m \<and> (es \<noteq> [] \<longrightarrow> 0 < notional_units es \<and> 0 < filled_units es)"
proof (induction es)
  case (Cons e es)
  obtain s p n where e: "e = (s, p, n)" by (cases e)
  with Cons have "0 < n" "0 < p" "p \<le> m" by auto
  have "p * n \<le> n * m" using mult_right_mono [OF \<open>p \<le> m\<close>, of n] \<open>0 < n\<close> by (simp add: mult.commute)
  moreover have "0 < p * n" using \<open>0 < n\<close> \<open>0 < p\<close> by simp
  moreover have "0 \<le> notional_units es" "0 \<le> filled_units es" "notional_units es \<le> filled_units es * m"
    using Cons.IH Cons.prems by (cases "es = []"; simp)+
  ultimately show ?case
    using \<open>0 < n\<close> unfolding e units_simps fst_conv snd_conv distrib_right by linarith
qed simp

text \<open>The run of an order always leaves an average price to compute, or nothing filled.\<close>

lemma depth_run_average:
  assumes es: "es = best_fills q (crossing_levels price crosses ls)" and q: "0 < q"
    and ls: "\<forall>(s, a) \<in> set ls. 0 < price s \<and> price s \<le> 10 ^ price_scale \<and> 0 < a"
  shows "filled_units es = 0 \<or> (\<exists>a. average_price (notional_units es) (filled_units es) = Some a
    \<and> dexp a = - int money_scale
    \<and> \<bar>dval a - of_int (notional_units es) / of_int (filled_units es) / 10 ^ price_scale\<bar> < 1 / 10 ^ money_scale)"
proof -
  have pos: "\<forall>(_, a) \<in> set ls. 0 < a" using ls by auto
  have "\<forall>(s, p, n) \<in> set es. 0 < n \<and> 0 < p \<and> p \<le> 10 ^ price_scale"
  proof clarify
    fix s p n
    assume "(s, p, n) \<in> set es"
    then obtain a where "0 < n" "(s, p, a) \<in> set (crossing_levels price crosses ls)"
      using best_fills_entries [OF _ crossing_positive [OF pos]] q unfolding es by (meson order_less_imp_le)
    then show "0 < n \<and> 0 < p \<and> p \<le> 10 ^ price_scale"
      using ls by (auto simp: crossing_levels_def split: if_splits)
  qed
  from units_between [OF this] show ?thesis
    using average_price_exact [of "notional_units es" "filled_units es"] by (cases "es = []") auto
qed

text \<open>\<open>average_ok\<close>: no average without a fill, else one within a unit of its last decimal place.\<close>

definition average_ok :: "paper_fill_result \<Rightarrow> bool" where
  "average_ok r = (case px_average_fill_price r of
      None \<Rightarrow> dval (px_filled_quantity r) = 0
    | Some a \<Rightarrow> 0 < dval (px_filled_quantity r) \<and> dexp a = - int money_scale
        \<and> \<bar>dval a - dval (px_notional r) / dval (px_filled_quantity r)\<bar> < 1 / 10 ^ money_scale)"

lemma ioc_result_average:
  assumes es: "es = best_fills q (crossing_levels price crosses ls)" and q: "0 < q"
    and ls: "\<forall>(s, a) \<in> set ls. 0 < price s \<and> price s \<le> 10 ^ price_scale \<and> 0 < a"
  shows "\<exists>r. ioc_result rs formula q levels (q - filled_units es, notional_units es, fills) = Inr r \<and> average_ok r"
proof (cases "filled_units es = 0")
  case True
  then show ?thesis by (simp add: ioc_result_def average_ok_def)
next
  case False
  have "\<forall>(_, a) \<in> set ls. 0 < a" using ls by auto
  then have "0 \<le> filled_units es"
    using best_fills_amount [OF _ crossing_positive, of q ls price crosses] q unfolding es by auto
  moreover obtain a where "average_price (notional_units es) (filled_units es) = Some a"
    "dexp a = - int money_scale"
    "\<bar>dval a - of_int (notional_units es) / of_int (filled_units es) / 10 ^ price_scale\<bar> < 1 / 10 ^ money_scale"
    using depth_run_average [OF es q ls] False by blast
  moreover have "(of_int (notional_units es) / 10 ^ (price_scale + quantity_scale)) / (of_int (filled_units es) / 10 ^ quantity_scale)
      = (of_int (notional_units es) / of_int (filled_units es) / 10 ^ price_scale :: rat)"
    by (simp add: power_add field_simps)
  ultimately show ?thesis
    using False by (simp add: ioc_result_def average_ok_def Let_def)
qed

section \<open>Which orders are simulated\<close>

text \<open>A value on the grid of a scale, and a level the simulation takes.\<close>

definition on_scale :: "nat \<Rightarrow> pydec \<Rightarrow> bool" where
  "on_scale k v = is_ok (to_scaled_int k [] v)"

definition priced :: "paper_price_range list \<Rightarrow> pydec \<Rightarrow> bool" where
  "priced ranges v = (on_scale price_scale v \<and> 0 < pval v \<and> pval v < 1 \<and> list_ex (on_tick (pval v)) ranges)"

definition level_ok :: "paper_price_range list \<Rightarrow> paper_book_level \<Rightarrow> bool" where
  "level_ok ranges l = (priced ranges (pl_price l)
     \<and> on_scale quantity_scale (pl_quantity l) \<and> 0 < pval (pl_quantity l))"

lemma on_scaleE:
  assumes "on_scale k v"
  obtains n where "\<And>f. to_scaled_int k f v = Inr n" "pval v = of_int n / 10 ^ k"
  using assms to_scaled_any_field to_scaled_int_units unfolding on_scale_def is_ok_iff by metis

lemma pricedE:
  assumes "priced ranges v" "ranges_ok ranges"
  obtains n where "\<And>f. to_scaled_int price_scale f v = Inr n" "pval v = of_int n / 10 ^ price_scale"
    "0 < n" "n < 10 ^ price_scale" "price_is_on_tick n ranges = Inr True"
proof (rule on_scaleE [of price_scale v])
  fix n
  assume n: "\<And>f. to_scaled_int price_scale f v = Inr n" "pval v = of_int n / 10 ^ price_scale"
  have "0 < n" "(of_int n :: rat) < of_int (10 ^ price_scale)"
    using assms(1) by (simp_all add: priced_def n(2) zero_less_divide_iff divide_less_eq)
  moreover from this(2) have "n < 10 ^ price_scale" by (simp only: of_int_less_iff)
  moreover have "price_is_on_tick n ranges = Inr True"
    using assms price_is_on_tick_eq [of ranges n] by (simp add: ranges_ok_def priced_def n(2))
  ultimately show thesis using that n by blast
qed (use assms in \<open>simp add: priced_def\<close>)

lemma level_ok_validated:
  assumes "level_ok ranges l" "ranges_ok ranges"
  shows "\<exists>x. validated_level ranges l = Inr x"
proof -
  obtain p where "\<And>f. to_scaled_int price_scale f (pl_price l) = Inr p" "0 < p" "p < 10 ^ price_scale"
    "price_is_on_tick p ranges = Inr True"
    using assms by (auto simp: level_ok_def elim: pricedE)
  moreover obtain a where "\<And>f. to_scaled_int quantity_scale f (pl_quantity l) = Inr a"
    "pval (pl_quantity l) = of_int a / 10 ^ quantity_scale"
    using assms by (auto simp: level_ok_def elim: on_scaleE)
  ultimately show ?thesis
    using assms(1) by (auto simp: validated_level_def level_ok_def zero_less_divide_iff)
qed

lemma order_units_total:
  assumes "on_scale quantity_scale quantity" "0 < pval quantity" "priced ranges price" "ranges_ok ranges"
  shows "\<exists>u. order_units name quantity price ranges = Inr u"
proof -
  obtain q where "\<And>f. to_scaled_int quantity_scale f quantity = Inr q" "pval quantity = of_int q / 10 ^ quantity_scale"
    using assms(1) by (auto elim: on_scaleE)
  moreover obtain p where "\<And>f. to_scaled_int price_scale f price = Inr p" "0 < p" "p < 10 ^ price_scale"
    "price_is_on_tick p ranges = Inr True"
    using assms(3,4) by (auto elim: pricedE)
  ultimately show ?thesis using assms(2) by (auto simp: order_units_def zero_less_divide_iff)
qed

lemma traverseE_total: "list_all (\<lambda>x. \<exists>y. f x = Inr y) xs \<Longrightarrow> \<exists>ys. traverseE f xs = Inr ys"
  by (induction xs) auto

lemma take_depth_total:
  "\<forall>(s, a) \<in> set levels. \<exists>x. execution s = Inr x \<Longrightarrow>
     \<exists>t. take_depth execution crosses side st levels = Inr t"
proof (induction levels arbitrary: st)
  case Nil
  show ?case by (cases st) simp
next
  case (Cons l levels)
  obtain s a rem n fs where "l = (s, a)" "st = (rem, n, fs)" by (metis prod_cases3 surj_pair)
  moreover from this Cons.prems obtain x where "execution s = Inr x" by auto
  ultimately show ?case using Cons by (auto simp: Let_def)
qed

text \<open>The simulations, from valid levels on.\<close>

lemma depth_run_total:
  assumes exec: "\<And>s x. execution s = Inr x \<Longrightarrow> x = price s" and q: "0 < q"
    and levels: "\<forall>(s, a) \<in> set levels. execution s = Inr (price s) \<and> 0 < price s \<and> price s \<le> 10 ^ price_scale \<and> 0 < a"
  shows "\<exists>r. bindE (take_depth execution crosses side (q, 0, []) (rev (sort levels)))
    (ioc_result rs formula q levels) = Inr r"
proof -
  let ?ls = "rev (sort levels)"
  have "\<forall>(s, a) \<in> set ?ls. \<exists>x. execution s = Inr x" using levels by auto
  then obtain s where run: "take_depth execution crosses side (q, 0, []) ?ls = Inr s"
    using take_depth_total by blast
  have pos: "\<forall>(_, a) \<in> set ?ls. 0 < a" using levels by auto
  define es where "es = best_fills q (crossing_levels price crosses ?ls)"
  have "s = (q - filled_units es, notional_units es, numbered_fills side 1 es)"
    using take_depth_best [of execution price, OF exec run q pos] by (simp add: es_def Let_def)
  moreover have "\<forall>(s, a) \<in> set ?ls. 0 < price s \<and> price s \<le> 10 ^ price_scale \<and> 0 < a" using levels by auto
  ultimately show ?thesis
    using ioc_result_average [OF es_def q, of rs formula levels "numbered_fills side 1 es"] run by auto
qed

lemma depth_run_average_ok:
  assumes exec: "\<And>s x. execution s = Inr x \<Longrightarrow> x = price s" and q: "0 < q"
    and levels: "\<forall>(s, a) \<in> set levels. 0 < price s \<and> price s \<le> 10 ^ price_scale \<and> 0 < a"
    and run: "take_depth execution crosses side (q, 0, []) (rev (sort levels)) = Inr s"
    and res: "ioc_result rs formula q levels s = Inr r"
  shows "average_ok r"
proof -
  let ?ls = "rev (sort levels)"
  have pos: "\<forall>(_, a) \<in> set ?ls. 0 < a" using levels by auto
  define es where "es = best_fills q (crossing_levels price crosses ?ls)"
  have s: "s = (q - filled_units es, notional_units es, numbered_fills side 1 es)"
    using take_depth_best [of execution price, OF exec run q pos] by (simp add: es_def Let_def)
  have "\<forall>(s, a) \<in> set ?ls. 0 < price s \<and> price s \<le> 10 ^ price_scale \<and> 0 < a" using levels by auto
  from ioc_result_average [OF es_def q this, of rs formula levels "numbered_fills side 1 es"] show ?thesis
    using res by (auto simp: s)
qed

lemma sell_simulated:
  assumes "ranges_ok ranges" "outcome_of outc = Some side"
    and "on_scale quantity_scale quantity" "0 < pval quantity" "priced ranges price"
    and ok: "list_all (level_ok ranges) (bids book side)"
  shows "\<exists>r. simulate_sell_ioc book outc quantity price ranges = Inr r"
proof -
  obtain q p where u: "order_units ''minimum_price'' quantity price ranges = Inr (q, p)"
    using order_units_total [OF assms(3-5,1)] by force
  obtain levels where levels: "traverseE (validated_level ranges) (bids book side) = Inr levels"
    using traverseE_total [of "validated_level ranges"] ok level_ok_validated [OF _ assms(1)]
    by (metis (mono_tags, lifting) list_all_iff)
  have "\<forall>(s, a) \<in> set levels. Inr s = (Inr s :: int res) \<and> 0 < s \<and> s \<le> 10 ^ price_scale \<and> 0 < a"
    using validated_levels(1) [OF levels] by auto
  from depth_run_total [where price = "\<lambda>s. s" and execution = Inr, OF _ order_units_ok(3) [OF u] this]
  show "\<exists>r. simulate_sell_ioc book outc quantity price ranges = Inr r"
    by (simp add: simulate_sell_ioc_def assms(2) u levels)
qed

lemma buy_simulated:
  assumes "ranges_ok ranges" "outcome_of outc = Some side"
    and "on_scale quantity_scale quantity" "0 < pval quantity" "priced ranges price"
    and ok: "list_all (\<lambda>l. level_ok ranges l \<and> list_ex (on_tick (1 - pval (pl_price l))) ranges) (bids book (opposite side))"
  shows "\<exists>r. simulate_buy_ioc book outc quantity price ranges = Inr r"
proof -
  obtain q p where u: "order_units ''limit_price'' quantity price ranges = Inr (q, p)"
    using order_units_total [OF assms(3-5,1)] by force
  obtain levels where levels: "traverseE (validated_level ranges) (bids book (opposite side)) = Inr levels"
    using traverseE_total [of "validated_level ranges"] ok level_ok_validated [OF _ assms(1)]
    by (metis (mono_tags, lifting) list_all_iff)
  have all: "list_all2 (\<lambda>l x. validated_level ranges l = Inr x) (bids book (opposite side)) levels"
    using levels by (simp add: traverseE_Inr_iff)
  have tick: "complementary_price ranges s = Inr (10 ^ price_scale - s)" if "(s, a) \<in> set levels" for s a
  proof -
    obtain l where l: "l \<in> set (bids book (opposite side))" "validated_level ranges l = Inr (s, a)"
      using list_all2_mem [OF all \<open>(s, a) \<in> set levels\<close>] by blast
    then have "list_ex (on_tick (of_int (10 ^ price_scale - s) / 10 ^ price_scale)) ranges"
      using ok validated_level_ok(1) [OF l(2)] by (auto simp: list_all_iff diff_divide_distrib)
    then show ?thesis
      using assms(1) price_is_on_tick_eq [of ranges] by (simp add: complementary_price_def ranges_ok_def)
  qed
  have "\<forall>(s, a) \<in> set levels. complementary_price ranges s = Inr (10 ^ price_scale - s)
      \<and> 0 < 10 ^ price_scale - s \<and> 10 ^ price_scale - s \<le> 10 ^ price_scale \<and> 0 < a"
    using validated_levels(1) [OF levels] tick by fastforce
  from depth_run_total [where price = "\<lambda>s. 10 ^ price_scale - s" and execution = "complementary_price ranges",
      OF complementary_price_Inr order_units_ok(3) [OF u] this]
  show "\<exists>r. simulate_buy_ioc book outc quantity price ranges = Inr r"
    by (simp add: simulate_buy_ioc_def assms(2) u levels)
qed

text \<open>
  C20: a valid order is always simulated. Against parsed price ranges, an order on the venue's
  grids, on a tick, and a side of the book whose levels are too, have a result for a sell; and
  for a buy when the complements of the book's prices are on a tick as well.
\<close>

theorem valid_orders_are_simulated:
  assumes "ranges_ok ranges" "outcome_of outc = Some side"
    and "on_scale quantity_scale quantity" "0 < pval quantity" "priced ranges price"
  shows "(list_all (level_ok ranges) (bids book side) \<longrightarrow>
      (\<exists>r. simulate_sell_ioc book outc quantity price ranges = Inr r))
    \<and> (list_all (\<lambda>l. level_ok ranges l \<and> list_ex (on_tick (1 - pval (pl_price l))) ranges) (bids book (opposite side)) \<longrightarrow>
      (\<exists>r. simulate_buy_ioc book outc quantity price ranges = Inr r))"
  using sell_simulated [OF assms] buy_simulated [OF assms] by blast

text \<open>
  C21: the average price is accurate. A simulated order without fills has none; otherwise its
  average price has 18 decimal places and differs from the notional divided by the filled
  quantity by less than one unit of the last, although it is rounded three times.
\<close>

theorem average_price_is_accurate:
  assumes "simulate_buy_ioc book outc quantity price ranges = Inr r
    \<or> simulate_sell_ioc book outc quantity price ranges = Inr r"
  shows "average_ok r"
  using assms
proof
  assume buy: "simulate_buy_ioc book outc quantity price ranges = Inr r"
  then obtain side where "outcome_of outc = Some side"
    by (auto simp: simulate_buy_ioc_def split: option.splits)
  from buy this show ?thesis
  proof (rule simulate_buy_run)
    fix q limit levels remaining notional fills
    assume order: "order_units ''limit_price'' quantity price ranges = Inr (q, limit)"
      and levels: "traverseE (validated_level ranges) (bids book (opposite side)) = Inr levels"
      and run: "take_depth (complementary_price ranges) (\<lambda>price. price \<le> limit) (opposite side) (q, 0, [])
         (rev (sort levels)) = Inr (remaining, notional, fills)"
      and res: "ioc_result buy_reasons ''kalshi-complementary-depth-ioc-v1'' q levels (remaining, notional, fills) = Inr r"
    have "\<forall>(s, a) \<in> set levels. 0 < 10 ^ price_scale - s \<and> 10 ^ price_scale - s \<le> 10 ^ price_scale \<and> 0 < a"
      using validated_levels(1) [OF levels] by auto
    from depth_run_average_ok [where price = "\<lambda>s. 10 ^ price_scale - s",
        OF complementary_price_Inr order_units_ok(3) [OF order] this run res]
    show ?thesis .
  qed
next
  assume sell: "simulate_sell_ioc book outc quantity price ranges = Inr r"
  then obtain side where "outcome_of outc = Some side"
    by (auto simp: simulate_sell_ioc_def split: option.splits)
  from sell this show ?thesis
  proof (rule simulate_sell_run)
    fix q minimum levels remaining notional fills
    assume order: "order_units ''minimum_price'' quantity price ranges = Inr (q, minimum)"
      and levels: "traverseE (validated_level ranges) (bids book side) = Inr levels"
      and run: "take_depth Inr (\<lambda>price. minimum \<le> price) side (q, 0, [])
         (rev (sort levels)) = Inr (remaining, notional, fills)"
      and res: "ioc_result sell_reasons ''kalshi-owned-depth-sell-ioc-v1'' q levels (remaining, notional, fills) = Inr r"
    have "\<forall>(s, a) \<in> set levels. 0 < s \<and> s \<le> 10 ^ price_scale \<and> 0 < a"
      using validated_levels(1) [OF levels] by auto
    from depth_run_average_ok [where price = "\<lambda>s. s", OF _ order_units_ok(3) [OF order] this run res]
    show ?thesis by simp
  qed
qed

section \<open>A sample book\<close>

definition sample_ranges :: "paper_price_range list" where
  "sample_ranges = [\<lparr>pr_start = Fin (Dec False 0 0), pr_end = Fin (Dec False 50 (-2)), pr_step = Fin (Dec False 10 (-3))\<rparr>,
     \<lparr>pr_start = Fin (Dec False 50 (-2)), pr_end = Fin (Dec False 10 (-1)), pr_step = Fin (Dec False 20 (-3))\<rparr>]"

definition sample_paper_book :: paper_book where
  "sample_paper_book = \<lparr>pb_ticker = ''T'',
     pb_yes_bids = [\<lparr>pl_price = Fin (Dec False 52 (-2)), pl_quantity = Fin (Dec False 3 0)\<rparr>],
     pb_no_bids = [\<lparr>pl_price = Fin (Dec False 40 (-2)), pl_quantity = Fin (Dec False 5 0)\<rparr>],
     pb_source_origin = ''o'', pb_observed_at = 0, pb_fetched_at = 0, pb_evidence_hash = ''h'', pb_evidence_json = ''j''\<rparr>"

abbreviation sample_quantity :: pydec where "sample_quantity \<equiv> Fin (Dec False 2 0)"
abbreviation sample_limit :: pydec where "sample_limit \<equiv> Fin (Dec False 70 (-2))"
abbreviation sample_minimum :: pydec where "sample_minimum \<equiv> Fin (Dec False 50 (-2))"

lemma sample_ranges_ok: "ranges_ok sample_ranges"
  by (simp add: sample_ranges_def ranges_ok_def range_ok_def to_scaled_int_def price_scale_def dval_Dec)

lemma sample_values:
  "on_scale quantity_scale sample_quantity" "dval (Dec False 2 0) = 2"
  "dval (Dec False 70 (-2)) = 7 / 10" "dval (Dec False 50 (-2)) = 1 / 2"
  "priced sample_ranges sample_limit" "priced sample_ranges sample_minimum"
  "list_all (level_ok sample_ranges) (bids sample_paper_book Yes)"
  "list_all (\<lambda>l. level_ok sample_ranges l \<and> list_ex (on_tick (1 - pval (pl_price l))) sample_ranges)
     (bids sample_paper_book (opposite Yes))"
  by (simp_all add: on_scale_def priced_def level_ok_def on_tick_def bids_def opposite_def sample_ranges_def
      sample_paper_book_def to_scaled_int_def price_scale_def quantity_scale_def dval_Dec)

lemma sample_orders:
  "\<exists>r. simulate_sell_ioc sample_paper_book ''yes'' sample_quantity sample_minimum sample_ranges = Inr r"
  "\<exists>r. simulate_buy_ioc sample_paper_book ''yes'' sample_quantity sample_limit sample_ranges = Inr r"
  by (rule sell_simulated [OF sample_ranges_ok, of _ Yes]; simp add: outcome_of_def sample_values)
    (rule buy_simulated [OF sample_ranges_ok, of _ Yes]; simp add: outcome_of_def sample_values)

lemma sample_depth:
  "buy_depth sample_paper_book Yes = [(3 / 5, 5)]" "sell_depth sample_paper_book Yes = [(13 / 25, 3)]"
  by (simp_all add: buy_depth_def sell_depth_def bids_def opposite_def sample_paper_book_def dval_Dec)

lemma valid_orders_are_simulated_witness:
  "(\<exists>r. simulate_sell_ioc sample_paper_book ''yes'' sample_quantity sample_minimum sample_ranges = Inr r)
    \<and> (\<exists>r. simulate_buy_ioc sample_paper_book ''yes'' sample_quantity sample_limit sample_ranges = Inr r)"
  using valid_orders_are_simulated [OF sample_ranges_ok, of "''yes''" Yes sample_quantity sample_minimum sample_paper_book]
    valid_orders_are_simulated [OF sample_ranges_ok, of "''yes''" Yes sample_quantity sample_limit sample_paper_book]
  by (simp add: outcome_of_def sample_values)

lemma average_price_is_accurate_witness:
  "\<exists>r. simulate_buy_ioc sample_paper_book ''yes'' sample_quantity sample_limit sample_ranges = Inr r \<and> average_ok r"
  using sample_orders(2) average_price_is_accurate by blast

lemma buy_is_best_execution_witness:
  "\<exists>r. simulate_buy_ioc sample_paper_book ''yes'' sample_quantity sample_limit sample_ranges = Inr r
     \<and> 2 \<le> dval (px_filled_quantity r)"
proof -
  obtain r where r: "simulate_buy_ioc sample_paper_book ''yes'' sample_quantity sample_limit sample_ranges = Inr r"
    using sample_orders(2) by blast
  have "sum_list [2] \<le> dval (px_filled_quantity r)"
    using buy_is_best_execution [OF r, of Yes "[2]"]
    by (simp add: outcome_of_def sample_depth sample_values allocation_def)
  with r show ?thesis by auto
qed

lemma sell_is_best_execution_witness:
  "\<exists>r. simulate_sell_ioc sample_paper_book ''yes'' sample_quantity sample_minimum sample_ranges = Inr r
     \<and> 2 \<le> dval (px_filled_quantity r)"
proof -
  obtain r where r: "simulate_sell_ioc sample_paper_book ''yes'' sample_quantity sample_minimum sample_ranges = Inr r"
    using sample_orders(1) by blast
  have "sum_list [2] \<le> dval (px_filled_quantity r)"
    using sell_is_best_execution [OF r, of Yes "[2]"]
    by (simp add: outcome_of_def sample_depth sample_values allocation_def)
  with r show ?thesis by auto
qed

lemma buy_account_balances_witness:
  "\<exists>r. simulate_buy_ioc sample_paper_book ''yes'' sample_quantity sample_limit sample_ranges = Inr r
     \<and> fills_account r \<and> dval (px_requested_quantity r) = 2"
  using sample_orders(2) buy_account_balances [of sample_paper_book "''yes''" sample_quantity sample_limit sample_ranges _ Yes]
  by (auto simp: outcome_of_def sample_values)

lemma sell_account_balances_witness:
  "\<exists>r. simulate_sell_ioc sample_paper_book ''yes'' sample_quantity sample_minimum sample_ranges = Inr r
     \<and> fills_account r \<and> dval (px_requested_quantity r) = 2"
  using sample_orders(1) sell_account_balances [of sample_paper_book "''yes''" sample_quantity sample_minimum sample_ranges _ Yes]
  by (auto simp: outcome_of_def sample_values)

end
