(* ===== verification/PaperTables.thy ===== *)
theory PaperTables
  imports PaperAverage Timestamps
begin

text \<open>
  The tables of the paper accounts (\<open>models/database.py\<close>) and how rows get into them: the
  columns, the CHECK constraints, and the inserts that the constraints, the foreign keys and
  the primary keys may refuse. A numeric column holds a finite decimal. A column whose values
  are a fixed set of texts is a datatype; the columns that hold the resolved opportunity, and
  those that hold the evidence of the quote, are a record each, and a column with canonical
  JSON holds the document.
\<close>

section \<open>Columns\<close>

datatype paper_action = Execute | Pass

datatype trade_side = Buy | Sell

datatype paper_tif = Ioc | Gtc

datatype paper_status = Simulated paper_fill_status | Passed | Rejected

fun paper_action_text :: "paper_action \<Rightarrow> string" where
  "paper_action_text Execute = ''execute''"
| "paper_action_text Pass = ''pass''"

fun trade_side_text :: "trade_side \<Rightarrow> string" where
  "trade_side_text Buy = ''buy''"
| "trade_side_text Sell = ''sell''"

fun paper_tif_text :: "paper_tif \<Rightarrow> string" where
  "paper_tif_text Ioc = ''immediate_or_cancel''"
| "paper_tif_text Gtc = ''good_till_canceled''"

fun paper_status_text :: "paper_status \<Rightarrow> string" where
  "paper_status_text (Simulated Filled) = ''filled''"
| "paper_status_text (Simulated Partial) = ''partial''"
| "paper_status_text (Simulated NoFill) = ''no_fill''"
| "paper_status_text Passed = ''passed''"
| "paper_status_text Rejected = ''rejected''"

record resolved_opportunity =
  rv_opportunity_id :: string
  rv_stable_id :: string
  rv_strategy_key :: string
  rv_strategy_version :: "int option"
  rv_ticker :: string
  rv_outcome :: outcome
  rv_snapshot :: pyval
  rv_revision :: string

record quote_evidence =
  qe_event_ticker :: "string option"
  qe_source_origin :: "string option"
  qe_market_observed_at :: "int option"
  qe_market_fetched_at :: "int option"
  qe_market_hash :: "string option"
  qe_market_json :: "string option"
  qe_book_observed_at :: "int option"
  qe_book_fetched_at :: "int option"
  qe_book_hash :: "string option"
  qe_book_json :: "string option"
  qe_fee_rule_version :: string
  qe_fee_provenance :: "(string \<times> string) list"

record paper_account =
  ac_id :: string
  ac_name :: string
  ac_currency :: string
  ac_starting_cash :: dec
  ac_cash_balance :: dec
  ac_reserved_cash :: dec
  ac_journal_sequence :: int
  ac_created_at :: int
  ac_updated_at :: int

record paper_intent =
  it_account :: string
  it_decision :: string
  it_request_hash :: string
  it_action :: paper_action
  it_resolved :: resolved_opportunity
  it_side :: "trade_side option"
  it_position :: "string option"
  it_tif :: "paper_tif option"
  it_quantity :: "dec option"
  it_limit_price :: "dec option"
  it_created_at :: int

record paper_decision =
  dc_account :: string
  dc_decision :: string
  dc_sequence :: int
  dc_request_hash :: string
  dc_action :: paper_action
  dc_resolved :: resolved_opportunity
  dc_evidence :: quote_evidence
  dc_side :: "trade_side option"
  dc_position :: "string option"
  dc_tif :: "paper_tif option"
  dc_quantity :: "dec option"
  dc_limit_price :: "dec option"
  dc_status :: paper_status
  dc_reason :: string
  dc_formula_version :: string
  dc_filled :: dec
  dc_remaining :: dec
  dc_average :: "dec option"
  dc_notional :: dec
  dc_fee :: dec
  dc_cost_basis :: "dec option"
  dc_pnl :: "dec option"
  dc_cash_before :: dec
  dc_cash_after :: dec
  dc_created_at :: int

record paper_fill_row =
  fr_account :: string
  fr_decision :: string
  fr_fill :: paper_fill
  fr_fee :: dec
  fr_evidence :: pyval
  fr_created_at :: int

record paper_position =
  hp_account :: string
  hp_position :: string
  hp_entry_decision :: string
  hp_ticker :: string
  hp_outcome :: outcome
  hp_quantity :: dec
  hp_notional :: dec
  hp_fee :: dec
  hp_created_at :: int

record paper_order =
  go_account :: string
  go_order :: string
  go_decision :: string
  go_ticker :: string
  go_outcome :: outcome
  go_side :: trade_side
  go_tif :: paper_tif
  go_quantity :: dec
  go_filled :: dec
  go_open :: dec
  go_limit_price :: dec
  go_decision_status :: paper_status
  go_reserved :: dec
  go_created_at :: int

record paper_cancellation =
  cx_account :: string
  cx_cancellation :: string
  cx_order :: string
  cx_released :: dec
  cx_status :: string
  cx_created_at :: int

record paper_order_event =
  oe_account :: string
  oe_order :: string
  oe_sequence :: nat
  oe_type :: string
  oe_cancellation :: "string option"
  oe_quantity :: dec
  oe_reserved :: dec
  oe_created_at :: int

record opportunity_state =
  os_stable_id :: string
  os_document :: pyval
  os_active :: bool

record paper_db =
  pd_accounts :: "paper_account list"
  pd_intents :: "paper_intent list"
  pd_decisions :: "paper_decision list"
  pd_fills :: "paper_fill_row list"
  pd_positions :: "paper_position list"
  pd_orders :: "paper_order list"
  pd_cancellations :: "paper_cancellation list"
  pd_events :: "paper_order_event list"
  pd_opportunities :: "opportunity_state list"

definition empty_paper_db :: paper_db where
  "empty_paper_db = \<lparr>pd_accounts = [], pd_intents = [], pd_decisions = [], pd_fills = [], pd_positions = [],
     pd_orders = [], pd_cancellations = [], pd_events = [], pd_opportunities = []\<rparr>"

section \<open>Keys\<close>

definition paper_intent_key :: "paper_intent \<Rightarrow> string \<times> string" where
  "paper_intent_key i = (it_account i, it_decision i)"

definition decision_key :: "paper_decision \<Rightarrow> string \<times> string" where
  "decision_key d = (dc_account d, dc_decision d)"

definition fill_row_key :: "paper_fill_row \<Rightarrow> string \<times> string \<times> nat" where
  "fill_row_key f = (fr_account f, fr_decision f, pf_sequence (fr_fill f))"

definition position_key :: "paper_position \<Rightarrow> string \<times> string" where
  "position_key p = (hp_account p, hp_position p)"

definition entry_key :: "paper_position \<Rightarrow> string \<times> string" where
  "entry_key p = (hp_account p, hp_entry_decision p)"

definition paper_order_key :: "paper_order \<Rightarrow> string \<times> string" where
  "paper_order_key o1 = (go_account o1, go_order o1)"

definition order_decision_key :: "paper_order \<Rightarrow> string \<times> string" where
  "order_decision_key o1 = (go_account o1, go_decision o1)"

definition cancellation_key :: "paper_cancellation \<Rightarrow> string \<times> string" where
  "cancellation_key c = (cx_account c, cx_cancellation c)"

definition cancelled_order_key :: "paper_cancellation \<Rightarrow> string \<times> string" where
  "cancelled_order_key c = (cx_account c, cx_order c)"

definition order_event_key :: "paper_order_event \<Rightarrow> string \<times> string \<times> nat" where
  "order_event_key e = (oe_account e, oe_order e, oe_sequence e)"

definition account_of :: "string \<Rightarrow> paper_db \<Rightarrow> paper_account option" where
  "account_of a db = row_of ac_id a (pd_accounts db)"

definition intent_of :: "string \<times> string \<Rightarrow> paper_db \<Rightarrow> paper_intent option" where
  "intent_of k db = row_of paper_intent_key k (pd_intents db)"

definition decision_of :: "string \<times> string \<Rightarrow> paper_db \<Rightarrow> paper_decision option" where
  "decision_of k db = row_of decision_key k (pd_decisions db)"

definition position_of :: "string \<times> string \<Rightarrow> paper_db \<Rightarrow> paper_position option" where
  "position_of k db = row_of position_key k (pd_positions db)"

definition order_of :: "string \<times> string \<Rightarrow> paper_db \<Rightarrow> paper_order option" where
  "order_of k db = row_of paper_order_key k (pd_orders db)"

section \<open>CHECK constraints\<close>

text \<open>A comparison with NULL does not refuse a row: \<open>pred_option\<close> holds of \<open>None\<close>.\<close>

definition within_scale :: "nat \<Rightarrow> dec \<Rightarrow> bool" where
  "within_scale k d = (- int k \<le> dexp d)"

definition money_ok :: "nat \<Rightarrow> dec \<Rightarrow> bool" where
  "money_ok k d = (0 \<le> dval d \<and> within_scale k d)"

definition positive_ok :: "nat \<Rightarrow> dec \<Rightarrow> bool" where
  "positive_ok k d = (0 < dval d \<and> within_scale k d)"

definition unit_price_ok :: "nat \<Rightarrow> dec \<Rightarrow> bool" where
  "unit_price_ok k d = (0 < dval d \<and> dval d < 1 \<and> within_scale k d)"

definition account_valid :: "paper_account \<Rightarrow> bool" where
  "account_valid a =
     (not_blank (ac_name a) \<and> ac_currency a = ''USD'' \<and> money_ok 18 (ac_starting_cash a)
      \<and> money_ok 18 (ac_cash_balance a) \<and> money_ok 18 (ac_reserved_cash a)
      \<and> dval (ac_reserved_cash a) \<le> dval (ac_cash_balance a) \<and> 0 \<le> ac_journal_sequence a)"

definition intent_valid :: "paper_intent \<Rightarrow> bool" where
  "intent_valid i =
     (not_blank (it_decision i) \<and> sha256_text (it_request_hash i) \<and> sha256_text (rv_revision (it_resolved i))
      \<and> (case it_action i of
           Pass \<Rightarrow> it_side i = None \<and> it_position i = None \<and> it_tif i = None
             \<and> it_quantity i = None \<and> it_limit_price i = None
         | Execute \<Rightarrow>
             (if it_side i = Some Sell then pred_option not_blank (it_position i) \<and> it_tif i \<noteq> Some Gtc
              else it_position i = None)
             \<and> pred_option (positive_ok 2) (it_quantity i) \<and> pred_option (unit_price_ok 6) (it_limit_price i)))"

definition decision_shape :: "paper_decision \<Rightarrow> bool" where
  "decision_shape d =
     (case dc_action d of
        Pass \<Rightarrow> dc_side d = None \<and> dc_position d = None \<and> dc_tif d = None
          \<and> dc_quantity d = None \<and> dc_limit_price d = None
      | Execute \<Rightarrow>
          (case dc_side d of None \<Rightarrow> True | Some Buy \<Rightarrow> dc_position d = None
           | Some Sell \<Rightarrow> pred_option not_blank (dc_position d) \<and> dc_tif d \<noteq> Some Gtc)
          \<and> pred_option (positive_ok 2) (dc_quantity d) \<and> pred_option (unit_price_ok 6) (dc_limit_price d))"

definition average_valid :: "paper_decision \<Rightarrow> bool" where
  "average_valid d =
     (case dc_average d of None \<Rightarrow> True
      | Some a \<Rightarrow> unit_price_ok 18 a \<and> 0 < dval (dc_filled d)
          \<and> (case dc_side d of None \<Rightarrow> True
             | Some Buy \<Rightarrow> pred_option (\<lambda>l. dval a \<le> dval l) (dc_limit_price d)
             | Some Sell \<Rightarrow> pred_option (\<lambda>l. dval l \<le> dval a) (dc_limit_price d)))"

definition quantity_conserved :: "paper_decision \<Rightarrow> bool" where
  "quantity_conserved d =
     (case dc_action d of
        Pass \<Rightarrow> dval (dc_filled d) = 0 \<and> dval (dc_remaining d) = 0
      | Execute \<Rightarrow> pred_option (\<lambda>q. dval q = dval (dc_filled d) + dval (dc_remaining d)) (dc_quantity d))"

definition cash_flow :: "paper_decision \<Rightarrow> rat" where
  "cash_flow d =
     (if dc_side d = Some Sell then dval (dc_notional d) - dval (dc_fee d)
      else - dval (dc_notional d) - dval (dc_fee d))"

definition pnl_valid :: "paper_decision \<Rightarrow> bool" where
  "pnl_valid d =
     (if dc_side d = Some Sell then
        pred_option (money_ok 18) (dc_cost_basis d) \<and> pred_option (within_scale 18) (dc_pnl d)
        \<and> pred_option (\<lambda>c. pred_option (\<lambda>p. dval p = dval (dc_notional d) - dval (dc_fee d) - dval c
             \<and> (dval (dc_filled d) = 0 \<and> dval c = 0 \<and> dval p = 0 \<or> 0 < dval (dc_filled d) \<and> 0 < dval c))
             (dc_pnl d)) (dc_cost_basis d)
      else dc_cost_basis d = None \<and> dc_pnl d = None)"

definition status_shape :: "paper_decision \<Rightarrow> bool" where
  "status_shape d =
     (let filled = dval (dc_filled d); remaining = dval (dc_remaining d);
          free = (dval (dc_notional d) = 0 \<and> dval (dc_fee d) = 0)
      in case dc_status d of
        Simulated Filled \<Rightarrow> dc_action d = Execute \<and> pred_option (\<lambda>q. filled = dval q) (dc_quantity d) \<and> remaining = 0
      | Simulated Partial \<Rightarrow> dc_action d = Execute \<and> 0 < filled
          \<and> pred_option (\<lambda>q. filled < dval q) (dc_quantity d) \<and> 0 < remaining
      | Simulated NoFill \<Rightarrow> dc_action d = Execute \<and> filled = 0
          \<and> pred_option (\<lambda>q. remaining = dval q) (dc_quantity d) \<and> free
      | Passed \<Rightarrow> dc_action d = Pass \<and> filled = 0 \<and> remaining = 0 \<and> free
      | Rejected \<Rightarrow> filled = 0 \<and> free
          \<and> (if dc_action d = Pass then remaining = 0
             else pred_option (\<lambda>q. remaining = dval q) (dc_quantity d)))"

definition decision_valid :: "paper_decision \<Rightarrow> bool" where
  "decision_valid d =
     (not_blank (dc_decision d) \<and> 0 < dc_sequence d \<and> sha256_text (dc_request_hash d)
      \<and> sha256_text (rv_revision (dc_resolved d)) \<and> not_blank (dc_reason d)
      \<and> pred_option sha256_text (qe_market_hash (dc_evidence d)) \<and> pred_option sha256_text (qe_book_hash (dc_evidence d))
      \<and> decision_shape d \<and> money_ok 2 (dc_filled d) \<and> money_ok 2 (dc_remaining d)
      \<and> money_ok 18 (dc_notional d) \<and> money_ok 18 (dc_fee d)
      \<and> money_ok 18 (dc_cash_before d) \<and> money_ok 18 (dc_cash_after d)
      \<and> average_valid d \<and> quantity_conserved d \<and> dval (dc_cash_after d) = dval (dc_cash_before d) + cash_flow d
      \<and> pnl_valid d \<and> status_shape d)"

definition fill_valid :: "paper_fill_row \<Rightarrow> bool" where
  "fill_valid r =
     (let f = fr_fill r in 0 < pf_sequence f \<and> positive_ok 2 (pf_quantity f) \<and> unit_price_ok 6 (pf_price f)
      \<and> unit_price_ok 6 (pf_source_bid_price f) \<and> positive_ok 18 (pf_notional f)
      \<and> dval (pf_notional f) = dval (pf_quantity f) * dval (pf_price f) \<and> money_ok 18 (fr_fee r))"

definition position_valid :: "paper_position \<Rightarrow> bool" where
  "position_valid p =
     (not_blank (hp_position p) \<and> positive_ok 2 (hp_quantity p) \<and> positive_ok 18 (hp_notional p)
      \<and> money_ok 18 (hp_fee p))"

definition order_valid :: "paper_order \<Rightarrow> bool" where
  "order_valid o1 =
     (not_blank (go_order o1) \<and> go_side o1 = Buy \<and> go_tif o1 = Gtc
      \<and> (go_decision_status o1 = Simulated Filled \<and> dval (go_open o1) = 0
         \<or> go_decision_status o1 \<in> {Simulated Partial, Simulated NoFill} \<and> 0 < dval (go_open o1))
      \<and> positive_ok 2 (go_quantity o1) \<and> money_ok 2 (go_filled o1) \<and> money_ok 2 (go_open o1)
      \<and> dval (go_quantity o1) = dval (go_filled o1) + dval (go_open o1)
      \<and> unit_price_ok 6 (go_limit_price o1) \<and> money_ok 18 (go_reserved o1)
      \<and> dval (go_reserved o1) = dval (go_open o1) * dval (go_limit_price o1))"

definition cancellation_valid :: "paper_cancellation \<Rightarrow> bool" where
  "cancellation_valid c =
     (not_blank (cx_cancellation c) \<and> cx_status c = ''cancelled'' \<and> positive_ok 18 (cx_released c))"

definition event_valid :: "paper_order_event \<Rightarrow> bool" where
  "event_valid e =
     ((oe_type e = ''opened'' \<and> oe_sequence e = 1 \<and> oe_cancellation e = None
       \<or> oe_type e = ''cancelled'' \<and> oe_sequence e = 2 \<and> oe_cancellation e \<noteq> None)
      \<and> money_ok 2 (oe_quantity e) \<and> money_ok 18 (oe_reserved e))"

section \<open>Inserts\<close>

definition add_account :: "paper_account \<Rightarrow> (paper_db, unit) action" where
  "add_account a =
     insert_row ac_id pd_accounts pd_accounts_update
       (\<lambda>s. account_valid a \<and> row_of ac_name (ac_name a) (pd_accounts s) = None) a"

text \<open>An UPDATE of one account.\<close>

definition update_account :: "paper_account \<Rightarrow> (paper_db, unit) action" where
  "update_account a s =
     (if account_valid a
      then (Inr (), s\<lparr>pd_accounts := map (\<lambda>x. if ac_id x = ac_id a then a else x) (pd_accounts s)\<rparr>)
      else (Inl (IntegrityError ''constraint''), s))"

definition add_intent :: "paper_intent \<Rightarrow> (paper_db, unit) action" where
  "add_intent i =
     insert_row paper_intent_key pd_intents pd_intents_update
       (\<lambda>s. intent_valid i \<and> account_of (it_account i) s \<noteq> None
          \<and> pred_option (\<lambda>v. - (2 ^ 31) \<le> v \<and> v < 2 ^ 31) (rv_strategy_version (it_resolved i))) i"

definition intent_agrees :: "paper_decision \<Rightarrow> paper_db \<Rightarrow> bool" where
  "intent_agrees d s =
     (case intent_of (decision_key d) s of None \<Rightarrow> False | Some i \<Rightarrow> it_request_hash i = dc_request_hash d)"

definition add_decision :: "paper_decision \<Rightarrow> (paper_db, unit) action" where
  "add_decision d =
     insert_row decision_key pd_decisions pd_decisions_update
       (\<lambda>s. decision_valid d \<and> account_of (dc_account d) s \<noteq> None \<and> intent_agrees d s
          \<and> row_of (\<lambda>x. (dc_account x, dc_sequence x)) (dc_account d, dc_sequence d) (pd_decisions s) = None) d"

definition add_paper_fill :: "paper_fill_row \<Rightarrow> (paper_db, unit) action" where
  "add_paper_fill f =
     insert_row fill_row_key pd_fills pd_fills_update
       (\<lambda>s. fill_valid f \<and> decision_of (fr_account f, fr_decision f) s \<noteq> None) f"

definition add_position :: "paper_position \<Rightarrow> (paper_db, unit) action" where
  "add_position p =
     insert_row position_key pd_positions pd_positions_update
       (\<lambda>s. position_valid p \<and> decision_of (entry_key p) s \<noteq> None
          \<and> row_of entry_key (entry_key p) (pd_positions s) = None) p"

text \<open>The foreign key of an order covers every fact it shares with its decision.\<close>

definition order_facts_match :: "paper_order \<Rightarrow> paper_db \<Rightarrow> bool" where
  "order_facts_match o1 s =
     (case decision_of (order_decision_key o1) s of
        None \<Rightarrow> False
      | Some d \<Rightarrow>
          rv_ticker (dc_resolved d) = go_ticker o1 \<and> rv_outcome (dc_resolved d) = go_outcome o1
          \<and> dc_side d = Some (go_side o1) \<and> dc_tif d = Some (go_tif o1)
          \<and> map_option dval (dc_quantity d) = Some (dval (go_quantity o1))
          \<and> dval (dc_filled d) = dval (go_filled o1) \<and> dval (dc_remaining d) = dval (go_open o1)
          \<and> map_option dval (dc_limit_price d) = Some (dval (go_limit_price o1))
          \<and> dc_status d = go_decision_status o1)"

definition add_order :: "paper_order \<Rightarrow> (paper_db, unit) action" where
  "add_order o1 =
     insert_row paper_order_key pd_orders pd_orders_update
       (\<lambda>s. order_valid o1 \<and> order_facts_match o1 s
          \<and> row_of order_decision_key (order_decision_key o1) (pd_orders s) = None) o1"

definition add_cancellation :: "paper_cancellation \<Rightarrow> (paper_db, unit) action" where
  "add_cancellation c =
     insert_row cancellation_key pd_cancellations pd_cancellations_update
       (\<lambda>s. cancellation_valid c
          \<and> (case order_of (cancelled_order_key c) s of None \<Rightarrow> False | Some x \<Rightarrow> dval (go_reserved x) = dval (cx_released c))
          \<and> row_of cancelled_order_key (cancelled_order_key c) (pd_cancellations s) = None) c"

definition add_event :: "paper_order_event \<Rightarrow> (paper_db, unit) action" where
  "add_event e =
     insert_row order_event_key pd_events pd_events_update
       (\<lambda>s. event_valid e \<and> order_of (oe_account e, oe_order e) s \<noteq> None
          \<and> pred_option (\<lambda>c. row_of cancellation_key (oe_account e, c) (pd_cancellations s) \<noteq> None
               \<and> row_of (\<lambda>x. (oe_account x, oe_cancellation x)) (oe_account e, Some c) (pd_events s) = None)
             (oe_cancellation e)) e"

end
