(* ===== verification/PaperRequests.thy ===== *)
theory PaperRequests
  imports PaperTables
begin

text \<open>
  What \<open>KalshiPaperService\<close> (\<open>services/kalshi_paper_service.py\<close>) does before it writes anything:
  the checks on the arguments of its operations, the request hash under which a decision is
  recorded, and \<open>_resolve_opportunity\<close>, which reads the one Kalshi position of an active
  opportunity. SHA-256 is an argument. \<open>str.lower\<close> and \<open>str.upper\<close> are those of ASCII letters.
\<close>

section \<open>Texts and amounts\<close>

definition py_lower :: "string \<Rightarrow> string" where
  "py_lower s = map lower_char s"

text \<open>\<open>a or b\<close>, and \<open>str(v or "")\<close>\<close>

definition py_or :: "pyval \<Rightarrow> pyval \<Rightarrow> pyval" where
  "py_or a b = (if py_bool a then a else b)"

definition text_or_empty :: "pyval \<Rightarrow> string" where
  "text_or_empty v = py_str (py_or v (PStr []))"

text \<open>\<open>_parse_cash\<close>\<close>

definition parse_cash :: "pyval \<Rightarrow> string \<Rightarrow> dec res" where
  "parse_cash v field =
     (case v of
        PStr s \<Rightarrow>
          if \<not> plain_decimal s then Inl (ValueError (field @ '' must be a decimal string''))
          else bindE (finite_dec (parse_decimal s)
                 (ValueError (field @ '' must be a finite decimal string''))) (\<lambda>d.
            if dexp d < - 18 then Inl (ValueError (field @ '' has more than 18 decimal places''))
            else if dval d < 0 then Inl (ValueError (field @ '' must be non-negative''))
            else Inr d)
      | _ \<Rightarrow> Inl (ValueError (field @ '' must be a decimal string'')))"

definition scaled_text :: "nat \<Rightarrow> dec \<Rightarrow> string res" where
  "scaled_text k d = decimal_string (Fin d) (Some k)"

text \<open>\<open>_money18\<close>\<close>

definition money18 :: "dec \<Rightarrow> string res" where
  "money18 d = scaled_text 18 d"

section \<open>Resolving an opportunity\<close>

abbreviation ineligible :: "string \<Rightarrow> 'a res" where
  "ineligible m \<equiv> Inl (PaperOpportunityIneligible m)"

definition only_dict :: "pyval \<Rightarrow> string \<Rightarrow> pydict res" where
  "only_dict v m = (case v of PList [PDict d] \<Rightarrow> Inr d | _ \<Rightarrow> ineligible m)"

definition names_opportunity :: "string \<Rightarrow> opportunity_state \<Rightarrow> bool" where
  "names_opportunity requested st =
     (case os_document st of
        PDict d \<Rightarrow> requested \<in> {text_or_empty (py_get d ''id''), text_or_empty (py_get d ''stable_id''), os_stable_id st}
      | _ \<Rightarrow> False)"

text \<open>The ticker and the outcome of the one position.\<close>

definition read_position :: "pydict \<Rightarrow> (string \<times> outcome) res" where
  "read_position p =
     (if py_lower (strip (text_or_empty (py_get p ''platform''))) \<noteq> ''kalshi''
      then ineligible ''paper execution requires one Kalshi position''
      else if py_lower (strip (text_or_empty (py_get p ''action''))) \<noteq> ''buy''
      then ineligible ''paper execution is buy-only''
      else case outcome_of (py_lower (strip (text_or_empty (py_get p ''outcome'')))) of
        None \<Rightarrow> ineligible ''paper execution requires a YES or NO outcome''
      | Some side \<Rightarrow>
          let ticker = py_upper (strip (text_or_empty (py_or (py_get p ''ticker'') (py_get p ''market_id'')))) in
          if ticker = [] then ineligible ''Kalshi ticker is missing''
          else if py_upper (strip (py_str (py_or (py_get p ''market_id'') (PStr ticker)))) \<noteq> ticker
          then ineligible ''Kalshi ticker and market identity disagree''
          else Inr (ticker, side))"

definition check_market :: "pydict \<Rightarrow> string \<Rightarrow> unit res" where
  "check_market m ticker =
     (if py_lower (strip (text_or_empty (py_get m ''platform''))) \<noteq> ''kalshi''
      then ineligible ''paper execution requires one Kalshi market''
      else if py_upper (strip (text_or_empty (py_or (py_get m ''ticker'') (py_get m ''id'')))) \<noteq> ticker
      then ineligible ''opportunity market and position ticker disagree''
      else Inr ())"

definition snapshot_of ::
    "pydict \<Rightarrow> string \<Rightarrow> string \<Rightarrow> string \<Rightarrow> int option \<Rightarrow> string \<Rightarrow> outcome \<Rightarrow> pyval" where
  "snapshot_of payload oid stable_id strategy version ticker side = PDict
     [(''opportunity_id'', PStr oid), (''opportunity_stable_id'', PStr stable_id),
      (''strategy_key'', PStr strategy),
      (''strategy_version'', PStr (case version of None \<Rightarrow> [] | Some v \<Rightarrow> int_str v)),
      (''title'', PStr (text_or_empty (py_get payload ''title''))),
      (''description'', PStr (text_or_empty (py_get payload ''description''))),
      (''platform'', PStr ''kalshi''), (''ticker'', PStr ticker), (''outcome'', PStr (outcome_text side)),
      (''action'', PStr ''buy'')]"

definition resolve_opportunity ::
    "(string \<Rightarrow> string) \<Rightarrow> string \<Rightarrow> opportunity_state list \<Rightarrow> resolved_opportunity res" where
  "resolve_opportunity sha opportunity_id states =
     (let requested = strip opportunity_id in
      if requested = [] then Inl (PaperOpportunityNotFound ''opportunity not found'') else
      case List.find (names_opportunity requested) (filter os_active states) of
        None \<Rightarrow> Inl (PaperOpportunityNotFound ''active opportunity not found'')
      | Some st \<Rightarrow>
      bindE (as_dict (os_document st) (PaperOpportunityNotFound ''active opportunity not found'')) (\<lambda>payload.
      bindE (only_dict (py_get payload ''positions_to_take'') ''paper execution requires exactly one position'') (\<lambda>p.
      bindE (read_position p) (\<lambda>(ticker, side).
      bindE (only_dict (py_get payload ''markets'') ''paper execution requires exactly one market'') (\<lambda>m.
      bindE (check_market m ticker) (\<lambda>_.
      let oid = strip (text_or_empty (py_get payload ''id''));
          stable = strip (py_str (py_or (py_get payload ''stable_id'') (PStr (os_stable_id st))));
          strategy = strip (text_or_empty (py_get payload ''strategy''));
          version = (case py_get payload ''revision'' of PInt v \<Rightarrow> Some v | _ \<Rightarrow> None);
          snapshot = snapshot_of payload oid stable strategy version ticker side
      in if oid = [] \<or> stable = [] \<or> strategy = []
         then ineligible ''opportunity identity or strategy provenance is missing''
         else Inr \<lparr>rv_opportunity_id = oid, rv_stable_id = stable, rv_strategy_key = strategy,
           rv_strategy_version = version, rv_ticker = ticker, rv_outcome = side, rv_snapshot = snapshot,
           rv_revision = sha (json_dumps snapshot)\<rparr>))))))"

text \<open>\<open>get_eligibility\<close>\<close>

definition get_eligibility ::
    "(string \<Rightarrow> string) \<Rightarrow> string \<Rightarrow> opportunity_state list \<Rightarrow> pyval res" where
  "get_eligibility sha opportunity_id states =
     bindE (resolve_opportunity sha opportunity_id states) (\<lambda>r. Inr (PDict
       [(''opportunity_id'', PStr (rv_opportunity_id r)), (''opportunity_stable_id'', PStr (rv_stable_id r)),
        (''opportunity_revision'', PStr (rv_revision r)), (''strategy_key'', PStr (rv_strategy_key r)),
        (''strategy_version'', (case rv_strategy_version r of None \<Rightarrow> PNone | Some v \<Rightarrow> PInt v)),
        (''ticker'', PStr (rv_ticker r)), (''outcome'', PStr (outcome_text (rv_outcome r))),
        (''order_side'', PStr ''buy''), (''time_in_force'', PStr ''immediate_or_cancel'')]))"

section \<open>Requests\<close>

definition paper_action_of :: "string \<Rightarrow> paper_action option" where
  "paper_action_of s = (if s = ''execute'' then Some Execute else if s = ''pass'' then Some Pass else None)"

definition paper_tif_of :: "string \<Rightarrow> paper_tif option" where
  "paper_tif_of s =
     (if s = ''immediate_or_cancel'' then Some Ioc else if s = ''good_till_canceled'' then Some Gtc else None)"

text \<open>The arguments of \<open>record_decision\<close>; \<open>quantity\<close> and \<open>limit_price\<close> may be \<open>None\<close>.\<close>

record entry_args =
  ea_account_id :: string
  ea_decision_id :: string
  ea_opportunity_id :: string
  ea_opportunity_revision :: string
  ea_action :: string
  ea_quantity :: pyval
  ea_limit_price :: pyval
  ea_time_in_force :: string

record entry_request =
  er_account :: string
  er_decision :: string
  er_opportunity :: string
  er_revision :: string
  er_action :: paper_action
  er_quantity :: "dec option"
  er_limit :: "dec option"
  er_tif :: paper_tif
  er_hash :: string

definition request_document ::
    "string \<Rightarrow> string \<Rightarrow> string \<Rightarrow> string \<Rightarrow> paper_action \<Rightarrow> pyval \<Rightarrow> pyval \<Rightarrow> paper_tif \<Rightarrow> pyval" where
  "request_document account decision opportunity revision action quantity limit tif = PDict
     ([(''account_id'', PStr account), (''decision_id'', PStr decision), (''opportunity_id'', PStr opportunity),
       (''opportunity_revision'', PStr revision), (''action'', PStr (paper_action_text action)),
       (''quantity'', quantity), (''limit_price'', limit)]
      @ (if action = Execute \<and> tif = Gtc then [(''time_in_force'', PStr (paper_tif_text tif))] else []))"

definition entry_request_of :: "(string \<Rightarrow> string) \<Rightarrow> entry_args \<Rightarrow> entry_request res" where
  "entry_request_of sha x =
     (let account = strip (ea_account_id x); decision = strip (ea_decision_id x);
          opportunity = strip (ea_opportunity_id x); revision = py_lower (strip (ea_opportunity_revision x));
          request = (\<lambda>action quantity limit tif doc_quantity doc_limit.
            \<lparr>er_account = account, er_decision = decision, er_opportunity = opportunity, er_revision = revision,
             er_action = action, er_quantity = quantity, er_limit = limit, er_tif = tif,
             er_hash = sha (json_dumps (request_document account decision opportunity revision action
               doc_quantity doc_limit tif))\<rparr>)
      in if account = [] \<or> decision = [] \<or> opportunity = []
         then Inl (ValueError ''account_id, decision_id, and opportunity_id are required'')
         else if \<not> sha256_text revision then Inl (ValueError ''opportunity_revision must be a SHA-256 digest'')
         else case paper_action_of (ea_action x) of
           None \<Rightarrow> Inl (ValueError ''action must be execute or pass'')
         | Some action \<Rightarrow>
         (case paper_tif_of (ea_time_in_force x) of
           None \<Rightarrow> Inl (ValueError ''time_in_force must be immediate_or_cancel or good_till_canceled'')
         | Some tif \<Rightarrow>
         (case action of
           Execute \<Rightarrow>
             bindE (parse_quantity (ea_quantity x) ''quantity'') (\<lambda>q.
             bindE (parse_price (ea_limit_price x) ''limit_price'') (\<lambda>l.
             bindE (scaled_text 2 q) (\<lambda>qt.
             bindE (scaled_text 6 l) (\<lambda>lt.
             Inr (request Execute (Some q) (Some l) tif (PStr qt) (PStr lt))))))
         | Pass \<Rightarrow>
             if ea_quantity x \<noteq> PNone \<or> ea_limit_price x \<noteq> PNone
             then Inl (ValueError ''pass decisions cannot include quantity or limit_price'')
             else if tif \<noteq> Ioc then Inl (ValueError ''pass decisions cannot include good_till_canceled'')
             else Inr (request Pass None None tif PNone PNone))))"

text \<open>The arguments of \<open>record_exit\<close>.\<close>

record exit_args =
  xa_account_id :: string
  xa_decision_id :: string
  xa_position_id :: string
  xa_quantity :: pyval
  xa_minimum_price :: pyval

record exit_request =
  xq_account :: string
  xq_decision :: string
  xq_position :: string
  xq_quantity :: dec
  xq_minimum :: dec
  xq_hash :: string

definition exit_request_of :: "(string \<Rightarrow> string) \<Rightarrow> exit_args \<Rightarrow> exit_request res" where
  "exit_request_of sha x =
     (let account = strip (xa_account_id x); decision = strip (xa_decision_id x);
          position = strip (xa_position_id x)
      in if account = [] \<or> decision = [] \<or> position = []
         then Inl (ValueError ''account_id, decision_id, and position_id are required'')
         else
         bindE (parse_quantity (xa_quantity x) ''quantity'') (\<lambda>q.
         bindE (parse_price (xa_minimum_price x) ''minimum_price'') (\<lambda>m.
         bindE (scaled_text 2 q) (\<lambda>qt.
         bindE (scaled_text 6 m) (\<lambda>mt.
         Inr \<lparr>xq_account = account, xq_decision = decision, xq_position = position, xq_quantity = q,
           xq_minimum = m,
           xq_hash = sha (json_dumps (PDict
             [(''account_id'', PStr account), (''decision_id'', PStr decision), (''position_id'', PStr position),
              (''action'', PStr ''execute''), (''order_side'', PStr ''sell''),
              (''time_in_force'', PStr ''immediate_or_cancel''), (''quantity'', PStr qt),
              (''minimum_price'', PStr mt)]))\<rparr>)))))"

end
