(* ===== verification/PaperService.thy ===== *)
theory PaperService
  imports PaperRequests
begin

text \<open>
  The operations of \<open>KalshiPaperService\<close> (\<open>services/kalshi_paper_service.py\<close>): accounts, decisions,
  exits of positions and cancellations, each the transactions the code runs, and what it returns
  for a row. The market data client, SHA-256, fresh ids and the clock are arguments; the clock is
  read once per transaction. What other callers commit before each transaction is the argument
  \<open>others\<close>, so the advisory locks, which only keep callers apart, have no counterpart.
\<close>

section \<open>Quotes\<close>

record paper_market =
  pm_ticker :: string
  pm_event_ticker :: string
  pm_notional_value :: pydec
  pm_price_level_structure :: string
  pm_price_ranges :: "paper_price_range list"
  pm_fee :: pydec
  pm_fee_rule_version :: string
  pm_fee_provenance :: "(string \<times> string) list"
  pm_fee_waiver_expiration :: int
  pm_observed_at :: int
  pm_fetched_at :: int
  pm_evidence_hash :: string
  pm_evidence_json :: string

record paper_quote =
  pq_market :: paper_market
  pq_book :: paper_book

record prepared =
  prep_quote :: "paper_quote option"
  prep_result :: "paper_fill_result option"
  prep_status :: paper_status
  prep_reason :: string

definition evidence_of :: "paper_quote option \<Rightarrow> quote_evidence" where
  "evidence_of quote =
     (case quote of
        None \<Rightarrow> \<lparr>qe_event_ticker = None, qe_source_origin = None, qe_market_observed_at = None,
          qe_market_fetched_at = None, qe_market_hash = None, qe_market_json = None,
          qe_book_observed_at = None, qe_book_fetched_at = None, qe_book_hash = None, qe_book_json = None,
          qe_fee_rule_version = ''not_evaluated'', qe_fee_provenance = []\<rparr>
      | Some q \<Rightarrow> let m = pq_market q; b = pq_book q in
          \<lparr>qe_event_ticker = Some (pm_event_ticker m), qe_source_origin = Some (pb_source_origin b),
           qe_market_observed_at = Some (pm_observed_at m), qe_market_fetched_at = Some (pm_fetched_at m),
           qe_market_hash = Some (pm_evidence_hash m), qe_market_json = Some (pm_evidence_json m),
           qe_book_observed_at = Some (pb_observed_at b), qe_book_fetched_at = Some (pb_fetched_at b),
           qe_book_hash = Some (pb_evidence_hash b), qe_book_json = Some (pb_evidence_json b),
           qe_fee_rule_version = pm_fee_rule_version m, qe_fee_provenance = pm_fee_provenance m\<rparr>)"

text \<open>
  The age of a source is \<open>Decimal(str(d.total_seconds()))\<close>; around the bound of 5 seconds that is
  the exact number of microseconds.
\<close>

definition max_source_age :: int where
  "max_source_age = 5000000"

definition source_stale :: "int \<Rightarrow> int \<Rightarrow> bool" where
  "source_stale now observed = (now - observed < - max_source_age \<or> max_source_age < now - observed)"

definition quote_stale :: "int \<Rightarrow> paper_quote \<Rightarrow> bool" where
  "quote_stale now q =
     (source_stale now (pm_observed_at (pq_market q)) \<or> source_stale now (pb_observed_at (pq_book q)))"

section \<open>Replies\<close>

text \<open>A dict display whose values may raise, and \<open>None\<close> for an absent value.\<close>

definition object_of :: "(string \<times> pyval res) list \<Rightarrow> pyval res" where
  "object_of kvs = bindE (traverseE (\<lambda>(k, v). bindE v (\<lambda>x. Inr (k, x))) kvs) (\<lambda>items. Inr (PDict items))"

definition text_value :: "string res \<Rightarrow> pyval res" where
  "text_value r = bindE r (\<lambda>s. Inr (PStr s))"

definition optional_value :: "('a \<Rightarrow> pyval res) \<Rightarrow> 'a option \<Rightarrow> pyval res" where
  "optional_value f v = (case v of None \<Rightarrow> Inr PNone | Some x \<Rightarrow> f x)"

abbreviation optional_str :: "string option \<Rightarrow> pyval res" where
  "optional_str \<equiv> optional_value (\<lambda>s. Inr (PStr s))"

abbreviation units_of :: "nat \<Rightarrow> string \<Rightarrow> dec \<Rightarrow> int res" where
  "units_of scale field d \<equiv> to_scaled_int scale field (Fin d)"

definition serialize_account :: "paper_account \<Rightarrow> pyval res" where
  "serialize_account a =
     bindE (units_of 18 ''cash_balance'' (ac_cash_balance a)) (\<lambda>cash.
     bindE (units_of 18 ''reserved_cash'' (ac_reserved_cash a)) (\<lambda>reserved.
     object_of
       [(''id'', Inr (PStr (ac_id a))), (''name'', Inr (PStr (ac_name a))), (''currency'', Inr (PStr (ac_currency a))),
        (''starting_cash'', text_value (money18 (ac_starting_cash a))),
        (''cash_balance'', text_value (money18 (ac_cash_balance a))),
        (''reserved_cash'', text_value (money18 (ac_reserved_cash a))),
        (''available_cash'', text_value (money18 (from_scaled_int 18 (cash - reserved)))),
        (''journal_sequence'', Inr (PInt (ac_journal_sequence a))),
        (''created_at'', Inr (PStr (isoformat (ac_created_at a)))),
        (''updated_at'', Inr (PStr (isoformat (ac_updated_at a))))]))"

definition serialize_fill :: "paper_fill_row \<Rightarrow> pyval res" where
  "serialize_fill r =
     (let f = fr_fill r in object_of
       [(''sequence'', Inr (PInt (int (pf_sequence f)))), (''quantity'', text_value (scaled_text 2 (pf_quantity f))),
        (''price'', text_value (scaled_text 6 (pf_price f))), (''notional'', text_value (scaled_text 8 (pf_notional f))),
        (''fee'', text_value (money18 (fr_fee r))),
        (''source_bid_price'', text_value (scaled_text 6 (pf_source_bid_price f))),
        (''source_side'', Inr (PStr (outcome_text (pf_source_side f))))])"

definition decision_fills :: "string \<times> string \<Rightarrow> paper_db \<Rightarrow> paper_fill_row list" where
  "decision_fills k db = filter (\<lambda>f. (fr_account f, fr_decision f) = k) (pd_fills db)"

definition decision_order :: "string \<times> string \<Rightarrow> paper_db \<Rightarrow> paper_order option" where
  "decision_order k db = row_of order_decision_key k (pd_orders db)"

definition serialize_decision :: "paper_decision \<Rightarrow> paper_db \<Rightarrow> pyval res" where
  "serialize_decision d db =
     (let r = dc_resolved d; e = dc_evidence d in
     bindE (traverseE serialize_fill (sort_key (\<lambda>f. pf_sequence (fr_fill f)) (decision_fills (decision_key d) db)))
       (\<lambda>fills.
     let order = decision_order (decision_key d) db in
     object_of
       [(''account_id'', Inr (PStr (dc_account d))), (''decision_id'', Inr (PStr (dc_decision d))),
        (''account_sequence'', Inr (PInt (dc_sequence d))),
        (''action'', Inr (PStr (paper_action_text (dc_action d)))),
        (''opportunity_id'', Inr (PStr (rv_opportunity_id r))),
        (''opportunity_stable_id'', Inr (PStr (rv_stable_id r))),
        (''opportunity_revision'', Inr (PStr (rv_revision r))),
        (''strategy_key'', Inr (PStr (rv_strategy_key r))),
        (''strategy_version'', optional_value (\<lambda>v. Inr (PInt v)) (rv_strategy_version r)),
        (''ticker'', Inr (PStr (rv_ticker r))), (''event_ticker'', optional_str (qe_event_ticker e)),
        (''outcome'', Inr (PStr (outcome_text (rv_outcome r)))),
        (''order_side'', optional_str (map_option trade_side_text (dc_side d))),
        (''position_id'', optional_str (dc_position d)),
        (''time_in_force'', optional_str (map_option paper_tif_text (dc_tif d))),
        (''requested_quantity'', optional_value (\<lambda>q. text_value (scaled_text 2 q)) (dc_quantity d)),
        (''limit_price'', optional_value (\<lambda>q. text_value (scaled_text 6 q)) (dc_limit_price d)),
        (''status'', Inr (PStr (paper_status_text (dc_status d)))), (''reason'', Inr (PStr (dc_reason d))),
        (''filled_quantity'', text_value (scaled_text 2 (dc_filled d))),
        (''remaining_quantity'', text_value (scaled_text 2 (dc_remaining d))),
        (''average_fill_price'', optional_value (\<lambda>a. text_value (money18 a)) (dc_average d)),
        (''notional'', text_value (scaled_text 8 (dc_notional d))), (''fee'', text_value (money18 (dc_fee d))),
        (''position_cost_basis'', optional_value (\<lambda>c. text_value (money18 c)) (dc_cost_basis d)),
        (''realized_pnl'', optional_value (\<lambda>p. text_value (money18 p)) (dc_pnl d)),
        (''cash_before'', text_value (money18 (dc_cash_before d))),
        (''cash_after'', text_value (money18 (dc_cash_after d))),
        (''fill_formula_version'', Inr (PStr (dc_formula_version d))),
        (''fee_rule_version'', Inr (PStr (qe_fee_rule_version e))),
        (''fee_provenance'', Inr (PDict (map (\<lambda>(k, v). (k, PStr v)) (qe_fee_provenance e)))),
        (''market_evidence_hash'', optional_str (qe_market_hash e)),
        (''book_evidence_hash'', optional_str (qe_book_hash e)),
        (''order_id'', optional_str (map_option go_order order)),
        (''reserved_cash'', text_value (money18 (case order of None \<Rightarrow> dzero | Some x \<Rightarrow> go_reserved x))),
        (''opportunity_snapshot'', Inr (rv_snapshot r)), (''fills'', Inr (PList fills)),
        (''created_at'', Inr (PStr (isoformat (dc_created_at d))))]))"

definition serialize_cancellation :: "paper_cancellation \<Rightarrow> pyval res" where
  "serialize_cancellation c = object_of
     [(''account_id'', Inr (PStr (cx_account c))), (''order_id'', Inr (PStr (cx_order c))),
      (''cancellation_id'', Inr (PStr (cx_cancellation c))), (''status'', Inr (PStr (cx_status c))),
      (''released_cash'', text_value (money18 (cx_released c))),
      (''created_at'', Inr (PStr (isoformat (cx_created_at c))))]"

definition cancellation_of_order :: "string \<times> string \<Rightarrow> paper_db \<Rightarrow> paper_cancellation option" where
  "cancellation_of_order k db = row_of cancelled_order_key k (pd_cancellations db)"

definition cancelable :: "paper_order \<Rightarrow> paper_db \<Rightarrow> bool" where
  "cancelable x db =
     (cancellation_of_order (paper_order_key x) db = None \<and> 0 < dval (go_open x) \<and> 0 < dval (go_reserved x))"

definition serialize_order :: "paper_order \<Rightarrow> paper_db \<Rightarrow> pyval res" where
  "serialize_order x db =
     (let c = cancellation_of_order (paper_order_key x) db in object_of
       [(''account_id'', Inr (PStr (go_account x))), (''order_id'', Inr (PStr (go_order x))),
        (''decision_id'', Inr (PStr (go_decision x))), (''ticker'', Inr (PStr (go_ticker x))),
        (''outcome'', Inr (PStr (outcome_text (go_outcome x)))), (''side'', Inr (PStr (trade_side_text (go_side x)))),
        (''time_in_force'', Inr (PStr (paper_tif_text (go_tif x)))),
        (''requested_quantity'', text_value (scaled_text 2 (go_quantity x))),
        (''filled_quantity'', text_value (scaled_text 2 (go_filled x))),
        (''open_quantity'', text_value (scaled_text 2 (go_open x))),
        (''limit_price'', text_value (scaled_text 6 (go_limit_price x))),
        (''reserved_cash'', text_value (money18 (go_reserved x))),
        (''cancelable'', Inr (PBool (cancelable x db))),
        (''status'', Inr (PStr (if cancelable x db then ''open'' else if c \<noteq> None then ''cancelled'' else ''filled''))),
        (''cancellation_id'', optional_str (map_option cx_cancellation c)),
        (''later_matching_supported'', Inr (PBool False)),
        (''created_at'', Inr (PStr (isoformat (go_created_at x))))])"

section \<open>Exits of a position\<close>

definition exits_of :: "string \<times> string \<Rightarrow> paper_db \<Rightarrow> paper_decision list" where
  "exits_of k db =
     filter (\<lambda>d. (dc_account d, dc_position d) = (fst k, Some (snd k)) \<and> dc_side d = Some Sell) (pd_decisions db)"

text \<open>\<open>func.coalesce(func.sum(column), Decimal("0"))\<close>, which skips NULL\<close>

definition sql_sum :: "dec list \<Rightarrow> dec" where
  "sql_sum ds = foldl dec_add_exact dzero ds"

definition sold_quantity :: "string \<times> string \<Rightarrow> paper_db \<Rightarrow> dec" where
  "sold_quantity k db = sql_sum (map dc_filled (exits_of k db))"

definition allocated_cost :: "string \<times> string \<Rightarrow> paper_db \<Rightarrow> dec" where
  "allocated_cost k db = sql_sum (List.map_filter dc_cost_basis (exits_of k db))"

text \<open>The sums of \<open>_serialize_position\<close>: quantity, notional, fee, cost and profit in units.\<close>

definition required_column :: "dec option \<Rightarrow> string \<Rightarrow> dec res" where
  "required_column v field =
     (case v of None \<Rightarrow> paper_error (field @ '' must be a finite decimal'') | Some d \<Rightarrow> Inr d)"

definition add_exit :: "int \<times> int \<times> int \<times> int \<times> int \<Rightarrow> paper_decision \<Rightarrow> (int \<times> int \<times> int \<times> int \<times> int) res" where
  "add_exit = (\<lambda>(sold, notional, fee, cost, pnl) d.
     bindE (units_of 2 ''filled_quantity'' (dc_filled d)) (\<lambda>q.
     bindE (units_of 18 ''notional'' (dc_notional d)) (\<lambda>n.
     bindE (units_of 18 ''fee'' (dc_fee d)) (\<lambda>f.
     bindE (required_column (dc_cost_basis d) ''position_cost_basis'') (\<lambda>cd.
     bindE (units_of 18 ''position_cost_basis'' cd) (\<lambda>c.
     bindE (required_column (dc_pnl d) ''realized_pnl'') (\<lambda>pd.
     bindE (units_of 18 ''realized_pnl'' pd) (\<lambda>p.
     Inr (sold + q, notional + n, fee + f, cost + c, pnl + p)))))))))"

definition serialize_position :: "paper_position \<Rightarrow> paper_db \<Rightarrow> pyval res" where
  "serialize_position p db =
     (let exits = sort_key dc_sequence (exits_of (position_key p) db) in
     bindE (foldE add_exit (0, 0, 0, 0, 0) exits) (\<lambda>(sold, notional, fee, cost, pnl).
     bindE (units_of 2 ''entry_quantity'' (hp_quantity p)) (\<lambda>entry.
     object_of
       [(''account_id'', Inr (PStr (hp_account p))), (''position_id'', Inr (PStr (hp_position p))),
        (''entry_decision_id'', Inr (PStr (hp_entry_decision p))), (''ticker'', Inr (PStr (hp_ticker p))),
        (''outcome'', Inr (PStr (outcome_text (hp_outcome p)))),
        (''entry_quantity'', text_value (scaled_text 2 (hp_quantity p))),
        (''entry_notional'', text_value (money18 (hp_notional p))), (''entry_fee'', text_value (money18 (hp_fee p))),
        (''sold_quantity'', text_value (scaled_text 2 (from_scaled_int 2 sold))),
        (''remaining_quantity'', text_value (scaled_text 2 (from_scaled_int 2 (entry - sold)))),
        (''exit_notional'', text_value (money18 (from_scaled_int 18 notional))),
        (''exit_fee'', text_value (money18 (from_scaled_int 18 fee))),
        (''allocated_entry_cost'', text_value (money18 (from_scaled_int 18 cost))),
        (''realized_pnl'', text_value (money18 (from_scaled_int 18 pnl))),
        (''status'', Inr (PStr (if entry - sold = 0 then ''closed'' else ''open''))),
        (''closable'', Inr (PBool (0 < entry - sold))),
        (''exit_decision_ids'', Inr (PList (map (\<lambda>d. PStr (dc_decision d)) exits))),
        (''created_at'', Inr (PStr (isoformat (hp_created_at p))))])))"

end
