(* ===== verification/PaperDecisions.thy ===== *)
theory PaperDecisions
  imports PaperService
begin

text \<open>
  The writing operations of \<open>KalshiPaperService\<close>: \<open>create_account\<close>, \<open>cancel_order\<close>,
  \<open>record_decision\<close> and \<open>record_exit\<close>. A decision or an exit is recorded in two transactions, the
  intent and, after the quote, the commit; what a commit writes is computed first, as a
  \<open>posting\<close>.
\<close>

section \<open>What a commit settles\<close>

record settlement =
  st_status :: paper_status
  st_reason :: string
  st_fills :: "paper_fill list"
  st_filled :: dec
  st_remaining :: dec
  st_average :: "dec option"
  st_notional :: dec
  st_fee :: dec

definition prepared_settlement :: "prepared \<Rightarrow> dec \<Rightarrow> settlement" where
  "prepared_settlement pp requested =
     (case prep_result pp of
        None \<Rightarrow> \<lparr>st_status = prep_status pp, st_reason = prep_reason pp, st_fills = [], st_filled = dzero,
          st_remaining = requested, st_average = None, st_notional = dzero, st_fee = dzero\<rparr>
      | Some r \<Rightarrow> \<lparr>st_status = prep_status pp, st_reason = prep_reason pp, st_fills = px_fills r,
          st_filled = px_filled_quantity r, st_remaining = px_remaining_quantity r,
          st_average = px_average_fill_price r, st_notional = px_notional r, st_fee = px_fee r\<rparr>)"

text \<open>A rejection fills nothing.\<close>

definition void_settlement :: "string \<Rightarrow> dec \<Rightarrow> settlement" where
  "void_settlement reason requested =
     \<lparr>st_status = Rejected, st_reason = reason, st_fills = [], st_filled = dzero, st_remaining = requested,
      st_average = None, st_notional = dzero, st_fee = dzero\<rparr>"

text \<open>\<open>requested_quantity or Decimal("0")\<close>; a quantity is never zero.\<close>

definition quantity_or_zero :: "dec option \<Rightarrow> dec" where
  "quantity_or_zero q = (case q of None \<Rightarrow> dzero | Some d \<Rightarrow> if dval d = 0 then dzero else d)"

definition entry_settlement :: "prepared \<Rightarrow> dec option \<Rightarrow> int \<Rightarrow> settlement" where
  "entry_settlement pp requested now =
     (case prep_quote pp of
        None \<Rightarrow> prepared_settlement pp (case requested of None \<Rightarrow> dzero | Some q \<Rightarrow> q)
      | Some q \<Rightarrow>
          if quote_stale now q then void_settlement ''market_data_stale_before_commit'' (quantity_or_zero requested)
          else if pm_fee_waiver_expiration (pq_market q) \<le> now
          then void_settlement ''fee_waiver_expired_before_commit'' (quantity_or_zero requested)
          else prepared_settlement pp (case requested of None \<Rightarrow> dzero | Some q \<Rightarrow> q))"

definition exit_settlement :: "prepared \<Rightarrow> dec \<Rightarrow> bool \<Rightarrow> int \<Rightarrow> settlement" where
  "exit_settlement pp requested exceeds now =
     (if exceeds then void_settlement ''exit_quantity_exceeds_remaining_position'' requested
      else case prep_quote pp of
        None \<Rightarrow> if prep_status pp = Rejected then void_settlement (prep_reason pp) requested
          else prepared_settlement pp requested
      | Some q \<Rightarrow>
          if quote_stale now q then void_settlement ''market_data_stale_before_commit'' requested
          else if pm_fee_waiver_expiration (pq_market q) \<le> now
          then void_settlement ''fee_waiver_expired_before_commit'' requested
          else if prep_status pp = Rejected then void_settlement (prep_reason pp) requested
          else prepared_settlement pp requested)"

section \<open>What a commit writes\<close>

record posting =
  ps_decision :: paper_decision
  ps_fills :: "paper_fill_row list"
  ps_position :: "paper_position option"
  ps_order :: "paper_order option"
  ps_account :: paper_account

definition formula_version :: "prepared \<Rightarrow> string" where
  "formula_version pp = (case prep_result pp of None \<Rightarrow> ''not_evaluated'' | Some r \<Rightarrow> px_formula_version r)"

definition fill_row ::
    "string \<Rightarrow> string \<Rightarrow> prepared \<Rightarrow> (string \<times> pyval) list \<Rightarrow> int \<Rightarrow> paper_fill \<Rightarrow> paper_fill_row res" where
  "fill_row account decision pp extra now f =
     bindE (scaled_text 2 (pf_quantity f)) (\<lambda>quantity.
     bindE (scaled_text 6 (pf_price f)) (\<lambda>price.
     bindE (scaled_text 8 (pf_notional f)) (\<lambda>notional.
     bindE (money18 dzero) (\<lambda>fee.
     bindE (scaled_text 6 (pf_source_bid_price f)) (\<lambda>source.
     Inr \<lparr>fr_account = account, fr_decision = decision, fr_fill = f, fr_fee = dzero,
       fr_evidence = PDict
         ([(''formula_version'', PStr (case prep_result pp of None \<Rightarrow> [] | Some r \<Rightarrow> px_formula_version r)),
           (''quantity'', PStr quantity), (''price'', PStr price), (''notional'', PStr notional), (''fee'', PStr fee),
           (''source_bid_price'', PStr source), (''source_side'', PStr (outcome_text (pf_source_side f))),
           (''book_evidence_hash'', PStr (case prep_quote pp of None \<Rightarrow> [] | Some q \<Rightarrow> pb_evidence_hash (pq_book q)))]
          @ extra),
       fr_created_at = now\<rparr>)))))"

text \<open>\<open>_sha256(account_id + chr(0) + decision_id)[:32]\<close>\<close>

definition short_hash :: "(string \<Rightarrow> string) \<Rightarrow> string \<Rightarrow> string \<Rightarrow> string" where
  "short_hash sha account decision = take 32 (sha (account @ char_of (0::nat) # decision))"

definition is_simulated :: "paper_status \<Rightarrow> bool" where
  "is_simulated s = (case s of Simulated _ \<Rightarrow> True | _ \<Rightarrow> False)"

definition reserved_units :: "settlement \<Rightarrow> dec option \<Rightarrow> bool \<Rightarrow> int res" where
  "reserved_units s limit opens =
     (if \<not> opens then Inr 0 else
      bindE (units_of 2 ''open_quantity'' (st_remaining s)) (\<lambda>open_units.
      bindE (case limit of None \<Rightarrow> paper_error ''limit_price must be a finite decimal''
             | Some l \<Rightarrow> units_of 6 ''limit_price'' l) (\<lambda>limit_units.
      Inr (open_units * limit_units * 10 ^ 10))))"

text \<open>The rows of an entry, from what was settled and the units of cash and reservation.\<close>

definition entry_posting ::
    "(string \<Rightarrow> string) \<Rightarrow> entry_request \<Rightarrow> resolved_opportunity \<Rightarrow> prepared \<Rightarrow> int \<Rightarrow> paper_account
       \<Rightarrow> settlement \<Rightarrow> paper_fill_row list \<Rightarrow> bool \<Rightarrow> int \<Rightarrow> int \<Rightarrow> int \<Rightarrow> posting" where
  "entry_posting sha rq ro pp now acct s fills opens cash_after reserved reservation =
     (let executes = (er_action rq = Execute) in
      \<lparr>ps_decision = \<lparr>dc_account = er_account rq, dc_decision = er_decision rq,
         dc_sequence = ac_journal_sequence acct + 1, dc_request_hash = er_hash rq, dc_action = er_action rq,
         dc_resolved = ro, dc_evidence = evidence_of (prep_quote pp),
         dc_side = (if executes then Some Buy else None), dc_position = None,
         dc_tif = (if executes then Some (er_tif rq) else None), dc_quantity = er_quantity rq,
         dc_limit_price = er_limit rq, dc_status = st_status s, dc_reason = st_reason s,
         dc_formula_version = formula_version pp, dc_filled = st_filled s, dc_remaining = st_remaining s,
         dc_average = st_average s, dc_notional = st_notional s, dc_fee = st_fee s, dc_cost_basis = None,
         dc_pnl = None, dc_cash_before = ac_cash_balance acct,
         dc_cash_after = from_scaled_int 18 cash_after, dc_created_at = now\<rparr>,
       ps_fills = fills,
       ps_position =
         (if executes \<and> st_status s \<in> {Simulated Filled, Simulated Partial} \<and> 0 < dval (st_filled s)
          then Some \<lparr>hp_account = er_account rq,
            hp_position = ''paper-position:'' @ short_hash sha (er_account rq) (er_decision rq),
            hp_entry_decision = er_decision rq, hp_ticker = rv_ticker ro, hp_outcome = rv_outcome ro,
            hp_quantity = st_filled s, hp_notional = st_notional s, hp_fee = st_fee s, hp_created_at = now\<rparr>
          else None),
       ps_order =
         (case (opens, er_quantity rq, er_limit rq) of
            (True, Some q, Some l) \<Rightarrow> Some \<lparr>go_account = er_account rq,
              go_order = ''paper-order:'' @ short_hash sha (er_account rq) (er_decision rq),
              go_decision = er_decision rq, go_ticker = rv_ticker ro, go_outcome = rv_outcome ro, go_side = Buy,
              go_tif = Gtc, go_quantity = q, go_filled = st_filled s, go_open = st_remaining s,
              go_limit_price = l, go_decision_status = st_status s,
              go_reserved = from_scaled_int 18 reservation, go_created_at = now\<rparr>
          | _ \<Rightarrow> None),
       ps_account = acct\<lparr>ac_cash_balance := from_scaled_int 18 cash_after,
         ac_reserved_cash := from_scaled_int 18 (reserved + reservation),
         ac_journal_sequence := ac_journal_sequence acct + 1, ac_updated_at := now\<rparr>\<rparr>)"

text \<open>
  The computation of \<open>_commit_prepared\<close>: an entry that the cash left beside the reservations does
  not cover is rejected.
\<close>

definition settle_entry ::
    "(string \<Rightarrow> string) \<Rightarrow> entry_request \<Rightarrow> resolved_opportunity \<Rightarrow> prepared \<Rightarrow> int \<Rightarrow> paper_account \<Rightarrow> posting res" where
  "settle_entry sha rq ro pp now acct =
     bindE (units_of 18 ''cash_balance'' (ac_cash_balance acct)) (\<lambda>cash.
     bindE (units_of 18 ''reserved_cash'' (ac_reserved_cash acct)) (\<lambda>reserved.
     let s = entry_settlement pp (er_quantity rq) now in
     bindE (units_of 18 ''notional'' (st_notional s)) (\<lambda>notional.
     bindE (units_of 18 ''fee'' (st_fee s)) (\<lambda>fee.
     let opens = (er_action rq = Execute \<and> er_tif rq = Gtc \<and> is_simulated (st_status s)
                  \<and> er_quantity rq \<noteq> None \<and> er_limit rq \<noteq> None) in
     bindE (reserved_units s (er_limit rq) opens) (\<lambda>reservation.
     if is_simulated (st_status s) \<and> cash - reserved < notional + fee + reservation
     then Inr (entry_posting sha rq ro pp now acct
            (void_settlement ''insufficient_paper_cash'' (quantity_or_zero (er_quantity rq))) [] False cash reserved 0)
     else
     bindE (traverseE (fill_row (er_account rq) (er_decision rq) pp [] now) (st_fills s)) (\<lambda>fills.
     Inr (entry_posting sha rq ro pp now acct s fills opens (cash - notional - fee) reserved reservation)))))))"

text \<open>
  The computation of \<open>_commit_exit\<close>, over the quantity sold and the cost allocated so far: the cost
  of the position is allocated cumulatively, rounded down to units, and wholly at the end.
\<close>

definition cumulative_cost :: "int \<Rightarrow> int \<Rightarrow> int \<Rightarrow> int res" where
  "cumulative_cost entry_total sold entry =
     (if sold = entry then Inr entry_total
      else if entry = 0 then Inl (ZeroDivisionError ''integer division or modulo by zero'')
      else Inr ((entry_total * sold) div entry))"

definition exit_posting ::
    "exit_request \<Rightarrow> resolved_opportunity \<Rightarrow> prepared \<Rightarrow> int \<Rightarrow> paper_account \<Rightarrow> settlement
       \<Rightarrow> paper_fill_row list \<Rightarrow> int \<Rightarrow> int \<Rightarrow> int \<Rightarrow> posting" where
  "exit_posting rq ro pp now acct s fills cash_after basis pnl =
     \<lparr>ps_decision = \<lparr>dc_account = xq_account rq, dc_decision = xq_decision rq,
        dc_sequence = ac_journal_sequence acct + 1, dc_request_hash = xq_hash rq, dc_action = Execute,
        dc_resolved = ro, dc_evidence = evidence_of (prep_quote pp), dc_side = Some Sell,
        dc_position = Some (xq_position rq), dc_tif = Some Ioc, dc_quantity = Some (xq_quantity rq),
        dc_limit_price = Some (xq_minimum rq), dc_status = st_status s, dc_reason = st_reason s,
        dc_formula_version = formula_version pp, dc_filled = st_filled s, dc_remaining = st_remaining s,
        dc_average = st_average s, dc_notional = st_notional s, dc_fee = st_fee s,
        dc_cost_basis = Some (from_scaled_int 18 basis), dc_pnl = Some (from_scaled_int 18 pnl),
        dc_cash_before = ac_cash_balance acct, dc_cash_after = from_scaled_int 18 cash_after, dc_created_at = now\<rparr>,
      ps_fills = fills, ps_position = None, ps_order = None,
      ps_account = acct\<lparr>ac_cash_balance := from_scaled_int 18 cash_after,
        ac_journal_sequence := ac_journal_sequence acct + 1, ac_updated_at := now\<rparr>\<rparr>"

definition settle_exit ::
    "exit_request \<Rightarrow> resolved_opportunity \<Rightarrow> prepared \<Rightarrow> int \<Rightarrow> paper_position \<Rightarrow> dec \<Rightarrow> dec \<Rightarrow> paper_account
       \<Rightarrow> posting res" where
  "settle_exit rq ro pp now p prior_sold prior_cost acct =
     bindE (units_of 2 ''entry_quantity'' (hp_quantity p)) (\<lambda>entry.
     bindE (units_of 2 ''prior_sold_quantity'' prior_sold) (\<lambda>prior_sold_units.
     bindE (units_of 2 ''requested_quantity'' (xq_quantity rq)) (\<lambda>requested.
     let s = exit_settlement pp (xq_quantity rq) (entry - prior_sold_units < requested) now in
     bindE (units_of 2 ''filled_quantity'' (st_filled s)) (\<lambda>filled.
     if entry < prior_sold_units + filled
     then Inl (PaperPositionNotClosable ''exit would oversell the paper position'') else
     bindE (units_of 18 ''entry_notional'' (hp_notional p)) (\<lambda>entry_notional.
     bindE (units_of 18 ''entry_fee'' (hp_fee p)) (\<lambda>entry_fee.
     bindE (units_of 18 ''prior_position_cost_basis'' prior_cost) (\<lambda>prior_cost_units.
     bindE (cumulative_cost (entry_notional + entry_fee) (prior_sold_units + filled) entry) (\<lambda>cumulative.
     bindE (units_of 18 ''notional'' (st_notional s)) (\<lambda>notional.
     bindE (units_of 18 ''fee'' (st_fee s)) (\<lambda>fee.
     bindE (units_of 18 ''cash_balance'' (ac_cash_balance acct)) (\<lambda>cash.
     let basis = cumulative - prior_cost_units in
     bindE (traverseE (fill_row (xq_account rq) (xq_decision rq) pp [(''position_id'', PStr (xq_position rq))] now)
              (st_fills s)) (\<lambda>fills.
     Inr (exit_posting rq ro pp now acct s fills (cash + notional - fee) basis (notional - fee - basis))))))))))))))"

section \<open>The commit\<close>

definition opened_event :: "paper_order \<Rightarrow> paper_order_event" where
  "opened_event x =
     \<lparr>oe_account = go_account x, oe_order = go_order x, oe_sequence = 1, oe_type = ''opened'',
      oe_cancellation = None, oe_quantity = go_open x, oe_reserved = go_reserved x, oe_created_at = go_created_at x\<rparr>"

definition optionally :: "('a \<Rightarrow> ('s, unit) action) \<Rightarrow> 'a option \<Rightarrow> ('s, unit) action" where
  "optionally f v = (case v of None \<Rightarrow> liftE (Inr ()) | Some x \<Rightarrow> f x)"

definition post :: "posting \<Rightarrow> (paper_db, unit) action" where
  "post p =
     bindA (add_decision (ps_decision p)) (\<lambda>_.
     bindA (eachA add_paper_fill (ps_fills p)) (\<lambda>_.
     bindA (optionally add_position (ps_position p)) (\<lambda>_.
     bindA (optionally (\<lambda>x. bindA (add_order x) (\<lambda>_. add_event (opened_event x))) (ps_order p)) (\<lambda>_.
     update_account (ps_account p)))))"

definition decision_conflict :: exn where
  "decision_conflict =
     PaperDecisionConflict ''decision_id already exists with different immutable request facts''"

definition no_account :: exn where
  "no_account = PaperAccountNotFound ''paper account not found''"

text \<open>The reply to a decision that is recorded already; \<open>_read_existing\<close> is this read on its own.\<close>

definition existing_reply :: "string \<times> string \<Rightarrow> string \<Rightarrow> paper_db \<Rightarrow> pyval option res" where
  "existing_reply k request_hash db =
     (case decision_of k db of
        None \<Rightarrow> Inr None
      | Some d \<Rightarrow>
          if dc_request_hash d \<noteq> request_hash then Inl decision_conflict
          else bindE (serialize_decision d db) (\<lambda>r. Inr (Some r)))"

text \<open>The row of the account is locked, the decision looked up again, the posting written.\<close>

definition commit_posting ::
    "string \<times> string \<Rightarrow> string \<Rightarrow> (paper_account \<Rightarrow> paper_db \<Rightarrow> posting res) \<Rightarrow> (paper_db, pyval) action" where
  "commit_posting k request_hash settle db =
     (case account_of (fst k) db of
        None \<Rightarrow> (Inl no_account, db)
      | Some acct \<Rightarrow>
     (case existing_reply k request_hash db of
        Inl e \<Rightarrow> (Inl e, db)
      | Inr (Some reply) \<Rightarrow> (Inr reply, db)
      | Inr None \<Rightarrow>
     (case settle acct db of
        Inl e \<Rightarrow> (Inl e, db)
      | Inr p \<Rightarrow> bindA (post p) (\<lambda>_ s. (serialize_decision (ps_decision p) s, s)) db)))"

definition commit_prepared ::
    "(string \<Rightarrow> string) \<Rightarrow> entry_request \<Rightarrow> resolved_opportunity \<Rightarrow> prepared \<Rightarrow> py_datetime
       \<Rightarrow> (paper_db, pyval) action" where
  "commit_prepared sha rq ro pp now =
     commit_posting (er_account rq, er_decision rq) (er_hash rq)
       (\<lambda>acct _. settle_entry sha rq ro pp (utc_of now) acct)"

definition commit_exit ::
    "exit_request \<Rightarrow> resolved_opportunity \<Rightarrow> prepared \<Rightarrow> py_datetime \<Rightarrow> (paper_db, pyval) action" where
  "commit_exit rq ro pp now =
     commit_posting (xq_account rq, xq_decision rq) (xq_hash rq)
       (\<lambda>acct db. let k = (xq_account rq, xq_position rq) in
          case position_of k db of
            None \<Rightarrow> Inl (PaperPositionNotFound ''paper position not found'')
          | Some p \<Rightarrow> settle_exit rq ro pp (utc_of now) p (sold_quantity k db) (allocated_cost k db) acct)"

section \<open>Accounts and cancellations\<close>

definition create_account ::
    "string \<Rightarrow> py_datetime \<Rightarrow> string \<Rightarrow> pyval \<Rightarrow> (paper_db, pyval) action" where
  "create_account fresh_id now name starting_cash db =
     (if strip name = [] then (Inl (ValueError ''name is required''), db) else
      case parse_cash starting_cash ''starting_cash'' of
        Inl e \<Rightarrow> (Inl e, db)
      | Inr cash \<Rightarrow>
          let t = utc_of now;
              acct = \<lparr>ac_id = fresh_id, ac_name = strip name, ac_currency = ''USD'', ac_starting_cash = cash,
                ac_cash_balance = cash, ac_reserved_cash = dzero, ac_journal_sequence = 0,
                ac_created_at = t, ac_updated_at = t\<rparr>
          in bindA (add_account acct) (\<lambda>_ s. (serialize_account acct, s)) db)"

definition cancel_guard :: "string \<times> string \<Rightarrow> paper_db \<Rightarrow> paper_order res" where
  "cancel_guard k db =
     (case order_of k db of
        None \<Rightarrow> Inl (PaperOrderNotCancelable ''paper order is not cancelable'')
      | Some x \<Rightarrow>
          if cancellation_of_order k db \<noteq> None \<or> dval (go_open x) \<le> 0 \<or> dval (go_reserved x) \<le> 0
          then Inl (PaperOrderNotCancelable ''paper order is already terminal and not cancelable'')
          else Inr x)"

definition release_order ::
    "paper_account \<Rightarrow> paper_order \<Rightarrow> string \<Rightarrow> int \<Rightarrow> (paper_db, pyval) action" where
  "release_order acct x cancellation_id now =
     bindA (liftE (units_of 18 ''reserved_cash'' (ac_reserved_cash acct))) (\<lambda>reserved.
     bindA (liftE (units_of 18 ''order.reserved_cash'' (go_reserved x))) (\<lambda>release.
     if reserved < release
     then liftE (Inl (RuntimeError ''paper account reservation contradicts immutable order evidence'')) else
     let c = \<lparr>cx_account = go_account x, cx_cancellation = cancellation_id, cx_order = go_order x,
               cx_released = go_reserved x, cx_status = ''cancelled'', cx_created_at = now\<rparr> in
     bindA (add_cancellation c) (\<lambda>_.
     bindA (add_event \<lparr>oe_account = go_account x, oe_order = go_order x, oe_sequence = 2,
              oe_type = ''cancelled'', oe_cancellation = Some cancellation_id, oe_quantity = go_open x,
              oe_reserved = go_reserved x, oe_created_at = now\<rparr>) (\<lambda>_.
     bindA (update_account (acct\<lparr>ac_reserved_cash := from_scaled_int 18 (reserved - release), ac_updated_at := now\<rparr>))
       (\<lambda>_. liftE (serialize_cancellation c))))))"

definition cancel_order ::
    "string \<Rightarrow> string \<Rightarrow> string \<Rightarrow> py_datetime \<Rightarrow> (paper_db, pyval) action" where
  "cancel_order account_id order_id cancellation_id now db =
     (let account = strip account_id; order = strip order_id; cancellation = strip cancellation_id in
      if account = [] \<or> order = [] \<or> cancellation = []
      then (Inl (ValueError ''account_id, order_id, and cancellation_id are required''), db)
      else transaction (\<lambda>db.
        case account_of account db of
          None \<Rightarrow> (Inl no_account, db)
        | Some acct \<Rightarrow>
        (case row_of cancellation_key (account, cancellation) (pd_cancellations db) of
          Some c \<Rightarrow>
            if cx_order c \<noteq> order
            then (Inl (PaperCancellationConflict
                   ''cancellation_id already exists for a different immutable order target''), db)
            else (serialize_cancellation c, db)
        | None \<Rightarrow>
        (case cancel_guard (account, order) db of
          Inl e \<Rightarrow> (Inl e, db)
        | Inr x \<Rightarrow> release_order acct x cancellation (utc_of now) db))) db)"

section \<open>Decisions\<close>

text \<open>
  The transaction of the intent. An intent without a decision was interrupted: its retry is
  rejected here, in the same transaction.
\<close>

datatype opened_entry = Replied pyval | Opened resolved_opportunity

definition interrupted :: "string \<Rightarrow> prepared" where
  "interrupted reason =
     \<lparr>prep_quote = None, prep_result = None, prep_status = Rejected, prep_reason = reason\<rparr>"

definition replied :: "('s, pyval) action \<Rightarrow> ('s, opened_entry) action" where
  "replied m = bindA m (\<lambda>r. liftE (Inr (Replied r)))"

definition entry_intent :: "entry_request \<Rightarrow> resolved_opportunity \<Rightarrow> int \<Rightarrow> paper_intent" where
  "entry_intent rq ro now =
     \<lparr>it_account = er_account rq, it_decision = er_decision rq, it_request_hash = er_hash rq,
      it_action = er_action rq, it_resolved = ro, it_side = None, it_position = None,
      it_tif = (if er_action rq = Execute \<and> er_tif rq = Gtc then Some Gtc else None),
      it_quantity = er_quantity rq, it_limit_price = er_limit rq, it_created_at = now\<rparr>"

definition resolve_for ::
    "(string \<Rightarrow> string) \<Rightarrow> entry_request \<Rightarrow> paper_db \<Rightarrow> resolved_opportunity res" where
  "resolve_for sha rq db =
     bindE (resolve_opportunity sha (er_opportunity rq) (pd_opportunities db)) (\<lambda>ro.
     if rv_revision ro \<noteq> er_revision rq
     then ineligible ''opportunity revision changed; refresh eligibility'' else Inr ro)"

definition open_entry ::
    "(string \<Rightarrow> string) \<Rightarrow> entry_request \<Rightarrow> py_datetime \<Rightarrow> (paper_db, opened_entry) action" where
  "open_entry sha rq now db =
     (let k = (er_account rq, er_decision rq) in
      case existing_reply k (er_hash rq) db of
        Inl e \<Rightarrow> (Inl e, db)
      | Inr (Some reply) \<Rightarrow> (Inr (Replied reply), db)
      | Inr None \<Rightarrow>
     (case intent_of k db of
        Some i \<Rightarrow>
          if it_request_hash i \<noteq> er_hash rq then (Inl decision_conflict, db)
          else replied (commit_prepared sha rq (it_resolved i) (interrupted ''expired_after_restart'') now) db
      | None \<Rightarrow>
     (case account_of (er_account rq) db of
        None \<Rightarrow> (Inl no_account, db)
      | Some _ \<Rightarrow>
     (case resolve_for sha rq db of
        Inl e \<Rightarrow> (Inl e, db)
      | Inr ro \<Rightarrow> bindA (add_intent (entry_intent rq ro (utc_of now))) (\<lambda>_. liftE (Inr (Opened ro))) db))))"

text \<open>A simulated immediate-or-cancel order that stays open as good till cancelled.\<close>

definition gtc_reason :: "string \<Rightarrow> string" where
  "gtc_reason reason =
     (if reason = ''displayed_depth_filled_ioc'' then ''displayed_depth_filled_gtc_open''
      else if reason = ''displayed_depth_partially_filled_ioc'' then ''displayed_depth_partially_filled_gtc_open''
      else reason)"

definition gtc_result :: "paper_tif \<Rightarrow> paper_fill_result \<Rightarrow> paper_fill_result" where
  "gtc_result tif r =
     (if tif = Gtc then r\<lparr>px_reason := gtc_reason (px_reason r),
        px_formula_version := ''kalshi-complementary-depth-gtc-open-v1''\<rparr> else r)"

definition simulated :: "paper_quote \<Rightarrow> paper_fill_result \<Rightarrow> prepared" where
  "simulated q r =
     \<lparr>prep_quote = Some q, prep_result = Some r, prep_status = Simulated (px_status r), prep_reason = px_reason r\<rparr>"

definition quote_matches :: "string \<Rightarrow> paper_quote \<Rightarrow> bool" where
  "quote_matches ticker q = (pm_ticker (pq_market q) = ticker \<and> pb_ticker (pq_book q) = ticker)"

definition simulate_entry ::
    "entry_request \<Rightarrow> resolved_opportunity \<Rightarrow> paper_quote res \<Rightarrow> prepared res" where
  "simulate_entry rq ro fetched =
     bindE fetched (\<lambda>q.
     if \<not> quote_matches (rv_ticker ro) q then paper_error ''Kalshi quote ticker identity mismatch'' else
     case (er_quantity rq, er_limit rq) of
       (Some quantity, Some limit) \<Rightarrow>
         bindE (simulate_buy_ioc (pq_book q) (outcome_text (rv_outcome ro)) (Fin quantity) (Fin limit)
                  (pm_price_ranges (pq_market q))) (\<lambda>r.
         Inr (simulated q (gtc_result (er_tif rq) r)))
     | _ \<Rightarrow> Inl (AssertionError []))"

definition prepare_entry ::
    "entry_request \<Rightarrow> resolved_opportunity \<Rightarrow> paper_quote res \<Rightarrow> prepared res" where
  "prepare_entry rq ro fetched =
     (case er_action rq of
        Pass \<Rightarrow> Inr \<lparr>prep_quote = None, prep_result = None, prep_status = Passed, prep_reason = ''operator_passed''\<rparr>
      | Execute \<Rightarrow>
          catchE (simulate_entry rq ro fetched)
            (\<lambda>e. case e of KalshiPaperProtocolError _ \<Rightarrow> Some (Inr (interrupted ''market_data_rejected'')) | _ \<Rightarrow> None))"

definition record_decision ::
    "(string \<Rightarrow> string) \<Rightarrow> (string \<Rightarrow> paper_quote res) \<Rightarrow> (nat \<Rightarrow> py_datetime) \<Rightarrow> (nat \<Rightarrow> paper_db \<Rightarrow> paper_db)
       \<Rightarrow> entry_args \<Rightarrow> (paper_db, pyval) action" where
  "record_decision sha fetch now others args db =
     (case entry_request_of sha args of
        Inl e \<Rightarrow> (Inl e, db)
      | Inr rq \<Rightarrow>
     let db1 = others 0 db in
     (case existing_reply (er_account rq, er_decision rq) (er_hash rq) db1 of
        Inl e \<Rightarrow> (Inl e, db1)
      | Inr (Some reply) \<Rightarrow> (Inr reply, db1)
      | Inr None \<Rightarrow>
     (case transaction (open_entry sha rq (now 0)) (others 1 db1) of
        (Inl e, db2) \<Rightarrow> (Inl e, db2)
      | (Inr (Replied reply), db2) \<Rightarrow> (Inr reply, db2)
      | (Inr (Opened ro), db2) \<Rightarrow>
     (case prepare_entry rq ro (fetch (rv_ticker ro)) of
        Inl e \<Rightarrow> (Inl e, db2)
      | Inr pp \<Rightarrow> transaction (commit_prepared sha rq ro pp (now 1)) (others 2 db2)))))"

section \<open>Exits\<close>

text \<open>An intent to sell the position that has no decision yet, of any other decision id.\<close>

definition unresolved_exit :: "string \<times> string \<Rightarrow> paper_db \<Rightarrow> string option" where
  "unresolved_exit k db =
     map_option it_decision (List.find
       (\<lambda>i. it_account i = fst k \<and> it_position i = Some (snd k) \<and> it_side i = Some Sell
          \<and> decision_of (paper_intent_key i) db = None) (pd_intents db))"

definition exit_guard :: "exit_request \<Rightarrow> paper_db \<Rightarrow> resolved_opportunity res" where
  "exit_guard rq db =
     (let k = (xq_account rq, xq_position rq) in
      case position_of k db of
        None \<Rightarrow> Inl (PaperPositionNotFound ''paper position not found'')
      | Some p \<Rightarrow>
     (case decision_of (xq_account rq, hp_entry_decision p) db of
        None \<Rightarrow> Inl (PaperPositionNotFound ''paper position entry evidence not found'')
      | Some d \<Rightarrow>
     (case unresolved_exit k db of
        Some other \<Rightarrow> Inl (PaperUnresolvedExitIntent other)
      | None \<Rightarrow>
          bindE (units_of 2 ''entry_quantity'' (hp_quantity p)) (\<lambda>entry.
          bindE (units_of 2 ''sold_quantity'' (sold_quantity k db)) (\<lambda>sold.
          if entry - sold \<le> 0 then Inl (PaperPositionNotClosable ''paper position is already closed'') else
          bindE (units_of 2 ''requested_quantity'' (xq_quantity rq)) (\<lambda>requested.
          if entry - sold < requested
          then Inl (PaperPositionNotClosable ''exit quantity exceeds the remaining paper position'')
          else Inr ((dc_resolved d)\<lparr>rv_ticker := hp_ticker p, rv_outcome := hp_outcome p\<rparr>)))))))"

definition exit_intent :: "exit_request \<Rightarrow> resolved_opportunity \<Rightarrow> int \<Rightarrow> paper_intent" where
  "exit_intent rq ro now =
     \<lparr>it_account = xq_account rq, it_decision = xq_decision rq, it_request_hash = xq_hash rq,
      it_action = Execute, it_resolved = ro, it_side = Some Sell, it_position = Some (xq_position rq),
      it_tif = Some Ioc, it_quantity = Some (xq_quantity rq), it_limit_price = Some (xq_minimum rq),
      it_created_at = now\<rparr>"

datatype opened_exit = ExitReplied pyval | ExitOpened bool resolved_opportunity

definition open_exit :: "exit_request \<Rightarrow> py_datetime \<Rightarrow> (paper_db, opened_exit) action" where
  "open_exit rq now db =
     (let k = (xq_account rq, xq_decision rq) in
      case existing_reply k (xq_hash rq) db of
        Inl e \<Rightarrow> (Inl e, db)
      | Inr (Some reply) \<Rightarrow> (Inr (ExitReplied reply), db)
      | Inr None \<Rightarrow>
     (case intent_of k db of
        Some i \<Rightarrow>
          if it_request_hash i \<noteq> xq_hash rq then (Inl decision_conflict, db)
          else (Inr (ExitOpened True (it_resolved i)), db)
      | None \<Rightarrow>
     (case account_of (xq_account rq) db of
        None \<Rightarrow> (Inl no_account, db)
      | Some _ \<Rightarrow>
     (case exit_guard rq db of
        Inl e \<Rightarrow> (Inl e, db)
      | Inr ro \<Rightarrow>
          bindA (add_intent (exit_intent rq ro (utc_of now))) (\<lambda>_. liftE (Inr (ExitOpened False ro))) db))))"

definition prepare_exit ::
    "exit_request \<Rightarrow> bool \<Rightarrow> resolved_opportunity \<Rightarrow> paper_quote res \<Rightarrow> prepared res" where
  "prepare_exit rq resumed ro fetched =
     (if resumed then Inr (interrupted ''incomplete_exit_intent_rejected_after_restart'') else
      bindE fetched (\<lambda>q.
      if \<not> quote_matches (rv_ticker ro) q
      then paper_error ''paper quote ticker does not match the held position'' else
      bindE (simulate_sell_ioc (pq_book q) (outcome_text (rv_outcome ro)) (Fin (xq_quantity rq)) (Fin (xq_minimum rq))
               (pm_price_ranges (pq_market q))) (\<lambda>r.
      Inr (simulated q r))))"

definition record_exit ::
    "(string \<Rightarrow> string) \<Rightarrow> (string \<Rightarrow> paper_quote res) \<Rightarrow> (nat \<Rightarrow> py_datetime) \<Rightarrow> (nat \<Rightarrow> paper_db \<Rightarrow> paper_db)
       \<Rightarrow> exit_args \<Rightarrow> (paper_db, pyval) action" where
  "record_exit sha fetch now others args db =
     (case exit_request_of sha args of
        Inl e \<Rightarrow> (Inl e, db)
      | Inr rq \<Rightarrow>
     let db1 = others 0 db in
     (case existing_reply (xq_account rq, xq_decision rq) (xq_hash rq) db1 of
        Inl e \<Rightarrow> (Inl e, db1)
      | Inr (Some reply) \<Rightarrow> (Inr reply, db1)
      | Inr None \<Rightarrow>
     (case transaction (open_exit rq (now 0)) (others 1 db1) of
        (Inl e, db2) \<Rightarrow> (Inl e, db2)
      | (Inr (ExitReplied reply), db2) \<Rightarrow> (Inr reply, db2)
      | (Inr (ExitOpened resumed ro), db2) \<Rightarrow>
     (case prepare_exit rq resumed ro (fetch (rv_ticker ro)) of
        Inl e \<Rightarrow> (Inl e, db2)
      | Inr pp \<Rightarrow> transaction (commit_exit rq ro pp (now 1)) (others 2 db2)))))"

section \<open>Lists\<close>

text \<open>Newest first; rows with the same instant may come in any order.\<close>

definition list_accounts :: "paper_db \<Rightarrow> pyval list res" where
  "list_accounts db = traverseE serialize_account (sort_key ac_created_at (pd_accounts db))"

definition newest_first :: "('r \<Rightarrow> int) \<Rightarrow> nat \<Rightarrow> 'r list \<Rightarrow> 'r list" where
  "newest_first created_at limit rows = take limit (sort_key (\<lambda>r. - created_at r) rows)"

definition list_of_account ::
    "string \<Rightarrow> (paper_db \<Rightarrow> 'r list) \<Rightarrow> ('r \<Rightarrow> string) \<Rightarrow> ('r \<Rightarrow> int) \<Rightarrow> nat \<Rightarrow> ('r \<Rightarrow> paper_db \<Rightarrow> pyval res)
       \<Rightarrow> paper_db \<Rightarrow> pyval list res" where
  "list_of_account account rows owner position limit serialize db =
     (if account_of account db = None then Inl no_account
      else traverseE (\<lambda>r. serialize r db) (newest_first position limit (filter (\<lambda>r. owner r = account) (rows db))))"

definition list_decisions :: "string \<Rightarrow> nat \<Rightarrow> paper_db \<Rightarrow> pyval list res" where
  "list_decisions account limit = list_of_account account pd_decisions dc_account dc_sequence limit serialize_decision"

definition list_orders :: "string \<Rightarrow> nat \<Rightarrow> paper_db \<Rightarrow> pyval list res" where
  "list_orders account limit = list_of_account account pd_orders go_account go_created_at limit serialize_order"

definition list_positions :: "string \<Rightarrow> nat \<Rightarrow> paper_db \<Rightarrow> pyval list res" where
  "list_positions account limit = list_of_account account pd_positions hp_account hp_created_at limit serialize_position"

end
