(* ===== verification/PaperPosting.thy ===== *)
theory PaperPosting
  imports PaperDecisions
begin

text \<open>
  What the computations of a commit promise of the rows they produce, and what a commit that
  succeeds does to the tables.
\<close>

section \<open>Units\<close>

lemma units_of_iff: "units_of k field d = Inr n \<longleftrightarrow> dval d * 10 ^ k = of_int n"
  by (simp add: to_scaled_int_Inr_iff)

lemma units_of_eq: "units_of k field d = Inr n \<Longrightarrow> dval d = of_int n / 10 ^ k"
  by (simp add: units_of_iff field_simps)

lemma dval_sql_sum: "dval (sql_sum ds) = (\<Sum>d\<leftarrow>ds. dval d)"
proof -
  have "dval (foldl dec_add_exact a ds) = dval a + (\<Sum>d\<leftarrow>ds. dval d)" for a
    by (induction ds arbitrary: a) (simp_all add: dval_add_exact)
  then show ?thesis by (simp add: sql_sum_def)
qed

section \<open>The tables after a posting\<close>

definition posted :: "posting \<Rightarrow> paper_db \<Rightarrow> paper_db" where
  "posted p db = db\<lparr>
     pd_decisions := pd_decisions db @ [ps_decision p],
     pd_fills := pd_fills db @ ps_fills p,
     pd_positions := pd_positions db @ (case ps_position p of None \<Rightarrow> [] | Some x \<Rightarrow> [x]),
     pd_orders := pd_orders db @ (case ps_order p of None \<Rightarrow> [] | Some x \<Rightarrow> [x]),
     pd_events := pd_events db @ (case ps_order p of None \<Rightarrow> [] | Some x \<Rightarrow> [opened_event x]),
     pd_accounts := map (\<lambda>x. if ac_id x = ac_id (ps_account p) then ps_account p else x) (pd_accounts db)\<rparr>"

lemma posted_simps [simp]:
  "pd_intents (posted p db) = pd_intents db"
  "pd_decisions (posted p db) = pd_decisions db @ [ps_decision p]"
  "pd_fills (posted p db) = pd_fills db @ ps_fills p"
  "pd_positions (posted p db) = pd_positions db @ (case ps_position p of None \<Rightarrow> [] | Some x \<Rightarrow> [x])"
  "pd_orders (posted p db) = pd_orders db @ (case ps_order p of None \<Rightarrow> [] | Some x \<Rightarrow> [x])"
  "pd_cancellations (posted p db) = pd_cancellations db"
  "pd_events (posted p db) = pd_events db @ (case ps_order p of None \<Rightarrow> [] | Some x \<Rightarrow> [opened_event x])"
  "pd_accounts (posted p db) = map (\<lambda>x. if ac_id x = ac_id (ps_account p) then ps_account p else x) (pd_accounts db)"
  by (simp_all add: posted_def)

lemma add_paper_fill_Inr:
  "add_paper_fill f s = (Inr u, t) \<longleftrightarrow>
     fill_valid f \<and> decision_of (fr_account f, fr_decision f) s \<noteq> None
     \<and> row_of fill_row_key (fill_row_key f) (pd_fills s) = None \<and> t = s\<lparr>pd_fills := pd_fills s @ [f]\<rparr>"
  by (cases s) (auto simp: add_paper_fill_def insert_row_Inr)

lemma eachA_add_paper_fill:
  "eachA add_paper_fill fs s = (Inr u, t) \<Longrightarrow>
     t = s\<lparr>pd_fills := pd_fills s @ fs\<rparr> \<and> (\<forall>f \<in> set fs. fill_valid f \<and> decision_of (fr_account f, fr_decision f) s \<noteq> None)"
proof (induction fs arbitrary: s)
  case (Cons f fs)
  from Cons.prems have ins: "fill_valid f" "decision_of (fr_account f, fr_decision f) s \<noteq> None"
    and rest: "eachA add_paper_fill fs (s\<lparr>pd_fills := pd_fills s @ [f]\<rparr>) = (Inr u, t)"
    by (auto simp: bindA_eq_Inr add_paper_fill_Inr)
  from Cons.IH [OF rest] ins show ?case by (simp add: decision_of_def)
qed (simp add: liftE_def)

definition posting_admitted :: "posting \<Rightarrow> paper_db \<Rightarrow> bool" where
  "posting_admitted p db =
     (let d = ps_decision p in
      decision_valid d \<and> account_of (dc_account d) db \<noteq> None \<and> intent_agrees d db
      \<and> decision_of (decision_key d) db = None
      \<and> (\<forall>f \<in> set (ps_fills p). fill_valid f)
      \<and> pred_option (\<lambda>x. position_valid x \<and> position_of (position_key x) db = None) (ps_position p)
      \<and> pred_option (\<lambda>x. order_valid x \<and> order_of (paper_order_key x) db = None) (ps_order p)
      \<and> account_valid (ps_account p))"

lemma post_Inr:
  assumes "post p db = (Inr u, db')"
  shows "db' = posted p db \<and> posting_admitted p db"
proof -
  from assms obtain s1 s2 s3 s4 where
    d: "add_decision (ps_decision p) db = (Inr (), s1)"
    and f: "eachA add_paper_fill (ps_fills p) s1 = (Inr (), s2)"
    and q: "optionally add_position (ps_position p) s2 = (Inr (), s3)"
    and o1: "optionally (\<lambda>x. bindA (add_order x) (\<lambda>_. add_event (opened_event x))) (ps_order p) s3 = (Inr (), s4)"
    and a: "update_account (ps_account p) s4 = (Inr (), db')"
    unfolding post_def bindA_eq_Inr by auto
  from d have s1: "s1 = db\<lparr>pd_decisions := pd_decisions db @ [ps_decision p]\<rparr>"
    and dv: "decision_valid (ps_decision p)" "account_of (dc_account (ps_decision p)) db \<noteq> None"
      "intent_agrees (ps_decision p) db" "decision_of (decision_key (ps_decision p)) db = None"
    by (auto simp: add_decision_def insert_row_Inr decision_of_def)
  from eachA_add_paper_fill [OF f] have s2: "s2 = s1\<lparr>pd_fills := pd_fills s1 @ ps_fills p\<rparr>"
    and fv: "\<forall>f \<in> set (ps_fills p). fill_valid f" by auto
  from q have s3: "s3 = s2\<lparr>pd_positions := pd_positions s2 @ (case ps_position p of None \<Rightarrow> [] | Some x \<Rightarrow> [x])\<rparr>"
    and qv: "pred_option (\<lambda>x. position_valid x \<and> position_of (position_key x) db = None) (ps_position p)"
    by (auto simp: optionally_def liftE_def add_position_def insert_row_Inr position_of_def s1 s2 split: option.splits)
  from o1 have s4: "s4 = s3\<lparr>pd_orders := pd_orders s3 @ (case ps_order p of None \<Rightarrow> [] | Some x \<Rightarrow> [x]),
        pd_events := pd_events s3 @ (case ps_order p of None \<Rightarrow> [] | Some x \<Rightarrow> [opened_event x])\<rparr>"
    and ov: "pred_option (\<lambda>x. order_valid x \<and> order_of (paper_order_key x) db = None) (ps_order p)"
    by (auto simp: optionally_def liftE_def bindA_eq_Inr add_order_def add_event_def insert_row_Inr order_of_def
        s1 s2 s3 split: option.splits)
  from a have "account_valid (ps_account p)" "db' = s4\<lparr>pd_accounts :=
      map (\<lambda>x. if ac_id x = ac_id (ps_account p) then ps_account p else x) (pd_accounts s4)\<rparr>"
    by (auto simp: update_account_def split: if_splits)
  with dv fv qv ov show ?thesis
    by (simp add: posting_admitted_def posted_def s1 s2 s3 s4 Let_def)
qed

section \<open>What a computation promises\<close>

text \<open>
  A posting moves its account from one state to the next: the cash by the flow of its decision,
  the reservation by its order; a new position costs what the decision paid.
\<close>

definition posting_sound :: "paper_account \<Rightarrow> posting \<Rightarrow> bool" where
  "posting_sound acct p =
     (let d = ps_decision p; a = ps_account p in
      dc_account d = ac_id acct \<and> dc_sequence d = ac_journal_sequence acct + 1
      \<and> dc_cash_before d = ac_cash_balance acct \<and> dc_cash_after d = ac_cash_balance a
      \<and> ac_id a = ac_id acct \<and> ac_name a = ac_name acct \<and> ac_starting_cash a = ac_starting_cash acct
      \<and> ac_journal_sequence a = ac_journal_sequence acct + 1
      \<and> dval (ac_reserved_cash a) = dval (ac_reserved_cash acct)
          + (case ps_order p of None \<Rightarrow> 0 | Some x \<Rightarrow> dval (go_reserved x))
      \<and> pred_option (\<lambda>x. paper_order_key x = (ac_id acct, go_order x) \<and> order_decision_key x = decision_key d) (ps_order p)
      \<and> (\<forall>f \<in> set (ps_fills p). (fr_account f, fr_decision f) = decision_key d)
      \<and> (case ps_position p of
           None \<Rightarrow> dc_side d \<noteq> Some Sell \<and> decision_valid d \<longrightarrow> dval (dc_notional d) = 0 \<and> dval (dc_fee d) = 0
         | Some x \<Rightarrow> dc_side d = Some Buy \<and> hp_account x = ac_id acct \<and> dval (hp_notional x) = dval (dc_notional d)
             \<and> dval (hp_fee x) = dval (dc_fee d) \<and> hp_quantity x = dc_filled d
             \<and> hp_entry_decision x = dc_decision d))"

lemma fill_rows_key:
  "traverseE (fill_row account decision pp extra now) fs = Inr rows \<Longrightarrow>
     \<forall>r \<in> set rows. (fr_account r, fr_decision r) = (account, decision)"
  by (erule traverseE_all) (auto simp: fill_row_def res_simps)

lemma status_shape_free:
  assumes "decision_valid d" "is_simulated (dc_status d) \<Longrightarrow> dc_quantity d \<noteq> None"
    and "\<not> (dc_action d = Execute \<and> dc_status d \<in> {Simulated Filled, Simulated Partial} \<and> 0 < dval (dc_filled d))"
  shows "dval (dc_notional d) = 0 \<and> dval (dc_fee d) = 0"
  using assms
  by (cases "dc_status d" rule: paper_status_text.cases)
    (auto simp: decision_valid_def status_shape_def decision_shape_def positive_ok_def is_simulated_def Let_def
      split: if_splits paper_action.splits)

lemma entry_posting_sound:
  assumes "ac_id acct = er_account rq" "is_simulated (st_status s) \<Longrightarrow> er_quantity rq \<noteq> None"
    and "\<forall>r \<in> set fills. (fr_account r, fr_decision r) = (er_account rq, er_decision rq)"
    and "dval (ac_reserved_cash acct) * 10 ^ 18 = of_int reserved" "opens \<or> reservation = 0"
    and "opens \<Longrightarrow> er_quantity rq \<noteq> None \<and> er_limit rq \<noteq> None"
  shows "posting_sound acct (entry_posting sha rq ro pp now acct s fills opens cash_after reserved reservation)"
proof -
  let ?p = "entry_posting sha rq ro pp now acct s fills opens cash_after reserved reservation"
  have r: "dval (ac_reserved_cash acct) = of_int reserved / 10 ^ 18" using assms(4) by (simp add: field_simps)
  have "dval (dc_notional (ps_decision ?p)) = 0 \<and> dval (dc_fee (ps_decision ?p)) = 0"
    if "ps_position ?p = None" "decision_valid (ps_decision ?p)"
    using that assms(2) by (intro status_shape_free) (auto simp: entry_posting_def Let_def split: if_splits)
  moreover have "pred_option (\<lambda>x. paper_order_key x = (ac_id acct, go_order x)
      \<and> order_decision_key x = decision_key (ps_decision ?p)) (ps_order ?p)"
    using assms(1,6) by (cases opens) (auto simp: entry_posting_def Let_def paper_order_key_def order_decision_key_def decision_key_def)
  moreover have "(case ps_order ?p of None \<Rightarrow> 0 | Some x \<Rightarrow> dval (go_reserved x)) = of_int reservation / 10 ^ 18"
    using assms(5,6) by (cases opens) (auto simp: entry_posting_def Let_def)
  ultimately show ?thesis
    using assms(1,3) unfolding posting_sound_def Let_def
    by (auto simp: entry_posting_def Let_def decision_key_def r add_divide_distrib)
qed

definition entry_opens :: "entry_request \<Rightarrow> settlement \<Rightarrow> bool" where
  "entry_opens rq s = (er_action rq = Execute \<and> er_tif rq = Gtc \<and> is_simulated (st_status s)
     \<and> er_quantity rq \<noteq> None \<and> er_limit rq \<noteq> None)"

lemma settle_entry_cases:
  assumes "settle_entry sha rq ro pp now acct = Inr p"
  defines "s \<equiv> entry_settlement pp (er_quantity rq) now"
  obtains (short) cash reserved where
      "units_of 18 ''reserved_cash'' (ac_reserved_cash acct) = Inr reserved"
      "p = entry_posting sha rq ro pp now acct
         (void_settlement ''insufficient_paper_cash'' (quantity_or_zero (er_quantity rq))) [] False cash reserved 0"
      "units_of 18 ''cash_balance'' (ac_cash_balance acct) = Inr cash"
  | (settled) cash reserved notional fee reservation fills where
      "units_of 18 ''cash_balance'' (ac_cash_balance acct) = Inr cash"
      "units_of 18 ''reserved_cash'' (ac_reserved_cash acct) = Inr reserved"
      "units_of 18 ''notional'' (st_notional s) = Inr notional" "units_of 18 ''fee'' (st_fee s) = Inr fee"
      "reserved_units s (er_limit rq) (entry_opens rq s) = Inr reservation"
      "traverseE (fill_row (er_account rq) (er_decision rq) pp [] now) (st_fills s) = Inr fills"
      "\<not> (is_simulated (st_status s) \<and> cash - reserved < notional + fee + reservation)"
      "p = entry_posting sha rq ro pp now acct s fills (entry_opens rq s) (cash - notional - fee) reserved reservation"
  using assms(1) unfolding settle_entry_def Let_def s_def [symmetric] entry_opens_def [symmetric]
proof (elim bindE_InrE, goal_cases)
  case (1 cash reserved notional fee reservation)
  show thesis
  proof (cases "is_simulated (st_status s) \<and> cash - reserved < notional + fee + reservation")
    case True
    with 1(8) have "p = entry_posting sha rq ro pp now acct
        (void_settlement ''insufficient_paper_cash'' (quantity_or_zero (er_quantity rq))) [] False cash reserved 0"
      by simp
    with 1(1,3,4) show thesis by blast
  next
    case False
    from 1(8) have "bindE (traverseE (fill_row (er_account rq) (er_decision rq) pp [] now) (st_fills s)) (\<lambda>fills.
        Inr (entry_posting sha rq ro pp now acct s fills (entry_opens rq s) (cash - notional - fee) reserved reservation))
        = Inr p" unfolding if_not_P [OF False] .
    then obtain fills where
      "traverseE (fill_row (er_account rq) (er_decision rq) pp [] now) (st_fills s) = Inr fills"
      "p = entry_posting sha rq ro pp now acct s fills (entry_opens rq s) (cash - notional - fee) reserved reservation"
      by (elim bindE_InrE) simp
    with 1(2-7) False show thesis by blast
  qed
qed

lemma settle_entry_sound:
  assumes "settle_entry sha rq ro pp now acct = Inr p" "ac_id acct = er_account rq"
    and "is_simulated (prep_status pp) \<Longrightarrow> er_quantity rq \<noteq> None"
  shows "posting_sound acct p"
  using assms(1)
proof (cases rule: settle_entry_cases)
  case (short cash reserved)
  show ?thesis unfolding short(2)
    by (rule entry_posting_sound)
      (use assms(2) short(1) in \<open>auto simp: void_settlement_def is_simulated_def units_of_iff\<close>)
next
  case (settled cash reserved notional fee reservation fills)
  have status: "is_simulated (st_status (entry_settlement pp (er_quantity rq) now)) \<Longrightarrow> er_quantity rq \<noteq> None"
    using assms(3) by (auto simp: entry_settlement_def prepared_settlement_def void_settlement_def is_simulated_def
        split: option.splits if_splits)
  show ?thesis unfolding settled(8)
    by (rule entry_posting_sound [OF assms(2) status fill_rows_key [OF settled(6)]])
      (use settled(2,5) in \<open>auto simp: units_of_iff entry_opens_def reserved_units_def split: if_splits\<close>)
qed

lemma settle_entry_form:
  assumes "settle_entry sha rq ro pp now acct = Inr p"
  shows "dc_side (ps_decision p) \<noteq> Some Sell \<and> decision_key (ps_decision p) = (er_account rq, er_decision rq)
    \<and> dc_resolved (ps_decision p) = ro \<and> dc_request_hash (ps_decision p) = er_hash rq"
  using assms by (cases rule: settle_entry_cases) (simp_all add: entry_posting_def decision_key_def Let_def)

lemma settle_exit_sound:
  assumes "settle_exit rq ro pp now p sold allocated acct = Inr x" "ac_id acct = xq_account rq"
  shows "posting_sound acct x"
proof -
  obtain s fills cash_after c pnl where x: "x = exit_posting rq ro pp now acct s fills cash_after c pnl"
    and f: "traverseE (fill_row (xq_account rq) (xq_decision rq) pp [(''position_id'', PStr (xq_position rq))] now)
      (st_fills s) = Inr fills"
    using assms(1) unfolding settle_exit_def Let_def by (elim run_elims) blast
  from fill_rows_key [OF f] show ?thesis
    using assms(2) unfolding x posting_sound_def Let_def by (auto simp: exit_posting_def decision_key_def)
qed

text \<open>
  The figures of an exit: the quantity sold does not pass the entry, and the cost it is charged
  brings the allocation up to the share of the sold quantity, rounded down to units.
\<close>

definition cost_share :: "rat \<Rightarrow> rat \<Rightarrow> rat \<Rightarrow> rat" where
  "cost_share entry_total sold entry = of_int \<lfloor>entry_total * 10 ^ 18 * sold / entry\<rfloor> / 10 ^ 18"

lemma cost_share_units:
  assumes "entry_total * 10 ^ 18 = of_int t" "sold * 10 ^ 2 = of_int s" "entry * 10 ^ 2 = of_int e"
  shows "cost_share entry_total sold entry = of_int (t * s div e) / 10 ^ 18"
proof -
  have "entry_total * 10 ^ 18 * sold / entry = (of_int t * of_int s) / of_int e"
    using assms(1) by (simp flip: assms(2,3))
  also have "\<dots> = of_int (t * s) / of_int e" by simp
  finally show ?thesis unfolding cost_share_def by (simp only: floor_divide_of_int_eq)
qed

lemma cumulative_cost_Inr: "cumulative_cost t s e = Inr c \<Longrightarrow> e \<noteq> 0 \<Longrightarrow> c = t * s div e"
  by (auto simp: cumulative_cost_def split: if_splits)

lemma settle_exit_figures:
  assumes "settle_exit rq ro pp now p sold allocated acct = Inr x" "0 < dval (hp_quantity p)"
  defines "d \<equiv> ps_decision x"
  shows "dc_account d = xq_account rq" "dc_side d = Some Sell" "dc_position d = Some (xq_position rq)"
    "ps_position x = None" "dval sold + dval (dc_filled d) \<le> dval (hp_quantity p)"
    "\<exists>c pnl. dc_cost_basis d = Some c \<and> dc_pnl d = Some pnl
      \<and> dval pnl = dval (dc_notional d) - dval (dc_fee d) - dval c
      \<and> dval allocated + dval c = cost_share (dval (hp_notional p) + dval (hp_fee p))
          (dval sold + dval (dc_filled d)) (dval (hp_quantity p))"
proof -
  obtain e s0 s f tn tf c0 cum n fee cash_after fills where
    u: "units_of 2 ''entry_quantity'' (hp_quantity p) = Inr e" "units_of 2 ''prior_sold_quantity'' sold = Inr s0"
      "units_of 2 ''filled_quantity'' (st_filled s) = Inr f" "\<not> e < s0 + f"
      "units_of 18 ''entry_notional'' (hp_notional p) = Inr tn" "units_of 18 ''entry_fee'' (hp_fee p) = Inr tf"
      "units_of 18 ''prior_position_cost_basis'' allocated = Inr c0" "cumulative_cost (tn + tf) (s0 + f) e = Inr cum"
      "units_of 18 ''notional'' (st_notional s) = Inr n" "units_of 18 ''fee'' (st_fee s) = Inr fee"
    and x: "x = exit_posting rq ro pp now acct s fills cash_after (cum - c0) (n - fee - (cum - c0))"
    using assms(1) unfolding settle_exit_def Let_def by (elim run_elims) blast
  note v = u(1-3,5-7,9,10) [THEN units_of_eq]
  have e: "0 < e" using assms(2) v(1) by simp
  then have cum: "cum = (tn + tf) * (s0 + f) div e" using cumulative_cost_Inr [OF u(8)] by simp
  have d: "dc_filled d = st_filled s" "dc_notional d = st_notional s" "dc_fee d = st_fee s"
    "dc_cost_basis d = Some (from_scaled_int 18 (cum - c0))"
    "dc_pnl d = Some (from_scaled_int 18 (n - fee - (cum - c0)))"
    and o1: "dc_account d = xq_account rq" "dc_side d = Some Sell" "dc_position d = Some (xq_position rq)"
      "ps_position x = None"
    by (simp_all add: d_def x exit_posting_def)
  show "dc_account d = xq_account rq" by (rule o1)
  show "dc_side d = Some Sell" by (rule o1)
  show "dc_position d = Some (xq_position rq)" by (rule o1)
  show "ps_position x = None" by (rule o1)
  have "(of_int (s0 + f) :: rat) \<le> of_int e" using u(4) by (simp only: of_int_le_iff not_less)
  then show "dval sold + dval (dc_filled d) \<le> dval (hp_quantity p)"
    by (simp add: d v add_divide_distrib [symmetric] divide_le_cancel)
  have "cost_share (dval (hp_notional p) + dval (hp_fee p)) (dval sold + dval (dc_filled d)) (dval (hp_quantity p))
      = of_int cum / 10 ^ 18"
    unfolding cum by (rule cost_share_units) (simp_all add: d v field_simps)
  then show "\<exists>c pnl. dc_cost_basis d = Some c \<and> dc_pnl d = Some pnl
      \<and> dval pnl = dval (dc_notional d) - dval (dc_fee d) - dval c
      \<and> dval allocated + dval c = cost_share (dval (hp_notional p) + dval (hp_fee p))
          (dval sold + dval (dc_filled d)) (dval (hp_quantity p))"
    by (simp add: d v diff_divide_distrib)
qed

section \<open>Simulations\<close>

lemma prepare_entry_simulated:
  "prepare_entry rq ro fetched = Inr pp \<Longrightarrow> is_simulated (prep_status pp) \<Longrightarrow> er_quantity rq \<noteq> None"
  by (auto simp: prepare_entry_def simulate_entry_def catchE_def interrupted_def is_simulated_def bindE_eq_Inr
      split: paper_action.splits sum.splits option.splits exn.splits if_splits)

end
