(* ===== verification/PaperBooks.thy ===== *)
theory PaperBooks
  imports PaperPosting
begin

text \<open>
  The books of the paper accounts: what holds of the tables after every transaction. The cash
  of an account is the chain of its decisions, numbered without a gap; together with the cost of
  what is still held it is the starting cash and the profits realized; the reserved cash is that
  of the orders not cancelled. A position never sells more than was bought, and the cost its
  exits were charged is the share of what they sold.
\<close>

section \<open>The invariant\<close>

definition decisions_of :: "string \<Rightarrow> paper_db \<Rightarrow> paper_decision list" where
  "decisions_of a db = filter (\<lambda>d. dc_account d = a) (pd_decisions db)"

definition positions_of :: "string \<Rightarrow> paper_db \<Rightarrow> paper_position list" where
  "positions_of a db = filter (\<lambda>p. hp_account p = a) (pd_positions db)"

definition orders_of :: "string \<Rightarrow> paper_db \<Rightarrow> paper_order list" where
  "orders_of a db = filter (\<lambda>x. go_account x = a) (pd_orders db)"

fun cash_chain :: "rat \<Rightarrow> paper_decision list \<Rightarrow> rat \<Rightarrow> bool" where
  "cash_chain start [] stop = (start = stop)"
| "cash_chain start (d # ds) stop =
     (dval (dc_cash_before d) = start \<and> dval (dc_cash_after d) = start + cash_flow d
      \<and> cash_chain (dval (dc_cash_after d)) ds stop)"

definition entry_cost :: "paper_position \<Rightarrow> rat" where
  "entry_cost p = dval (hp_notional p) + dval (hp_fee p)"

definition held_cost :: "paper_db \<Rightarrow> paper_position \<Rightarrow> rat" where
  "held_cost db p = entry_cost p - dval (allocated_cost (position_key p) db)"

definition realized :: "paper_decision \<Rightarrow> rat" where
  "realized d = (case dc_pnl d of None \<Rightarrow> 0 | Some x \<Rightarrow> dval x)"

definition open_reservation :: "paper_db \<Rightarrow> paper_order \<Rightarrow> rat" where
  "open_reservation db x =
     (if cancellation_of_order (paper_order_key x) db = None then dval (go_reserved x) else 0)"

definition account_ok :: "paper_db \<Rightarrow> paper_account \<Rightarrow> bool" where
  "account_ok db a =
     (account_valid a
      \<and> map dc_sequence (decisions_of (ac_id a) db) = [1..ac_journal_sequence a]
      \<and> cash_chain (dval (ac_starting_cash a)) (decisions_of (ac_id a) db) (dval (ac_cash_balance a))
      \<and> dval (ac_cash_balance a) + (\<Sum>p\<leftarrow>positions_of (ac_id a) db. held_cost db p)
          = dval (ac_starting_cash a) + (\<Sum>d\<leftarrow>decisions_of (ac_id a) db. realized d)
      \<and> dval (ac_reserved_cash a) = (\<Sum>x\<leftarrow>orders_of (ac_id a) db. open_reservation db x))"

definition position_ok :: "paper_db \<Rightarrow> paper_position \<Rightarrow> bool" where
  "position_ok db p =
     (let sold = dval (sold_quantity (position_key p) db) in
      position_valid p \<and> account_of (hp_account p) db \<noteq> None \<and> decision_of (entry_key p) db \<noteq> None
      \<and> sold \<le> dval (hp_quantity p)
      \<and> dval (allocated_cost (position_key p) db) = cost_share (entry_cost p) sold (dval (hp_quantity p)))"

definition exit_recorded :: "paper_db \<Rightarrow> paper_decision \<Rightarrow> bool" where
  "exit_recorded db d =
     (dc_side d = Some Sell \<longrightarrow> dc_cost_basis d \<noteq> None \<and> dc_pnl d \<noteq> None
        \<and> (\<exists>i. dc_position d = Some i \<and> position_of (dc_account d, i) db \<noteq> None))"

definition paper_keys_unique :: "paper_db \<Rightarrow> bool" where
  "paper_keys_unique db =
     (distinct (map ac_id (pd_accounts db)) \<and> distinct (map decision_key (pd_decisions db))
      \<and> distinct (map position_key (pd_positions db)) \<and> distinct (map paper_order_key (pd_orders db))
      \<and> distinct (map cancelled_order_key (pd_cancellations db)))"

definition paper_ok :: "paper_db \<Rightarrow> bool" where
  "paper_ok db =
     (paper_keys_unique db
      \<and> (\<forall>a \<in> set (pd_accounts db). account_ok db a)
      \<and> (\<forall>p \<in> set (pd_positions db). position_ok db p)
      \<and> (\<forall>d \<in> set (pd_decisions db). decision_valid d \<and> intent_agrees d db \<and> account_of (dc_account d) db \<noteq> None \<and> exit_recorded db d)
      \<and> (\<forall>x \<in> set (pd_orders db). order_valid x \<and> decision_of (order_decision_key x) db \<noteq> None)
      \<and> (\<forall>f \<in> set (pd_fills db). decision_of (fr_account f, fr_decision f) db \<noteq> None)
      \<and> (\<forall>c \<in> set (pd_cancellations db). order_of (cancelled_order_key c) db \<noteq> None))"

lemma paper_ok_empty: "paper_ok empty_paper_db"
  by (simp add: paper_ok_def paper_keys_unique_def empty_paper_db_def)

section \<open>Rows of one key\<close>

lemma sum_change_one:
  fixes f g :: "'a \<Rightarrow> 'b::ab_group_add"
  assumes "distinct (map key xs)" "x \<in> set xs" "\<And>y. y \<in> set xs \<Longrightarrow> key y \<noteq> key x \<Longrightarrow> g y = f y"
  shows "(\<Sum>y\<leftarrow>xs. g y) = (\<Sum>y\<leftarrow>xs. f y) - f x + g x"
  using assms
proof (induction xs)
  case (Cons z zs)
  show ?case
  proof (cases "x = z")
    case True
    have "(\<Sum>y\<leftarrow>zs. g y) = (\<Sum>y\<leftarrow>zs. f y)"
      using Cons.prems True by (intro arg_cong [of _ _ sum_list] map_cong) (auto simp: image_iff)
    with True show ?thesis by simp
  next
    case False
    then have "x \<in> set zs" using Cons.prems(2) by simp
    moreover have "g z = f z" using Cons.prems False by (auto simp: image_iff)
    ultimately show ?thesis using Cons by (simp add: algebra_simps)
  qed
qed simp

lemma distinct_map_filter: "distinct (map f xs) \<Longrightarrow> distinct (map f (filter P xs))"
  by (induction xs) auto

lemma row_of_key: "distinct (map key rows) \<Longrightarrow> x \<in> set rows \<Longrightarrow> row_of key (key x) rows = Some x"
  unfolding row_of_def by (rule find_key)

lemma row_of_new: "row_of key k (rows @ [x]) = (case row_of key k rows of Some y \<Rightarrow> Some y | None \<Rightarrow> if key x = k then Some x else None)"
  by (simp add: row_of_def find_append split: option.splits)

lemma account_of_Some: "account_of a db = Some acct \<Longrightarrow> acct \<in> set (pd_accounts db) \<and> ac_id acct = a"
  unfolding account_of_def by (drule row_of_Some) simp

lemma position_of_Some: "position_of k db = Some p \<Longrightarrow> p \<in> set (pd_positions db) \<and> position_key p = k"
  unfolding position_of_def by (drule row_of_Some) simp

lemma order_of_Some: "order_of k db = Some x \<Longrightarrow> x \<in> set (pd_orders db) \<and> paper_order_key x = k"
  unfolding order_of_def by (drule row_of_Some) simp

lemma decision_of_Some: "decision_of k db = Some d \<Longrightarrow> d \<in> set (pd_decisions db) \<and> decision_key d = k"
  unfolding decision_of_def by (drule row_of_Some) simp

text \<open>Replacing an account keeps who has one.\<close>

lemma account_of_map:
  "row_of ac_id a (map (\<lambda>x. if ac_id x = ac_id y then y else x) rows)
     = (case row_of ac_id a rows of None \<Rightarrow> None | Some x \<Rightarrow> Some (if a = ac_id y then y else x))"
  by (induction rows) (auto simp: row_of_def)

lemma map_replace_id [simp]: "map (ac_id \<circ> (\<lambda>x. if ac_id x = ac_id y then y else x)) rows = map ac_id rows"
  by (induction rows) auto

lemma cash_chain_append:
  "cash_chain start ds mid \<Longrightarrow> dval (dc_cash_before d) = mid \<Longrightarrow> dval (dc_cash_after d) = mid + cash_flow d \<Longrightarrow>
     cash_chain start (ds @ [d]) (dval (dc_cash_after d))"
  by (induction ds arbitrary: start) auto

lemma upto_snoc: "0 \<le> (n::int) \<Longrightarrow> [1..n + 1] = [1..n] @ [n + 1]"
  by (simp add: upto_rec2)

section \<open>A posting keeps the books\<close>

definition exit_of :: "string \<times> string \<Rightarrow> paper_decision \<Rightarrow> bool" where
  "exit_of k d = ((dc_account d, dc_position d) = (fst k, Some (snd k)) \<and> dc_side d = Some Sell)"

lemma exits_posted:
  "exits_of k (posted p db) = exits_of k db @ (if exit_of k (ps_decision p) then [ps_decision p] else [])"
  by (simp add: exits_of_def exit_of_def)

lemma sold_posted:
  "dval (sold_quantity k (posted p db)) = dval (sold_quantity k db)
     + (if exit_of k (ps_decision p) then dval (dc_filled (ps_decision p)) else 0)"
  by (simp add: sold_quantity_def dval_sql_sum exits_posted)

lemma allocated_posted:
  "dval (allocated_cost k (posted p db)) = dval (allocated_cost k db)
     + (if exit_of k (ps_decision p) then (case dc_cost_basis (ps_decision p) of None \<Rightarrow> 0 | Some c \<Rightarrow> dval c) else 0)"
  by (simp add: allocated_cost_def dval_sql_sum exits_posted List.map_filter_def split: option.splits)

text \<open>What an exit adds to what the tables say of its position.\<close>

definition exit_sound :: "paper_db \<Rightarrow> posting \<Rightarrow> bool" where
  "exit_sound db p =
     (let d = ps_decision p in
      if dc_side d = Some Sell then
        ps_position p = None \<and>
        (\<exists>x c pnl. position_of (position_key x) db = Some x \<and> exit_of (position_key x) d
           \<and> dc_cost_basis d = Some c \<and> dc_pnl d = Some pnl
           \<and> dval pnl = dval (dc_notional d) - dval (dc_fee d) - dval c
           \<and> dval (sold_quantity (position_key x) db) + dval (dc_filled d) \<le> dval (hp_quantity x)
           \<and> dval (allocated_cost (position_key x) db) + dval c
               = cost_share (entry_cost x) (dval (sold_quantity (position_key x) db) + dval (dc_filled d))
                   (dval (hp_quantity x)))
      else True)"

lemma decisions_posted:
  "decisions_of b (posted p db) = decisions_of b db @ (if dc_account (ps_decision p) = b then [ps_decision p] else [])"
  by (simp add: decisions_of_def)

lemma accounts_posted:
  "account_of b (posted p db) = (case account_of b db of None \<Rightarrow> None
     | Some x \<Rightarrow> Some (if b = ac_id (ps_account p) then ps_account p else x))"
  by (simp add: account_of_def account_of_map)

lemma decision_kept: "decision_of k db \<noteq> None \<Longrightarrow> decision_of k (posted p db) = decision_of k db"
  by (auto simp: decision_of_def row_of_new)

lemma decision_added:
  "decision_of (decision_key (ps_decision p)) db = None \<Longrightarrow>
     decision_of (decision_key (ps_decision p)) (posted p db) = Some (ps_decision p)"
  by (simp add: decision_of_def row_of_new)

lemma position_kept: "position_of k db \<noteq> None \<Longrightarrow> position_of k (posted p db) \<noteq> None"
  by (auto simp: position_of_def row_of_append_old)

lemma order_kept: "order_of k db \<noteq> None \<Longrightarrow> order_of k (posted p db) \<noteq> None"
  by (auto simp: order_of_def row_of_append_old)

lemma keys_posted:
  assumes "paper_keys_unique db" "posting_admitted p db"
  shows "paper_keys_unique (posted p db)"
  using assms
  by (auto simp: paper_keys_unique_def posting_admitted_def Let_def decision_of_def position_of_def order_of_def row_of_None split: option.splits)

lemma position_sums_other:
  assumes "\<not> exit_of (position_key x) (ps_decision p)"
  shows "held_cost (posted p db) x = held_cost db x"
    "dval (sold_quantity (position_key x) (posted p db)) = dval (sold_quantity (position_key x) db)"
    "dval (allocated_cost (position_key x) (posted p db)) = dval (allocated_cost (position_key x) db)"
  using assms by (simp_all add: held_cost_def sold_posted allocated_posted)

text \<open>A position that is new has no exits: every exit recorded names a position.\<close>

lemma no_exits_yet:
  assumes "\<forall>d \<in> set (pd_decisions db). exit_recorded db d" "position_of k db = None"
  shows "exits_of k db = []"
  using assms by (auto simp: exits_of_def filter_empty_conv exit_recorded_def)

lemma sums_without_exits:
  "exits_of k db = [] \<Longrightarrow> dval (sold_quantity k db) = 0 \<and> dval (allocated_cost k db) = 0"
  by (simp add: sold_quantity_def allocated_cost_def dval_sql_sum List.map_filter_def)

lemma held_sum_posted:
  assumes ok: "paper_ok db" and adm: "posting_admitted p db" and sound: "posting_sound acct p" and ex: "exit_sound db p"
  shows "(\<Sum>x\<leftarrow>positions_of (ac_id acct) (posted p db). held_cost (posted p db) x)
    = (\<Sum>x\<leftarrow>positions_of (ac_id acct) db. held_cost db x) - cash_flow (ps_decision p) + realized (ps_decision p)"
proof -
  let ?d = "ps_decision p"
  let ?ps = "positions_of (ac_id acct) db"
  have keys: "distinct (map position_key ?ps)"
    using ok by (simp add: paper_ok_def paper_keys_unique_def positions_of_def distinct_map_filter)
  have acc: "dc_account ?d = ac_id acct" and dv: "decision_valid ?d"
    using sound adm by (simp_all add: posting_sound_def posting_admitted_def Let_def)
  show ?thesis
  proof (cases "dc_side ?d = Some Sell")
    case True
    with ex obtain x c pnl where none: "ps_position p = None" and x: "position_of (position_key x) db = Some x"
      "exit_of (position_key x) ?d" "dc_cost_basis ?d = Some c" "dc_pnl ?d = Some pnl"
      "dval pnl = dval (dc_notional ?d) - dval (dc_fee ?d) - dval c"
      by (auto simp: exit_sound_def Let_def)
    have mem: "x \<in> set ?ps"
      using position_of_Some [OF x(1)] x(2) acc by (auto simp: positions_of_def exit_of_def position_key_def)
    have "(\<Sum>y\<leftarrow>?ps. held_cost (posted p db) y)
        = (\<Sum>y\<leftarrow>?ps. held_cost db y) - held_cost db x + held_cost (posted p db) x"
    proof (rule sum_change_one [OF keys mem])
      fix y assume "position_key y \<noteq> position_key x"
      then have "\<not> exit_of (position_key y) ?d" using x(2) by (auto simp: exit_of_def position_key_def)
      then show "held_cost (posted p db) y = held_cost db y" by (rule position_sums_other)
    qed
    moreover have "held_cost (posted p db) x = held_cost db x - dval c"
      using x(2,3) by (simp add: held_cost_def allocated_posted)
    ultimately show ?thesis
      using none True x(4,5) by (simp add: positions_of_def cash_flow_def realized_def)
  next
    case False
    then have "\<not> exit_of k ?d" for k by (simp add: exit_of_def)
    then have old: "held_cost (posted p db) y = held_cost db y" for y by (rule position_sums_other)
    have flow: "cash_flow ?d = - dval (dc_notional ?d) - dval (dc_fee ?d)" "realized ?d = 0"
      using False dv by (auto simp: cash_flow_def realized_def decision_valid_def pnl_valid_def)
    show ?thesis
    proof (cases "ps_position p")
      case None
      with sound dv False have "dval (dc_notional ?d) = 0" "dval (dc_fee ?d) = 0"
        by (simp_all add: posting_sound_def Let_def)
      with None flow show ?thesis by (simp add: positions_of_def old)
    next
      case (Some x)
      with sound have x: "hp_account x = ac_id acct" "dval (hp_notional x) = dval (dc_notional ?d)"
        "dval (hp_fee x) = dval (dc_fee ?d)" by (simp_all add: posting_sound_def Let_def)
      have "position_of (position_key x) db = None" using adm Some by (simp add: posting_admitted_def Let_def)
      then have "exits_of (position_key x) db = []" using ok no_exits_yet by (simp add: paper_ok_def)
      from sums_without_exits [OF this] have "held_cost db x = - cash_flow ?d"
        by (simp add: held_cost_def entry_cost_def x flow)
      with Some x(1) flow(2) show ?thesis by (simp add: positions_of_def old)
    qed
  qed
qed

lemma reservation_sum_posted:
  assumes ok: "paper_ok db" and adm: "posting_admitted p db" and sound: "posting_sound acct p"
  shows "(\<Sum>x\<leftarrow>orders_of (ac_id acct) (posted p db). open_reservation (posted p db) x)
    = (\<Sum>x\<leftarrow>orders_of (ac_id acct) db. open_reservation db x)
      + (case ps_order p of None \<Rightarrow> 0 | Some x \<Rightarrow> dval (go_reserved x))"
proof -
  have old: "open_reservation (posted p db) x = open_reservation db x" for x
    by (simp add: open_reservation_def cancellation_of_order_def)
  show ?thesis
  proof (cases "ps_order p")
    case None
    then show ?thesis by (simp add: orders_of_def old)
  next
    case (Some x)
    with sound adm have x: "go_account x = ac_id acct" "order_of (paper_order_key x) db = None"
      by (auto simp: posting_sound_def posting_admitted_def Let_def paper_order_key_def)
    have "cancellation_of_order (paper_order_key x) db = None"
    proof (rule ccontr)
      assume "cancellation_of_order (paper_order_key x) db \<noteq> None"
      then obtain c where "c \<in> set (pd_cancellations db)" "cancelled_order_key c = paper_order_key x"
        unfolding cancellation_of_order_def using row_of_Some by fastforce
      then show False using ok x(2) by (auto simp: paper_ok_def)
    qed
    then have "open_reservation db x = dval (go_reserved x)" by (simp add: open_reservation_def)
    with Some x(1) show ?thesis by (simp add: orders_of_def old)
  qed
qed

lemma account_posted:
  assumes ok: "paper_ok db" and adm: "posting_admitted p db" and sound: "posting_sound acct p" and ex: "exit_sound db p"
    and acct: "acct \<in> set (pd_accounts db)"
  shows "account_ok (posted p db) (ps_account p)"
proof -
  let ?d = "ps_decision p"
  have a: "account_ok db acct" using ok acct by (simp add: paper_ok_def)
  have s: "dc_account ?d = ac_id acct" "dc_sequence ?d = ac_journal_sequence acct + 1"
    "dc_cash_before ?d = ac_cash_balance acct" "dc_cash_after ?d = ac_cash_balance (ps_account p)"
    "ac_id (ps_account p) = ac_id acct" "ac_starting_cash (ps_account p) = ac_starting_cash acct"
    "ac_journal_sequence (ps_account p) = ac_journal_sequence acct + 1"
    "dval (ac_reserved_cash (ps_account p)) = dval (ac_reserved_cash acct)
      + (case ps_order p of None \<Rightarrow> 0 | Some x \<Rightarrow> dval (go_reserved x))"
    using sound by (simp_all add: posting_sound_def Let_def)
  have flow: "dval (dc_cash_after ?d) = dval (dc_cash_before ?d) + cash_flow ?d" and v: "account_valid (ps_account p)"
    using adm by (simp_all add: posting_admitted_def decision_valid_def Let_def)
  have ds: "decisions_of (ac_id acct) (posted p db) = decisions_of (ac_id acct) db @ [?d]"
    by (simp add: decisions_posted s)
  have "map dc_sequence (decisions_of (ac_id acct) db @ [?d]) = [1..ac_journal_sequence (ps_account p)]"
    using a by (simp add: account_ok_def account_valid_def s upto_snoc)
  moreover have "cash_chain (dval (ac_starting_cash acct)) (decisions_of (ac_id acct) db @ [?d])
      (dval (ac_cash_balance (ps_account p)))"
    unfolding s(4) [symmetric] by (rule cash_chain_append) (use a flow in \<open>simp_all add: account_ok_def s\<close>)
  ultimately show ?thesis
    using a flow v held_sum_posted [OF ok adm sound ex] reservation_sum_posted [OF ok adm sound]
    unfolding account_ok_def s(5,6,8) ds by (simp add: s(3,4))
qed

text \<open>The accounts of others, and the positions.\<close>

lemma account_other:
  assumes sound: "posting_sound acct p" and b: "ac_id b \<noteq> ac_id acct" and "account_ok db b"
    and ex: "exit_sound db p"
  shows "account_ok (posted p db) b"
proof -
  have d: "dc_account (ps_decision p) = ac_id acct" using sound by (simp add: posting_sound_def Let_def)
  have pos: "positions_of (ac_id b) (posted p db) = positions_of (ac_id b) db"
    using sound b by (cases "ps_position p") (auto simp: positions_of_def posting_sound_def Let_def)
  have ord: "orders_of (ac_id b) (posted p db) = orders_of (ac_id b) db"
    using sound b by (cases "ps_order p") (auto simp: orders_of_def posting_sound_def Let_def paper_order_key_def)
  have "held_cost (posted p db) x = held_cost db x" if "x \<in> set (positions_of (ac_id b) db)" for x
    by (rule position_sums_other) (use that b d in \<open>auto simp: positions_of_def exit_of_def position_key_def\<close>)
  then have "(\<Sum>x\<leftarrow>positions_of (ac_id b) db. held_cost (posted p db) x)
      = (\<Sum>x\<leftarrow>positions_of (ac_id b) db. held_cost db x)"
    by (intro arg_cong [of _ _ sum_list] map_cong) simp_all
  moreover have "open_reservation (posted p db) x = open_reservation db x" for x
    by (simp add: open_reservation_def cancellation_of_order_def)
  ultimately show ?thesis
    using assms(3) d b by (simp add: account_ok_def decisions_posted pos ord)
qed

lemma position_posted:
  assumes ok: "paper_ok db" and ex: "exit_sound db p" and x: "x \<in> set (pd_positions db)"
  shows "position_ok (posted p db) x"
proof -
  have old: "position_ok db x" using ok x by (simp add: paper_ok_def)
  have kept: "account_of (hp_account x) (posted p db) \<noteq> None" "decision_of (entry_key x) (posted p db) \<noteq> None"
    using old decision_kept [of "entry_key x" db p]
    by (auto simp: position_ok_def Let_def accounts_posted split: option.splits)
  show ?thesis
  proof (cases "exit_of (position_key x) (ps_decision p)")
    case False
    with old kept show ?thesis by (simp add: position_ok_def position_sums_other Let_def)
  next
    case True
    then have "dc_side (ps_decision p) = Some Sell" by (simp add: exit_of_def)
    with ex obtain y c where y: "position_of (position_key y) db = Some y" "exit_of (position_key y) (ps_decision p)"
      "dc_cost_basis (ps_decision p) = Some c"
      "dval (sold_quantity (position_key y) db) + dval (dc_filled (ps_decision p)) \<le> dval (hp_quantity y)"
      "dval (allocated_cost (position_key y) db) + dval c = cost_share (entry_cost y)
        (dval (sold_quantity (position_key y) db) + dval (dc_filled (ps_decision p))) (dval (hp_quantity y))"
      by (auto simp: exit_sound_def Let_def)
    have "position_key x = position_key y" using True y(2) by (auto simp: exit_of_def prod_eq_iff)
    moreover have "position_of (position_key x) db = Some x"
      unfolding position_of_def using ok x by (intro row_of_key) (auto simp: paper_ok_def paper_keys_unique_def)
    ultimately have yx: "y = x" using y(1) by (metis option.inject)
    have "position_valid x" using old by (simp add: position_ok_def Let_def)
    with kept y(4,5) show ?thesis
      unfolding position_ok_def Let_def sold_posted allocated_posted yx by (simp only: True y(3) if_True option.case) simp
  qed
qed

lemma new_position_ok:
  assumes ok: "paper_ok db" and adm: "posting_admitted p db" and sound: "posting_sound acct p"
    and acct: "acct \<in> set (pd_accounts db)" and x: "ps_position p = Some x"
  shows "position_ok (posted p db) x"
proof -
  have s: "hp_account x = ac_id acct" "hp_entry_decision x = dc_decision (ps_decision p)"
    "dc_account (ps_decision p) = ac_id acct" "dc_side (ps_decision p) = Some Buy"
    using sound x by (simp_all add: posting_sound_def Let_def)
  have a: "position_valid x" "position_of (position_key x) db = None"
    "decision_of (decision_key (ps_decision p)) db = None" "account_of (ac_id acct) db \<noteq> None"
    using adm x s(3) by (simp_all add: posting_admitted_def Let_def)
  have "exits_of (position_key x) db = []" using ok no_exits_yet a(2) by (simp add: paper_ok_def)
  from sums_without_exits [OF this] have "dval (sold_quantity (position_key x) (posted p db)) = 0"
    "dval (allocated_cost (position_key x) (posted p db)) = 0"
    using s(4) by (simp_all add: sold_posted allocated_posted exit_of_def)
  moreover have "entry_key x = decision_key (ps_decision p)" by (simp add: entry_key_def decision_key_def s)
  ultimately show ?thesis
    using a s(1) decision_added [OF a(3)]
    by (auto simp: position_ok_def Let_def accounts_posted cost_share_def position_valid_def positive_ok_def split: option.splits)
qed

lemma posted_ok:
  assumes ok: "paper_ok db" and adm: "posting_admitted p db" and sound: "posting_sound acct p" and ex: "exit_sound db p"
    and acct: "acct \<in> set (pd_accounts db)"
  shows "paper_ok (posted p db)"
proof -
  have ids: "ac_id (ps_account p) = ac_id acct" using sound by (simp add: posting_sound_def Let_def)
  have keys: "paper_keys_unique db" using ok by (simp add: paper_ok_def)
  have accounts: "account_ok (posted p db) b" if "b \<in> set (pd_accounts (posted p db))" for b
  proof (cases "ac_id b = ac_id acct")
    case True
    with that have "b = ps_account p" by (auto simp: ids split: if_splits)
    with account_posted [OF ok adm sound ex acct] show ?thesis by simp
  next
    case False
    with that have "b \<in> set (pd_accounts db)" by (auto simp: ids split: if_splits)
    with account_other [OF sound False _ ex] ok show ?thesis by (simp add: paper_ok_def)
  qed
  have positions: "position_ok (posted p db) x" if "x \<in> set (pd_positions (posted p db))" for x
    using that position_posted [OF ok ex] new_position_ok [OF ok adm sound acct] by (auto split: option.splits)
  have dk: "decision_of k db \<noteq> None \<Longrightarrow> decision_of k (posted p db) \<noteq> None" for k
    using decision_kept by metis
  have new: "decision_of (decision_key (ps_decision p)) (posted p db) \<noteq> None"
    using adm decision_added by (simp add: posting_admitted_def Let_def)
  have ak: "account_of k db \<noteq> None \<Longrightarrow> account_of k (posted p db) \<noteq> None" for k
    by (auto simp: accounts_posted)
  have ek: "exit_recorded db d \<Longrightarrow> exit_recorded (posted p db) d" for d
    using position_kept by (fastforce simp: exit_recorded_def)
  have im: "intent_agrees d (posted p db) = intent_agrees d db" for d
    by (simp add: intent_agrees_def intent_of_def)
  have "exit_recorded db (ps_decision p)"
    using ex by (auto simp: exit_recorded_def exit_sound_def exit_of_def Let_def)
  then have decisions: "decision_valid d \<and> intent_agrees d (posted p db) \<and> account_of (dc_account d) (posted p db) \<noteq> None \<and> exit_recorded (posted p db) d"
    if "d \<in> set (pd_decisions (posted p db))" for d
    using that ok adm ak ek unfolding im by (auto simp: paper_ok_def posting_admitted_def Let_def)
  have orders: "order_valid x \<and> decision_of (order_decision_key x) (posted p db) \<noteq> None"
    if "x \<in> set (pd_orders (posted p db))" for x
  proof (cases "x \<in> set (pd_orders db)")
    case True
    with ok have "order_valid x" "decision_of (order_decision_key x) db \<noteq> None" by (simp_all add: paper_ok_def)
    with dk show ?thesis by blast
  next
    case False
    with that have x: "ps_order p = Some x" by (auto split: option.splits)
    with adm sound have "order_valid x" "order_decision_key x = decision_key (ps_decision p)"
      by (simp_all add: posting_admitted_def posting_sound_def Let_def)
    with new show ?thesis by simp
  qed
  have fills: "decision_of (fr_account f, fr_decision f) (posted p db) \<noteq> None" if "f \<in> set (pd_fills (posted p db))" for f
  proof (cases "f \<in> set (pd_fills db)")
    case True
    with ok have "decision_of (fr_account f, fr_decision f) db \<noteq> None" by (simp add: paper_ok_def)
    with dk show ?thesis by blast
  next
    case False
    with that have "f \<in> set (ps_fills p)" by simp
    with sound have "(fr_account f, fr_decision f) = decision_key (ps_decision p)" by (simp add: posting_sound_def Let_def)
    with new show ?thesis by simp
  qed
  have cancellations: "order_of (cancelled_order_key c) (posted p db) \<noteq> None" if "c \<in> set (pd_cancellations (posted p db))" for c
  proof -
    from that ok have "order_of (cancelled_order_key c) db \<noteq> None" by (simp add: paper_ok_def)
    then show ?thesis by (rule order_kept)
  qed
  show ?thesis
    unfolding paper_ok_def
    using keys_posted [OF keys adm] accounts positions decisions orders fills cancellations by blast
qed

end
