(* ===== verification/PaperSteps.thy ===== *)
theory PaperSteps
  imports PaperBooks
begin

text \<open>
  The transactions of the paper accounts as the steps of one machine. Every step keeps the books
  and only adds rows, and the reply to a recorded decision never changes; a decision or an exit
  is a sequence of such steps, whatever other callers do in between.
\<close>

section \<open>Only adding\<close>

definition account_le :: "paper_account \<Rightarrow> paper_account \<Rightarrow> bool" where
  "account_le a b =
     (ac_id b = ac_id a \<and> ac_name b = ac_name a \<and> ac_starting_cash b = ac_starting_cash a
      \<and> ac_journal_sequence a \<le> ac_journal_sequence b)"

definition replies_kept :: "paper_db \<Rightarrow> paper_db \<Rightarrow> bool" where
  "replies_kept db db' =
     (\<forall>k. decision_of k db \<noteq> None \<longrightarrow>
        decision_fills k db' = decision_fills k db \<and> decision_order k db' = decision_order k db)"

definition paper_le :: "paper_db \<Rightarrow> paper_db \<Rightarrow> bool" where
  "paper_le db db' =
     (extends (pd_intents db) (pd_intents db') \<and> extends (pd_decisions db) (pd_decisions db')
      \<and> extends (pd_fills db) (pd_fills db') \<and> extends (pd_positions db) (pd_positions db')
      \<and> extends (pd_orders db) (pd_orders db') \<and> extends (pd_cancellations db) (pd_cancellations db')
      \<and> extends (pd_events db) (pd_events db')
      \<and> (\<forall>i a. account_of i db = Some a \<longrightarrow> (\<exists>b. account_of i db' = Some b \<and> account_le a b))
      \<and> replies_kept db db')"

lemma paper_leD:
  assumes "paper_le a b"
  shows "extends (pd_intents a) (pd_intents b)" "extends (pd_decisions a) (pd_decisions b)"
    "extends (pd_fills a) (pd_fills b)" "extends (pd_positions a) (pd_positions b)"
    "extends (pd_orders a) (pd_orders b)" "extends (pd_cancellations a) (pd_cancellations b)"
    "extends (pd_events a) (pd_events b)" "replies_kept a b"
    "account_of i a = Some x \<Longrightarrow> \<exists>y. account_of i b = Some y \<and> account_le x y"
  using assms unfolding paper_le_def by blast+

lemma replies_keptD:
  "replies_kept a b \<Longrightarrow> decision_of k a = Some d \<Longrightarrow>
     decision_fills k b = decision_fills k a \<and> decision_order k b = decision_order k a"
  unfolding replies_kept_def by (metis option.distinct(1))

lemma paper_le_decision: "paper_le a b \<Longrightarrow> decision_of k a = Some d \<Longrightarrow> decision_of k b = Some d"
  unfolding decision_of_def by (erule row_of_extends [OF paper_leD(2)])

lemma paper_le_refl: "paper_le db db"
  by (simp add: paper_le_def account_le_def replies_kept_def)

lemma account_le_trans: "account_le x y \<Longrightarrow> account_le y z \<Longrightarrow> account_le x z"
  by (simp add: account_le_def)

lemma paper_le_trans: "paper_le a b \<Longrightarrow> paper_le b c \<Longrightarrow> paper_le a c"
proof -
  assume ab: "paper_le a b" and bc: "paper_le b c"
  have "\<exists>z. account_of i c = Some z \<and> account_le x z" if x: "account_of i a = Some x" for i x
    using paper_leD(9) [OF ab x] paper_leD(9) [OF bc] account_le_trans by blast
  moreover have "replies_kept a c"
    unfolding replies_kept_def
  proof (intro allI impI)
    fix k assume "decision_of k a \<noteq> None"
    then obtain d where d: "decision_of k a = Some d" by blast
    from replies_keptD [OF paper_leD(8) [OF ab] d]
      replies_keptD [OF paper_leD(8) [OF bc] paper_le_decision [OF ab d]]
    show "decision_fills k c = decision_fills k a \<and> decision_order k c = decision_order k a" by simp
  qed
  ultimately show ?thesis
    unfolding paper_le_def by (simp add: extends_trans [OF paper_leD(1) [OF ab] paper_leD(1) [OF bc]]
      extends_trans [OF paper_leD(2) [OF ab] paper_leD(2) [OF bc]] extends_trans [OF paper_leD(3) [OF ab] paper_leD(3) [OF bc]]
      extends_trans [OF paper_leD(4) [OF ab] paper_leD(4) [OF bc]] extends_trans [OF paper_leD(5) [OF ab] paper_leD(5) [OF bc]]
      extends_trans [OF paper_leD(6) [OF ab] paper_leD(6) [OF bc]] extends_trans [OF paper_leD(7) [OF ab] paper_leD(7) [OF bc]])
qed

text \<open>The reply to a recorded decision stays what it was.\<close>

lemma reply_kept:
  assumes "paper_le db db'" "decision_of k db = Some d"
  shows "serialize_decision d db' = serialize_decision d db"
proof -
  have "decision_key d = k" using decision_of_Some [OF assms(2)] by simp
  with replies_keptD [OF paper_leD(8) [OF assms(1)] assms(2)] show ?thesis
    by (simp only: serialize_decision_def)
qed

lemma existing_reply_kept:
  assumes "paper_le db db'" "decision_of k db = Some d"
  shows "existing_reply k h db' = existing_reply k h db"
  by (simp only: existing_reply_def paper_le_decision [OF assms] reply_kept [OF assms] assms(2) option.case)

text \<open>Changes of other columns.\<close>

lemma books_elsewhere:
  assumes "pd_accounts db' = pd_accounts db" "pd_decisions db' = pd_decisions db" "pd_fills db' = pd_fills db"
    "pd_positions db' = pd_positions db" "pd_orders db' = pd_orders db"
    "pd_cancellations db' = pd_cancellations db" "extends (pd_intents db) (pd_intents db')"
    "extends (pd_events db) (pd_events db')" "paper_ok db"
  shows "paper_ok db' \<and> paper_le db db'"
proof -
  have q: "account_of i db' = account_of i db" "decision_of k db' = decision_of k db"
    "position_of k db' = position_of k db" "order_of k db' = order_of k db" "exits_of k db' = exits_of k db"
    "cancellation_of_order k db' = cancellation_of_order k db" "decision_fills k db' = decision_fills k db"
    "decision_order k db' = decision_order k db" for i k
    by (simp_all add: account_of_def decision_of_def position_of_def order_of_def exits_of_def
        cancellation_of_order_def decision_fills_def decision_order_def assms)
  have sums: "sold_quantity k db' = sold_quantity k db" "allocated_cost k db' = allocated_cost k db" for k
    by (simp_all add: sold_quantity_def allocated_cost_def q)
  have held: "held_cost db' = held_cost db" "open_reservation db' = open_reservation db"
    by (rule ext, simp add: held_cost_def open_reservation_def q sums)+
  have lists: "decisions_of i db' = decisions_of i db" "positions_of i db' = positions_of i db"
    "orders_of i db' = orders_of i db" for i
    by (simp_all add: decisions_of_def positions_of_def orders_of_def assms)
  have parts: "account_ok db' = account_ok db" "position_ok db' = position_ok db" "exit_recorded db' = exit_recorded db"
    by (rule ext, simp add: account_ok_def position_ok_def exit_recorded_def q sums held lists)+
  have im: "intent_agrees d db \<Longrightarrow> intent_agrees d db'" for d
    using row_of_extends [OF assms(7)] by (fastforce simp: intent_agrees_def intent_of_def split: option.splits)
  have "paper_ok db'"
    using assms(9) im unfolding paper_ok_def paper_keys_unique_def by (simp add: parts q assms(1-6))
  moreover have "paper_le db db'"
    using assms(7,8) by (simp add: paper_le_def q assms(1-6) account_le_def replies_kept_def)
  ultimately show ?thesis by simp
qed

section \<open>Commits\<close>

lemma posted_le:
  assumes sound: "posting_sound acct p" and adm: "posting_admitted p db" and acct: "account_of (ac_id acct) db = Some acct"
  shows "paper_le db (posted p db)"
proof -
  have ids: "ac_id (ps_account p) = ac_id acct" "account_le acct (ps_account p)"
    using sound by (simp_all add: posting_sound_def account_le_def Let_def)
  have fresh: "decision_of (decision_key (ps_decision p)) db = None" using adm by (simp add: posting_admitted_def Let_def)
  have "replies_kept db (posted p db)"
    unfolding replies_kept_def
  proof (intro allI impI)
    fix k assume "decision_of k db \<noteq> None"
    with fresh have k: "k \<noteq> decision_key (ps_decision p)" by metis
    have "(fr_account f, fr_decision f) \<noteq> k" if "f \<in> set (ps_fills p)" for f
      using sound k that by (auto simp: posting_sound_def Let_def)
    then have "decision_fills k (posted p db) = decision_fills k db"
      by (simp add: decision_fills_def)
    moreover have "decision_order k (posted p db) = decision_order k db"
      using sound k by (cases "ps_order p")
        (auto simp: posting_sound_def decision_order_def row_of_new Let_def split: option.splits)
    ultimately show "decision_fills k (posted p db) = decision_fills k db
      \<and> decision_order k (posted p db) = decision_order k db" by simp
  qed
  moreover have "\<exists>b. account_of i (posted p db) = Some b \<and> account_le a b" if i: "account_of i db = Some a" for i a
  proof (cases "i = ac_id acct")
    case True
    with acct i have "a = acct" by simp
    with True i ids show ?thesis by (simp add: accounts_posted)
  next
    case False
    with i ids(1) have "account_of i (posted p db) = Some a" by (simp add: accounts_posted)
    then show ?thesis by (simp add: account_le_def)
  qed
  ultimately show ?thesis by (simp add: paper_le_def)
qed

text \<open>A commit either leaves the tables or adds one posting; the reply is that to the recorded decision.\<close>

lemma commit_posting_cases:
  assumes "transaction (commit_posting k h settle) db = (r, db')"
  obtains (kept) "db' = db" "(\<exists>e. r = Inl e) \<or> (\<exists>reply. r = Inr reply \<and> existing_reply k h db = Inr (Some reply))"
  | (posted) acct p reply where "account_of (fst k) db = Some acct" "decision_of k db = None" "settle acct db = Inr p"
      "posting_admitted p db" "db' = posted p db" "r = Inr reply" "serialize_decision (ps_decision p) db' = Inr reply"
proof (cases "account_of (fst k) db")
  case None
  with assms have "db' = db" "r = Inl no_account" by (simp_all add: commit_posting_def transaction_def)
  with kept show thesis by blast
next
  case (Some acct)
  show thesis
  proof (cases "existing_reply k h db")
    case (Inl e)
    with Some assms have "db' = db" "r = Inl e" by (simp_all add: commit_posting_def transaction_def)
    with kept show thesis by blast
  next
    case (Inr x)
    show thesis
    proof (cases x)
      case (Some reply)
      with \<open>account_of (fst k) db = Some acct\<close> Inr assms have "db' = db" "r = Inr reply"
        by (simp_all add: commit_posting_def transaction_def)
      with Inr Some kept show thesis by blast
    next
      case None
      with Inr have new: "decision_of k db = None"
        by (auto simp: existing_reply_def bindE_eq_Inr split: option.splits if_splits)
      show thesis
      proof (cases "settle acct db")
        case (Inl e)
        with Some \<open>existing_reply k h db = Inr x\<close> None assms have "db' = db" "r = Inl e"
          by (simp_all add: commit_posting_def transaction_def)
        with kept show thesis by blast
      next
        case (Inr p)
        let ?m = "bindA (post p) (\<lambda>_ s. (serialize_decision (ps_decision p) s, s))"
        have run: "transaction ?m db = (r, db')"
          using assms Some \<open>existing_reply k h db = Inr x\<close> None Inr by (simp add: commit_posting_def transaction_def)
        show thesis
        proof (cases r)
          case (Inl e)
          with run have "db' = db" using transaction_Inl by metis
          with Inl kept show thesis by blast
        next
          case (Inr reply)
          with run obtain u s where "post p db = (Inr u, s)" "serialize_decision (ps_decision p) s = Inr reply" "db' = s"
            by (auto simp: transaction_Inr bindA_eq_Inr)
          with post_Inr posted [OF Some new \<open>settle acct db = Inr p\<close> _ _ Inr] show thesis by blast
        qed
      qed
    qed
  qed
qed

definition settles_soundly :: "string \<times> string \<Rightarrow> (paper_account \<Rightarrow> paper_db \<Rightarrow> posting res) \<Rightarrow> paper_db \<Rightarrow> bool" where
  "settles_soundly k settle db =
     (\<forall>acct p. account_of (fst k) db = Some acct \<longrightarrow> settle acct db = Inr p \<longrightarrow>
        posting_sound acct p \<and> exit_sound db p \<and> decision_key (ps_decision p) = k)"

lemma commit_posting_advances:
  assumes "paper_ok db" "settles_soundly k settle db"
  shows "paper_ok (snd (transaction (commit_posting k h settle) db))
    \<and> paper_le db (snd (transaction (commit_posting k h settle) db))"
proof -
  obtain r db' where run: "transaction (commit_posting k h settle) db = (r, db')" by fastforce
  then show ?thesis
  proof (cases rule: commit_posting_cases)
    case kept
    with run assms(1) paper_le_refl show ?thesis by simp
  next
    case (posted acct p reply)
    from assms(2) posted(1,3) have s: "posting_sound acct p" "exit_sound db p"
      unfolding settles_soundly_def by blast+
    have a: "acct \<in> set (pd_accounts db)" "account_of (ac_id acct) db = Some acct"
      using account_of_Some [OF posted(1)] posted(1) by simp_all
    from posted_ok [OF assms(1) posted(4) s a(1)] posted_le [OF s(1) posted(4) a(2)] run posted(5)
    show ?thesis by simp
  qed
qed

lemma entry_settles_soundly:
  assumes "is_simulated (prep_status pp) \<Longrightarrow> er_quantity rq \<noteq> None"
  shows "settles_soundly (er_account rq, er_decision rq) (\<lambda>acct _. settle_entry sha rq ro pp now acct) db"
  unfolding settles_soundly_def
proof (intro allI impI)
  fix acct p
  assume "account_of (fst (er_account rq, er_decision rq)) db = Some acct" and p: "settle_entry sha rq ro pp now acct = Inr p"
  then have "ac_id acct = er_account rq" using account_of_Some by fastforce
  from settle_entry_sound [OF p this assms] settle_entry_form [OF p]
  show "posting_sound acct p \<and> exit_sound db p \<and> decision_key (ps_decision p) = (er_account rq, er_decision rq)"
    by (simp add: exit_sound_def Let_def)
qed

lemma settle_exit_form:
  assumes "settle_exit rq ro pp now p sold allocated acct = Inr x"
  shows "decision_key (ps_decision x) = (xq_account rq, xq_decision rq) \<and> dc_request_hash (ps_decision x) = xq_hash rq"
  using assms unfolding settle_exit_def Let_def by (elim run_elims) (auto simp: exit_posting_def decision_key_def)

lemma exit_settles_soundly:
  assumes "paper_ok db"
  shows "settles_soundly (xq_account rq, xq_decision rq)
    (\<lambda>acct db. let k = (xq_account rq, xq_position rq) in
       case position_of k db of
         None \<Rightarrow> Inl (PaperPositionNotFound ''paper position not found'')
       | Some p \<Rightarrow> settle_exit rq ro pp now p (sold_quantity k db) (allocated_cost k db) acct) db"
  unfolding settles_soundly_def Let_def
proof (intro allI impI)
  let ?k = "(xq_account rq, xq_position rq)"
  fix acct x
  assume a: "account_of (fst (xq_account rq, xq_decision rq)) db = Some acct"
    and "(case position_of ?k db of
         None \<Rightarrow> Inl (PaperPositionNotFound ''paper position not found'')
       | Some p \<Rightarrow> settle_exit rq ro pp now p (sold_quantity ?k db) (allocated_cost ?k db) acct) = Inr x"
  then obtain p where p: "position_of ?k db = Some p"
    and x: "settle_exit rq ro pp now p (sold_quantity ?k db) (allocated_cost ?k db) acct = Inr x"
    by (auto split: option.splits)
  have k: "p \<in> set (pd_positions db)" "position_key p = ?k" using position_of_Some [OF p] by simp_all
  then have "0 < dval (hp_quantity p)"
    using assms by (auto simp: paper_ok_def position_ok_def position_valid_def positive_ok_def Let_def)
  note f = settle_exit_figures [OF x this]
  have "exit_of (position_key p) (ps_decision x)" by (simp add: exit_of_def k(2) f)
  moreover obtain c pnl where "dc_cost_basis (ps_decision x) = Some c" "dc_pnl (ps_decision x) = Some pnl"
    "dval pnl = dval (dc_notional (ps_decision x)) - dval (dc_fee (ps_decision x)) - dval c"
    "dval (allocated_cost ?k db) + dval c = cost_share (dval (hp_notional p) + dval (hp_fee p))
      (dval (sold_quantity ?k db) + dval (dc_filled (ps_decision x))) (dval (hp_quantity p))"
    using f(6) by blast
  ultimately have "exit_sound db x"
    using p f(5) unfolding exit_sound_def Let_def
    by (simp add: f(2,4)) (intro exI [of _ p], simp add: k(2) entry_cost_def)
  moreover have "ac_id acct = xq_account rq" using account_of_Some [OF a] by simp
  ultimately show "posting_sound acct x \<and> exit_sound db x \<and> decision_key (ps_decision x) = (xq_account rq, xq_decision rq)"
    using settle_exit_sound [OF x] settle_exit_form [OF x] by simp
qed

section \<open>Intents, accounts, cancellations\<close>

lemma add_intent_advances:
  assumes "paper_ok db" "add_intent i db = (Inr u, db')"
  shows "paper_ok db' \<and> paper_le db db'"
proof -
  from assms(2) have "db' = pd_intents_update (\<lambda>xs. xs @ [i]) db" by (simp add: add_intent_def insert_row_Inr)
  then show ?thesis by (intro books_elsewhere assms(1)) simp_all
qed

text \<open>A new account has no rows yet.\<close>

lemma no_rows_without_account:
  assumes "paper_ok db" "account_of i db = None"
  shows "decisions_of i db = []" "positions_of i db = []" "orders_of i db = []"
proof -
  show "decisions_of i db = []" "positions_of i db = []"
    using assms by (auto simp: decisions_of_def positions_of_def filter_empty_conv paper_ok_def position_ok_def Let_def)
  show "orders_of i db = []"
  proof (rule ccontr)
    assume "orders_of i db \<noteq> []"
    then obtain x where x: "x \<in> set (pd_orders db)" "go_account x = i" by (auto simp: orders_of_def filter_empty_conv)
    then obtain d where "decision_of (order_decision_key x) db = Some d" using assms(1) by (auto simp: paper_ok_def)
    from decision_of_Some [OF this] have "d \<in> set (pd_decisions db)" "dc_account d = i"
      using x(2) by (simp_all add: decision_key_def order_decision_key_def)
    with assms show False by (auto simp: paper_ok_def)
  qed
qed

lemma add_account_advances:
  assumes ok: "paper_ok db" and add: "add_account a db = (Inr u, db')"
    and new: "dval (ac_cash_balance a) = dval (ac_starting_cash a)" "dval (ac_reserved_cash a) = 0" "ac_journal_sequence a = 0"
  shows "paper_ok db' \<and> paper_le db db'"
proof -
  from add have a: "account_valid a" "account_of (ac_id a) db = None"
    and db': "db' = pd_accounts_update (\<lambda>xs. xs @ [a]) db"
    by (simp_all add: add_account_def insert_row_Inr account_of_def)
  have tables: "pd_intents db' = pd_intents db" "pd_decisions db' = pd_decisions db" "pd_fills db' = pd_fills db"
    "pd_positions db' = pd_positions db" "pd_orders db' = pd_orders db" "pd_cancellations db' = pd_cancellations db"
    "pd_events db' = pd_events db" "pd_accounts db' = pd_accounts db @ [a]"
    by (simp_all add: db')
  have q: "decision_of k db' = decision_of k db"
    "position_of k db' = position_of k db" "order_of k db' = order_of k db" "exits_of k db' = exits_of k db"
    "cancellation_of_order k db' = cancellation_of_order k db" "decision_fills k db' = decision_fills k db"
    "decision_order k db' = decision_order k db" "intent_of k db' = intent_of k db" for k
    by (simp_all add: decision_of_def position_of_def order_of_def exits_of_def intent_of_def
        cancellation_of_order_def decision_fills_def decision_order_def tables)
  have sums: "sold_quantity k db' = sold_quantity k db" "allocated_cost k db' = allocated_cost k db" for k
    by (simp_all add: sold_quantity_def allocated_cost_def q)
  have held: "held_cost db' = held_cost db" "open_reservation db' = open_reservation db"
    by (rule ext, simp add: held_cost_def open_reservation_def q sums)+
  have lists: "decisions_of i db' = decisions_of i db" "positions_of i db' = positions_of i db"
    "orders_of i db' = orders_of i db" for i
    by (simp_all add: decisions_of_def positions_of_def orders_of_def tables)
  have parts: "account_ok db' = account_ok db" "exit_recorded db' = exit_recorded db" "intent_agrees d db' = intent_agrees d db" for d
    by (rule ext | simp add: account_ok_def exit_recorded_def intent_agrees_def q sums held lists)+
  have kept: "account_of i db \<noteq> None \<Longrightarrow> account_of i db' = account_of i db" for i
    by (auto simp: account_of_def tables row_of_append_old)
  have pos: "position_ok db' p" if "position_ok db p" for p
    using that kept by (simp add: position_ok_def q sums Let_def)
  have "account_ok db a"
    using a new no_rows_without_account [OF ok a(2)] by (simp add: account_ok_def)
  moreover have "ac_id a \<notin> ac_id ` set (pd_accounts db)" using a(2) by (simp add: account_of_def row_of_None)
  ultimately have "paper_ok db'"
    using ok pos kept unfolding paper_ok_def paper_keys_unique_def by (auto simp: parts q tables)
  moreover have "paper_le db db'"
    using kept by (auto simp: paper_le_def q tables account_le_def replies_kept_def)
  ultimately show ?thesis by simp
qed

lemma create_account_advances:
  assumes "paper_ok db"
  shows "paper_ok (snd (create_account fresh now name cash db)) \<and> paper_le db (snd (create_account fresh now name cash db))"
proof (cases "strip name = [] \<or> (\<exists>e. parse_cash cash ''starting_cash'' = Inl e)")
  case True
  then show ?thesis using assms paper_le_refl by (auto simp: create_account_def)
next
  case False
  then obtain c where c: "parse_cash cash ''starting_cash'' = Inr c" by (cases "parse_cash cash ''starting_cash''") auto
  define acct where "acct = \<lparr>ac_id = fresh, ac_name = strip name, ac_currency = ''USD'', ac_starting_cash = c,
    ac_cash_balance = c, ac_reserved_cash = dzero, ac_journal_sequence = 0, ac_created_at = utc_of now, ac_updated_at = utc_of now\<rparr>"
  obtain r s where add: "add_account acct db = (r, s)" by fastforce
  have run: "snd (create_account fresh now name cash db) = s"
    using False c add by (cases r) (simp_all add: create_account_def bindA_def acct_def Let_def)
  show ?thesis
  proof (cases r)
    case (Inl e)
    then have "s = db" using add by (auto simp: add_account_def insert_row_def split: if_splits)
    then show ?thesis using assms paper_le_refl run by simp
  next
    case (Inr u)
    show ?thesis unfolding run
      by (rule add_account_advances [OF assms add [unfolded Inr]]) (simp_all add: acct_def)
  qed
qed

text \<open>A cancellation releases the reservation of its order, and nothing else.\<close>

definition released_account :: "paper_account \<Rightarrow> paper_order \<Rightarrow> paper_account \<Rightarrow> bool" where
  "released_account acct x a =
     (ac_id a = ac_id acct \<and> ac_name a = ac_name acct \<and> ac_starting_cash a = ac_starting_cash acct
      \<and> ac_cash_balance a = ac_cash_balance acct \<and> ac_journal_sequence a = ac_journal_sequence acct
      \<and> dval (ac_reserved_cash a) = dval (ac_reserved_cash acct) - dval (go_reserved x))"

lemma release_order_Inr:
  assumes "release_order acct x cancellation now db = (Inr r, db')"
  obtains c e a where
    "db' = db\<lparr>pd_cancellations := pd_cancellations db @ [c], pd_events := pd_events db @ [e],
       pd_accounts := map (\<lambda>y. if ac_id y = ac_id a then a else y) (pd_accounts db)\<rparr>"
    "cancellation_key c = (go_account x, cancellation)" "cancelled_order_key c = paper_order_key x"
    "cx_released c = go_reserved x" "released_account acct x a" "account_valid a" "serialize_cancellation c = Inr r"
    "row_of cancellation_key (cancellation_key c) (pd_cancellations db) = None"
proof -
  define c where "c = \<lparr>cx_account = go_account x, cx_cancellation = cancellation, cx_order = go_order x,
    cx_released = go_reserved x, cx_status = ''cancelled'', cx_created_at = now\<rparr>"
  define e where "e = \<lparr>oe_account = go_account x, oe_order = go_order x, oe_sequence = 2,
    oe_type = ''cancelled'', oe_cancellation = Some cancellation, oe_quantity = go_open x,
    oe_reserved = go_reserved x, oe_created_at = now\<rparr>"
  from assms obtain reserved release s1 s2 where
    u: "units_of 18 ''reserved_cash'' (ac_reserved_cash acct) = Inr reserved"
      "units_of 18 ''order.reserved_cash'' (go_reserved x) = Inr release"
    and s: "add_cancellation c db = (Inr (), s1)" "add_event e s1 = (Inr (), s2)"
      "update_account (acct\<lparr>ac_reserved_cash := from_scaled_int 18 (reserved - release), ac_updated_at := now\<rparr>) s2
        = (Inr (), db')" "serialize_cancellation c = Inr r"
    unfolding release_order_def Let_def c_def e_def
    by (auto simp: bindA_eq_Inr liftE_eq_Inr split: if_splits)
  let ?a = "acct\<lparr>ac_reserved_cash := from_scaled_int 18 (reserved - release), ac_updated_at := now\<rparr>"
  from s(1) have s1: "s1 = db\<lparr>pd_cancellations := pd_cancellations db @ [c]\<rparr>"
    and fresh: "row_of cancellation_key (cancellation_key c) (pd_cancellations db) = None"
    by (cases db, auto simp: add_cancellation_def insert_row_Inr)+
  from s(2) have s2: "s2 = s1\<lparr>pd_events := pd_events s1 @ [e]\<rparr>"
    by (cases s1) (auto simp: add_event_def insert_row_Inr)
  from s(3) have a: "account_valid ?a" "db' = s2\<lparr>pd_accounts :=
      map (\<lambda>y. if ac_id y = ac_id ?a then ?a else y) (pd_accounts s2)\<rparr>"
    by (auto simp: update_account_def split: if_splits)
  show thesis
  proof (rule that [where c = c and e = e and a = ?a])
    show "db' = db\<lparr>pd_cancellations := pd_cancellations db @ [c], pd_events := pd_events db @ [e],
        pd_accounts := map (\<lambda>y. if ac_id y = ac_id ?a then ?a else y) (pd_accounts db)\<rparr>"
      unfolding a(2) s2 s1 by simp
    show "released_account acct x ?a"
      using u [THEN units_of_eq] by (simp add: released_account_def diff_divide_distrib)
  qed (use a(1) s(4) fresh in \<open>simp_all add: c_def cancellation_key_def cancelled_order_key_def paper_order_key_def\<close>)
qed

lemma release_order_advances:
  assumes ok: "paper_ok db" and run: "release_order acct x cancellation now db = (Inr r, db')"
    and acct: "account_of (go_account x) db = Some acct" and x: "order_of (paper_order_key x) db = Some x"
    and free: "cancellation_of_order (paper_order_key x) db = None"
  shows "paper_ok db' \<and> paper_le db db'"
  using run
proof (rule release_order_Inr)
  fix c e a
  assume db': "db' = db\<lparr>pd_cancellations := pd_cancellations db @ [c], pd_events := pd_events db @ [e],
       pd_accounts := map (\<lambda>y. if ac_id y = ac_id a then a else y) (pd_accounts db)\<rparr>"
    and c: "cancelled_order_key c = paper_order_key x" and a: "released_account acct x a" "account_valid a"
  have acc: "acct \<in> set (pd_accounts db)" "ac_id acct = go_account x" "ac_id a = go_account x"
    using account_of_Some [OF acct] a(1) by (simp_all add: released_account_def)
  have tables: "pd_intents db' = pd_intents db" "pd_decisions db' = pd_decisions db" "pd_fills db' = pd_fills db"
    "pd_positions db' = pd_positions db" "pd_orders db' = pd_orders db"
    "pd_cancellations db' = pd_cancellations db @ [c]" "pd_events db' = pd_events db @ [e]"
    "pd_accounts db' = map (\<lambda>y. if ac_id y = go_account x then a else y) (pd_accounts db)"
    by (simp_all add: db' acc)
  have q: "decision_of k db' = decision_of k db" "intent_of k db' = intent_of k db"
    "position_of k db' = position_of k db" "order_of k db' = order_of k db" "exits_of k db' = exits_of k db"
    "decision_fills k db' = decision_fills k db" "decision_order k db' = decision_order k db" for k
    by (simp_all add: decision_of_def position_of_def order_of_def exits_of_def intent_of_def
        decision_fills_def decision_order_def tables)
  have sums: "sold_quantity k db' = sold_quantity k db" "allocated_cost k db' = allocated_cost k db" for k
    by (simp_all add: sold_quantity_def allocated_cost_def q)
  have held: "held_cost db' = held_cost db" by (rule ext) (simp add: held_cost_def q sums)
  have lists: "decisions_of i db' = decisions_of i db" "positions_of i db' = positions_of i db"
    "orders_of i db' = orders_of i db" for i
    by (simp_all add: decisions_of_def positions_of_def orders_of_def tables)
  have parts: "exit_recorded db' = exit_recorded db" "intent_agrees d db' = intent_agrees d db" for d
    by (rule ext | simp add: exit_recorded_def intent_agrees_def q)+
  have other: "open_reservation db' y = open_reservation db y" if "paper_order_key y \<noteq> paper_order_key x" for y
    using that c by (simp add: open_reservation_def cancellation_of_order_def tables row_of_new split: option.splits)
  have gone: "open_reservation db' x = 0" "open_reservation db x = dval (go_reserved x)"
    using free c by (simp_all add: open_reservation_def cancellation_of_order_def tables row_of_new)
  have keys: "distinct (map paper_order_key (orders_of (go_account x) db))"
    using ok by (simp add: paper_ok_def paper_keys_unique_def orders_of_def distinct_map_filter)
  have mem: "x \<in> set (orders_of (go_account x) db)" using order_of_Some [OF x] by (simp add: orders_of_def)
  have sum: "(\<Sum>y\<leftarrow>orders_of (go_account x) db. open_reservation db' y)
      = (\<Sum>y\<leftarrow>orders_of (go_account x) db. open_reservation db y) - dval (go_reserved x)"
    using sum_change_one [OF keys mem, of "open_reservation db'" "open_reservation db"] other gone by simp
  have acc_map: "account_of i db' = (case account_of i db of None \<Rightarrow> None | Some y \<Rightarrow> Some (if i = ac_id a then a else y))" for i
    using account_of_map [of i a "pd_accounts db"] by (simp add: account_of_def tables acc(3))
  have old: "account_ok db acct" using ok acc(1) by (simp add: paper_ok_def)
  have "account_ok db' a"
    using old a sum acc by (simp add: account_ok_def released_account_def held lists)
  moreover have "account_ok db' b" if b: "b \<in> set (pd_accounts db)" "ac_id b \<noteq> go_account x" for b
  proof -
    have "open_reservation db' y = open_reservation db y" if "y \<in> set (orders_of (ac_id b) db)" for y
      by (rule other) (use that b(2) in \<open>auto simp: orders_of_def paper_order_key_def\<close>)
    then have "(\<Sum>y\<leftarrow>orders_of (ac_id b) db. open_reservation db' y) = (\<Sum>y\<leftarrow>orders_of (ac_id b) db. open_reservation db y)"
      by (intro arg_cong [of _ _ sum_list] map_cong) simp_all
    moreover have "account_ok db b" using ok b(1) by (simp add: paper_ok_def)
    ultimately show ?thesis by (simp add: account_ok_def held lists)
  qed
  ultimately have accounts: "\<forall>b \<in> set (pd_accounts db'). account_ok db' b" by (auto simp: tables)
  have kept: "account_of i db \<noteq> None \<Longrightarrow> account_of i db' \<noteq> None" for i by (auto simp: acc_map)
  have pos: "position_ok db p \<Longrightarrow> position_ok db' p" for p
    using kept by (simp add: position_ok_def q sums Let_def)
  have new: "cancelled_order_key c \<notin> cancelled_order_key ` set (pd_cancellations db)"
    using free c by (simp add: cancellation_of_order_def row_of_None)
  have keys': "paper_keys_unique db'"
    using ok new acc(3) by (simp add: paper_ok_def paper_keys_unique_def tables flip: acc(3))
  have decisions: "decision_valid d \<and> intent_agrees d db' \<and> account_of (dc_account d) db' \<noteq> None \<and> exit_recorded db' d"
    if "d \<in> set (pd_decisions db)" for d
    using that ok kept [of "dc_account d"] by (simp add: paper_ok_def parts)
  have "paper_ok db'"
    using ok pos accounts keys' decisions x c unfolding paper_ok_def by (auto simp: q tables)
  moreover have "\<exists>z. account_of i db' = Some z \<and> account_le y z" if "account_of i db = Some y" for i y
    using that acct a(1) acc by (auto simp: acc_map account_le_def released_account_def)
  ultimately show ?thesis by (simp add: paper_le_def q tables replies_kept_def)
qed

lemma cancel_order_cases:
  assumes "cancel_order account_id order_id cancellation_id now db = (r, db')"
  obtains (refused) e where "r = Inl e" "db' = db"
  | (known) c reply where "r = Inr reply" "db' = db" "serialize_cancellation c = Inr reply"
      "row_of cancellation_key (strip account_id, strip cancellation_id) (pd_cancellations db) = Some c"
  | (released) acct x reply where "r = Inr reply" "paper_order_key x = (strip account_id, strip order_id)"
      "row_of cancellation_key (strip account_id, strip cancellation_id) (pd_cancellations db) = None"
      "account_of (go_account x) db = Some acct" "order_of (paper_order_key x) db = Some x" "cancelable x db"
      "release_order acct x (strip cancellation_id) (utc_of now) db = (Inr reply, db')"
proof -
  let ?account = "strip account_id" and ?order = "strip order_id" and ?c = "strip cancellation_id"
  show thesis
  proof (cases r)
    case (Inl e)
    with assms have "db' = db" by (auto simp: cancel_order_def Let_def dest: transaction_Inl split: if_splits)
    with Inl refused show thesis by blast
  next
    case (Inr reply)
    with assms have ne: "\<not> (?account = [] \<or> ?order = [] \<or> ?c = [])" by (auto simp: cancel_order_def Let_def)
    with assms obtain acct where acct: "account_of ?account db = Some acct"
      unfolding Inr cancel_order_def Let_def by (cases "account_of ?account db") (auto simp: transaction_Inr)
    show thesis
    proof (cases "row_of cancellation_key (?account, ?c) (pd_cancellations db)")
      case (Some c)
      with assms ne acct have "db' = db" "serialize_cancellation c = Inr reply"
        unfolding Inr cancel_order_def Let_def by (auto simp: transaction_Inr split: if_splits)
      with Some Inr known show thesis by blast
    next
      case None
      with assms ne acct obtain x where g: "cancel_guard (?account, ?order) db = Inr x"
        and run: "release_order acct x ?c (utc_of now) db = (Inr reply, db')"
        unfolding Inr cancel_order_def Let_def by (cases "cancel_guard (?account, ?order) db") (auto simp: transaction_Inr)
      from g have x: "order_of (?account, ?order) db = Some x" "cancellation_of_order (?account, ?order) db = None"
        "0 < dval (go_open x)" "0 < dval (go_reserved x)"
        by (auto simp: cancel_guard_def not_le split: option.splits if_splits)
      have xk: "paper_order_key x = (?account, ?order)" using order_of_Some [OF x(1)] by simp
      then have owner: "go_account x = ?account" by (auto simp: paper_order_key_def)
      show thesis
        by (rule released [OF Inr, of x acct]) (simp_all add: xk x acct run owner None cancelable_def)
    qed
  qed
qed

lemma cancel_order_advances:
  assumes "paper_ok db"
  shows "paper_ok (snd (cancel_order a o1 c now db)) \<and> paper_le db (snd (cancel_order a o1 c now db))"
proof -
  obtain r db' where run: "cancel_order a o1 c now db = (r, db')" by fastforce
  then show ?thesis
  proof (cases rule: cancel_order_cases)
    case (released acct x reply)
    have "cancellation_of_order (paper_order_key x) db = None" using released(6) by (simp add: cancelable_def)
    from release_order_advances [OF assms released(7,4,5) this] run show ?thesis by simp
  qed (use run assms paper_le_refl in simp_all)
qed

end
