(* ===== verification/PaperMachine.thy ===== *)
theory PaperMachine
  imports PaperSteps
begin

text \<open>
  All transactions of the paper accounts as the steps of one machine, and its interpretation.
\<close>

section \<open>The machine\<close>

text \<open>A step of a commit carries what the market data client answered.\<close>

datatype paper_op =
    ScannerStep "opportunity_state list"
  | AccountStep string py_datetime string pyval
  | EntryIntentStep entry_request py_datetime
  | EntryStep entry_request resolved_opportunity "paper_quote res" py_datetime
  | ExitIntentStep exit_request py_datetime
  | ExitStep exit_request bool resolved_opportunity "paper_quote res" py_datetime
  | CancelStep string string string py_datetime

definition paper_step :: "(string \<Rightarrow> string) \<Rightarrow> paper_op \<Rightarrow> paper_db \<Rightarrow> paper_db" where
  "paper_step sha x db =
     (case x of
        ScannerStep rows \<Rightarrow> db\<lparr>pd_opportunities := rows\<rparr>
      | AccountStep fresh now name cash \<Rightarrow> snd (create_account fresh now name cash db)
      | EntryIntentStep rq now \<Rightarrow> snd (transaction (open_entry sha rq now) db)
      | EntryStep rq ro fetched now \<Rightarrow>
          (case prepare_entry rq ro fetched of
             Inl e \<Rightarrow> db
           | Inr pp \<Rightarrow> snd (transaction (commit_prepared sha rq ro pp now) db))
      | ExitIntentStep rq now \<Rightarrow> snd (transaction (open_exit rq now) db)
      | ExitStep rq resumed ro fetched now \<Rightarrow>
          (case prepare_exit rq resumed ro fetched of
             Inl e \<Rightarrow> db
           | Inr pp \<Rightarrow> snd (transaction (commit_exit rq ro pp now) db))
      | CancelStep account order cancellation now \<Rightarrow> snd (cancel_order account order cancellation now db))"

lemma commit_prepared_advances:
  assumes "paper_ok db" "is_simulated (prep_status pp) \<Longrightarrow> er_quantity rq \<noteq> None"
  shows "paper_ok (snd (transaction (commit_prepared sha rq ro pp now) db))
    \<and> paper_le db (snd (transaction (commit_prepared sha rq ro pp now) db))"
  unfolding commit_prepared_def by (rule commit_posting_advances [OF assms(1) entry_settles_soundly [OF assms(2)]])

lemma commit_exit_advances:
  assumes "paper_ok db"
  shows "paper_ok (snd (transaction (commit_exit rq ro pp now) db))
    \<and> paper_le db (snd (transaction (commit_exit rq ro pp now) db))"
  unfolding commit_exit_def by (rule commit_posting_advances [OF assms exit_settles_soundly [OF assms]])

text \<open>
  The transaction of an intent: a reply that was recorded, the rejection of an interrupted
  intent, or one new intent.
\<close>

lemma open_entry_cases:
  assumes "transaction (open_entry sha rq now) db = (r, db')"
  obtains (refused) e where "r = Inl e" "db' = db"
  | (known) reply where "r = Inr (Replied reply)" "db' = db"
      "existing_reply (er_account rq, er_decision rq) (er_hash rq) db = Inr (Some reply)"
  | (interrupted) i reply where "r = Inr (Replied reply)"
      "transaction (commit_prepared sha rq (it_resolved i) (interrupted ''expired_after_restart'') now) db = (Inr reply, db')"
      "intent_of (er_account rq, er_decision rq) db = Some i" "it_request_hash i = er_hash rq"
      "decision_of (er_account rq, er_decision rq) db = None"
  | (opened) ro where "r = Inr (Opened ro)" "resolve_for sha rq db = Inr ro"
      "add_intent (entry_intent rq ro (utc_of now)) db = (Inr (), db')"
      "decision_of (er_account rq, er_decision rq) db = None" "intent_of (er_account rq, er_decision rq) db = None"
proof -
  let ?k = "(er_account rq, er_decision rq)"
  show thesis
  proof (cases r)
    case (Inl e)
    with assms have "db' = db" using transaction_Inl by metis
    with Inl refused show thesis by blast
  next
    case (Inr x)
    with assms have run: "open_entry sha rq now db = (Inr x, db')" by (simp add: transaction_Inr)
    show thesis
    proof (cases "existing_reply ?k (er_hash rq) db")
      case (Inl e)
      with run show thesis by (simp add: open_entry_def)
    next
      case (Inr y)
      show thesis
      proof (cases y)
        case (Some reply)
        with run Inr have "x = Replied reply" "db' = db" by (simp_all add: open_entry_def)
        with known Inr Some \<open>r = Inr x\<close> show thesis by blast
      next
        case None
        with Inr have new: "decision_of ?k db = None"
          by (auto simp: existing_reply_def bindE_eq_Inr split: option.splits if_splits)
        show thesis
        proof (cases "intent_of ?k db")
          case (Some i)
          with run Inr None have h: "it_request_hash i = er_hash rq"
            and "replied (commit_prepared sha rq (it_resolved i) (interrupted ''expired_after_restart'') now) db = (Inr x, db')"
            by (auto simp: open_entry_def split: if_splits)
          then obtain reply where "x = Replied reply"
            "commit_prepared sha rq (it_resolved i) (interrupted ''expired_after_restart'') now db = (Inr reply, db')"
            by (auto simp: replied_def bindA_eq_Inr liftE_eq_Inr)
          then show thesis
            using \<open>r = Inr x\<close> Some h new by (intro interrupted [of reply i]) (simp_all add: transaction_Inr)
        next
          case no_intent: None
          with run Inr None obtain ro where "resolve_for sha rq db = Inr ro"
            "add_intent (entry_intent rq ro (utc_of now)) db = (Inr (), db')" "x = Opened ro"
            by (auto simp: open_entry_def bindA_eq_Inr liftE_eq_Inr split: option.splits sum.splits)
          then show thesis using \<open>r = Inr x\<close> new no_intent by (intro opened [of ro]) simp_all
        qed
      qed
    qed
  qed
qed

lemma open_entry_advances:
  assumes "paper_ok db"
  shows "paper_ok (snd (transaction (open_entry sha rq now) db)) \<and> paper_le db (snd (transaction (open_entry sha rq now) db))"
proof -
  obtain r db' where run: "transaction (open_entry sha rq now) db = (r, db')" by fastforce
  then show ?thesis
  proof (cases rule: open_entry_cases)
    case (interrupted i reply)
    with commit_prepared_advances [OF assms, of "interrupted ''expired_after_restart''" rq sha "it_resolved i" now] run
    show ?thesis by (simp add: interrupted_def is_simulated_def)
  next
    case (opened ro)
    with add_intent_advances [OF assms] run show ?thesis by simp
  qed (use run assms paper_le_refl in simp_all)
qed

lemma open_exit_cases:
  assumes "transaction (open_exit rq now) db = (r, db')"
  obtains (refused) e where "r = Inl e" "db' = db"
  | (known) reply where "r = Inr (ExitReplied reply)" "db' = db"
      "existing_reply (xq_account rq, xq_decision rq) (xq_hash rq) db = Inr (Some reply)"
  | (resumed) i where "r = Inr (ExitOpened True (it_resolved i))" "db' = db"
      "intent_of (xq_account rq, xq_decision rq) db = Some i" "it_request_hash i = xq_hash rq"
      "decision_of (xq_account rq, xq_decision rq) db = None"
  | (opened) ro where "r = Inr (ExitOpened False ro)" "exit_guard rq db = Inr ro"
      "add_intent (exit_intent rq ro (utc_of now)) db = (Inr (), db')"
      "decision_of (xq_account rq, xq_decision rq) db = None" "intent_of (xq_account rq, xq_decision rq) db = None"
proof -
  let ?k = "(xq_account rq, xq_decision rq)"
  show thesis
  proof (cases r)
    case (Inl e)
    with assms have "db' = db" using transaction_Inl by metis
    with Inl refused show thesis by blast
  next
    case (Inr x)
    with assms have run: "open_exit rq now db = (Inr x, db')" by (simp add: transaction_Inr)
    show thesis
    proof (cases "existing_reply ?k (xq_hash rq) db")
      case (Inl e)
      with run show thesis by (simp add: open_exit_def)
    next
      case (Inr y)
      show thesis
      proof (cases y)
        case (Some reply)
        with run Inr have "x = ExitReplied reply" "db' = db" by (simp_all add: open_exit_def)
        with known Inr Some \<open>r = Inr x\<close> show thesis by blast
      next
        case None
        with Inr have new: "decision_of ?k db = None"
          by (auto simp: existing_reply_def bindE_eq_Inr split: option.splits if_splits)
        show thesis
        proof (cases "intent_of ?k db")
          case (Some i)
          with run Inr None have "it_request_hash i = xq_hash rq" "x = ExitOpened True (it_resolved i)" "db' = db"
            by (auto simp: open_exit_def split: if_splits)
          then show thesis using \<open>r = Inr x\<close> Some new by (intro resumed [of i]) simp_all
        next
          case no_intent: None
          with run Inr None obtain ro where "exit_guard rq db = Inr ro"
            "add_intent (exit_intent rq ro (utc_of now)) db = (Inr (), db')" "x = ExitOpened False ro"
            by (auto simp: open_exit_def bindA_eq_Inr liftE_eq_Inr split: option.splits sum.splits)
          then show thesis using \<open>r = Inr x\<close> new no_intent by (intro opened [of ro]) simp_all
        qed
      qed
    qed
  qed
qed

lemma open_exit_advances:
  assumes "paper_ok db"
  shows "paper_ok (snd (transaction (open_exit rq now) db)) \<and> paper_le db (snd (transaction (open_exit rq now) db))"
proof -
  obtain r db' where run: "transaction (open_exit rq now) db = (r, db')" by fastforce
  then show ?thesis
  proof (cases rule: open_exit_cases)
    case (opened ro)
    with add_intent_advances [OF assms] run show ?thesis by simp
  qed (use run assms paper_le_refl in simp_all)
qed

lemma paper_step_advances:
  assumes "paper_ok db"
  shows "paper_ok (paper_step sha x db) \<and> paper_le db (paper_step sha x db)"
proof (cases x)
  case (ScannerStep rows)
  have "paper_ok (db\<lparr>pd_opportunities := rows\<rparr>) \<and> paper_le db (db\<lparr>pd_opportunities := rows\<rparr>)"
    by (rule books_elsewhere) (simp_all add: assms)
  with ScannerStep show ?thesis by (simp add: paper_step_def)
next
  case (EntryStep rq ro fetched now)
  show ?thesis
  proof (cases "prepare_entry rq ro fetched")
    case (Inl e)
    with EntryStep assms paper_le_refl show ?thesis by (simp add: paper_step_def)
  next
    case (Inr pp)
    with EntryStep commit_prepared_advances [OF assms] prepare_entry_simulated [OF Inr] show ?thesis
      by (simp add: paper_step_def)
  qed
next
  case (ExitStep rq resumed ro fetched now)
  show ?thesis
  proof (cases "prepare_exit rq resumed ro fetched")
    case (Inl e)
    with ExitStep assms paper_le_refl show ?thesis by (simp add: paper_step_def)
  next
    case (Inr pp)
    with ExitStep commit_exit_advances [OF assms] show ?thesis by (simp add: paper_step_def)
  qed
qed (simp_all add: paper_step_def create_account_advances open_entry_advances open_exit_advances cancel_order_advances assms)

interpretation paper_books: monotone_machine paper_ok "paper_step sha" paper_le for sha
  by unfold_locales (use paper_step_advances paper_le_refl paper_le_trans in blast)+

end
