(* ===== verification/PaperViews.thy ===== *)
theory PaperViews
  imports PaperSteps
begin

text \<open>
  What the service shows of a row: on valid rows no reply raises, and the view of a position adds
  up its exits exactly.
\<close>

section \<open>Texts of valid amounts\<close>

lemma within_scale_units: "within_scale k d \<Longrightarrow> \<exists>n. units_of k field d = Inr n"
proof -
  assume "within_scale k d"
  then have "dval d * 10 ^ k = of_int (dunits (- int k) d)"
    using dval_dunits [of "- int k" d] by (simp add: within_scale_def power_int_minus)
  then show ?thesis by (auto simp: units_of_iff)
qed

lemma within_scale_from_scaled [simp]: "j \<le> k \<Longrightarrow> within_scale k (from_scaled_int j n)"
  by (simp add: within_scale_def)

lemma within_scale_mono: "within_scale j d \<Longrightarrow> j \<le> k \<Longrightarrow> within_scale k d"
  by (simp add: within_scale_def)

lemma within_scale_dzero [simp]: "within_scale k dzero"
  by (simp add: within_scale_def dzero_def)

lemma scaled_text_ok: "within_scale k d \<Longrightarrow> is_ok (scaled_text k d)"
  using within_scale_units [of k d "''financial value''"] by (auto simp: scaled_text_def decimal_string_def is_ok_iff)

lemma text_value_ok [simp]: "is_ok (text_value r) = is_ok r"
  by (cases r) (simp_all add: text_value_def)

lemma money18_ok: "within_scale 18 d \<Longrightarrow> is_ok (money18 d)"
  by (simp add: scaled_text_ok money18_def)

lemmas texts_ok = scaled_text_ok money18_ok

text \<open>What a shown amount reads as, and a dict display at a key.\<close>

lemma scaled_text_reads:
  assumes "scaled_text k d = Inr s"
  shows "\<exists>t. parse_decimal s = Some (Fin t) \<and> dval t = dval d"
proof -
  from assms obtain n where n: "to_scaled_int k ''financial value'' (Fin d) = Inr n" "s = format_f (from_scaled_int k n)"
    by (auto simp: scaled_text_def decimal_string_def bindE_eq_Inr)
  moreover have "parse_decimal (format_f (from_scaled_int k n)) = Some (Fin (from_scaled_int k n))"
    by (rule parse_decimal_format_f) simp
  moreover have "dval (from_scaled_int k n) = dval d" using n(1) by (simp add: to_scaled_int_Inr_iff field_simps)
  ultimately show ?thesis by blast
qed

lemma object_of_lookup:
  assumes "object_of kvs = Inr v"
  shows "\<exists>items. v = PDict items \<and> (\<forall>k. pred_option (\<lambda>r. \<exists>x. r = Inr x \<and> map_of items k = Some x) (map_of kvs k))"
proof -
  from assms obtain items where v: "v = PDict items"
    and t: "traverseE (\<lambda>(k, v). bindE v (\<lambda>x. Inr (k, x))) kvs = Inr items"
    by (auto simp: object_of_def bindE_eq_Inr)
  from t have "\<forall>k. pred_option (\<lambda>r. \<exists>x. r = Inr x \<and> map_of items k = Some x) (map_of kvs k)"
    by (induction kvs arbitrary: items) (auto simp: bindE_eq_Inr)
  with v show ?thesis by blast
qed

lemma optional_value_ok: "(\<And>x. v = Some x \<Longrightarrow> is_ok (f x)) \<Longrightarrow> is_ok (optional_value f v)"
  by (cases v) (simp_all add: optional_value_def)

lemma object_of_ok: "list_all (\<lambda>kv. is_ok (snd kv)) kvs \<Longrightarrow> is_ok (object_of kvs)"
proof -
  assume "list_all (\<lambda>kv. is_ok (snd kv)) kvs"
  then have "\<exists>items. traverseE (\<lambda>(k, v). bindE v (\<lambda>x. Inr (k, x))) kvs = Inr items"
    by (intro traverseE_total) (auto simp: list_all_iff is_ok_iff)
  then show ?thesis by (auto simp: object_of_def)
qed

section \<open>The view of a position\<close>

definition exit_complete :: "paper_decision \<Rightarrow> bool" where
  "exit_complete d = (decision_valid d \<and> dc_side d = Some Sell \<and> dc_cost_basis d \<noteq> None \<and> dc_pnl d \<noteq> None)"

definition basis_of :: "paper_decision \<Rightarrow> rat" where
  "basis_of d = (case dc_cost_basis d of None \<Rightarrow> 0 | Some c \<Rightarrow> dval c)"

lemma add_exit_Inr:
  assumes "exit_complete d"
  shows "\<exists>q n f c g. add_exit (s1, s2, s3, s4, s5) d = Inr (s1 + q, s2 + n, s3 + f, s4 + c, s5 + g)
    \<and> of_int q / 10 ^ 2 = dval (dc_filled d) \<and> of_int n / 10 ^ 18 = dval (dc_notional d)
    \<and> of_int f / 10 ^ 18 = dval (dc_fee d) \<and> of_int c / 10 ^ 18 = basis_of d \<and> of_int g / 10 ^ 18 = realized d"
proof -
  obtain c g where cg: "dc_cost_basis d = Some c" "dc_pnl d = Some g" using assms by (auto simp: exit_complete_def)
  have "pnl_valid d" "dc_side d = Some Sell" and w: "within_scale 2 (dc_filled d)" "within_scale 18 (dc_notional d)"
    "within_scale 18 (dc_fee d)"
    using assms by (simp_all add: exit_complete_def decision_valid_def money_ok_def)
  then have "within_scale 18 c" "within_scale 18 g" using cg by (simp_all add: pnl_valid_def money_ok_def)
  with w obtain uq un uf uc ug where u: "units_of 2 ''filled_quantity'' (dc_filled d) = Inr uq"
    "units_of 18 ''notional'' (dc_notional d) = Inr un" "units_of 18 ''fee'' (dc_fee d) = Inr uf"
    "units_of 18 ''position_cost_basis'' c = Inr uc" "units_of 18 ''realized_pnl'' g = Inr ug"
    using within_scale_units by meson
  show ?thesis
    using u [THEN units_of_eq]
    by (intro exI [of _ uq] exI [of _ un] exI [of _ uf] exI [of _ uc] exI [of _ ug])
      (simp add: add_exit_def required_column_def cg u basis_of_def realized_def)
qed

lemma add_exits_Inr:
  assumes "list_all exit_complete ds"
  shows "\<exists>q n f c g. foldE add_exit (s1, s2, s3, s4, s5) ds = Inr (s1 + q, s2 + n, s3 + f, s4 + c, s5 + g)
    \<and> of_int q / 10 ^ 2 = (\<Sum>d\<leftarrow>ds. dval (dc_filled d)) \<and> of_int n / 10 ^ 18 = (\<Sum>d\<leftarrow>ds. dval (dc_notional d))
    \<and> of_int f / 10 ^ 18 = (\<Sum>d\<leftarrow>ds. dval (dc_fee d)) \<and> of_int c / 10 ^ 18 = (\<Sum>d\<leftarrow>ds. basis_of d)
    \<and> of_int g / 10 ^ 18 = (\<Sum>d\<leftarrow>ds. realized d)"
  using assms
proof (induction ds arbitrary: s1 s2 s3 s4 s5)
  case Nil
  show ?case by (intro exI [of _ 0]) simp
next
  case (Cons d ds)
  obtain q n f c g where d: "add_exit (s1, s2, s3, s4, s5) d = Inr (s1 + q, s2 + n, s3 + f, s4 + c, s5 + g)"
    "of_int q / 10 ^ 2 = dval (dc_filled d)" "of_int n / 10 ^ 18 = dval (dc_notional d)"
    "of_int f / 10 ^ 18 = dval (dc_fee d)" "of_int c / 10 ^ 18 = basis_of d" "of_int g / 10 ^ 18 = realized d"
    using add_exit_Inr [of d] Cons.prems by fastforce
  have "list_all exit_complete ds" using Cons.prems by simp
  from Cons.IH [OF this, of "s1 + q" "s2 + n" "s3 + f" "s4 + c" "s5 + g"]
  obtain q' n' f' c' g' where ds:
    "foldE add_exit (s1 + q, s2 + n, s3 + f, s4 + c, s5 + g) ds
      = Inr (s1 + q + q', s2 + n + n', s3 + f + f', s4 + c + c', s5 + g + g')"
    "of_int q' / 10 ^ 2 = (\<Sum>d\<leftarrow>ds. dval (dc_filled d))" "of_int n' / 10 ^ 18 = (\<Sum>d\<leftarrow>ds. dval (dc_notional d))"
    "of_int f' / 10 ^ 18 = (\<Sum>d\<leftarrow>ds. dval (dc_fee d))" "of_int c' / 10 ^ 18 = (\<Sum>d\<leftarrow>ds. basis_of d)"
    "of_int g' / 10 ^ 18 = (\<Sum>d\<leftarrow>ds. realized d)" by blast
  show ?case
    by (intro exI [of _ "q + q'"] exI [of _ "n + n'"] exI [of _ "f + f'"] exI [of _ "c + c'"] exI [of _ "g + g'"])
      (simp add: d(1) ds(1) add_divide_distrib flip: d(2-) ds(2-))
qed

lemma sum_sorted: "(\<Sum>x\<leftarrow>sort_key key xs. f x) = (\<Sum>x\<leftarrow>xs. f x)" for f :: "'a \<Rightarrow> 'b::comm_monoid_add"
  by (metis mset_sort mset_map sum_mset_sum_list)

lemma sold_sum: "dval (sold_quantity k db) = (\<Sum>d\<leftarrow>exits_of k db. dval (dc_filled d))"
  by (simp add: sold_quantity_def dval_sql_sum o_def)

lemma allocated_sum: "dval (allocated_cost k db) = (\<Sum>d\<leftarrow>exits_of k db. basis_of d)"
proof -
  have "(\<Sum>x\<leftarrow>List.map_filter dc_cost_basis ds. dval x) = (\<Sum>d\<leftarrow>ds. basis_of d)" for ds
    by (induction ds) (auto simp: List.map_filter_def basis_of_def)
  then show ?thesis by (simp add: allocated_cost_def dval_sql_sum)
qed

lemma exits_complete:
  assumes "paper_ok db"
  shows "list_all exit_complete (exits_of k db)"
  using assms by (auto simp: list_all_iff exits_of_def exit_complete_def paper_ok_def exit_recorded_def)

lemma realized_exits:
  "list_all exit_complete ds \<Longrightarrow>
     (\<Sum>d\<leftarrow>ds. realized d) = (\<Sum>d\<leftarrow>ds. dval (dc_notional d)) - (\<Sum>d\<leftarrow>ds. dval (dc_fee d)) - (\<Sum>d\<leftarrow>ds. basis_of d)"
proof (induction ds)
  case (Cons d ds)
  then have "realized d = dval (dc_notional d) - dval (dc_fee d) - basis_of d"
    by (auto simp: exit_complete_def decision_valid_def pnl_valid_def realized_def basis_of_def)
  with Cons show ?case by simp
qed simp

lemma cost_share_all: "within_scale 18 n \<Longrightarrow> within_scale 18 f \<Longrightarrow> 0 < q \<Longrightarrow> cost_share (dval n + dval f) q q = dval n + dval f"
proof -
  assume "within_scale 18 n" "within_scale 18 f" "0 < q"
  then obtain a b where "dval n * 10 ^ 18 = of_int a" "dval f * 10 ^ 18 = of_int b"
    using within_scale_units unfolding units_of_iff by meson
  then have eq: "(dval n + dval f) * 10 ^ 18 = of_int (a + b)" by (simp only: distrib_right of_int_add)
  then have "\<lfloor>(dval n + dval f) * 10 ^ 18 * q / q\<rfloor> = a + b" using \<open>0 < q\<close> by simp
  then have "cost_share (dval n + dval f) q q = of_int (a + b) / 10 ^ 18" by (simp only: cost_share_def)
  also have "\<dots> = dval n + dval f" unfolding eq [symmetric] by simp
  finally show ?thesis .
qed

lemma position_totals:
  assumes ok: "paper_ok db" and p: "p \<in> set (pd_positions db)"
  shows "\<exists>sold n f c g. foldE add_exit (0, 0, 0, 0, 0) (sort_key dc_sequence (exits_of (position_key p) db)) = Inr (sold, n, f, c, g)
    \<and> of_int sold / 10 ^ 2 = dval (sold_quantity (position_key p) db)
    \<and> of_int n / 10 ^ 18 = (\<Sum>d\<leftarrow>exits_of (position_key p) db. dval (dc_notional d))
    \<and> of_int f / 10 ^ 18 = (\<Sum>d\<leftarrow>exits_of (position_key p) db. dval (dc_fee d))
    \<and> of_int c / 10 ^ 18 = dval (allocated_cost (position_key p) db) \<and> g = n - f - c"
proof -
  let ?ds = "exits_of (position_key p) db"
  have all: "list_all exit_complete ?ds" by (rule exits_complete [OF ok])
  then have "list_all exit_complete (sort_key dc_sequence ?ds)" by (simp add: list_all_iff)
  from add_exits_Inr [OF this, of 0 0 0 0 0] obtain q n f c g where
    run: "foldE add_exit (0, 0, 0, 0, 0) (sort_key dc_sequence ?ds) = Inr (q, n, f, c, g)"
    and s: "of_int q / 10 ^ 2 = (\<Sum>d\<leftarrow>?ds. dval (dc_filled d))" "of_int n / 10 ^ 18 = (\<Sum>d\<leftarrow>?ds. dval (dc_notional d))"
      "of_int f / 10 ^ 18 = (\<Sum>d\<leftarrow>?ds. dval (dc_fee d))" "of_int c / 10 ^ 18 = (\<Sum>d\<leftarrow>?ds. basis_of d)"
      "of_int g / 10 ^ 18 = (\<Sum>d\<leftarrow>?ds. realized d)"
    unfolding sum_sorted add_0 by blast
  have "(of_int g :: rat) / 10 ^ 18 = of_int (n - f - c) / 10 ^ 18"
    using realized_exits [OF all] by (simp add: diff_divide_distrib flip: s)
  then have "g = n - f - c" by simp
  with run s(1-4) show ?thesis by (simp add: sold_sum allocated_sum)
qed

text \<open>A field of a reply that shows an amount: its text reads as exactly that number.\<close>

definition shows_amount :: "pydict \<Rightarrow> string \<Rightarrow> rat \<Rightarrow> bool" where
  "shows_amount view key x =
     (\<exists>s d. map_of view key = Some (PStr s) \<and> parse_decimal s = Some (Fin d) \<and> dval d = x)"

lemma shows_scaled:
  assumes "\<exists>v. text_value (scaled_text k d) = Inr v \<and> map_of view key = Some v" "dval d = x"
  shows "shows_amount view key x"
proof -
  from assms(1) obtain s where "scaled_text k d = Inr s" "map_of view key = Some (PStr s)"
    by (auto simp: text_value_def bindE_eq_Inr)
  with scaled_text_reads assms(2) show ?thesis unfolding shows_amount_def by blast
qed

text \<open>The fields of the view, of the totals of the exits.\<close>

definition position_fields ::
    "paper_position \<Rightarrow> int \<Rightarrow> int \<Rightarrow> int \<Rightarrow> int \<Rightarrow> int \<Rightarrow> int \<Rightarrow> paper_decision list \<Rightarrow> (string \<times> pyval res) list" where
  "position_fields p e s n f c g exits =
       [(''account_id'', Inr (PStr (hp_account p))), (''position_id'', Inr (PStr (hp_position p))),
        (''entry_decision_id'', Inr (PStr (hp_entry_decision p))), (''ticker'', Inr (PStr (hp_ticker p))),
        (''outcome'', Inr (PStr (outcome_text (hp_outcome p)))),
        (''entry_quantity'', text_value (scaled_text 2 (hp_quantity p))),
        (''entry_notional'', text_value (money18 (hp_notional p))), (''entry_fee'', text_value (money18 (hp_fee p))),
        (''sold_quantity'', text_value (scaled_text 2 (from_scaled_int 2 s))),
        (''remaining_quantity'', text_value (scaled_text 2 (from_scaled_int 2 (e - s)))),
        (''exit_notional'', text_value (money18 (from_scaled_int 18 n))),
        (''exit_fee'', text_value (money18 (from_scaled_int 18 f))),
        (''allocated_entry_cost'', text_value (money18 (from_scaled_int 18 c))),
        (''realized_pnl'', text_value (money18 (from_scaled_int 18 g))),
        (''status'', Inr (PStr (if e - s = 0 then ''closed'' else ''open''))),
        (''closable'', Inr (PBool (0 < e - s))),
        (''exit_decision_ids'', Inr (PList (map (\<lambda>d. PStr (dc_decision d)) exits))),
        (''created_at'', Inr (PStr (isoformat (hp_created_at p))))]"

lemma position_view_ok:
  assumes "foldE add_exit (0, 0, 0, 0, 0) (sort_key dc_sequence (exits_of (position_key p) db)) = Inr (sold, n, f, c, g)"
    and "position_valid p"
  shows "is_ok (serialize_position p db)"
proof -
  have s: "within_scale 2 (hp_quantity p)" "within_scale 18 (hp_notional p)" "within_scale 18 (hp_fee p)"
    using assms(2) by (simp_all add: position_valid_def positive_ok_def money_ok_def)
  obtain e where e: "units_of 2 ''entry_quantity'' (hp_quantity p) = Inr e" using within_scale_units [OF s(1)] by blast
  show ?thesis
    unfolding serialize_position_def Let_def assms(1) bindE_Inr prod.case e by (rule object_of_ok) (simp add: s texts_ok)
qed

lemma position_view_fields:
  assumes "foldE add_exit (0, 0, 0, 0, 0) (sort_key dc_sequence (exits_of (position_key p) db)) = Inr (s, n, f, c, g)"
    and "position_valid p" "units_of 2 ''entry_quantity'' (hp_quantity p) = Inr e"
  shows "\<exists>view. serialize_position p db = Inr (PDict view) \<and> (\<forall>key. pred_option
    (\<lambda>r. \<exists>x. r = Inr x \<and> map_of view key = Some x)
    (map_of (position_fields p e s n f c g (sort_key dc_sequence (exits_of (position_key p) db))) key))"
proof -
  have "serialize_position p db
      = object_of (position_fields p e s n f c g (sort_key dc_sequence (exits_of (position_key p) db)))"
    unfolding serialize_position_def Let_def assms(1) bindE_Inr prod.case assms(3) position_fields_def ..
  moreover obtain v where v: "serialize_position p db = Inr v"
    using position_view_ok [OF assms(1,2)] by (auto simp: is_ok_iff)
  ultimately have "object_of (position_fields p e s n f c g (sort_key dc_sequence (exits_of (position_key p) db))) = Inr v"
    by simp
  from object_of_lookup [OF this] v show ?thesis by auto
qed

end
