(* ===== verification/PaperBuys.thy ===== *)
theory PaperBuys
  imports PaperViews
begin

text \<open>
  What the simulation of a buy returns, in the terms of the tables of the paper accounts: its
  only failure is \<open>KalshiPaperProtocolError\<close>, and its quantities, notional, average price and fills
  are ones that the CHECK constraints admit.
\<close>

section \<open>Failures\<close>

definition is_paper_error :: "exn \<Rightarrow> bool" where
  "is_paper_error e = (case e of KalshiPaperProtocolError _ \<Rightarrow> True | _ \<Rightarrow> False)"

lemma is_paper_error [simp, intro]: "is_paper_error (KalshiPaperProtocolError m)"
  by (simp add: is_paper_error_def)

lemma raises_tick: "ranges_ok ranges \<Longrightarrow> raises P (price_is_on_tick n ranges)"
  by (simp add: price_is_on_tick_eq ranges_ok_def)

lemma raises_take_depth:
  "(\<And>s. raises P (execution s)) \<Longrightarrow> raises P (take_depth execution crosses side st levels)"
proof (induction levels arbitrary: st)
  case Nil
  show ?case by (cases st) simp
next
  case (Cons l levels)
  obtain s a where "l = (s, a)" by fastforce
  moreover obtain rem n fs where "st = (rem, n, fs)" by (metis surj_pair)
  ultimately show ?case using Cons by (auto simp: Let_def intro!: raises_bindE)
qed

lemma buy_levels: "\<forall>(s, a) \<in> set levels. 0 < s \<and> s < 10 ^ price_scale \<and> 0 < a \<Longrightarrow>
    \<forall>(s, a) \<in> set (rev (sort levels)). 0 < 10 ^ price_scale - s \<and> 10 ^ price_scale - s \<le> 10 ^ price_scale \<and> 0 < a"
  for levels :: "(int \<times> int) list"
  by auto

lemma buy_result_total:
  assumes "0 < q" "\<forall>(s, a) \<in> set levels. 0 < s \<and> s < 10 ^ price_scale \<and> 0 < a"
    and run: "take_depth (complementary_price ranges) crosses side (q, 0, []) (rev (sort levels)) = Inr s"
  shows "is_ok (ioc_result rs formula q levels s)"
proof -
  let ?price = "\<lambda>s. 10 ^ price_scale - s"
  define es where "es = best_fills q (crossing_levels ?price crosses (rev (sort levels)))"
  have pos: "\<forall>(_, a) \<in> set (rev (sort levels)). 0 < a" using assms(2) by auto
  have s: "s = (q - filled_units es, notional_units es, numbered_fills side 1 es)"
    using take_depth_best [of _ ?price, OF complementary_price_Inr run assms(1) pos] by (simp add: es_def Let_def)
  from ioc_result_average [where price = ?price, OF es_def assms(1) buy_levels [OF assms(2)],
      of rs formula levels "numbered_fills side 1 es"]
  show ?thesis unfolding s is_ok_iff by blast
qed

lemma simulate_buy_raises:
  assumes "ranges_ok ranges"
  shows "raises is_paper_error (simulate_buy_ioc book outc quantity limit ranges)"
proof -
  have levels: "raises is_paper_error (traverseE (validated_level ranges) ls)" for ls
    unfolding validated_level_def by (intro raises_intros raises_tick assms) simp_all
  have units: "raises is_paper_error (order_units name quantity limit ranges)" for name
    unfolding order_units_def by (intro raises_intros raises_tick assms) simp_all
  have execution: "raises is_paper_error (complementary_price ranges s)" for s
    unfolding complementary_price_def by (intro raises_intros raises_tick assms) simp_all
  have "raises is_paper_error (ioc_result rs formula q ls s)"
    if "order_units name quantity limit ranges = Inr (q, l)" "traverseE (validated_level ranges) xs = Inr ls"
      "take_depth (complementary_price ranges) crosses side (q, 0, []) (rev (sort ls)) = Inr s"
    for rs formula q l name xs ls s crosses side
    using buy_result_total [OF order_units_ok(3) [OF that(1)] validated_levels(1) [OF that(2)] that(3), of rs formula]
    by (auto simp: is_ok_iff)
  then show ?thesis
    unfolding simulate_buy_ioc_def
    by (cases "outcome_of outc") (auto intro!: raises_bindE levels units raises_take_depth execution)
qed

section \<open>The figures of a buy\<close>

definition traded_ok :: "paper_fill \<Rightarrow> bool" where
  "traded_ok f =
     (0 < pf_sequence f \<and> positive_ok 2 (pf_quantity f) \<and> unit_price_ok 6 (pf_price f)
      \<and> unit_price_ok 6 (pf_source_bid_price f) \<and> positive_ok 8 (pf_notional f)
      \<and> dval (pf_notional f) = dval (pf_quantity f) * dval (pf_price f))"

definition bought :: "rat \<Rightarrow> rat \<Rightarrow> paper_fill_result \<Rightarrow> bool" where
  "bought quantity limit r =
     (let filled = dval (px_filled_quantity r); remaining = dval (px_remaining_quantity r) in
      money_ok 2 (px_filled_quantity r) \<and> money_ok 2 (px_remaining_quantity r) \<and> quantity = filled + remaining
      \<and> money_ok 8 (px_notional r) \<and> (filled = 0 \<longleftrightarrow> dval (px_notional r) = 0)
      \<and> within_scale 18 (px_fee r) \<and> dval (px_fee r) = 0
      \<and> px_status r = (if filled = 0 then NoFill else if remaining = 0 then Filled else Partial)
      \<and> (case px_average_fill_price r of None \<Rightarrow> filled = 0
         | Some a \<Rightarrow> 0 < filled \<and> unit_price_ok 18 a \<and> dval a \<le> limit)
      \<and> list_all traded_ok (px_fills r) \<and> distinct (map pf_sequence (px_fills r)) \<and> not_blank (px_reason r))"

lemma units_at_least:
  "\<forall>(s, p, n) \<in> set es. 0 < n \<and> 0 < p \<Longrightarrow> filled_units es \<le> notional_units es" for es :: "(int \<times> int \<times> int) list"
proof (induction es)
  case (Cons e es)
  obtain s p n where e: "e = (s, p, n)" by (cases e)
  with Cons have "0 < n" "1 \<le> p" by auto
  then have "1 * n \<le> p * n" by (intro mult_right_mono) simp_all
  then have "n \<le> p * n" by simp
  moreover have "filled_units es \<le> notional_units es" using Cons by simp
  ultimately show ?case by (simp add: e)
qed simp

text \<open>A value less than one unit off, on a grid that holds the bound, does not pass the bound.\<close>

lemma grid_le:
  fixes a y l :: rat
  assumes "a * 10 ^ 18 = of_int m" "l * 10 ^ 18 = of_int n" "\<bar>a - y\<bar> < 1 / 10 ^ 18" "y \<le> l"
  shows "a \<le> l"
proof -
  have "a - l < 1 / 10 ^ 18" using assms(3,4) by linarith
  then have "(a - l) * 10 ^ 18 < 1" by (simp add: field_simps)
  then have "(of_int (m - n) :: rat) < of_int 1" using assms(1,2) by (simp add: left_diff_distrib)
  then have "m \<le> n" by (simp only: of_int_less_iff)
  then have "a * 10 ^ 18 \<le> l * 10 ^ 18" using assms(1,2) by simp
  then show ?thesis by simp
qed

lemma made_fill_ok:
  assumes "0 < i" "0 < s" "s < 10 ^ 6" "p = 10 ^ 6 - s" "0 < n"
  shows "traded_ok (make_fill side i (s, p, n))"
proof -
  have "(of_int s :: rat) < of_int (10 ^ 6)" "(0::rat) < of_int s" using assms(2,3) by (simp_all only: of_int_less_iff of_int_0_less_iff)
  then show ?thesis
    using assms by (simp add: traded_ok_def make_fill_def positive_ok_def unit_price_ok_def within_scale_def
        price_scale_def quantity_scale_def field_simps)
qed

lemma ioc_result_texts:
  assumes "ioc_result rs formula q levels s = Inr r"
  shows "px_reason r \<in> {rs_empty rs, rs_uncrossed rs, rs_filled rs, rs_partial rs}" "px_fee r = Dec False 0 (- int money_scale)"
  using assms by (auto simp: ioc_result_def Let_def bindE_eq_Inr split: prod.splits if_splits option.splits)

lemma average_within:
  assumes "average_ok r" "px_average_fill_price r = Some a" "px_filled_quantity r = from_scaled_int 2 f"
    and "px_notional r = from_scaled_int 8 n" "f \<le> n" "n \<le> f * l" "l < 10 ^ 6"
  shows "0 < f \<and> unit_price_ok 18 a \<and> dval a \<le> of_int l / 10 ^ 6"
proof -
  from assms(1-4) have f: "0 < f" "dexp a = - 18" "\<bar>dval a - (of_int n / 10 ^ 8) / (of_int f / 10 ^ 2)\<bar> < 1 / 10 ^ 18"
    by (simp_all add: average_ok_def money_scale_def)
  let ?y = "(of_int n / 10 ^ 8) / (of_int f / 10 ^ 2) :: rat"
  have y: "?y = of_int n / of_int f / 10 ^ 6" by simp
  have "(of_int n :: rat) \<le> of_int f * of_int l" "(of_int f :: rat) \<le> of_int n"
    using assms(5,6) by (simp_all only: of_int_le_iff flip: of_int_mult)
  then have "?y \<le> of_int l / 10 ^ 6" "1 / 10 ^ 6 \<le> ?y"
    unfolding y using f(1) by (simp_all add: divide_le_eq le_divide_eq mult.commute)
  moreover have "within_scale 18 a" using f(2) by (simp add: within_scale_def)
  then obtain m where m: "dval a * 10 ^ 18 = of_int m" using within_scale_units unfolding units_of_iff by meson
  have "of_int l / 10 ^ 6 * 10 ^ 18 = (of_int (l * 10 ^ 12) :: rat)" by simp
  from grid_le [OF m this f(3)] have "dval a \<le> of_int l / 10 ^ 6" using calculation by blast
  moreover have "(of_int l :: rat) < of_int (10 ^ 6)" using assms(7) by (simp only: of_int_less_iff)
  then have "(of_int l :: rat) / 10 ^ 6 < 1" by simp
  moreover have "(1::rat) / 10 ^ 18 < 1 / 10 ^ 6" by simp
  ultimately show ?thesis
    using f(1,3) \<open>within_scale 18 a\<close> unfolding unit_price_ok_def by linarith
qed

lemma bought_ioc:
  assumes buy: "simulate_buy_ioc book outc (Fin quantity) (Fin limit) ranges = Inr r"
  shows "bought (dval quantity) (dval limit) r"
proof -
  obtain side where "outcome_of outc = Some side" using buy by (auto simp: simulate_buy_ioc_def split: option.splits)
  from buy this show ?thesis
  proof (rule simulate_buy_run)
    fix q l levels remaining notional fills
    assume order: "order_units ''limit_price'' (Fin quantity) (Fin limit) ranges = Inr (q, l)"
      and levels: "traverseE (validated_level ranges) (bids book (opposite side)) = Inr levels"
      and run: "take_depth (complementary_price ranges) (\<lambda>price. price \<le> l) (opposite side) (q, 0, [])
         (rev (sort levels)) = Inr (remaining, notional, fills)"
      and res: "ioc_result buy_reasons ''kalshi-complementary-depth-ioc-v1'' q levels (remaining, notional, fills) = Inr r"
    let ?price = "\<lambda>s. 10 ^ price_scale - s"
    let ?ls = "crossing_levels ?price (\<lambda>price. price \<le> l) (rev (sort levels))"
    note q = order_units_ok [OF order]
    note lv = validated_levels(1) [OF levels]
    define es where "es = best_fills q ?ls"
    have pos: "\<forall>(_, a) \<in> set (rev (sort levels)). 0 < a" using lv by auto
    note cpos = crossing_positive [OF pos, of ?price "\<lambda>price. price \<le> l"]
    have s: "remaining = q - filled_units es" "notional = notional_units es" "fills = numbered_fills (opposite side) 1 es"
      using take_depth_best [of _ ?price, OF complementary_price_Inr run q(3) pos] by (simp_all add: es_def Let_def)
    have entry: "0 < n \<and> 0 < s \<and> s < 10 ^ price_scale \<and> p = ?price s \<and> p \<le> l" if mem: "(s, p, n) \<in> set es" for s p n
    proof -
      obtain a where "0 < n" "(s, p, a) \<in> set ?ls"
        using best_fills_entries [of q ?ls, OF _ cpos, of s p n] q(3) mem unfolding es_def by auto
      then show ?thesis using lv by (auto simp: crossing_levels_def split: if_splits)
    qed
    have amount: "0 \<le> filled_units es" "filled_units es \<le> q"
      using best_fills_amount [of q, OF _ cpos] q(3) by (auto simp: es_def)
    have "\<forall>(s, p, n) \<in> set es. 0 < n \<and> 0 < p \<and> p \<le> l" using entry by fastforce
    then have between: "filled_units es \<le> notional_units es" "notional_units es \<le> filled_units es * l"
      using units_between [of es l] units_at_least [of es] by (auto split: prod.splits)
    have fills: "list_all traded_ok fills"
      unfolding list_all_iff
    proof
      fix f assume "f \<in> set fills"
      then obtain i s p n where "(i, s, p, n) \<in> set (enumerate 1 es)" "f = make_fill (opposite side) i (s, p, n)"
        by (auto simp: s(3) numbered_fills_def)
      moreover from this have "(s, p, n) \<in> set es" "0 < i" using nth_mem [of "i - 1" es] by (auto simp: in_set_enumerate_eq)
      ultimately show "traded_ok f" using entry [of s p n] by (auto simp: price_scale_def intro: made_fill_ok)
    qed
    have dist: "distinct (map pf_sequence fills)" unfolding s(3) numbered_fills_sums(3) by simp
    have "average_ok r"
      by (rule depth_run_average_ok [where price = ?price and execution = "complementary_price ranges",
            OF complementary_price_Inr q(3) _ run res]) (use lv in auto)
    have f: "q - remaining = filled_units es" by (simp add: s(1))
    have r: "px_filled_quantity r = from_scaled_int 2 (filled_units es)"
      "px_remaining_quantity r = from_scaled_int 2 (q - filled_units es)"
      "px_notional r = from_scaled_int 8 (notional_units es)" "px_fills r = fills"
      "px_status r = (if filled_units es = 0 then NoFill else if q - filled_units es = 0 then Filled else Partial)"
      using ioc_result_Inr [OF res] by (simp_all add: s(1,2) quantity_scale_def price_scale_def)
    have zero: "filled_units es = 0 \<longleftrightarrow> notional_units es = 0"
      using between amount(1) by (auto simp: order.antisym)
    have average: "case px_average_fill_price r of None \<Rightarrow> filled_units es = 0
        | Some a \<Rightarrow> 0 < filled_units es \<and> unit_price_ok 18 a \<and> dval a \<le> dval limit"
    proof (cases "px_average_fill_price r")
      case None
      with \<open>average_ok r\<close> show ?thesis by (simp add: average_ok_def r)
    next
      case (Some a)
      from average_within [OF \<open>average_ok r\<close> this r(1,3) between] q(2,5) Some show ?thesis
        by (simp add: price_scale_def)
    qed
    have "not_blank (px_reason r)"
      using ioc_result_texts(1) [OF res] by (auto simp: buy_reasons_def not_blank_def)
    then show ?thesis
      using amount between(1) zero average fills dist q(1) ioc_result_texts(2) [OF res]
      unfolding bought_def Let_def
      by (auto simp: r quantity_scale_def money_ok_def within_scale_def money_scale_def diff_divide_distrib dval_Dec
          split: option.splits)
  qed
qed

end
