(* ===== verification/PaperEntries.thy ===== *)
theory PaperEntries
  imports PaperMachine PaperBuys
begin

text \<open>
  What an entry that an eligible request asks for writes: the settlement it comes to, and rows
  that no constraint of the tables refuses.
\<close>

section \<open>Requests\<close>

definition digests :: "(string \<Rightarrow> string) \<Rightarrow> bool" where
  "digests sha = (\<forall>s. sha256_text (sha s))"

text \<open>What the checks on the arguments leave of a request.\<close>

definition request_ok :: "entry_request \<Rightarrow> bool" where
  "request_ok rq =
     (not_blank (er_decision rq) \<and> sha256_text (er_hash rq) \<and> sha256_text (er_revision rq)
      \<and> (case er_action rq of
           Pass \<Rightarrow> er_quantity rq = None \<and> er_limit rq = None
         | Execute \<Rightarrow> (\<exists>q l. er_quantity rq = Some q \<and> er_limit rq = Some l \<and> positive_ok 2 q \<and> unit_price_ok 6 l)))"

lemma stripped_not_blank: "strip s \<noteq> [] \<Longrightarrow> not_blank (strip s)"
proof -
  assume "strip s \<noteq> []"
  then obtain c where c: "c \<in> set (strip s)" "\<not> unicode_space c"
    using strip_eq_Nil_iff [of "strip s"] unfolding strip_strip by blast
  have "unicode_space CHR '' ''" by (simp add: unicode_space_def)
  with c(2) have "c \<noteq> CHR '' ''" by auto
  with c(1) show ?thesis unfolding not_blank_def list_ex_iff by blast
qed

lemma parse_quantity_ok: "parse_quantity v field = Inr q \<Longrightarrow> positive_ok 2 q"
  by (auto simp: parse_quantity_def read_decimal_string_def bindE_eq_Inr positive_ok_def within_scale_def quantity_scale_def
      split: pyval.splits if_splits)

lemma parse_price_ok: "parse_price v field = Inr p \<Longrightarrow> unit_price_ok 6 p"
  by (auto simp: parse_price_def read_decimal_string_def bindE_eq_Inr unit_price_ok_def within_scale_def price_scale_def
      split: pyval.splits if_splits)

lemma entry_request_ok:
  assumes "entry_request_of sha args = Inr rq" "digests sha"
  shows "request_ok rq"
  using assms parse_quantity_ok parse_price_ok stripped_not_blank
  by (auto simp: entry_request_of_def Let_def bindE_eq_Inr request_ok_def digests_def split: if_splits option.splits paper_action.splits)

text \<open>What the market data client promises of a quote; its only failure is the protocol error.\<close>

definition quote_ok :: "paper_quote \<Rightarrow> bool" where
  "quote_ok q = (ranges_ok (pm_price_ranges (pq_market q)) \<and> sha256_text (pm_evidence_hash (pq_market q))
     \<and> sha256_text (pb_evidence_hash (pq_book q)))"

definition answer_ok :: "paper_quote res \<Rightarrow> bool" where
  "answer_ok a = (case a of Inl e \<Rightarrow> is_paper_error e | Inr q \<Rightarrow> quote_ok q)"

text \<open>What a prepared entry holds.\<close>

definition prepared_ok :: "entry_request \<Rightarrow> prepared \<Rightarrow> bool" where
  "prepared_ok rq pp =
     (pred_option quote_ok (prep_quote pp) \<and> not_blank (prep_reason pp)
      \<and> (case prep_result pp of
           None \<Rightarrow> prep_status pp = (case er_action rq of Pass \<Rightarrow> Passed | Execute \<Rightarrow> Rejected)
         | Some r \<Rightarrow> er_action rq = Execute \<and> prep_status pp = Simulated (px_status r)
             \<and> (\<exists>q l. er_quantity rq = Some q \<and> er_limit rq = Some l \<and> bought (dval q) (dval l) r)))"

lemma gtc_reason_not_blank: "not_blank s \<Longrightarrow> not_blank (gtc_reason s)"
  by (simp add: gtc_reason_def not_blank_def)

lemma bought_gtc: "bought q l r \<Longrightarrow> bought q l (gtc_result tif r)"
  by (cases "tif = Gtc") (auto simp: gtc_result_def bought_def Let_def gtc_reason_not_blank split: option.splits)

lemma prepare_entry_ok:
  assumes "request_ok rq" "answer_ok fetched"
  shows "\<exists>pp. prepare_entry rq ro fetched = Inr pp \<and> prepared_ok rq pp"
proof (cases "er_action rq")
  case Pass
  then show ?thesis by (simp add: prepare_entry_def prepared_ok_def not_blank_def)
next
  case Execute
  then obtain q l where ql: "er_quantity rq = Some q" "er_limit rq = Some l" using assms(1) by (auto simp: request_ok_def)
  have "raises is_paper_error (simulate_entry rq ro fetched)"
    unfolding simulate_entry_def ql
    using assms(2) simulate_buy_raises
    by (cases fetched) (auto simp: answer_ok_def quote_ok_def intro!: raises_bindE)
  moreover have "prepared_ok rq pp" if "simulate_entry rq ro fetched = Inr pp" for pp
  proof -
    from that obtain qt r where "fetched = Inr qt" "pp = simulated qt (gtc_result (er_tif rq) r)"
      "simulate_buy_ioc (pq_book qt) (outcome_text (rv_outcome ro)) (Fin q) (Fin l) (pm_price_ranges (pq_market qt)) = Inr r"
      by (auto simp: simulate_entry_def ql bindE_eq_Inr split: if_splits)
    moreover from this have "bought (dval q) (dval l) (gtc_result (er_tif rq) r)" by (intro bought_gtc bought_ioc)
    moreover from this have "not_blank (px_reason (gtc_result (er_tif rq) r))" by (simp add: bought_def Let_def)
    ultimately show ?thesis
      using assms(2) Execute ql by (simp add: prepared_ok_def simulated_def answer_ok_def)
  qed
  moreover have "prepared_ok rq (interrupted ''market_data_rejected'')"
    using Execute by (simp add: prepared_ok_def interrupted_def not_blank_def)
  ultimately show ?thesis
    using Execute by (cases "simulate_entry rq ro fetched") (auto simp: prepare_entry_def catchE_def is_paper_error_def split: exn.splits)
qed

section \<open>Settlements\<close>

definition settlement_ok :: "entry_request \<Rightarrow> settlement \<Rightarrow> bool" where
  "settlement_ok rq s =
     (let filled = dval (st_filled s); remaining = dval (st_remaining s) in
      money_ok 2 (st_filled s) \<and> money_ok 2 (st_remaining s) \<and> money_ok 8 (st_notional s)
      \<and> (filled = 0 \<longleftrightarrow> dval (st_notional s) = 0) \<and> within_scale 18 (st_fee s) \<and> dval (st_fee s) = 0
      \<and> not_blank (st_reason s) \<and> list_all traded_ok (st_fills s) \<and> distinct (map pf_sequence (st_fills s))
      \<and> (case er_action rq of
           Pass \<Rightarrow> filled = 0 \<and> remaining = 0 \<and> st_status s \<in> {Passed, Rejected} \<and> st_average s = None
         | Execute \<Rightarrow> (\<exists>q l. er_quantity rq = Some q \<and> er_limit rq = Some l \<and> dval q = filled + remaining
             \<and> (st_status s = Rejected \<and> filled = 0
                \<or> st_status s = Simulated (if filled = 0 then NoFill else if remaining = 0 then Filled else Partial))
             \<and> (case st_average s of None \<Rightarrow> filled = 0
                | Some a \<Rightarrow> 0 < filled \<and> unit_price_ok 18 a \<and> dval a \<le> dval l))))"

lemma money_ok_dzero [simp]: "money_ok k dzero"
  by (simp add: money_ok_def)

lemma void_settlement_ok:
  assumes "request_ok rq" "not_blank reason"
  shows "settlement_ok rq (void_settlement reason (quantity_or_zero (er_quantity rq)))"
  using assms
  by (auto simp: settlement_ok_def void_settlement_def quantity_or_zero_def request_ok_def positive_ok_def money_ok_def Let_def
      split: paper_action.splits)

lemma prepared_settlement_ok:
  assumes "request_ok rq" "prepared_ok rq pp"
  shows "settlement_ok rq (prepared_settlement pp (case er_quantity rq of None \<Rightarrow> dzero | Some q \<Rightarrow> q))"
proof (cases "prep_result pp")
  case None
  with assms show ?thesis
    by (auto simp: settlement_ok_def prepared_settlement_def prepared_ok_def request_ok_def positive_ok_def money_ok_def Let_def
        split: paper_action.splits)
next
  case (Some r)
  with assms(2) obtain q l where "er_action rq = Execute" "er_quantity rq = Some q" "er_limit rq = Some l"
    "bought (dval q) (dval l) r" "prep_status pp = Simulated (px_status r)" "not_blank (prep_reason pp)"
    by (auto simp: prepared_ok_def)
  with Some show ?thesis by (simp add: settlement_ok_def prepared_settlement_def bought_def Let_def)
qed

lemma entry_settlement_ok:
  assumes "request_ok rq" "prepared_ok rq pp"
  shows "settlement_ok rq (entry_settlement pp (er_quantity rq) now)"
  unfolding entry_settlement_def
  using prepared_settlement_ok [OF assms] void_settlement_ok [OF assms(1)]
  by (auto simp: not_blank_def split: option.splits)

lemma void_settlement_fills [simp]: "st_fills (void_settlement reason q) = []"
  by (simp add: void_settlement_def)

section \<open>The rows of an entry\<close>

text \<open>A posting whose rows pass every constraint that does not look at other rows.\<close>

definition rows_valid :: "posting \<Rightarrow> bool" where
  "rows_valid p =
     (let d = ps_decision p in
      decision_valid d \<and> within_scale 8 (dc_notional d)
      \<and> list_all (\<lambda>f. fill_valid f \<and> traded_ok (fr_fill f)) (ps_fills p)
      \<and> distinct (map (\<lambda>f. pf_sequence (fr_fill f)) (ps_fills p))
      \<and> pred_option (\<lambda>x. position_valid x \<and> entry_key x = decision_key d) (ps_position p)
      \<and> pred_option (\<lambda>x. order_valid x \<and> rv_ticker (dc_resolved d) = go_ticker x \<and> rv_outcome (dc_resolved d) = go_outcome x
          \<and> dc_side d = Some (go_side x) \<and> dc_tif d = Some (go_tif x)
          \<and> map_option dval (dc_quantity d) = Some (dval (go_quantity x))
          \<and> dval (dc_filled d) = dval (go_filled x) \<and> dval (dc_remaining d) = dval (go_open x)
          \<and> map_option dval (dc_limit_price d) = Some (dval (go_limit_price x))
          \<and> dc_status d = go_decision_status x) (ps_order p)
      \<and> account_valid (ps_account p))"

lemma evidence_ok: "prepared_ok rq pp \<Longrightarrow> pred_option sha256_text (qe_market_hash (evidence_of (prep_quote pp)))
    \<and> pred_option sha256_text (qe_book_hash (evidence_of (prep_quote pp)))"
  by (cases "prep_quote pp") (auto simp: prepared_ok_def evidence_of_def quote_ok_def Let_def)

lemma entry_decision_valid:
  assumes rq: "request_ok rq" and s: "settlement_ok rq s" and pp: "prepared_ok rq pp" and ro: "sha256_text (rv_revision ro)"
    and acct: "account_valid acct"
    and cash: "dval (ac_cash_balance acct) - dval (st_notional s) = of_int cash / 10 ^ 18" "0 \<le> cash"
  shows "decision_valid (ps_decision (entry_posting sha rq ro pp now acct s fills opens cash reserved reservation))"
proof (cases "er_action rq")
  case Pass
  with assms evidence_ok [OF pp] show ?thesis
    by (auto simp: entry_posting_def decision_valid_def request_ok_def settlement_ok_def account_valid_def Let_def
        decision_shape_def average_valid_def quantity_conserved_def cash_flow_def pnl_valid_def status_shape_def money_ok_def
        within_scale_def)
next
  case Execute
  then obtain q l where ql: "er_quantity rq = Some q" "er_limit rq = Some l" "positive_ok 2 q" "unit_price_ok 6 l"
    using rq by (auto simp: request_ok_def)
  with assms Execute evidence_ok [OF pp] show ?thesis
    by (auto simp: entry_posting_def decision_valid_def request_ok_def settlement_ok_def account_valid_def Let_def
        decision_shape_def average_valid_def quantity_conserved_def cash_flow_def pnl_valid_def status_shape_def money_ok_def
        within_scale_def positive_ok_def split: option.splits if_splits)
qed

lemma fill_row_ok:
  assumes "traded_ok f"
  shows "\<exists>r. fill_row account decision pp extra now f = Inr r \<and> fr_fill r = f \<and> fill_valid r"
proof -
  have s: "within_scale 2 (pf_quantity f)" "within_scale 6 (pf_price f)" "within_scale 8 (pf_notional f)"
    "within_scale 6 (pf_source_bid_price f)"
    using assms by (simp_all add: traded_ok_def positive_ok_def unit_price_ok_def)
  obtain a b c d e where "scaled_text 2 (pf_quantity f) = Inr a" "scaled_text 6 (pf_price f) = Inr b"
    "scaled_text 8 (pf_notional f) = Inr c" "money18 dzero = Inr d" "scaled_text 6 (pf_source_bid_price f) = Inr e"
    using texts_ok(1) [OF s(1)] texts_ok(1) [OF s(2)] texts_ok(1) [OF s(3)] texts_ok(2) [of dzero] texts_ok(1) [OF s(4)]
    unfolding is_ok_iff by auto
  then show ?thesis
    using assms by (simp add: fill_row_def fill_valid_def traded_ok_def positive_ok_def Let_def within_scale_def)
qed

lemma fill_rows_ok:
  assumes "list_all traded_ok fs"
  shows "\<exists>rows. traverseE (fill_row account decision pp extra now) fs = Inr rows"
  by (rule traverseE_total) (use assms fill_row_ok in \<open>fastforce simp: list_all_iff\<close>)

lemma fill_rows_valid:
  assumes "traverseE (fill_row account decision pp extra now) fs = Inr rows" "list_all traded_ok fs"
  shows "list_all (\<lambda>r. fill_valid r \<and> traded_ok (fr_fill r)) rows \<and> map fr_fill rows = fs"
  using assms
proof (induction fs arbitrary: rows)
  case (Cons f fs)
  then obtain r rest where "fill_row account decision pp extra now f = Inr r" "rows = r # rest"
    "traverseE (fill_row account decision pp extra now) fs = Inr rest"
    by (auto simp: bindE_eq_Inr)
  with Cons fill_row_ok [of f account decision pp extra now] show ?case by auto
qed simp

text \<open>An order reserves what its open quantity costs at its limit.\<close>

lemma reserved_units_ok:
  assumes "settlement_ok rq s" "request_ok rq" "opens \<Longrightarrow> er_action rq = Execute"
  shows "\<exists>n. reserved_units s (er_limit rq) opens = Inr n"
proof (cases opens)
  case True
  then obtain q l where ql: "er_limit rq = Some l" "within_scale 6 l" "within_scale 2 (st_remaining s)"
    using assms by (auto simp: request_ok_def settlement_ok_def unit_price_ok_def money_ok_def Let_def)
  obtain m n where "units_of 2 ''open_quantity'' (st_remaining s) = Inr m" "units_of 6 ''limit_price'' l = Inr n"
    using within_scale_units ql(2,3) by meson
  with True ql show ?thesis by (simp add: reserved_units_def)
qed (simp add: reserved_units_def)

lemma reserved_units_value:
  assumes "reserved_units s (Some l) True = Inr n"
  shows "of_int n / 10 ^ 18 = dval (st_remaining s) * dval l"
proof -
  from assms obtain a b where "units_of 2 ''open_quantity'' (st_remaining s) = Inr a" "units_of 6 ''limit_price'' l = Inr b"
    "n = a * b * 10 ^ 10"
    by (auto simp: reserved_units_def bindE_eq_Inr)
  then show ?thesis using units_of_eq by simp
qed

lemma entry_rows_valid:
  assumes rq: "request_ok rq" and s: "settlement_ok rq s" and pp: "prepared_ok rq pp" and ro: "sha256_text (rv_revision ro)"
    and acct: "account_valid acct"
    and units: "dval (ac_cash_balance acct) = of_int cash / 10 ^ 18" "dval (ac_reserved_cash acct) = of_int reserved / 10 ^ 18"
      "dval (st_notional s) = of_int notional / 10 ^ 18" "dval (st_fee s) = of_int fee / 10 ^ 18"
    and opens: "opens \<Longrightarrow> er_action rq = Execute \<and> er_tif rq = Gtc \<and> is_simulated (st_status s)"
      "reserved_units s (er_limit rq) opens = Inr reservation"
    and covered: "is_simulated (st_status s) \<Longrightarrow> notional + fee + reservation \<le> cash - reserved"
    and fills: "list_all (\<lambda>r. fill_valid r \<and> traded_ok (fr_fill r)) fills" "map fr_fill fills = st_fills s"
  shows "rows_valid (entry_posting sha rq ro pp now acct s fills opens (cash - notional - fee) reserved reservation)"
proof -
  let ?p = "entry_posting sha rq ro pp now acct s fills opens (cash - notional - fee) reserved reservation"
  have fee: "fee = 0" using s units(4) by (simp add: settlement_ok_def Let_def)
  have "0 \<le> dval (st_notional s)" using s by (simp add: settlement_ok_def money_ok_def Let_def)
  then have n: "0 \<le> notional" by (simp add: units(3))
  have c: "0 \<le> reserved" "reserved \<le> cash" using acct units by (simp_all add: account_valid_def money_ok_def divide_le_cancel)
  have nonneg: "0 \<le> reservation"
  proof (cases opens)
    case True
    then obtain l where l: "er_limit rq = Some l" "0 < dval l"
      using rq opens(1) by (auto simp: request_ok_def unit_price_ok_def)
    have "0 \<le> dval (st_remaining s) * dval l" using s l by (simp add: settlement_ok_def money_ok_def Let_def)
    with reserved_units_value [of s l reservation] opens(2) True l have "(0::rat) \<le> of_int reservation / 10 ^ 18" by simp
    then show ?thesis by simp
  qed (use opens(2) in \<open>simp add: reserved_units_def\<close>)
  have none: "notional = 0 \<and> reservation = 0" if "\<not> is_simulated (st_status s)"
  proof -
    have "dval (st_notional s) = 0"
      using that s by (auto simp: settlement_ok_def is_simulated_def Let_def split: paper_action.splits)
    moreover have "\<not> opens" using that opens(1) by blast
    ultimately show ?thesis using opens(2) by (simp add: units(3) reserved_units_def)
  qed
  have left: "reserved + reservation \<le> cash - notional - fee"
    using covered none c fee by (cases "is_simulated (st_status s)") auto
  have "decision_valid (ps_decision ?p)"
    by (rule entry_decision_valid [OF rq s pp ro acct]) (use units left c nonneg fee in \<open>simp_all add: diff_divide_distrib\<close>)
  moreover have "account_valid (ps_account ?p)"
  proof -
    have "(of_int (reserved + reservation) :: rat) / 10 ^ 18 \<le> of_int (cash - notional - fee) / 10 ^ 18"
      using left by (simp only: divide_le_cancel of_int_le_iff) simp
    moreover have "(0::rat) \<le> of_int (reserved + reservation) / 10 ^ 18" using c nonneg by simp
    ultimately show ?thesis
      using acct by (simp add: entry_posting_def account_valid_def money_ok_def Let_def)
  qed
  moreover have "map (\<lambda>r. pf_sequence (fr_fill r)) fills = map pf_sequence (st_fills s)"
    unfolding fills(2) [symmetric] by simp
  then have "distinct (map (\<lambda>r. pf_sequence (fr_fill r)) fills)" using s by (simp add: settlement_ok_def Let_def)
  moreover have "pred_option (\<lambda>x. position_valid x \<and> entry_key x = decision_key (ps_decision ?p)) (ps_position ?p)"
    using s fee
    by (auto simp: entry_posting_def Let_def position_valid_def entry_key_def decision_key_def settlement_ok_def
        money_ok_def positive_ok_def not_blank_def within_scale_def)
  ultimately have settled: "decision_valid (ps_decision ?p)" "account_valid (ps_account ?p)"
    "distinct (map (\<lambda>r. pf_sequence (fr_fill r)) fills)"
    "pred_option (\<lambda>x. position_valid x \<and> entry_key x = decision_key (ps_decision ?p)) (ps_position ?p)"
    by blast+
  have order: "order_valid x \<and> rv_ticker ro = go_ticker x \<and> rv_outcome ro = go_outcome x \<and> go_side x = Buy \<and> go_tif x = Gtc
      \<and> er_action rq = Execute \<and> er_tif rq = Gtc \<and> map_option dval (er_quantity rq) = Some (dval (go_quantity x))
      \<and> go_filled x = st_filled s \<and> go_open x = st_remaining s
      \<and> map_option dval (er_limit rq) = Some (dval (go_limit_price x)) \<and> st_status s = go_decision_status x"
    if x: "ps_order ?p = Some x" for x
  proof -
    have e: "opens" "er_action rq = Execute" "er_tif rq = Gtc" "is_simulated (st_status s)"
      using x opens(1) by (auto simp: entry_posting_def Let_def split: bool.splits)
    then obtain q l where ql: "er_quantity rq = Some q" "er_limit rq = Some l" "positive_ok 2 q" "unit_price_ok 6 l"
      using rq by (auto simp: request_ok_def)
    have reserve: "of_int reservation / 10 ^ 18 = dval (st_remaining s) * dval l"
      using reserved_units_value [of s l reservation] opens(2) e(1) ql(2) by simp
    have "x = \<lparr>go_account = er_account rq, go_order = ''paper-order:'' @ short_hash sha (er_account rq) (er_decision rq),
        go_decision = er_decision rq, go_ticker = rv_ticker ro, go_outcome = rv_outcome ro, go_side = Buy,
        go_tif = Gtc, go_quantity = q, go_filled = st_filled s, go_open = st_remaining s, go_limit_price = l,
        go_decision_status = st_status s, go_reserved = from_scaled_int 18 reservation, go_created_at = now\<rparr>"
      using x e(1) ql by (simp add: entry_posting_def Let_def)
    moreover from this have "order_valid x"
      using s e ql nonneg reserve
      by (auto simp: order_valid_def settlement_ok_def money_ok_def is_simulated_def not_blank_def positive_ok_def Let_def
          split: if_splits)
    ultimately show ?thesis using e ql by simp
  qed
  have fields: "ps_fills ?p = fills" "dc_notional (ps_decision ?p) = st_notional s" "dc_resolved (ps_decision ?p) = ro"
    "dc_side (ps_decision ?p) = (if er_action rq = Execute then Some Buy else None)"
    "dc_tif (ps_decision ?p) = (if er_action rq = Execute then Some (er_tif rq) else None)"
    "dc_quantity (ps_decision ?p) = er_quantity rq" "dc_limit_price (ps_decision ?p) = er_limit rq"
    "dc_filled (ps_decision ?p) = st_filled s" "dc_remaining (ps_decision ?p) = st_remaining s"
    "dc_status (ps_decision ?p) = st_status s"
    by (simp_all add: entry_posting_def Let_def)
  have "within_scale 8 (st_notional s)" using s by (simp add: settlement_ok_def money_ok_def Let_def)
  with settled order fills(1) show ?thesis
    unfolding rows_valid_def Let_def fields by (cases "ps_order ?p") auto
qed

end
