(* ===== verification/PaperLiveness.thy ===== *)
theory PaperLiveness
  imports PaperEntries
begin

text \<open>
  A decision that an eligible request asks for is recorded: nothing that the service computes is
  refused by the constraints of the tables, and every reply can be written.
\<close>

section \<open>The computation of a commit\<close>

lemma account_units:
  assumes "account_valid acct"
  obtains cash reserved where "units_of 18 ''cash_balance'' (ac_cash_balance acct) = Inr cash"
    "units_of 18 ''reserved_cash'' (ac_reserved_cash acct) = Inr reserved"
proof -
  have "within_scale 18 (ac_cash_balance acct)" "within_scale 18 (ac_reserved_cash acct)"
    using assms by (simp_all add: account_valid_def money_ok_def)
  then show thesis using that within_scale_units by meson
qed

lemma settlement_units:
  assumes "settlement_ok rq s"
  obtains notional fee where "units_of 18 ''notional'' (st_notional s) = Inr notional" "units_of 18 ''fee'' (st_fee s) = Inr fee"
proof -
  have "within_scale 18 (st_notional s)" "within_scale 18 (st_fee s)"
    using assms within_scale_mono [of 8 _ 18] by (simp_all add: settlement_ok_def money_ok_def Let_def)
  then show thesis using that within_scale_units by meson
qed

lemma settle_entry_total:
  assumes rq: "request_ok rq" and pp: "prepared_ok rq pp" and acct: "account_valid acct"
  shows "\<exists>p. settle_entry sha rq ro pp now acct = Inr p"
proof -
  note s = entry_settlement_ok [OF rq pp, of now]
  let ?s = "entry_settlement pp (er_quantity rq) now"
  obtain cash reserved where u: "units_of 18 ''cash_balance'' (ac_cash_balance acct) = Inr cash"
    "units_of 18 ''reserved_cash'' (ac_reserved_cash acct) = Inr reserved" by (rule account_units [OF acct])
  obtain notional fee where v: "units_of 18 ''notional'' (st_notional ?s) = Inr notional"
    "units_of 18 ''fee'' (st_fee ?s) = Inr fee" by (rule settlement_units [OF s])
  have "entry_opens rq ?s \<Longrightarrow> er_action rq = Execute" by (simp add: entry_opens_def)
  from reserved_units_ok [OF s rq this]
  obtain reservation where r: "reserved_units ?s (er_limit rq) (entry_opens rq ?s) = Inr reservation" by blast
  have "list_all traded_ok (st_fills ?s)" using s by (simp add: settlement_ok_def Let_def)
  then obtain rows where "traverseE (fill_row (er_account rq) (er_decision rq) pp [] now) (st_fills ?s) = Inr rows"
    using fill_rows_ok by blast
  with u v r show ?thesis
    unfolding settle_entry_def Let_def entry_opens_def [symmetric] by simp
qed

lemma settle_entry_rows:
  assumes "settle_entry sha rq ro pp now acct = Inr p"
    and rq: "request_ok rq" and pp: "prepared_ok rq pp" and ro: "sha256_text (rv_revision ro)" and acct: "account_valid acct"
  shows "rows_valid p"
  using assms(1)
proof (cases rule: settle_entry_cases)
  case (short cash reserved)
  have s: "settlement_ok rq (void_settlement ''insufficient_paper_cash'' (quantity_or_zero (er_quantity rq)))"
    by (rule void_settlement_ok [OF rq]) (simp add: not_blank_def)
  have "rows_valid (entry_posting sha rq ro pp now acct (void_settlement ''insufficient_paper_cash''
      (quantity_or_zero (er_quantity rq))) [] False (cash - 0 - 0) reserved 0)"
    by (rule entry_rows_valid [OF rq s pp ro acct units_of_eq [OF short(3)] units_of_eq [OF short(1)]])
      (simp_all add: void_settlement_def is_simulated_def reserved_units_def)
  with short(2) show ?thesis by simp
next
  case (settled cash reserved notional fee reservation fills)
  note s = entry_settlement_ok [OF rq pp, of now]
  have "list_all traded_ok (st_fills (entry_settlement pp (er_quantity rq) now))"
    using s by (simp add: settlement_ok_def Let_def)
  note fills = fill_rows_valid [OF settled(6) this]
  show ?thesis
    unfolding settled(8)
    by (rule entry_rows_valid [OF rq s pp ro acct settled(1-4) [THEN units_of_eq] _ settled(5)])
      (use settled(7) fills in \<open>auto simp: entry_opens_def\<close>)
qed

section \<open>The commit\<close>

lemma add_fills_total:
  assumes "list_all fill_valid fs" "\<forall>f \<in> set fs. decision_of (fr_account f, fr_decision f) s \<noteq> None"
    and "\<forall>f \<in> set fs. row_of fill_row_key (fill_row_key f) (pd_fills s) = None" "distinct (map fill_row_key fs)"
  shows "eachA add_paper_fill fs s = (Inr (), s\<lparr>pd_fills := pd_fills s @ fs\<rparr>)"
  using assms
proof (induction fs arbitrary: s)
  case Nil
  show ?case by (simp add: liftE_def)
next
  case (Cons f fs)
  let ?t = "s\<lparr>pd_fills := pd_fills s @ [f]\<rparr>"
  have "add_paper_fill f s = (Inr (), ?t)" using Cons.prems by (simp add: add_paper_fill_Inr)
  moreover have "eachA add_paper_fill fs ?t = (Inr (), ?t\<lparr>pd_fills := pd_fills ?t @ fs\<rparr>)"
    by (rule Cons.IH) (use Cons.prems in \<open>auto simp: decision_of_def row_of_new\<close>)
  ultimately show ?case by (simp add: bindA_def)
qed

text \<open>
  The ids of the position and the order of a decision are digests; nothing stored has one of
  them yet.
\<close>

definition ids_free :: "(string \<Rightarrow> string) \<Rightarrow> string \<Rightarrow> string \<Rightarrow> paper_db \<Rightarrow> bool" where
  "ids_free sha account decision db =
     (position_of (account, ''paper-position:'' @ short_hash sha account decision) db = None
      \<and> order_of (account, ''paper-order:'' @ short_hash sha account decision) db = None
      \<and> row_of order_event_key (account, ''paper-order:'' @ short_hash sha account decision, 1) (pd_events db) = None)"

definition posting_ids_free :: "posting \<Rightarrow> paper_db \<Rightarrow> bool" where
  "posting_ids_free p db =
     (pred_option (\<lambda>x. position_of (position_key x) db = None) (ps_position p)
      \<and> pred_option (\<lambda>x. order_of (paper_order_key x) db = None
          \<and> row_of order_event_key (go_account x, go_order x, 1) (pd_events db) = None) (ps_order p))"

text \<open>Rows that belong to a decision that is not recorded are not there either.\<close>

lemma unrecorded_rows:
  assumes "paper_ok db" "decision_of k db = None"
  shows "row_of entry_key k (pd_positions db) = None" "decision_order k db = None" "decision_fills k db = []"
proof -
  show "row_of entry_key k (pd_positions db) = None"
    using assms by (fastforce simp: row_of_None paper_ok_def position_ok_def Let_def)
  show "decision_order k db = None"
    using assms by (fastforce simp: decision_order_def row_of_None paper_ok_def)
  show "decision_fills k db = []"
    using assms by (auto simp: decision_fills_def filter_empty_conv paper_ok_def)
qed

lemma fresh_sequence:
  assumes "paper_ok db" "account_of i db = Some acct"
  shows "row_of (\<lambda>x. (dc_account x, dc_sequence x)) (i, ac_journal_sequence acct + 1) (pd_decisions db) = None"
proof -
  have "map dc_sequence (decisions_of i db) = [1..ac_journal_sequence acct]"
    using assms account_of_Some [OF assms(2)] by (auto simp: paper_ok_def account_ok_def)
  then have "dc_sequence ` set (decisions_of i db) = set [1..ac_journal_sequence acct]" by (metis set_map)
  then have "dc_sequence d \<le> ac_journal_sequence acct" if "d \<in> set (pd_decisions db)" "dc_account d = i" for d
    using that by (auto simp: decisions_of_def image_def set_eq_iff)
  then show ?thesis by (fastforce simp: row_of_None)
qed

lemma fill_keys_distinct:
  assumes "distinct (map (\<lambda>f. pf_sequence (fr_fill f)) fs)"
  shows "distinct (map fill_row_key fs)"
proof -
  have "map (\<lambda>f. pf_sequence (fr_fill f)) fs = map (snd \<circ> snd) (map fill_row_key fs)" by (simp add: fill_row_key_def)
  with assms show ?thesis by (metis distinct_map)
qed

lemma opened_event_valid: "order_valid x \<Longrightarrow> event_valid (opened_event x)"
  by (simp add: order_valid_def event_valid_def opened_event_def)

lemma post_total:
  assumes ok: "paper_ok db" and acct: "account_of (fst k) db = Some acct" and new: "decision_of k db = None"
    and p: "posting_sound acct p" "rows_valid p" "posting_ids_free p db" "decision_key (ps_decision p) = k"
      "intent_agrees (ps_decision p) db"
  shows "\<exists>db'. post p db = (Inr (), db')"
proof -
  let ?d = "ps_decision p"
  let ?s1 = "db\<lparr>pd_decisions := pd_decisions db @ [?d]\<rparr>"
  let ?s2 = "?s1\<lparr>pd_fills := pd_fills db @ ps_fills p\<rparr>"
  let ?s3 = "?s2\<lparr>pd_positions := pd_positions db @ (case ps_position p of None \<Rightarrow> [] | Some x \<Rightarrow> [x])\<rparr>"
  have d: "dc_account ?d = fst k" "dc_sequence ?d = ac_journal_sequence acct + 1"
    using p(1,4) by (auto simp: posting_sound_def decision_key_def Let_def)
  note rows = unrecorded_rows [OF ok new]
  have "add_decision ?d db = (Inr (), ?s1)"
    using p(2,5) acct new fresh_sequence [OF ok acct]
    by (simp add: add_decision_def insert_row_Inr rows_valid_def d decision_of_def p(4) Let_def)
  moreover have s1: "decision_of k ?s1 = Some ?d" using new p(4) by (simp add: decision_of_def row_of_new)
  have "eachA add_paper_fill (ps_fills p) ?s1 = (Inr (), ?s1\<lparr>pd_fills := pd_fills ?s1 @ ps_fills p\<rparr>)"
  proof (rule add_fills_total)
    show "list_all fill_valid (ps_fills p)" using p(2) by (auto simp: rows_valid_def list_all_iff Let_def)
    show "distinct (map fill_row_key (ps_fills p))" using p(2) fill_keys_distinct by (simp add: rows_valid_def Let_def)
    have key: "(fr_account f, fr_decision f) = k" if "f \<in> set (ps_fills p)" for f
      using p(1,4) that by (auto simp: posting_sound_def Let_def)
    show "\<forall>f \<in> set (ps_fills p). decision_of (fr_account f, fr_decision f) ?s1 \<noteq> None" using s1 key by auto
    show "\<forall>f \<in> set (ps_fills p). row_of fill_row_key (fill_row_key f) (pd_fills ?s1) = None"
      using rows(3) key by (fastforce simp: decision_fills_def filter_empty_conv row_of_None fill_row_key_def)
  qed
  moreover have "optionally add_position (ps_position p) ?s2 = (Inr (), ?s3)"
  proof (cases "ps_position p")
    case (Some x)
    with p(2-4) have "position_valid x" "entry_key x = k" "position_of (position_key x) db = None"
      by (simp_all add: rows_valid_def posting_ids_free_def Let_def)
    with Some s1 rows(1) show ?thesis
      by (simp add: optionally_def add_position_def insert_row_Inr decision_of_def position_of_def)
  qed (simp add: optionally_def liftE_def)
  moreover have "\<exists>s4. optionally (\<lambda>x. bindA (add_order x) (\<lambda>_. add_event (opened_event x))) (ps_order p) ?s3 = (Inr (), s4)"
  proof (cases "ps_order p")
    case (Some x)
    with p(2-4) have v: "order_valid x" and free: "order_of (paper_order_key x) db = None"
        "row_of order_event_key (go_account x, go_order x, 1) (pd_events db) = None"
      by (simp_all add: rows_valid_def posting_ids_free_def Let_def)
    have k: "order_decision_key x = k" using p(1,4) Some by (simp add: posting_sound_def Let_def)
    have "order_facts_match x ?s3"
      using p(2) Some s1 by (simp add: order_facts_match_def k decision_of_def rows_valid_def Let_def)
    with v free k rows(2) have "add_order x ?s3 = (Inr (), ?s3\<lparr>pd_orders := pd_orders db @ [x]\<rparr>)"
      by (simp add: add_order_def insert_row_Inr order_of_def decision_order_def)
    moreover have "add_event (opened_event x) (?s3\<lparr>pd_orders := pd_orders db @ [x]\<rparr>)
        = (Inr (), ?s3\<lparr>pd_orders := pd_orders db @ [x], pd_events := pd_events db @ [opened_event x]\<rparr>)"
      using opened_event_valid [OF v] free
      by (simp add: add_event_def insert_row_Inr order_of_def row_of_new opened_event_def order_event_key_def paper_order_key_def
          split: option.splits)
    ultimately show ?thesis using Some by (simp add: optionally_def bindA_def)
  qed (simp add: optionally_def liftE_def)
  moreover have "\<exists>t. update_account (ps_account p) s = (Inr (), t)" for s
    using p(2) by (simp add: update_account_def rows_valid_def Let_def)
  ultimately show ?thesis unfolding post_def by (auto simp: bindA_eq_Inr)
qed

section \<open>The reply\<close>

lemma serialize_fill_ok: "traded_ok (fr_fill f) \<Longrightarrow> fill_valid f \<Longrightarrow> is_ok (serialize_fill f)"
  unfolding serialize_fill_def Let_def
  by (rule object_of_ok)
    (auto simp: traded_ok_def fill_valid_def positive_ok_def unit_price_ok_def money_ok_def Let_def intro!: texts_ok)

lemma serialize_decision_ok:
  assumes "decision_valid d" "within_scale 8 (dc_notional d)"
    and "\<forall>f \<in> set (decision_fills (decision_key d) db). is_ok (serialize_fill f)"
    and "\<And>x. decision_order (decision_key d) db = Some x \<Longrightarrow> within_scale 18 (go_reserved x)"
  shows "is_ok (serialize_decision d db)"
proof -
  have "\<exists>fills. traverseE serialize_fill
      (sort_key (\<lambda>f. pf_sequence (fr_fill f)) (decision_fills (decision_key d) db)) = Inr fills"
    using assms(3) by (intro traverseE_total) (auto simp: list_all_iff simp flip: is_ok_iff)
  then obtain fills where fills: "traverseE serialize_fill
      (sort_key (\<lambda>f. pf_sequence (fr_fill f)) (decision_fills (decision_key d) db)) = Inr fills" by blast
  have scales: "within_scale 2 (dc_filled d)" "within_scale 2 (dc_remaining d)" "within_scale 18 (dc_fee d)"
    "within_scale 18 (dc_cash_before d)" "within_scale 18 (dc_cash_after d)"
    using assms(1) by (simp_all add: decision_valid_def money_ok_def)
  have optional: "\<And>q. dc_quantity d = Some q \<Longrightarrow> within_scale 2 q" "\<And>l. dc_limit_price d = Some l \<Longrightarrow> within_scale 6 l"
    "\<And>a. dc_average d = Some a \<Longrightarrow> within_scale 18 a" "\<And>c. dc_cost_basis d = Some c \<Longrightarrow> within_scale 18 c"
    "\<And>c. dc_pnl d = Some c \<Longrightarrow> within_scale 18 c"
    using assms(1) by (auto simp: decision_valid_def decision_shape_def average_valid_def pnl_valid_def positive_ok_def
        unit_price_ok_def money_ok_def split: paper_action.splits if_splits)
  have order: "within_scale 18 (case decision_order (decision_key d) db of None \<Rightarrow> dzero | Some x \<Rightarrow> go_reserved x)"
    using assms(4) by (cases "decision_order (decision_key d) db") simp_all
  show ?thesis
    unfolding serialize_decision_def Let_def fills bindE_Inr
    by (rule object_of_ok) (simp add: scales optional order assms(2) texts_ok optional_value_ok)
qed

lemma posted_reply_ok:
  assumes ok: "paper_ok db" and new: "decision_of (decision_key (ps_decision p)) db = None" and rows: "rows_valid p"
  shows "is_ok (serialize_decision (ps_decision p) (posted p db))"
proof (rule serialize_decision_ok)
  let ?k = "decision_key (ps_decision p)"
  show "decision_valid (ps_decision p)" "within_scale 8 (dc_notional (ps_decision p))"
    using rows by (simp_all add: rows_valid_def Let_def)
  have "set (decision_fills ?k (posted p db)) \<subseteq> set (ps_fills p)"
    using unrecorded_rows(3) [OF ok new] by (auto simp: decision_fills_def)
  then show "\<forall>f \<in> set (decision_fills ?k (posted p db)). is_ok (serialize_fill f)"
    using rows serialize_fill_ok by (auto simp: rows_valid_def list_all_iff Let_def)
  fix x assume "decision_order ?k (posted p db) = Some x"
  then have "x \<in> set (pd_orders (posted p db))" unfolding decision_order_def by (blast dest: row_of_Some)
  then have "order_valid x"
    using ok rows by (cases "ps_order p") (auto simp: paper_ok_def rows_valid_def Let_def)
  then show "within_scale 18 (go_reserved x)" by (simp add: order_valid_def money_ok_def)
qed

section \<open>Recording\<close>

lemma settle_entry_ids:
  assumes "settle_entry sha rq ro pp now acct = Inr p" "ids_free sha (er_account rq) (er_decision rq) db"
  shows "posting_ids_free p db"
  using assms(1)
proof (cases rule: settle_entry_cases)
  case (short cash reserved)
  with assms(2) show ?thesis
    by (simp add: posting_ids_free_def entry_posting_def void_settlement_def ids_free_def Let_def)
next
  case (settled cash reserved notional fee reservation fills)
  then show ?thesis
    using assms(2)
    by (auto simp: posting_ids_free_def entry_posting_def ids_free_def position_key_def paper_order_key_def Let_def
        split: bool.splits option.splits)
qed

lemma commit_prepared_total:
  assumes ok: "paper_ok db" and acct: "account_of (er_account rq) db = Some acct"
    and new: "decision_of (er_account rq, er_decision rq) db = None"
    and i: "intent_of (er_account rq, er_decision rq) db = Some i" "it_request_hash i = er_hash rq"
    and rq: "request_ok rq" and pp: "prepared_ok rq pp" and ro: "sha256_text (rv_revision ro)"
    and free: "ids_free sha (er_account rq) (er_decision rq) db"
  shows "\<exists>reply p. transaction (commit_prepared sha rq ro pp now) db = (Inr reply, posted p db)
    \<and> decision_key (ps_decision p) = (er_account rq, er_decision rq)
    \<and> dc_request_hash (ps_decision p) = er_hash rq \<and> dc_resolved (ps_decision p) = ro"
proof -
  let ?k = "(er_account rq, er_decision rq)"
  have a: "account_valid acct" "ac_id acct = er_account rq"
    using ok account_of_Some [OF acct] by (auto simp: paper_ok_def account_ok_def)
  obtain p where p: "settle_entry sha rq ro pp (utc_of now) acct = Inr p" using settle_entry_total [OF rq pp a(1)] by blast
  note form = settle_entry_form [OF p]
  have "is_simulated (prep_status pp) \<Longrightarrow> er_quantity rq \<noteq> None"
    using pp by (auto simp: prepared_ok_def is_simulated_def split: option.splits paper_action.splits)
  note sound = settle_entry_sound [OF p a(2) this]
  note rows = settle_entry_rows [OF p rq pp ro a(1)]
  have agrees: "intent_agrees (ps_decision p) db" using form i by (simp add: intent_agrees_def)
  obtain db' where post: "post p db = (Inr (), db')"
    using post_total [OF ok, of ?k acct p] acct new sound rows settle_entry_ids [OF p free] form agrees by auto
  then have db': "db' = posted p db" using post_Inr by blast
  obtain reply where reply: "serialize_decision (ps_decision p) (posted p db) = Inr reply"
    using posted_reply_ok [OF ok _ rows] new form by (auto simp: is_ok_iff)
  have "commit_prepared sha rq ro pp now db = (Inr reply, posted p db)"
    using acct new p post reply
    by (simp add: commit_prepared_def commit_posting_def existing_reply_def bindA_def db')
  then show ?thesis using form by (auto simp: transaction_def)
qed

lemma undecided:
  assumes "paper_ok db" "intent_of k db = None"
  shows "decision_of k db = None"
proof (rule ccontr)
  assume "decision_of k db \<noteq> None"
  then obtain d where "decision_of k db = Some d" by blast
  from decision_of_Some [OF this] assms show False by (auto simp: paper_ok_def intent_agrees_def split: option.splits)
qed

lemma resolved_revision: "resolve_for sha rq db = Inr ro \<Longrightarrow> rv_revision ro = er_revision rq"
  by (auto simp: resolve_for_def bindE_eq_Inr split: if_splits)

lemma entry_intent_valid:
  "request_ok rq \<Longrightarrow> rv_revision ro = er_revision rq \<Longrightarrow> intent_valid (entry_intent rq ro now)"
  by (auto simp: request_ok_def intent_valid_def entry_intent_def split: paper_action.splits)

text \<open>A strategy version fits its column.\<close>

definition version_fits :: "resolved_opportunity \<Rightarrow> bool" where
  "version_fits ro = pred_option (\<lambda>v. - (2 ^ 31) \<le> v \<and> v < 2 ^ 31) (rv_strategy_version ro)"

lemma open_entry_total:
  assumes ok: "paper_ok db" and rq: "request_ok rq" and acct: "account_of (er_account rq) db = Some acct"
    and new: "intent_of (er_account rq, er_decision rq) db = None"
    and ro: "resolve_for sha rq db = Inr ro" "version_fits ro"
  shows "transaction (open_entry sha rq now) db
    = (Inr (Opened ro), db\<lparr>pd_intents := pd_intents db @ [entry_intent rq ro (utc_of now)]\<rparr>)"
proof -
  let ?i = "entry_intent rq ro (utc_of now)"
  have i: "it_account ?i = er_account rq" "paper_intent_key ?i = (er_account rq, er_decision rq)" "it_resolved ?i = ro"
    by (simp_all add: entry_intent_def paper_intent_key_def)
  have "add_intent ?i db = (Inr (), db\<lparr>pd_intents := pd_intents db @ [?i]\<rparr>)"
    using entry_intent_valid [OF rq resolved_revision [OF ro(1)]] acct new ro(2)
    by (simp add: add_intent_def insert_row_Inr i intent_of_def version_fits_def)
  then show ?thesis
    using undecided [OF ok new] new acct ro(1)
    by (simp add: open_entry_def existing_reply_def transaction_def bindA_def liftE_def)
qed

lemma record_decision_total:
  assumes ok: "paper_ok db" and sha: "digests sha" and args: "entry_request_of sha args = Inr rq"
    and acct: "account_of (er_account rq) db = Some acct"
    and new: "intent_of (er_account rq, er_decision rq) db = None"
    and ro: "resolve_for sha rq db = Inr ro" "version_fits ro"
    and answer: "answer_ok (fetch (rv_ticker ro))"
    and free: "ids_free sha (er_account rq) (er_decision rq) db"
  shows "\<exists>reply db' d. record_decision sha fetch now (\<lambda>_ s. s) args db = (Inr reply, db')
    \<and> decision_of (er_account rq, er_decision rq) db' = Some d \<and> dc_request_hash d = er_hash rq \<and> dc_resolved d = ro"
proof -
  let ?k = "(er_account rq, er_decision rq)"
  let ?i = "entry_intent rq ro (utc_of (now 0))"
  let ?db = "db\<lparr>pd_intents := pd_intents db @ [?i]\<rparr>"
  note rq = entry_request_ok [OF args sha]
  note undecided = undecided [OF ok new]
  have i: "paper_intent_key ?i = ?k" "it_request_hash ?i = er_hash rq" by (simp_all add: entry_intent_def paper_intent_key_def)
  have opened: "transaction (open_entry sha rq (now 0)) db = (Inr (Opened ro), ?db)"
    by (rule open_entry_total [OF ok rq acct new ro])
  then have "paper_ok ?db" using open_entry_advances [OF ok, of sha rq "now 0"] by simp
  moreover have tables: "account_of (er_account rq) ?db = Some acct" "decision_of ?k ?db = None" "intent_of ?k ?db = Some ?i"
    "ids_free sha (er_account rq) (er_decision rq) ?db"
    using acct undecided new free i
    by (simp_all add: account_of_def decision_of_def intent_of_def ids_free_def position_of_def order_of_def row_of_new)
  moreover obtain pp where pp: "prepare_entry rq ro (fetch (rv_ticker ro)) = Inr pp" "prepared_ok rq pp"
    using prepare_entry_ok [OF rq answer] by blast
  moreover have "sha256_text (rv_revision ro)" using rq resolved_revision [OF ro(1)] by (simp add: request_ok_def)
  ultimately obtain reply p where run: "transaction (commit_prepared sha rq ro pp (now 1)) ?db = (Inr reply, posted p ?db)"
    and p: "decision_key (ps_decision p) = ?k" "dc_request_hash (ps_decision p) = er_hash rq" "dc_resolved (ps_decision p) = ro"
    using commit_prepared_total [of ?db rq acct ?i pp ro sha "now 1"] rq i(2) by blast
  have "record_decision sha fetch now (\<lambda>_ s. s) args db = (Inr reply, posted p ?db)"
    using args undecided opened pp(1) run by (simp add: record_decision_def existing_reply_def Let_def)
  moreover have "decision_of ?k (posted p ?db) = Some (ps_decision p)"
    using decision_added [of p ?db] tables(2) p(1) by simp
  ultimately show ?thesis using p by blast
qed


end
