(* ===== verification/CanonicalJson.thy ===== *)
theory CanonicalJson
  imports PyValue
begin

text \<open>
  Canonical JSON texts can be taken apart: the texts of characters, and of the strings and \<open>null\<close>
  of a document, form a prefix code, so texts of such fields determine them. The request hashes
  rest on this.
\<close>

section \<open>Prefix codes\<close>

locale prefix_code =
  fixes enc :: "'a \<Rightarrow> string" and inside :: "'a \<Rightarrow> bool"
  assumes take_apart: "inside x \<Longrightarrow> inside y \<Longrightarrow> enc x @ X = enc y @ Y \<Longrightarrow> x = y \<and> X = Y"
begin

lemma enc_determines: "inside x \<Longrightarrow> inside y \<Longrightarrow> enc x = enc y \<Longrightarrow> x = y"
  using take_apart [of x y "[]" "[]"] by simp

text \<open>A sequence of codes up to a character that starts none of them.\<close>

lemma terminated_take_apart:
  assumes "list_all inside xs" "list_all inside ys" "\<And>x. inside x \<Longrightarrow> enc x \<noteq> [] \<and> hd (enc x) \<noteq> t"
    and "concat (map enc xs) @ t # X = concat (map enc ys) @ t # Y"
  shows "xs = ys \<and> X = Y"
  using assms(1,2,4)
proof (induction xs arbitrary: ys)
  case Nil
  then show ?case using assms(3) by (cases ys) (force simp: neq_Nil_conv)+
next
  case (Cons x xs)
  then obtain y zs where ys: "ys = y # zs" using assms(3) [of x] by (cases ys) (force simp: neq_Nil_conv)+
  have "x = y \<and> concat (map enc xs) @ t # X = concat (map enc zs) @ t # Y"
    using Cons.prems by (intro take_apart) (simp_all add: ys)
  then show ?case using Cons by (simp add: ys)
qed

end

section \<open>Characters and strings\<close>

lemma backslash: "char_of (92::nat) = CHR 0x5C"
  by code_simp

lemma hex_char_determines: "m < 16 \<Longrightarrow> n < 16 \<Longrightarrow> hex_char m = hex_char n \<Longrightarrow> m = n"
proof -
  assume "m < 16" "n < 16" "hex_char m = hex_char n"
  then have "(of_char (hex_char m) :: nat) = of_char (hex_char n)" "m < 16" "n < 16" by simp_all
  then show "m = n" by (auto simp: hex_char_def split: if_splits)
qed

lemma escaped_chars:
  "char_of (34::nat) = CHR 0x22" "char_of (8::nat) = CHR 0x08" "char_of (9::nat) = CHR 0x09"
  "char_of (10::nat) = CHR 0x0A" "char_of (12::nat) = CHR 0x0C" "char_of (13::nat) = CHR 0x0D"
  by code_simp+

text \<open>A character stands for itself, or is escaped by one character or by its four hexadecimal digits.\<close>

definition short_escapes :: "(char \<times> char) list" where
  "short_escapes = [(CHR 0x22, CHR 0x22), (CHR 0x5C, CHR 0x5C), (CHR 0x08, CHR ''b''), (CHR 0x09, CHR ''t''),
     (CHR 0x0A, CHR ''n''), (CHR 0x0C, CHR ''f''), (CHR 0x0D, CHR ''r'')]"

lemma json_char_cases:
  obtains (plain) "json_char c = [c]" "c \<noteq> CHR 0x5C" "c \<noteq> CHR 0x22"
  | (short) x where "json_char c = [CHR 0x5C, x]" "(c, x) \<in> set short_escapes"
  | (long) "json_char c = [CHR 0x5C, CHR ''u'', CHR ''0'', CHR ''0'', hex_char (of_char c div 16), hex_char (of_char c mod 16)]"
proof -
  have n: "of_char c = (n::nat) \<longleftrightarrow> c = char_of n" if "n < 256" for n using that by (auto simp: of_char_mod_256)
  show thesis
  proof (cases "c \<in> fst ` set short_escapes")
    case True
    then have "\<exists>x. json_char c = [CHR 0x5C, x] \<and> (c, x) \<in> set short_escapes"
      by (auto simp: short_escapes_def json_char_def backslash) (simp add: Let_def)
    with short show thesis by blast
  next
    case False
    then have f: "of_char c \<noteq> (34::nat)" "of_char c \<noteq> (92::nat)" "of_char c \<noteq> (8::nat)" "of_char c \<noteq> (9::nat)"
      "of_char c \<noteq> (10::nat)" "of_char c \<noteq> (12::nat)" "of_char c \<noteq> (13::nat)"
      by (simp_all add: n escaped_chars backslash short_escapes_def)
    show thesis
    proof (cases "32 \<le> (of_char c :: nat) \<and> of_char c \<le> (126::nat)")
      case True
      with f have "json_char c = [c]" by (simp add: json_char_def)
      moreover have "c \<noteq> CHR 0x5C" "c \<noteq> CHR 0x22" using False by (auto simp: short_escapes_def)
      ultimately show thesis by (rule plain)
    next
      case False
      with f have "json_char c = [CHR 0x5C, CHR ''u'', CHR ''0'', CHR ''0'', hex_char (of_char c div 16), hex_char (of_char c mod 16)]"
        by (simp only: json_char_def Let_def backslash if_False simp_thms)
      then show thesis by (rule long)
    qed
  qed
qed

lemma short_escapes_apart:
  "(c, x) \<in> set short_escapes \<Longrightarrow> (d, x) \<in> set short_escapes \<Longrightarrow> c = d" "(c, x) \<in> set short_escapes \<Longrightarrow> x \<noteq> CHR ''u''"
  by (auto simp: short_escapes_def)

lemma hex_digits_determine:
  assumes "hex_char (of_char c div 16) = hex_char (of_char d div 16)" "hex_char (of_char c mod 16) = hex_char (of_char d mod 16)"
  shows "c = d"
proof -
  have "of_char c div 16 < (16::nat)" "of_char d div 16 < (16::nat)" by (simp_all add: less_mult_imp_div_less)
  then have "of_char c div 16 = (of_char d div 16 :: nat)" "of_char c mod 16 = (of_char d mod 16 :: nat)"
    using assms hex_char_determines by simp_all
  then have "of_char c = (of_char d :: nat)" by (metis div_mult_mod_eq)
  then show "c = d" by simp
qed

lemma json_char_take_apart: "json_char c @ X = json_char d @ Y \<Longrightarrow> c = d \<and> X = Y"
  by (cases c rule: json_char_cases; cases d rule: json_char_cases)
    (auto dest: short_escapes_apart hex_digits_determine)

interpretation json_chars: prefix_code json_char "\<lambda>_. True"
  by unfold_locales (rule json_char_take_apart)

lemma json_char_start: "json_char c \<noteq> [] \<and> hd (json_char c) \<noteq> CHR 0x22"
  by (cases c rule: json_char_cases) simp_all

lemma json_str_take_apart:
  assumes "json_str s @ X = json_str t @ Y"
  shows "s = t \<and> X = Y"
proof (rule json_chars.terminated_take_apart [of s t "CHR 0x22"])
  show "concat (map json_char s) @ CHR 0x22 # X = concat (map json_char t) @ CHR 0x22 # Y"
    using assms by (simp add: json_str_def)
qed (use json_char_start in \<open>simp_all add: list_all_iff\<close>)

section \<open>Fields\<close>

text \<open>A field that is a string or absent.\<close>

fun text_field :: "pyval \<Rightarrow> bool" where
  "text_field PNone = True"
| "text_field (PStr _) = True"
| "text_field _ = False"

interpretation json_fields: prefix_code json_dumps text_field
proof
  fix v w X Y
  assume "text_field v" "text_field w" "json_dumps v @ X = json_dumps w @ Y"
  then show "v = w \<and> X = Y"
    by (cases v; cases w) (auto simp: json_str_def dest: json_str_take_apart [unfolded json_str_def, simplified])
qed

end
