(* ===== verification/PaperProperties.thy ===== *)
theory PaperProperties
  imports PaperMachine PaperViews CanonicalJson
begin

text \<open>
  The properties of the paper accounts: the books balance, operations are sequences of steps, a
  decision is recorded once, a cancellation releases its reservation once, and the view of a
  position is exact.
\<close>

section \<open>Operations as steps\<close>

lemma record_decision_steps:
  assumes "record_decision sha fetch now others args db = (r, db')"
  obtains (refused) e where "entry_request_of sha args = Inl e" "r = Inl e" "db' = db"
  | (read) rq where "entry_request_of sha args = Inr rq" "db' = others 0 db"
      "existing_reply (er_account rq, er_decision rq) (er_hash rq) db' = map_sum id Some r"
  | (intent) rq o1 where "entry_request_of sha args = Inr rq"
      "transaction (open_entry sha rq (now 0)) (others 1 (others 0 db)) = (o1, db')"
      "(\<exists>e. r = Inl e) \<or> (\<exists>reply. o1 = Inr (Replied reply) \<and> r = Inr reply)"
  | (commit) rq ro pp s where "entry_request_of sha args = Inr rq"
      "transaction (open_entry sha rq (now 0)) (others 1 (others 0 db)) = (Inr (Opened ro), s)"
      "prepare_entry rq ro (fetch (rv_ticker ro)) = Inr pp"
      "transaction (commit_prepared sha rq ro pp (now 1)) (others 2 s) = (r, db')"
proof (cases "entry_request_of sha args")
  case (Inl e)
  with assms have "r = Inl e" "db' = db" by (simp_all add: record_decision_def)
  with Inl refused show thesis by blast
next
  case rq: (Inr rq)
  let ?k = "(er_account rq, er_decision rq)"
  obtain o1 s where t: "transaction (open_entry sha rq (now 0)) (others 1 (others 0 db)) = (o1, s)" by fastforce
  show thesis
  proof (cases "existing_reply ?k (er_hash rq) (others 0 db)")
    case (Inl e)
    with assms rq have "db' = others 0 db" "r = Inl e" by (simp_all add: record_decision_def Let_def)
    with Inl read [OF rq] show thesis by simp
  next
    case x: (Inr x)
    show thesis
    proof (cases x)
      case (Some reply)
      with assms rq x have "db' = others 0 db" "r = Inr reply" by (simp_all add: record_decision_def Let_def)
      with read [OF rq] x Some show thesis by simp
    next
      case None
      show thesis
      proof (cases o1)
        case (Inl e)
        with assms rq x None t have "db' = s" "r = Inl e" by (simp_all add: record_decision_def Let_def)
        with intent rq t show thesis by blast
      next
        case (Inr y)
        show thesis
        proof (cases y)
          case (Replied reply)
          with assms rq x None t Inr have "db' = s" "r = Inr reply" by (simp_all add: record_decision_def Let_def)
          with intent rq t Inr Replied show thesis by blast
        next
          case (Opened ro)
          show thesis
          proof (cases "prepare_entry rq ro (fetch (rv_ticker ro))")
            case (Inl e)
            with assms rq x None t \<open>o1 = Inr y\<close> Opened have "db' = s" "r = Inl e" by (simp_all add: record_decision_def Let_def)
            with intent rq t show thesis by blast
          next
            case (Inr pp)
            with assms rq x None t \<open>o1 = Inr y\<close> Opened
            have "transaction (commit_prepared sha rq ro pp (now 1)) (others 2 s) = (r, db')"
              by (simp add: record_decision_def Let_def)
            with commit rq t \<open>o1 = Inr y\<close> Opened Inr show thesis by blast
          qed
        qed
      qed
    qed
  qed
qed

lemma record_exit_steps:
  assumes "record_exit sha fetch now others args db = (r, db')"
  obtains (refused) e where "exit_request_of sha args = Inl e" "r = Inl e" "db' = db"
  | (read) rq where "exit_request_of sha args = Inr rq" "db' = others 0 db"
      "existing_reply (xq_account rq, xq_decision rq) (xq_hash rq) db' = map_sum id Some r"
  | (intent) rq o1 where "exit_request_of sha args = Inr rq"
      "transaction (open_exit rq (now 0)) (others 1 (others 0 db)) = (o1, db')"
      "(\<exists>e. r = Inl e) \<or> (\<exists>reply. o1 = Inr (ExitReplied reply) \<and> r = Inr reply)"
  | (commit) rq resumed ro pp s where "exit_request_of sha args = Inr rq"
      "transaction (open_exit rq (now 0)) (others 1 (others 0 db)) = (Inr (ExitOpened resumed ro), s)"
      "prepare_exit rq resumed ro (fetch (rv_ticker ro)) = Inr pp"
      "transaction (commit_exit rq ro pp (now 1)) (others 2 s) = (r, db')"
proof (cases "exit_request_of sha args")
  case (Inl e)
  with assms have "r = Inl e" "db' = db" by (simp_all add: record_exit_def)
  with Inl refused show thesis by blast
next
  case rq: (Inr rq)
  let ?k = "(xq_account rq, xq_decision rq)"
  obtain o1 s where t: "transaction (open_exit rq (now 0)) (others 1 (others 0 db)) = (o1, s)" by fastforce
  show thesis
  proof (cases "existing_reply ?k (xq_hash rq) (others 0 db)")
    case (Inl e)
    with assms rq have "db' = others 0 db" "r = Inl e" by (simp_all add: record_exit_def Let_def)
    with Inl read [OF rq] show thesis by simp
  next
    case x: (Inr x)
    show thesis
    proof (cases x)
      case (Some reply)
      with assms rq x have "db' = others 0 db" "r = Inr reply" by (simp_all add: record_exit_def Let_def)
      with read [OF rq] x Some show thesis by simp
    next
      case None
      show thesis
      proof (cases o1)
        case (Inl e)
        with assms rq x None t have "db' = s" "r = Inl e" by (simp_all add: record_exit_def Let_def)
        with intent rq t show thesis by blast
      next
        case (Inr y)
        show thesis
        proof (cases y)
          case (ExitReplied reply)
          with assms rq x None t Inr have "db' = s" "r = Inr reply" by (simp_all add: record_exit_def Let_def)
          with intent rq t Inr ExitReplied show thesis by blast
        next
          case (ExitOpened resumed ro)
          show thesis
          proof (cases "prepare_exit rq resumed ro (fetch (rv_ticker ro))")
            case (Inl e)
            with assms rq x None t \<open>o1 = Inr y\<close> ExitOpened have "db' = s" "r = Inl e" by (simp_all add: record_exit_def Let_def)
            with intent rq t show thesis by blast
          next
            case (Inr pp)
            with assms rq x None t \<open>o1 = Inr y\<close> ExitOpened
            have "transaction (commit_exit rq ro pp (now 1)) (others 2 s) = (r, db')"
              by (simp add: record_exit_def Let_def)
            with commit rq t \<open>o1 = Inr y\<close> ExitOpened Inr show thesis by blast
          qed
        qed
      qed
    qed
  qed
qed

lemma entry_intent_step: "transaction (open_entry sha rq now) db = (r, db') \<Longrightarrow> db' = paper_step sha (EntryIntentStep rq now) db"
  by (simp add: paper_step_def)

lemma entry_commit_step:
  "prepare_entry rq ro fetched = Inr pp \<Longrightarrow> transaction (commit_prepared sha rq ro pp now) db = (r, db') \<Longrightarrow>
     db' = paper_step sha (EntryStep rq ro fetched now) db"
  by (simp add: paper_step_def)

lemma exit_intent_step: "transaction (open_exit rq now) db = (r, db') \<Longrightarrow> db' = paper_step sha (ExitIntentStep rq now) db"
  by (simp add: paper_step_def)

lemma exit_commit_step:
  "prepare_exit rq resumed ro fetched = Inr pp \<Longrightarrow> transaction (commit_exit rq ro pp now) db = (r, db') \<Longrightarrow>
     db' = paper_step sha (ExitStep rq resumed ro fetched now) db"
  by (simp add: paper_step_def)

text \<open>
  What a call of \<open>record_decision\<close> or \<open>record_exit\<close> comes to, with what others do before each of
  its reads and writes as steps: arguments that are refused; the answer of the first read; the
  intent of this request; or that intent, which opened what the commit settles, and the commit of
  the same request on the quote of the opened ticker.
\<close>

definition entry_stepwise ::
    "(string \<Rightarrow> string) \<Rightarrow> (string \<Rightarrow> paper_quote res) \<Rightarrow> (nat \<Rightarrow> py_datetime) \<Rightarrow> (nat \<Rightarrow> paper_op list) \<Rightarrow> entry_args
       \<Rightarrow> paper_db \<Rightarrow> pyval res \<times> paper_db \<Rightarrow> bool" where
  "entry_stepwise sha fetch now ops args db out =
     (let run = (\<lambda>xs. fold (paper_step sha) xs db); r = fst out; db' = snd out in
      case entry_request_of sha args of
        Inl e \<Rightarrow> r = Inl e \<and> db' = db
      | Inr rq \<Rightarrow>
          db' = run (ops 0)
            \<and> existing_reply (er_account rq, er_decision rq) (er_hash rq) db' = map_sum id Some r
          \<or> db' = run (ops 0 @ ops 1 @ [EntryIntentStep rq (now 0)])
          \<or> (\<exists>ro s. transaction (open_entry sha rq (now 0)) (run (ops 0 @ ops 1)) = (Inr (Opened ro), s)
              \<and> db' = run (ops 0 @ ops 1 @ [EntryIntentStep rq (now 0)] @ ops 2
                  @ [EntryStep rq ro (fetch (rv_ticker ro)) (now 1)])))"

definition exit_stepwise ::
    "(string \<Rightarrow> string) \<Rightarrow> (string \<Rightarrow> paper_quote res) \<Rightarrow> (nat \<Rightarrow> py_datetime) \<Rightarrow> (nat \<Rightarrow> paper_op list) \<Rightarrow> exit_args
       \<Rightarrow> paper_db \<Rightarrow> pyval res \<times> paper_db \<Rightarrow> bool" where
  "exit_stepwise sha fetch now ops args db out =
     (let run = (\<lambda>xs. fold (paper_step sha) xs db); r = fst out; db' = snd out in
      case exit_request_of sha args of
        Inl e \<Rightarrow> r = Inl e \<and> db' = db
      | Inr rq \<Rightarrow>
          db' = run (ops 0)
            \<and> existing_reply (xq_account rq, xq_decision rq) (xq_hash rq) db' = map_sum id Some r
          \<or> db' = run (ops 0 @ ops 1 @ [ExitIntentStep rq (now 0)])
          \<or> (\<exists>resumed ro s. transaction (open_exit rq (now 0)) (run (ops 0 @ ops 1)) = (Inr (ExitOpened resumed ro), s)
              \<and> db' = run (ops 0 @ ops 1 @ [ExitIntentStep rq (now 0)] @ ops 2
                  @ [ExitStep rq resumed ro (fetch (rv_ticker ro)) (now 1)])))"

lemma record_decision_stepwise:
  "entry_stepwise sha fetch now ops args db
     (record_decision sha fetch now (\<lambda>i. fold (paper_step sha) (ops i)) args db)"
proof -
  let ?others = "\<lambda>i. fold (paper_step sha) (ops i)"
  obtain r db' where run: "record_decision sha fetch now ?others args db = (r, db')" by fastforce
  from run have "entry_stepwise sha fetch now ops args db (r, db')"
  proof (cases rule: record_decision_steps)
    case (intent rq o1)
    have "db' = fold (paper_step sha) (ops 0 @ ops 1 @ [EntryIntentStep rq (now 0)]) db"
      using entry_intent_step [OF intent(2)] by simp
    with intent(1) show ?thesis by (simp add: entry_stepwise_def Let_def)
  next
    case (commit rq ro pp s)
    have "db' = fold (paper_step sha) (ops 0 @ ops 1 @ [EntryIntentStep rq (now 0)] @ ops 2
        @ [EntryStep rq ro (fetch (rv_ticker ro)) (now 1)]) db"
      using entry_intent_step [OF commit(2)] entry_commit_step [OF commit(3,4)] by simp
    with commit(1,2) show ?thesis unfolding entry_stepwise_def Let_def by auto
  qed (simp_all add: entry_stepwise_def)
  with run show ?thesis by simp
qed

lemma record_exit_stepwise:
  "exit_stepwise sha fetch now ops args db
     (record_exit sha fetch now (\<lambda>i. fold (paper_step sha) (ops i)) args db)"
proof -
  let ?others = "\<lambda>i. fold (paper_step sha) (ops i)"
  obtain r db' where run: "record_exit sha fetch now ?others args db = (r, db')" by fastforce
  from run have "exit_stepwise sha fetch now ops args db (r, db')"
  proof (cases rule: record_exit_steps)
    case (intent rq o1)
    have "db' = fold (paper_step sha) (ops 0 @ ops 1 @ [ExitIntentStep rq (now 0)]) db"
      using exit_intent_step [OF intent(2)] by simp
    with intent(1) show ?thesis by (simp add: exit_stepwise_def Let_def)
  next
    case (commit rq resumed ro pp s)
    have "db' = fold (paper_step sha) (ops 0 @ ops 1 @ [ExitIntentStep rq (now 0)] @ ops 2
        @ [ExitStep rq resumed ro (fetch (rv_ticker ro)) (now 1)]) db"
      using exit_intent_step [OF commit(2)] exit_commit_step [OF commit(3,4)] by simp
    with commit(1,2) show ?thesis unfolding exit_stepwise_def Let_def by auto
  qed (simp_all add: exit_stepwise_def)
  with run show ?thesis by simp
qed

lemma record_decision_run:
  assumes "record_decision sha fetch now (\<lambda>i. fold (paper_step sha) (ops i)) args db = (r, db')"
  obtains xs where "db' = fold (paper_step sha) xs db"
proof -
  have out: "entry_stepwise sha fetch now ops args db (r, db')"
    using record_decision_stepwise [of sha fetch now ops args db] by (simp add: assms)
  show thesis
  proof (cases "entry_request_of sha args")
    case (Inl e)
    with out have "db' = fold (paper_step sha) [] db" by (simp add: entry_stepwise_def)
    then show thesis by (rule that)
  next
    case (Inr rq)
    with out that show thesis unfolding entry_stepwise_def Let_def fst_conv snd_conv Inr sum.case by blast
  qed
qed

section \<open>What a request hash covers\<close>

definition shown_amount :: "nat \<Rightarrow> dec option \<Rightarrow> pyval" where
  "shown_amount k v =
     (case v of None \<Rightarrow> PNone | Some d \<Rightarrow> (case scaled_text k d of Inl _ \<Rightarrow> PNone | Inr s \<Rightarrow> PStr s))"

text \<open>The text whose digest is the hash of a request.\<close>

definition request_text :: "entry_request \<Rightarrow> string" where
  "request_text rq = json_dumps (request_document (er_account rq) (er_decision rq) (er_opportunity rq) (er_revision rq)
     (er_action rq) (shown_amount 2 (er_quantity rq)) (shown_amount 6 (er_limit rq)) (er_tif rq))"

definition amounts_shown :: "entry_request \<Rightarrow> bool" where
  "amounts_shown rq = (pred_option (\<lambda>q. is_ok (scaled_text 2 q)) (er_quantity rq)
     \<and> pred_option (\<lambda>l. is_ok (scaled_text 6 l)) (er_limit rq) \<and> (er_action rq = Pass \<longrightarrow> er_tif rq = Ioc))"

lemma entry_request_text:
  assumes "entry_request_of sha args = Inr rq"
  shows "er_hash rq = sha (request_text rq) \<and> amounts_shown rq"
  using assms
  by (auto simp: entry_request_of_def Let_def bindE_eq_Inr request_text_def shown_amount_def amounts_shown_def
      split: if_splits option.splits paper_action.splits)

lemma shown_amount_field [simp]: "text_field (shown_amount k v)"
  by (simp add: shown_amount_def split: option.splits sum.splits)

lemma shown_amount_determines:
  assumes "shown_amount k v = shown_amount k w" "pred_option (\<lambda>d. is_ok (scaled_text k d)) v"
    "pred_option (\<lambda>d. is_ok (scaled_text k d)) w"
  shows "map_option dval v = map_option dval w"
proof (cases "v = None \<or> w = None")
  case True
  with assms show ?thesis by (auto simp: shown_amount_def is_ok_iff split: option.splits sum.splits)
next
  case False
  then obtain d e where de: "v = Some d" "w = Some e" by auto
  with assms obtain s where "scaled_text k d = Inr s" "scaled_text k e = Inr s"
    by (auto simp: shown_amount_def is_ok_iff)
  from scaled_text_reads [OF this(1)] scaled_text_reads [OF this(2)] de show ?thesis by auto
qed

text \<open>The text of a request in the order of its keys.\<close>

lemma request_document_text:
  "json_dumps (request_document account decision opportunity revision action quantity limit tif) =
     ''{'' @ json_str ''account_id'' @ '':'' @ json_dumps (PStr account)
     @ '','' @ json_str ''action'' @ '':'' @ json_dumps (PStr (paper_action_text action))
     @ '','' @ json_str ''decision_id'' @ '':'' @ json_dumps (PStr decision)
     @ '','' @ json_str ''limit_price'' @ '':'' @ json_dumps limit
     @ '','' @ json_str ''opportunity_id'' @ '':'' @ json_dumps (PStr opportunity)
     @ '','' @ json_str ''opportunity_revision'' @ '':'' @ json_dumps (PStr revision)
     @ '','' @ json_str ''quantity'' @ '':'' @ json_dumps quantity
     @ (if action = Execute \<and> tif = Gtc
        then '','' @ json_str ''time_in_force'' @ '':'' @ json_dumps (PStr (paper_tif_text tif)) else [])
     @ ''}''"
  by (simp add: request_document_def sort_items_def del: json_dumps.simps(5))

lemma request_text_determines:
  assumes "request_text rq = request_text rq'" "amounts_shown rq" "amounts_shown rq'"
  shows "er_opportunity rq = er_opportunity rq' \<and> er_revision rq = er_revision rq' \<and> er_action rq = er_action rq'
    \<and> map_option dval (er_quantity rq) = map_option dval (er_quantity rq')
    \<and> map_option dval (er_limit rq) = map_option dval (er_limit rq') \<and> er_tif rq = er_tif rq'"
proof -
  have part: "(json_dumps v @ X = json_dumps w @ Y) = (v = w \<and> X = Y)" if "text_field v" "text_field w" for v w X Y
    using json_fields.take_apart [OF that] by blast
  from assms(1) have "er_opportunity rq = er_opportunity rq'" "er_revision rq = er_revision rq'"
    and texts: "paper_action_text (er_action rq) = paper_action_text (er_action rq')"
      "shown_amount 2 (er_quantity rq) = shown_amount 2 (er_quantity rq')"
      "shown_amount 6 (er_limit rq) = shown_amount 6 (er_limit rq')"
    and tail: "(if er_action rq = Execute \<and> er_tif rq = Gtc then '','' @ json_str ''time_in_force'' @ '':''
        @ json_dumps (PStr (paper_tif_text (er_tif rq))) else []) @ ''}'' =
      (if er_action rq' = Execute \<and> er_tif rq' = Gtc then '','' @ json_str ''time_in_force'' @ '':''
        @ json_dumps (PStr (paper_tif_text (er_tif rq'))) else []) @ ''}''"
    by (simp_all only: request_text_def request_document_text same_append_eq part text_field.simps shown_amount_field pyval.inject)
  moreover have action: "er_action rq = er_action rq'"
    using texts(1) by (cases "er_action rq"; cases "er_action rq'") simp_all
  moreover have "map_option dval (er_quantity rq) = map_option dval (er_quantity rq')"
    "map_option dval (er_limit rq) = map_option dval (er_limit rq')"
    using shown_amount_determines texts(2,3) assms(2,3) by (simp_all add: amounts_shown_def)
  moreover have "er_tif rq = er_tif rq'"
    using tail action assms(2,3)
    by (cases "er_action rq"; cases "er_tif rq"; cases "er_tif rq'") (simp_all add: amounts_shown_def)
  ultimately show ?thesis by simp
qed

section \<open>What a recorded decision replies\<close>

lemma commit_recorded:
  assumes "transaction (commit_posting k h settle) db = (Inr reply, db')"
    and "\<And>acct p. account_of (fst k) db = Some acct \<Longrightarrow> settle acct db = Inr p \<Longrightarrow>
      decision_key (ps_decision p) = k \<and> dc_request_hash (ps_decision p) = h"
  shows "existing_reply k h db' = Inr (Some reply)"
  using assms(1)
proof (cases rule: commit_posting_cases)
  case kept
  then show ?thesis by simp
next
  case (posted acct p reply')
  from assms(2) [OF posted(1,3)] have p: "decision_key (ps_decision p) = k" "dc_request_hash (ps_decision p) = h" by simp_all
  have "decision_of k db' = Some (ps_decision p)"
    using decision_added [of p db] posted(2,5) p(1) by simp
  with posted(6,7) p(2) show ?thesis by (simp add: existing_reply_def)
qed

lemma commit_prepared_recorded:
  "transaction (commit_prepared sha rq ro pp now) db = (Inr reply, db') \<Longrightarrow>
     existing_reply (er_account rq, er_decision rq) (er_hash rq) db' = Inr (Some reply)"
  unfolding commit_prepared_def by (erule commit_recorded) (use settle_entry_form in blast)

lemma commit_exit_recorded:
  "transaction (commit_exit rq ro pp now) db = (Inr reply, db') \<Longrightarrow>
     existing_reply (xq_account rq, xq_decision rq) (xq_hash rq) db' = Inr (Some reply)"
  unfolding commit_exit_def
  by (erule commit_recorded) (use settle_exit_form in \<open>auto simp: Let_def split: option.splits\<close>)

lemma open_entry_recorded:
  assumes "transaction (open_entry sha rq now) db = (Inr (Replied reply), db')"
  shows "existing_reply (er_account rq, er_decision rq) (er_hash rq) db' = Inr (Some reply)"
  using assms by (cases rule: open_entry_cases) (simp_all add: commit_prepared_recorded)

lemma open_exit_recorded:
  assumes "transaction (open_exit rq now) db = (Inr (ExitReplied reply), db')"
  shows "existing_reply (xq_account rq, xq_decision rq) (xq_hash rq) db' = Inr (Some reply)"
  using assms by (cases rule: open_exit_cases) simp_all

lemma record_decision_recorded:
  assumes "record_decision sha fetch now others args db = (Inr reply, db')" "entry_request_of sha args = Inr rq"
  shows "existing_reply (er_account rq, er_decision rq) (er_hash rq) db' = Inr (Some reply)"
  using assms(1)
proof (cases rule: record_decision_steps)
  case read
  with assms(2) show ?thesis by auto
next
  case (intent rq' o1)
  with assms(2) open_entry_recorded show ?thesis by auto
next
  case (commit rq' ro pp s)
  with assms(2) commit_prepared_recorded show ?thesis by auto
qed (use assms in simp)

lemma record_exit_recorded:
  assumes "record_exit sha fetch now others args db = (Inr reply, db')" "exit_request_of sha args = Inr rq"
  shows "existing_reply (xq_account rq, xq_decision rq) (xq_hash rq) db' = Inr (Some reply)"
  using assms(1)
proof (cases rule: record_exit_steps)
  case read
  with assms(2) show ?thesis by auto
next
  case (intent rq' o1)
  with assms(2) open_exit_recorded show ?thesis by auto
next
  case (commit rq' resumed ro pp s)
  with assms(2) commit_exit_recorded show ?thesis by auto
qed (use assms in simp)

lemma existing_reply_decision: "existing_reply k h db = Inr (Some reply) \<Longrightarrow> \<exists>d. decision_of k db = Some d \<and> dc_request_hash d = h"
  by (auto simp: existing_reply_def bindE_eq_Inr split: option.splits if_splits)

text \<open>The replay of a recorded request, and another request under its id, at any later time.\<close>

lemma record_decision_replay:
  assumes "existing_reply (er_account rq, er_decision rq) (er_hash rq) (others 0 db) = Inr (Some reply)"
    and "entry_request_of sha args = Inr rq"
  shows "record_decision sha fetch now others args db = (Inr reply, others 0 db)"
  using assms by (simp add: record_decision_def Let_def)

lemma record_decision_conflict:
  assumes "existing_reply (er_account rq, er_decision rq) h (others 0 db) = Inr (Some reply)" "h \<noteq> er_hash rq"
    and "entry_request_of sha args = Inr rq"
  shows "record_decision sha fetch now others args db = (Inl decision_conflict, others 0 db)"
proof -
  obtain d where "decision_of (er_account rq, er_decision rq) (others 0 db) = Some d" "dc_request_hash d = h"
    using existing_reply_decision [OF assms(1)] by blast
  then show ?thesis using assms(2,3) by (simp add: record_decision_def existing_reply_def Let_def)
qed

lemma recorded_later:
  assumes "paper_ok db" "existing_reply k h db = Inr (Some reply)"
  shows "existing_reply k h (fold (paper_step sha) ops db) = Inr (Some reply)"
proof -
  obtain d where "decision_of k db = Some d" using existing_reply_decision [OF assms(2)] by blast
  from existing_reply_kept [OF paper_books.run_le [OF assms(1)] this] show ?thesis using assms(2) by simp
qed

section \<open>Cancellations\<close>

lemma cancellation_later:
  assumes "paper_le db db'" "row_of cancellation_key k (pd_cancellations db) = Some c"
  shows "row_of cancellation_key k (pd_cancellations db') = Some c"
  by (rule row_of_extends [OF paper_leD(6) [OF assms(1)] assms(2)])

lemma cancelled_later:
  assumes "paper_le db db'" "cancellation_of_order k db = Some c"
  shows "cancellation_of_order k db' = Some c"
  using row_of_extends [OF paper_leD(6) [OF assms(1)]] assms(2) by (simp add: cancellation_of_order_def)

lemma order_later:
  assumes "paper_le db db'" "order_of k db = Some x"
  shows "order_of k db' = Some x"
  using row_of_extends [OF paper_leD(5) [OF assms(1)]] assms(2) by (simp add: order_of_def)

lemma account_later: "paper_le db db' \<Longrightarrow> account_of i db = Some a \<Longrightarrow> \<exists>b. account_of i db' = Some b"
  using paper_leD(9) by blast

lemma cancel_replay:
  assumes "account_of (strip a) db = Some acct" "strip a \<noteq> []" "strip x \<noteq> []" "strip c \<noteq> []"
    and "row_of cancellation_key (strip a, strip c) (pd_cancellations db) = Some cx" "cx_order cx = strip x"
      "serialize_cancellation cx = Inr reply"
  shows "cancel_order a x c now db = (Inr reply, db)"
  using assms by (simp add: cancel_order_def Let_def transaction_def)

lemma cancel_terminal:
  assumes "account_of (strip a) db = Some acct" "strip a \<noteq> []" "strip x \<noteq> []" "strip c \<noteq> []"
    and "row_of cancellation_key (strip a, strip c) (pd_cancellations db) = None"
    and "order_of (strip a, strip x) db = Some y" "cancellation_of_order (strip a, strip x) db = Some cx"
  shows "cancel_order a x c now db
    = (Inl (PaperOrderNotCancelable ''paper order is already terminal and not cancelable''), db)"
  using assms by (simp add: cancel_order_def cancel_guard_def Let_def transaction_def)

lemma cancel_released:
  assumes ok: "paper_ok db" and run: "cancel_order a x c now db = (Inr reply, db')"
    and new: "row_of cancellation_key (strip a, strip c) (pd_cancellations db) = None"
  obtains y acct b cx where "strip a \<noteq> []" "strip x \<noteq> []" "strip c \<noteq> []" "order_of (strip a, strip x) db = Some y"
    "cancelable y db" "account_of (strip a) db = Some acct" "account_of (strip a) db' = Some b" "released_account acct y b"
    "row_of cancellation_key (strip a, strip c) (pd_cancellations db') = Some cx" "cx_order cx = strip x"
    "serialize_cancellation cx = Inr reply" "cancellation_of_order (strip a, strip x) db' = Some cx"
    "paper_ok db'" "paper_le db db'"
  using run
proof (cases rule: cancel_order_cases)
  case (known c' reply')
  with new show thesis by simp
next
  case (released acct y reply')
  have ne: "strip a \<noteq> []" "strip x \<noteq> []" "strip c \<noteq> []" using run by (auto simp: cancel_order_def Let_def split: if_splits)
  have free: "cancellation_of_order (paper_order_key y) db = None" using released(6) by (simp add: cancelable_def)
  have owner: "go_account y = strip a" "go_order y = strip x" using released(2) by (auto simp: paper_order_key_def)
  note adv = release_order_advances [OF ok released(7,4,5) free]
  from released(7) show thesis
  proof (rule release_order_Inr)
    fix cx e b
    assume db': "db' = db\<lparr>pd_cancellations := pd_cancellations db @ [cx], pd_events := pd_events db @ [e],
        pd_accounts := map (\<lambda>y. if ac_id y = ac_id b then b else y) (pd_accounts db)\<rparr>"
      and cx: "cancellation_key cx = (go_account y, strip c)" "cancelled_order_key cx = paper_order_key y"
        "serialize_cancellation cx = Inr reply'" and b: "released_account acct y b"
    have "ac_id b = strip a" using b account_of_Some [OF released(4)] owner by (simp add: released_account_def)
    then have "account_of (strip a) db' = Some b"
      using released(4) account_of_map [of "strip a" b "pd_accounts db"] by (simp add: account_of_def db' owner)
    moreover have "row_of cancellation_key (strip a, strip c) (pd_cancellations db') = Some cx"
      using new cx(1) owner by (simp add: db' row_of_new)
    moreover have "cancellation_of_order (strip a, strip x) db' = Some cx"
      using free cx(2) released(2) by (simp add: cancellation_of_order_def db' row_of_new)
    moreover have "cx_order cx = strip x" using cx(2) released(2) by (simp add: cancelled_order_key_def)
    ultimately show thesis
      using that ne released adv b cx(3) owner by simp
  qed
qed simp

section \<open>Properties of the paper accounts\<close>

text \<open>
  C34: The books of the paper accounts balance. Whatever accounts are opened and whatever
  decisions, exits and cancellations callers record, in whatever order their transactions
  interleave: the decisions of an account are numbered without a gap and chain its cash from the
  starting cash to the balance; the balance and the cost of what is held are the starting cash
  and the profit realized; the reserved cash is that of the orders not cancelled and is covered
  by the balance; no position sells more than was bought, and its exits were charged its cost in
  proportion, rounded down, and wholly when it closes. No row is changed or removed but the
  totals of an account.
\<close>

theorem paper_books_balance:
  "paper_ok (fold (paper_step sha) ops empty_paper_db)
    \<and> paper_le (fold (paper_step sha) ops empty_paper_db) (fold (paper_step sha) (ops @ later) empty_paper_db)"
  using paper_books.run_inv [OF paper_ok_empty] paper_books.run_prefix_le [OF paper_ok_empty] by blast

text \<open>
  C37: Recording is a sequence of steps. With what other callers do between its transactions given
  as steps, a call of \<open>record_decision\<close> or of \<open>record_exit\<close> either refuses its arguments and leaves
  the tables as they are; or answers what its first read finds; or ends where the steps of the
  others end with the intent of its own request in its place, or with that intent and the commit
  of the same request, of what that intent opened and of the quote of its ticker. So the books
  balance under any number of concurrent callers.
\<close>

theorem paper_recording_is_steps:
  "entry_stepwise sha fetch now ops args db
      (record_decision sha fetch now (\<lambda>i. fold (paper_step sha) (ops i)) args db)
    \<and> exit_stepwise sha fetch now ops exit_args db
      (record_exit sha fetch now (\<lambda>i. fold (paper_step sha) (ops i)) exit_args db)"
  using record_decision_stepwise record_exit_stepwise by blast

text \<open>
  C36: A decision is recorded once. After a decision was recorded, whatever happened since, the same
  request returns the same reply. A request under its id with another opportunity, revision,
  action or time in force, or with a quantity or a limit price of another value, is refused with
  the decision conflict; neither changes anything. The one thing asked of SHA-256 is that it does
  not take the canonical texts of these two requests to the same digest.
\<close>

theorem paper_decision_is_recorded_once:
  fixes later :: "paper_op list"
  assumes "paper_ok db" "entry_request_of sha args = Inr rq"
    and "record_decision sha fetch now (\<lambda>i. fold (paper_step sha) (ops i)) args db = (Inr reply, db')"
    and "entry_request_of sha args' = Inr rq'" "er_account rq' = er_account rq" "er_decision rq' = er_decision rq"
    and "er_opportunity rq' \<noteq> er_opportunity rq \<or> er_revision rq' \<noteq> er_revision rq \<or> er_action rq' \<noteq> er_action rq
      \<or> er_tif rq' \<noteq> er_tif rq \<or> map_option dval (er_quantity rq') \<noteq> map_option dval (er_quantity rq)
      \<or> map_option dval (er_limit rq') \<noteq> map_option dval (er_limit rq)"
    and "sha (request_text rq') = sha (request_text rq) \<Longrightarrow> request_text rq' = request_text rq"
  defines "db'' \<equiv> fold (paper_step sha) later db'"
  shows "record_decision sha fetch' now' (\<lambda>_ s. s) args db'' = (Inr reply, db'')
    \<and> record_decision sha fetch' now' (\<lambda>_ s. s) args' db'' = (Inl decision_conflict, db'')"
proof -
  obtain xs where "db' = fold (paper_step sha) xs db" by (rule record_decision_run [OF assms(3)])
  then have "paper_ok db'" using paper_books.run_inv [OF assms(1)] by simp
  from recorded_later [OF this record_decision_recorded [OF assms(3,2)]]
  have r: "existing_reply (er_account rq, er_decision rq) (er_hash rq) db'' = Inr (Some reply)" by (simp add: db''_def)
  have "request_text rq' \<noteq> request_text rq"
    using request_text_determines [of rq' rq] entry_request_text [OF assms(2)] entry_request_text [OF assms(4)] assms(7) by auto
  then have "er_hash rq' \<noteq> er_hash rq"
    using entry_request_text [OF assms(2)] entry_request_text [OF assms(4)] assms(8) by auto
  then show ?thesis
    using record_decision_replay [of rq "\<lambda>_ s. s" db'' reply sha args] r assms(2)
      record_decision_conflict [of rq' "er_hash rq" "\<lambda>_ s. s" db'' reply sha args'] assms(4-6) by simp
qed

text \<open>
  C38: A cancellation releases the reservation of its order once. The order was open; the reserved
  cash of the account falls by exactly its reservation, and its balance stays. From then on,
  whatever happened since, the same cancellation returns the same reply and any other one of the
  order is refused; neither changes anything.
\<close>

theorem cancellation_releases_once:
  fixes later :: "paper_op list"
  assumes "paper_ok db" "cancel_order a x c now db = (Inr reply, db')"
    and "row_of cancellation_key (strip a, strip c) (pd_cancellations db) = None"
    and "row_of cancellation_key (strip a, strip other) (pd_cancellations (fold (paper_step sha) later db')) = None"
      "strip other \<noteq> []"
  defines "db'' \<equiv> fold (paper_step sha) later db'"
  shows "(\<exists>y acct b. order_of (strip a, strip x) db = Some y \<and> cancelable y db
      \<and> account_of (strip a) db = Some acct \<and> account_of (strip a) db' = Some b
      \<and> dval (ac_reserved_cash b) = dval (ac_reserved_cash acct) - dval (go_reserved y)
      \<and> ac_cash_balance b = ac_cash_balance acct)
    \<and> cancel_order a x c now' db'' = (Inr reply, db'')
    \<and> cancel_order a x other now' db''
        = (Inl (PaperOrderNotCancelable ''paper order is already terminal and not cancelable''), db'')"
  using assms(1-3)
proof (rule cancel_released)
  fix y acct b cx
  assume ne: "strip a \<noteq> []" "strip x \<noteq> []" "strip c \<noteq> []" and y: "order_of (strip a, strip x) db = Some y" "cancelable y db"
    and acct: "account_of (strip a) db = Some acct" "account_of (strip a) db' = Some b" "released_account acct y b"
    and cx: "row_of cancellation_key (strip a, strip c) (pd_cancellations db') = Some cx" "cx_order cx = strip x"
      "serialize_cancellation cx = Inr reply" "cancellation_of_order (strip a, strip x) db' = Some cx"
    and ok: "paper_ok db'" "paper_le db db'"
  have le: "paper_le db' db''" unfolding db''_def by (rule paper_books.run_le [OF ok(1)])
  obtain b' where b': "account_of (strip a) db'' = Some b'" using account_later [OF le acct(2)] by blast
  have "cancel_order a x c now' db'' = (Inr reply, db'')"
    by (rule cancel_replay [OF b' ne cancellation_later [OF le cx(1)] cx(2,3)])
  moreover have "cancel_order a x other now' db''
      = (Inl (PaperOrderNotCancelable ''paper order is already terminal and not cancelable''), db'')"
    by (rule cancel_terminal [OF b' ne(1,2) assms(5) assms(4) [folded db''_def]
          order_later [OF le order_later [OF ok(2) y(1)]] cancelled_later [OF le cx(4)]])
  ultimately show ?thesis using y acct by (auto simp: released_account_def)
qed

text \<open>The numbers of the view: the totals in units and what they are worth.\<close>

lemma position_numbers:
  assumes "paper_ok db" "p \<in> set (pd_positions db)"
    and "exits = filter (\<lambda>d. dc_account d = hp_account p \<and> dc_position d = Some (hp_position p) \<and> dc_side d = Some Sell)
      (pd_decisions db)"
    and "bought = dval (hp_quantity p)" and "entry = dval (hp_notional p) + dval (hp_fee p)"
    and "sold = (\<Sum>d\<leftarrow>exits. dval (dc_filled d))" and "proceeds = (\<Sum>d\<leftarrow>exits. dval (dc_notional d))"
    and "fees = (\<Sum>d\<leftarrow>exits. dval (dc_fee d))" and "charged = cost_share entry sold bought"
  obtains s n f c g e where "exits = exits_of (position_key p) db" "position_valid p"
    "foldE add_exit (0, 0, 0, 0, 0) (sort_key dc_sequence (exits_of (position_key p) db)) = Inr (s, n, f, c, g)"
    "units_of 2 ''entry_quantity'' (hp_quantity p) = Inr e" "0 \<le> sold" "sold \<le> bought" "sold = bought \<longrightarrow> charged = entry"
    "dval (from_scaled_int 2 s) = sold" "dval (from_scaled_int 2 (e - s)) = bought - sold"
    "dval (from_scaled_int 18 n) = proceeds" "dval (from_scaled_int 18 f) = fees" "dval (from_scaled_int 18 c) = charged"
    "dval (from_scaled_int 18 g) = proceeds - fees - charged"
    "e - s = 0 \<longleftrightarrow> sold = bought" "0 < e - s \<longleftrightarrow> sold < bought"
proof -
  let ?k = "position_key p"
  have exits: "exits = exits_of ?k db"
    unfolding assms(3) exits_of_def by (rule arg_cong [of _ _ "\<lambda>P. filter P _"]) (auto simp: position_key_def)
  obtain s n f c g where run: "foldE add_exit (0, 0, 0, 0, 0) (sort_key dc_sequence (exits_of ?k db)) = Inr (s, n, f, c, g)"
    and t: "of_int s / 10 ^ 2 = dval (sold_quantity ?k db)" "of_int n / 10 ^ 18 = proceeds" "of_int f / 10 ^ 18 = fees"
      "of_int c / 10 ^ 18 = dval (allocated_cost ?k db)" and g: "g = n - f - c"
    using position_totals [OF assms(1,2)] unfolding assms(7,8) exits by blast
  have p: "position_ok db p" "position_valid p" using assms(1,2) by (simp_all add: paper_ok_def position_ok_def Let_def)
  have sold: "of_int s / 10 ^ 2 = sold" using t(1) unfolding assms(6) exits sold_sum .
  have c: "of_int c / 10 ^ 18 = charged"
    using p(1) t(1,4) unfolding assms(4,5,9) sold [symmetric] by (simp add: position_ok_def entry_cost_def Let_def)
  have le: "sold \<le> bought" using p(1) t(1) sold unfolding assms(4) by (simp add: position_ok_def Let_def)
  have "0 \<le> dval (dc_filled d)" if "d \<in> set exits" for d
    using exits_complete [OF assms(1)] that unfolding exits
    by (auto simp: list_all_iff exit_complete_def decision_valid_def money_ok_def)
  then have ge: "0 \<le> sold" unfolding assms(6) by (intro sum_list_nonneg) auto
  have whole: "charged = entry" if "sold = bought"
    unfolding assms(9) that unfolding assms(4,5)
    by (rule cost_share_all) (use p(2) in \<open>simp_all add: position_valid_def positive_ok_def money_ok_def\<close>)
  obtain e where e: "units_of 2 ''entry_quantity'' (hp_quantity p) = Inr e"
    using within_scale_units [of 2 "hp_quantity p"] p(2) by (auto simp: position_valid_def positive_ok_def)
  have bought: "of_int e / 10 ^ 2 = bought" using units_of_eq [OF e] assms(4) by simp
  have amounts: "dval (from_scaled_int 2 s) = sold" "dval (from_scaled_int 2 (e - s)) = bought - sold"
    "dval (from_scaled_int 18 n) = proceeds" "dval (from_scaled_int 18 f) = fees" "dval (from_scaled_int 18 c) = charged"
    "dval (from_scaled_int 18 g) = proceeds - fees - charged"
    using sold bought t(2,3) c by (simp_all add: g diff_divide_distrib)
  have cmp: "e - s = 0 \<longleftrightarrow> sold = bought" "0 < e - s \<longleftrightarrow> sold < bought"
    unfolding sold [symmetric] bought [symmetric] by (auto simp: divide_less_cancel)
  show thesis by (rule that [OF exits p(2) run e ge le _ amounts cmp]) (use whole in blast)
qed

text \<open>
  C39: The view of a position is always shown, and its fields are exact. Read back, they are the
  quantity bought, its notional and its fee; the quantity its exits sold, which is at most the
  quantity bought, and what is left; the proceeds and the fees of the exits; their cost, which is
  the share of the entry cost in what was sold, rounded down to units, and all of it once everything
  is sold; and as profit the proceeds less fees and cost. The view is closed when everything is
  sold, else open and closable, and names the account, the position, its ticker and outcome and
  the exits in the order of the journal.
\<close>

theorem position_view_is_exact:
  assumes "paper_ok db" "p \<in> set (pd_positions db)"
    and "exits = filter (\<lambda>d. dc_account d = hp_account p \<and> dc_position d = Some (hp_position p) \<and> dc_side d = Some Sell)
      (pd_decisions db)"
    and "bought = dval (hp_quantity p)" and "entry = dval (hp_notional p) + dval (hp_fee p)"
    and "sold = (\<Sum>d\<leftarrow>exits. dval (dc_filled d))" and "proceeds = (\<Sum>d\<leftarrow>exits. dval (dc_notional d))"
    and "fees = (\<Sum>d\<leftarrow>exits. dval (dc_fee d))" and "charged = cost_share entry sold bought"
  shows "\<exists>view. serialize_position p db = Inr (PDict view) \<and> 0 \<le> sold \<and> sold \<le> bought
    \<and> (sold = bought \<longrightarrow> charged = entry)
    \<and> shows_amount view ''entry_quantity'' bought \<and> shows_amount view ''entry_notional'' (dval (hp_notional p))
    \<and> shows_amount view ''entry_fee'' (dval (hp_fee p))
    \<and> shows_amount view ''sold_quantity'' sold \<and> shows_amount view ''remaining_quantity'' (bought - sold)
    \<and> shows_amount view ''exit_notional'' proceeds \<and> shows_amount view ''exit_fee'' fees
    \<and> shows_amount view ''allocated_entry_cost'' charged \<and> shows_amount view ''realized_pnl'' (proceeds - fees - charged)
    \<and> map_of view ''status'' = Some (PStr (if sold = bought then ''closed'' else ''open''))
    \<and> map_of view ''closable'' = Some (PBool (sold < bought))
    \<and> map_of view ''account_id'' = Some (PStr (hp_account p)) \<and> map_of view ''position_id'' = Some (PStr (hp_position p))
    \<and> map_of view ''ticker'' = Some (PStr (hp_ticker p))
    \<and> map_of view ''outcome'' = Some (PStr (outcome_text (hp_outcome p)))
    \<and> map_of view ''exit_decision_ids'' = Some (PList (map (\<lambda>d. PStr (dc_decision d)) (sort_key dc_sequence exits)))"
proof -
  obtain s n f c g e where exits: "exits = exits_of (position_key p) db" and p: "position_valid p"
    and run: "foldE add_exit (0, 0, 0, 0, 0) (sort_key dc_sequence (exits_of (position_key p) db)) = Inr (s, n, f, c, g)"
      "units_of 2 ''entry_quantity'' (hp_quantity p) = Inr e"
    and bounds: "0 \<le> sold" "sold \<le> bought" "sold = bought \<longrightarrow> charged = entry"
    and amounts: "dval (from_scaled_int 2 s) = sold" "dval (from_scaled_int 2 (e - s)) = bought - sold"
      "dval (from_scaled_int 18 n) = proceeds" "dval (from_scaled_int 18 f) = fees" "dval (from_scaled_int 18 c) = charged"
      "dval (from_scaled_int 18 g) = proceeds - fees - charged"
    and cmp: "e - s = 0 \<longleftrightarrow> sold = bought" "0 < e - s \<longleftrightarrow> sold < bought"
    by (rule position_numbers [OF assms])
  from position_view_fields [OF run(1) p run(2)] obtain view where
    v: "serialize_position p db = Inr (PDict view)" and fields: "\<And>key. pred_option
      (\<lambda>r. \<exists>x. r = Inr x \<and> map_of view key = Some x) (map_of (position_fields p e s n f c g
        (sort_key dc_sequence (exits_of (position_key p) db))) key)" by blast
  have "shows_amount view ''entry_quantity'' bought"
    by (rule shows_scaled [of 2 "hp_quantity p"]) (use fields [of "''entry_quantity''"] assms(4) in \<open>simp_all add: position_fields_def\<close>)
  moreover have "shows_amount view ''entry_notional'' (dval (hp_notional p))"
    by (rule shows_scaled [of 18 "hp_notional p"]) (use fields [of "''entry_notional''"] in \<open>simp_all add: position_fields_def money18_def\<close>)
  moreover have "shows_amount view ''entry_fee'' (dval (hp_fee p))"
    by (rule shows_scaled [of 18 "hp_fee p"]) (use fields [of "''entry_fee''"] in \<open>simp_all add: position_fields_def money18_def\<close>)
  moreover have "shows_amount view ''sold_quantity'' sold" "shows_amount view ''remaining_quantity'' (bought - sold)"
    by (rule shows_scaled [OF _ amounts(1)], use fields [of "''sold_quantity''"] in \<open>simp add: position_fields_def\<close>)
      (rule shows_scaled [OF _ amounts(2)], use fields [of "''remaining_quantity''"] in \<open>simp add: position_fields_def\<close>)
  moreover have "shows_amount view ''exit_notional'' proceeds" "shows_amount view ''exit_fee'' fees"
    by (rule shows_scaled [OF _ amounts(3)], use fields [of "''exit_notional''"] in \<open>simp add: position_fields_def money18_def\<close>)
      (rule shows_scaled [OF _ amounts(4)], use fields [of "''exit_fee''"] in \<open>simp add: position_fields_def money18_def\<close>)
  moreover have "shows_amount view ''allocated_entry_cost'' charged"
      "shows_amount view ''realized_pnl'' (proceeds - fees - charged)"
    by (rule shows_scaled [OF _ amounts(5)], use fields [of "''allocated_entry_cost''"] in \<open>simp add: position_fields_def money18_def\<close>)
      (rule shows_scaled [OF _ amounts(6)], use fields [of "''realized_pnl''"] in \<open>simp add: position_fields_def money18_def\<close>)
  ultimately show ?thesis
    using fields [of "''status''"] fields [of "''closable''"] fields [of "''account_id''"] fields [of "''position_id''"]
      fields [of "''ticker''"] fields [of "''outcome''"] fields [of "''exit_decision_ids''"] bounds cmp
    by (intro exI [of _ view]) (simp add: v position_fields_def exits)
qed

end
