(* ===== verification/PaperLists.thy ===== *)
theory PaperLists
  imports PaperMachine PaperViews
begin

text \<open>
  The lists of the service always answer: every recorded decision can be shown, because the
  transaction that recorded it showed it, and the rows shown with it do not change any more; the
  other rows can be shown because the constraints of their tables hold.
\<close>

section \<open>Decisions\<close>

definition decisions_shown :: "paper_db \<Rightarrow> bool" where
  "decisions_shown db = (\<forall>d \<in> set (pd_decisions db). is_ok (serialize_decision d db))"

definition shows_new :: "paper_db \<Rightarrow> paper_db \<Rightarrow> bool" where
  "shows_new db db' =
     (\<forall>d \<in> set (pd_decisions db'). d \<in> set (pd_decisions db) \<or> is_ok (serialize_decision d db'))"

lemma shows_new_same: "pd_decisions db' = pd_decisions db \<Longrightarrow> shows_new db db'"
  by (simp add: shows_new_def)

lemma shown_grows:
  assumes "paper_ok db" "decisions_shown db" "paper_le db db'" "shows_new db db'"
  shows "decisions_shown db'"
  unfolding decisions_shown_def
proof
  fix d assume "d \<in> set (pd_decisions db')"
  with assms(4) consider "d \<in> set (pd_decisions db)" | "is_ok (serialize_decision d db')" unfolding shows_new_def by blast
  then show "is_ok (serialize_decision d db')"
  proof cases
    case 1
    then have "decision_of (decision_key d) db = Some d"
      using assms(1) by (simp add: decision_of_def paper_ok_def paper_keys_unique_def row_of_key)
    from reply_kept [OF assms(3) this] 1 assms(2) show ?thesis by (simp add: decisions_shown_def)
  qed
qed

lemma commit_shows: "shows_new db (snd (transaction (commit_posting k h settle) db))"
proof -
  obtain r db' where run: "transaction (commit_posting k h settle) db = (r, db')" by fastforce
  then show ?thesis
    by (cases rule: commit_posting_cases) (use run in \<open>auto simp: shows_new_def is_ok_iff\<close>)
qed

lemma open_entry_shows: "shows_new db (snd (transaction (open_entry sha rq now) db))"
proof -
  obtain r db' where run: "transaction (open_entry sha rq now) db = (r, db')" by fastforce
  then show ?thesis
  proof (cases rule: open_entry_cases)
    case (interrupted i reply)
    from commit_shows [of db] interrupted(2) run show ?thesis unfolding commit_prepared_def by (metis snd_conv)
  next
    case (opened ro)
    with run show ?thesis by (intro shows_new_same) (simp add: add_intent_def insert_row_Inr)
  qed (use run in \<open>simp_all add: shows_new_same\<close>)
qed

lemma open_exit_shows: "shows_new db (snd (transaction (open_exit rq now) db))"
proof -
  obtain r db' where run: "transaction (open_exit rq now) db = (r, db')" by fastforce
  then show ?thesis
  proof (cases rule: open_exit_cases)
    case (opened ro)
    with run show ?thesis by (intro shows_new_same) (simp add: add_intent_def insert_row_Inr)
  qed (use run in \<open>simp_all add: shows_new_same\<close>)
qed

lemma create_account_shows: "shows_new db (snd (create_account fresh now name cash db))"
proof -
  have "pd_decisions db' = pd_decisions db" if "add_account a db = (r, db')" for a r db'
    using that by (auto simp: add_account_def insert_row_def split: if_splits)
  then show ?thesis
    by (intro shows_new_same) (auto simp: create_account_def Let_def bindA_def split: sum.splits prod.splits)
qed

lemma cancel_order_shows: "shows_new db (snd (cancel_order account order cancellation now db))"
proof -
  obtain r db' where run: "cancel_order account order cancellation now db = (r, db')" by fastforce
  then show ?thesis
  proof (cases rule: cancel_order_cases)
    case (released acct y reply)
    from released(7) have "pd_decisions db' = pd_decisions db" by (rule release_order_Inr) simp
    with run show ?thesis by (simp add: shows_new_same)
  qed (use run in \<open>simp_all add: shows_new_same\<close>)
qed

lemma paper_step_shows: "shows_new db (paper_step sha x db)"
  using commit_shows open_entry_shows open_exit_shows create_account_shows cancel_order_shows
  by (cases x) (auto simp: paper_step_def commit_prepared_def commit_exit_def shows_new_same split: sum.splits)

text \<open>The machine once more, with what its replies need.\<close>

interpretation paper_replies: monotone_machine "\<lambda>db. paper_ok db \<and> decisions_shown db" "paper_step sha" paper_le for sha
  by unfold_locales (use paper_step_advances shown_grows paper_step_shows paper_le_refl paper_le_trans in blast)+

lemma decisions_shown_empty: "decisions_shown empty_paper_db"
  by (simp add: decisions_shown_def empty_paper_db_def)

section \<open>Other rows\<close>

lemma serialize_account_ok: "account_valid a \<Longrightarrow> is_ok (serialize_account a)"
proof -
  assume "account_valid a"
  then have s: "within_scale 18 (ac_starting_cash a)" "within_scale 18 (ac_cash_balance a)" "within_scale 18 (ac_reserved_cash a)"
    by (simp_all add: account_valid_def money_ok_def)
  obtain c r where "units_of 18 ''cash_balance'' (ac_cash_balance a) = Inr c"
    "units_of 18 ''reserved_cash'' (ac_reserved_cash a) = Inr r"
    using within_scale_units s(2,3) by meson
  then show ?thesis unfolding serialize_account_def by (simp add: object_of_ok s texts_ok)
qed

lemma serialize_order_ok: "order_valid x \<Longrightarrow> is_ok (serialize_order x db)"
  unfolding serialize_order_def Let_def
  by (rule object_of_ok)
    (auto simp: order_valid_def positive_ok_def money_ok_def unit_price_ok_def intro!: texts_ok optional_value_ok)

lemma serialize_position_shown: "paper_ok db \<Longrightarrow> p \<in> set (pd_positions db) \<Longrightarrow> is_ok (serialize_position p db)"
proof -
  assume p: "paper_ok db" "p \<in> set (pd_positions db)"
  then have "position_valid p" by (simp add: paper_ok_def position_ok_def Let_def)
  with position_totals [OF p] position_view_ok show ?thesis by blast
qed

lemma list_of_account_ok:
  assumes "account_of a db \<noteq> None" "\<And>r. r \<in> set (rows db) \<Longrightarrow> is_ok (serialize r db)"
  shows "is_ok (list_of_account a rows owner position limit serialize db)"
proof -
  have "\<exists>ys. traverseE (\<lambda>r. serialize r db) (newest_first position limit (filter (\<lambda>r. owner r = a) (rows db))) = Inr ys"
    using assms(2) by (intro traverseE_total) (auto simp: newest_first_def is_ok_iff list_all_iff dest!: in_set_takeD)
  with assms(1) show ?thesis by (auto simp: list_of_account_def)
qed

lemma list_accounts_ok: "paper_ok db \<Longrightarrow> is_ok (list_accounts db)"
proof -
  assume "paper_ok db"
  then have "\<exists>ys. traverseE serialize_account (sort_key ac_created_at (pd_accounts db)) = Inr ys"
    by (intro traverseE_total) (auto simp: list_all_iff paper_ok_def account_ok_def serialize_account_ok simp flip: is_ok_iff)
  then show ?thesis by (auto simp: list_accounts_def)
qed

lemma lists_ok:
  assumes "paper_ok db" "decisions_shown db" "account_of a db \<noteq> None"
  shows "is_ok (list_accounts db) \<and> is_ok (list_decisions a n db) \<and> is_ok (list_orders a n db) \<and> is_ok (list_positions a n db)"
  unfolding list_decisions_def list_orders_def list_positions_def
  using assms
  by (intro conjI list_of_account_ok list_accounts_ok serialize_position_shown)
    (auto simp: decisions_shown_def paper_ok_def intro: serialize_order_ok)

text \<open>
  C40: The lists never fail. Whatever the accounts went through, the list of accounts, and the
  lists of the decisions, orders and positions of an account that exists, are answered for any
  limit: no stored figure is one that the replies refuse to write.
\<close>

theorem paper_lists_always_answer:
  assumes "account_of a (fold (paper_step sha) ops empty_paper_db) \<noteq> None"
  shows "is_ok (list_accounts (fold (paper_step sha) ops empty_paper_db))
    \<and> is_ok (list_decisions a n (fold (paper_step sha) ops empty_paper_db))
    \<and> is_ok (list_orders a n (fold (paper_step sha) ops empty_paper_db))
    \<and> is_ok (list_positions a n (fold (paper_step sha) ops empty_paper_db))"
  using paper_replies.run_inv [of empty_paper_db sha ops] paper_ok_empty decisions_shown_empty lists_ok [OF _ _ assms] by blast

end
