(* ===== verification/PaperSamples.thy ===== *)
theory PaperSamples
  imports PaperLiveness PaperProperties PaperLists
begin

text \<open>
  A sample account, an opportunity and a quote, and a database with a traded position: the inputs
  on which the properties of the paper accounts are applied.
\<close>

section \<open>An eligible decision\<close>

definition sample_sha :: "string \<Rightarrow> string" where
  "sample_sha s = replicate 64 (if CHR ''Z'' \<in> set s then CHR ''a'' else CHR ''b'')"

definition sample_opportunity :: opportunity_state where
  "sample_opportunity = \<lparr>os_stable_id = ''s'', os_document = PDict
     [(''id'', PStr ''o''), (''stable_id'', PStr ''s''), (''strategy'', PStr ''x''),
      (''positions_to_take'', PList [PDict [(''platform'', PStr ''kalshi''), (''action'', PStr ''BUY''),
        (''outcome'', PStr ''YES''), (''ticker'', PStr ''T'')]]),
      (''markets'', PList [PDict [(''platform'', PStr ''Kalshi''), (''id'', PStr ''T'')]])],
     os_active = True\<rparr>"

definition sample_entry :: "string \<Rightarrow> entry_args" where
  "sample_entry o1 = \<lparr>ea_account_id = ''acc'', ea_decision_id = ''d'', ea_opportunity_id = o1,
     ea_opportunity_revision = replicate 64 (CHR ''b''), ea_action = ''execute'', ea_quantity = PStr ''2'',
     ea_limit_price = PStr ''0.7'', ea_time_in_force = ''good_till_canceled''\<rparr>"

definition sample_account :: paper_account where
  "sample_account = \<lparr>ac_id = ''acc'', ac_name = ''n'', ac_currency = ''USD'', ac_starting_cash = Dec False 10 0,
     ac_cash_balance = Dec False 10 0, ac_reserved_cash = dzero, ac_journal_sequence = 0, ac_created_at = 0,
     ac_updated_at = 0\<rparr>"

definition sample_steps :: "paper_op list" where
  "sample_steps = [ScannerStep [sample_opportunity], AccountStep ''acc'' (Aware 0) ''n'' (PStr ''10'')]"

definition eligible_db :: paper_db where
  "eligible_db = empty_paper_db\<lparr>pd_opportunities := [sample_opportunity], pd_accounts := [sample_account]\<rparr>"

definition sample_quote :: paper_quote where
  "sample_quote = \<lparr>pq_market = \<lparr>pm_ticker = ''T'', pm_event_ticker = ''E'', pm_notional_value = Fin (Dec False 1 0),
       pm_price_level_structure = ''p'', pm_price_ranges = sample_ranges, pm_fee = Fin dzero,
       pm_fee_rule_version = ''v'', pm_fee_provenance = [], pm_fee_waiver_expiration = 100,
       pm_observed_at = 0, pm_fetched_at = 0, pm_evidence_hash = replicate 64 (CHR ''b''), pm_evidence_json = ''j''\<rparr>,
     pq_book = sample_paper_book\<lparr>pb_evidence_hash := replicate 64 (CHR ''b'')\<rparr>\<rparr>"

lemma sample_digest_text: "sha256_text (replicate 64 (CHR ''b''))" "sha256_text (replicate 64 (CHR ''a''))"
  by code_simp+

lemma sample_digests: "digests sample_sha"
  using sample_digest_text by (simp add: digests_def sample_sha_def)

lemma sample_quote_ok: "answer_ok (Inr sample_quote)"
  by (simp add: answer_ok_def quote_ok_def sample_quote_def sample_ranges_ok sample_digest_text)

lemma sample_cash: "parse_cash (PStr ''10'') ''starting_cash'' = Inr (Dec False 10 0)"
  by code_simp

lemma stripped_samples:
  "strip ''acc'' = ''acc''" "strip ''d'' = ''d''" "strip ''o'' = ''o''" "strip ''Z'' = ''Z''" "strip ''n'' = ''n''"
  "strip ''x'' = ''x''" "strip ''c'' = ''c''" "strip ''e'' = ''e''"
  "py_lower (strip (replicate 64 (CHR ''b''))) = replicate 64 (CHR ''b'')"
  by code_simp+

lemma sample_account_valid: "account_valid sample_account"
  by (simp add: account_valid_def sample_account_def not_blank_def money_ok_def within_scale_def dval_Dec dzero_def)

lemma sample_run: "fold (paper_step sample_sha) sample_steps empty_paper_db = eligible_db"
proof -
  have "utc_of (Aware 0) = 0" by (simp add: utc_of_def)
  with sample_account_valid show ?thesis
    by (simp add: sample_steps_def paper_step_def create_account_def Let_def stripped_samples sample_cash bindA_def add_account_def
        insert_row_def eligible_db_def empty_paper_db_def row_of_def sample_account_def)
qed

lemma eligible_db_ok: "paper_ok eligible_db"
  using paper_books.run_inv [OF paper_ok_empty, of sample_sha sample_steps] unfolding sample_run .

lemma eligible_account: "account_of ''acc'' eligible_db = Some sample_account"
  by (simp add: eligible_db_def account_of_def row_of_def sample_account_def)

lemma paper_lists_always_answer_witness:
  "is_ok (list_accounts eligible_db) \<and> is_ok (list_decisions ''acc'' 3 eligible_db)
    \<and> is_ok (list_orders ''acc'' 3 eligible_db) \<and> is_ok (list_positions ''acc'' 3 eligible_db)"
  using paper_lists_always_answer [of "''acc''" sample_sha sample_steps 3] unfolding sample_run by (simp add: eligible_account)

lemma sample_resolved:
  "case resolve_opportunity sample_sha ''o'' [sample_opportunity] of Inl _ \<Rightarrow> False
    | Inr r \<Rightarrow> rv_revision r = replicate 64 (CHR ''b'') \<and> rv_ticker r = ''T'' \<and> rv_strategy_version r = None"
  by code_simp

lemma sample_amounts:
  "parse_quantity (PStr ''2'') ''quantity'' = Inr (Dec False 2 0)"
  "parse_price (PStr ''0.7'') ''limit_price'' = Inr (Dec False 7 (-1))"
  "scaled_text 2 (Dec False 2 0) = Inr ''2.00''"
  by code_simp+

lemma sample_digits: "digit_char 7 = CHR ''7''" "digit_char 0 = CHR ''0''"
  by code_simp+

lemma sample_price_text: "scaled_text 6 (Dec False 7 (-1)) = Inr ''0.700000''"
  by (simp add: scaled_text_def decimal_string_def to_scaled_int_def from_scaled_int_def format_f_def format_abs_def nat_str.simps sample_digits)

definition sample_request :: "string \<Rightarrow> string \<Rightarrow> entry_request" where
  "sample_request o1 h = \<lparr>er_account = ''acc'', er_decision = ''d'', er_opportunity = o1,
     er_revision = replicate 64 (CHR ''b''), er_action = Execute, er_quantity = Some (Dec False 2 0),
     er_limit = Some (Dec False 7 (-1)), er_tif = Gtc, er_hash = h\<rparr>"

lemma sample_documents:
  "CHR ''Z'' \<notin> set (json_dumps (request_document ''acc'' ''d'' ''o'' (replicate 64 (CHR ''b'')) Execute
     (PStr ''2.00'') (PStr ''0.700000'') Gtc))"
  "CHR ''Z'' \<in> set (json_dumps (request_document ''acc'' ''d'' ''Z'' (replicate 64 (CHR ''b'')) Execute
     (PStr ''2.00'') (PStr ''0.700000'') Gtc))"
  by (simp_all add: request_document_def json_str_def json_char_def Let_def sort_items_def)

lemma sample_requests:
  "entry_request_of sample_sha (sample_entry ''o'') = Inr (sample_request ''o'' (replicate 64 (CHR ''b'')))"
  "entry_request_of sample_sha (sample_entry ''Z'') = Inr (sample_request ''Z'' (replicate 64 (CHR ''a'')))"
  using sample_documents
  by (simp_all add: entry_request_of_def sample_entry_def sample_request_def stripped_samples sample_digest_text
      paper_action_of_def paper_tif_of_def sample_amounts sample_price_text sample_sha_def Let_def)

lemma sample_ids_free: "ids_free sample_sha ''acc'' ''d'' eligible_db"
  by (simp add: ids_free_def position_of_def order_of_def row_of_def eligible_db_def empty_paper_db_def)

lemma sample_eligible:
  obtains ro where "resolve_for sample_sha (sample_request ''o'' h) eligible_db = Inr ro" "version_fits ro"
proof -
  obtain r where r: "resolve_opportunity sample_sha ''o'' [sample_opportunity] = Inr r"
    "rv_revision r = replicate 64 (CHR ''b'')" "rv_strategy_version r = None"
    using sample_resolved by (auto split: sum.splits)
  show thesis
    by (rule that [of r]) (simp_all add: resolve_for_def sample_request_def eligible_db_def r version_fits_def)
qed

lemma sample_new: "intent_of k eligible_db = None"
  by (simp add: intent_of_def row_of_def eligible_db_def empty_paper_db_def)

lemma sample_request_key: "er_account (sample_request o1 h) = ''acc''" "er_decision (sample_request o1 h) = ''d''"
  "er_hash (sample_request o1 h) = h"
  by (simp_all add: sample_request_def)


lemma sample_recorded:
  "\<exists>reply db'. record_decision sample_sha (\<lambda>_. Inr sample_quote) (\<lambda>_. Aware 0) (\<lambda>_ s. s) (sample_entry ''o'') eligible_db
       = (Inr reply, db')"
proof -
  let ?rq = "sample_request ''o'' (replicate 64 (CHR ''b''))"
  obtain ro where ro: "resolve_for sample_sha ?rq eligible_db = Inr ro" "version_fits ro" by (rule sample_eligible)
  from record_decision_total [OF eligible_db_ok sample_digests sample_requests(1), where acct = sample_account
      and ro = ro and fetch = "\<lambda>_. Inr sample_quote" and now = "\<lambda>_. Aware 0", unfolded sample_request_key,
      OF eligible_account sample_new ro sample_quote_ok sample_ids_free]
  show ?thesis by auto
qed

lemma no_steps: "(\<lambda>i. fold (paper_step sha) []) = (\<lambda>(i::nat) s. s)"
  by (simp add: fun_eq_iff)

lemma sample_request_texts:
  "sample_sha (request_text (sample_request ''o'' h)) = replicate 64 (CHR ''b'')"
  "sample_sha (request_text (sample_request ''Z'' h)) = replicate 64 (CHR ''a'')"
  using sample_documents by (simp_all add: request_text_def sample_request_def shown_amount_def sample_amounts sample_price_text sample_sha_def)

lemma paper_decision_is_recorded_once_witness:
  "\<exists>reply db'. record_decision sample_sha (\<lambda>_. Inr sample_quote) (\<lambda>_. Aware 0) (\<lambda>_ s. s) (sample_entry ''o'') eligible_db
       = (Inr reply, db')
     \<and> record_decision sample_sha (\<lambda>_. Inr sample_quote) (\<lambda>_. Aware 9) (\<lambda>_ s. s) (sample_entry ''o'') db' = (Inr reply, db')
     \<and> record_decision sample_sha (\<lambda>_. Inr sample_quote) (\<lambda>_. Aware 9) (\<lambda>_ s. s) (sample_entry ''Z'') db'
         = (Inl decision_conflict, db')"
proof -
  obtain reply db' where run: "record_decision sample_sha (\<lambda>_. Inr sample_quote) (\<lambda>_. Aware 0) (\<lambda>_ s. s)
      (sample_entry ''o'') eligible_db = (Inr reply, db')" using sample_recorded by blast
  let ?rq = "sample_request ''o'' (replicate 64 (CHR ''b''))" and ?rq' = "sample_request ''Z'' (replicate 64 (CHR ''a''))"
  have "er_opportunity ?rq' \<noteq> er_opportunity ?rq" by (simp add: sample_request_def)
  moreover have "sample_sha (request_text ?rq') \<noteq> sample_sha (request_text ?rq)" unfolding sample_request_texts by simp
  ultimately show ?thesis
    using run paper_decision_is_recorded_once [OF eligible_db_ok sample_requests(1), where ops = "\<lambda>_. []" and later = "[]"
      and fetch = "\<lambda>_. Inr sample_quote" and now = "\<lambda>_. Aware 0" and fetch' = "\<lambda>_. Inr sample_quote" and now' = "\<lambda>_. Aware 9",
      unfolded no_steps, OF run sample_requests(2), unfolded sample_request_key] by auto
qed

end
