(* ===== verification/PaperTrades.thy ===== *)
theory PaperTrades
  imports PaperSamples
begin

text \<open>
  An account that bought one contract of two at 0.60, left the other open at 0.70, and sold half
  of what it holds at 0.52: the sample on which cancellation and the view of a position are
  applied.
\<close>

section \<open>The rows\<close>

definition sample_hash :: string where
  "sample_hash = replicate 64 (CHR ''b'')"

definition traded_opportunity :: resolved_opportunity where
  "traded_opportunity = \<lparr>rv_opportunity_id = ''o'', rv_stable_id = ''s'', rv_strategy_key = ''x'',
     rv_strategy_version = None, rv_ticker = ''T'', rv_outcome = Yes, rv_snapshot = PNone, rv_revision = sample_hash\<rparr>"

definition bought_decision :: paper_decision where
  "bought_decision = \<lparr>dc_account = ''acc'', dc_decision = ''d'', dc_sequence = 1, dc_request_hash = sample_hash,
     dc_action = Execute, dc_resolved = traded_opportunity, dc_evidence = evidence_of None, dc_side = Some Buy,
     dc_position = None, dc_tif = Some Gtc, dc_quantity = Some (Dec False 2 0), dc_limit_price = Some (Dec False 7 (-1)),
     dc_status = Simulated Partial, dc_reason = ''r'', dc_formula_version = ''f'', dc_filled = Dec False 1 0,
     dc_remaining = Dec False 1 0, dc_average = Some (Dec False 6 (-1)), dc_notional = Dec False 6 (-1), dc_fee = dzero,
     dc_cost_basis = None, dc_pnl = None, dc_cash_before = Dec False 10 0, dc_cash_after = Dec False 94 (-1),
     dc_created_at = 0\<rparr>"

definition sold_decision :: paper_decision where
  "sold_decision = \<lparr>dc_account = ''acc'', dc_decision = ''e'', dc_sequence = 2, dc_request_hash = sample_hash,
     dc_action = Execute, dc_resolved = traded_opportunity, dc_evidence = evidence_of None, dc_side = Some Sell,
     dc_position = Some ''p'', dc_tif = Some Ioc, dc_quantity = Some (Dec False 5 (-1)),
     dc_limit_price = Some (Dec False 5 (-1)), dc_status = Simulated Filled, dc_reason = ''r'', dc_formula_version = ''f'',
     dc_filled = Dec False 5 (-1), dc_remaining = dzero, dc_average = Some (Dec False 52 (-2)),
     dc_notional = Dec False 26 (-2), dc_fee = dzero, dc_cost_basis = Some (Dec False 3 (-1)),
     dc_pnl = Some (Dec True 4 (-2)), dc_cash_before = Dec False 94 (-1), dc_cash_after = Dec False 966 (-2),
     dc_created_at = 1\<rparr>"

definition decided_intent :: "paper_decision \<Rightarrow> paper_intent" where
  "decided_intent d = \<lparr>it_account = dc_account d, it_decision = dc_decision d, it_request_hash = dc_request_hash d,
     it_action = dc_action d, it_resolved = dc_resolved d, it_side = dc_side d, it_position = dc_position d,
     it_tif = dc_tif d, it_quantity = dc_quantity d, it_limit_price = dc_limit_price d, it_created_at = 0\<rparr>"

definition held_position :: paper_position where
  "held_position = \<lparr>hp_account = ''acc'', hp_position = ''p'', hp_entry_decision = ''d'', hp_ticker = ''T'', hp_outcome = Yes,
     hp_quantity = Dec False 1 0, hp_notional = Dec False 6 (-1), hp_fee = dzero, hp_created_at = 0\<rparr>"

definition resting_order :: paper_order where
  "resting_order = \<lparr>go_account = ''acc'', go_order = ''x'', go_decision = ''d'', go_ticker = ''T'', go_outcome = Yes,
     go_side = Buy, go_tif = Gtc, go_quantity = Dec False 2 0, go_filled = Dec False 1 0, go_open = Dec False 1 0,
     go_limit_price = Dec False 7 (-1), go_decision_status = Simulated Partial, go_reserved = Dec False 7 (-1),
     go_created_at = 0\<rparr>"

definition traded_account :: paper_account where
  "traded_account = sample_account\<lparr>ac_cash_balance := Dec False 966 (-2), ac_reserved_cash := Dec False 7 (-1),
     ac_journal_sequence := 2\<rparr>"

definition traded_db :: paper_db where
  "traded_db = \<lparr>pd_accounts = [traded_account], pd_intents = [decided_intent bought_decision, decided_intent sold_decision],
     pd_decisions = [bought_decision, sold_decision], pd_fills = [], pd_positions = [held_position],
     pd_orders = [resting_order], pd_cancellations = [], pd_events = [opened_event resting_order], pd_opportunities = []\<rparr>"

section \<open>The books\<close>

lemma traded_values: "dval dzero = 0" "dval (Dec False 6 (-1)) = 3 / 5" "dval (Dec False 7 (-1)) = 7 / 10"
  "dval (Dec False 94 (-1)) = 47 / 5" "dval (Dec False 966 (-2)) = 483 / 50" "dval (Dec False 26 (-2)) = 13 / 50"
  "dval (Dec False 52 (-2)) = 13 / 25" "dval (Dec False 5 (-1)) = 1 / 2" "dval (Dec False 3 (-1)) = 3 / 10"
  "dval (Dec True 4 (-2)) = - 1 / 25" "dval (Dec False 10 0) = 10" "dval (Dec False 2 0) = 2" "dval (Dec False 1 0) = 1"
  "dval (Dec False (Suc 0) 0) = 1"
  by (simp_all add: dval_Dec)

lemmas traded_checks = money_ok_def positive_ok_def unit_price_ok_def within_scale_def not_blank_def dzero_def [THEN arg_cong, of dexp]

lemma evidence_of_None: "qe_market_hash (evidence_of None) = None" "qe_book_hash (evidence_of None) = None"
  by (simp_all add: evidence_of_def)

lemma sample_hash_ok: "sha256_text sample_hash"
  by (simp add: sample_hash_def sample_digest_text)

lemma traded_decisions_valid: "decision_valid bought_decision" "decision_valid sold_decision"
  by (simp_all add: decision_valid_def bought_decision_def sold_decision_def traded_checks traded_values evidence_of_None
      sample_hash_ok traded_opportunity_def decision_shape_def average_valid_def quantity_conserved_def cash_flow_def
      pnl_valid_def status_shape_def Let_def)

lemma traded_rows_valid: "order_valid resting_order" "position_valid held_position" "account_valid traded_account"
  by (simp_all add: order_valid_def resting_order_def position_valid_def held_position_def account_valid_def traded_account_def
      sample_account_def traded_checks traded_values)

lemma traded_exits: "exits_of (''acc'', ''p'') traded_db = [sold_decision]"
  by (simp add: exits_of_def traded_db_def bought_decision_def sold_decision_def)

lemma traded_sums: "dval (sold_quantity (''acc'', ''p'') traded_db) = 1 / 2"
  "dval (allocated_cost (''acc'', ''p'') traded_db) = 3 / 10"
  by (simp_all add: sold_sum allocated_sum traded_exits) (simp_all add: sold_decision_def basis_of_def traded_values)

lemma traded_rows_of: "decision_of (''acc'', ''d'') traded_db = Some bought_decision"
  "account_of ''acc'' traded_db = Some traded_account" "position_of (''acc'', ''p'') traded_db = Some held_position"
  "order_of (''acc'', ''x'') traded_db = Some resting_order" "cancellation_of_order k traded_db = None"
  by (simp_all add: decision_of_def account_of_def position_of_def order_of_def cancellation_of_order_def row_of_def traded_db_def
      decision_key_def position_key_def paper_order_key_def bought_decision_def traded_account_def sample_account_def
      held_position_def resting_order_def)

lemma traded_intents: "intent_agrees bought_decision traded_db" "intent_agrees sold_decision traded_db"
  by (simp_all add: intent_agrees_def intent_of_def row_of_def traded_db_def decision_key_def paper_intent_key_def
      decided_intent_def bought_decision_def sold_decision_def)

lemma traded_position_key: "position_key held_position = (''acc'', ''p'')" "hp_account held_position = ''acc''"
  "entry_key held_position = (''acc'', ''d'')" "entry_cost held_position = 3 / 5" "dval (hp_quantity held_position) = 1"
  by (simp_all add: position_key_def held_position_def entry_key_def entry_cost_def traded_values)

lemma traded_position_ok: "position_ok traded_db held_position"
  by (simp add: position_ok_def traded_rows_valid traded_position_key traded_rows_of traded_sums cost_share_def)

lemma traded_account_of: "ac_id traded_account = ''acc''" "ac_journal_sequence traded_account = 2"
  "dval (ac_starting_cash traded_account) = 10" "dval (ac_cash_balance traded_account) = 483 / 50"
  "dval (ac_reserved_cash traded_account) = 7 / 10"
  by (simp_all add: traded_account_def sample_account_def traded_values)

lemma traded_of: "decisions_of ''acc'' traded_db = [bought_decision, sold_decision]"
  "positions_of ''acc'' traded_db = [held_position]" "orders_of ''acc'' traded_db = [resting_order]"
  by (simp_all add: decisions_of_def positions_of_def orders_of_def traded_db_def bought_decision_def sold_decision_def
      held_position_def resting_order_def)

lemma traded_flows: "dc_sequence bought_decision = 1" "dc_sequence sold_decision = 2"
  "dval (dc_cash_before bought_decision) = 10" "dval (dc_cash_after bought_decision) = 47 / 5"
  "dval (dc_cash_before sold_decision) = 47 / 5" "dval (dc_cash_after sold_decision) = 483 / 50"
  "cash_flow bought_decision = - 3 / 5" "cash_flow sold_decision = 13 / 50"
  "realized bought_decision = 0" "realized sold_decision = - 1 / 25" "dval (go_reserved resting_order) = 7 / 10"
  by (simp_all add: bought_decision_def sold_decision_def cash_flow_def realized_def resting_order_def traded_values)

lemma traded_account_ok: "account_ok traded_db traded_account"
  by (simp add: account_ok_def traded_rows_valid traded_account_of traded_of traded_flows held_cost_def open_reservation_def
      traded_position_key traded_sums traded_rows_of upto.simps)

lemma traded_keys: "paper_keys_unique traded_db"
  by (simp add: paper_keys_unique_def traded_db_def decision_key_def bought_decision_def sold_decision_def)

lemma traded_exit_recorded: "exit_recorded traded_db bought_decision" "exit_recorded traded_db sold_decision"
  using traded_rows_of(3) by (simp_all add: exit_recorded_def bought_decision_def sold_decision_def)

lemma traded_owners: "dc_account bought_decision = ''acc''" "dc_account sold_decision = ''acc''"
  "order_decision_key resting_order = (''acc'', ''d'')"
  by (simp_all add: bought_decision_def sold_decision_def order_decision_key_def resting_order_def)

lemma traded_db_ok: "paper_ok traded_db"
  unfolding paper_ok_def
  by (intro conjI traded_keys; simp add: traded_db_def [THEN arg_cong, of pd_accounts] traded_db_def [THEN arg_cong, of pd_positions]
      traded_db_def [THEN arg_cong, of pd_decisions] traded_db_def [THEN arg_cong, of pd_orders]
      traded_db_def [THEN arg_cong, of pd_fills] traded_db_def [THEN arg_cong, of pd_cancellations]
      traded_account_ok traded_position_ok traded_decisions_valid traded_intents traded_exit_recorded traded_owners
      traded_rows_of traded_rows_valid)

section \<open>A cancellation\<close>

definition sample_cancellation :: paper_cancellation where
  "sample_cancellation = \<lparr>cx_account = ''acc'', cx_cancellation = ''c'', cx_order = ''x'', cx_released = Dec False 7 (-1),
     cx_status = ''cancelled'', cx_created_at = 5\<rparr>"

lemma sample_units: "units_of 18 f (Dec False 7 (-1)) = Inr 700000000000000000"
  by (simp add: to_scaled_int_Inr_iff traded_values)

lemma sample_cancellation_shown: "is_ok (serialize_cancellation sample_cancellation)"
  unfolding serialize_cancellation_def
  by (rule object_of_ok) (simp add: sample_cancellation_def texts_ok within_scale_def)

lemma sample_cancel_guard: "cancel_guard (''acc'', ''x'') traded_db = Inr resting_order"
  by (simp add: cancel_guard_def traded_rows_of) (simp add: resting_order_def traded_values)

lemma sample_cancellation_added: "add_cancellation sample_cancellation traded_db
    = (Inr (), traded_db\<lparr>pd_cancellations := [sample_cancellation]\<rparr>)"
  by (simp add: add_cancellation_def insert_row_Inr cancellation_valid_def sample_cancellation_def cancelled_order_key_def
      traded_rows_of traded_checks traded_values traded_flows) (simp add: traded_db_def row_of_def)

lemma sample_cancelled: "\<exists>reply db'. cancel_order ''acc'' ''x'' ''c'' (Aware 5) traded_db = (Inr reply, db')
    \<and> pd_cancellations db' = [sample_cancellation]"
proof -
  obtain reply where reply: "serialize_cancellation sample_cancellation = Inr reply"
    using sample_cancellation_shown by (auto simp: is_ok_iff)
  let ?c = "\<lparr>cx_account = go_account resting_order, cx_cancellation = ''c'', cx_order = go_order resting_order,
      cx_released = go_reserved resting_order, cx_status = ''cancelled'', cx_created_at = 5\<rparr>"
  have c: "?c = sample_cancellation" by (simp add: sample_cancellation_def resting_order_def)
  let ?e = "\<lparr>oe_account = go_account resting_order, oe_order = go_order resting_order, oe_sequence = 2,
      oe_type = ''cancelled'', oe_cancellation = Some ''c'', oe_quantity = go_open resting_order,
      oe_reserved = go_reserved resting_order, oe_created_at = 5\<rparr>"
  obtain t where e: "add_event ?e (traded_db\<lparr>pd_cancellations := [sample_cancellation]\<rparr>) = (Inr (), t)"
      "pd_cancellations t = [sample_cancellation]"
    by (simp add: add_event_def insert_row_Inr event_valid_def resting_order_def traded_checks traded_values traded_db_def
        order_of_def row_of_def paper_order_key_def cancellation_key_def sample_cancellation_def opened_event_def order_event_key_def)
  have u: "\<exists>s. update_account (traded_account\<lparr>ac_reserved_cash := from_scaled_int 18 0, ac_updated_at := 5\<rparr>) t = (Inr (), s)
      \<and> pd_cancellations s = pd_cancellations t" for t
    using traded_rows_valid(3) by (simp add: update_account_def account_valid_def money_ok_def)
  have "go_reserved resting_order = Dec False 7 (-1)" "ac_reserved_cash traded_account = Dec False 7 (-1)"
    by (simp_all add: resting_order_def traded_account_def)
  then have "\<exists>db'. release_order traded_account resting_order ''c'' 5 traded_db = (Inr reply, db')
      \<and> pd_cancellations db' = [sample_cancellation]"
    using sample_cancellation_added e u [of t] reply
    unfolding release_order_def Let_def c by (auto simp: bindA_eq_Inr liftE_eq_Inr sample_units)
  moreover have "row_of cancellation_key (''acc'', ''c'') (pd_cancellations traded_db) = None"
    by (simp add: traded_db_def row_of_def)
  moreover have "utc_of (Aware 5) = 5" by (simp add: utc_of_def)
  ultimately show ?thesis
    by (simp add: cancel_order_def stripped_samples traded_rows_of sample_cancel_guard transaction_def Let_def) auto
qed

lemma cancellation_releases_once_witness:
  "\<exists>reply db'. cancel_order ''acc'' ''x'' ''c'' (Aware 5) traded_db = (Inr reply, db')
     \<and> cancel_order ''acc'' ''x'' ''c'' (Aware 9) db' = (Inr reply, db')
     \<and> cancel_order ''acc'' ''x'' ''e'' (Aware 9) db'
         = (Inl (PaperOrderNotCancelable ''paper order is already terminal and not cancelable''), db')"
proof -
  obtain reply db' where run: "cancel_order ''acc'' ''x'' ''c'' (Aware 5) traded_db = (Inr reply, db')"
    and c: "pd_cancellations db' = [sample_cancellation]" using sample_cancelled by blast
  from cancellation_releases_once [OF traded_db_ok run, where later = "[]" and other = "''e''" and now' = "Aware 9"]
  show ?thesis
    using run by (auto simp: stripped_samples c row_of_def traded_db_def cancellation_key_def sample_cancellation_def)
qed

section \<open>The view of a position\<close>

lemma traded_filter:
  "filter (\<lambda>d. dc_account d = hp_account held_position \<and> dc_position d = Some (hp_position held_position)
     \<and> dc_side d = Some Sell) (pd_decisions traded_db) = [sold_decision]"
  by (simp add: traded_db_def bought_decision_def sold_decision_def held_position_def)

text \<open>Half of a contract bought for 0.60 was sold for 0.26: it cost 0.30, and 0.04 is lost.\<close>

lemma position_view_is_exact_witness:
  "\<exists>view. serialize_position held_position traded_db = Inr (PDict view)
    \<and> shows_amount view ''entry_quantity'' 1 \<and> shows_amount view ''sold_quantity'' (1 / 2)
    \<and> shows_amount view ''remaining_quantity'' (1 / 2) \<and> shows_amount view ''allocated_entry_cost'' (3 / 10)
    \<and> shows_amount view ''realized_pnl'' (- 1 / 25)
    \<and> map_of view ''status'' = Some (PStr ''open'') \<and> map_of view ''closable'' = Some (PBool True)
    \<and> map_of view ''exit_decision_ids'' = Some (PList [PStr ''e''])"
proof -
  have numbers: "dval (hp_quantity held_position) = 1" "dval (hp_notional held_position) + dval (hp_fee held_position) = 3 / 5"
    "(\<Sum>d\<leftarrow>[sold_decision]. dval (dc_filled d)) = 1 / 2" "(\<Sum>d\<leftarrow>[sold_decision]. dval (dc_notional d)) = 13 / 50"
    "(\<Sum>d\<leftarrow>[sold_decision]. dval (dc_fee d)) = 0" "cost_share (3 / 5) (1 / 2) 1 = 3 / 10" "dc_decision sold_decision = ''e''"
    by (simp_all add: held_position_def sold_decision_def traded_values cost_share_def)
  have "held_position \<in> set (pd_positions traded_db)" by (simp add: traded_db_def)
  from position_view_is_exact [OF traded_db_ok this refl refl refl refl refl refl refl]
  show ?thesis unfolding traded_filter numbers by (auto simp: numbers)
qed

end
