(* ===== verification/PrivateFrames.thy ===== *)
theory PrivateFrames
  imports KalshiModels
begin

text \<open>
  The private frames of \<open>services/venues/kalshi_v2_private_ws.py\<close>: orders, fills and market
  positions as the venue pushes them, parsed by readers that refuse anything inconsistent.
  A parser returns a record within its documented ranges, raises
  \<open>KalshiPrivateWSProtocolError\<close>, or lets the \<open>OverflowError\<close> of a timestamp pass.
\<close>

abbreviation pw_error :: "string \<Rightarrow> 'a res" where
  "pw_error m \<equiv> Inl (KalshiPrivateWSProtocolError m)"

definition pw_count_quantum :: int where "pw_count_quantum = -2"
definition pw_dollar_quantum :: int where "pw_dollar_quantum = -4"
definition int64_max :: int where "int64_max = 2 ^ 63 - 1"

lemma int64_max_code [code]: "int64_max = 9223372036854775807"
  by (simp add: int64_max_def)

section \<open>Field readers\<close>

definition pw_mapping :: "pyval \<Rightarrow> string \<Rightarrow> pydict res" where
  "pw_mapping v field = as_dict v (KalshiPrivateWSProtocolError (field @ '' must be an object''))"

definition pw_text :: "pydict \<Rightarrow> string \<Rightarrow> string res" where
  "pw_text p field =
     bindE (as_text (py_get p field) (KalshiPrivateWSProtocolError (field @ '' must be a non-empty string''))) (\<lambda>s.
     if strip s = [] then pw_error (field @ '' must be a non-empty string'') else Inr (strip s))"

definition pw_optional_text :: "pydict \<Rightarrow> string \<Rightarrow> string option res" where
  "pw_optional_text p field =
     (case py_get p field of
        PNone \<Rightarrow> Inr None
      | PStr s \<Rightarrow> if strip s = [] then pw_error (field @ '' must be a non-empty string when present'')
                  else Inr (Some (strip s))
      | _ \<Rightarrow> pw_error (field @ '' must be a non-empty string when present''))"

subsection \<open>\<open>uuid.UUID(text)\<close>\<close>

text \<open>\<open>s.replace(p, "")\<close> for a non-empty \<open>p\<close>\<close>

function remove_text :: "string \<Rightarrow> string \<Rightarrow> string" where
  "remove_text p [] = []"
| "remove_text p (c # cs) =
     (if p \<noteq> [] \<and> startswith (c # cs) p then remove_text p (drop (length p) (c # cs))
      else c # remove_text p cs)"
  by pat_completeness auto
termination
  by (relation "measure (\<lambda>(_, s). length s)") (auto simp: Suc_le_eq)

definition hex_digit :: "char \<Rightarrow> bool" where
  "hex_digit c = (let n = (of_char c :: nat) in is_digit c \<or> 65 \<le> n \<and> n \<le> 70 \<or> 97 \<le> n \<and> n \<le> 102)"

text \<open>Hexadecimal digits with single underscores between them; \<open>after\<close>: a digit has just been read.\<close>

fun hex_body :: "bool \<Rightarrow> string \<Rightarrow> bool" where
  "hex_body after [] = after"
| "hex_body after (c # cs) =
     (if hex_digit c then hex_body True cs else c = CHR ''_'' \<and> after \<and> hex_body False cs)"

text \<open>\<open>int(text, 16)\<close> succeeds: spaces around, a sign, a \<open>0x\<close> prefix that may end in an underscore.\<close>

definition hex_int_ok :: "string \<Rightarrow> bool" where
  "hex_int_ok text =
     (let s = strip text;
          u = (if s \<noteq> [] \<and> (hd s = CHR ''-'' \<or> hd s = CHR ''+'') then tl s else s)
      in if startswith u ''0x'' \<or> startswith u ''0X''
         then let v = drop 2 u in
           hex_body False (if v \<noteq> [] \<and> hd v = CHR ''_'' then tl v else v)
         else hex_body False u)"

definition strip_braces :: "string \<Rightarrow> string" where
  "strip_braces s =
     (let b = (\<lambda>c. c = CHR 0x7B \<or> c = CHR 0x7D) in rev (dropWhile b (rev (dropWhile b s))))"

definition uuid_ok :: "string \<Rightarrow> bool" where
  "uuid_ok s =
     (let h = filter (\<lambda>c. c \<noteq> CHR ''-'') (strip_braces (remove_text ''uuid:'' (remove_text ''urn:'' s)))
      in length h = 32 \<and> hex_int_ok h)"

definition pw_uuid :: "pydict \<Rightarrow> string \<Rightarrow> string res" where
  "pw_uuid p field =
     bindE (pw_text p field) (\<lambda>s. if uuid_ok s then Inr s else pw_error (field @ '' must be a UUID''))"

subsection \<open>Tickers, integers, booleans, decimals, directions\<close>

definition pw_ticker :: "pydict \<Rightarrow> string \<Rightarrow> string res" where
  "pw_ticker p field =
     bindE (pw_text p field) (\<lambda>s. if market_ticker_text s then Inr s else pw_error (field @ '' is invalid''))"

definition pw_integer :: "pyval \<Rightarrow> string \<Rightarrow> int \<Rightarrow> int \<Rightarrow> int res" where
  "pw_integer v field minimum maximum =
     (let e = KalshiPrivateWSProtocolError
            (field @ '' must be an integer between '' @ int_str minimum @ '' and '' @ int_str maximum) in
      bindE (as_int v e) (\<lambda>i. if minimum \<le> i \<and> i \<le> maximum then Inr i else Inl e))"

text \<open>For evaluation: the message is only built when it is raised.\<close>

lemma pw_integer_code [code]:
  "pw_integer v field minimum maximum =
     (case v of PInt i \<Rightarrow>
        if minimum \<le> i \<and> i \<le> maximum then Inr i
        else pw_error (field @ '' must be an integer between '' @ int_str minimum @ '' and '' @ int_str maximum)
      | _ \<Rightarrow> pw_error (field @ '' must be an integer between '' @ int_str minimum @ '' and '' @ int_str maximum))"
  by (simp add: pw_integer_def as_int_def split: pyval.split)

definition pw_optional_subaccount :: "pydict \<Rightarrow> string \<Rightarrow> int option res" where
  "pw_optional_subaccount p field =
     (if py_get p field = PNone then Inr None
      else bindE (pw_integer (py_get p field) field 0 63) (\<lambda>i. Inr (Some i)))"

definition pw_boolean :: "pydict \<Rightarrow> string \<Rightarrow> bool res" where
  "pw_boolean p field =
     as_bool (py_get p field) (KalshiPrivateWSProtocolError (field @ '' must be a boolean''))"

definition pw_fixed :: "int \<Rightarrow> pydict \<Rightarrow> string \<Rightarrow> dec res" where
  "pw_fixed q p field =
     bindE (as_text (py_get p field) (KalshiPrivateWSProtocolError (field @ '' must be a fixed-point string''))) (\<lambda>raw.
     bindE (finite_dec (parse_decimal raw)
       (KalshiPrivateWSProtocolError (field @ '' must be a finite decimal''))) (\<lambda>d.
     if dexp d < q then pw_error (field @ '' has more precision than permitted'') else Inr d))"

definition pw_side :: "pydict \<Rightarrow> string \<Rightarrow> outcome res" where
  "pw_side p field =
     bindE (pw_text p field) (\<lambda>s. case outcome_of s of
        None \<Rightarrow> pw_error (field @ '' must be '' @ repr_str ''yes'' @ '' or '' @ repr_str ''no'')
      | Some v \<Rightarrow> Inr v)"

definition pw_book_side :: "pydict \<Rightarrow> book_side res" where
  "pw_book_side p =
     bindE (pw_text p ''book_side'') (\<lambda>s. case book_side_of s of
        None \<Rightarrow> pw_error (''book_side must be '' @ repr_str ''bid'' @ '' or '' @ repr_str ''ask'')
      | Some v \<Rightarrow> Inr v)"

definition validate_direction :: "outcome \<Rightarrow> book_side \<Rightarrow> unit res" where
  "validate_direction out b =
     (if (out = Yes) \<noteq> (b = Bid) then pw_error ''outcome_side and book_side are inconsistent'' else Inr ())"

subsection \<open>Timestamps\<close>

text \<open>Milliseconds since the epoch; this pattern allows at most six digits of fraction.\<close>

definition rfc3339_ms :: "string \<Rightarrow> string \<Rightarrow> int res" where
  "rfc3339_ms s field =
     (let m = field @ '' must be RFC3339 with a timezone'' in
      case rfc3339_match s of
        None \<Rightarrow> pw_error m
      | Some f \<Rightarrow>
          if excess_fraction f then pw_error m
          else bindE (parse_utc (KalshiPrivateWSProtocolError m) f) (\<lambda>t. Inr (t div 1000)))"

definition timestamp_pair :: "bool \<Rightarrow> pydict \<Rightarrow> string \<Rightarrow> string \<Rightarrow> (string option \<times> int option) res" where
  "timestamp_pair required p text_field ms_field =
     (let text_value = py_get p text_field; ms_value = py_get p ms_field in
      if text_value = PNone \<and> ms_value = PNone \<and> \<not> required then Inr (None, None) else
      bindE (pw_integer ms_value ms_field 1 int64_max) (\<lambda>ms.
      if text_value = PNone \<and> \<not> required then Inr (None, Some ms) else
      bindE (as_text text_value (KalshiPrivateWSProtocolError (text_field @ '' must accompany '' @ ms_field))) (\<lambda>s.
      if strip s = [] then pw_error (text_field @ '' must accompany '' @ ms_field) else
      bindE (rfc3339_ms s text_field) (\<lambda>t.
      if t \<noteq> ms then pw_error (text_field @ '' and '' @ ms_field @ '' are inconsistent'')
      else Inr (Some s, Some ms)))))"

section \<open>Orders\<close>

record private_order =
  po_order_id :: string
  po_user_id :: string
  po_ticker :: string
  po_status :: order_status
  po_outcome_side :: outcome
  po_book_side :: book_side
  po_yes_price :: dec
  po_fill_count :: dec
  po_remaining_count :: dec
  po_initial_count :: dec
  po_taker_fill_cost :: dec
  po_maker_fill_cost :: dec
  po_taker_fees :: dec
  po_maker_fees :: dec
  po_client_order_id :: string
  po_order_group_id :: "string option"
  po_created_time :: "string option"
  po_created_timestamp_ms :: "int option"
  po_last_update_time :: "string option"
  po_last_updated_timestamp_ms :: "int option"
  po_expiration_time :: "string option"
  po_expiration_timestamp_ms :: "int option"
  po_subaccount_number :: "int option"

definition private_order_from_payload :: "pydict \<Rightarrow> private_order res" where
  "private_order_from_payload p =
     bindE (pw_side p ''outcome_side'') (\<lambda>out.
     bindE (pw_book_side p) (\<lambda>book.
     bindE (validate_direction out book) (\<lambda>_.
     bindE (pw_side p ''side'') (\<lambda>legacy_side.
     bindE (if legacy_side \<noteq> out then Inr True
            else bindE (pw_boolean p ''is_yes'') (\<lambda>b. Inr (b \<noteq> (out = Yes)))) (\<lambda>conflict.
     if conflict then pw_error ''legacy order direction conflicts with canonical direction'' else
     bindE (pw_text p ''status'') (\<lambda>status.
     case order_status_of status of None \<Rightarrow> pw_error ''invalid order status'' | Some st \<Rightarrow>
     bindE (pw_fixed pw_dollar_quantum p ''yes_price_dollars'') (\<lambda>yes_price.
     bindE (pw_fixed pw_count_quantum p ''fill_count_fp'') (\<lambda>fill_count.
     bindE (pw_fixed pw_count_quantum p ''remaining_count_fp'') (\<lambda>remaining_count.
     bindE (pw_fixed pw_count_quantum p ''initial_count_fp'') (\<lambda>initial_count.
     bindE (pw_fixed pw_dollar_quantum p ''taker_fill_cost_dollars'') (\<lambda>taker_fill_cost.
     bindE (pw_fixed pw_dollar_quantum p ''maker_fill_cost_dollars'') (\<lambda>maker_fill_cost.
     bindE (pw_fixed pw_dollar_quantum p ''taker_fees_dollars'') (\<lambda>taker_fees.
     bindE (pw_fixed pw_dollar_quantum p ''maker_fees_dollars'') (\<lambda>maker_fees.
     if \<not> (0 \<le> dval yes_price \<and> dval yes_price \<le> 1)
     then pw_error ''yes_price_dollars must be between 0 and 1''
     else if list_ex (\<lambda>d. dval d < 0) [fill_count, remaining_count, initial_count,
            taker_fill_cost, maker_fill_cost, taker_fees, maker_fees]
     then pw_error ''order counts, costs, and fees cannot be negative'' else
     bindE (timestamp_pair True p ''created_time'' ''created_ts_ms'') (\<lambda>(created_time, created_ms).
     bindE (timestamp_pair False p ''last_update_time'' ''last_updated_ts_ms'') (\<lambda>(updated_time, updated_ms).
     bindE (timestamp_pair False p ''expiration_time'' ''expiration_ts_ms'') (\<lambda>(expiration_time, expiration_ms).
     bindE (pw_uuid p ''order_id'') (\<lambda>order_id.
     bindE (pw_uuid p ''user_id'') (\<lambda>user_id.
     bindE (pw_ticker p ''ticker'') (\<lambda>ticker.
     bindE (pw_text p ''client_order_id'') (\<lambda>client_order_id.
     bindE (pw_optional_text p ''order_group_id'') (\<lambda>order_group_id.
     bindE (pw_optional_subaccount p ''subaccount_number'') (\<lambda>subaccount.
     Inr \<lparr>po_order_id = order_id, po_user_id = user_id, po_ticker = ticker, po_status = st,
       po_outcome_side = out, po_book_side = book, po_yes_price = yes_price, po_fill_count = fill_count,
       po_remaining_count = remaining_count, po_initial_count = initial_count,
       po_taker_fill_cost = taker_fill_cost, po_maker_fill_cost = maker_fill_cost,
       po_taker_fees = taker_fees, po_maker_fees = maker_fees, po_client_order_id = client_order_id,
       po_order_group_id = order_group_id, po_created_time = created_time,
       po_created_timestamp_ms = created_ms, po_last_update_time = updated_time,
       po_last_updated_timestamp_ms = updated_ms, po_expiration_time = expiration_time,
       po_expiration_timestamp_ms = expiration_ms, po_subaccount_number = subaccount\<rparr>)))))))))))))))))))))))"

section \<open>Fills\<close>

record private_fill =
  pi_trade_id :: string
  pi_order_id :: string
  pi_market_ticker :: string
  pi_is_taker :: bool
  pi_outcome_side :: outcome
  pi_book_side :: book_side
  pi_yes_price :: dec
  pi_count :: dec
  pi_fee_cost :: dec
  pi_timestamp_ms :: int
  pi_post_position :: dec
  pi_client_order_id :: "string option"
  pi_subaccount :: "int option"

definition other_side :: "outcome \<Rightarrow> outcome" where
  "other_side s = (if s = Yes then No else Yes)"

definition private_fill_from_payload :: "pydict \<Rightarrow> private_fill res" where
  "private_fill_from_payload p =
     bindE (pw_side p ''outcome_side'') (\<lambda>out.
     bindE (pw_book_side p) (\<lambda>book.
     bindE (validate_direction out book) (\<lambda>_.
     bindE (pw_side p ''side'') (\<lambda>side.
     bindE (pw_text p ''action'') (\<lambda>act.
     if act \<notin> {''buy'', ''sell''}
     then pw_error (''action must be '' @ repr_str ''buy'' @ '' or '' @ repr_str ''sell'') else
     bindE (if out \<noteq> (if act = ''buy'' then side else other_side side) then Inr True
            else bindE (pw_side p ''purchased_side'') (\<lambda>s. Inr (s \<noteq> out))) (\<lambda>conflict.
     if conflict then pw_error ''legacy fill direction conflicts with canonical direction'' else
     bindE (pw_integer (py_get p ''ts'') ''ts'' 1 int64_max) (\<lambda>timestamp_seconds.
     bindE (pw_integer (py_get p ''ts_ms'') ''ts_ms'' 1 int64_max) (\<lambda>timestamp_ms.
     if timestamp_ms div 1000 \<noteq> timestamp_seconds then pw_error ''ts and ts_ms are inconsistent'' else
     bindE (pw_fixed pw_dollar_quantum p ''yes_price_dollars'') (\<lambda>yes_price.
     bindE (pw_fixed pw_count_quantum p ''count_fp'') (\<lambda>n.
     bindE (pw_fixed pw_dollar_quantum p ''fee_cost'') (\<lambda>fee.
     bindE (pw_fixed pw_count_quantum p ''post_position_fp'') (\<lambda>post_position.
     if \<not> (0 \<le> dval yes_price \<and> dval yes_price \<le> 1) \<or> dval n \<le> 0 \<or> dval fee < 0
     then pw_error ''invalid fill price, count, or fee'' else
     bindE (pw_uuid p ''trade_id'') (\<lambda>trade_id.
     bindE (pw_uuid p ''order_id'') (\<lambda>order_id.
     bindE (pw_ticker p ''market_ticker'') (\<lambda>market_ticker.
     bindE (pw_boolean p ''is_taker'') (\<lambda>is_taker.
     bindE (pw_optional_text p ''client_order_id'') (\<lambda>client_order_id.
     bindE (pw_optional_subaccount p ''subaccount'') (\<lambda>subaccount.
     Inr \<lparr>pi_trade_id = trade_id, pi_order_id = order_id, pi_market_ticker = market_ticker,
       pi_is_taker = is_taker, pi_outcome_side = out, pi_book_side = book, pi_yes_price = yes_price,
       pi_count = n, pi_fee_cost = fee, pi_timestamp_ms = timestamp_ms, pi_post_position = post_position,
       pi_client_order_id = client_order_id, pi_subaccount = subaccount\<rparr>))))))))))))))))))"

section \<open>Market positions\<close>

record private_position =
  pp_user_id :: string
  pp_market_ticker :: string
  pp_position :: dec
  pp_position_cost :: dec
  pp_realized_pnl :: dec
  pp_fees_paid :: dec
  pp_position_fee_cost :: dec
  pp_volume :: dec
  pp_subaccount :: "int option"

definition private_position_from_payload :: "pydict \<Rightarrow> private_position res" where
  "private_position_from_payload p =
     bindE (pw_fixed pw_count_quantum p ''position_fp'') (\<lambda>pos.
     bindE (pw_fixed pw_dollar_quantum p ''position_cost_dollars'') (\<lambda>position_cost.
     bindE (pw_fixed pw_dollar_quantum p ''realized_pnl_dollars'') (\<lambda>realized_pnl.
     bindE (pw_fixed pw_dollar_quantum p ''fees_paid_dollars'') (\<lambda>fees.
     bindE (pw_fixed pw_dollar_quantum p ''position_fee_cost_dollars'') (\<lambda>position_fee.
     bindE (pw_fixed pw_count_quantum p ''volume_fp'') (\<lambda>volume.
     if dval fees < 0 \<or> dval position_fee < 0 \<or> dval volume < 0
     then pw_error ''position fees and volume cannot be negative'' else
     bindE (pw_text p ''user_id'') (\<lambda>user_id.
     bindE (pw_ticker p ''market_ticker'') (\<lambda>market_ticker.
     bindE (pw_optional_subaccount p ''subaccount'') (\<lambda>subaccount.
     Inr \<lparr>pp_user_id = user_id, pp_market_ticker = market_ticker, pp_position = pos,
       pp_position_cost = position_cost, pp_realized_pnl = realized_pnl, pp_fees_paid = fees,
       pp_position_fee_cost = position_fee, pp_volume = volume, pp_subaccount = subaccount\<rparr>)))))))))"

section \<open>What the parsers guarantee and raise\<close>

definition direction_ok :: "outcome \<Rightarrow> book_side \<Rightarrow> bool" where
  "direction_ok out b = ((out = Yes) = (b = Bid))"

definition private_order_ok :: "private_order \<Rightarrow> bool" where
  "private_order_ok r =
     (direction_ok (po_outcome_side r) (po_book_side r) \<and> 0 \<le> dval (po_yes_price r) \<and> dval (po_yes_price r) \<le> 1
      \<and> list_all (\<lambda>d. 0 \<le> dval d \<and> pw_count_quantum \<le> dexp d) [po_fill_count r, po_remaining_count r, po_initial_count r]
      \<and> list_all (\<lambda>d. 0 \<le> dval d \<and> pw_dollar_quantum \<le> dexp d)
          [po_yes_price r, po_taker_fill_cost r, po_maker_fill_cost r, po_taker_fees r, po_maker_fees r]
      \<and> uuid_ok (po_order_id r) \<and> uuid_ok (po_user_id r) \<and> market_ticker_text (po_ticker r)
      \<and> (\<exists>s t. po_created_time r = Some s \<and> po_created_timestamp_ms r = Some t \<and> 1 \<le> t \<and> rfc3339_ms s ''created_time'' = Inr t))"

definition private_fill_ok :: "private_fill \<Rightarrow> bool" where
  "private_fill_ok r =
     (direction_ok (pi_outcome_side r) (pi_book_side r) \<and> 0 \<le> dval (pi_yes_price r) \<and> dval (pi_yes_price r) \<le> 1
      \<and> 0 < dval (pi_count r) \<and> pw_count_quantum \<le> dexp (pi_count r)
      \<and> 0 \<le> dval (pi_fee_cost r) \<and> pw_dollar_quantum \<le> dexp (pi_fee_cost r)
      \<and> uuid_ok (pi_trade_id r) \<and> uuid_ok (pi_order_id r) \<and> market_ticker_text (pi_market_ticker r)
      \<and> 1000 \<le> pi_timestamp_ms r \<and> pi_timestamp_ms r \<le> int64_max)"

definition private_position_ok :: "private_position \<Rightarrow> bool" where
  "private_position_ok r =
     (list_all (\<lambda>d. 0 \<le> dval d) [pp_fees_paid r, pp_position_fee_cost r, pp_volume r]
      \<and> list_all (\<lambda>d. pw_count_quantum \<le> dexp d) [pp_position r, pp_volume r]
      \<and> market_ticker_text (pp_market_ticker r) \<and> pp_user_id r \<noteq> [])"

definition is_private_error :: "exn \<Rightarrow> bool" where
  "is_private_error e = (case e of KalshiPrivateWSProtocolError _ \<Rightarrow> True | OverflowError _ \<Rightarrow> True | _ \<Rightarrow> False)"

lemma is_private_error_simps [simp]:
  "is_private_error (KalshiPrivateWSProtocolError m)" "is_private_error (OverflowError m)"
  by (simp_all add: is_private_error_def)

lemma raises_parse_utc [raises_intros]: "P e \<Longrightarrow> (\<And>m. P (OverflowError m)) \<Longrightarrow> raises P (parse_utc e f)"
  using parse_utc_Inl by (fastforce simp: raises_def split: sum.splits)

lemma raises_let [raises_intros]: "raises P (f x) \<Longrightarrow> raises P (let y = x in f y)"
  by simp

named_theorems private_raises \<open>the exceptions of the private readers\<close>

lemma raises_private_readers [private_raises]:
  "raises is_private_error (pw_mapping v f)" "raises is_private_error (pw_text p f)"
  "raises is_private_error (pw_optional_text p f)" "raises is_private_error (pw_uuid p f)"
  "raises is_private_error (pw_ticker p f)" "raises is_private_error (pw_integer v f a b)"
  "raises is_private_error (pw_optional_subaccount p f)" "raises is_private_error (pw_boolean p f)"
  "raises is_private_error (pw_fixed q p f)" "raises is_private_error (pw_side p f)"
  "raises is_private_error (pw_book_side p)" "raises is_private_error (validate_direction d s)"
  "raises is_private_error (rfc3339_ms s' f)"
  unfolding pw_mapping_def pw_text_def pw_optional_text_def pw_uuid_def pw_ticker_def pw_integer_def
    pw_optional_subaccount_def pw_boolean_def pw_fixed_def pw_side_def pw_book_side_def validate_direction_def
    rfc3339_ms_def
  by (intro raises_intros is_private_error_simps | simp split: pyval.splits)+

lemma raises_timestamp_pair [private_raises]: "raises is_private_error (timestamp_pair r p a b)"
  unfolding timestamp_pair_def
  by (intro raises_intros private_raises is_private_error_simps | simp)+

lemma raises_private_payloads [private_raises]:
  "raises is_private_error (private_order_from_payload p)"
  "raises is_private_error (private_fill_from_payload p)"
  "raises is_private_error (private_position_from_payload p)"
  unfolding private_order_from_payload_def private_fill_from_payload_def private_position_from_payload_def
  by (intro raises_intros private_raises is_private_error_simps | simp)+

text \<open>What a successful read guarantees.\<close>

lemma pw_fixed_ok: "pw_fixed q p f = Inr d \<Longrightarrow> q \<le> dexp d"
  by (auto simp: pw_fixed_def res_simps split: if_splits)

lemma pw_uuid_ok: "pw_uuid p f = Inr s \<Longrightarrow> uuid_ok s"
  by (auto simp: pw_uuid_def res_simps split: if_splits)

lemma pw_ticker_ok: "pw_ticker p f = Inr s \<Longrightarrow> market_ticker_text s"
  by (auto simp: pw_ticker_def res_simps split: if_splits)

lemma pw_text_ok: "pw_text p f = Inr s \<Longrightarrow> s \<noteq> []"
  by (auto simp: pw_text_def res_simps split: if_splits)

lemma validate_direction_ok: "validate_direction out b = Inr u \<Longrightarrow> direction_ok out b"
  by (auto simp: validate_direction_def direction_ok_def split: if_splits)

lemma pw_integer_ok: "pw_integer v f a b = Inr i \<Longrightarrow> a \<le> i \<and> i \<le> b"
  by (auto simp: pw_integer_def res_simps Let_def split: if_splits)

lemma timestamp_pair_ok:
  assumes "timestamp_pair True p f g = Inr (s, m)"
  shows "\<exists>x t. s = Some x \<and> m = Some t \<and> 1 \<le> t \<and> rfc3339_ms x f = Inr t"
  using assms unfolding timestamp_pair_def Let_def simp_thms if_False
  by (elim run_elims) (auto dest: pw_integer_ok simp: res_simps split: if_splits)

lemma private_order_from_payload_ok: "private_order_from_payload p = Inr r \<Longrightarrow> private_order_ok r"
  unfolding private_order_from_payload_def
  by (elim run_elims prod_case_InrE, drule Inr_inject, hypsubst, unfold private_order_ok_def,
      simp only: private_order.select_convs list.pred_inject list_ex_iff list.set ball_simps bex_simps not_less de_Morgan_disj simp_thms)
    (elim conjE, intro conjI; (assumption | blast intro: pw_fixed_ok pw_uuid_ok pw_ticker_ok validate_direction_ok timestamp_pair_ok))

lemma private_fill_from_payload_ok: "private_fill_from_payload p = Inr r \<Longrightarrow> private_fill_ok r"
  unfolding private_fill_from_payload_def
proof (elim run_elims, goal_cases)
  case (1 out book u side act conflict secs ms price n fee post trade order ticker taker client sub)
  then have "1 \<le> secs" "ms div 1000 = secs" "ms \<le> int64_max" using pw_integer_ok by auto
  then have "1000 \<le> ms" by linarith
  with 1 \<open>ms \<le> int64_max\<close> show ?case
    by (auto simp: private_fill_ok_def not_less dest: pw_fixed_ok pw_uuid_ok pw_ticker_ok validate_direction_ok)
qed

lemma private_position_from_payload_ok:
  "private_position_from_payload p = Inr r \<Longrightarrow> private_position_ok r"
  unfolding private_position_from_payload_def
  by (elim run_elims) (auto simp: private_position_ok_def not_less dest: pw_fixed_ok pw_ticker_ok pw_text_ok)

end
