(* ===== verification/PrivateLifecycle.thy ===== *)
theory PrivateLifecycle
  imports Lifecycle PrivateFrames
begin

text \<open>
  The private-only connection of \<open>services/venues/kalshi_v2_private_ws.py\<close>: one epoch at a time,
  three channels that are each acknowledged once, frames that are only taken from an
  acknowledged subscription and from one provider user, and an end of the epoch on anything
  malformed.
\<close>

datatype private_stream = UserOrdersStream | FillStream | MarketPositionsStream

fun stream_text :: "private_stream \<Rightarrow> string" where
  "stream_text UserOrdersStream = ''user_orders''"
| "stream_text FillStream = ''fill''"
| "stream_text MarketPositionsStream = ''market_positions''"

definition private_streams :: "private_stream list" where
  "private_streams = [UserOrdersStream, FillStream, MarketPositionsStream]"

datatype private_payload =
    OrderPayload private_order
  | FillPayload private_fill
  | PositionPayload private_position

record private_ws_frame =
  pf_epoch_id :: int
  pf_stream :: private_stream
  pf_sid :: int
  pf_payload :: private_payload

datatype private_outcome = PrivateAck | PrivateFrameOutcome private_ws_frame | PrivateStale

record 'k private_ws =
  pv_signer :: "'k signer"
  pv_principal_fingerprint :: string
  pv_websocket_url :: string
  pv_epoch_counter :: int
  pv_command_counter :: int
  pv_last_timestamp_ms :: int
  pv_current_epoch_id :: "int option"
  pv_pending :: "(int \<times> private_stream) list"
  pv_sids :: "(private_stream \<times> int) list"
  pv_provider_user_id :: "string option"
  pv_terminal_reason :: "string option"

definition make_private_ws ::
    "(string \<Rightarrow> string) \<Rightarrow> 'k signer \<Rightarrow> string \<Rightarrow> 'k private_ws res" where
  "make_private_ws digest signer principal_origin =
     bindE (kalshi_principal_fingerprint digest principal_origin (sg_key_id signer)) (\<lambda>fingerprint.
     bindE (kalshi_websocket_url_for_origin principal_origin) (\<lambda>url.
     Inr \<lparr>pv_signer = signer, pv_principal_fingerprint = fingerprint, pv_websocket_url = url,
       pv_epoch_counter = 0, pv_command_counter = 0, pv_last_timestamp_ms = 0,
       pv_current_epoch_id = None, pv_pending = [], pv_sids = [], pv_provider_user_id = None,
       pv_terminal_reason = None\<rparr>))"

definition subscriptions_acknowledged :: "'k private_ws \<Rightarrow> bool" where
  "subscriptions_acknowledged s =
     (pv_current_epoch_id s \<noteq> None \<and> pv_pending s = [] \<and> length (pv_sids s) = length private_streams)"

definition private_retry_allowed :: "'k private_ws \<Rightarrow> bool" where
  "private_retry_allowed s = False"

section \<open>Opening and closing an epoch\<close>

text \<open>The body of the \<open>for channel in _PRIVATE_CHANNELS\<close> loop.\<close>

fun subscribe_streams :: "private_stream list \<Rightarrow> 'k private_ws \<Rightarrow> ws_subscription_command list \<times> 'k private_ws" where
  "subscribe_streams [] s = ([], s)"
| "subscribe_streams (c # cs) s =
     (let n = pv_command_counter s + 1;
          command = \<lparr>sc_command_id = n, sc_channel = stream_text c,
            sc_payload = [(''id'', PInt n), (''cmd'', PStr ''subscribe''),
              (''params'', PDict [(''channels'', PList [PStr (stream_text c)])])]\<rparr>;
          (commands, s') = subscribe_streams cs
            (s\<lparr>pv_command_counter := n, pv_pending := AList.update n c (pv_pending s)\<rparr>)
      in (command # commands, s'))"

definition begin_private ::
    "('k \<Rightarrow> string \<Rightarrow> string) \<Rightarrow> pyval \<Rightarrow> ('k private_ws, ws_instructions) action" where
  "begin_private sign raw_timestamp_ms s =
     (case pw_integer raw_timestamp_ms ''timestamp_ms'' 1 int64_max of
        Inl e \<Rightarrow> (Inl e, s)
      | Inr timestamp_ms \<Rightarrow>
     if timestamp_ms \<le> pv_last_timestamp_ms s
     then (pw_error ''connection timestamp_ms must strictly increase'', s)
     else
     let n = pv_epoch_counter s + 1;
         (commands, s') = subscribe_streams private_streams
           (s\<lparr>pv_last_timestamp_ms := timestamp_ms, pv_epoch_counter := n, pv_current_epoch_id := Some n,
              pv_pending := [], pv_sids := [], pv_provider_user_id := None, pv_terminal_reason := None\<rparr>)
     in case signed_headers sign (pv_signer s') timestamp_ms ''GET'' ws_path of
         Inl e \<Rightarrow> (Inl e, s')
       | Inr hs \<Rightarrow>
           (Inr \<lparr>in_epoch_id = n, in_timestamp_ms = timestamp_ms, in_url = pv_websocket_url s',
              in_headers = hs, in_subscriptions = commands\<rparr>, s'))"

definition private_terminate :: "string \<Rightarrow> 'k private_ws \<Rightarrow> 'k private_ws" where
  "private_terminate reason s =
     s\<lparr>pv_terminal_reason := Some reason, pv_current_epoch_id := None, pv_pending := [], pv_sids := [],
       pv_provider_user_id := None\<rparr>"

definition private_disconnect :: "int \<Rightarrow> string \<Rightarrow> 'k private_ws \<Rightarrow> 'k private_ws" where
  "private_disconnect epoch_id reason s =
     (if pv_current_epoch_id s = Some epoch_id then private_terminate reason s else s)"

section \<open>Receiving a frame\<close>

definition receive_private_ack :: "pydict \<Rightarrow> ('k private_ws, unit) action" where
  "receive_private_ack p s =
     (case bindE (pw_integer (py_get p ''id'') ''subscription command id'' 1 int64_max) (\<lambda>command_id.
           bindE (pw_mapping (py_get p ''msg'') ''subscription msg'') (\<lambda>message.
           bindE (pw_text message ''channel'') (\<lambda>channel.
           bindE (pw_integer (py_get message ''sid'') ''subscription sid'' 1 int64_max) (\<lambda>sid.
           Inr (command_id, channel, sid))))) of
        Inl e \<Rightarrow> (Inl e, s)
      | Inr (command_id, channel, sid) \<Rightarrow>
     case map_of (pv_pending s) command_id of
        None \<Rightarrow> (pw_error ''invalid subscription acknowledgement'', s)
      | Some expected \<Rightarrow>
          if channel \<noteq> stream_text expected \<or> map_of (pv_sids s) expected \<noteq> None \<or> sid \<in> snd ` set (pv_sids s)
          then (pw_error ''invalid subscription acknowledgement'', s)
          else (Inr (), s\<lparr>pv_pending := AList.delete command_id (pv_pending s),
                          pv_sids := AList.update expected sid (pv_sids s)\<rparr>))"

definition private_frame_type :: "string \<Rightarrow> (private_stream \<times> (pydict \<Rightarrow> private_payload res)) option" where
  "private_frame_type t =
     (if t = ''user_order''
      then Some (UserOrdersStream, \<lambda>p. bindE (private_order_from_payload p) (\<lambda>r. Inr (OrderPayload r)))
      else if t = ''fill''
      then Some (FillStream, \<lambda>p. bindE (private_fill_from_payload p) (\<lambda>r. Inr (FillPayload r)))
      else if t = ''market_position''
      then Some (MarketPositionsStream, \<lambda>p. bindE (private_position_from_payload p) (\<lambda>r. Inr (PositionPayload r)))
      else None)"

text \<open>\<open>getattr(payload, "user_id", None)\<close>\<close>

fun payload_user_id :: "private_payload \<Rightarrow> string option" where
  "payload_user_id (OrderPayload r) = Some (po_user_id r)"
| "payload_user_id (FillPayload r) = None"
| "payload_user_id (PositionPayload r) = Some (pp_user_id r)"

definition receive_private_payload ::
    "int \<Rightarrow> private_stream \<Rightarrow> (pydict \<Rightarrow> private_payload res) \<Rightarrow> pydict \<Rightarrow> ('k private_ws, private_outcome) action" where
  "receive_private_payload epoch_id stream model p s =
     (case pw_integer (py_get p ''sid'') ''sid'' 1 int64_max of
        Inl e \<Rightarrow> (Inl e, s)
      | Inr sid \<Rightarrow>
     if map_of (pv_sids s) stream \<noteq> Some sid
     then (pw_error ''private frame sid does not match its acknowledgement'', s)
     else case bindE (pw_mapping (py_get p ''msg'') ''msg'') model of
        Inl e \<Rightarrow> (Inl e, s)
      | Inr payload \<Rightarrow>
          let outcome = Inr (PrivateFrameOutcome
                \<lparr>pf_epoch_id = epoch_id, pf_stream = stream, pf_sid = sid, pf_payload = payload\<rparr>)
          in case payload_user_id payload of
              None \<Rightarrow> (outcome, s)
            | Some u \<Rightarrow>
                if pv_provider_user_id s \<noteq> None \<and> pv_provider_user_id s \<noteq> Some u
                then (pw_error ''provider principal changed within the connection epoch'', s)
                else (outcome, s\<lparr>pv_provider_user_id := Some u\<rparr>))"

text \<open>The body of the \<open>try\<close>.\<close>

definition handle_private :: "int \<Rightarrow> pydict \<Rightarrow> ('k private_ws, private_outcome) action" where
  "handle_private epoch_id p s =
     (case pw_text p ''type'' of
        Inl e \<Rightarrow> (Inl e, s)
      | Inr frame_type \<Rightarrow>
     if frame_type = ''subscribed''
     then bindA (receive_private_ack p) (\<lambda>_ s. (Inr PrivateAck, s)) s
     else if frame_type = ''error''
     then (case bindE (pw_mapping (py_get p ''msg'') ''error msg'') (\<lambda>message.
                pw_integer (py_get message ''code'') ''error code'' 1 28) of
             Inl e \<Rightarrow> (Inl e, s)
           | Inr code \<Rightarrow> (pw_error ''Kalshi rejected a private subscription'',
                private_terminate (''kalshi_ws_error:'' @ int_str code) s))
     else case private_frame_type frame_type of
        None \<Rightarrow> (pw_error ''unknown private frame type'', s)
      | Some (stream, model) \<Rightarrow> receive_private_payload epoch_id stream model p s)"

definition private_receive :: "int \<Rightarrow> pydict \<Rightarrow> ('k private_ws, private_outcome) action" where
  "private_receive epoch_id p s =
     (if pv_current_epoch_id s \<noteq> Some epoch_id then (Inr PrivateStale, s)
      else case handle_private epoch_id p s of
          (Inr r, s') \<Rightarrow> (Inr r, s')
        | (Inl e, s') \<Rightarrow>
            if is_key_error e \<or> is_type_error e \<or> is_value_error e
            then (case e of KalshiPrivateWSProtocolError _ \<Rightarrow> Inl e | _ \<Rightarrow> pw_error ''malformed private frame'',
                  if pv_current_epoch_id s' = Some epoch_id
                  then private_terminate ''malformed_private_frame'' s' else s')
            else (Inl e, s'))"

section \<open>The invariant\<close>

text \<open>
  In an open epoch the streams that wait and those that are acknowledged partition the three,
  and no two subscriptions share an id; a closed connection remembers nothing.
\<close>

definition streams_ok :: "(int \<times> private_stream) list \<Rightarrow> (private_stream \<times> int) list \<Rightarrow> bool" where
  "streams_ok pending sids =
     (distinct (map fst pending) \<and> distinct (map snd pending @ map fst sids) \<and> distinct (map snd sids)
      \<and> set (map snd pending @ map fst sids) = set private_streams)"

definition private_ok :: "'k private_ws \<Rightarrow> bool" where
  "private_ok s =
     (0 \<le> pv_epoch_counter s \<and> pv_command_counter s = 3 * pv_epoch_counter s \<and> 0 \<le> pv_last_timestamp_ms s
      \<and> (case pv_current_epoch_id s of
           None \<Rightarrow> pv_pending s = [] \<and> pv_sids s = [] \<and> pv_provider_user_id s = None
         | Some e \<Rightarrow> e = pv_epoch_counter s \<and> pv_terminal_reason s = None
             \<and> streams_ok (pv_pending s) (pv_sids s)
             \<and> (\<forall>n \<in> fst ` set (pv_pending s). pv_command_counter s - 3 < n \<and> n \<le> pv_command_counter s)))"

lemma make_private_ws_ok: "make_private_ws digest k origin = Inr s \<Longrightarrow> private_ok s \<and> pv_epoch_counter s = 0"
  by (auto simp: make_private_ws_def res_simps private_ok_def)

lemma private_terminate_ok: "private_ok s \<Longrightarrow> private_ok (private_terminate reason s)"
  by (auto simp: private_ok_def private_terminate_def)

lemma private_terminate_fields [simp]:
  "pv_current_epoch_id (private_terminate r s) = None" "pv_sids (private_terminate r s) = []"
  "pv_pending (private_terminate r s) = []" "pv_terminal_reason (private_terminate r s) = Some r"
  "pv_epoch_counter (private_terminate r s) = pv_epoch_counter s"
  "pv_command_counter (private_terminate r s) = pv_command_counter s"
  "pv_last_timestamp_ms (private_terminate r s) = pv_last_timestamp_ms s"
  by (simp_all add: private_terminate_def)

lemma signed_ws_headers: "0 < ts \<Longrightarrow> \<exists>hs. signed_headers sign k ts ''GET'' ws_path = Inr hs"
proof -
  have "urlsplit ws_path = Inr ([], [], ws_path)" "py_upper (strip ''GET'') = ''GET''" by code_simp+
  then show "0 < ts \<Longrightarrow> ?thesis" by (simp add: signed_headers_def)
qed

text \<open>Opening an epoch: three fresh command ids, one per stream.\<close>

lemma begin_private_state:
  assumes "begin_private sign raw s = (Inr ins, s')"
  obtains ts where "1 \<le> ts" "pv_last_timestamp_ms s < ts"
    and "s' = s\<lparr>pv_last_timestamp_ms := ts, pv_epoch_counter := pv_epoch_counter s + 1,
      pv_current_epoch_id := Some (pv_epoch_counter s + 1), pv_command_counter := pv_command_counter s + 3,
      pv_pending := [(pv_command_counter s + 1, UserOrdersStream), (pv_command_counter s + 2, FillStream),
        (pv_command_counter s + 3, MarketPositionsStream)],
      pv_sids := [], pv_provider_user_id := None, pv_terminal_reason := None\<rparr>"
    and "in_epoch_id ins = pv_epoch_counter s + 1" "in_url ins = pv_websocket_url s"
    and "map sc_command_id (in_subscriptions ins) =
      [pv_command_counter s + 1, pv_command_counter s + 2, pv_command_counter s + 3]"
    and "map sc_channel (in_subscriptions ins) = map stream_text private_streams"
proof -
  obtain ts where ts: "pw_integer raw ''timestamp_ms'' 1 int64_max = Inr ts" "\<not> ts \<le> pv_last_timestamp_ms s"
    using assms by (auto simp: begin_private_def split: sum.splits if_splits)
  obtain hs where hs: "signed_headers sign (pv_signer s) ts ''GET'' ws_path = Inr hs"
    using signed_ws_headers [of ts sign "pv_signer s"] pw_integer_ok [OF ts(1)] by auto
  show thesis
    using assms ts hs pw_integer_ok [OF ts(1)]
    by (intro that [of ts]) (auto simp: begin_private_def private_streams_def Let_def)
qed

lemma begin_private_raises:
  assumes "begin_private sign raw s = (Inl e, s')"
  shows "s' = s"
proof (cases "pw_integer raw ''timestamp_ms'' 1 int64_max")
  case (Inl x)
  then show ?thesis using assms by (simp add: begin_private_def)
next
  case (Inr ts)
  obtain hs where "signed_headers sign (pv_signer s) ts ''GET'' ws_path = Inr hs"
    using signed_ws_headers [of ts sign "pv_signer s"] pw_integer_ok [OF Inr] by auto
  with Inr assms show ?thesis
    by (auto simp: begin_private_def private_streams_def Let_def split: if_splits)
qed

lemma begin_private_ok: "private_ok s \<Longrightarrow> private_ok (snd (begin_private sign raw s))"
proof (cases "begin_private sign raw s")
  case (Pair r s')
  assume ok: "private_ok s"
  show ?thesis
  proof (cases r)
    case (Inl e)
    then show ?thesis using Pair ok begin_private_raises by fastforce
  next
    case (Inr ins)
    with Pair show ?thesis
      using ok by (auto elim!: begin_private_state simp: private_ok_def streams_ok_def private_streams_def)
  qed
qed

text \<open>An acknowledgement moves one stream across the partition.\<close>

lemma receive_private_ack_cases:
  assumes "receive_private_ack p s = (r, s')"
  obtains (raised) e where "r = Inl e" "s' = s" "is_private_error e"
  | (acknowledged) n c sid where "r = Inr ()" "map_of (pv_pending s) n = Some c" "map_of (pv_sids s) c = None"
      "sid \<notin> snd ` set (pv_sids s)"
      "s' = s\<lparr>pv_pending := AList.delete n (pv_pending s), pv_sids := AList.update c sid (pv_sids s)\<rparr>"
proof -
  let ?m = "bindE (pw_integer (py_get p ''id'') ''subscription command id'' 1 int64_max) (\<lambda>command_id.
           bindE (pw_mapping (py_get p ''msg'') ''subscription msg'') (\<lambda>message.
           bindE (pw_text message ''channel'') (\<lambda>channel.
           bindE (pw_integer (py_get message ''sid'') ''subscription sid'' 1 int64_max) (\<lambda>sid.
           Inr (command_id, channel, sid)))))"
  have raise: "raises is_private_error ?m"
    by (intro raises_intros private_raises is_private_error_simps | simp)+
  show thesis
  proof (cases ?m)
    case (Inl e)
    with raise have "is_private_error e" by (rule raisesD)
    with Inl assms show ?thesis by (intro raised) (simp_all add: receive_private_ack_def)
  next
    case (Inr x)
    obtain n channel sid where x: "x = (n, channel, sid)" by (cases x)
    show ?thesis
      using assms Inr unfolding receive_private_ack_def x
      by (auto split: option.splits if_splits intro: raised acknowledged)
  qed
qed

lemma streams_ok_acknowledge:
  assumes "streams_ok pending sids" "map_of pending n = Some c" "sid \<notin> snd ` set sids"
  shows "streams_ok (AList.delete n pending) (AList.update c sid sids)"
  using assms partition_acknowledge [where pending = pending and acknowledged = sids and n = n and c = c]
  unfolding streams_ok_def by simp

text \<open>What a payload frame does.\<close>

lemma receive_private_payload_cases:
  assumes "receive_private_payload epoch_id c model p s = (r, s')"
    and "\<And>m. raises is_private_error (model m)"
  obtains (raised) e where "r = Inl e" "s' = s" "is_private_error e"
  | (taken) sid payload m where "r = Inr (PrivateFrameOutcome
        \<lparr>pf_epoch_id = epoch_id, pf_stream = c, pf_sid = sid, pf_payload = payload\<rparr>)"
      "map_of (pv_sids s) c = Some sid" "model m = Inr payload"
      "payload_user_id payload \<noteq> None \<Longrightarrow> pv_provider_user_id s \<in> {None, payload_user_id payload}"
      "s' = (if payload_user_id payload = None then s else s\<lparr>pv_provider_user_id := payload_user_id payload\<rparr>)"
proof (cases "pw_integer (py_get p ''sid'') ''sid'' 1 int64_max")
  case (Inl e)
  have "raises is_private_error (pw_integer (py_get p ''sid'') ''sid'' 1 int64_max)" by (rule private_raises)
  from raisesD [OF this Inl] Inl assms(1) show ?thesis
    by (intro raised) (simp_all add: receive_private_payload_def)
next
  case (Inr sid)
  let ?m = "bindE (pw_mapping (py_get p ''msg'') ''msg'') model"
  have raise: "raises is_private_error ?m" by (intro raises_intros private_raises assms(2))
  show ?thesis
  proof (cases ?m)
    case (Inl e)
    then have "is_private_error e" by (rule raisesD [OF raise])
    with assms(1) Inr Inl show ?thesis
      by (auto simp: receive_private_payload_def split: if_splits intro: raised)
  next
    case Payload: (Inr payload)
    then obtain m where m: "model m = Inr payload" by (auto simp: res_simps)
    show ?thesis
    proof (cases "map_of (pv_sids s) c = Some sid")
      case False
      then show ?thesis using assms(1) Inr by (auto simp: receive_private_payload_def intro: raised)
    next
      case sid: True
      show ?thesis
      proof (cases "payload_user_id payload")
        case None
        show ?thesis
          using assms(1) Inr Payload sid None m
          by (intro taken [of sid payload m]) (simp_all add: receive_private_payload_def)
      next
        case (Some u)
        show ?thesis
        proof (cases "pv_provider_user_id s \<in> {None, Some u}")
          case True
          then show ?thesis
            using assms(1) Inr Payload sid Some m
            by (intro taken [of sid payload m]) (auto simp: receive_private_payload_def)
        next
          case False
          then show ?thesis
            using assms(1) Inr Payload sid Some
            by (intro raised [of "KalshiPrivateWSProtocolError ''provider principal changed within the connection epoch''"])
              (auto simp: receive_private_payload_def)
        qed
      qed
    qed
  qed
qed

lemma private_frame_type_raises:
  "private_frame_type t = Some (c, model) \<Longrightarrow> raises is_private_error (model m)"
  by (auto simp: private_frame_type_def split: if_splits intro!: raises_intros private_raises)

text \<open>The body of the \<open>try\<close>, by what it did.\<close>

lemma handle_private_cases:
  assumes "handle_private e p s = (r, s')"
  obtains (raised) x where "r = Inl x" "s' = s" "is_private_error x"
  | (rejected) m code where "r = pw_error m" "s' = private_terminate (''kalshi_ws_error:'' @ int_str code) s" "1 \<le> code" "code \<le> 28"
  | (acknowledged) n c sid where "r = Inr PrivateAck" "map_of (pv_pending s) n = Some c" "map_of (pv_sids s) c = None"
      "sid \<notin> snd ` set (pv_sids s)"
      "s' = s\<lparr>pv_pending := AList.delete n (pv_pending s), pv_sids := AList.update c sid (pv_sids s)\<rparr>"
  | (taken) t c model sid payload m where "r = Inr (PrivateFrameOutcome
        \<lparr>pf_epoch_id = e, pf_stream = c, pf_sid = sid, pf_payload = payload\<rparr>)"
      "private_frame_type t = Some (c, model)" "map_of (pv_sids s) c = Some sid" "model m = Inr payload"
      "payload_user_id payload \<noteq> None \<Longrightarrow> pv_provider_user_id s \<in> {None, payload_user_id payload}"
      "s' = (if payload_user_id payload = None then s else s\<lparr>pv_provider_user_id := payload_user_id payload\<rparr>)"
proof (cases "pw_text p ''type''")
  case (Inl x)
  have "raises is_private_error (pw_text p ''type'')" by (rule private_raises)
  from raisesD [OF this Inl] Inl assms show ?thesis by (intro raised) (simp_all add: handle_private_def)
next
  case (Inr t)
  consider "t = ''subscribed''" | "t = ''error''" | "t \<noteq> ''subscribed''" "t \<noteq> ''error''" by blast
  then show ?thesis
  proof cases
    case 1
    obtain q s1 where ack: "receive_private_ack p s = (q, s1)" by fastforce
    then show ?thesis
    proof (cases rule: receive_private_ack_cases)
      case (raised x)
      with assms Inr 1 ack show ?thesis by (intro that(1)) (auto simp: handle_private_def bindA_def)
    next
      case (acknowledged n c sid)
      with assms Inr 1 ack show ?thesis by (intro that(3)) (auto simp: handle_private_def bindA_def)
    qed
  next
    case 2
    let ?m = "bindE (pw_mapping (py_get p ''msg'') ''error msg'') (\<lambda>message.
                pw_integer (py_get message ''code'') ''error code'' 1 28)"
    have raise: "raises is_private_error ?m" by (intro raises_intros private_raises)
    show ?thesis
    proof (cases ?m)
      case (Inl x)
      with raisesD [OF raise Inl] assms \<open>pw_text p ''type'' = Inr t\<close> 2 show ?thesis
        by (intro raised) (auto simp: handle_private_def)
    next
      case (Inr code)
      then have "1 \<le> code" "code \<le> 28" by (auto simp: res_simps dest: pw_integer_ok)
      with Inr assms \<open>pw_text p ''type'' = Inr t\<close> 2 show ?thesis
        by (intro rejected) (auto simp: handle_private_def)
    qed
  next
    case 3
    show ?thesis
    proof (cases "private_frame_type t")
      case None
      with assms Inr 3 show ?thesis by (intro raised) (auto simp: handle_private_def)
    next
      case (Some cm)
      obtain c model where cm: "cm = (c, model)" by fastforce
      have "receive_private_payload e c model p s = (r, s')"
        using assms Inr 3 Some cm by (simp add: handle_private_def)
      then show ?thesis
      proof (rule receive_private_payload_cases)
        show "\<And>m. raises is_private_error (model m)" using Some cm private_frame_type_raises by blast
      qed (use raised taken Some cm in blast)+
    qed
  qed
qed

lemma acknowledged_ok:
  assumes "private_ok s" "pv_current_epoch_id s = Some e" "map_of (pv_pending s) n = Some c" "sid \<notin> snd ` set (pv_sids s)"
  shows "private_ok (s\<lparr>pv_pending := AList.delete n (pv_pending s), pv_sids := AList.update c sid (pv_sids s)\<rparr>)"
  using assms streams_ok_acknowledge [of "pv_pending s" "pv_sids s" n c sid]
  by (auto simp: private_ok_def AList.delete_eq)

lemma private_receive_ok: "private_ok s \<Longrightarrow> private_ok (snd (private_receive e p s))"
proof (cases "pv_current_epoch_id s = Some e")
  case True
  assume ok: "private_ok s"
  obtain r s' where h: "handle_private e p s = (r, s')" by fastforce
  then have "private_ok s'"
  proof (cases rule: handle_private_cases)
    case (acknowledged n c sid)
    then show ?thesis using acknowledged_ok [OF ok True] by simp
  next
    case (taken t c model sid payload m)
    then show ?thesis using ok True by (auto simp: private_ok_def)
  qed (use ok private_terminate_ok in auto)
  then show ?thesis
    using h True by (auto simp: private_receive_def private_terminate_ok split: sum.splits)
qed (simp add: private_receive_def)

end
