(* ===== verification/PrivateEpochs.thy ===== *)
theory PrivateEpochs
  imports PrivateLifecycle
begin

text \<open>
  Whole runs of the private connection: its operations as a state machine, the frames it takes
  over a run, and what holds of them: the connection fails closed, and within an epoch the
  frames come from one subscription per stream and from one provider user.
\<close>

datatype private_op =
    PrivateBegin pyval
  | PrivateReceive int pydict
  | PrivateDisconnect int string

fun private_step :: "('k \<Rightarrow> string \<Rightarrow> string) \<Rightarrow> private_op \<Rightarrow> 'k private_ws \<Rightarrow> 'k private_ws" where
  "private_step sign (PrivateBegin raw) s = snd (begin_private sign raw s)"
| "private_step sign (PrivateReceive e p) s = snd (private_receive e p s)"
| "private_step sign (PrivateDisconnect e reason) s = private_disconnect e reason s"

text \<open>The frame an operation takes, and the frames of a run.\<close>

fun taken_frame :: "private_op \<Rightarrow> 'k private_ws \<Rightarrow> private_ws_frame option" where
  "taken_frame (PrivateReceive e p) s =
     (case fst (private_receive e p s) of Inr (PrivateFrameOutcome f) \<Rightarrow> Some f | _ \<Rightarrow> None)"
| "taken_frame _ s = None"

fun private_frames ::
    "('k \<Rightarrow> string \<Rightarrow> string) \<Rightarrow> private_op list \<Rightarrow> 'k private_ws \<Rightarrow> private_ws_frame list" where
  "private_frames sign [] s = []"
| "private_frames sign (a # ops) s =
     (case taken_frame a s of None \<Rightarrow> [] | Some f \<Rightarrow> [f]) @ private_frames sign ops (private_step sign a s)"

definition private_counters_le :: "'k private_ws \<Rightarrow> 'k private_ws \<Rightarrow> bool" where
  "private_counters_le s t =
     (pv_epoch_counter s \<le> pv_epoch_counter t \<and> pv_command_counter s \<le> pv_command_counter t
      \<and> pv_last_timestamp_ms s \<le> pv_last_timestamp_ms t
      \<and> pv_principal_fingerprint s = pv_principal_fingerprint t \<and> pv_websocket_url s = pv_websocket_url t)"

section \<open>The result of one frame\<close>

lemma private_receive_open:
  assumes "pv_current_epoch_id s = Some e" "private_receive e p s = (r, s')"
  obtains (refused) m reason where "r = Inl (KalshiPrivateWSProtocolError m)" "s' = private_terminate reason s"
  | (overflow) m where "r = Inl (OverflowError m)" "s' = s"
  | (acknowledged) n c sid where "r = Inr PrivateAck" "map_of (pv_pending s) n = Some c" "map_of (pv_sids s) c = None"
      "sid \<notin> snd ` set (pv_sids s)"
      "s' = s\<lparr>pv_pending := AList.delete n (pv_pending s), pv_sids := AList.update c sid (pv_sids s)\<rparr>"
  | (taken) t c model sid payload m where "r = Inr (PrivateFrameOutcome
        \<lparr>pf_epoch_id = e, pf_stream = c, pf_sid = sid, pf_payload = payload\<rparr>)"
      "private_frame_type t = Some (c, model)" "map_of (pv_sids s) c = Some sid" "model m = Inr payload"
      "payload_user_id payload \<noteq> None \<Longrightarrow> pv_provider_user_id s \<in> {None, payload_user_id payload}"
      "s' = (if payload_user_id payload = None then s else s\<lparr>pv_provider_user_id := payload_user_id payload\<rparr>)"
proof -
  obtain q s1 where h: "handle_private e p s = (q, s1)" by fastforce
  then show thesis
  proof (cases rule: handle_private_cases)
    case (raised x)
    from raised(3) consider m where "x = KalshiPrivateWSProtocolError m" | m where "x = OverflowError m"
      by (auto simp: is_private_error_def split: exn.splits)
    then show ?thesis
      using assms h raised refused overflow by cases (auto simp: private_receive_def)
  next
    case (rejected m code)
    then show ?thesis using assms h refused by (auto simp: private_receive_def)
  next
    case (acknowledged n c sid)
    then show ?thesis using assms h that(3) by (auto simp: private_receive_def)
  next
    case (taken t c model sid payload m)
    have "(r, s') = (q, s1)" using assms h taken(1) by (simp add: private_receive_def)
    then have "r = q" "s' = s1" by simp_all
    with taken show ?thesis using that(4) by blast
  qed
qed

lemma private_receive_stale: "pv_current_epoch_id s \<noteq> Some e \<Longrightarrow> private_receive e p s = (Inr PrivateStale, s)"
  by (simp add: private_receive_def)

lemma private_receive_counters: "private_counters_le s (snd (private_receive e p s))"
proof (cases "pv_current_epoch_id s = Some e")
  case True
  obtain r s' where "private_receive e p s = (r, s')" by fastforce
  from private_receive_open [OF True this] this show ?thesis
    by cases (auto simp: private_counters_le_def private_terminate_def)
qed (simp add: private_receive_stale private_counters_le_def)

lemma private_step_ok: "private_ok s \<Longrightarrow> private_ok (private_step sign a s)"
  by (cases a) (simp_all add: begin_private_ok private_receive_ok private_disconnect_def private_terminate_ok)

lemma begin_private_counters: "private_counters_le s (snd (begin_private sign raw s))"
proof (cases "begin_private sign raw s")
  case (Pair r s')
  then show ?thesis
    by (cases r) (auto dest: begin_private_raises elim!: begin_private_state simp: private_counters_le_def)
qed

interpretation private_epochs: monotone_machine private_ok "private_step sign" private_counters_le
  for sign :: "'k \<Rightarrow> string \<Rightarrow> string"
proof
  fix s :: "'k private_ws" and a
  show "private_ok s \<Longrightarrow> private_ok (private_step sign a s)" by (rule private_step_ok)
  show "private_counters_le s (private_step sign a s)"
  proof (cases a)
    case (PrivateDisconnect e reason)
    then show ?thesis by (simp add: private_disconnect_def private_counters_le_def private_terminate_def)
  qed (simp_all add: private_receive_counters begin_private_counters)
qed (auto simp: private_counters_le_def)

text \<open>A taken frame belongs to the open epoch, and pins that epoch's user and its stream's sid.\<close>

lemma taken_frameE:
  assumes "taken_frame a s = Some f"
  obtains p where "a = PrivateReceive (pf_epoch_id f) p" "pv_current_epoch_id s = Some (pf_epoch_id f)"
    and "map_of (pv_sids s) (pf_stream f) = Some (pf_sid f)"
    and "payload_user_id (pf_payload f) \<noteq> None \<Longrightarrow> pv_provider_user_id s \<in> {None, payload_user_id (pf_payload f)}"
    and "pv_current_epoch_id (private_step sign a s) = Some (pf_epoch_id f)"
    and "pv_sids (private_step sign a s) = pv_sids s"
    and "payload_user_id (pf_payload f) \<noteq> None \<Longrightarrow>
      pv_provider_user_id (private_step sign a s) = payload_user_id (pf_payload f)"
proof -
  obtain e p where a: "a = PrivateReceive e p" using assms by (cases a) auto
  obtain r s' where r: "private_receive e p s = (r, s')" by fastforce
  have current: "pv_current_epoch_id s = Some e"
    using assms a r by (cases "pv_current_epoch_id s = Some e") (auto simp: private_receive_stale)
  from private_receive_open [OF current r] show ?thesis
    by cases (use assms a r current in \<open>auto intro: that\<close>)
qed

text \<open>What an operation leaves of an open epoch: it goes on with the same sids and user, or it is over.\<close>

lemma private_step_keeps:
  assumes ok: "private_ok s" and current: "pv_current_epoch_id s = Some e"
    and still: "pv_current_epoch_id (private_step sign a s) = Some e"
  shows "map_of (pv_sids s) c = Some sid \<Longrightarrow> map_of (pv_sids (private_step sign a s)) c = Some sid"
    and "pv_provider_user_id s = Some u \<Longrightarrow> pv_provider_user_id (private_step sign a s) = Some u"
proof -
  have "(map_of (pv_sids s) c = Some sid \<longrightarrow> map_of (pv_sids (private_step sign a s)) c = Some sid)
    \<and> (pv_provider_user_id s = Some u \<longrightarrow> pv_provider_user_id (private_step sign a s) = Some u)"
  proof (cases a)
    case (PrivateBegin raw)
    obtain r s' where b: "begin_private sign raw s = (r, s')" by fastforce
    show ?thesis
    proof (cases r)
      case (Inl x)
      then show ?thesis using b PrivateBegin begin_private_raises [of sign raw s x s'] by auto
    next
      case (Inr ins)
      with b have "pv_current_epoch_id s' = Some (pv_epoch_counter s + 1)" by (auto elim!: begin_private_state)
      then show ?thesis using still ok current b PrivateBegin by (auto simp: private_ok_def)
    qed
  next
    case (PrivateReceive e' p)
    show ?thesis
    proof (cases "e' = e")
      case True
      obtain r s' where r: "private_receive e p s = (r, s')" by fastforce
      from private_receive_open [OF current r] show ?thesis
        by cases (use PrivateReceive True r still in \<open>auto simp: AList.update_Some_unfold\<close>)
    qed (use PrivateReceive current in \<open>simp add: private_receive_stale\<close>)
  qed (use still current in \<open>auto simp: private_disconnect_def split: if_splits\<close>)
  then show "map_of (pv_sids s) c = Some sid \<Longrightarrow> map_of (pv_sids (private_step sign a s)) c = Some sid"
    "pv_provider_user_id s = Some u \<Longrightarrow> pv_provider_user_id (private_step sign a s) = Some u" by blast+
qed

text \<open>An epoch is only opened under a new number.\<close>

lemma private_step_reopens:
  assumes "pv_current_epoch_id (private_step sign a s) = Some e"
    and "pv_epoch_counter (private_step sign a s) = pv_epoch_counter s"
  shows "pv_current_epoch_id s = Some e"
proof (cases a)
  case (PrivateBegin raw)
  obtain r s' where b: "begin_private sign raw s = (r, s')" by fastforce
  with PrivateBegin assms show ?thesis
    by (cases r) (auto dest: begin_private_raises elim!: begin_private_state)
next
  case (PrivateReceive e' p)
  show ?thesis
  proof (cases "pv_current_epoch_id s = Some e'")
    case True
    obtain r s' where r: "private_receive e' p s = (r, s')" by fastforce
    from private_receive_open [OF True r] show ?thesis
      by cases (use PrivateReceive r assms True in \<open>auto split: if_splits\<close>)
  qed (use PrivateReceive assms in \<open>simp add: private_receive_stale\<close>)
qed (use assms in \<open>auto simp: private_disconnect_def split: if_splits\<close>)

text \<open>Frames come only from the epoch that is open or from a later one.\<close>

lemma private_frames_epoch:
  assumes "private_ok s" "f \<in> set (private_frames sign ops s)"
  shows "pv_epoch_counter s \<le> pf_epoch_id f
    \<and> (pf_epoch_id f = pv_epoch_counter s \<longrightarrow> pv_current_epoch_id s = Some (pf_epoch_id f))"
  using assms
proof (induction ops arbitrary: s)
  case (Cons a ops)
  let ?t = "private_step sign a s"
  have t: "private_ok ?t" using Cons.prems(1) by (rule private_step_ok)
  have le: "pv_epoch_counter s \<le> pv_epoch_counter ?t"
    using private_epochs.step_le [OF Cons.prems(1), where sign = sign and a = a] by (simp add: private_counters_le_def)
  show ?case
  proof (cases "taken_frame a s = Some f")
    case True
    then obtain p where "pv_current_epoch_id s = Some (pf_epoch_id f)" by (rule taken_frameE)
    then show ?thesis using Cons.prems(1) by (simp add: private_ok_def)
  next
    case False
    then have f: "f \<in> set (private_frames sign ops ?t)"
      using Cons.prems(2) by (auto split: option.splits)
    have same: "pv_current_epoch_id s = Some (pf_epoch_id f)" if "pf_epoch_id f = pv_epoch_counter s"
    proof -
      have open_t: "pv_current_epoch_id ?t = Some (pf_epoch_id f)" "pv_epoch_counter ?t = pv_epoch_counter s"
        using Cons.IH [OF t f] that le by auto
      show ?thesis using private_step_reopens [OF open_t] .
    qed
    then show ?thesis using Cons.IH [OF t f] le by auto
  qed
qed simp

text \<open>Within an open epoch, later frames agree with what is already known.\<close>

lemma private_frames_agree:
  assumes "private_ok s" "f \<in> set (private_frames sign ops s)" "pv_current_epoch_id s = Some (pf_epoch_id f)"
  shows "map_of (pv_sids s) (pf_stream f) = Some sid \<Longrightarrow> pf_sid f = sid"
    and "pv_provider_user_id s = Some u \<Longrightarrow> payload_user_id (pf_payload f) \<noteq> None \<Longrightarrow>
      payload_user_id (pf_payload f) = Some u"
proof -
  have "(map_of (pv_sids s) (pf_stream f) = Some sid \<longrightarrow> pf_sid f = sid)
    \<and> (pv_provider_user_id s = Some u \<longrightarrow> payload_user_id (pf_payload f) \<noteq> None \<longrightarrow>
         payload_user_id (pf_payload f) = Some u)"
    using assms
  proof (induction ops arbitrary: s)
    case (Cons a ops)
    let ?t = "private_step sign a s"
    show ?case
    proof (cases "taken_frame a s = Some f")
      case True
      then show ?thesis by (auto elim!: taken_frameE)
    next
      case False
      have t: "private_ok ?t" using Cons.prems(1) by (rule private_step_ok)
      have f: "f \<in> set (private_frames sign ops ?t)"
        using Cons.prems(2) False by (auto split: option.splits)
      have "pv_epoch_counter s \<le> pv_epoch_counter ?t" "pf_epoch_id f = pv_epoch_counter s"
        using private_epochs.step_le [OF Cons.prems(1), where sign = sign and a = a] Cons.prems(1,3)
        by (auto simp: private_counters_le_def private_ok_def)
      then have "pv_current_epoch_id ?t = Some (pf_epoch_id f)"
        using private_frames_epoch [OF t f] by auto
      then show ?thesis
        using Cons.IH [OF t f] private_step_keeps [OF Cons.prems(1,3)] by blast
    qed
  qed simp
  then show "map_of (pv_sids s) (pf_stream f) = Some sid \<Longrightarrow> pf_sid f = sid"
    "pv_provider_user_id s = Some u \<Longrightarrow> payload_user_id (pf_payload f) \<noteq> None \<Longrightarrow>
      payload_user_id (pf_payload f) = Some u" by blast+
qed

text \<open>Two frames of a run, as their order in it does not matter.\<close>

definition frames_agree :: "private_ws_frame \<Rightarrow> private_ws_frame \<Rightarrow> bool" where
  "frames_agree f g =
     (pf_epoch_id f \<noteq> pf_epoch_id g
      \<or> (pf_stream f = pf_stream g \<longrightarrow> pf_sid f = pf_sid g)
        \<and> (payload_user_id (pf_payload f) = payload_user_id (pf_payload g)
           \<or> payload_user_id (pf_payload f) = None \<or> payload_user_id (pf_payload g) = None))"

lemma frames_agree_sym: "frames_agree f g \<Longrightarrow> frames_agree g f"
  by (auto simp: frames_agree_def)

lemma taken_frame_agrees:
  assumes "private_ok s" "taken_frame a s = Some f" "g \<in> set (private_frames sign ops (private_step sign a s))"
  shows "frames_agree f g"
proof (cases "pf_epoch_id f = pf_epoch_id g")
  case True
  from assms(2) obtain p where c: "pv_current_epoch_id (private_step sign a s) = Some (pf_epoch_id f)"
    and sid: "map_of (pv_sids (private_step sign a s)) (pf_stream f) = Some (pf_sid f)"
    and u: "payload_user_id (pf_payload f) \<noteq> None \<Longrightarrow>
      pv_provider_user_id (private_step sign a s) = payload_user_id (pf_payload f)"
    using taken_frameE [where sign = sign, OF assms(2)] by metis
  note agree = private_frames_agree [OF private_step_ok [OF assms(1)] assms(3)]
  show ?thesis
    using agree(1) [where sid = "pf_sid f"] agree(2) c sid u True unfolding frames_agree_def by force
qed (simp add: frames_agree_def)

lemma private_frames_pairwise:
  assumes "private_ok s" "f \<in> set (private_frames sign ops s)" "g \<in> set (private_frames sign ops s)"
  shows "frames_agree f g"
  using assms
proof (induction ops arbitrary: s)
  case (Cons a ops)
  let ?t = "private_step sign a s"
  have t: "private_ok ?t" using Cons.prems(1) by (rule private_step_ok)
  show ?case
  proof (cases "taken_frame a s")
    case None
    then show ?thesis using Cons.IH [OF t] Cons.prems by simp
  next
    case (Some h)
    then consider "f = h" "g = h" | "f = h" "g \<in> set (private_frames sign ops ?t)"
      | "g = h" "f \<in> set (private_frames sign ops ?t)"
      | "f \<in> set (private_frames sign ops ?t)" "g \<in> set (private_frames sign ops ?t)"
      using Cons.prems(2,3) by auto
    then show ?thesis
    proof cases
      case 1
      then show ?thesis by (simp add: frames_agree_def)
    next
      case 3
      then show ?thesis using taken_frame_agrees [OF Cons.prems(1) Some] frames_agree_sym by blast
    qed (use Cons.IH [OF t] taken_frame_agrees [OF Cons.prems(1) Some] in blast)+
  qed
qed simp

section \<open>Properties of the private connection\<close>

text \<open>The streams of an open epoch are all acknowledged when none waits.\<close>

lemma sids_distinct: "private_ok s \<Longrightarrow> distinct (map snd (pv_sids s))"
  by (auto simp: private_ok_def streams_ok_def split: option.splits)

lemma subscriptions_acknowledged_iff:
  assumes "private_ok s"
  shows "subscriptions_acknowledged s \<longleftrightarrow> fst ` set (pv_sids s) = set private_streams"
proof (cases "pv_current_epoch_id s")
  case None
  with assms show ?thesis by (simp add: subscriptions_acknowledged_def private_ok_def private_streams_def)
next
  case (Some e)
  let ?P = "map snd (pv_pending s)" and ?A = "map fst (pv_sids s)"
  have ok: "distinct (?P @ ?A)" "set (?P @ ?A) = set private_streams"
    using assms Some by (auto simp: private_ok_def streams_ok_def)
  have n: "length ?P + length ?A = length private_streams"
    using distinct_card [OF ok(1)] ok(2) by (simp add: private_streams_def)
  have "?P = [] \<longleftrightarrow> set ?A = set private_streams"
  proof
    show "set ?A = set private_streams \<Longrightarrow> ?P = []"
      using ok by (metis Un_upper1 disjoint_iff distinct_append list.set_intros(1) neq_Nil_conv set_append subsetD)
  qed (use ok in simp)
  then show ?thesis using Some n by (auto simp: subscriptions_acknowledged_def)
qed

text \<open>A payload that its stream's parser lets through.\<close>

fun private_payload_ok :: "private_stream \<Rightarrow> private_payload \<Rightarrow> bool" where
  "private_payload_ok UserOrdersStream (OrderPayload r) = private_order_ok r"
| "private_payload_ok FillStream (FillPayload r) = private_fill_ok r"
| "private_payload_ok MarketPositionsStream (PositionPayload r) = private_position_ok r"
| "private_payload_ok _ _ = False"

lemma private_frame_type_ok:
  "private_frame_type t = Some (c, model) \<Longrightarrow> model m = Inr payload \<Longrightarrow> private_payload_ok c payload"
  by (auto simp: private_frame_type_def res_simps private_order_from_payload_ok private_fill_from_payload_ok
      private_position_from_payload_ok split: if_splits)

lemma private_frames_ok:
  "f \<in> set (private_frames sign ops s) \<Longrightarrow> private_payload_ok (pf_stream f) (pf_payload f)"
proof (induction ops arbitrary: s)
  case (Cons a ops)
  have "private_payload_ok (pf_stream f) (pf_payload f)" if f: "taken_frame a s = Some f"
  proof -
    obtain e p where a: "a = PrivateReceive e p" using f by (cases a) auto
    obtain r s' where r: "private_receive e p s = (r, s')" by fastforce
    have current: "pv_current_epoch_id s = Some e"
      using f a r by (cases "pv_current_epoch_id s = Some e") (auto simp: private_receive_stale)
    from private_receive_open [OF current r] show ?thesis
      by cases (use f a r private_frame_type_ok in auto)
  qed
  then show ?case using Cons by (auto split: option.splits)
qed simp

text \<open>
  C23: The private connection fails closed. A frame of another epoch changes nothing. In the open
  epoch a frame is an acknowledgement (one subscription more), or a payload within its ranges
  from the acknowledged subscription of its stream and from the epoch's only user, or it ends
  the epoch: nothing of it is left and the reason is recorded. The only other thing that can
  happen is the \<open>OverflowError\<close> of a timestamp, which passes with the epoch still open.
\<close>

theorem private_stream_fails_closed:
  assumes "private_receive e p s = (r, s')"
  shows "if pv_current_epoch_id s \<noteq> Some e then r = Inr PrivateStale \<and> s' = s
    else case r of
      Inr PrivateStale \<Rightarrow> False
    | Inr PrivateAck \<Rightarrow> pv_current_epoch_id s' = Some e
        \<and> (\<exists>c sid. pv_sids s' = pv_sids s @ [(c, sid)] \<and> c \<notin> fst ` set (pv_sids s) \<and> sid \<notin> snd ` set (pv_sids s))
    | Inr (PrivateFrameOutcome f) \<Rightarrow> pf_epoch_id f = e \<and> pv_current_epoch_id s' = Some e
        \<and> (pf_stream f, pf_sid f) \<in> set (pv_sids s) \<and> pv_sids s' = pv_sids s
        \<and> private_payload_ok (pf_stream f) (pf_payload f)
        \<and> payload_user_id (pf_payload f) \<in> {None, pv_provider_user_id s'}
        \<and> pv_provider_user_id s \<in> {None, pv_provider_user_id s'}
    | Inl (KalshiPrivateWSProtocolError m) \<Rightarrow> pv_current_epoch_id s' = None \<and> pv_sids s' = []
        \<and> pv_pending s' = [] \<and> pv_provider_user_id s' = None \<and> pv_terminal_reason s' \<noteq> None
    | Inl (OverflowError m) \<Rightarrow> s' = s
    | Inl _ \<Rightarrow> False"
proof (cases "pv_current_epoch_id s = Some e")
  case True
  from True assms show ?thesis
  proof (cases rule: private_receive_open)
    case (acknowledged n c sid)
    then have "c \<notin> fst ` set (pv_sids s)" by (simp add: map_of_eq_None_iff)
    with acknowledged True show ?thesis by (auto simp: alist_update_fresh)
  next
    case (taken t c model sid payload m)
    then show ?thesis using True private_frame_type_ok [of t c model m payload]
      by (auto dest: map_of_SomeD)
  qed (use True in \<open>simp_all add: private_terminate_def\<close>)
qed (use assms in \<open>simp add: private_receive_stale\<close>)

text \<open>
  Over a whole life of a private connection, with any interleaving of connects, frames and
  disconnects, the payloads it hands on are well formed, and two that it hands on for the same
  epoch come from the same subscription, when they are of the same stream, and name the same
  provider user, when both name one.
\<close>

theorem one_principal_per_epoch:
  assumes "make_private_ws digest signer origin = Inr s"
    and "f \<in> set (private_frames sign ops s)" and "g \<in> set (private_frames sign ops s)"
    and "pf_epoch_id f = pf_epoch_id g"
  shows "private_payload_ok (pf_stream f) (pf_payload f)
    \<and> (pf_stream f \<noteq> pf_stream g \<or> pf_sid f = pf_sid g)
    \<and> (payload_user_id (pf_payload f) = payload_user_id (pf_payload g)
       \<or> payload_user_id (pf_payload f) = None \<or> payload_user_id (pf_payload g) = None)"
proof -
  have ok: "private_ok s" using make_private_ws_ok [OF assms(1)] by simp
  show ?thesis
    using private_frames_pairwise [OF ok assms(2,3)] private_frames_ok [OF assms(2)] assms(4)
    by (auto simp: frames_agree_def)
qed

text \<open>
  From construction on, whatever connects, frames and disconnects follow, the streams of an
  open epoch are waiting or acknowledged, never both, no two of its subscriptions share an id,
  a closed connection remembers nothing, and the epoch, command and timestamp counters never go
  back. Subscriptions count as acknowledged exactly when each of the three streams is.
\<close>

theorem private_connection_invariant:
  assumes "make_private_ws digest signer origin = Inr s"
    and "t = fold (private_step sign) ops s" and "u = fold (private_step sign) (ops @ later) s"
  shows "private_ok u \<and> private_counters_le t u
    \<and> subscriptions_acknowledged u = (fst ` set (pv_sids u) = set private_streams)
    \<and> distinct (map snd (pv_sids u))"
proof -
  have ok: "private_ok s" using make_private_ws_ok [OF assms(1)] by simp
  have u: "private_ok u" unfolding assms(3) by (rule private_epochs.run_inv [OF ok])
  have "private_counters_le t u" unfolding assms(2,3) by (rule private_epochs.run_prefix_le [OF ok])
  then show ?thesis using u subscriptions_acknowledged_iff [OF u] sids_distinct [OF u] by blast
qed

section \<open>Concrete instances\<close>

definition sample_private_ws :: "unit private_ws" where
  "sample_private_ws = \<lparr>pv_signer = sample_signer, pv_principal_fingerprint = ''fp'',
     pv_websocket_url = the (map_of ws_url_by_origin demo_origin), pv_epoch_counter = 0, pv_command_counter = 0,
     pv_last_timestamp_ms = 0, pv_current_epoch_id = None, pv_pending = [], pv_sids = [],
     pv_provider_user_id = None, pv_terminal_reason = None\<rparr>"

definition position_frame :: "int \<Rightarrow> string \<Rightarrow> pydict" where
  "position_frame sid user =
     [(''type'', PStr ''market_position''), (''sid'', PInt sid),
      (''msg'', PDict [(''user_id'', PStr user), (''market_ticker'', PStr ''KXA-26''),
        (''position_fp'', PStr ''-2.00''), (''position_cost_dollars'', PStr ''1.2''),
        (''realized_pnl_dollars'', PStr ''0''), (''fees_paid_dollars'', PStr ''0.01''),
        (''position_fee_cost_dollars'', PStr ''0.01''), (''volume_fp'', PStr ''2'')])]"

definition private_open_ops :: "private_op list" where
  "private_open_ops = [PrivateBegin (PInt 5), PrivateReceive 1 (ack_frame 1 ''user_orders'' 7),
     PrivateReceive 1 (ack_frame 3 ''market_positions'' 8), PrivateReceive 1 (ack_frame 2 ''fill'' 9)]"

definition private_sample_ops :: "private_op list" where
  "private_sample_ops = private_open_ops @
     [PrivateReceive 1 (position_frame 8 ''u-1''), PrivateReceive 1 (position_frame 8 ''u-1'')]"

definition open_private_ws :: "unit private_ws" where
  "open_private_ws = fold (private_step (\<lambda>_ m. m)) private_open_ops sample_private_ws"

lemma sample_private_ws_made: "make_private_ws (\<lambda>_. ''fp'') sample_signer demo_origin = Inr sample_private_ws"
  by code_simp

lemma open_private_ws_values:
  "pv_current_epoch_id open_private_ws = Some 1"
  "pv_sids open_private_ws = [(UserOrdersStream, 7), (MarketPositionsStream, 8), (FillStream, 9)]"
  by code_simp+

lemma private_sample_frames:
  "map pf_sid (private_frames (\<lambda>_ m. m) private_sample_ops sample_private_ws) = [8, 8]"
  "map pf_epoch_id (private_frames (\<lambda>_ m. m) private_sample_ops sample_private_ws) = [1, 1]"
  by code_simp+

lemma private_stream_fails_closed_witness:
  "pv_current_epoch_id (snd (private_receive 1 (position_frame 9 ''u-1'') open_private_ws)) = None"
proof -
  let ?r = "private_receive 1 (position_frame 9 ''u-1'') open_private_ws"
  have "(case fst ?r of Inl (KalshiPrivateWSProtocolError _) \<Rightarrow> True | _ \<Rightarrow> False)" by code_simp
  then obtain m where "fst ?r = Inl (KalshiPrivateWSProtocolError m)"
    by (auto split: sum.splits exn.splits)
  then show ?thesis
    using private_stream_fails_closed [of 1 "position_frame 9 ''u-1''" open_private_ws, OF prod.collapse [symmetric]]
    by (simp add: open_private_ws_values)
qed

lemma one_principal_per_epoch_witness:
  "\<exists>f g. private_frames (\<lambda>_ m. m) private_sample_ops sample_private_ws = [f, g] \<and> pf_epoch_id f = pf_epoch_id g
     \<and> private_payload_ok (pf_stream f) (pf_payload f)"
proof -
  obtain f g where fg: "private_frames (\<lambda>_ m. m) private_sample_ops sample_private_ws = [f, g]"
    "pf_epoch_id f = 1" "pf_epoch_id g = 1"
    using private_sample_frames by (auto simp: map_eq_Cons_conv)
  then show ?thesis
    using one_principal_per_epoch [OF sample_private_ws_made, of f "\<lambda>_ m. m" private_sample_ops g] by simp
qed

lemma private_connection_invariant_witness:
  "private_ok open_private_ws \<and> subscriptions_acknowledged open_private_ws"
  using private_connection_invariant [OF sample_private_ws_made, of sample_private_ws "\<lambda>_ m. m" "[]"
      open_private_ws private_open_ops]
  by (auto simp: open_private_ws_def [symmetric] open_private_ws_values private_streams_def)

text \<open>
  An order whose creation time lies before the calendar's first day in UTC ends \<open>receive\<close> with
  an \<open>OverflowError\<close>, which is not among the caught ones: the epoch stays open.
\<close>

definition early_order :: pydict where
  "early_order =
     [(''outcome_side'', PStr ''yes''), (''book_side'', PStr ''bid''), (''side'', PStr ''yes''),
      (''is_yes'', PBool True), (''status'', PStr ''resting''), (''yes_price_dollars'', PStr ''0.5''),
      (''fill_count_fp'', PStr ''0''), (''remaining_count_fp'', PStr ''1''), (''initial_count_fp'', PStr ''1''),
      (''taker_fill_cost_dollars'', PStr ''0''), (''maker_fill_cost_dollars'', PStr ''0''),
      (''taker_fees_dollars'', PStr ''0''), (''maker_fees_dollars'', PStr ''0''),
      (''created_time'', PStr ''0001-01-01T00:00:00+01:00''), (''created_ts_ms'', PInt 1)]"

definition early_order_frame :: pydict where
  "early_order_frame =
     [(''type'', PStr ''user_order''), (''sid'', PInt 7), (''msg'', PDict early_order)]"

lemma early_timestamp: "rfc3339_ms ''0001-01-01T00:00:00+01:00'' f = Inl (OverflowError ''date value out of range'')"
proof -
  have "rfc3339_match ''0001-01-01T00:00:00+01:00'' = Some \<lparr>f_year = 1, f_month = 1, f_day = 1,
      f_hour = 0, f_minute = 0, f_second = 0, f_fraction = None, f_offset = 3600\<rparr>" by code_simp
  then show ?thesis
    by (simp add: rfc3339_ms_def excess_fraction_def parse_utc_def catchE_def fromisoformat_utc_def valid_fields_def
        local_micros_def ymd_ordinal_def days_before_year_def days_before_month_def days_in_month_def
        fraction_micros_def epoch_ordinal_def min_micros_def micros_per_day_def)
qed

lemma early_order_fields:
  "pw_side early_order ''outcome_side'' = Inr Yes" "pw_book_side early_order = Inr Bid"
  "pw_side early_order ''side'' = Inr Yes" "pw_boolean early_order ''is_yes'' = Inr True"
  "pw_text early_order ''status'' = Inr ''resting''" "order_status_of ''resting'' = Some Resting"
  "pw_fixed pw_dollar_quantum early_order ''yes_price_dollars'' = Inr (Dec False 5 (-1))"
  "pw_fixed pw_count_quantum early_order ''fill_count_fp'' = Inr (Dec False 0 0)"
  "pw_fixed pw_count_quantum early_order ''remaining_count_fp'' = Inr (Dec False 1 0)"
  "pw_fixed pw_count_quantum early_order ''initial_count_fp'' = Inr (Dec False 1 0)"
  "pw_fixed pw_dollar_quantum early_order ''taker_fill_cost_dollars'' = Inr (Dec False 0 0)"
  "pw_fixed pw_dollar_quantum early_order ''maker_fill_cost_dollars'' = Inr (Dec False 0 0)"
  "pw_fixed pw_dollar_quantum early_order ''taker_fees_dollars'' = Inr (Dec False 0 0)"
  "pw_fixed pw_dollar_quantum early_order ''maker_fees_dollars'' = Inr (Dec False 0 0)"
  "py_get early_order ''created_time'' = PStr ''0001-01-01T00:00:00+01:00''"
  "pw_integer (py_get early_order ''created_ts_ms'') ''created_ts_ms'' 1 int64_max = Inr 1"
  "strip ''0001-01-01T00:00:00+01:00'' \<noteq> []"
  by code_simp+

lemma early_order_frame_fields:
  "pw_text early_order_frame ''type'' = Inr ''user_order''"
  "py_get early_order_frame ''msg'' = PDict early_order"
  "pw_integer (py_get early_order_frame ''sid'') ''sid'' 1 int64_max = Inr 7"
  by code_simp+

lemma overflowing_timestamp_leaves_the_epoch_open:
  "private_receive 1 early_order_frame open_private_ws = (Inl (OverflowError ''date value out of range''), open_private_ws)"
proof -
  have "private_order_from_payload early_order = Inl (OverflowError ''date value out of range'')"
    by (simp add: private_order_from_payload_def early_order_fields validate_direction_def dval_Dec
        timestamp_pair_def as_text_def early_timestamp)
  then show ?thesis
    by (simp add: private_receive_def handle_private_def early_order_frame_fields private_frame_type_def
        receive_private_payload_def open_private_ws_values pw_mapping_def as_dict_def)
qed

end
