(* ===== verification/CoverageEvidence.thy ===== *)
theory CoverageEvidence
  imports Reconciliation
begin

text \<open>
  The evidence of a portfolio sweep (\<open>services/kalshi_portfolio_coverage.py\<close>): canonical
  payloads and their hashes, the choice of one snapshot per order from everything that was
  read, and the reasons why what was read does not fit together. Nothing here has a state;
  SHA-256 is the argument \<open>digest\<close>.
\<close>

abbreviation cov_error :: "string \<Rightarrow> 'a res" where
  "cov_error m \<equiv> Inl (KalshiPortfolioCoverageConflictError m)"

section \<open>Payloads and hashes\<close>

definition py_int_text :: "int option \<Rightarrow> pyval" where
  "py_int_text = py_opt (\<lambda>n. PStr (int_str n))"

definition cov_order_payload :: "(string \<Rightarrow> string) \<Rightarrow> kalshi_order \<Rightarrow> pydict" where
  "cov_order_payload digest r =
     [(''order_id'', PStr (ord_order_id r)), (''provider_user_hash'', PStr (digest (ord_user_id r))),
      (''client_order_id'', PStr (ord_client_order_id r)), (''ticker'', PStr (ord_ticker r)),
      (''outcome_side'', PStr (outcome_text (ord_outcome_side r))),
      (''book_side'', PStr (book_side_text (ord_book_side r))),
      (''order_type'', PStr (order_type_text (ord_order_type r))),
      (''status'', PStr (order_status_text (ord_status r))),
      (''yes_price'', PStr (format_f (ord_yes_price r))), (''no_price'', PStr (format_f (ord_no_price r))),
      (''fill_count'', PStr (format_f (ord_fill_count r))),
      (''remaining_count'', PStr (format_f (ord_remaining_count r))),
      (''initial_count'', PStr (format_f (ord_initial_count r))),
      (''taker_fees'', PStr (format_f (ord_taker_fees r))), (''maker_fees'', PStr (format_f (ord_maker_fees r))),
      (''taker_fill_cost'', PStr (format_f (ord_taker_fill_cost r))),
      (''maker_fill_cost'', PStr (format_f (ord_maker_fill_cost r))),
      (''created_time'', py_opt PStr (ord_created_time r)),
      (''last_update_time'', py_opt PStr (ord_last_update_time r)),
      (''expiration_time'', py_opt PStr (ord_expiration_time r)),
      (''subaccount_number'', py_int_text (ord_subaccount_number r)),
      (''exchange_index'', py_int_text (ord_exchange_index r))]"

definition cov_fill_payload :: "kalshi_fill \<Rightarrow> pydict" where
  "cov_fill_payload f =
     [(''fill_id'', PStr (fil_fill_id f)), (''trade_id'', PStr (fil_trade_id f)),
      (''order_id'', PStr (fil_order_id f)), (''ticker'', PStr (fil_ticker f)),
      (''market_ticker'', PStr (fil_market_ticker f)),
      (''outcome_side'', PStr (outcome_text (fil_outcome_side f))),
      (''book_side'', PStr (book_side_text (fil_book_side f))), (''count'', PStr (format_f (fil_count f))),
      (''yes_price'', PStr (format_f (fil_yes_price f))), (''no_price'', PStr (format_f (fil_no_price f))),
      (''is_taker'', PBool (fil_is_taker f)), (''fee_cost'', PStr (format_f (fil_fee_cost f))),
      (''created_time'', py_opt PStr (fil_created_time f)),
      (''subaccount_number'', py_int_text (fil_subaccount_number f)), (''ts'', py_int_text (fil_ts f))]"

definition order_immutable_fields :: "string list" where
  "order_immutable_fields =
     [''order_id'', ''provider_user_hash'', ''client_order_id'', ''ticker'', ''outcome_side'', ''book_side'',
      ''order_type'', ''yes_price'', ''no_price'', ''initial_count'', ''created_time'', ''expiration_time'',
      ''subaccount_number'', ''exchange_index'']"

definition order_identity :: "(string \<Rightarrow> string) \<Rightarrow> kalshi_order \<Rightarrow> pydict" where
  "order_identity digest r = map (\<lambda>k. (k, py_get (cov_order_payload digest r) k)) order_immutable_fields"

definition order_hash :: "(string \<Rightarrow> string) \<Rightarrow> kalshi_order \<Rightarrow> string" where
  "order_hash digest r = evidence_hash digest (cov_order_payload digest r)"

definition identity_hash :: "(string \<Rightarrow> string) \<Rightarrow> kalshi_order \<Rightarrow> string" where
  "identity_hash digest r = evidence_hash digest (order_identity digest r)"

definition fill_hash :: "(string \<Rightarrow> string) \<Rightarrow> kalshi_fill \<Rightarrow> string" where
  "fill_hash digest f = evidence_hash digest (cov_fill_payload f)"

section \<open>Timestamps\<close>

text \<open>
  \<open>math.ceil(value.timestamp())\<close>: the seconds are a binary float of 53 significant bits, half
  to even, of the whole microseconds \<open>n\<close>; below one second its spacing is finer than here, which
  the ceiling does not see.
\<close>

definition float_bits :: "int \<Rightarrow> nat" where
  "float_bits n = 53 - the (List.find (\<lambda>k. \<bar>n\<bar> < 2 ^ k * 1000000) [0..<54])"

definition ceil_epoch :: "int \<Rightarrow> int" where
  "ceil_epoch n =
     (let s = 2 ^ float_bits n;
          m = int (div_half_even (nat (\<bar>n\<bar> * s)) 1000000)
      in if n < 0 then - (m div s) else - ((- m) div s))"

definition cov_datetime :: "string option \<Rightarrow> string \<Rightarrow> int res" where
  "cov_datetime value field_name =
     (case value of
        None \<Rightarrow> cov_error (''Kalshi '' @ field_name @ '' is required for durable evidence'')
      | Some s \<Rightarrow>
          (case rfc3339_match s of
             None \<Rightarrow> cov_error (''Kalshi '' @ field_name @ '' must be database-exact RFC3339'')
           | Some f \<Rightarrow>
               if excess_fraction f
               then cov_error (''Kalshi '' @ field_name @ '' must be database-exact RFC3339'')
               else parse_utc (KalshiPortfolioCoverageConflictError
                      (''Kalshi '' @ field_name @ '' must be RFC3339'')) f))"

definition order_updated_at :: "kalshi_order \<Rightarrow> int res" where
  "order_updated_at r = cov_datetime (latest_time r) ''order update time''"

definition fill_created_at :: "kalshi_fill \<Rightarrow> int res" where
  "fill_created_at f =
     (case fil_created_time f of
        Some t \<Rightarrow> cov_datetime (Some t) ''fill created_time''
      | None \<Rightarrow>
          (case fil_ts f of
             None \<Rightarrow> cov_error ''Kalshi fill requires created_time or non-negative ts''
           | Some ts \<Rightarrow>
               if ts < 0 then cov_error ''Kalshi fill requires created_time or non-negative ts''
               else fromtimestamp_utc ts))"

section \<open>One snapshot per order\<close>

text \<open>\<open>grouped.setdefault(key(x), []).append(x)\<close>\<close>

definition add_to_group :: "'k \<Rightarrow> 'v \<Rightarrow> ('k \<times> 'v list) list \<Rightarrow> ('k \<times> 'v list) list" where
  "add_to_group k x = AList.map_default k [x] (\<lambda>xs. xs @ [x])"

definition group_by :: "('v \<Rightarrow> 'k) \<Rightarrow> 'v list \<Rightarrow> ('k \<times> 'v list) list" where
  "group_by key xs = fold (\<lambda>x. add_to_group (key x) x) xs []"

text \<open>\<open>min(xs, key=key)\<close>: the first of the smallest.\<close>

fun first_min :: "('a \<Rightarrow> string) \<Rightarrow> 'a list \<Rightarrow> 'a option" where
  "first_min key [] = None"
| "first_min key (x # xs) =
     (case first_min key xs of None \<Rightarrow> Some x | Some y \<Rightarrow> if text_le (key x) (key y) then Some x else Some y)"

definition choose_min :: "('a \<Rightarrow> string) \<Rightarrow> 'a list \<Rightarrow> 'a res" where
  "choose_min key xs = opt_or (first_min key xs) (ValueError ''min() iterable argument is empty'')"

definition several :: "'a list \<Rightarrow> bool" where
  "several xs = (1 < card (set xs))"

definition snapshots_by_time :: "kalshi_order list \<Rightarrow> (int \<times> kalshi_order list) list res" where
  "snapshots_by_time snapshots =
     foldE (\<lambda>g r. bindE (order_updated_at r) (\<lambda>t. Inr (add_to_group t r g))) [] snapshots"

definition identity_conflict :: "string \<Rightarrow> string" where
  "identity_conflict order_id = ''order_identity_conflict:'' @ order_id"

definition timestamp_conflict :: "string \<Rightarrow> string" where
  "timestamp_conflict order_id = ''equal_timestamp_order_conflict:'' @ order_id"

text \<open>The body of the loop over the grouped orders.\<close>

definition dedupe_group ::
    "(string \<Rightarrow> string) \<Rightarrow> string \<Rightarrow> kalshi_order list \<Rightarrow> (kalshi_order \<times> string list) res" where
  "dedupe_group digest order_id snapshots =
     (if several (map (order_identity digest) snapshots)
      then bindE (choose_min (order_hash digest) snapshots) (\<lambda>r. Inr (r, [identity_conflict order_id]))
      else bindE (snapshots_by_time snapshots) (\<lambda>by_time.
        let conflicts = (if list_ex (\<lambda>(_, same_time). several (map (order_hash digest) same_time)) by_time
                         then [timestamp_conflict order_id] else []);
            latest = the (map_of by_time (Max (fst ` set by_time)))
        in bindE (choose_min (order_hash digest) latest) (\<lambda>r. Inr (r, conflicts))))"

definition dedupe_orders ::
    "(string \<Rightarrow> string) \<Rightarrow> kalshi_order list \<Rightarrow> ((string \<times> kalshi_order) list \<times> string list) res" where
  "dedupe_orders digest records =
     foldE (\<lambda>(chosen, conflicts) (order_id, snapshots).
         bindE (dedupe_group digest order_id snapshots) (\<lambda>(r, more).
         Inr (AList.update order_id r chosen, conflicts @ more)))
       ([], []) (group_by ord_order_id records)"

section \<open>Fills\<close>

definition add_fill ::
    "(string \<times> kalshi_fill) list \<Rightarrow> string \<times> kalshi_fill \<Rightarrow> (string \<times> kalshi_fill) list res" where
  "add_fill known = (\<lambda>(fill_id, f).
     if (case map_of known fill_id of None \<Rightarrow> False | Some g \<Rightarrow> cov_fill_payload g \<noteq> cov_fill_payload f)
     then cov_error (''fill_id '' @ repr_str fill_id @ '' returned divergent evidence'')
     else Inr (AList.update fill_id f known))"

definition dedupe_fills :: "kalshi_fill list \<Rightarrow> (string \<times> kalshi_fill) list res" where
  "dedupe_fills records = foldE (\<lambda>known f. add_fill known (fil_fill_id f, f)) [] records"

definition merge_fills :: "(string \<times> kalshi_fill) list list \<Rightarrow> (string \<times> kalshi_fill) list res" where
  "merge_fills sources = foldE (foldE add_fill) [] sources"

section \<open>What does not fit together\<close>

definition cutoff_drift :: "kalshi_cutoff \<Rightarrow> kalshi_cutoff \<Rightarrow> string list" where
  "cutoff_drift before after =
     (if cut_orders_updated_at before \<noteq> cut_orders_updated_at after then [''cutoff_drift:orders''] else [])
     @ (if cut_trades_created_at before \<noteq> cut_trades_created_at after then [''cutoff_drift:fills''] else [])"

definition orphan_fills :: "(string \<times> kalshi_order) list \<Rightarrow> (string \<times> kalshi_fill) list \<Rightarrow> string list" where
  "orphan_fills orders fills =
     (let orphans = sort_texts (filter (\<lambda>i. map_of orders i = None)
            (remdups (map (fil_order_id \<circ> snd) fills)))
      in if orphans = [] then [] else [''orphan_fill:'' @ join '','' orphans])"

definition user_conflict :: "(string \<Rightarrow> string) \<Rightarrow> (string \<times> kalshi_order) list \<Rightarrow> string list" where
  "user_conflict digest orders =
     (if several (map (\<lambda>(_, r). digest (ord_user_id r)) orders) then [''provider_user_conflict''] else [])"

definition fill_matches_order :: "kalshi_fill \<Rightarrow> kalshi_order \<Rightarrow> bool" where
  "fill_matches_order f r =
     (fil_ticker f = ord_ticker r \<and> fil_market_ticker f = ord_ticker r
      \<and> fil_outcome_side f = ord_outcome_side r \<and> fil_book_side f = ord_book_side r
      \<and> fil_subaccount_number f = ord_subaccount_number r)"

definition fill_mismatches :: "(string \<times> kalshi_order) list \<Rightarrow> (string \<times> kalshi_fill) list \<Rightarrow> string list" where
  "fill_mismatches orders fills =
     concat (map (\<lambda>(_, f). case map_of orders (fil_order_id f) of
         None \<Rightarrow> []
       | Some r \<Rightarrow> if fill_matches_order f r then [] else [''fill_order_mismatch:'' @ fil_fill_id f]) fills)"

definition fills_by_order ::
    "(string \<times> kalshi_order) list \<Rightarrow> (string \<times> kalshi_fill) list \<Rightarrow> (string \<times> kalshi_fill list) list" where
  "fills_by_order orders fills =
     group_by fil_order_id (filter (\<lambda>f. map_of orders (fil_order_id f) \<noteq> None) (map snd fills))"

definition count_mismatches :: "(string \<times> kalshi_order) list \<Rightarrow> (string \<times> kalshi_fill) list \<Rightarrow> string list" where
  "count_mismatches orders fills =
     concat (map (\<lambda>(order_id, fs).
         if dval (ord_initial_count (the (map_of orders order_id))) < total_count fs
         then [''fill_count_mismatch:'' @ order_id] else []) (fills_by_order orders fills))"

definition reason_text :: "string list \<Rightarrow> string" where
  "reason_text reasons =
     (if reasons = [] then ''bounded_evidence_complete'' else join '';'' (sort_texts (remdups reasons)))"

section \<open>Grouping\<close>

lemma map_default_map_of:
  "map_of (AList.map_default k v f al) j =
     (if j = k then Some (case map_of al k of None \<Rightarrow> v | Some x \<Rightarrow> f x) else map_of al j)"
  by (induction al) auto

lemma map_default_keys: "fst ` set (AList.map_default k v f al) = insert k (fst ` set al)"
  by (induction al) auto

lemma add_to_group_distinct: "distinct (map fst g) \<Longrightarrow> distinct (map fst (add_to_group k x g))"
proof (induction g)
  case (Cons y ys)
  then show ?case using map_default_keys [of k "[x]" "\<lambda>xs. xs @ [x]" ys]
    by (auto simp: add_to_group_def)
qed (simp add: add_to_group_def)

text \<open>The group of a key: the elements that have it, in their order.\<close>

lemma group_by_gen:
  assumes "distinct (map fst g)"
  shows "distinct (map fst (fold (\<lambda>x. add_to_group (key x) x) xs g))
    \<and> fst ` set (fold (\<lambda>x. add_to_group (key x) x) xs g) = fst ` set g \<union> key ` set xs
    \<and> map_of (fold (\<lambda>x. add_to_group (key x) x) xs g) k =
      (case map_of g k of
         Some old \<Rightarrow> Some (old @ filter (\<lambda>x. key x = k) xs)
       | None \<Rightarrow> if filter (\<lambda>x. key x = k) xs = [] then None else Some (filter (\<lambda>x. key x = k) xs))"
  using assms
proof (induction xs arbitrary: g)
  case Nil
  then show ?case by (simp split: option.splits)
next
  case (Cons x xs)
  show ?case using Cons.IH [OF add_to_group_distinct [OF Cons.prems, of "key x" x]]
    by (simp add: add_to_group_def map_default_map_of map_default_keys split: option.splits)
qed

lemma group_by_keys:
  "distinct (map fst (group_by key xs))" "fst ` set (group_by key xs) = key ` set xs"
  using group_by_gen [of "[]" key xs] by (simp_all add: group_by_def)

lemma group_by_map_of:
  "map_of (group_by key xs) k =
     (if filter (\<lambda>x. key x = k) xs = [] then None else Some (filter (\<lambda>x. key x = k) xs))"
  using group_by_gen [of "[]" key xs k] by (simp add: group_by_def)

lemma group_by_mem:
  "(k, g) \<in> set (group_by key xs) \<longleftrightarrow> g \<noteq> [] \<and> g = filter (\<lambda>x. key x = k) xs"
proof -
  have "(k, g) \<in> set (group_by key xs) \<longleftrightarrow> map_of (group_by key xs) k = Some g"
    by (rule map_of_eq_Some_iff [OF group_by_keys(1), symmetric])
  then show ?thesis by (auto simp: group_by_map_of)
qed

lemma first_min_None [simp]: "first_min key xs = None \<longleftrightarrow> xs = []"
  by (cases xs) (auto split: option.splits)

lemma first_min_Some:
  "first_min key xs = Some y \<Longrightarrow> y \<in> set xs \<and> (\<forall>x \<in> set xs. text_le (key y) (key x))"
proof (induction xs arbitrary: y)
  case (Cons x xs)
  show ?case
  proof (cases "first_min key xs")
    case None
    then show ?thesis using Cons.prems by simp
  next
    case (Some z)
    then show ?thesis
      using Cons.prems Cons.IH [OF Some] text_le_total [of "key x" "key z"] text_le_trans
      by (auto split: if_splits)
  qed
qed simp

lemma choose_min_Inr [res_simps]: "choose_min key xs = Inr y \<longleftrightarrow> first_min key xs = Some y"
  by (simp add: choose_min_def opt_or_Inr)

lemma choose_min_exists: "xs \<noteq> [] \<Longrightarrow> \<exists>y. choose_min key xs = Inr y"
  by (simp add: choose_min_Inr) (metis first_min_None option.exhaust)

text \<open>The smallest key depends on the elements only, not on their order or multiplicity.\<close>

lemma first_min_set:
  assumes "set xs = set ys" "first_min key xs = Some x" "first_min key ys = Some y"
  shows "key x = key y"
  using assms first_min_Some [of key xs x] first_min_Some [of key ys y] text_le_antisym by blast

lemma several_iff: "several xs \<longleftrightarrow> (\<exists>x \<in> set xs. \<exists>y \<in> set xs. x \<noteq> y)"
proof -
  have "several xs \<longleftrightarrow> \<not> card (set xs) \<le> Suc 0" by (simp add: several_def not_le)
  then show ?thesis by (simp add: card_le_Suc0_iff_eq)
qed

section \<open>What the choice of a snapshot means\<close>

definition order_time :: "kalshi_order \<Rightarrow> int" where
  "order_time r = projr (order_updated_at r)"

lemma is_ok_projr: "is_ok m \<Longrightarrow> m = Inr (projr m)"
  by (cases m) (auto simp: is_ok_def)

lemma snapshots_by_time_Inr:
  "snapshots_by_time xs = Inr g \<longleftrightarrow> (\<forall>r \<in> set xs. is_ok (order_updated_at r)) \<and> g = group_by order_time xs"
proof -
  have "foldE (\<lambda>g r. bindE (order_updated_at r) (\<lambda>t. Inr (add_to_group t r g))) h xs = Inr g \<longleftrightarrow>
    (\<forall>r \<in> set xs. is_ok (order_updated_at r)) \<and> g = fold (\<lambda>r. add_to_group (order_time r) r) xs h" for h
  proof (induction xs arbitrary: h)
    case (Cons r xs)
    show ?case
      by (cases "order_updated_at r") (auto simp: Cons.IH is_ok_def order_time_def)
  qed auto
  then show ?thesis by (simp add: snapshots_by_time_def group_by_def)
qed

definition latest_snapshots :: "kalshi_order list \<Rightarrow> kalshi_order list" where
  "latest_snapshots xs = filter (\<lambda>r. order_time r = Max (order_time ` set xs)) xs"

definition times_conflict :: "(string \<Rightarrow> string) \<Rightarrow> kalshi_order list \<Rightarrow> bool" where
  "times_conflict digest xs =
     (\<exists>r \<in> set xs. \<exists>s \<in> set xs. order_time r = order_time s \<and> order_hash digest r \<noteq> order_hash digest s)"

lemma latest_snapshots_mem:
  "r \<in> set (latest_snapshots xs) \<Longrightarrow> r \<in> set xs \<and> (\<forall>s \<in> set xs. order_time s \<le> order_time r)"
  by (auto simp: latest_snapshots_def)

lemma by_time_latest:
  assumes "xs \<noteq> []"
  shows "map_of (group_by order_time xs) (Max (fst ` set (group_by order_time xs))) = Some (latest_snapshots xs)"
proof -
  have "Max (order_time ` set xs) \<in> order_time ` set xs" using assms by (intro Max_in) auto
  then show ?thesis
    by (auto simp: group_by_map_of group_by_keys(2) latest_snapshots_def filter_empty_conv)
qed

lemma by_time_conflict:
  "list_ex (\<lambda>(_, same_time). several (map (order_hash digest) same_time)) (group_by order_time xs)
     \<longleftrightarrow> times_conflict digest xs"
proof
  assume "list_ex (\<lambda>(_, same_time). several (map (order_hash digest) same_time)) (group_by order_time xs)"
  then show "times_conflict digest xs"
    by (fastforce simp: list_ex_iff group_by_mem several_iff times_conflict_def)
next
  assume "times_conflict digest xs"
  then obtain r s where rs: "r \<in> set xs" "s \<in> set xs" "order_time r = order_time s" "order_hash digest r \<noteq> order_hash digest s"
    by (auto simp: times_conflict_def)
  let ?g = "filter (\<lambda>x. order_time x = order_time r) xs"
  have "(order_time r, ?g) \<in> set (group_by order_time xs)"
    using rs(1) by (auto simp: group_by_mem filter_empty_conv)
  moreover have "several (map (order_hash digest) ?g)" using rs by (auto simp: several_iff)
  ultimately show "list_ex (\<lambda>(_, same_time). several (map (order_hash digest) same_time)) (group_by order_time xs)"
    by (auto simp: list_ex_iff)
qed

lemma dedupe_group_Inr:
  assumes "xs \<noteq> []"
  shows "dedupe_group digest k xs = Inr (r, cs) \<longleftrightarrow>
    (if several (map (order_identity digest) xs)
     then first_min (order_hash digest) xs = Some r \<and> cs = [identity_conflict k]
     else (\<forall>s \<in> set xs. is_ok (order_updated_at s)) \<and> first_min (order_hash digest) (latest_snapshots xs) = Some r
       \<and> cs = (if times_conflict digest xs then [timestamp_conflict k] else []))"
proof (cases "several (map (order_identity digest) xs)")
  case True
  then show ?thesis by (auto simp: dedupe_group_def bindE_eq_Inr choose_min_Inr)
next
  case several: False
  show ?thesis
  proof (cases "snapshots_by_time xs")
    case (Inl e)
    then have "\<not> (\<forall>s \<in> set xs. is_ok (order_updated_at s))" using snapshots_by_time_Inr [of xs] by auto
    then show ?thesis using Inl several by (simp add: dedupe_group_def)
  next
    case (Inr g)
    then have "\<forall>s \<in> set xs. is_ok (order_updated_at s)" "g = group_by order_time xs"
      by (simp_all add: snapshots_by_time_Inr)
    then show ?thesis using Inr several
      by (auto simp: dedupe_group_def Let_def by_time_latest [OF assms] by_time_conflict bindE_eq_Inr choose_min_Inr)
  qed
qed

lemma dedupe_group_chosen:
  assumes "xs \<noteq> []" "dedupe_group digest k xs = Inr (r, cs)"
  shows "r \<in> set xs"
  using assms by (auto simp: dedupe_group_Inr split: if_splits dest!: first_min_Some latest_snapshots_mem)

text \<open>A group without conflicts: one identity, and the choice is the latest state of the order.\<close>

definition snapshots_agree :: "(string \<Rightarrow> string) \<Rightarrow> kalshi_order list \<Rightarrow> kalshi_order \<Rightarrow> bool" where
  "snapshots_agree digest xs r =
     (\<forall>s \<in> set xs. order_identity digest s = order_identity digest r
        \<and> (\<exists>t u. order_updated_at s = Inr t \<and> order_updated_at r = Inr u \<and> t \<le> u
             \<and> (t = u \<longrightarrow> order_hash digest s = order_hash digest r)))"

lemma dedupe_group_agree:
  assumes "xs \<noteq> []" "dedupe_group digest k xs = Inr (r, [])"
  shows "snapshots_agree digest xs r"
proof -
  have d: "\<not> several (map (order_identity digest) xs)" "\<forall>s \<in> set xs. is_ok (order_updated_at s)"
    "first_min (order_hash digest) (latest_snapshots xs) = Some r" "\<not> times_conflict digest xs"
    using assms by (auto simp: dedupe_group_Inr split: if_splits)
  have r: "r \<in> set xs" "\<forall>s \<in> set xs. order_time s \<le> order_time r"
    using first_min_Some [OF d(3)] latest_snapshots_mem by blast+
  have ok: "order_updated_at s = Inr (order_time s)" if "s \<in> set xs" for s
    using d(2) that is_ok_projr unfolding order_time_def by blast
  have same: "order_identity digest s = order_identity digest r" if "s \<in> set xs" for s
    using d(1) r(1) that unfolding several_iff set_map by blast
  have equal: "order_hash digest s = order_hash digest r" if "s \<in> set xs" "order_time s = order_time r" for s
    using d(4) r(1) that unfolding times_conflict_def by blast
  show ?thesis
    unfolding snapshots_agree_def
    by (intro ballI conjI exI impI) (erule same, erule ok, rule ok [OF r(1)], use r(2) in blast, erule (1) equal)
qed

text \<open>The conflicts and the hash of the choice depend on the set of snapshots only.\<close>

lemma dedupe_group_set:
  assumes "set xs = set ys" "xs \<noteq> []" "dedupe_group digest k xs = Inr (r, cs)"
  shows "\<exists>s. dedupe_group digest k ys = Inr (s, cs) \<and> order_hash digest s = order_hash digest r"
proof -
  have ys: "ys \<noteq> []" using assms by auto
  have eqs: "several (map (order_identity digest) xs) = several (map (order_identity digest) ys)"
    "times_conflict digest xs = times_conflict digest ys"
    "set (latest_snapshots xs) = set (latest_snapshots ys)"
    using assms(1) by (simp_all add: several_iff times_conflict_def latest_snapshots_def)
  show ?thesis
  proof (cases "several (map (order_identity digest) xs)")
    case True
    obtain s where s: "first_min (order_hash digest) ys = Some s" using ys by (metis first_min_None option.exhaust)
    then have "order_hash digest s = order_hash digest r"
      using assms True by (intro first_min_set [OF assms(1) [symmetric]]) (auto simp: dedupe_group_Inr)
    then show ?thesis using True s eqs assms ys by (auto simp: dedupe_group_Inr)
  next
    case False
    then have xs: "first_min (order_hash digest) (latest_snapshots xs) = Some r"
      using assms by (simp add: dedupe_group_Inr)
    then have "latest_snapshots ys \<noteq> []"
      using eqs(3) first_min_Some by (metis empty_iff list.set(1))
    then obtain s where s: "first_min (order_hash digest) (latest_snapshots ys) = Some s"
      by (metis first_min_None option.exhaust)
    have "order_hash digest s = order_hash digest r" by (rule first_min_set [OF eqs(3) [symmetric] s xs])
    then show ?thesis using False s eqs assms ys by (auto simp: dedupe_group_Inr)
  qed
qed

text \<open>The loop over the groups, each of them under its own key.\<close>

definition dedupe_groups ::
    "(string \<Rightarrow> string) \<Rightarrow> (string \<times> kalshi_order list) list \<Rightarrow> ((string \<times> kalshi_order) \<times> string list) list res" where
  "dedupe_groups digest = traverseE (\<lambda>(k, xs). bindE (dedupe_group digest k xs) (\<lambda>(r, cs). Inr ((k, r), cs)))"

lemma dedupe_orders_groups:
  "dedupe_orders digest records =
     bindE (dedupe_groups digest (group_by ord_order_id records)) (\<lambda>rs. Inr (map fst rs, concat (map snd rs)))"
proof -
  have "foldE (\<lambda>(chosen, conflicts) (order_id, snapshots).
         bindE (dedupe_group digest order_id snapshots) (\<lambda>(r, more).
         Inr (AList.update order_id r chosen, conflicts @ more))) (m, cs) gs =
      bindE (dedupe_groups digest gs) (\<lambda>rs. Inr (m @ map fst rs, cs @ concat (map snd rs)))"
    if "distinct (map fst gs)" "fst ` set gs \<inter> fst ` set m = {}" for gs m cs
    using that
  proof (induction gs arbitrary: m cs)
    case Nil
    then show ?case by (simp add: dedupe_groups_def)
  next
    case (Cons g gs)
    obtain k xs where g: "g = (k, xs)" by (cases g)
    have k: "map_of m k = None" "k \<notin> fst ` set gs"
      using Cons.prems g by (auto simp: map_of_eq_None_iff)
    show ?case
    proof (cases "dedupe_group digest k xs")
      case (Inl e)
      then show ?thesis by (simp add: g dedupe_groups_def)
    next
      case (Inr rc)
      obtain r c where rc: "rc = (r, c)" by (cases rc)
      have "fst ` set gs \<inter> fst ` set (m @ [(k, r)]) = {}" using Cons.prems k(2) g by auto
      from Cons.IH [OF _ this, of "cs @ c"] Cons.prems(1)
      show ?thesis
        by (cases "dedupe_groups digest gs")
          (simp_all add: g Inr rc update_new [OF k(1)] dedupe_groups_def)
    qed
  qed
  then show ?thesis by (simp add: dedupe_orders_def group_by_keys(1))
qed

lemma traverseE_Inr: "traverseE f xs = Inr ys \<longleftrightarrow> list_all2 (\<lambda>x y. f x = Inr y) xs ys"
proof (induction xs arbitrary: ys)
  case (Cons x xs)
  then show ?case by (cases ys) (auto simp: bindE_eq_Inr)
qed auto

lemma dedupe_groups_Inr:
  "dedupe_groups digest gs = Inr rs \<longleftrightarrow>
     list_all2 (\<lambda>(k, xs) ((j, r), cs). j = k \<and> dedupe_group digest k xs = Inr (r, cs)) gs rs"
  unfolding dedupe_groups_def traverseE_Inr
  by (rule list.rel_cong) (auto simp: bindE_eq_Inr split: prod.splits)

definition snapshots_of :: "string \<Rightarrow> kalshi_order list \<Rightarrow> kalshi_order list" where
  "snapshots_of k xs = filter (\<lambda>r. ord_order_id r = k) xs"

lemma snapshots_of_Nil: "snapshots_of k xs \<noteq> [] \<longleftrightarrow> k \<in> ord_order_id ` set xs"
  by (auto simp: snapshots_of_def filter_empty_conv)

lemma list_all2_partner:
  "list_all2 R xs ys \<Longrightarrow> x \<in> set xs \<Longrightarrow> \<exists>y \<in> set ys. R x y"
  "list_all2 R xs ys \<Longrightarrow> y \<in> set ys \<Longrightarrow> \<exists>x \<in> set xs. R x y"
  by (induction rule: list_all2_induct) auto

lemma group_snapshots:
  "(k, g) \<in> set (group_by ord_order_id xs) \<longleftrightarrow> k \<in> ord_order_id ` set xs \<and> g = snapshots_of k xs"
  unfolding group_by_mem snapshots_of_Nil [symmetric] snapshots_of_def by metis

lemma dedupe_orders_Inr:
  assumes "dedupe_orders digest xs = Inr (m, cs)"
  shows "distinct (map fst m)" and "fst ` set m = ord_order_id ` set xs"
    and "map_of m k = Some r \<longleftrightarrow> k \<in> ord_order_id ` set xs
      \<and> (\<exists>c. dedupe_group digest k (snapshots_of k xs) = Inr (r, c))"
    and "c \<in> set cs \<longleftrightarrow> (\<exists>k r d. k \<in> ord_order_id ` set xs
      \<and> dedupe_group digest k (snapshots_of k xs) = Inr (r, d) \<and> c \<in> set d)"
proof -
  let ?gs = "group_by ord_order_id xs"
  let ?R = "\<lambda>(k, xs) ((j, r), cs). j = k \<and> dedupe_group digest k xs = Inr (r, cs)"
  obtain rs where rs: "list_all2 ?R ?gs rs" and m: "m = map fst rs" and cs: "cs = concat (map snd rs)"
    using assms by (auto simp: dedupe_orders_groups bindE_eq_Inr dedupe_groups_Inr)
  have "map fst ?gs = map (fst \<circ> fst) rs"
    using rs by (induction rule: list_all2_induct) (auto split: prod.splits)
  then have keys: "map fst ?gs = map fst m" by (simp add: m)
  then show d: "distinct (map fst m)" and img: "fst ` set m = ord_order_id ` set xs"
    using group_by_keys [of ord_order_id xs] by (metis list.set_map)+
  note groups = group_snapshots [of _ _ xs]
  have fwd: "k \<in> ord_order_id ` set xs \<and> dedupe_group digest k (snapshots_of k xs) = Inr (r, c)"
    if "((k, r), c) \<in> set rs" for k r c
  proof -
    from list_all2_partner(2) [OF rs that] obtain g where "g \<in> set ?gs" "?R g ((k, r), c)" by blast
    moreover obtain j g' where "g = (j, g')" by (cases g)
    ultimately show ?thesis using groups [of j g'] by simp
  qed
  have bwd: "((k, r), c) \<in> set rs"
    if "k \<in> ord_order_id ` set xs" "dedupe_group digest k (snapshots_of k xs) = Inr (r, c)" for k r c
  proof -
    have "(k, snapshots_of k xs) \<in> set ?gs" using that(1) groups by simp
    from list_all2_partner(1) [OF rs this] obtain y where "y \<in> set rs" "?R (k, snapshots_of k xs) y" by blast
    then show ?thesis using that(2) by (auto split: prod.splits)
  qed
  have mem: "((k, r), c) \<in> set rs \<longleftrightarrow> k \<in> ord_order_id ` set xs
      \<and> dedupe_group digest k (snapshots_of k xs) = Inr (r, c)" for k r c
    using fwd bwd by blast
  have "(k, r) \<in> set m \<longleftrightarrow> (\<exists>c. ((k, r), c) \<in> set rs)" by (force simp: m)
  then show "map_of m k = Some r \<longleftrightarrow> k \<in> ord_order_id ` set xs
      \<and> (\<exists>c. dedupe_group digest k (snapshots_of k xs) = Inr (r, c))"
    by (simp only: map_of_eq_Some_iff [OF d] mem) blast
  have "c \<in> set cs \<longleftrightarrow> (\<exists>k r d. ((k, r), d) \<in> set rs \<and> c \<in> set d)" by (force simp: cs)
  then show "c \<in> set cs \<longleftrightarrow> (\<exists>k r d. k \<in> ord_order_id ` set xs
      \<and> dedupe_group digest k (snapshots_of k xs) = Inr (r, d) \<and> c \<in> set d)"
    by (simp only: mem conj_assoc)
qed

lemma traverseE_ok: "(\<And>x. x \<in> set xs \<Longrightarrow> is_ok (f x)) \<Longrightarrow> \<exists>ys. traverseE f xs = Inr ys"
proof (induction xs)
  case (Cons x xs)
  then obtain ys where "traverseE f xs = Inr ys" by auto
  moreover obtain y where "f x = Inr y" using Cons.prems [of x] by (auto simp: is_ok_iff)
  ultimately show ?case by simp
qed simp

lemma dedupe_orders_ok:
  assumes "\<And>k. k \<in> ord_order_id ` set xs \<Longrightarrow> is_ok (dedupe_group digest k (snapshots_of k xs))"
  shows "\<exists>m cs. dedupe_orders digest xs = Inr (m, cs)"
proof -
  have "\<exists>rs. dedupe_groups digest (group_by ord_order_id xs) = Inr rs"
    unfolding dedupe_groups_def
  proof (rule traverseE_ok)
    fix g assume "g \<in> set (group_by ord_order_id xs)"
    moreover obtain k h where "g = (k, h)" by (cases g)
    ultimately have "g = (k, snapshots_of k xs)" "k \<in> ord_order_id ` set xs" by (simp_all add: group_snapshots)
    with assms show "is_ok ((\<lambda>(k, xs). bindE (dedupe_group digest k xs) (\<lambda>(r, cs). Inr ((k, r), cs))) g)"
      by (fastforce simp: is_ok_iff)
  qed
  then show ?thesis by (auto simp: dedupe_orders_groups)
qed

text \<open>A chosen order is one that was read; without conflicts it stands for all its snapshots.\<close>

lemma dedupe_orders_chosen:
  assumes "dedupe_orders digest xs = Inr (m, cs)" "map_of m k = Some r"
  shows "r \<in> set xs \<and> ord_order_id r = k"
proof -
  obtain c where k: "k \<in> ord_order_id ` set xs" "dedupe_group digest k (snapshots_of k xs) = Inr (r, c)"
    using dedupe_orders_Inr(3) [OF assms(1)] assms(2) by blast
  then have "r \<in> set (snapshots_of k xs)" using dedupe_group_chosen snapshots_of_Nil by blast
  then show ?thesis by (simp add: snapshots_of_def)
qed

lemma dedupe_orders_agree:
  assumes "dedupe_orders digest xs = Inr (m, [])" "map_of m k = Some r"
  shows "snapshots_agree digest (snapshots_of k xs) r"
proof -
  obtain c where k: "k \<in> ord_order_id ` set xs" "dedupe_group digest k (snapshots_of k xs) = Inr (r, c)"
    using dedupe_orders_Inr(3) [OF assms(1)] assms(2) by blast
  moreover have "a \<notin> set c" for a
    using dedupe_orders_Inr(4) [OF assms(1), of a] k by auto
  then have "c = []" by (cases c) auto
  ultimately show ?thesis using dedupe_group_agree snapshots_of_Nil by blast
qed

lemma snapshots_of_set: "set xs = set ys \<Longrightarrow> set (snapshots_of k xs) = set (snapshots_of k ys)"
  by (auto simp: snapshots_of_def)

lemma dedupe_group_of_set:
  assumes "set xs = set ys" "k \<in> ord_order_id ` set xs" "dedupe_group digest k (snapshots_of k xs) = Inr (r, c)"
  shows "\<exists>s. dedupe_group digest k (snapshots_of k ys) = Inr (s, c) \<and> order_hash digest s = order_hash digest r"
  using dedupe_group_set [OF snapshots_of_set [OF assms(1)] _ assms(3)] assms(2) snapshots_of_Nil by blast

lemma conflicts_of_set:
  assumes same: "set xs = set ys" and "dedupe_orders digest xs = Inr (m, cs)" "dedupe_orders digest ys = Inr (m', cs')"
    and "c \<in> set cs"
  shows "c \<in> set cs'"
proof -
  obtain k r d where k: "k \<in> ord_order_id ` set xs" "dedupe_group digest k (snapshots_of k xs) = Inr (r, d)" "c \<in> set d"
    using dedupe_orders_Inr(4) [OF assms(2)] assms(4) by blast
  from dedupe_group_of_set [OF same k(1,2)] obtain s where
    "dedupe_group digest k (snapshots_of k ys) = Inr (s, d)" by blast
  then show ?thesis using dedupe_orders_Inr(4) [OF assms(3)] k same by blast
qed

text \<open>
  Which snapshot is kept of an order, by its hash, and which conflicts are reported depend
  only on which order records were read: the order of the pages, repeated records and whether
  a record came from the current or the historical orders make no difference.
\<close>

theorem order_selection_ignores_arrangement:
  assumes same: "set xs = set ys" and xs: "dedupe_orders digest xs = Inr (m, cs)"
  shows "\<exists>m' cs'. dedupe_orders digest ys = Inr (m', cs') \<and> set cs' = set cs
    \<and> (\<forall>k. map_option (order_hash digest) (map_of m' k) = map_option (order_hash digest) (map_of m k))"
proof -
  have group: "\<exists>r c. dedupe_group digest k (snapshots_of k xs) = Inr (r, c)" if "k \<in> ord_order_id ` set xs" for k
  proof -
    from that obtain r where "map_of m k = Some r"
      using dedupe_orders_Inr(2) [OF xs] by (metis map_of_eq_None_iff option.exhaust)
    then show ?thesis using dedupe_orders_Inr(3) [OF xs] by blast
  qed
  have keys: "ord_order_id ` set ys = ord_order_id ` set xs" using same by simp
  have "is_ok (dedupe_group digest k (snapshots_of k ys))" if "k \<in> ord_order_id ` set ys" for k
  proof -
    from that have k: "k \<in> ord_order_id ` set xs" by (simp only: keys)
    from group [OF k] obtain r c where "dedupe_group digest k (snapshots_of k xs) = Inr (r, c)" by blast
    from dedupe_group_of_set [OF same k this] show ?thesis by (auto simp: is_ok_iff)
  qed
  then obtain m' cs' where ys: "dedupe_orders digest ys = Inr (m', cs')" using dedupe_orders_ok by blast
  have "set cs' = set cs"
    using conflicts_of_set [OF same xs ys] conflicts_of_set [OF same [symmetric] ys xs] by blast
  moreover have "map_option (order_hash digest) (map_of m' k) = map_option (order_hash digest) (map_of m k)" for k
  proof (cases "k \<in> ord_order_id ` set xs")
    case True
    with group obtain r c where r: "dedupe_group digest k (snapshots_of k xs) = Inr (r, c)" by blast
    with dedupe_group_of_set [OF same True this] obtain s where
      s: "dedupe_group digest k (snapshots_of k ys) = Inr (s, c)" "order_hash digest s = order_hash digest r" by blast
    have "map_of m k = Some r" using True r by (subst dedupe_orders_Inr(3) [OF xs]) blast
    moreover have "map_of m' k = Some s" using True s(1) by (subst dedupe_orders_Inr(3) [OF ys]) (simp only: keys, blast)
    ultimately show ?thesis using s(2) by simp
  next
    case False
    then have "map_of m k = None" "map_of m' k = None"
      using dedupe_orders_Inr(2) [OF xs] dedupe_orders_Inr(2) [OF ys] keys by (metis map_of_eq_None_iff)+
    then show ?thesis by simp
  qed
  ultimately show ?thesis using ys by blast
qed

section \<open>The fills that are kept\<close>

definition fills_kept :: "(string \<times> kalshi_fill) list \<Rightarrow> (string \<times> kalshi_fill) list \<Rightarrow> bool" where
  "fills_kept items known =
     (distinct (map fst known) \<and> set known \<subseteq> set items
      \<and> (\<forall>(k, f) \<in> set items. \<exists>g. (k, g) \<in> set known \<and> cov_fill_payload g = cov_fill_payload f))"

lemma add_fill_kept:
  assumes kept: "fills_kept items known" and "add_fill known x = Inr known'"
  shows "fills_kept (items @ [x]) known'"
proof -
  obtain k f where x: "x = (k, f)" by (cases x)
  have d: "distinct (map fst known)" using kept by (simp add: fills_kept_def)
  have known': "known' = AList.update k f known"
    and same: "\<And>g. (k, g) \<in> set known \<Longrightarrow> cov_fill_payload g = cov_fill_payload f"
    using assms(2) map_of_is_SomeI [OF d] by (fastforce simp: add_fill_def x split: if_splits option.splits)+
  have "\<exists>h. (j, h) \<in> set known' \<and> cov_fill_payload h = cov_fill_payload g" if "(j, g) \<in> set items" for j g
  proof -
    from that kept obtain h where h: "(j, h) \<in> set known" "cov_fill_payload h = cov_fill_payload g"
      unfolding fills_kept_def by blast
    show ?thesis
    proof (cases "j = k")
      case True
      with same [of h] h have "cov_fill_payload f = cov_fill_payload g" by simp
      then show ?thesis using True by (auto simp: known' update_set_distinct [OF d])
    next
      case False
      then show ?thesis using h by (auto simp: known' update_set_distinct [OF d])
    qed
  qed
  then show ?thesis
    using kept by (auto simp: fills_kept_def known' x update_set_distinct [OF d] distinct_update)
qed

interpretation swept_fills: page_collector add_fill "[]" "\<lambda>_. True" fills_kept
proof
  show "fills_kept [] []" by (simp add: fills_kept_def)
  show "fills_kept (xs @ [i]) acc'" if "fills_kept xs acc" "add_fill acc i = Inr acc'" for xs acc acc' i
    using that by (rule add_fill_kept)
qed

lemma foldE_map: "foldE g s (map f xs) = foldE (\<lambda>s x. g s (f x)) s xs"
  by (induction xs arbitrary: s) (simp_all add: bindE_def split: sum.splits)

lemma dedupe_fills_kept: "dedupe_fills xs = Inr m \<Longrightarrow> fills_kept (map (\<lambda>f. (fil_fill_id f, f)) xs) m"
  using swept_fills.fold_kept [of "map (\<lambda>f. (fil_fill_id f, f)) xs" m] by (simp add: dedupe_fills_def foldE_map)

lemma merge_fills_kept: "merge_fills [a, b] = Inr m \<Longrightarrow> fills_kept (a @ b) m"
  using swept_fills.fold_kept [of "a @ b" m] by (simp add: merge_fills_def foldE_append bindE_eq_Inr)

text \<open>Every fill that was read is kept, once per fill id.\<close>

lemma all_fills_kept:
  assumes "dedupe_fills xs = Inr a" "dedupe_fills ys = Inr b" "merge_fills [a, b] = Inr m"
  shows "fills_kept (map (\<lambda>f. (fil_fill_id f, f)) (xs @ ys)) m"
proof -
  note a = dedupe_fills_kept [OF assms(1)] and b = dedupe_fills_kept [OF assms(2)]
    and m = merge_fills_kept [OF assms(3)]
  have "\<exists>g. (fil_fill_id f, g) \<in> set m \<and> cov_fill_payload g = cov_fill_payload f" if "f \<in> set (xs @ ys)" for f
  proof -
    from that a b obtain g where "(fil_fill_id f, g) \<in> set (a @ b)" "cov_fill_payload g = cov_fill_payload f"
      unfolding fills_kept_def by fastforce
    then show ?thesis using m unfolding fills_kept_def by fastforce
  qed
  then show ?thesis using a b m unfolding fills_kept_def by fastforce
qed

end
