(* ===== verification/Coverage.thy ===== *)
theory Coverage
  imports CoverageEvidence
begin

text \<open>
  The sweep of \<open>services/kalshi_portfolio_coverage.py\<close>: read everything of one authenticated
  principal, choose and check the evidence, and store it with a checkpoint in one transaction
  that a lease may fence. The tables are those of \<open>models/database.py\<close>; the provider's reads,
  SHA-256 and the clock are arguments. A sweep reads the checkpoints of \<open>db0\<close> first, then the
  venue, then the ledger, and its transaction starts from \<open>db1\<close>.
\<close>

section \<open>The tables\<close>

record lease_row =
  ls_principal :: string
  ls_owner :: string
  ls_fence :: int
  ls_expires_at :: int

record identity_row =
  iy_principal :: string
  iy_order_id :: string
  iy_hash :: string
  iy_json :: pydict
  iy_first_observed_at :: int

record order_observation =
  oo_principal :: string
  oo_order_id :: string
  oo_hash :: string
  oo_payload :: pydict
  oo_updated_at :: int
  oo_first_observed_at :: int

record fill_observation =
  fo_principal :: string
  fo_fill_id :: string
  fo_hash :: string
  fo_order_id :: string
  fo_payload :: pydict
  fo_created_at :: int
  fo_first_observed_at :: int

record checkpoint_row =
  cp_principal :: string
  cp_coverage_id :: string
  cp_observed_at :: int
  cp_orders_cutoff_before :: int
  cp_orders_cutoff_after :: int
  cp_fills_cutoff_before :: int
  cp_fills_cutoff_after :: int
  cp_current_orders_pages :: nat
  cp_current_fills_pages :: nat
  cp_historical_orders_pages :: nat
  cp_historical_fills_pages :: nat
  cp_current_orders_unique :: nat
  cp_current_fills_unique :: nat
  cp_historical_orders_unique :: nat
  cp_historical_fills_unique :: nat
  cp_orders_unique :: nat
  cp_fills_unique :: nat
  cp_evidence_hash :: string
  cp_unknown_order_ids :: "string list"
  cp_unknown_client_order_ids :: "string list"
  cp_unknown_fill_ids :: "string list"
  cp_status :: string
  cp_reason :: string
  cp_retry_allowed :: bool

record order_member =
  om_principal :: string
  om_coverage_id :: string
  om_order_id :: string
  om_hash :: string

record fill_member =
  fm_principal :: string
  fm_coverage_id :: string
  fm_fill_id :: string

record coverage_db =
  cv_leases :: "lease_row list"
  cv_identities :: "identity_row list"
  cv_orders :: "order_observation list"
  cv_fills :: "fill_observation list"
  cv_checkpoints :: "checkpoint_row list"
  cv_order_members :: "order_member list"
  cv_fill_members :: "fill_member list"

text \<open>The primary keys.\<close>

definition identity_key :: "identity_row \<Rightarrow> string \<times> string" where
  "identity_key x = (iy_principal x, iy_order_id x)"

definition order_key :: "order_observation \<Rightarrow> string \<times> string \<times> string" where
  "order_key x = (oo_principal x, oo_order_id x, oo_hash x)"

definition fill_key :: "fill_observation \<Rightarrow> string \<times> string" where
  "fill_key x = (fo_principal x, fo_fill_id x)"

definition checkpoint_key :: "checkpoint_row \<Rightarrow> string \<times> string" where
  "checkpoint_key x = (cp_principal x, cp_coverage_id x)"

definition order_member_key :: "order_member \<Rightarrow> string \<times> string \<times> string" where
  "order_member_key x = (om_principal x, om_coverage_id x, om_order_id x)"

definition fill_member_key :: "fill_member \<Rightarrow> string \<times> string \<times> string" where
  "fill_member_key x = (fm_principal x, fm_coverage_id x, fm_fill_id x)"

section \<open>The service and its lease\<close>

record coverage_service =
  cs_lease :: "(string \<times> int) option"

definition make_coverage_service :: "string option \<Rightarrow> int option \<Rightarrow> coverage_service res" where
  "make_coverage_service owner fence =
     (case (owner, fence) of
        (None, None) \<Rightarrow> Inr \<lparr>cs_lease = None\<rparr>
      | (Some o1, Some n) \<Rightarrow>
          if strip o1 = [] \<or> n \<le> 0 then Inl (ValueError ''coverage lease owner and fence token must be valid'')
          else Inr \<lparr>cs_lease = Some (strip o1, n)\<rparr>
      | _ \<Rightarrow> Inl (ValueError ''coverage lease owner and fence token must be supplied together''))"

text \<open>The row locked by \<open>with_for_update\<close> and compared with what the worker believes it owns.\<close>

definition lease_guard :: "coverage_service \<Rightarrow> py_datetime \<Rightarrow> string \<Rightarrow> coverage_db \<Rightarrow> unit res" where
  "lease_guard svc now fp db =
     (case cs_lease svc of
        None \<Rightarrow> Inr ()
      | Some (owner, fence) \<Rightarrow>
          bindE (aware_instant now ''coverage lease clock must be timezone-aware'') (\<lambda>t.
          case List.find (\<lambda>l. ls_principal l = fp) (cv_leases db) of
            None \<Rightarrow> Inl (KalshiPortfolioCoverageLeaseError ''portfolio coverage lease fence changed or expired'')
          | Some l \<Rightarrow>
              if ls_owner l \<noteq> owner \<or> ls_fence l \<noteq> fence \<or> ls_expires_at l \<le> t
              then Inl (KalshiPortfolioCoverageLeaseError ''portfolio coverage lease fence changed or expired'')
              else Inr ()))"

definition load_checkpoint ::
    "coverage_service \<Rightarrow> py_datetime \<Rightarrow> string \<Rightarrow> string \<Rightarrow> coverage_db \<Rightarrow> checkpoint_row option res" where
  "load_checkpoint svc now fp coverage_id db =
     bindE (lease_guard svc now fp db) (\<lambda>_. Inr (row_of checkpoint_key (fp, coverage_id) (cv_checkpoints db)))"

section \<open>Results and checkpoints\<close>

datatype coverage_status = Complete | Incomplete

fun coverage_status_text :: "coverage_status \<Rightarrow> string" where
  "coverage_status_text Complete = ''complete''"
| "coverage_status_text Incomplete = ''incomplete''"

definition coverage_status_of :: "string \<Rightarrow> coverage_status option" where
  "coverage_status_of s =
     (if s = ''complete'' then Some Complete else if s = ''incomplete'' then Some Incomplete else None)"

text \<open>\<open>page_counts\<close> and \<open>unique_counts\<close> are dictionaries with fixed keys.\<close>

record page_counts =
  pc_current_orders :: nat
  pc_current_fills :: nat
  pc_historical_orders :: nat
  pc_historical_fills :: nat

record unique_counts = page_counts +
  pc_orders :: nat
  pc_fills :: nat

record coverage_result =
  cr_principal :: string
  cr_coverage_id :: string
  cr_observed_at :: int
  cr_status :: coverage_status
  cr_reason :: string
  cr_page_counts :: page_counts
  cr_unique_counts :: unique_counts
  cr_evidence_hash :: string
  cr_unknown_order_ids :: "string list"
  cr_unknown_client_order_ids :: "string list"
  cr_unknown_fill_ids :: "string list"
  cr_retry_allowed :: bool

definition checkpoint_from_result :: "coverage_result \<Rightarrow> kalshi_cutoff \<Rightarrow> kalshi_cutoff \<Rightarrow> checkpoint_row" where
  "checkpoint_from_result r before after =
     (let p = cr_page_counts r; u = cr_unique_counts r in
      \<lparr>cp_principal = cr_principal r, cp_coverage_id = cr_coverage_id r, cp_observed_at = cr_observed_at r,
       cp_orders_cutoff_before = cut_orders_updated_at before, cp_orders_cutoff_after = cut_orders_updated_at after,
       cp_fills_cutoff_before = cut_trades_created_at before, cp_fills_cutoff_after = cut_trades_created_at after,
       cp_current_orders_pages = pc_current_orders p, cp_current_fills_pages = pc_current_fills p,
       cp_historical_orders_pages = pc_historical_orders p, cp_historical_fills_pages = pc_historical_fills p,
       cp_current_orders_unique = pc_current_orders u, cp_current_fills_unique = pc_current_fills u,
       cp_historical_orders_unique = pc_historical_orders u, cp_historical_fills_unique = pc_historical_fills u,
       cp_orders_unique = pc_orders u, cp_fills_unique = pc_fills u, cp_evidence_hash = cr_evidence_hash r,
       cp_unknown_order_ids = cr_unknown_order_ids r,
       cp_unknown_client_order_ids = cr_unknown_client_order_ids r,
       cp_unknown_fill_ids = cr_unknown_fill_ids r, cp_status = coverage_status_text (cr_status r),
       cp_reason = cr_reason r, cp_retry_allowed = False\<rparr>)"

definition result_from_checkpoint :: "checkpoint_row \<Rightarrow> coverage_result res" where
  "result_from_checkpoint c =
     (case coverage_status_of (cp_status c) of
        None \<Rightarrow> cov_error ''persisted Kalshi coverage checkpoint is invalid''
      | Some st \<Rightarrow>
          if cp_retry_allowed c then cov_error ''persisted Kalshi coverage checkpoint is invalid''
          else Inr \<lparr>cr_principal = cp_principal c, cr_coverage_id = cp_coverage_id c,
            cr_observed_at = cp_observed_at c, cr_status = st, cr_reason = cp_reason c,
            cr_page_counts = \<lparr>pc_current_orders = cp_current_orders_pages c, pc_current_fills = cp_current_fills_pages c,
              pc_historical_orders = cp_historical_orders_pages c, pc_historical_fills = cp_historical_fills_pages c\<rparr>,
            cr_unique_counts = \<lparr>pc_current_orders = cp_current_orders_unique c, pc_current_fills = cp_current_fills_unique c,
              pc_historical_orders = cp_historical_orders_unique c, pc_historical_fills = cp_historical_fills_unique c,
              pc_orders = cp_orders_unique c, pc_fills = cp_fills_unique c\<rparr>,
            cr_evidence_hash = cp_evidence_hash c, cr_unknown_order_ids = cp_unknown_order_ids c,
            cr_unknown_client_order_ids = cp_unknown_client_order_ids c,
            cr_unknown_fill_ids = cp_unknown_fill_ids c, cr_retry_allowed = False\<rparr>)"

section \<open>Reading the portfolio\<close>

text \<open>\<open>_traverse\<close>: the pages, in order.\<close>

definition traverse_pages ::
    "string \<Rightarrow> (nat \<Rightarrow> string option \<Rightarrow> 'i page res) \<Rightarrow> 'i list list res option" where
  "traverse_pages source getter =
     read_pages (\<lambda>n c. bindE (getter n c) (\<lambda>(items, next). Inr ([items], next)))
       (\<lambda>pages items. Inr (pages @ [items]))
       (KalshiPortfolioCoverageConflictError (''Kalshi '' @ source @ '' pagination cursor repeated'')) []"

text \<open>The provider (\<open>KalshiPortfolioReadClient\<close>); the historical reads take a \<open>max_ts\<close>.\<close>

record coverage_client =
  cc_principal_fingerprint :: string
  cc_cutoff :: "nat \<Rightarrow> kalshi_cutoff res"
  cc_orders :: "nat \<Rightarrow> string option \<Rightarrow> kalshi_order page res"
  cc_fills :: "nat \<Rightarrow> string option \<Rightarrow> kalshi_fill page res"
  cc_historical_orders :: "int \<Rightarrow> nat \<Rightarrow> string option \<Rightarrow> kalshi_order page res"
  cc_historical_fills :: "int \<Rightarrow> nat \<Rightarrow> string option \<Rightarrow> kalshi_fill page res"

record portfolio_reads =
  pr_cutoff_before :: kalshi_cutoff
  pr_orders :: "kalshi_order list list"
  pr_fills :: "kalshi_fill list list"
  pr_historical_orders :: "kalshi_order list list"
  pr_historical_fills :: "kalshi_fill list list"
  pr_cutoff_after :: kalshi_cutoff

text \<open>Sequencing of reads that may not come back (\<open>None\<close>) or raise.\<close>

definition bindO :: "'a res option \<Rightarrow> ('a \<Rightarrow> 'b res option) \<Rightarrow> 'b res option" where
  "bindO m f = (case m of None \<Rightarrow> None | Some (Inl e) \<Rightarrow> Some (Inl e) | Some (Inr x) \<Rightarrow> f x)"

definition read_portfolio :: "coverage_client \<Rightarrow> portfolio_reads res option" where
  "read_portfolio c =
     bindO (Some (cc_cutoff c 0)) (\<lambda>before.
     bindO (traverse_pages ''current orders'' (cc_orders c)) (\<lambda>orders.
     bindO (traverse_pages ''current fills'' (cc_fills c)) (\<lambda>fills.
     bindO (traverse_pages ''historical orders''
       (cc_historical_orders c (ceil_epoch (cut_orders_updated_at before)))) (\<lambda>historical_orders.
     bindO (traverse_pages ''historical fills''
       (cc_historical_fills c (ceil_epoch (cut_trades_created_at before)))) (\<lambda>historical_fills.
     bindO (Some (cc_cutoff c 1)) (\<lambda>after.
     Some (Inr \<lparr>pr_cutoff_before = before, pr_orders = orders, pr_fills = fills,
       pr_historical_orders = historical_orders, pr_historical_fills = historical_fills,
       pr_cutoff_after = after\<rparr>)))))))"

section \<open>Judging what was read\<close>

record assessment =
  as_orders :: "(string \<times> kalshi_order) list"
  as_fills :: "(string \<times> kalshi_fill) list"
  as_unique :: unique_counts
  as_reasons :: "string list"

definition assess :: "(string \<Rightarrow> string) \<Rightarrow> portfolio_reads \<Rightarrow> assessment res" where
  "assess digest r =
     (let current = concat (pr_orders r); historical = concat (pr_historical_orders r) in
      bindE (dedupe_orders digest current) (\<lambda>(current_map, current_conflicts).
      bindE (dedupe_orders digest historical) (\<lambda>(historical_map, historical_conflicts).
      bindE (dedupe_orders digest (current @ historical)) (\<lambda>(orders, overlap_conflicts).
      bindE (dedupe_fills (concat (pr_fills r))) (\<lambda>current_fills.
      bindE (dedupe_fills (concat (pr_historical_fills r))) (\<lambda>historical_fills.
      bindE (merge_fills [current_fills, historical_fills]) (\<lambda>fills.
      Inr \<lparr>as_orders = orders, as_fills = fills,
        as_unique = \<lparr>pc_current_orders = length current_map, pc_current_fills = length current_fills,
          pc_historical_orders = length historical_map, pc_historical_fills = length historical_fills,
          pc_orders = length orders, pc_fills = length fills\<rparr>,
        as_reasons = current_conflicts @ historical_conflicts @ overlap_conflicts
          @ cutoff_drift (pr_cutoff_before r) (pr_cutoff_after r) @ orphan_fills orders fills
          @ user_conflict digest orders @ fill_mismatches orders fills @ count_mismatches orders fills\<rparr>)))))))"

section \<open>What the ledger knows of it\<close>

definition intent_matches_order :: "venue_order_intent \<Rightarrow> kalshi_order \<Rightarrow> bool" where
  "intent_matches_order i r =
     (ord_client_order_id r = vi_client_order_id i \<and> ord_ticker r = vi_instrument_id i
      \<and> ord_book_side r = vi_book_side i \<and> ord_order_type r = Limit
      \<and> dval (ord_initial_count r) = dval (vi_quantity i) \<and> dval (effective_price r) = dval (vi_limit_price i))"

text \<open>The joined rows, in the order of the tables; the database leaves it open.\<close>

definition acknowledged_intents ::
    "string \<Rightarrow> (string \<times> kalshi_order) list \<Rightarrow> ledger \<Rightarrow> (intent_row \<times> ack_row) list" where
  "acknowledged_intents fp orders lg =
     [(i, a). i \<leftarrow> lg_intents lg, a \<leftarrow> lg_acks lg, ar_intent_id a = ir_id i \<and> vi_venue (ir_intent i) = Kalshi
        \<and> pv_fingerprint (ir_provenance i) = Some fp \<and> ar_provider_order_id a \<in> fst ` set orders]"

definition known_order_owners ::
    "(string \<times> kalshi_order) list \<Rightarrow> (intent_row \<times> ack_row) list \<Rightarrow> (string \<times> string) list" where
  "known_order_owners orders rows =
     fold (\<lambda>(i, a) owners. case map_of orders (ar_provider_order_id a) of
         None \<Rightarrow> owners
       | Some r \<Rightarrow> if intent_matches_order (ir_intent i) r then AList.update (ord_order_id r) (ir_id i) owners else owners)
       rows []"

definition event_is_known_fill ::
    "(string \<times> string) list \<Rightarrow> (string \<times> kalshi_fill) list \<Rightarrow> event_row \<Rightarrow> bool" where
  "event_is_known_fill owners fills e =
     (ev_venue e = Kalshi \<and> ev_event_type e = ''fill_observed'' \<and> ev_intent_id e \<in> snd ` set owners
      \<and> (case (ev_provider_event_id e, ev_provider_order_id e) of
           (Some pe, Some po) \<Rightarrow>
             map_of owners po = Some (ev_intent_id e)
             \<and> (case map_of fills pe of None \<Rightarrow> False | Some f \<Rightarrow> fil_order_id f = po)
         | _ \<Rightarrow> False))"

definition known_local_evidence ::
    "string \<Rightarrow> (string \<times> kalshi_order) list \<Rightarrow> (string \<times> kalshi_fill) list \<Rightarrow> ledger \<Rightarrow> string list \<times> string list" where
  "known_local_evidence fp orders fills lg =
     (if orders = [] then ([], [])
      else let owners = known_order_owners orders (acknowledged_intents fp orders lg) in
        if owners = [] \<or> fills = [] then (map fst owners, [])
        else (map fst owners,
              List.map_filter ev_provider_event_id (filter (event_is_known_fill owners fills) (lg_events lg))))"

section \<open>The result\<close>

definition observed_evidence_hash ::
    "(string \<Rightarrow> string) \<Rightarrow> (string \<times> kalshi_order) list \<Rightarrow> (string \<times> kalshi_fill) list \<Rightarrow> string" where
  "observed_evidence_hash digest orders fills = evidence_hash digest
     [(''orders'', PList (map (\<lambda>(k, r). PList [PStr k, PStr (order_hash digest r)]) (sort_items orders))),
      (''fills'', PList (map (\<lambda>(k, f). PList [PStr k, PStr (fill_hash digest f)]) (sort_items fills)))]"

definition coverage_result_of ::
    "(string \<Rightarrow> string) \<Rightarrow> string \<Rightarrow> string \<Rightarrow> int \<Rightarrow> portfolio_reads \<Rightarrow> assessment \<Rightarrow> ledger \<Rightarrow> coverage_result" where
  "coverage_result_of digest fp coverage_id observed_at r a lg =
     (let (known_orders, known_fills) = known_local_evidence fp (as_orders a) (as_fills a) lg;
          unknown_order_ids = sort_texts (filter (\<lambda>k. k \<notin> set known_orders) (map fst (as_orders a)))
      in \<lparr>cr_principal = fp, cr_coverage_id = coverage_id, cr_observed_at = observed_at,
          cr_status = (if as_reasons a = [] then Complete else Incomplete),
          cr_reason = reason_text (as_reasons a),
          cr_page_counts = \<lparr>pc_current_orders = length (pr_orders r), pc_current_fills = length (pr_fills r),
            pc_historical_orders = length (pr_historical_orders r),
            pc_historical_fills = length (pr_historical_fills r)\<rparr>,
          cr_unique_counts = as_unique a,
          cr_evidence_hash = observed_evidence_hash digest (as_orders a) (as_fills a),
          cr_unknown_order_ids = unknown_order_ids,
          cr_unknown_client_order_ids = sort_texts (remdups
            (map (\<lambda>k. ord_client_order_id (the (map_of (as_orders a) k))) unknown_order_ids)),
          cr_unknown_fill_ids = sort_texts (filter (\<lambda>k. k \<notin> set known_fills) (map fst (as_fills a))),
          cr_retry_allowed = False\<rparr>)"

section \<open>The transaction\<close>

definition store_order ::
    "(string \<Rightarrow> string) \<Rightarrow> string \<Rightarrow> int \<Rightarrow> string \<times> kalshi_order \<Rightarrow> (coverage_db, unit) action" where
  "store_order digest fp observed_at = (\<lambda>(order_id, r).
     let ih = identity_hash digest r; h = order_hash digest r; payload = cov_order_payload digest r in
     bindA (insert_ignore identity_key cv_identities (\<lambda>f s. s\<lparr>cv_identities := f (cv_identities s)\<rparr>)
       (sha256_text fp \<and> not_blank order_id \<and> sha256_text ih)
       \<lparr>iy_principal = fp, iy_order_id = order_id, iy_hash = ih, iy_json = order_identity digest r,
        iy_first_observed_at = observed_at\<rparr>) (\<lambda>_.
     bindA (readA (\<lambda>s. row_of identity_key (fp, order_id) (cv_identities s))) (\<lambda>known.
     if (case known of None \<Rightarrow> True | Some x \<Rightarrow> iy_hash x \<noteq> ih)
     then liftE (cov_error (''order_id '' @ repr_str order_id @ '' conflicts with durable immutable order identity''))
     else bindA (liftE (order_updated_at r)) (\<lambda>updated_at.
     bindA (insert_ignore order_key cv_orders (\<lambda>f s. s\<lparr>cv_orders := f (cv_orders s)\<rparr>)
       (sha256_text fp \<and> not_blank order_id \<and> sha256_text h)
       \<lparr>oo_principal = fp, oo_order_id = order_id, oo_hash = h, oo_payload = payload, oo_updated_at = updated_at,
        oo_first_observed_at = observed_at\<rparr>) (\<lambda>_.
     bindA (readA (\<lambda>s. row_of order_key (fp, order_id, h) (cv_orders s))) (\<lambda>seen.
     if (case seen of None \<Rightarrow> True | Some x \<Rightarrow> oo_payload x \<noteq> payload)
     then liftE (cov_error (''order_id '' @ repr_str order_id @ '' conflicts with durable order snapshot''))
     else liftE (Inr ())))))))"

definition store_fill ::
    "(string \<Rightarrow> string) \<Rightarrow> string \<Rightarrow> int \<Rightarrow> string \<times> kalshi_fill \<Rightarrow> (coverage_db, unit) action" where
  "store_fill digest fp observed_at = (\<lambda>(fill_id, f).
     let h = fill_hash digest f in
     bindA (liftE (fill_created_at f)) (\<lambda>created_at.
     bindA (insert_ignore fill_key cv_fills (\<lambda>g s. s\<lparr>cv_fills := g (cv_fills s)\<rparr>)
       (sha256_text fp \<and> not_blank fill_id \<and> not_blank (fil_order_id f) \<and> sha256_text h)
       \<lparr>fo_principal = fp, fo_fill_id = fill_id, fo_hash = h, fo_order_id = fil_order_id f,
        fo_payload = cov_fill_payload f, fo_created_at = created_at, fo_first_observed_at = observed_at\<rparr>) (\<lambda>_.
     bindA (readA (\<lambda>s. row_of fill_key (fp, fill_id) (cv_fills s))) (\<lambda>known.
     if (case known of None \<Rightarrow> True | Some x \<Rightarrow> fo_hash x \<noteq> h)
     then liftE (cov_error (''fill_id '' @ repr_str fill_id @ '' conflicts with durable fill evidence''))
     else liftE (Inr ())))))"

text \<open>
  The rows given to \<open>session.add\<close> reach the tables when the session is flushed, those a
  foreign key names first.
\<close>

definition checkpoint_valid :: "checkpoint_row \<Rightarrow> bool" where
  "checkpoint_valid c =
     (sha256_text (cp_principal c) \<and> not_blank (cp_coverage_id c)
      \<and> cp_status c \<in> {''complete'', ''incomplete''} \<and> not_blank (cp_reason c) \<and> \<not> cp_retry_allowed c
      \<and> 0 < cp_current_orders_pages c \<and> 0 < cp_current_fills_pages c
      \<and> 0 < cp_historical_orders_pages c \<and> 0 < cp_historical_fills_pages c \<and> sha256_text (cp_evidence_hash c))"

definition add_checkpoint :: "checkpoint_row \<Rightarrow> (coverage_db, unit) action" where
  "add_checkpoint c =
     insert_row checkpoint_key cv_checkpoints (\<lambda>f s. s\<lparr>cv_checkpoints := f (cv_checkpoints s)\<rparr>)
       (\<lambda>s. checkpoint_valid c) c"

definition add_order_member :: "order_member \<Rightarrow> (coverage_db, unit) action" where
  "add_order_member m =
     insert_row order_member_key cv_order_members (\<lambda>f s. s\<lparr>cv_order_members := f (cv_order_members s)\<rparr>)
       (\<lambda>s. row_of order_key (om_principal m, om_order_id m, om_hash m) (cv_orders s) \<noteq> None
          \<and> row_of checkpoint_key (om_principal m, om_coverage_id m) (cv_checkpoints s) \<noteq> None) m"

definition add_fill_member :: "fill_member \<Rightarrow> (coverage_db, unit) action" where
  "add_fill_member m =
     insert_row fill_member_key cv_fill_members (\<lambda>f s. s\<lparr>cv_fill_members := f (cv_fill_members s)\<rparr>)
       (\<lambda>s. row_of fill_key (fm_principal m, fm_fill_id m) (cv_fills s) \<noteq> None
          \<and> row_of checkpoint_key (fm_principal m, fm_coverage_id m) (cv_checkpoints s) \<noteq> None) m"

definition order_member_of :: "(string \<Rightarrow> string) \<Rightarrow> string \<Rightarrow> string \<Rightarrow> string \<times> kalshi_order \<Rightarrow> order_member" where
  "order_member_of digest fp coverage_id = (\<lambda>(order_id, r).
     \<lparr>om_principal = fp, om_coverage_id = coverage_id, om_order_id = order_id, om_hash = order_hash digest r\<rparr>)"

definition fill_member_of :: "string \<Rightarrow> string \<Rightarrow> string \<times> kalshi_fill \<Rightarrow> fill_member" where
  "fill_member_of fp coverage_id = (\<lambda>(fill_id, f).
     \<lparr>fm_principal = fp, fm_coverage_id = coverage_id, fm_fill_id = fill_id\<rparr>)"

definition commit_coverage ::
    "(string \<Rightarrow> string) \<Rightarrow> coverage_service \<Rightarrow> py_datetime \<Rightarrow> coverage_result \<Rightarrow> portfolio_reads \<Rightarrow> assessment
       \<Rightarrow> (coverage_db, unit) action" where
  "commit_coverage digest svc now result r a =
     (let fp = cr_principal result; t = cr_observed_at result; cid = cr_coverage_id result;
          orders = sort_items (as_orders a); fills = sort_items (as_fills a) in
      bindA (readA (lease_guard svc now fp)) (\<lambda>guard.
      bindA (liftE guard) (\<lambda>_.
      bindA (eachA (store_order digest fp t) orders) (\<lambda>_.
      bindA (eachA (store_fill digest fp t) fills) (\<lambda>_.
      bindA (add_checkpoint (checkpoint_from_result result (pr_cutoff_before r) (pr_cutoff_after r))) (\<lambda>_.
      bindA (eachA (\<lambda>x. add_order_member (order_member_of digest fp cid x)) orders) (\<lambda>_.
      eachA (\<lambda>x. add_fill_member (fill_member_of fp cid x)) fills)))))))"

text \<open>The \<open>except IntegrityError\<close>: a concurrent sweep may have stored the same result.\<close>

definition recover_coverage ::
    "coverage_service \<Rightarrow> py_datetime \<Rightarrow> coverage_result \<Rightarrow> coverage_db \<Rightarrow> coverage_result res" where
  "recover_coverage svc now result db =
     (let conflict = KalshiPortfolioCoverageConflictError
            ''coverage_id or durable observation conflicted with concurrently committed evidence'' in
      bindE (load_checkpoint svc now (cr_principal result) (cr_coverage_id result) db) (\<lambda>concurrent.
      case concurrent of
        None \<Rightarrow> Inl conflict
      | Some c \<Rightarrow> bindE (result_from_checkpoint c) (\<lambda>r. if r = result then Inr result else Inl conflict)))"

definition finish_coverage ::
    "coverage_service \<Rightarrow> py_datetime \<Rightarrow> coverage_result \<Rightarrow> unit res \<Rightarrow> coverage_db \<Rightarrow> coverage_result res" where
  "finish_coverage svc now result committed db =
     (case committed of
        Inr _ \<Rightarrow> Inr result
      | Inl e \<Rightarrow> (case e of IntegrityError _ \<Rightarrow> recover_coverage svc now result db | _ \<Rightarrow> Inl e))"

definition sweep ::
    "(string \<Rightarrow> string) \<Rightarrow> coverage_service \<Rightarrow> (nat \<Rightarrow> py_datetime) \<Rightarrow> coverage_client \<Rightarrow> string \<Rightarrow> py_datetime
       \<Rightarrow> coverage_db \<Rightarrow> ledger \<Rightarrow> coverage_db \<Rightarrow> (coverage_result res \<times> coverage_db) option" where
  "sweep digest svc now client raw_id raw_at db0 lg db1 =
     (let fp = cc_principal_fingerprint client; coverage_id = strip raw_id in
      if \<not> sha256_text fp then Some (cov_error ''Kalshi client principal fingerprint is invalid'', db1)
      else if coverage_id = [] then Some (Inl (ValueError ''coverage_id is required''), db1) else
      case aware_instant raw_at ''observed_at must be timezone-aware'' of
        Inl e \<Rightarrow> Some (Inl e, db1)
      | Inr observed_at \<Rightarrow>
      case load_checkpoint svc (now 0) fp coverage_id db0 of
        Inl e \<Rightarrow> Some (Inl e, db1)
      | Inr (Some c) \<Rightarrow> Some (result_from_checkpoint c, db1)
      | Inr None \<Rightarrow>
      case read_portfolio client of
        None \<Rightarrow> None
      | Some (Inl e) \<Rightarrow> Some (Inl e, db1)
      | Some (Inr r) \<Rightarrow>
      case assess digest r of
        Inl e \<Rightarrow> Some (Inl e, db1)
      | Inr a \<Rightarrow>
      let result = coverage_result_of digest fp coverage_id observed_at r a lg in
      let (committed, db2) = transaction (commit_coverage digest svc (now 1) result r a) db1 in
      Some (finish_coverage svc (now 2) result committed db2, db2))"

end
