(* ===== verification/CoverageStore.thy ===== *)
theory CoverageStore
  imports Coverage
begin

text \<open>
  What a sweep does to the tables: it only appends, keeps the evidence consistent with its
  hashes and the memberships with what they name, and leaves nothing behind when it fails.
\<close>

section \<open>The invariant of the tables\<close>

text \<open>The identity of an order, read back from a stored payload.\<close>

definition payload_identity :: "pydict \<Rightarrow> pydict" where
  "payload_identity p = map (\<lambda>k. (k, py_get p k)) order_immutable_fields"

definition keys_unique :: "coverage_db \<Rightarrow> bool" where
  "keys_unique db =
     (distinct (map identity_key (cv_identities db)) \<and> distinct (map order_key (cv_orders db))
      \<and> distinct (map fill_key (cv_fills db)) \<and> distinct (map checkpoint_key (cv_checkpoints db))
      \<and> distinct (map order_member_key (cv_order_members db)) \<and> distinct (map fill_member_key (cv_fill_members db)))"

definition hashes_match :: "(string \<Rightarrow> string) \<Rightarrow> coverage_db \<Rightarrow> bool" where
  "hashes_match digest db =
     ((\<forall>x \<in> set (cv_identities db). iy_hash x = evidence_hash digest (iy_json x))
      \<and> (\<forall>x \<in> set (cv_orders db). oo_hash x = evidence_hash digest (oo_payload x))
      \<and> (\<forall>x \<in> set (cv_fills db). fo_hash x = evidence_hash digest (fo_payload x)))"

text \<open>All stored states of an order agree with its durable identity.\<close>

definition identities_hold :: "(string \<Rightarrow> string) \<Rightarrow> coverage_db \<Rightarrow> bool" where
  "identities_hold digest db =
     (\<forall>x \<in> set (cv_orders db). \<exists>y. row_of identity_key (oo_principal x, oo_order_id x) (cv_identities db) = Some y
        \<and> iy_hash y = evidence_hash digest (payload_identity (oo_payload x)))"

definition members_exist :: "coverage_db \<Rightarrow> bool" where
  "members_exist db =
     ((\<forall>m \<in> set (cv_order_members db).
         row_of order_key (om_principal m, om_order_id m, om_hash m) (cv_orders db) \<noteq> None
         \<and> row_of checkpoint_key (om_principal m, om_coverage_id m) (cv_checkpoints db) \<noteq> None)
      \<and> (\<forall>m \<in> set (cv_fill_members db).
         row_of fill_key (fm_principal m, fm_fill_id m) (cv_fills db) \<noteq> None
         \<and> row_of checkpoint_key (fm_principal m, fm_coverage_id m) (cv_checkpoints db) \<noteq> None))"

definition coverage_ok :: "(string \<Rightarrow> string) \<Rightarrow> coverage_db \<Rightarrow> bool" where
  "coverage_ok digest db =
     (keys_unique db \<and> hashes_match digest db \<and> identities_hold digest db \<and> members_exist db
      \<and> (\<forall>c \<in> set (cv_checkpoints db). checkpoint_valid c))"

definition coverage_extends :: "coverage_db \<Rightarrow> coverage_db \<Rightarrow> bool" where
  "coverage_extends db db' =
     (cv_leases db' = cv_leases db \<and> extends (cv_identities db) (cv_identities db')
      \<and> extends (cv_orders db) (cv_orders db') \<and> extends (cv_fills db) (cv_fills db')
      \<and> extends (cv_checkpoints db) (cv_checkpoints db')
      \<and> extends (cv_order_members db) (cv_order_members db')
      \<and> extends (cv_fill_members db) (cv_fill_members db'))"

lemma coverage_extends_refl: "reflp coverage_extends"
  by (auto simp: coverage_extends_def intro: reflpI)

lemma coverage_extends_trans: "transp coverage_extends"
  by (rule transpI) (auto simp: coverage_extends_def intro: extends_trans)

lemmas coverage_advances = advances_liftE [OF coverage_extends_refl] advances_readA [OF coverage_extends_refl]
  advances_bindA [OF coverage_extends_trans] advances_eachA [OF coverage_extends_refl coverage_extends_trans]
  advances_let advances_prod

lemma order_identity_payload: "order_identity digest r = payload_identity (cov_order_payload digest r)"
  by (simp add: order_identity_def payload_identity_def)

text \<open>Appending one row, table by table.\<close>

lemma members_exist_extends:
  assumes "members_exist db" "coverage_extends db db'"
    and "cv_order_members db' = cv_order_members db" "cv_fill_members db' = cv_fill_members db"
  shows "members_exist db'"
proof -
  have "set (cv_orders db) \<subseteq> set (cv_orders db')" "set (cv_fills db) \<subseteq> set (cv_fills db')"
    "set (cv_checkpoints db) \<subseteq> set (cv_checkpoints db')"
    using assms(2) by (simp_all add: coverage_extends_def extends_set)
  then show ?thesis
    using assms(1) unfolding members_exist_def assms(3,4) row_of_None not_not by blast
qed

lemma identities_hold_extends:
  assumes "identities_hold digest db" "coverage_extends db db'" "cv_orders db' = cv_orders db"
  shows "identities_hold digest db'"
  using assms row_of_extends unfolding identities_hold_def coverage_extends_def by fastforce

lemma add_identity_ok:
  assumes "coverage_ok digest db" "row_of identity_key (identity_key x) (cv_identities db) = None"
    and "iy_hash x = evidence_hash digest (iy_json x)"
  shows "coverage_ok digest (db\<lparr>cv_identities := cv_identities db @ [x]\<rparr>)
    \<and> coverage_extends db (db\<lparr>cv_identities := cv_identities db @ [x]\<rparr>)"
proof -
  let ?d = "db\<lparr>cv_identities := cv_identities db @ [x]\<rparr>"
  have ext: "coverage_extends db ?d" by (simp add: coverage_extends_def)
  then show ?thesis
    using assms members_exist_extends [of db ?d] identities_hold_extends [of digest db ?d]
    by (auto simp: coverage_ok_def keys_unique_def hashes_match_def row_of_None)
qed

lemma add_order_ok:
  assumes "coverage_ok digest db" "row_of order_key (order_key x) (cv_orders db) = None"
    and "oo_hash x = evidence_hash digest (oo_payload x)"
    and "row_of identity_key (oo_principal x, oo_order_id x) (cv_identities db) = Some y"
    and "iy_hash y = evidence_hash digest (payload_identity (oo_payload x))"
  shows "coverage_ok digest (db\<lparr>cv_orders := cv_orders db @ [x]\<rparr>)
    \<and> coverage_extends db (db\<lparr>cv_orders := cv_orders db @ [x]\<rparr>)"
proof -
  let ?d = "db\<lparr>cv_orders := cv_orders db @ [x]\<rparr>"
  have ext: "coverage_extends db ?d" by (simp add: coverage_extends_def)
  moreover have "identities_hold digest ?d"
    using assms by (auto simp: coverage_ok_def identities_hold_def)
  ultimately show ?thesis
    using assms members_exist_extends [of db ?d]
    by (auto simp: coverage_ok_def keys_unique_def hashes_match_def row_of_None)
qed

lemma add_fill_ok:
  assumes "coverage_ok digest db" "row_of fill_key (fill_key x) (cv_fills db) = None"
    and "fo_hash x = evidence_hash digest (fo_payload x)"
  shows "coverage_ok digest (db\<lparr>cv_fills := cv_fills db @ [x]\<rparr>)
    \<and> coverage_extends db (db\<lparr>cv_fills := cv_fills db @ [x]\<rparr>)"
proof -
  let ?d = "db\<lparr>cv_fills := cv_fills db @ [x]\<rparr>"
  have ext: "coverage_extends db ?d" by (simp add: coverage_extends_def)
  then show ?thesis
    using assms members_exist_extends [of db ?d] identities_hold_extends [of digest db ?d]
    by (auto simp: coverage_ok_def keys_unique_def hashes_match_def row_of_None)
qed

section \<open>The statements of the transaction\<close>

lemma transaction_changed:
  assumes "transaction m s = (u, t)" "t \<noteq> s"
  shows "\<exists>x. u = Inr x \<and> m s = (Inr x, t)"
proof (cases u)
  case (Inl e)
  with assms(1) have "transaction m s = (Inl e, t)" by simp
  then have "t = s" by (rule transaction_Inl)
  with assms(2) show ?thesis by simp
next
  case (Inr x)
  with assms(1) show ?thesis by (simp add: transaction_Inr)
qed

lemma store_order_Inr:
  assumes "store_order digest fp tm (k, r) s = (Inr u, t)"
  obtains s1 x y updated where
    "insert_ignore identity_key cv_identities (\<lambda>f s. s\<lparr>cv_identities := f (cv_identities s)\<rparr>)
       (sha256_text fp \<and> not_blank k \<and> sha256_text (identity_hash digest r))
       \<lparr>iy_principal = fp, iy_order_id = k, iy_hash = identity_hash digest r, iy_json = order_identity digest r,
        iy_first_observed_at = tm\<rparr> s = (Inr (), s1)"
    "row_of identity_key (fp, k) (cv_identities s1) = Some x" "iy_hash x = identity_hash digest r"
    "order_updated_at r = Inr updated"
    "insert_ignore order_key cv_orders (\<lambda>f s. s\<lparr>cv_orders := f (cv_orders s)\<rparr>)
       (sha256_text fp \<and> not_blank k \<and> sha256_text (order_hash digest r))
       \<lparr>oo_principal = fp, oo_order_id = k, oo_hash = order_hash digest r, oo_payload = cov_order_payload digest r,
        oo_updated_at = updated, oo_first_observed_at = tm\<rparr> s1 = (Inr (), t)"
    "row_of order_key (fp, k, order_hash digest r) (cv_orders t) = Some y"
    "oo_payload y = cov_order_payload digest r"
  using assms unfolding store_order_def Let_def prod.case
  by (auto simp: res_simps split: if_splits option.splits)

lemma store_order_advances: "advances (coverage_ok digest) coverage_extends (store_order digest fp tm x)"
proof (rule advancesI)
  fix s u t
  assume ok: "coverage_ok digest s" and run: "store_order digest fp tm x s = (Inr u, t)"
  obtain k r where x: "x = (k, r)" by (cases x)
  from run [unfolded x] obtain s1 y z updated where
    s1: "s1 = (if row_of identity_key (fp, k) (cv_identities s) = None
      then s\<lparr>cv_identities := cv_identities s @ [\<lparr>iy_principal = fp, iy_order_id = k, iy_hash = identity_hash digest r,
        iy_json = order_identity digest r, iy_first_observed_at = tm\<rparr>]\<rparr> else s)"
    and y: "row_of identity_key (fp, k) (cv_identities s1) = Some y" "iy_hash y = identity_hash digest r"
    and t: "t = (if row_of order_key (fp, k, order_hash digest r) (cv_orders s1) = None
      then s1\<lparr>cv_orders := cv_orders s1 @ [\<lparr>oo_principal = fp, oo_order_id = k, oo_hash = order_hash digest r,
        oo_payload = cov_order_payload digest r, oo_updated_at = updated, oo_first_observed_at = tm\<rparr>]\<rparr> else s1)"
    by (rule store_order_Inr) (simp add: insert_ignore_Inr identity_key_def order_key_def)
  have 1: "coverage_ok digest s1 \<and> coverage_extends s s1"
    using ok add_identity_ok [OF ok, of "\<lparr>iy_principal = fp, iy_order_id = k, iy_hash = identity_hash digest r,
        iy_json = order_identity digest r, iy_first_observed_at = tm\<rparr>"]
    by (simp add: s1 identity_key_def identity_hash_def reflpD [OF coverage_extends_refl])
  have "coverage_ok digest t \<and> coverage_extends s1 t"
    using 1 y add_order_ok [of digest s1 "\<lparr>oo_principal = fp, oo_order_id = k, oo_hash = order_hash digest r,
        oo_payload = cov_order_payload digest r, oo_updated_at = updated, oo_first_observed_at = tm\<rparr>" y]
    by (simp add: t order_key_def order_hash_def identity_hash_def order_identity_payload
        reflpD [OF coverage_extends_refl])
  with 1 show "coverage_ok digest t \<and> coverage_extends s t" using transpD [OF coverage_extends_trans] by blast
qed

lemma store_fill_advances: "advances (coverage_ok digest) coverage_extends (store_fill digest fp tm x)"
proof (rule advancesI)
  fix s u t
  assume ok: "coverage_ok digest s" and run: "store_fill digest fp tm x s = (Inr u, t)"
  obtain k f where x: "x = (k, f)" by (cases x)
  from run [unfolded x] obtain created where
    "insert_ignore fill_key cv_fills (\<lambda>g s. s\<lparr>cv_fills := g (cv_fills s)\<rparr>)
       (sha256_text fp \<and> not_blank k \<and> not_blank (fil_order_id f) \<and> sha256_text (fill_hash digest f))
       \<lparr>fo_principal = fp, fo_fill_id = k, fo_hash = fill_hash digest f, fo_order_id = fil_order_id f,
        fo_payload = cov_fill_payload f, fo_created_at = created, fo_first_observed_at = tm\<rparr> s = (Inr (), t)"
    unfolding store_fill_def Let_def prod.case by (auto simp: res_simps split: if_splits option.splits)
  then show "coverage_ok digest t \<and> coverage_extends s t"
    using ok add_fill_ok [OF ok, of "\<lparr>fo_principal = fp, fo_fill_id = k, fo_hash = fill_hash digest f,
        fo_order_id = fil_order_id f, fo_payload = cov_fill_payload f, fo_created_at = created,
        fo_first_observed_at = tm\<rparr>"]
    by (simp add: insert_ignore_Inr fill_key_def fill_hash_def reflpD [OF coverage_extends_refl])
qed

lemma add_checkpoint_advances: "advances (coverage_ok digest) coverage_extends (add_checkpoint c)"
proof (rule advancesI)
  fix s u t
  assume ok: "coverage_ok digest s" and run: "add_checkpoint c s = (Inr u, t)"
  then have t: "t = s\<lparr>cv_checkpoints := cv_checkpoints s @ [c]\<rparr>"
    and new: "checkpoint_valid c" "row_of checkpoint_key (checkpoint_key c) (cv_checkpoints s) = None"
    by (simp_all add: add_checkpoint_def insert_row_Inr)
  have ext: "coverage_extends s t" by (simp add: coverage_extends_def t)
  then show "coverage_ok digest t \<and> coverage_extends s t"
    using ok new members_exist_extends [of s t] identities_hold_extends [of digest s t]
    by (auto simp: t coverage_ok_def keys_unique_def hashes_match_def row_of_None)
qed

lemma add_order_member_advances: "advances (coverage_ok digest) coverage_extends (add_order_member m)"
proof (rule advancesI)
  fix s u t
  assume ok: "coverage_ok digest s" and run: "add_order_member m s = (Inr u, t)"
  then have t: "t = s\<lparr>cv_order_members := cv_order_members s @ [m]\<rparr>"
    and new: "row_of order_member_key (order_member_key m) (cv_order_members s) = None"
    and fk: "row_of order_key (om_principal m, om_order_id m, om_hash m) (cv_orders s) \<noteq> None"
      "row_of checkpoint_key (om_principal m, om_coverage_id m) (cv_checkpoints s) \<noteq> None"
    by (simp_all add: add_order_member_def insert_row_Inr)
  have ext: "coverage_extends s t" by (simp add: coverage_extends_def t)
  have "members_exist t" using ok fk by (simp add: coverage_ok_def members_exist_def t)
  then show "coverage_ok digest t \<and> coverage_extends s t"
    using ok new ext identities_hold_extends [of digest s t]
    by (auto simp: t coverage_ok_def keys_unique_def hashes_match_def row_of_None)
qed

lemma add_fill_member_advances: "advances (coverage_ok digest) coverage_extends (add_fill_member m)"
proof (rule advancesI)
  fix s u t
  assume ok: "coverage_ok digest s" and run: "add_fill_member m s = (Inr u, t)"
  then have t: "t = s\<lparr>cv_fill_members := cv_fill_members s @ [m]\<rparr>"
    and new: "row_of fill_member_key (fill_member_key m) (cv_fill_members s) = None"
    and fk: "row_of fill_key (fm_principal m, fm_fill_id m) (cv_fills s) \<noteq> None"
      "row_of checkpoint_key (fm_principal m, fm_coverage_id m) (cv_checkpoints s) \<noteq> None"
    by (simp_all add: add_fill_member_def insert_row_Inr)
  have ext: "coverage_extends s t" by (simp add: coverage_extends_def t)
  have "members_exist t" using ok fk by (simp add: coverage_ok_def members_exist_def t)
  then show "coverage_ok digest t \<and> coverage_extends s t"
    using ok new ext identities_hold_extends [of digest s t]
    by (auto simp: t coverage_ok_def keys_unique_def hashes_match_def row_of_None)
qed

lemma commit_coverage_advances:
  "advances (coverage_ok digest) coverage_extends (commit_coverage digest svc now result r a)"
  unfolding commit_coverage_def Let_def
  by (rule coverage_advances store_order_advances store_fill_advances add_checkpoint_advances
      add_order_member_advances add_fill_member_advances)+

lemma commit_coverage_transaction:
  assumes "coverage_ok digest db" "transaction (commit_coverage digest svc now result r a) db = (q, db')"
  shows "coverage_ok digest db' \<and> coverage_extends db db' \<and> (is_ok q \<or> db' = db)"
proof (cases q)
  case (Inl e)
  with assms(2) have "transaction (commit_coverage digest svc now result r a) db = (Inl e, db')" by simp
  then have "db' = db" by (rule transaction_Inl)
  then show ?thesis using assms(1) by (simp add: reflpD [OF coverage_extends_refl])
next
  case (Inr u)
  then have "commit_coverage digest svc now result r a db = (Inr u, db')" using assms(2) by (simp add: transaction_Inr)
  from advancesD [OF commit_coverage_advances assms(1) this] show ?thesis using Inr by (simp add: is_ok_iff)
qed

section \<open>The branches of a sweep\<close>

lemma sweep_cases:
  assumes "sweep digest svc now client raw_id raw_at db0 lg db1 = Some (q, db')"
  obtains (refused) e where "q = Inl e" "db' = db1"
  | (recorded) c t where "lease_guard svc (now 0) (cc_principal_fingerprint client) db0 = Inr ()"
      "row_of checkpoint_key (cc_principal_fingerprint client, strip raw_id) (cv_checkpoints db0) = Some c"
      "q = result_from_checkpoint c" "db' = db1" "raw_at = Aware t"
  | (judged) t r a u res where "raw_at = Aware t" "read_portfolio client = Some (Inr r)" "assess digest r = Inr a"
      "row_of checkpoint_key (cc_principal_fingerprint client, strip raw_id) (cv_checkpoints db0) = None"
      "res = coverage_result_of digest (cc_principal_fingerprint client) (strip raw_id) t r a lg"
      "transaction (commit_coverage digest svc (now 1) res r a) db1 = (u, db')"
      "q = finish_coverage svc (now 2) res u db'"
  using assms unfolding sweep_def Let_def load_checkpoint_def aware_instant_def
  by (auto simp: res_simps split: if_splits option.splits sum.splits prod.splits py_datetime.splits)

section \<open>The reads\<close>

lemma singletons_chain:
  "page_chain (\<lambda>n c. bindE (getter n c) (\<lambda>(items, next). Inr ([items], next))) n c ps \<Longrightarrow>
     page_chain getter n c (concat ps)"
proof (induction rule: page_chain.induct)
  case (last n c ps)
  then obtain xs where "getter n c = Inr (xs, [])" "ps = [xs]" by (auto simp: bindE_eq_Inr)
  then show ?case by (simp add: page_chain.last)
next
  case (more n c ps cursor pages)
  then obtain xs where "getter n c = Inr (xs, cursor)" "ps = [xs]" by (auto simp: bindE_eq_Inr)
  with more show ?case by (simp add: page_chain.more)
qed

lemma traverse_pages_chain:
  assumes "traverse_pages source getter = Some (Inr pages)"
  shows "page_chain getter 0 None pages"
proof -
  have fold: "foldE (\<lambda>ps items. Inr (ps @ [items])) acc xs = Inr (acc @ xs)" for acc xs :: "'a list list"
    by (induction xs arbitrary: acc) simp_all
  from walk_pages_chain [OF assms [unfolded traverse_pages_def read_pages_def]] fold
  obtain ps where "page_chain (\<lambda>n c. bindE (getter n c) (\<lambda>(items, next). Inr ([items], next))) 0 None ps"
    "pages = concat ps" by fastforce
  then show ?thesis using singletons_chain by blast
qed

lemma traverse_pages_returns:
  assumes "finite C" "cursors_within getter C"
  shows "\<exists>r. traverse_pages source getter = Some r"
  unfolding traverse_pages_def
  by (rule read_pages_returns [OF assms(1)]) (use assms(2) in \<open>fastforce simp: cursors_within_def bindE_eq_Inr\<close>)

text \<open>Every record was on a page the provider named, from its first page to one without a cursor.\<close>

definition portfolio_chained :: "coverage_client \<Rightarrow> portfolio_reads \<Rightarrow> bool" where
  "portfolio_chained c r =
     (cc_cutoff c 0 = Inr (pr_cutoff_before r) \<and> cc_cutoff c 1 = Inr (pr_cutoff_after r)
      \<and> page_chain (cc_orders c) 0 None (pr_orders r) \<and> page_chain (cc_fills c) 0 None (pr_fills r)
      \<and> page_chain (cc_historical_orders c (ceil_epoch (cut_orders_updated_at (pr_cutoff_before r)))) 0 None
          (pr_historical_orders r)
      \<and> page_chain (cc_historical_fills c (ceil_epoch (cut_trades_created_at (pr_cutoff_before r)))) 0 None
          (pr_historical_fills r))"

lemma bindO_Inr: "bindO m f = Some (Inr y) \<longleftrightarrow> (\<exists>x. m = Some (Inr x) \<and> f x = Some (Inr y))"
  by (auto simp: bindO_def split: option.splits sum.splits)

lemma read_portfolio_chained: "read_portfolio c = Some (Inr r) \<Longrightarrow> portfolio_chained c r"
  unfolding read_portfolio_def bindO_Inr portfolio_chained_def
  by (auto dest: traverse_pages_chain)

lemma bindO_returns: "m \<noteq> None \<Longrightarrow> (\<And>x. f x \<noteq> None) \<Longrightarrow> bindO m f \<noteq> None"
  by (auto simp: bindO_def split: option.splits sum.splits)

lemma read_portfolio_returns:
  assumes "finite C" "cursors_within (cc_orders c) C" "cursors_within (cc_fills c) C"
    and "\<And>ts. cursors_within (cc_historical_orders c ts) C" "\<And>ts. cursors_within (cc_historical_fills c ts) C"
  shows "read_portfolio c \<noteq> None"
proof -
  note returns = traverse_pages_returns [OF assms(1)]
  show ?thesis
    unfolding read_portfolio_def
    by (intro bindO_returns) (simp_all add: returns assms(2-))
qed

section \<open>What a complete sweep means\<close>

lemma sort_texts_Nil [simp]: "sort_texts xs = [] \<longleftrightarrow> xs = []"
  by (metis set_empty set_sort_texts)

lemma orphan_fills_Nil:
  "orphan_fills orders fills = [] \<longleftrightarrow> (\<forall>(k, f) \<in> set fills. map_of orders (fil_order_id f) \<noteq> None)"
proof -
  have "orphan_fills orders fills = [] \<longleftrightarrow> (\<forall>i \<in> (fil_order_id \<circ> snd) ` set fills. map_of orders i \<noteq> None)"
    unfolding orphan_fills_def Let_def by (simp add: filter_empty_conv)
  also have "\<dots> \<longleftrightarrow> (\<forall>(k, f) \<in> set fills. map_of orders (fil_order_id f) \<noteq> None)"
    by (simp add: ball_simps case_prod_unfold)
  finally show ?thesis .
qed

lemma fill_mismatches_Nil:
  "fill_mismatches orders fills = [] \<longleftrightarrow>
     (\<forall>(k, f) \<in> set fills. case map_of orders (fil_order_id f) of None \<Rightarrow> True | Some r \<Rightarrow> fill_matches_order f r)"
  by (auto simp: fill_mismatches_def split: option.splits if_splits)

definition fills_of :: "string \<Rightarrow> (string \<times> kalshi_fill) list \<Rightarrow> kalshi_fill list" where
  "fills_of order_id fills = filter (\<lambda>f. fil_order_id f = order_id) (map snd fills)"

lemma count_mismatches_Nil:
  assumes "count_mismatches orders fills = []" "(k, f) \<in> set fills" "map_of orders (fil_order_id f) = Some r"
  shows "total_count (fills_of (fil_order_id f) fills) \<le> dval (ord_initial_count r)"
proof -
  let ?i = "fil_order_id f"
  have fs: "fills_of ?i fills = filter (\<lambda>g. fil_order_id g = ?i) (filter (\<lambda>g. map_of orders (fil_order_id g) \<noteq> None) (map snd fills))"
    using assms(3) unfolding fills_of_def filter_filter by (intro filter_cong) auto
  have "f \<in> set (fills_of ?i fills)" using assms(2) by (force simp: fills_of_def)
  then have "(?i, fills_of ?i fills) \<in> set (fills_by_order orders fills)"
    unfolding fills_by_order_def group_by_mem fs [symmetric] by (cases "fills_of ?i fills") simp_all
  then show ?thesis
    using assms(1,3) unfolding count_mismatches_def by (fastforce simp: not_less split: if_splits)
qed

text \<open>
  What the checkpoint claims of the evidence: the archive's boundary did not move; each order
  that was read stands once, by its latest state, for snapshots with one identity; each fill
  that was read stands once, and belongs to such an order; the fills of an order stay within
  its count; all orders are of one user.
\<close>

definition evidence_complete ::
    "(string \<Rightarrow> string) \<Rightarrow> portfolio_reads \<Rightarrow> (string \<times> kalshi_order) list \<Rightarrow> (string \<times> kalshi_fill) list \<Rightarrow> bool" where
  "evidence_complete digest r orders fills =
     (let all_orders = concat (pr_orders r) @ concat (pr_historical_orders r);
          all_fills = concat (pr_fills r) @ concat (pr_historical_fills r) in
      cut_orders_updated_at (pr_cutoff_before r) = cut_orders_updated_at (pr_cutoff_after r)
      \<and> cut_trades_created_at (pr_cutoff_before r) = cut_trades_created_at (pr_cutoff_after r)
      \<and> distinct (map fst orders) \<and> fst ` set orders = ord_order_id ` set all_orders
      \<and> (\<forall>(k, x) \<in> set orders. x \<in> set all_orders \<and> ord_order_id x = k
           \<and> snapshots_agree digest (snapshots_of k all_orders) x)
      \<and> fills_kept (map (\<lambda>f. (fil_fill_id f, f)) all_fills) fills
      \<and> (\<forall>(k, f) \<in> set fills. \<exists>x. map_of orders (fil_order_id f) = Some x \<and> fill_matches_order f x
           \<and> total_count (fills_of (fil_order_id f) fills) \<le> dval (ord_initial_count x))
      \<and> (\<forall>(k, x) \<in> set orders. \<forall>(j, y) \<in> set orders. digest (ord_user_id x) = digest (ord_user_id y)))"

lemma assess_complete:
  assumes "assess digest r = Inr a" "as_reasons a = []"
  shows "evidence_complete digest r (as_orders a) (as_fills a)"
proof -
  let ?orders = "concat (pr_orders r) @ concat (pr_historical_orders r)"
  obtain cf hf where o1: "dedupe_orders digest ?orders = Inr (as_orders a, [])"
    and cf: "dedupe_fills (concat (pr_fills r)) = Inr cf" and hf: "dedupe_fills (concat (pr_historical_fills r)) = Inr hf"
    and fills: "merge_fills [cf, hf] = Inr (as_fills a)"
    and drift: "cutoff_drift (pr_cutoff_before r) (pr_cutoff_after r) = []"
    and orphan: "orphan_fills (as_orders a) (as_fills a) = []"
    and user: "user_conflict digest (as_orders a) = []"
    and mismatch: "fill_mismatches (as_orders a) (as_fills a) = []"
    and count: "count_mismatches (as_orders a) (as_fills a) = []"
    using assms unfolding assess_def Let_def by (elim run_elims prod_case_InrE) auto
  have d: "distinct (map fst (as_orders a))" and img: "fst ` set (as_orders a) = ord_order_id ` set ?orders"
    using dedupe_orders_Inr(1,2) [OF o1] .
  have chosen: "x \<in> set ?orders \<and> ord_order_id x = k \<and> snapshots_agree digest (snapshots_of k ?orders) x"
    if "(k, x) \<in> set (as_orders a)" for k x
    using map_of_is_SomeI [OF d that] dedupe_orders_chosen [OF o1] dedupe_orders_agree [OF o1] by blast
  have linked: "\<exists>x. map_of (as_orders a) (fil_order_id f) = Some x \<and> fill_matches_order f x
           \<and> total_count (fills_of (fil_order_id f) (as_fills a)) \<le> dval (ord_initial_count x)"
    if f: "(k, f) \<in> set (as_fills a)" for k f
  proof -
    from f orphan obtain x where x: "map_of (as_orders a) (fil_order_id f) = Some x"
      unfolding orphan_fills_Nil by blast
    with f mismatch have "fill_matches_order f x" unfolding fill_mismatches_Nil by fastforce
    with x count_mismatches_Nil [OF count f x] show ?thesis by blast
  qed
  have users: "digest (ord_user_id x) = digest (ord_user_id y)"
    if "(k, x) \<in> set (as_orders a)" "(j, y) \<in> set (as_orders a)" for k x j y
    using user that unfolding user_conflict_def by (fastforce simp: several_iff split: if_splits)
  have cuts: "cut_orders_updated_at (pr_cutoff_before r) = cut_orders_updated_at (pr_cutoff_after r)"
    "cut_trades_created_at (pr_cutoff_before r) = cut_trades_created_at (pr_cutoff_after r)"
    using drift by (auto simp: cutoff_drift_def split: if_splits)
  show ?thesis
    unfolding evidence_complete_def Let_def
    using cuts d img chosen all_fills_kept [OF cf hf fills] linked users by blast
qed

end
