(* ===== verification/CoverageProperties.thy ===== *)
theory CoverageProperties
  imports CoverageStore
begin

text \<open>
  The properties of the portfolio sweep: what a complete checkpoint certifies and names, that
  it only appends, under its lease, that it is idempotent, and that it returns; with a sample
  portfolio on which all of them are applied.
\<close>

text \<open>A stored result reads back as it was.\<close>

lemma coverage_status_round_trip [simp]: "coverage_status_of (coverage_status_text st) = Some st"
  by (cases st) (simp_all add: coverage_status_of_def)

lemma checkpoint_round_trip:
  "\<not> cr_retry_allowed r \<Longrightarrow> result_from_checkpoint (checkpoint_from_result r before after) = Inr r"
  by (simp add: result_from_checkpoint_def checkpoint_from_result_def Let_def)

lemma coverage_result_fields [simp]:
  "cr_principal (coverage_result_of digest fp i t r a lg) = fp"
  "cr_coverage_id (coverage_result_of digest fp i t r a lg) = i"
  "cr_observed_at (coverage_result_of digest fp i t r a lg) = t"
  "cr_status (coverage_result_of digest fp i t r a lg) = (if as_reasons a = [] then Complete else Incomplete)"
  "cr_evidence_hash (coverage_result_of digest fp i t r a lg) = observed_evidence_hash digest (as_orders a) (as_fills a)"
  "\<not> cr_retry_allowed (coverage_result_of digest fp i t r a lg)"
  by (simp_all add: coverage_result_of_def Let_def split: prod.splits)

text \<open>What a committed sweep has written.\<close>

lemma row_of_snoc_new: "row_of key (key x) rows = None \<Longrightarrow> row_of key (key x) (rows @ [x]) = Some x"
  by (simp add: row_of_def find_append)

lemma add_checkpoint_Inr:
  "add_checkpoint c s = (Inr u, t) \<Longrightarrow> row_of checkpoint_key (checkpoint_key c) (cv_checkpoints t) = Some c"
  by (auto simp: add_checkpoint_def insert_row_Inr row_of_snoc_new)

lemma commit_coverage_steps:
  assumes "commit_coverage digest svc now res r a s = (Inr u, t)"
  obtains s1 s2 s3 s4 where "lease_guard svc now (cr_principal res) s = Inr ()"
    "eachA (store_order digest (cr_principal res) (cr_observed_at res)) (sort_items (as_orders a)) s = (Inr (), s1)"
    "eachA (store_fill digest (cr_principal res) (cr_observed_at res)) (sort_items (as_fills a)) s1 = (Inr (), s2)"
    "add_checkpoint (checkpoint_from_result res (pr_cutoff_before r) (pr_cutoff_after r)) s2 = (Inr (), s3)"
    "eachA (\<lambda>x. add_order_member (order_member_of digest (cr_principal res) (cr_coverage_id res) x))
       (sort_items (as_orders a)) s3 = (Inr (), s4)"
    "eachA (\<lambda>x. add_fill_member (fill_member_of (cr_principal res) (cr_coverage_id res) x))
       (sort_items (as_fills a)) s4 = (Inr (), t)"
  using assms unfolding commit_coverage_def Let_def by (auto simp: res_simps)

lemma coverage_extends_checkpoint:
  "coverage_extends s t \<Longrightarrow> row_of checkpoint_key k (cv_checkpoints s) = Some c \<Longrightarrow>
     row_of checkpoint_key k (cv_checkpoints t) = Some c"
  using row_of_extends [of "cv_checkpoints s" "cv_checkpoints t"] by (simp add: coverage_extends_def)

lemma store_all_advances:
  "advances (coverage_ok digest) coverage_extends (eachA (store_order digest fp tm) xs)"
  "advances (coverage_ok digest) coverage_extends (eachA (store_fill digest fp tm) ys)"
  "advances (coverage_ok digest) coverage_extends (eachA (\<lambda>x. add_order_member (order_member_of digest fp i x)) xs)"
  "advances (coverage_ok digest) coverage_extends (eachA (\<lambda>x. add_fill_member (fill_member_of fp i x)) ys)"
  by (intro coverage_advances store_order_advances store_fill_advances add_order_member_advances
      add_fill_member_advances)+

lemma recover_coverage_Inr:
  "recover_coverage svc now result db = Inr res \<Longrightarrow> res = result
     \<and> (\<exists>c. row_of checkpoint_key (cr_principal result, cr_coverage_id result) (cv_checkpoints db) = Some c
          \<and> result_from_checkpoint c = Inr res)"
  unfolding recover_coverage_def load_checkpoint_def Let_def bindE_eq_Inr
  by (auto split: option.splits if_splits simp: bindE_eq_Inr)

lemma commit_coverage_checkpoint:
  assumes ok: "coverage_ok digest s" and "commit_coverage digest svc now res r a s = (Inr u, t)"
  shows "row_of checkpoint_key (cr_principal res, cr_coverage_id res) (cv_checkpoints t)
    = Some (checkpoint_from_result res (pr_cutoff_before r) (pr_cutoff_after r))"
proof -
  let ?c = "checkpoint_from_result res (pr_cutoff_before r) (pr_cutoff_after r)"
  have key: "checkpoint_key ?c = (cr_principal res, cr_coverage_id res)"
    by (simp add: checkpoint_key_def checkpoint_from_result_def Let_def)
  from assms(2) obtain s1 s2 s3 s4 where
    o1: "eachA (store_order digest (cr_principal res) (cr_observed_at res)) (sort_items (as_orders a)) s = (Inr (), s1)"
    and f1: "eachA (store_fill digest (cr_principal res) (cr_observed_at res)) (sort_items (as_fills a)) s1 = (Inr (), s2)"
    and c: "add_checkpoint ?c s2 = (Inr (), s3)"
    and m: "eachA (\<lambda>x. add_order_member (order_member_of digest (cr_principal res) (cr_coverage_id res) x))
       (sort_items (as_orders a)) s3 = (Inr (), s4)"
    and f: "eachA (\<lambda>x. add_fill_member (fill_member_of (cr_principal res) (cr_coverage_id res) x))
       (sort_items (as_fills a)) s4 = (Inr (), t)"
    by (rule commit_coverage_steps)
  have "coverage_ok digest s1" using advancesD [OF store_all_advances(1) ok o1] by simp
  then have "coverage_ok digest s2" using advancesD [OF store_all_advances(2) _ f1] by simp
  then have s3: "coverage_ok digest s3" using advancesD [OF add_checkpoint_advances _ c] by simp
  from advancesD [OF store_all_advances(3) s3 m] have s4: "coverage_ok digest s4" "coverage_extends s3 s4" by simp_all
  from advancesD [OF store_all_advances(4) s4(1) f] have "coverage_extends s4 t" by simp
  then have "coverage_extends s3 t" using s4(2) transpD [OF coverage_extends_trans] by blast
  then show ?thesis using add_checkpoint_Inr [OF c] coverage_extends_checkpoint unfolding key by blast
qed

lemma coverage_extends_rows:
  assumes "coverage_extends s t"
  shows "row_of order_key k (cv_orders s) = Some x \<Longrightarrow> row_of order_key k (cv_orders t) = Some x"
    and "row_of fill_key j (cv_fills s) = Some y \<Longrightarrow> row_of fill_key j (cv_fills t) = Some y"
    and "row_of order_member_key i (cv_order_members s) = Some z \<Longrightarrow>
      row_of order_member_key i (cv_order_members t) = Some z"
    and "row_of fill_member_key j' (cv_fill_members s) = Some w \<Longrightarrow>
      row_of fill_member_key j' (cv_fill_members t) = Some w"
  using assms row_of_extends [of "cv_orders s" "cv_orders t"] row_of_extends [of "cv_fills s" "cv_fills t"]
    row_of_extends [of "cv_order_members s" "cv_order_members t"]
    row_of_extends [of "cv_fill_members s" "cv_fill_members t"]
  by (simp_all add: coverage_extends_def)

text \<open>The rows of one order and of one fill, as a committed sweep leaves them.\<close>

definition order_recorded ::
    "(string \<Rightarrow> string) \<Rightarrow> string \<Rightarrow> string \<Rightarrow> coverage_db \<Rightarrow> string \<Rightarrow> kalshi_order \<Rightarrow> bool" where
  "order_recorded digest fp coverage_id db k x =
     (row_of order_member_key (fp, coverage_id, k) (cv_order_members db) = Some (order_member_of digest fp coverage_id (k, x))
      \<and> (\<exists>y. row_of order_key (fp, k, order_hash digest x) (cv_orders db) = Some y
           \<and> oo_payload y = cov_order_payload digest x))"

definition fill_recorded ::
    "(string \<Rightarrow> string) \<Rightarrow> string \<Rightarrow> string \<Rightarrow> coverage_db \<Rightarrow> string \<Rightarrow> kalshi_fill \<Rightarrow> bool" where
  "fill_recorded digest fp coverage_id db k f =
     (row_of fill_member_key (fp, coverage_id, k) (cv_fill_members db) = Some (fill_member_of fp coverage_id (k, f))
      \<and> (\<exists>y. row_of fill_key (fp, k) (cv_fills db) = Some y \<and> fo_hash y = fill_hash digest f))"

lemma commit_coverage_records:
  assumes ok: "coverage_ok digest s" and "commit_coverage digest svc now res r a s = (Inr u, t)"
  shows "(k, x) \<in> set (as_orders a) \<Longrightarrow> order_recorded digest (cr_principal res) (cr_coverage_id res) t k x"
    and "(j, f) \<in> set (as_fills a) \<Longrightarrow> fill_recorded digest (cr_principal res) (cr_coverage_id res) t j f"
proof -
  let ?fp = "cr_principal res" and ?i = "cr_coverage_id res" and ?tm = "cr_observed_at res"
  from assms(2) obtain s1 s2 s3 s4 where
    o1: "eachA (store_order digest ?fp ?tm) (sort_items (as_orders a)) s = (Inr (), s1)"
    and f1: "eachA (store_fill digest ?fp ?tm) (sort_items (as_fills a)) s1 = (Inr (), s2)"
    and c: "add_checkpoint (checkpoint_from_result res (pr_cutoff_before r) (pr_cutoff_after r)) s2 = (Inr (), s3)"
    and m: "eachA (\<lambda>x. add_order_member (order_member_of digest ?fp ?i x)) (sort_items (as_orders a)) s3 = (Inr (), s4)"
    and f: "eachA (\<lambda>x. add_fill_member (fill_member_of ?fp ?i x)) (sort_items (as_fills a)) s4 = (Inr (), t)"
    by (rule commit_coverage_steps)
  have s1: "coverage_ok digest s1" "coverage_extends s s1" using advancesD [OF store_all_advances(1) ok o1] by simp_all
  have s2: "coverage_ok digest s2" "coverage_extends s1 s2" using advancesD [OF store_all_advances(2) s1(1) f1] by simp_all
  have s3: "coverage_ok digest s3" "coverage_extends s2 s3" using advancesD [OF add_checkpoint_advances s2(1) c] by simp_all
  have s4: "coverage_ok digest s4" "coverage_extends s3 s4" using advancesD [OF store_all_advances(3) s3(1) m] by simp_all
  have s5: "coverage_extends s4 t" using advancesD [OF store_all_advances(4) s4(1) f] by simp
  note tr = transpD [OF coverage_extends_trans]
  have e2: "coverage_extends s2 t" using tr [OF s3(2) tr [OF s4(2) s5]] .
  have e1: "coverage_extends s1 t" using tr [OF s2(2) e2] .
  note each = eachA_each [where P = "coverage_ok digest" and le = coverage_extends,
      OF _ _ _ coverage_extends_refl coverage_extends_trans]
  {
    assume "(k, x) \<in> set (as_orders a)"
    then have mem: "(k, x) \<in> set (sort_items (as_orders a))" by simp
    from each [OF o1 ok mem store_order_advances] obtain s0 v b where
      "store_order digest ?fp ?tm (k, x) s0 = (Inr v, b)" "coverage_extends b s1" by blast
    then obtain y where "row_of order_key (?fp, k, order_hash digest x) (cv_orders t) = Some y"
      "oo_payload y = cov_order_payload digest x"
      using coverage_extends_rows(1) tr [OF _ e1] by (elim store_order_Inr) blast
    moreover from each [OF m s3(1) mem add_order_member_advances] obtain s0 v b where
      "add_order_member (order_member_of digest ?fp ?i (k, x)) s0 = (Inr v, b)" "coverage_extends b s4" by blast
    then have "row_of order_member_key (?fp, ?i, k) (cv_order_members b) = Some (order_member_of digest ?fp ?i (k, x))"
      by (auto simp: add_order_member_def insert_row_Inr order_member_of_def order_member_key_def row_of_def find_append)
    then have "row_of order_member_key (?fp, ?i, k) (cv_order_members t) = Some (order_member_of digest ?fp ?i (k, x))"
      using coverage_extends_rows(3) tr [OF \<open>coverage_extends b s4\<close> s5] by blast
    ultimately show "order_recorded digest ?fp ?i t k x" by (simp add: order_recorded_def)
  next
    assume "(j, f) \<in> set (as_fills a)"
    then have mem: "(j, f) \<in> set (sort_items (as_fills a))" by simp
    from each [OF f1 s1(1) mem store_fill_advances] obtain s0 v b where
      "store_fill digest ?fp ?tm (j, f) s0 = (Inr v, b)" and b: "coverage_extends b s2" by blast
    then obtain y where "row_of fill_key (?fp, j) (cv_fills b) = Some y" "fo_hash y = fill_hash digest f"
      by (auto simp: store_fill_def Let_def res_simps split: if_splits option.splits)
    then obtain y where "row_of fill_key (?fp, j) (cv_fills t) = Some y" "fo_hash y = fill_hash digest f"
      using coverage_extends_rows(2) tr [OF b e2] by blast
    moreover from each [OF f s4(1) mem add_fill_member_advances] obtain s0 v b where
      "add_fill_member (fill_member_of ?fp ?i (j, f)) s0 = (Inr v, b)" and b: "coverage_extends b t" by blast
    then have "row_of fill_member_key (?fp, ?i, j) (cv_fill_members b) = Some (fill_member_of ?fp ?i (j, f))"
      by (auto simp: add_fill_member_def insert_row_Inr fill_member_of_def fill_member_key_def row_of_def find_append)
    then have "row_of fill_member_key (?fp, ?i, j) (cv_fill_members t) = Some (fill_member_of ?fp ?i (j, f))"
      using coverage_extends_rows(4) b by blast
    ultimately show "fill_recorded digest ?fp ?i t j f" by (simp add: fill_recorded_def)
  }
qed

text \<open>Rows of the evidence tables are only appended; leases are updated.\<close>

definition rows_extend :: "coverage_db \<Rightarrow> coverage_db \<Rightarrow> bool" where
  "rows_extend db db' =
     (extends (cv_identities db) (cv_identities db') \<and> extends (cv_orders db) (cv_orders db')
      \<and> extends (cv_fills db) (cv_fills db') \<and> extends (cv_checkpoints db) (cv_checkpoints db')
      \<and> extends (cv_order_members db) (cv_order_members db')
      \<and> extends (cv_fill_members db) (cv_fill_members db'))"

lemma rows_extend_refl [simp]: "rows_extend db db"
  by (simp add: rows_extend_def)

lemma rows_extend_trans: "rows_extend a b \<Longrightarrow> rows_extend b c \<Longrightarrow> rows_extend a c"
  unfolding rows_extend_def by (blast intro: extends_trans)

lemma coverage_extends_rows_extend: "coverage_extends a b \<Longrightarrow> rows_extend a b \<and> cv_leases b = cv_leases a"
  by (simp add: coverage_extends_def rows_extend_def)

lemma rows_extend_checkpoint:
  "rows_extend a b \<Longrightarrow> row_of checkpoint_key k (cv_checkpoints a) = Some c \<Longrightarrow>
     row_of checkpoint_key k (cv_checkpoints b) = Some c"
  unfolding rows_extend_def by (blast intro: row_of_extends)

text \<open>What a sweep returns is in the tables it leaves.\<close>

lemma sweep_result_recorded:
  assumes "coverage_ok digest db1" and "rows_extend db0 db1"
    and "sweep digest svc now client raw_id raw_at db0 lg db1 = Some (Inr res, db2)"
  shows "\<exists>c. row_of checkpoint_key (cc_principal_fingerprint client, strip raw_id) (cv_checkpoints db2) = Some c
    \<and> result_from_checkpoint c = Inr res"
  using assms(3)
proof (cases rule: sweep_cases)
  case (recorded c t)
  then show ?thesis using rows_extend_checkpoint [OF assms(2)] by metis
next
  case (judged t r a u result)
  show ?thesis
  proof (cases u)
    case (Inl e)
    with judged(7) have "recover_coverage svc (now 2) result db2 = Inr res"
      by (auto simp: finish_coverage_def split: exn.splits)
    then show ?thesis using recover_coverage_Inr judged(5) by fastforce
  next
    case (Inr x)
    then have "commit_coverage digest svc (now 1) result r a db1 = (Inr x, db2)" and res: "res = result"
      using judged(6,7) by (simp_all add: transaction_Inr finish_coverage_def)
    from commit_coverage_checkpoint [OF assms(1) this(1)] show ?thesis
      using checkpoint_round_trip judged(5) by (simp add: res)
  qed
qed simp

text \<open>A sweep that changes the tables has passed the lease's guard in the same transaction.\<close>

lemma sweep_change_guarded:
  assumes "sweep digest svc now client raw_id raw_at db0 lg db1 = Some (q, db')" and "db' \<noteq> db1"
  shows "lease_guard svc (now 1) (cc_principal_fingerprint client) db1 = Inr ()"
  using assms(1)
proof (cases rule: sweep_cases)
  case (judged t r a u res)
  from transaction_changed [OF judged(6) assms(2)] obtain x where
    "commit_coverage digest svc (now 1) res r a db1 = (Inr x, db')" by blast
  then show ?thesis using judged(5) by (auto elim!: commit_coverage_steps)
qed (use assms(2) in simp_all)

lemma sweep_appends:
  assumes "coverage_ok digest db1"
    and "sweep digest svc now client raw_id raw_at db0 lg db1 = Some (q, db')"
  shows "coverage_ok digest db' \<and> coverage_extends db1 db' \<and> (is_ok q \<or> db' = db1)"
  using assms(2)
proof (cases rule: sweep_cases)
  case (judged t r a u res)
  from commit_coverage_transaction [OF assms(1) judged(6)] show ?thesis
    using judged(7) by (cases u) (auto simp: finish_coverage_def is_ok_iff)
qed (use assms(1) in \<open>simp_all add: reflpD [OF coverage_extends_refl]\<close>)

section \<open>Properties of the sweep\<close>

text \<open>
  C24: A sweep that returns a complete result, when no checkpoint of its coverage id was
  recorded yet, has read all pages the provider named, and what it read is complete evidence:
  the archive's boundary did not move, every order read stands once by its latest state and all
  its states have one identity, every fill read stands once and agrees with its order, the
  fills of an order stay within its count, and all orders belong to one user. The result's
  hash is the one of that evidence.
\<close>

theorem complete_coverage_certifies:
  assumes "sweep digest svc now client raw_id raw_at db0 lg db1 = Some (Inr res, db')"
    and "cr_status res = Complete"
    and "row_of checkpoint_key (cc_principal_fingerprint client, strip raw_id) (cv_checkpoints db0) = None"
  shows "\<exists>r orders fills. portfolio_chained client r \<and> evidence_complete digest r orders fills
    \<and> cr_evidence_hash res = observed_evidence_hash digest orders fills"
  using assms(1)
proof (cases rule: sweep_cases)
  case (judged t r a u result)
  have "res = result"
    using judged(7) recover_coverage_Inr unfolding finish_coverage_def by (auto split: sum.splits exn.splits)
  then have "as_reasons a = []" "cr_evidence_hash res = observed_evidence_hash digest (as_orders a) (as_fills a)"
    using judged(5) assms(2) by (auto split: if_splits)
  then show ?thesis using read_portfolio_chained [OF judged(2)] assess_complete [OF judged(3)] by blast
qed (use assms(3) in simp_all)

text \<open>
  C25: A sweep that commits its checkpoint has recorded the evidence it judged: every order and
  every fill it selected is a member of the checkpoint, and the evidence the membership names is
  stored, the order's with the payload that was read and the fill's under its hash.
\<close>

theorem sweep_records_its_evidence:
  assumes "coverage_ok digest db1"
    and "sweep digest svc now client raw_id raw_at db0 lg db1 = Some (Inr res, db')" and "db' \<noteq> db1"
  shows "\<exists>r a. portfolio_chained client r \<and> assess digest r = Inr a
    \<and> (\<forall>(k, x) \<in> set (as_orders a). order_recorded digest (cr_principal res) (cr_coverage_id res) db' k x)
    \<and> (\<forall>(k, f) \<in> set (as_fills a). fill_recorded digest (cr_principal res) (cr_coverage_id res) db' k f)"
  using assms(2)
proof (cases rule: sweep_cases)
  case (judged t r a u result)
  from transaction_changed [OF judged(6) assms(3)] obtain v where u: "u = Inr v"
    "commit_coverage digest svc (now 1) result r a db1 = (Inr v, db')" by blast
  have "res = result" using judged(7) u(1) by (simp add: finish_coverage_def)
  then show ?thesis
    using read_portfolio_chained [OF judged(2)] judged(3) commit_coverage_records [OF assms(1) u(2)] by blast
qed (use assms(3) in simp_all)

text \<open>
  C26: A sweep keeps the evidence tables consistent: keys stay unique, every stored payload keeps
  the hash it is filed under and the identity its order was first seen with, every membership
  names stored evidence and a checkpoint. It only appends rows, and appends none when it raises.
\<close>

theorem sweep_only_appends:
  assumes "coverage_ok digest db1"
    and "sweep digest svc now client raw_id raw_at db0 lg db1 = Some (q, db')"
  shows "coverage_ok digest db' \<and> coverage_extends db1 db' \<and> (is_ok q \<or> db' = db1)"
  by (rule sweep_appends [OF assms])

text \<open>
  A worker with a lease writes only while it holds it: when a fenced sweep changes the tables
  at all, the lease of the principal in them names the worker and its fence token and has not
  expired at the time of the transaction.
\<close>

theorem fenced_sweep_holds_its_lease:
  assumes "sweep digest svc now client raw_id raw_at db0 lg db1 = Some (q, db')"
    and "cs_lease svc = Some (owner, fence)" and "db' \<noteq> db1"
  shows "\<exists>l t. l \<in> set (cv_leases db1) \<and> ls_principal l = cc_principal_fingerprint client
    \<and> ls_owner l = owner \<and> ls_fence l = fence \<and> now 1 = Aware t \<and> t < ls_expires_at l"
  using sweep_change_guarded [OF assms(1,3)] assms(2) find_Some_mem unfolding lease_guard_def aware_instant_def
  by (fastforce simp: res_simps split: option.splits if_splits py_datetime.splits)

text \<open>
  C27: Once a sweep has returned a result, sweeping again under the same coverage id returns the
  same result, from whatever the venue says by then, whatever else was appended in between and
  whoever held the lease, and changes nothing, as long as the lease, when there is one, is held.
\<close>

theorem sweep_is_idempotent:
  assumes "coverage_ok digest db1" and "rows_extend db0 db1"
    and "sweep digest svc now client raw_id raw_at db0 lg db1 = Some (Inr res, db2)"
    and "rows_extend db2 db3"
    and "cc_principal_fingerprint client' = cc_principal_fingerprint client" and "strip raw_id' = strip raw_id"
    and "lease_guard svc' (now' 0) (cc_principal_fingerprint client) db3 = Inr ()"
  shows "sweep digest' svc' now' client' raw_id' (Aware t') db3 lg' db4 = Some (Inr res, db4)"
proof -
  have valid: "sha256_text (cc_principal_fingerprint client)" "strip raw_id \<noteq> []"
    using assms(3) by (auto simp: sweep_def Let_def split: if_splits)
  from sweep_result_recorded [OF assms(1-3)]
  obtain c where "row_of checkpoint_key (cc_principal_fingerprint client, strip raw_id) (cv_checkpoints db3) = Some c"
    "result_from_checkpoint c = Inr res"
    using rows_extend_checkpoint [OF assms(4)] by blast
  then show ?thesis
    using valid assms(5-7) by (simp add: sweep_def Let_def load_checkpoint_def aware_instant_def)
qed

text \<open>
  When the provider's cursors, on all four lists, come from a finite set, a sweep comes back,
  however often they repeat.
\<close>

theorem sweep_returns:
  assumes "finite C" and "cursors_within (cc_orders client) C" and "cursors_within (cc_fills client) C"
    and "\<And>ts. cursors_within (cc_historical_orders client ts) C"
    and "\<And>ts. cursors_within (cc_historical_fills client ts) C"
  shows "\<exists>q db'. sweep digest svc now client raw_id raw_at db0 lg db1 = Some (q, db')"
  using read_portfolio_returns [OF assms]
  unfolding sweep_def Let_def by (auto split: sum.splits option.splits prod.splits)

end
