(* ===== verification/Leases.thy ===== *)
theory Leases
  imports CoverageProperties
begin

text \<open>
  \<open>KalshiPortfolioLeaseService\<close> of \<open>services/kalshi_portfolio_projection.py\<close>: the lease of a
  principal with its fence token, and what the token is for: a worker that has lost the lease
  cannot write any more, whatever it believes. The clock is an argument that is read again
  after the row is locked; durations are whole microseconds.
\<close>

section \<open>The service\<close>

text \<open>\<open>datetime + timedelta\<close>\<close>

definition time_plus :: "int \<Rightarrow> int \<Rightarrow> int res" where
  "time_plus t ttl =
     (if t + ttl < min_micros \<or> max_micros < t + ttl then Inl (OverflowError ''date value out of range'')
      else Inr (t + ttl))"

definition validate_principal :: "string \<Rightarrow> string res" where
  "validate_principal s =
     (if sha256_text s then Inr s
      else Inl (ValueError ''principal_fingerprint must be 64 lowercase hexadecimal characters''))"

definition lease_of :: "string \<Rightarrow> coverage_db \<Rightarrow> lease_row option" where
  "lease_of fp db = List.find (\<lambda>l. ls_principal l = fp) (cv_leases db)"

definition put_lease :: "lease_row \<Rightarrow> coverage_db \<Rightarrow> coverage_db" where
  "put_lease l db =
     db\<lparr>cv_leases := (if lease_of (ls_principal l) db = None then cv_leases db @ [l]
       else map (\<lambda>x. if ls_principal x = ls_principal l then l else x) (cv_leases db))\<rparr>"

definition acquire ::
    "string \<Rightarrow> string \<Rightarrow> (nat \<Rightarrow> py_datetime) \<Rightarrow> int \<Rightarrow> bool \<Rightarrow> (coverage_db, int) action" where
  "acquire raw_fp owner_id now ttl force db =
     (let owner = strip owner_id; insert_time = utc_of (now 0); locked_at = utc_of (now 1) in
      case validate_principal raw_fp of
        Inl e \<Rightarrow> (Inl e, db)
      | Inr fp \<Rightarrow>
      if owner = [] then (Inl (ValueError ''owner_id is required''), db)
      else if ttl \<le> 0 then (Inl (ValueError ''lease ttl must be positive''), db)
      else transaction (\<lambda>s.
        case time_plus insert_time ttl of
          Inl e \<Rightarrow> (Inl e, s)
        | Inr _ \<Rightarrow>
        (case lease_of fp s of
           None \<Rightarrow>
             (case time_plus locked_at ttl of
                Inl e \<Rightarrow> (Inl e, s)
              | Inr expires_at \<Rightarrow>
                  (Inr 1, put_lease \<lparr>ls_principal = fp, ls_owner = owner, ls_fence = 1, ls_expires_at = expires_at\<rparr> s))
         | Some row \<Rightarrow>
             if locked_at < ls_expires_at row \<and> ls_owner row \<noteq> owner \<and> \<not> force
             then (Inl (KalshiPortfolioProjectionLeaseConflictError ''principal projection lease is already held''), s)
             else (case time_plus locked_at ttl of
                 Inl e \<Rightarrow> (Inl e, s)
               | Inr expires_at \<Rightarrow>
                   (Inr (ls_fence row + 1),
                    put_lease (row\<lparr>ls_owner := owner, ls_fence := ls_fence row + 1, ls_expires_at := expires_at\<rparr>) s)))) db)"

definition renew ::
    "string \<Rightarrow> string \<Rightarrow> int \<Rightarrow> py_datetime \<Rightarrow> int \<Rightarrow> (coverage_db, bool) action" where
  "renew raw_fp owner_id fence now ttl db =
     (let owner = strip owner_id; locked_at = utc_of now in
      case validate_principal raw_fp of
        Inl e \<Rightarrow> (Inl e, db)
      | Inr fp \<Rightarrow>
      if owner = [] \<or> fence \<le> 0 \<or> ttl \<le> 0
      then (Inl (ValueError ''valid owner, fence token, and positive lease ttl are required''), db)
      else (case lease_of fp db of
          None \<Rightarrow> (Inr False, db)
        | Some row \<Rightarrow>
            if ls_owner row \<noteq> owner \<or> ls_fence row \<noteq> fence \<or> ls_expires_at row \<le> locked_at then (Inr False, db)
            else (case time_plus locked_at ttl of
                Inl e \<Rightarrow> (Inl e, db)
              | Inr expires_at \<Rightarrow> (Inr True, put_lease (row\<lparr>ls_expires_at := expires_at\<rparr>) db))))"

definition release :: "string \<Rightarrow> string \<Rightarrow> int \<Rightarrow> py_datetime \<Rightarrow> (coverage_db, bool) action" where
  "release raw_fp owner_id fence now db =
     (let owner = strip owner_id; locked_at = utc_of now in
      case validate_principal raw_fp of
        Inl e \<Rightarrow> (Inl e, db)
      | Inr fp \<Rightarrow>
      if owner = [] \<or> fence \<le> 0
      then (Inl (ValueError ''valid owner and fence token are required''), db)
      else (case lease_of fp db of
          None \<Rightarrow> (Inr False, db)
        | Some row \<Rightarrow>
            if ls_owner row \<noteq> owner \<or> ls_fence row \<noteq> fence then (Inr False, db)
            else (Inr True, put_lease (row\<lparr>ls_expires_at := locked_at\<rparr>) db)))"

section \<open>Leases and sweeps on one database\<close>

text \<open>Whatever workers do to the database; a sweep is one of its transactions.\<close>

datatype lease_op =
    Acquire string string "nat \<Rightarrow> py_datetime" int bool
  | Renew string string int py_datetime int
  | Release string string int py_datetime
  | Sweep coverage_service "nat \<Rightarrow> py_datetime" coverage_client string py_datetime coverage_db ledger

definition lease_step :: "(string \<Rightarrow> string) \<Rightarrow> lease_op \<Rightarrow> coverage_db \<Rightarrow> coverage_db" where
  "lease_step digest op db =
     (case op of
        Acquire fp owner now ttl force \<Rightarrow> snd (acquire fp owner now ttl force db)
      | Renew fp owner fence now ttl \<Rightarrow> snd (renew fp owner fence now ttl db)
      | Release fp owner fence now \<Rightarrow> snd (release fp owner fence now db)
      | Sweep svc now client raw_id raw_at db0 lg \<Rightarrow>
          (case sweep digest svc now client raw_id raw_at db0 lg db of None \<Rightarrow> db | Some (_, db') \<Rightarrow> db'))"

text \<open>One lease per principal; tokens never go back, and a token keeps its owner.\<close>

definition leases_ok :: "coverage_db \<Rightarrow> bool" where
  "leases_ok db =
     (distinct (map ls_principal (cv_leases db)) \<and> (\<forall>l \<in> set (cv_leases db). 0 < ls_fence l \<and> sha256_text (ls_principal l)))"

definition fences_le :: "coverage_db \<Rightarrow> coverage_db \<Rightarrow> bool" where
  "fences_le db db' =
     (\<forall>fp l. lease_of fp db = Some l \<longrightarrow> (\<exists>l'. lease_of fp db' = Some l' \<and> ls_fence l \<le> ls_fence l'
        \<and> (ls_fence l' = ls_fence l \<longrightarrow> ls_owner l' = ls_owner l)))"

lemma lease_of_Some: "lease_of fp db = Some l \<Longrightarrow> l \<in> set (cv_leases db) \<and> ls_principal l = fp"
  unfolding lease_of_def using find_Some_mem by fastforce

lemma lease_of_unique: "leases_ok db \<Longrightarrow> l \<in> set (cv_leases db) \<Longrightarrow> lease_of (ls_principal l) db = Some l"
  unfolding lease_of_def leases_ok_def by (blast intro: find_key)

lemma find_map_same:
  "List.find P (map (\<lambda>x. if P x then l else x) xs) =
     (case List.find P xs of None \<Rightarrow> None | Some _ \<Rightarrow> Some l)" if "P l"
  using that by (induction xs) auto

lemma find_map_other:
  "\<lbrakk>\<And>x. Q x \<Longrightarrow> \<not> P x; \<not> P l\<rbrakk> \<Longrightarrow> List.find P (map (\<lambda>x. if Q x then l else x) xs) = List.find P xs"
  by (induction xs) auto

lemma lease_of_put: "lease_of fp (put_lease l db) = (if fp = ls_principal l then Some l else lease_of fp db)"
proof (cases "lease_of (ls_principal l) db")
  case None
  then show ?thesis
    by (auto simp: lease_of_def put_lease_def find_append split: option.splits)
next
  case (Some x)
  then show ?thesis
    using find_map_same [of "\<lambda>x. ls_principal x = ls_principal l" l "cv_leases db"]
      find_map_other [of "\<lambda>x. ls_principal x = ls_principal l" "\<lambda>x. ls_principal x = fp" l "cv_leases db"]
    by (auto simp: lease_of_def put_lease_def)
qed

lemma put_lease_ok:
  assumes "leases_ok db" "0 < ls_fence l" "sha256_text (ls_principal l)"
  shows "leases_ok (put_lease l db)"
proof (cases "lease_of (ls_principal l) db")
  case None
  then show ?thesis
    using assms by (auto simp: leases_ok_def put_lease_def lease_of_def find_None_iff_all)
next
  case (Some x)
  then have leases: "cv_leases (put_lease l db)
      = map (\<lambda>x. if ls_principal x = ls_principal l then l else x) (cv_leases db)"
    by (simp add: put_lease_def)
  have "map ls_principal (cv_leases (put_lease l db)) = map ls_principal (cv_leases db)"
    unfolding leases by simp
  moreover have "set (cv_leases (put_lease l db)) \<subseteq> insert l (set (cv_leases db))"
    unfolding leases by auto
  ultimately show ?thesis using assms unfolding leases_ok_def by auto
qed

lemma put_lease_tables:
  "cv_identities (put_lease l db) = cv_identities db" "cv_orders (put_lease l db) = cv_orders db"
  "cv_fills (put_lease l db) = cv_fills db" "cv_checkpoints (put_lease l db) = cv_checkpoints db"
  "cv_order_members (put_lease l db) = cv_order_members db" "cv_fill_members (put_lease l db) = cv_fill_members db"
  by (simp_all add: put_lease_def)


text \<open>Whatever an operation of the service does, it puts one row or changes nothing.\<close>

definition lease_succeeds :: "lease_row \<Rightarrow> coverage_db \<Rightarrow> bool" where
  "lease_succeeds l db =
     (sha256_text (ls_principal l)
      \<and> (case lease_of (ls_principal l) db of
           None \<Rightarrow> ls_fence l = 1
         | Some k \<Rightarrow> ls_fence l = ls_fence k + 1 \<or> ls_fence l = ls_fence k \<and> ls_owner l = ls_owner k))"

lemma acquire_cases:
  assumes "acquire fp owner_id now ttl force db = (q, db')"
  obtains (refused) e where "q = Inl e" "db' = db"
  | (granted) l where "q = Inr (ls_fence l)" "db' = put_lease l db" "ls_principal l = fp" "ls_owner l = strip owner_id"
      "sha256_text fp" "ls_fence l = (case lease_of fp db of None \<Rightarrow> 1 | Some k \<Rightarrow> ls_fence k + 1)"
proof (cases "sha256_text fp \<and> strip owner_id \<noteq> [] \<and> 0 < ttl \<and> is_ok (time_plus (utc_of (now 0)) ttl)
    \<and> is_ok (time_plus (utc_of (now 1)) ttl)")
  case False
  then have "\<exists>e. acquire fp owner_id now ttl force db = (Inl e, db)"
    by (auto simp: acquire_def validate_principal_def Let_def transaction_def is_ok_def split: sum.splits option.splits)
  then show thesis using refused assms by auto
next
  case True
  then obtain e0 e1 where ok: "sha256_text fp" "strip owner_id \<noteq> []" "0 < ttl"
    "time_plus (utc_of (now 0)) ttl = Inr e0" "time_plus (utc_of (now 1)) ttl = Inr e1"
    by (auto simp: is_ok_iff)
  show thesis
  proof (cases "lease_of fp db")
    case None
    let ?l = "\<lparr>ls_principal = fp, ls_owner = strip owner_id, ls_fence = 1, ls_expires_at = e1\<rparr>"
    from None ok assms have "q = Inr (ls_fence ?l)" "db' = put_lease ?l db"
      by (auto simp: acquire_def validate_principal_def transaction_def)
    then show thesis using granted [of ?l] ok(1) None by simp
  next
    case (Some k)
    show thesis
    proof (cases "utc_of (now 1) < ls_expires_at k \<and> ls_owner k \<noteq> strip owner_id \<and> \<not> force")
      case True
      with ok Some assms have "\<exists>e. q = Inl e \<and> db' = db"
        by (auto simp: acquire_def validate_principal_def transaction_def)
      then show thesis using refused by blast
    next
      case False
      let ?l = "k\<lparr>ls_owner := strip owner_id, ls_fence := ls_fence k + 1, ls_expires_at := e1\<rparr>"
      from False ok Some assms have "q = Inr (ls_fence ?l)" "db' = put_lease ?l db"
        by (auto simp: acquire_def validate_principal_def transaction_def)
      then show thesis using granted [of ?l] ok(1) Some lease_of_Some [OF Some] by simp
    qed
  qed
qed

lemma renew_puts:
  assumes "renew fp owner_id fence now ttl db = (q, db')"
  shows "db' = db \<or> (\<exists>l e. lease_of fp db = Some l \<and> sha256_text fp \<and> db' = put_lease (l\<lparr>ls_expires_at := e\<rparr>) db)"
proof (cases "lease_of fp db")
  case None
  with assms show ?thesis by (simp add: renew_def validate_principal_def Let_def split: if_splits)
next
  case (Some l)
  with assms show ?thesis
    by (cases "time_plus (utc_of now) ttl") (auto simp: renew_def validate_principal_def Let_def split: if_splits)
qed

lemma release_puts:
  assumes "release fp owner_id fence now db = (q, db')"
  shows "db' = db \<or> (\<exists>l e. lease_of fp db = Some l \<and> sha256_text fp \<and> db' = put_lease (l\<lparr>ls_expires_at := e\<rparr>) db)"
proof (cases "lease_of fp db")
  case None
  with assms show ?thesis by (simp add: release_def validate_principal_def Let_def split: if_splits)
next
  case (Some l)
  with assms show ?thesis
    by (auto simp: release_def validate_principal_def Let_def split: if_splits)
qed

lemma lease_touched: "lease_of fp db = Some l \<Longrightarrow> sha256_text fp \<Longrightarrow> lease_succeeds (l\<lparr>ls_expires_at := e\<rparr>) db"
  using lease_of_Some [of fp db l] by (simp add: lease_succeeds_def)

lemma acquire_step:
  assumes "acquire fp owner_id now ttl force db = (q, db')"
  shows "db' = db \<or> (\<exists>l. lease_succeeds l db \<and> db' = put_lease l db)"
  using assms
proof (cases rule: acquire_cases)
  case (granted l)
  then have "lease_succeeds l db" by (simp add: lease_succeeds_def split: option.splits)
  then show ?thesis using granted(2) by blast
qed simp

lemma renew_step:
  assumes "renew fp owner_id fence now ttl db = (q, db')"
  shows "db' = db \<or> (\<exists>l. lease_succeeds l db \<and> db' = put_lease l db)"
  using renew_puts [OF assms] lease_touched by blast

lemma release_step:
  assumes "release fp owner_id fence now db = (q, db')"
  shows "db' = db \<or> (\<exists>l. lease_succeeds l db \<and> db' = put_lease l db)"
  using release_puts [OF assms] lease_touched by blast

lemma fences_le_refl: "fences_le db db"
  by (simp add: fences_le_def)

lemma fences_le_trans:
  assumes "fences_le a b" "fences_le b c"
  shows "fences_le a c"
  unfolding fences_le_def
proof (intro allI impI)
  fix fp l
  assume "lease_of fp a = Some l"
  with assms(1) obtain k where k: "lease_of fp b = Some k" "ls_fence l \<le> ls_fence k"
    "ls_fence k = ls_fence l \<longrightarrow> ls_owner k = ls_owner l" unfolding fences_le_def by blast
  from assms(2) k(1) obtain m where "lease_of fp c = Some m" "ls_fence k \<le> ls_fence m"
    "ls_fence m = ls_fence k \<longrightarrow> ls_owner m = ls_owner k" unfolding fences_le_def by blast
  with k show "\<exists>l'. lease_of fp c = Some l' \<and> ls_fence l \<le> ls_fence l'
      \<and> (ls_fence l' = ls_fence l \<longrightarrow> ls_owner l' = ls_owner l)" by auto
qed

lemma put_lease_fences_le: "lease_succeeds l db \<Longrightarrow> fences_le db (put_lease l db)"
  by (auto simp: fences_le_def lease_of_put lease_succeeds_def)

lemma lease_succeeds_ok: "leases_ok db \<Longrightarrow> lease_succeeds l db \<Longrightarrow> leases_ok (put_lease l db)"
  by (rule put_lease_ok) (auto simp: lease_succeeds_def leases_ok_def split: option.splits dest!: lease_of_Some)

text \<open>The rows of the portfolio are not touched.\<close>

lemma put_lease_coverage_ok: "coverage_ok digest (put_lease l db) = coverage_ok digest db"
  by (simp add: put_lease_tables coverage_ok_def keys_unique_def hashes_match_def identities_hold_def members_exist_def)

lemma put_lease_rows [simp]: "rows_extend db (put_lease l db)"
  by (simp add: rows_extend_def put_lease_tables)

definition lease_db_ok :: "(string \<Rightarrow> string) \<Rightarrow> coverage_db \<Rightarrow> bool" where
  "lease_db_ok digest db = (coverage_ok digest db \<and> leases_ok db)"

definition lease_db_le :: "coverage_db \<Rightarrow> coverage_db \<Rightarrow> bool" where
  "lease_db_le db db' = (fences_le db db' \<and> rows_extend db db')"

lemma lease_db_le_refl: "lease_db_le db db"
  by (simp add: lease_db_le_def fences_le_refl)

lemma lease_db_le_trans: "lease_db_le a b \<Longrightarrow> lease_db_le b c \<Longrightarrow> lease_db_le a c"
  unfolding lease_db_le_def by (blast intro: fences_le_trans rows_extend_trans)

lemma same_leases: "cv_leases b = cv_leases a \<Longrightarrow> lease_of fp b = lease_of fp a" "cv_leases b = cv_leases a \<Longrightarrow> leases_ok b = leases_ok a"
  by (simp_all add: lease_of_def leases_ok_def)

lemma same_leases_fences: "cv_leases b = cv_leases a \<Longrightarrow> fences_le a b"
  by (simp add: fences_le_def lease_of_def)

lemma put_lease_advances:
  "lease_db_ok digest db \<Longrightarrow> lease_succeeds l db \<Longrightarrow>
     lease_db_ok digest (put_lease l db) \<and> lease_db_le db (put_lease l db)"
  by (simp add: lease_db_ok_def lease_db_le_def put_lease_coverage_ok lease_succeeds_ok put_lease_fences_le)

lemma sweep_lease_db:
  assumes "lease_db_ok digest db1" "sweep digest svc now client raw_id raw_at db0 lg db1 = Some (q, db')"
  shows "lease_db_ok digest db' \<and> lease_db_le db1 db'"
proof -
  have ok: "coverage_ok digest db1" "leases_ok db1" using assms(1) by (simp_all add: lease_db_ok_def)
  have sw: "coverage_ok digest db'" "coverage_extends db1 db'" using sweep_appends [OF ok(1) assms(2)] by blast+
  then have rows: "rows_extend db1 db'" and leases: "cv_leases db' = cv_leases db1"
    using coverage_extends_rows_extend by blast+
  show ?thesis
    unfolding lease_db_ok_def lease_db_le_def
    using ok(2) sw(1) rows same_leases(2) [OF leases] same_leases_fences [OF leases] by simp
qed

lemma lease_step_advances:
  assumes "lease_db_ok digest db"
  shows "lease_db_ok digest (lease_step digest x db) \<and> lease_db_le db (lease_step digest x db)"
proof -
  have puts: "db' = db \<or> (\<exists>l. lease_succeeds l db \<and> db' = put_lease l db) \<Longrightarrow>
      lease_db_ok digest db' \<and> lease_db_le db db'" for db'
    using assms put_lease_advances lease_db_le_refl by blast
  show ?thesis
  proof (cases x)
    case (Acquire fp owner now ttl force)
    then show ?thesis using puts [OF acquire_step [OF surjective_pairing]] by (simp add: lease_step_def)
  next
    case (Renew fp owner fence now ttl)
    then show ?thesis using puts [OF renew_step [OF surjective_pairing]] by (simp add: lease_step_def)
  next
    case (Release fp owner fence now)
    then show ?thesis using puts [OF release_step [OF surjective_pairing]] by (simp add: lease_step_def)
  next
    case (Sweep svc now client raw_id raw_at db0 lg)
    show ?thesis
    proof (cases "sweep digest svc now client raw_id raw_at db0 lg db")
      case None
      then show ?thesis by (simp add: Sweep lease_step_def assms lease_db_le_refl)
    next
      case (Some r)
      then obtain q db' where "sweep digest svc now client raw_id raw_at db0 lg db = Some (q, db')"
        by (cases r) simp
      with sweep_lease_db [OF assms this] show ?thesis by (simp add: Sweep lease_step_def)
    qed
  qed
qed

interpretation lease_machine: monotone_machine "lease_db_ok digest" "lease_step digest" lease_db_le
  for digest
proof
  fix s t u :: coverage_db and a
  show "lease_db_ok digest s \<Longrightarrow> lease_db_ok digest (lease_step digest a s)"
    "lease_db_ok digest s \<Longrightarrow> lease_db_le s (lease_step digest a s)"
    using lease_step_advances by blast+
  show "lease_db_le s s" by (rule lease_db_le_refl)
  show "lease_db_le s t \<Longrightarrow> lease_db_le t u \<Longrightarrow> lease_db_le s u" by (rule lease_db_le_trans)
qed

text \<open>What an acquisition leaves, and what it is worth later.\<close>

lemma acquire_lease:
  assumes "acquire fp owner_id now ttl force db = (Inr n, db')"
  shows "\<exists>l. lease_of fp db' = Some l \<and> ls_fence l = n \<and> ls_owner l = strip owner_id \<and> sha256_text fp
    \<and> n = (case lease_of fp db of None \<Rightarrow> 1 | Some k \<Rightarrow> ls_fence k + 1)"
  using assms by (cases rule: acquire_cases) (simp_all add: lease_of_put)

lemma lease_below:
  "lease_db_le a b \<Longrightarrow> lease_of fp a = Some l \<Longrightarrow> \<exists>k. lease_of fp b = Some k \<and> ls_fence l \<le> ls_fence k"
  unfolding lease_db_le_def fences_le_def by blast

lemma stale_guard:
  "lease_of fp db = Some l \<Longrightarrow> cs_lease svc = Some (owner, fence) \<Longrightarrow> fence < ls_fence l \<Longrightarrow>
     lease_guard svc now fp db \<noteq> Inr ()"
  by (auto simp: lease_guard_def aware_instant_def lease_of_def res_simps split: py_datetime.splits)

lemma stale_lease_kept:
  assumes "lease_of fp db = Some l" "fence < ls_fence l"
  shows "snd (renew fp owner_id fence now ttl db) = db" "snd (release fp owner_id fence now db) = db"
  using assms by (simp_all add: renew_def release_def validate_principal_def Let_def)

section \<open>Properties of the lease\<close>

text \<open>
  Fence tokens of a principal increase: of two acquisitions the later one gets a larger
  token, by whomever, forced or not, and whatever workers did to the database in between.
\<close>

theorem fence_tokens_increase:
  assumes "lease_db_ok digest db" and "acquire fp owner now ttl force db = (Inr n, db1)"
    and "acquire fp owner' now' ttl' force' (fold (lease_step digest) ops db1) = (Inr m, db2)"
  shows "n < m"
proof -
  obtain l where l: "lease_of fp db1 = Some l" "ls_fence l = n" using acquire_lease [OF assms(2)] by blast
  have "lease_db_ok digest db1"
    using lease_machine.step_inv [OF assms(1), of "Acquire fp owner now ttl force"] assms(2)
    by (simp add: lease_step_def)
  from lease_below [OF lease_machine.run_le [OF this] l(1)] obtain k where
    "lease_of fp (fold (lease_step digest) ops db1) = Some k" "n \<le> ls_fence k" using l(2) by blast
  with acquire_lease [OF assms(3)] show ?thesis by auto
qed

end
