(* ===== verification/Projection.thy ===== *)
theory Projection
  imports Leases KalshiAccounts
begin

text \<open>
  The fenced projection of \<open>services/kalshi_portfolio_projection.py\<close>
  (\<open>KalshiPortfolioProjectionSynchronizer\<close>): a sweep, then positions, balance and settlements,
  persisted as one attempt with the head of its principal in one transaction under the lease.
  The tables of the sweep are part of the database here. A synchronization is three
  transactions; what other workers do before each of them is the argument \<open>others\<close>. Durations
  are whole microseconds, which \<open>Decimal(str(d.total_seconds()))\<close> keeps exactly below
  2 ^ 33 seconds.
\<close>

section \<open>Exact JSON\<close>

definition is_py_int :: "pyval \<Rightarrow> bool" where
  "is_py_int v = (case v of PInt _ \<Rightarrow> True | PBool _ \<Rightarrow> True | _ \<Rightarrow> False)"

definition cents_key :: "string \<Rightarrow> bool" where
  "cents_key k = (6 \<le> length k \<and> drop (length k - 6) k = ''_cents'')"

fun exact_json :: "pyval \<Rightarrow> pyval res" where
  "exact_json PNone = Inr PNone"
| "exact_json (PBool b) = Inr (PBool b)"
| "exact_json (PInt i) = Inr (PStr (int_str i))"
| "exact_json (PDec (Fin d)) = Inr (PStr (format_f d))"
| "exact_json (PDec _) = Inl (ValueError ''projection payload contains a non-finite Decimal'')"
| "exact_json (PStr s) = Inr (PStr s)"
| "exact_json (PFloat _) = Inl (TypeError ''unsupported projection payload value'')"
| "exact_json (PList xs) = bindE (traverseE id (map exact_json xs)) (\<lambda>ys. Inr (PList ys))"
| "exact_json (PDict kvs) =
     bindE (traverseE id (map (\<lambda>(k, v). if cents_key k \<and> is_py_int v then Inr (k, PStr (py_str v))
        else bindE (exact_json v) (\<lambda>w. Inr (k, w))) kvs)) (\<lambda>kws. Inr (PDict kws))"

text \<open>\<open>asdict\<close> of the read models\<close>

definition market_position_dict :: "kalshi_market_position \<Rightarrow> pyval" where
  "market_position_dict p = PDict
     [(''ticker'', PStr (mp_ticker p)), (''total_traded'', PDec (Fin (mp_total_traded p))),
      (''position'', PDec (Fin (mp_position p))), (''market_exposure'', PDec (Fin (mp_market_exposure p))),
      (''realized_pnl'', PDec (Fin (mp_realized_pnl p))), (''fees_paid'', PDec (Fin (mp_fees_paid p))),
      (''last_updated_ts'', PStr (mp_last_updated_ts p))]"

definition event_position_dict :: "kalshi_event_position \<Rightarrow> pyval" where
  "event_position_dict p = PDict
     [(''event_ticker'', PStr (ep_event_ticker p)), (''total_cost'', PDec (Fin (ep_total_cost p))),
      (''total_cost_shares'', PDec (Fin (ep_total_cost_shares p))),
      (''event_exposure'', PDec (Fin (ep_event_exposure p))),
      (''realized_pnl'', PDec (Fin (ep_realized_pnl p))), (''fees_paid'', PDec (Fin (ep_fees_paid p)))]"

fun market_result_text :: "market_result \<Rightarrow> string" where
  "market_result_text ResultYes = ''yes''"
| "market_result_text ResultNo = ''no''"
| "market_result_text ResultScalar = ''scalar''"

definition settlement_dict :: "kalshi_settlement \<Rightarrow> pyval" where
  "settlement_dict s = PDict
     [(''ticker'', PStr (set_ticker s)), (''event_ticker'', PStr (set_event_ticker s)),
      (''market_result'', PStr (market_result_text (set_market_result s))),
      (''yes_count'', PDec (Fin (set_yes_count s))), (''yes_total_cost'', PDec (Fin (set_yes_total_cost s))),
      (''no_count'', PDec (Fin (set_no_count s))), (''no_total_cost'', PDec (Fin (set_no_total_cost s))),
      (''revenue_cents'', PInt (set_revenue_cents s)), (''settled_time'', PStr (set_settled_time s)),
      (''fee_cost'', PDec (Fin (set_fee_cost s))),
      (''settlement_value_cents'', py_opt PInt (set_settlement_value_cents s))]"

definition balance_dict :: "kalshi_balance_snapshot \<Rightarrow> pyval" where
  "balance_dict b = PDict
     [(''balance_cents'', PInt (bal_balance_cents b)), (''balance_dollars'', PDec (Fin (bal_balance_dollars b))),
      (''portfolio_value_cents'', PInt (bal_portfolio_value_cents b)), (''updated_ts'', PInt (bal_updated_ts b)),
      (''balance_breakdown'', PList (map (\<lambda>s. PDict [(''exchange_index'', PInt (sub_exchange_index s)),
         (''balance'', PDec (Fin (sub_balance s)))]) (bal_balance_breakdown b)))]"

section \<open>The tables\<close>

record projection_attempt =
  pa_principal :: string
  pa_projection_id :: string
  pa_coverage_id :: "string option"
  pa_subaccount :: int
  pa_status :: string
  pa_reason :: string
  pa_started_at :: int
  pa_completed_at :: int
  pa_coverage_at :: "int option"
  pa_positions_at :: "int option"
  pa_balance_at :: "int option"
  pa_settlements_at :: "int option"
  pa_skew :: "int option"
  pa_bound :: int
  pa_evidence_hash :: "string option"
  pa_balance :: "pyval option"
  pa_positions :: "pyval option"
  pa_settlements :: "pyval option"
  pa_gaps :: "string list"
  pa_retry_allowed :: bool

record projection_head =
  ph_principal :: string
  ph_latest :: string
  ph_healthy :: "string option"
  ph_updated_at :: int

record projection_db =
  pj_coverage :: coverage_db
  pj_attempts :: "projection_attempt list"
  pj_heads :: "projection_head list"

definition projection_key :: "projection_attempt \<Rightarrow> string \<times> string" where
  "projection_key a = (pa_principal a, pa_projection_id a)"

definition attempt_of :: "string \<Rightarrow> string \<Rightarrow> projection_db \<Rightarrow> projection_attempt option" where
  "attempt_of fp pid db = row_of projection_key (fp, pid) (pj_attempts db)"

definition head_of :: "string \<Rightarrow> projection_db \<Rightarrow> projection_head option" where
  "head_of fp db = row_of ph_principal fp (pj_heads db)"

definition attempt_valid :: "projection_attempt \<Rightarrow> bool" where
  "attempt_valid a =
     (sha256_text (pa_principal a) \<and> pa_status a \<in> {''complete'', ''incomplete'', ''failed''}
      \<and> (pa_status a = ''failed'' \<longleftrightarrow> pa_coverage_id a = None)
      \<and> 0 \<le> pa_subaccount a \<and> pa_subaccount a \<le> 63 \<and> \<not> pa_retry_allowed a \<and> 0 < pa_bound a)"

definition coverage_exists :: "projection_attempt \<Rightarrow> projection_db \<Rightarrow> bool" where
  "coverage_exists a db =
     (case pa_coverage_id a of None \<Rightarrow> True
      | Some i \<Rightarrow> row_of checkpoint_key (pa_principal a, i) (cv_checkpoints (pj_coverage db)) \<noteq> None)"

definition add_attempt :: "projection_attempt \<Rightarrow> (projection_db, unit) action" where
  "add_attempt a =
     insert_row projection_key pj_attempts pj_attempts_update (\<lambda>db. attempt_valid a \<and> coverage_exists a db) a"

text \<open>The head of the attempt's principal moves to the attempt.\<close>

definition advance_head :: "projection_attempt \<Rightarrow> projection_db \<Rightarrow> projection_db" where
  "advance_head a db =
     (case head_of (pa_principal a) db of
        None \<Rightarrow> db\<lparr>pj_heads := pj_heads db @ [\<lparr>ph_principal = pa_principal a, ph_latest = pa_projection_id a,
            ph_healthy = (if pa_status a = ''complete'' then Some (pa_projection_id a) else None),
            ph_updated_at = pa_completed_at a\<rparr>]\<rparr>
      | Some h \<Rightarrow> db\<lparr>pj_heads := map (\<lambda>x. if ph_principal x = pa_principal a
            then h\<lparr>ph_latest := pa_projection_id a,
              ph_healthy := (if pa_status a = ''complete'' then Some (pa_projection_id a) else ph_healthy h),
              ph_updated_at := pa_completed_at a\<rparr>
            else x) (pj_heads db)\<rparr>)"

section \<open>The synchronizer\<close>

record synchronizer =
  sy_subaccount :: int
  sy_owner :: string
  sy_fence :: int
  sy_bound :: int

definition make_synchronizer :: "int \<Rightarrow> string \<Rightarrow> int \<Rightarrow> int \<Rightarrow> synchronizer res" where
  "make_synchronizer subaccount owner fence bound =
     (if \<not> (0 \<le> subaccount \<and> subaccount \<le> 63) then Inl (ValueError ''subaccount must be an integer between 0 and 63'')
      else if strip owner = [] \<or> fence \<le> 0
      then Inl (ValueError ''an expected lease owner and positive fence token are required'')
      else if bound \<le> 0 then Inl (ValueError ''correctness_freshness_bound must be positive'')
      else Inr \<lparr>sy_subaccount = subaccount, sy_owner = strip owner, sy_fence = fence, sy_bound = bound\<rparr>)"

text \<open>The provider; positions and settlements are asked for one subaccount.\<close>

record projection_client =
  pc_coverage :: coverage_client
  pc_positions :: "int \<Rightarrow> nat \<Rightarrow> string option \<Rightarrow> kalshi_positions_page res"
  pc_balance :: "kalshi_balance_snapshot res"
  pc_settlements :: "int \<Rightarrow> nat \<Rightarrow> string option \<Rightarrow> kalshi_settlements_page res"

definition take_positions ::
    "pyval list \<times> pyval list \<Rightarrow> kalshi_positions_page \<Rightarrow> (pyval list \<times> pyval list) res" where
  "take_positions acc page =
     bindE (traverseE (\<lambda>p. exact_json (market_position_dict p)) (pp_market_positions page)) (\<lambda>ms.
     bindE (traverseE (\<lambda>p. exact_json (event_position_dict p)) (pp_event_positions page)) (\<lambda>es.
     Inr (fst acc @ ms, snd acc @ es)))"

definition read_positions :: "projection_client \<Rightarrow> int \<Rightarrow> pyval res option" where
  "read_positions client subaccount =
     bindO (read_pages (\<lambda>n c. bindE (pc_positions client subaccount n c) (\<lambda>page. Inr ([page], pp_cursor page)))
       take_positions (ValueError ''positions pagination cursor repeated'') ([], [])) (\<lambda>(markets, events).
     Some (Inr (PDict [(''subaccount_number'', PStr (int_str subaccount)), (''market_positions'', PList markets),
       (''event_positions'', PList events)])))"

definition take_settlements :: "pyval list \<Rightarrow> kalshi_settlements_page \<Rightarrow> pyval list res" where
  "take_settlements acc page =
     bindE (traverseE (\<lambda>s. exact_json (settlement_dict s)) (sp_settlements page)) (\<lambda>ss. Inr (acc @ ss))"

definition read_settlements :: "projection_client \<Rightarrow> int \<Rightarrow> pyval res option" where
  "read_settlements client subaccount =
     bindO (read_pages (\<lambda>n c. bindE (pc_settlements client subaccount n c) (\<lambda>page. Inr ([page], sp_cursor page)))
       take_settlements (ValueError ''settlements pagination cursor repeated'') []) (\<lambda>settlements.
     Some (Inr (PDict [(''subaccount_number'', PStr (int_str subaccount)), (''settlements'', PList settlements)])))"

definition read_balance :: "projection_client \<Rightarrow> pyval res" where
  "read_balance client = bindE (pc_balance client) (\<lambda>b. exact_json (balance_dict b))"

text \<open>A component that could not be read is a gap; one that was read has the time of its read.\<close>

type_synonym component = "(pyval \<times> int) option"

definition observed :: "pyval res \<Rightarrow> py_datetime \<Rightarrow> component" where
  "observed m t = (case m of Inl _ \<Rightarrow> None | Inr v \<Rightarrow> Some (v, utc_of t))"

record components =
  co_positions :: component
  co_balance :: component
  co_settlements :: component

definition read_components ::
    "projection_client \<Rightarrow> int \<Rightarrow> (nat \<Rightarrow> py_datetime) \<Rightarrow> components option" where
  "read_components client subaccount now =
     (case read_positions client subaccount of None \<Rightarrow> None
      | Some positions \<Rightarrow>
     (case read_settlements client subaccount of None \<Rightarrow> None
      | Some settlements \<Rightarrow>
          Some \<lparr>co_positions = observed positions (now 0), co_balance = observed (read_balance client) (now 1),
            co_settlements = observed settlements (now 2)\<rparr>))"

definition component_times :: "coverage_result \<Rightarrow> components \<Rightarrow> (string \<times> int) list" where
  "component_times cov c =
     (''coverage'', cr_observed_at cov)
     # (case co_positions c of None \<Rightarrow> [] | Some (_, t) \<Rightarrow> [(''positions'', t)])
     @ (case co_balance c of None \<Rightarrow> [] | Some (_, t) \<Rightarrow> [(''balance'', t)])
     @ (case co_settlements c of None \<Rightarrow> [] | Some (_, t) \<Rightarrow> [(''settlements'', t)])"

definition component_skew :: "coverage_result \<Rightarrow> components \<Rightarrow> int" where
  "component_skew cov c =
     (let ts = snd ` set (component_times cov c) in Max ts - Min ts)"

definition projection_gaps :: "int \<Rightarrow> coverage_result \<Rightarrow> components \<Rightarrow> string list" where
  "projection_gaps bound cov c =
     sort_texts (remdups
       ((if co_positions c = None then [''positions''] else [])
        @ (if co_balance c = None then [''balance''] else [])
        @ (if co_settlements c = None then [''settlements''] else [])
        @ (if cr_status cov \<noteq> Complete then [''coverage''] else [])
        @ (if bound < component_skew cov c then [''component_skew''] else [])))"

definition projection_hash ::
    "(string \<Rightarrow> string) \<Rightarrow> int \<Rightarrow> coverage_result \<Rightarrow> components \<Rightarrow> string" where
  "projection_hash digest subaccount cov c =
     evidence_hash digest
       [(''coverage_hash'', PStr (cr_evidence_hash cov)), (''subaccount'', PInt subaccount),
        (''positions'', py_opt fst (co_positions c)), (''balance'', py_opt fst (co_balance c)),
        (''settlements'', py_opt fst (co_settlements c)),
        (''component_times'', PDict (map (\<lambda>(k, t). (k, PStr (iso_text t))) (component_times cov c)))]"

definition projected_attempt ::
    "(string \<Rightarrow> string) \<Rightarrow> synchronizer \<Rightarrow> string \<Rightarrow> string \<Rightarrow> int \<Rightarrow> int \<Rightarrow> coverage_result \<Rightarrow> components
       \<Rightarrow> projection_attempt" where
  "projected_attempt digest sy fp pid started completed cov c =
     (let gaps = projection_gaps (sy_bound sy) cov c in
      \<lparr>pa_principal = fp, pa_projection_id = pid, pa_coverage_id = Some (cr_coverage_id cov),
       pa_subaccount = sy_subaccount sy,
       pa_status = (if gaps = [] then ''complete'' else ''incomplete''),
       pa_reason = (if gaps = [] then ''authoritative_components_complete'' else ''incomplete:'' @ join '','' gaps),
       pa_started_at = started, pa_completed_at = completed, pa_coverage_at = Some (cr_observed_at cov),
       pa_positions_at = map_option snd (co_positions c), pa_balance_at = map_option snd (co_balance c),
       pa_settlements_at = map_option snd (co_settlements c), pa_skew = Some (component_skew cov c),
       pa_bound = sy_bound sy, pa_evidence_hash = Some (projection_hash digest (sy_subaccount sy) cov c),
       pa_balance = map_option fst (co_balance c), pa_positions = map_option fst (co_positions c),
       pa_settlements = map_option fst (co_settlements c), pa_gaps = gaps, pa_retry_allowed = False\<rparr>)"

definition failed_attempt ::
    "synchronizer \<Rightarrow> string \<Rightarrow> string \<Rightarrow> int \<Rightarrow> int \<Rightarrow> string \<Rightarrow> projection_attempt" where
  "failed_attempt sy fp pid started completed reason =
     \<lparr>pa_principal = fp, pa_projection_id = pid, pa_coverage_id = None, pa_subaccount = sy_subaccount sy,
      pa_status = ''failed'', pa_reason = reason, pa_started_at = started, pa_completed_at = completed,
      pa_coverage_at = None, pa_positions_at = None, pa_balance_at = None, pa_settlements_at = None,
      pa_skew = None, pa_bound = sy_bound sy, pa_evidence_hash = None, pa_balance = None, pa_positions = None,
      pa_settlements = None, pa_gaps = [''coverage'', ''positions'', ''balance'', ''settlements''],
      pa_retry_allowed = False\<rparr>"

section \<open>Its transactions\<close>

definition sync_guard :: "synchronizer \<Rightarrow> py_datetime \<Rightarrow> string \<Rightarrow> projection_db \<Rightarrow> unit res" where
  "sync_guard sy now fp db =
     (case lease_of fp (pj_coverage db) of
        None \<Rightarrow> Inl (KalshiPortfolioProjectionFencingError ''projection lease fence changed or expired'')
      | Some l \<Rightarrow>
          if ls_owner l \<noteq> sy_owner sy \<or> ls_fence l \<noteq> sy_fence sy \<or> ls_expires_at l \<le> utc_of now
          then Inl (KalshiPortfolioProjectionFencingError ''projection lease fence changed or expired'')
          else Inr ())"

record projection_result =
  pn_principal :: string
  pn_projection_id :: string
  pn_status :: string
  pn_reason :: string
  pn_retry_allowed :: bool

definition attempt_result :: "projection_attempt \<Rightarrow> projection_result" where
  "attempt_result a = \<lparr>pn_principal = pa_principal a, pn_projection_id = pa_projection_id a,
     pn_status = pa_status a, pn_reason = pa_reason a, pn_retry_allowed = False\<rparr>"

definition open_projection ::
    "synchronizer \<Rightarrow> py_datetime \<Rightarrow> string \<Rightarrow> string \<Rightarrow> projection_db \<Rightarrow> projection_attempt option res" where
  "open_projection sy now fp pid db = bindE (sync_guard sy now fp db) (\<lambda>_. Inr (attempt_of fp pid db))"

text \<open>The attempt that is stored already, if there is one.\<close>

definition commit_attempt ::
    "synchronizer \<Rightarrow> py_datetime \<Rightarrow> projection_attempt \<Rightarrow> (projection_db, projection_attempt option) action" where
  "commit_attempt sy now a =
     transaction (\<lambda>db.
       case open_projection sy now (pa_principal a) (pa_projection_id a) db of
         Inl e \<Rightarrow> (Inl e, db)
       | Inr (Some existing) \<Rightarrow> (Inr (Some existing), db)
       | Inr None \<Rightarrow> bindA (add_attempt a) (\<lambda>_ s. (Inr None, advance_head a s)) db)"

definition persist_failed_attempt ::
    "synchronizer \<Rightarrow> py_datetime \<Rightarrow> string \<Rightarrow> string \<Rightarrow> int \<Rightarrow> int \<Rightarrow> string \<Rightarrow> projection_db
       \<Rightarrow> projection_result res \<times> projection_db" where
  "persist_failed_attempt sy now fp pid started completed reason db =
     (case commit_attempt sy now (failed_attempt sy fp pid started completed reason) db of
        (Inl e, db') \<Rightarrow> (Inl e, db')
      | (Inr _, db') \<Rightarrow> (Inr \<lparr>pn_principal = fp, pn_projection_id = pid, pn_status = ''incomplete'',
          pn_reason = reason, pn_retry_allowed = False\<rparr>, db'))"

definition persist_projection ::
    "synchronizer \<Rightarrow> py_datetime \<Rightarrow> projection_attempt \<Rightarrow> projection_db
       \<Rightarrow> projection_result res \<times> projection_db" where
  "persist_projection sy now a db =
     (case commit_attempt sy now a db of
        (Inl e, db') \<Rightarrow> (Inl e, db')
      | (Inr (Some existing), db') \<Rightarrow> (Inr (attempt_result existing), db')
      | (Inr None, db') \<Rightarrow> (Inr (attempt_result a), db'))"

text \<open>The sweep, with the service made inside the \<open>try\<close>.\<close>

definition sync_sweep ::
    "(string \<Rightarrow> string) \<Rightarrow> synchronizer \<Rightarrow> (nat \<Rightarrow> py_datetime) \<Rightarrow> projection_client \<Rightarrow> string \<Rightarrow> int
       \<Rightarrow> projection_db \<Rightarrow> ledger \<Rightarrow> projection_db \<Rightarrow> (coverage_result res \<times> projection_db) option" where
  "sync_sweep digest sy now client pid started db0 lg db1 =
     (case make_coverage_service (Some (sy_owner sy)) (Some (sy_fence sy)) of
        Inl e \<Rightarrow> Some (Inl e, db1)
      | Inr svc \<Rightarrow>
          (case sweep digest svc now (pc_coverage client) pid (Aware started) (pj_coverage db0) lg (pj_coverage db1) of
             None \<Rightarrow> None
           | Some (q, cov') \<Rightarrow> Some (q, db1\<lparr>pj_coverage := cov'\<rparr>)))"

text \<open>\<open>(projection_id or str(uuid.uuid4())).strip()\<close>\<close>

definition projection_id_of :: "string \<Rightarrow> string option \<Rightarrow> string" where
  "projection_id_of fresh_uuid raw_id =
     strip (case raw_id of None \<Rightarrow> fresh_uuid | Some s \<Rightarrow> if s = [] then fresh_uuid else s)"

text \<open>
  The clock is read at fixed places: 0 at the start, 1 with the first lease check, 2 to 4 by the
  sweep, 5 to 7 after the components, 8 at completion and 9 with the last lease check.
\<close>

definition synchronize ::
    "(string \<Rightarrow> string) \<Rightarrow> (exn \<Rightarrow> string) \<Rightarrow> synchronizer \<Rightarrow> (nat \<Rightarrow> py_datetime) \<Rightarrow> projection_client
       \<Rightarrow> string \<Rightarrow> string option \<Rightarrow> ledger \<Rightarrow> (nat \<Rightarrow> projection_db \<Rightarrow> projection_db) \<Rightarrow> projection_db
       \<Rightarrow> (projection_result res \<times> projection_db) option" where
  "synchronize digest exn_name sy now client fresh_uuid raw_id lg others db =
     (let fp = cc_principal_fingerprint (pc_coverage client);
          pid = projection_id_of fresh_uuid raw_id;
          started = utc_of (now 0)
      in case validate_principal fp of
        Inl e \<Rightarrow> Some (Inl e, db)
      | Inr _ \<Rightarrow>
      if pid = [] then Some (Inl (ValueError ''projection_id is required''), db) else
      let db1 = others 0 db in
      case open_projection sy (now 1) fp pid db1 of
        Inl e \<Rightarrow> Some (Inl e, db1)
      | Inr (Some existing) \<Rightarrow> Some (Inr (attempt_result existing), db1)
      | Inr None \<Rightarrow>
      let db2 = others 1 db1; db3 = others 2 db2 in
      case sync_sweep digest sy (\<lambda>i. now (2 + i)) client pid started db2 lg db3 of
        None \<Rightarrow> None
      | Some (Inl e, db4) \<Rightarrow>
          Some (persist_failed_attempt sy (now 9) fp pid started (utc_of (now 8))
            (''coverage_failed:'' @ exn_name e) (others 3 db4))
      | Some (Inr cov, db4) \<Rightarrow>
      case read_components client (sy_subaccount sy) (\<lambda>i. now (5 + i)) of
        None \<Rightarrow> None
      | Some c \<Rightarrow>
          Some (persist_projection sy (now 9)
            (projected_attempt digest sy fp pid started (utc_of (now 8)) cov c) (others 3 db4)))"

end
