(* ===== verification/ProjectionSteps.thy ===== *)
theory ProjectionSteps
  imports Projection
begin

text \<open>
  The transactions of leases, sweeps and projections as the steps of one machine, the
  invariant of its database, and a synchronization as a sequence of such steps: whatever
  holds of all sequences of steps holds of any number of workers that interleave.
\<close>

section \<open>The machine\<close>

definition coverage_recorded :: "coverage_result \<Rightarrow> projection_db \<Rightarrow> bool" where
  "coverage_recorded cov db =
     (case row_of checkpoint_key (cr_principal cov, cr_coverage_id cov) (cv_checkpoints (pj_coverage db)) of
        None \<Rightarrow> False | Some c \<Rightarrow> result_from_checkpoint c = Inr cov)"

text \<open>The last transaction of a synchronization; it has a result only of a sweep that was recorded.\<close>

datatype projection_op =
    LeaseStep lease_op
  | FailedStep synchronizer py_datetime string string int int string
  | ProjectionStep synchronizer py_datetime string int int coverage_result components

definition projection_step :: "(string \<Rightarrow> string) \<Rightarrow> projection_op \<Rightarrow> projection_db \<Rightarrow> projection_db" where
  "projection_step digest x db =
     (case x of
        LeaseStep y \<Rightarrow> db\<lparr>pj_coverage := lease_step digest y (pj_coverage db)\<rparr>
      | FailedStep sy now fp pid started completed reason \<Rightarrow>
          snd (persist_failed_attempt sy now fp pid started completed reason db)
      | ProjectionStep sy now pid started completed cov c \<Rightarrow>
          if coverage_recorded cov db
          then snd (persist_projection sy now
            (projected_attempt digest sy (cr_principal cov) pid started completed cov c) db)
          else db)"

section \<open>Its invariant\<close>

text \<open>What a complete attempt rests on: a complete sweep and components read close to it.\<close>

definition times_close :: "int \<Rightarrow> int \<Rightarrow> int \<Rightarrow> int \<Rightarrow> int \<Rightarrow> bool" where
  "times_close bound t u v w = (let times = {t, u, v, w} in Max times - Min times \<le> bound)"

definition complete_evidence :: "projection_attempt \<Rightarrow> checkpoint_row \<Rightarrow> bool" where
  "complete_evidence a c =
     (pa_gaps a = [] \<and> cp_status c = ''complete'' \<and> pa_coverage_at a = Some (cp_observed_at c) \<and> pa_skew a \<noteq> None
      \<and> pa_positions a \<noteq> None \<and> pa_balance a \<noteq> None \<and> pa_settlements a \<noteq> None
      \<and> (\<exists>tp tb ts. pa_positions_at a = Some tp \<and> pa_balance_at a = Some tb \<and> pa_settlements_at a = Some ts
           \<and> times_close (pa_bound a) (cp_observed_at c) tp tb ts))"

definition attempt_certified :: "projection_db \<Rightarrow> projection_attempt \<Rightarrow> bool" where
  "attempt_certified db a =
     (pa_status a = ''complete'' \<longrightarrow>
       (\<exists>i c. pa_coverage_id a = Some i
          \<and> row_of checkpoint_key (pa_principal a, i) (cv_checkpoints (pj_coverage db)) = Some c
          \<and> complete_evidence a c))"

definition head_ok :: "projection_db \<Rightarrow> projection_head \<Rightarrow> bool" where
  "head_ok db h =
     (\<exists>a. attempt_of (ph_principal h) (ph_latest h) db = Some a
        \<and> (pa_status a = ''complete'' \<longrightarrow> ph_healthy h = Some (ph_latest h))
        \<and> (case ph_healthy h of None \<Rightarrow> True
           | Some pid \<Rightarrow> (\<exists>b. attempt_of (ph_principal h) pid db = Some b \<and> pa_status b = ''complete'')))"

definition projection_ok :: "(string \<Rightarrow> string) \<Rightarrow> projection_db \<Rightarrow> bool" where
  "projection_ok digest db =
     (lease_db_ok digest (pj_coverage db)
      \<and> distinct (map projection_key (pj_attempts db)) \<and> distinct (map ph_principal (pj_heads db))
      \<and> (\<forall>a \<in> set (pj_attempts db). attempt_valid a \<and> coverage_exists a db \<and> attempt_certified db a
          \<and> head_of (pa_principal a) db \<noteq> None)
      \<and> (\<forall>h \<in> set (pj_heads db). head_ok db h))"

text \<open>A healthy attempt, once there is one, is only ever replaced by another.\<close>

definition projection_le :: "projection_db \<Rightarrow> projection_db \<Rightarrow> bool" where
  "projection_le db db' =
     (lease_db_le (pj_coverage db) (pj_coverage db') \<and> extends (pj_attempts db) (pj_attempts db')
      \<and> (\<forall>fp h. head_of fp db = Some h \<longrightarrow>
           (\<exists>h'. head_of fp db' = Some h' \<and> (ph_healthy h \<noteq> None \<longrightarrow> ph_healthy h' \<noteq> None))))"

lemma projection_le_refl: "projection_le db db"
  by (simp add: projection_le_def lease_db_le_refl)

lemma projection_le_trans: "projection_le a b \<Longrightarrow> projection_le b c \<Longrightarrow> projection_le a c"
  unfolding projection_le_def by (meson lease_db_le_trans extends_trans)

lemma attempt_of_extends: "projection_le a b \<Longrightarrow> attempt_of fp pid a = Some x \<Longrightarrow> attempt_of fp pid b = Some x"
  unfolding projection_le_def attempt_of_def by (blast intro: row_of_extends)

lemma attempt_of_Some: "attempt_of fp pid db = Some a \<Longrightarrow> a \<in> set (pj_attempts db) \<and> pa_principal a = fp \<and> pa_projection_id a = pid"
  unfolding attempt_of_def by (drule row_of_Some) (simp add: projection_key_def)

lemma head_of_Some: "head_of fp db = Some h \<Longrightarrow> h \<in> set (pj_heads db) \<and> ph_principal h = fp"
  unfolding head_of_def by (drule row_of_Some) simp

text \<open>The lease tables move on; attempts and heads stay.\<close>

lemma coverage_only_advances:
  assumes "projection_ok digest db" "lease_db_ok digest cov" "lease_db_le (pj_coverage db) cov"
  shows "projection_ok digest (db\<lparr>pj_coverage := cov\<rparr>) \<and> projection_le db (db\<lparr>pj_coverage := cov\<rparr>)"
proof -
  have rows: "row_of checkpoint_key k (cv_checkpoints (pj_coverage db)) = Some c \<Longrightarrow>
      row_of checkpoint_key k (cv_checkpoints cov) = Some c" for k c
    using assms(3) rows_extend_checkpoint unfolding lease_db_le_def by blast
  have ex: "coverage_exists a (db\<lparr>pj_coverage := cov\<rparr>)" if "coverage_exists a db" for a
    using that rows by (fastforce simp: coverage_exists_def split: option.splits)
  have cert: "attempt_certified (db\<lparr>pj_coverage := cov\<rparr>) a" if "attempt_certified db a" for a
    using that rows by (fastforce simp: attempt_certified_def)
  have heads: "head_ok (db\<lparr>pj_coverage := cov\<rparr>) h = head_ok db h" for h
    unfolding head_ok_def attempt_of_def by (cases "ph_healthy h") simp_all
  show ?thesis
    using assms ex cert by (simp add: projection_ok_def projection_le_def heads head_of_def)
qed

text \<open>A committed attempt.\<close>

lemma commit_attempt_cases:
  assumes "commit_attempt sy now a db = (q, db')"
  obtains (kept) "db' = db"
  | (added) "q = Inr None" "db' = advance_head a (db\<lparr>pj_attempts := pj_attempts db @ [a]\<rparr>)"
      "sync_guard sy now (pa_principal a) db = Inr ()" "attempt_valid a" "coverage_exists a db"
      "attempt_of (pa_principal a) (pa_projection_id a) db = None"
proof (cases "open_projection sy now (pa_principal a) (pa_projection_id a) db")
  case (Inl e)
  with assms kept show thesis by (simp add: commit_attempt_def transaction_def)
next
  case (Inr x)
  show thesis
  proof (cases x)
    case (Some y)
    with Inr assms kept show thesis by (simp add: commit_attempt_def transaction_def)
  next
    case None
    show thesis
    proof (cases "add_attempt a db")
      case (Pair r s)
      show thesis
      proof (cases r)
        case (Inl e)
        with None Inr Pair assms kept show thesis by (simp add: commit_attempt_def transaction_def bindA_def)
      next
        case (Inr u)
        with None \<open>open_projection sy now (pa_principal a) (pa_projection_id a) db = Inr x\<close> Pair assms
        have out: "q = Inr None" "db' = advance_head a s"
          by (simp_all add: commit_attempt_def transaction_def bindA_def)
        moreover from Pair Inr have "attempt_valid a" "coverage_exists a db" "s = db\<lparr>pj_attempts := pj_attempts db @ [a]\<rparr>"
          by (simp_all add: add_attempt_def insert_row_Inr)
        moreover have "sync_guard sy now (pa_principal a) db = Inr ()"
          "attempt_of (pa_principal a) (pa_projection_id a) db = None"
          using \<open>open_projection sy now (pa_principal a) (pa_projection_id a) db = Inr x\<close> None
          by (simp_all add: open_projection_def res_simps)
        ultimately show thesis using added by simp
      qed
    qed
  qed
qed

lemma head_of_advance:
  "head_of fp (advance_head a db) =
     (if fp = pa_principal a
      then Some (case head_of fp db of
          None \<Rightarrow> \<lparr>ph_principal = fp, ph_latest = pa_projection_id a,
            ph_healthy = (if pa_status a = ''complete'' then Some (pa_projection_id a) else None),
            ph_updated_at = pa_completed_at a\<rparr>
        | Some h \<Rightarrow> h\<lparr>ph_latest := pa_projection_id a,
              ph_healthy := (if pa_status a = ''complete'' then Some (pa_projection_id a) else ph_healthy h),
              ph_updated_at := pa_completed_at a\<rparr>)
      else head_of fp db)"
proof (cases "head_of (pa_principal a) db")
  case None
  then show ?thesis
    by (auto simp: advance_head_def head_of_def row_of_def find_append split: option.splits)
next
  case (Some h)
  then have h: "ph_principal h = pa_principal a" by (simp add: head_of_Some)
  let ?l = "h\<lparr>ph_latest := pa_projection_id a,
    ph_healthy := (if pa_status a = ''complete'' then Some (pa_projection_id a) else ph_healthy h),
    ph_updated_at := pa_completed_at a\<rparr>"
  from Some h show ?thesis
    using find_map_same [of "\<lambda>x. ph_principal x = pa_principal a" ?l "pj_heads db"]
      find_map_other [of "\<lambda>x. ph_principal x = pa_principal a" "\<lambda>x. ph_principal x = fp" ?l "pj_heads db"]
    by (auto simp: advance_head_def head_of_def row_of_def)
qed

lemma advance_head_rest [simp]:
  "pj_coverage (advance_head a db) = pj_coverage db" "pj_attempts (advance_head a db) = pj_attempts db"
  by (simp_all add: advance_head_def split: option.splits)

lemma advance_head_distinct:
  assumes "distinct (map ph_principal (pj_heads db))"
  shows "distinct (map ph_principal (pj_heads (advance_head a db)))"
proof (cases "head_of (pa_principal a) db")
  case None
  then have "pa_principal a \<notin> ph_principal ` set (pj_heads db)" by (simp add: head_of_def row_of_None)
  with None assms show ?thesis by (simp add: advance_head_def)
next
  case (Some h)
  then have h: "ph_principal h = pa_principal a" by (simp add: head_of_Some)
  have "map ph_principal (pj_heads (advance_head a db)) = map ph_principal (pj_heads db)"
    using h by (auto simp: advance_head_def Some)
  then show ?thesis using assms by simp
qed

lemma add_attempt_advances:
  assumes ok: "projection_ok digest db" and cert: "attempt_certified db a" and valid: "attempt_valid a"
    and exists: "coverage_exists a db" and new: "attempt_of (pa_principal a) (pa_projection_id a) db = None"
    and db': "db' = advance_head a (db\<lparr>pj_attempts := pj_attempts db @ [a]\<rparr>)"
  shows "projection_ok digest db' \<and> projection_le db db'"
proof -
  let ?db = "db\<lparr>pj_attempts := pj_attempts db @ [a]\<rparr>"
  have cov [simp]: "pj_coverage db' = pj_coverage db" and att [simp]: "pj_attempts db' = pj_attempts db @ [a]"
    by (simp_all add: db')
  have old: "attempt_of fp pid db = Some x \<Longrightarrow> attempt_of fp pid db' = Some x" for fp pid x
    by (simp add: attempt_of_def row_of_append_old)
  have mine: "attempt_of (pa_principal a) (pa_projection_id a) db' = Some a"
    using new by (simp add: attempt_of_def row_of_def find_append projection_key_def)
  have db_heads: "head_of fp ?db = head_of fp db" for fp by (simp add: head_of_def)
  have head: "head_of fp db' = (if fp = pa_principal a
      then Some (case head_of fp db of
          None \<Rightarrow> \<lparr>ph_principal = fp, ph_latest = pa_projection_id a,
            ph_healthy = (if pa_status a = ''complete'' then Some (pa_projection_id a) else None),
            ph_updated_at = pa_completed_at a\<rparr>
        | Some h \<Rightarrow> h\<lparr>ph_latest := pa_projection_id a,
              ph_healthy := (if pa_status a = ''complete'' then Some (pa_projection_id a) else ph_healthy h),
              ph_updated_at := pa_completed_at a\<rparr>)
      else head_of fp db)" for fp
    unfolding db' head_of_advance db_heads ..
  have keys: "distinct (map projection_key (pj_attempts db'))"
    using ok new by (auto simp: projection_ok_def attempt_of_def row_of_None projection_key_def image_iff)
  have heads: "distinct (map ph_principal (pj_heads db'))"
    unfolding db' using ok by (intro advance_head_distinct) (simp add: projection_ok_def)
  have same: "coverage_exists x db' = coverage_exists x db" "attempt_certified db' x = attempt_certified db x" for x
    by (simp_all add: coverage_exists_def attempt_certified_def split: option.splits)
  have "head_of (pa_principal x) db' \<noteq> None" if "x \<in> set (pj_attempts db')" for x
    using that ok by (auto simp: head projection_ok_def)
  then have attempts: "\<forall>x \<in> set (pj_attempts db'). attempt_valid x \<and> coverage_exists x db' \<and> attempt_certified db' x
      \<and> head_of (pa_principal x) db' \<noteq> None"
    using ok cert valid exists unfolding same by (auto simp: projection_ok_def)
  have "head_ok db' h" if "h \<in> set (pj_heads db')" for h
  proof -
    have found: "head_of (ph_principal h) db' = Some h"
      using that heads unfolding head_of_def row_of_def by (rule find_key [rotated])
    show ?thesis
    proof (cases "ph_principal h = pa_principal a")
      case False
      then have "head_of (ph_principal h) db = Some h" using found by (simp add: head)
      then have "head_ok db h" using ok head_of_Some unfolding projection_ok_def by blast
      then show ?thesis using old unfolding head_ok_def by (auto split: option.splits)
    next
      case True
      have healthy: "\<exists>b. attempt_of (pa_principal a) pid db' = Some b \<and> pa_status b = ''complete''"
        if "head_of (pa_principal a) db = Some g" "ph_healthy g = Some pid" for g pid
      proof -
        have "head_ok db g" "ph_principal g = pa_principal a"
          using that(1) ok head_of_Some unfolding projection_ok_def by blast+
        then show ?thesis using that(2) old by (auto simp: head_ok_def)
      qed
      from found True have h: "h = (case head_of (pa_principal a) db of
          None \<Rightarrow> \<lparr>ph_principal = pa_principal a, ph_latest = pa_projection_id a,
            ph_healthy = (if pa_status a = ''complete'' then Some (pa_projection_id a) else None),
            ph_updated_at = pa_completed_at a\<rparr>
        | Some g \<Rightarrow> g\<lparr>ph_latest := pa_projection_id a,
              ph_healthy := (if pa_status a = ''complete'' then Some (pa_projection_id a) else ph_healthy g),
              ph_updated_at := pa_completed_at a\<rparr>)" by (simp add: head)
      then have "ph_latest h = pa_projection_id a" "pa_status a = ''complete'' \<longrightarrow> ph_healthy h = Some (pa_projection_id a)"
        by (auto split: option.splits)
      moreover have "\<exists>b. attempt_of (pa_principal a) pid db' = Some b \<and> pa_status b = ''complete''"
        if "ph_healthy h = Some pid" for pid
        using that mine healthy h by (auto split: option.splits if_splits)
      ultimately show ?thesis using mine True by (auto simp: head_ok_def split: option.splits)
    qed
  qed
  moreover have "projection_le db db'"
    unfolding projection_le_def by (auto simp: lease_db_le_refl head)
  ultimately show ?thesis
    using ok keys heads attempts by (simp add: projection_ok_def)
qed

lemma commit_attempt_advances:
  assumes "projection_ok digest db" "commit_attempt sy now a db = (q, db')" "attempt_certified db a"
  shows "projection_ok digest db' \<and> projection_le db db'"
  using assms(2)
proof (cases rule: commit_attempt_cases)
  case kept
  then show ?thesis using assms(1) by (simp add: projection_le_refl)
next
  case added
  from add_attempt_advances [OF assms(1,3) added(4,5,6,2)] show ?thesis .
qed

text \<open>An attempt without gaps has everything a complete one needs.\<close>

lemma projection_gaps_Nil:
  "projection_gaps bound cov c = [] \<longleftrightarrow>
     co_positions c \<noteq> None \<and> co_balance c \<noteq> None \<and> co_settlements c \<noteq> None
     \<and> cr_status cov = Complete \<and> component_skew cov c \<le> bound"
proof -
  have "projection_gaps bound cov c = [] \<longleftrightarrow> set (projection_gaps bound cov c) = {}" by simp
  also have "\<dots> \<longleftrightarrow> co_positions c \<noteq> None \<and> co_balance c \<noteq> None \<and> co_settlements c \<noteq> None
     \<and> cr_status cov = Complete \<and> component_skew cov c \<le> bound"
    unfolding projection_gaps_def set_sort_texts set_remdups by auto
  finally show ?thesis .
qed

lemma result_from_checkpoint_Inr:
  "result_from_checkpoint c = Inr cov \<Longrightarrow> cp_status c = coverage_status_text (cr_status cov)
     \<and> cp_observed_at c = cr_observed_at cov \<and> cp_principal c = cr_principal cov \<and> cp_coverage_id c = cr_coverage_id cov"
  by (auto simp: result_from_checkpoint_def coverage_status_of_def split: option.splits if_splits)

lemma projected_attempt_certified:
  assumes "coverage_recorded cov db"
  shows "attempt_certified db (projected_attempt digest sy (cr_principal cov) pid started completed cov c)"
    (is "attempt_certified db ?a")
  unfolding attempt_certified_def
proof
  assume "pa_status ?a = ''complete''"
  then have "projection_gaps (sy_bound sy) cov c = []"
    by (simp add: projected_attempt_def Let_def split: if_splits)
  then obtain p b s where c: "co_positions c = Some p" "co_balance c = Some b" "co_settlements c = Some s"
    and cov: "cr_status cov = Complete" "component_skew cov c \<le> sy_bound sy"
    unfolding projection_gaps_Nil by blast
  obtain pv tp bv tb sv ts where v: "p = (pv, tp)" "b = (bv, tb)" "s = (sv, ts)"
    by (cases p; cases b; cases s) simp
  from assms obtain k where k: "row_of checkpoint_key (cr_principal cov, cr_coverage_id cov)
      (cv_checkpoints (pj_coverage db)) = Some k" "result_from_checkpoint k = Inr cov"
    by (auto simp: coverage_recorded_def split: option.splits)
  have times: "snd ` set (component_times cov c) = {cr_observed_at cov, tp, tb, ts}"
    by (auto simp: component_times_def c v)
  have at: "cp_observed_at k = cr_observed_at cov" and st: "cp_status k = ''complete''"
    using result_from_checkpoint_Inr [OF k(2)] cov(1) by simp_all
  have "times_close (sy_bound sy) (cp_observed_at k) tp tb ts"
    using cov(2) unfolding times_close_def component_skew_def times at Let_def .
  moreover have "pa_gaps ?a = []" "pa_coverage_at ?a = Some (cp_observed_at k)" "pa_skew ?a \<noteq> None"
    "pa_positions ?a \<noteq> None" "pa_balance ?a \<noteq> None" "pa_settlements ?a \<noteq> None" "pa_positions_at ?a = Some tp"
    "pa_balance_at ?a = Some tb" "pa_settlements_at ?a = Some ts" "pa_bound ?a = sy_bound sy"
    unfolding projected_attempt_def Let_def c v at
    by (simp_all add: \<open>projection_gaps (sy_bound sy) cov c = []\<close>)
  ultimately have "complete_evidence ?a k"
    unfolding complete_evidence_def using st by auto
  then show "\<exists>i c. pa_coverage_id ?a = Some i
      \<and> row_of checkpoint_key (pa_principal ?a, i) (cv_checkpoints (pj_coverage db)) = Some c \<and> complete_evidence ?a c"
    using k(1) by (intro exI [of _ "cr_coverage_id cov"] exI [of _ k]) (simp add: projected_attempt_def Let_def)
qed

lemma failed_attempt_certified: "attempt_certified db (failed_attempt sy fp pid started completed reason)"
  by (simp add: attempt_certified_def failed_attempt_def)

lemma persist_commits:
  "\<exists>q. commit_attempt sy now a db = (q, snd (persist_projection sy now a db))"
  "\<exists>q. commit_attempt sy now (failed_attempt sy fp pid started completed reason) db
     = (q, snd (persist_failed_attempt sy now fp pid started completed reason db))"
  by (auto simp: persist_projection_def persist_failed_attempt_def split: prod.splits sum.splits option.splits)

lemma projection_step_advances:
  assumes ok: "projection_ok digest db"
  shows "projection_ok digest (projection_step digest x db) \<and> projection_le db (projection_step digest x db)"
proof (cases x)
  case (LeaseStep y)
  have "lease_db_ok digest (pj_coverage db)" using ok by (simp add: projection_ok_def)
  from lease_step_advances [OF this, of y] coverage_only_advances [OF ok] show ?thesis
    by (simp add: LeaseStep projection_step_def)
next
  case (FailedStep sy now fp pid started completed reason)
  from persist_commits(2) [of sy now fp pid started completed reason db] show ?thesis
    using commit_attempt_advances [OF ok _ failed_attempt_certified] by (auto simp: FailedStep projection_step_def)
next
  case (ProjectionStep sy now pid started completed cov c)
  let ?a = "projected_attempt digest sy (cr_principal cov) pid started completed cov c"
  show ?thesis
  proof (cases "coverage_recorded cov db")
    case True
    from persist_commits(1) [of sy now ?a db]
      commit_attempt_advances [OF ok _ projected_attempt_certified [OF True]] show ?thesis
      by (auto simp: ProjectionStep projection_step_def True)
  next
    case False
    then show ?thesis by (simp add: ProjectionStep projection_step_def ok projection_le_refl)
  qed
qed

interpretation projections: monotone_machine "projection_ok digest" "projection_step digest" projection_le
  for digest
proof
  fix s t u :: projection_db and a
  show "projection_ok digest s \<Longrightarrow> projection_ok digest (projection_step digest a s)"
    "projection_ok digest s \<Longrightarrow> projection_le s (projection_step digest a s)"
    using projection_step_advances by blast+
  show "projection_le s s" by (rule projection_le_refl)
  show "projection_le s t \<Longrightarrow> projection_le t u \<Longrightarrow> projection_le s u" by (rule projection_le_trans)
qed

section \<open>A synchronization is a sequence of steps\<close>

text \<open>The sweep of a synchronization, as the step of the worker that makes it.\<close>

definition own_sweep ::
    "synchronizer \<Rightarrow> (nat \<Rightarrow> py_datetime) \<Rightarrow> projection_client \<Rightarrow> string \<Rightarrow> projection_db \<Rightarrow> ledger \<Rightarrow> projection_op list" where
  "own_sweep sy now client pid db0 lg =
     (case make_coverage_service (Some (sy_owner sy)) (Some (sy_fence sy)) of
        Inl _ \<Rightarrow> []
      | Inr svc \<Rightarrow> [LeaseStep (Sweep svc (\<lambda>i. now (2 + i)) (pc_coverage client) pid (Aware (utc_of (now 0)))
          (pj_coverage db0) lg)])"

lemma sync_sweep_step:
  assumes "sync_sweep digest sy (\<lambda>i. now (2 + i)) client pid (utc_of (now 0)) db0 lg db1 = Some (q, db')"
  shows "db' = fold (projection_step digest) (own_sweep sy now client pid db0 lg) db1"
  using assms
  by (auto simp: sync_sweep_def own_sweep_def projection_step_def lease_step_def split: sum.splits option.splits)

lemma sync_sweep_recorded:
  assumes "sync_sweep digest sy now client pid started db0 lg db1 = Some (Inr cov, db')"
    and "projection_ok digest db1" "projection_le db0 db1"
  shows "coverage_recorded cov db' \<and> cr_principal cov = cc_principal_fingerprint (pc_coverage client)
    \<and> cr_coverage_id cov = strip pid"
proof -
  from assms(1) obtain svc where
    "sweep digest svc now (pc_coverage client) pid (Aware started) (pj_coverage db0) lg (pj_coverage db1)
      = Some (Inr cov, pj_coverage db')"
    by (auto simp: sync_sweep_def split: sum.splits option.splits)
  moreover have "coverage_ok digest (pj_coverage db1)" using assms(2) by (simp add: projection_ok_def lease_db_ok_def)
  moreover have "rows_extend (pj_coverage db0) (pj_coverage db1)"
    using assms(3) by (simp add: projection_le_def lease_db_le_def)
  ultimately obtain c where c: "row_of checkpoint_key (cc_principal_fingerprint (pc_coverage client), strip pid)
      (cv_checkpoints (pj_coverage db')) = Some c" "result_from_checkpoint c = Inr cov"
    using sweep_result_recorded by blast
  from row_of_Some [OF c(1)] result_from_checkpoint_Inr [OF c(2)]
  have "cr_principal cov = cc_principal_fingerprint (pc_coverage client)" "cr_coverage_id cov = strip pid"
    by (simp_all add: checkpoint_key_def)
  with c show ?thesis by (simp add: coverage_recorded_def)
qed

lemma projection_le_recorded: "projection_le a b \<Longrightarrow> coverage_recorded cov a \<Longrightarrow> coverage_recorded cov b"
  using rows_extend_checkpoint
  by (fastforce simp: coverage_recorded_def projection_le_def lease_db_le_def split: option.splits)

text \<open>How a synchronization ends.\<close>

lemma synchronize_cases:
  assumes "synchronize digest exn_name sy now client fresh_uuid raw_id lg others db = Some (q, db')"
    and "fp = cc_principal_fingerprint (pc_coverage client)" and "pid = projection_id_of fresh_uuid raw_id"
  obtains (refused) e where "q = Inl e" "db' = db"
  | (fenced) e where "q = Inl e" "db' = others 0 db" "sync_guard sy (now 1) fp (others 0 db) = Inl e"
  | (known) a where "q = Inr (attempt_result a)" "db' = others 0 db" "attempt_of fp pid (others 0 db) = Some a"
      "sync_guard sy (now 1) fp (others 0 db) = Inr ()"
  | (failed) e db4 where
      "sync_sweep digest sy (\<lambda>i. now (2 + i)) client pid (utc_of (now 0)) (others 1 (others 0 db)) lg
        (others 2 (others 1 (others 0 db))) = Some (Inl e, db4)"
      "persist_failed_attempt sy (now 9) fp pid (utc_of (now 0)) (utc_of (now 8)) (''coverage_failed:'' @ exn_name e)
        (others 3 db4) = (q, db')"
  | (projected) cov db4 c where
      "sync_sweep digest sy (\<lambda>i. now (2 + i)) client pid (utc_of (now 0)) (others 1 (others 0 db)) lg
        (others 2 (others 1 (others 0 db))) = Some (Inr cov, db4)"
      "read_components client (sy_subaccount sy) (\<lambda>i. now (5 + i)) = Some c"
      "persist_projection sy (now 9) (projected_attempt digest sy fp pid (utc_of (now 0)) (utc_of (now 8)) cov c)
        (others 3 db4) = (q, db')"
proof (cases "sha256_text fp \<and> pid \<noteq> []")
  case False
  with assms have "db' = db" "\<exists>e. q = Inl e"
    by (auto simp: synchronize_def Let_def validate_principal_def split: if_splits)
  then show thesis using refused by blast
next
  case True
  let ?started = "utc_of (now 0)"
  let ?rest = "case sync_sweep digest sy (\<lambda>i. now (2 + i)) client pid ?started (others 1 (others 0 db)) lg
        (others 2 (others 1 (others 0 db))) of
        None \<Rightarrow> None
      | Some (Inl e, db4) \<Rightarrow>
          Some (persist_failed_attempt sy (now 9) fp pid ?started (utc_of (now 8))
            (''coverage_failed:'' @ exn_name e) (others 3 db4))
      | Some (Inr cov, db4) \<Rightarrow>
      (case read_components client (sy_subaccount sy) (\<lambda>i. now (5 + i)) of
        None \<Rightarrow> None
      | Some c \<Rightarrow>
          Some (persist_projection sy (now 9)
            (projected_attempt digest sy fp pid ?started (utc_of (now 8)) cov c) (others 3 db4)))"
  have run: "(case open_projection sy (now 1) fp pid (others 0 db) of
      Inl e \<Rightarrow> Some (Inl e, others 0 db) | Inr (Some a) \<Rightarrow> Some (Inr (attempt_result a), others 0 db)
    | Inr None \<Rightarrow> ?rest) = Some (q, db')"
    using assms(1) True unfolding synchronize_def Let_def assms(2,3) validate_principal_def by simp
  show thesis
  proof (cases "sync_guard sy (now 1) fp (others 0 db)")
    case (Inl e)
    with run have "q = Inl e" "db' = others 0 db" by (simp_all add: open_projection_def bindE_def)
    with Inl fenced show thesis by blast
  next
    case (Inr u)
    show thesis
    proof (cases "attempt_of fp pid (others 0 db)")
      case (Some a)
      with run Inr have "q = Inr (attempt_result a)" "db' = others 0 db" by (simp_all add: open_projection_def bindE_def)
      with Some Inr known show thesis by simp
    next
      case None
      with run Inr have rest: "?rest = Some (q, db')" by (simp add: open_projection_def bindE_def)
      then obtain r db4 where sw: "sync_sweep digest sy (\<lambda>i. now (2 + i)) client pid ?started
          (others 1 (others 0 db)) lg (others 2 (others 1 (others 0 db))) = Some (r, db4)"
        by (auto split: option.splits)
      show thesis
      proof (cases r)
        case (Inl e)
        from failed [OF sw [unfolded Inl]] rest show thesis unfolding sw Inl by simp
      next
        case (Inr cov)
        from rest obtain c where "read_components client (sy_subaccount sy) (\<lambda>i. now (5 + i)) = Some c"
            "persist_projection sy (now 9)
            (projected_attempt digest sy fp pid ?started (utc_of (now 8)) cov c) (others 3 db4) = (q, db')"
          unfolding sw Inr by (auto split: option.splits)
        with projected [OF sw [unfolded Inr]] show thesis by blast
      qed
    qed
  qed
qed

lemma persist_failed_step:
  "snd (persist_failed_attempt sy now fp pid started completed reason db)
     = fold (projection_step digest) [FailedStep sy now fp pid started completed reason] db"
  by (simp add: projection_step_def)

lemma persist_projection_step:
  "coverage_recorded cov db \<Longrightarrow>
     snd (persist_projection sy now (projected_attempt digest sy (cr_principal cov) pid started completed cov c) db)
     = fold (projection_step digest) [ProjectionStep sy now pid started completed cov c] db"
  by (simp add: projection_step_def)

text \<open>The last transaction of a synchronization, of its principal, its id, its times and its sweep.\<close>

definition own_commit ::
    "(exn \<Rightarrow> string) \<Rightarrow> synchronizer \<Rightarrow> (nat \<Rightarrow> py_datetime) \<Rightarrow> projection_client \<Rightarrow> string
       \<Rightarrow> coverage_result res \<Rightarrow> components \<Rightarrow> projection_op" where
  "own_commit exn_name sy now client pid swept c =
     (case swept of
        Inl e \<Rightarrow> FailedStep sy (now 9) (cc_principal_fingerprint (pc_coverage client)) pid (utc_of (now 0)) (utc_of (now 8))
          (''coverage_failed:'' @ exn_name e)
      | Inr cov \<Rightarrow> ProjectionStep sy (now 9) pid (utc_of (now 0)) (utc_of (now 8)) cov c)"

lemma synchronization_steps:
  assumes "projection_ok digest db"
    and "synchronize digest exn_name sy now client fresh_uuid raw_id lg (\<lambda>i. fold (projection_step digest) (ops i)) db
      = Some (q, db')"
    and fp: "fp = cc_principal_fingerprint (pc_coverage client)" and pid: "pid = projection_id_of fresh_uuid raw_id"
    and run: "run = fold (projection_step digest)"
  shows "(\<exists>e. q = Inl e \<and> db' = db)
    \<or> db' = run (ops 0) db \<and> (case q of Inl e \<Rightarrow> sync_guard sy (now 1) fp db' = Inl e
        | Inr r \<Rightarrow> \<exists>a. attempt_of fp pid db' = Some a \<and> r = attempt_result a)
    \<or> (\<exists>swept c left.
        sync_sweep digest sy (\<lambda>i. now (2 + i)) client pid (utc_of (now 0)) (run (ops 0 @ ops 1) db) lg
          (run (ops 0 @ ops 1 @ ops 2) db) = Some (swept, left)
        \<and> (\<forall>cov. swept = Inr cov \<longrightarrow> cr_principal cov = fp \<and> cr_coverage_id cov = strip pid
             \<and> read_components client (sy_subaccount sy) (\<lambda>i. now (5 + i)) = Some c)
        \<and> db' = run (ops 0 @ ops 1 @ ops 2 @ own_sweep sy now client pid (run (ops 0 @ ops 1) db) lg
            @ ops 3 @ [own_commit exn_name sy now client pid swept c]) db)"
proof -
  let ?f = "\<lambda>i. fold (projection_step digest) (ops i)"
  let ?db1 = "?f 1 (?f 0 db)"
  let ?db3 = "?f 2 ?db1"
  have ok1: "projection_ok digest ?db1" by (intro projections.run_inv assms(1))
  have le: "projection_le ?db1 ?db3" by (rule projections.run_le [OF ok1])
  have ok3: "projection_ok digest ?db3" by (rule projections.run_inv [OF ok1])
  from assms(2) fp pid show ?thesis
  proof (cases rule: synchronize_cases)
    case (failed e db4)
    note own = sync_sweep_step [OF failed(1)]
    from failed(2) persist_failed_step have "db' = fold (projection_step digest)
        [own_commit exn_name sy now client pid (Inl e) undefined] (?f 3 db4)"
      unfolding own_commit_def fp by (metis snd_conv sum.case(1))
    with failed(1) own show ?thesis
      by (intro disjI2 exI [of _ "Inl e"] exI [of _ undefined] exI [of _ db4]) (simp add: run)
  next
    case (projected cov db4 c)
    note own = sync_sweep_step [OF projected(1)]
    have "projection_ok digest db4" unfolding own by (rule projections.run_inv [OF ok3])
    then have "projection_le db4 (?f 3 db4)" by (rule projections.run_le)
    with sync_sweep_recorded [OF projected(1) ok3 le]
    have rec: "coverage_recorded cov (?f 3 db4)" and cov: "fp = cr_principal cov" "cr_coverage_id cov = strip pid"
      using projection_le_recorded unfolding fp by auto
    from projected(3) persist_projection_step [OF rec] have "db' = fold (projection_step digest)
        [own_commit exn_name sy now client pid (Inr cov) c] (?f 3 db4)"
      unfolding cov(1) own_commit_def by (metis snd_conv sum.case(2))
    with projected(1,2) own cov show ?thesis
      by (intro disjI2 exI [of _ "Inr cov"] exI [of _ c] exI [of _ db4]) (simp add: run)
  qed (simp_all add: run)
qed

lemma synchronization_keeps:
  assumes "projection_ok digest db"
    and "synchronize digest exn_name sy now client fresh_uuid raw_id lg (\<lambda>i. fold (projection_step digest) (ops i)) db
      = Some (q, db')"
  shows "projection_ok digest db'"
  using synchronization_steps [OF assms refl refl refl]
  by (elim disjE exE conjE) (simp_all only: projections.run_inv assms(1))

section \<open>Properties of projections\<close>

text \<open>
  C29: A synchronization is a sequence of steps. With what other workers do between its
  transactions given as steps, either it raises before it wrote anything; or it ends with what
  the others did first, because the lease check refuses it or its attempt is stored already; or
  it ends where the steps of the others end with two steps of its own in their places: its sweep,
  of the service of its lease, its client, its id and its start, and its commit. That is the
  failed attempt of this principal, id, start and completion when the sweep raised, with the name
  of that exception, and else the attempt projected from the coverage of this principal and id
  that the sweep returned and the components read. So what every step keeps, any number of
  workers that synchronize, sweep and exchange leases at the same time keep.
\<close>

theorem synchronization_is_steps:
  assumes "projection_ok digest db"
    and "synchronize digest exn_name sy now client fresh_uuid raw_id lg (\<lambda>i. fold (projection_step digest) (ops i)) db
      = Some (q, db')"
    and "fp = cc_principal_fingerprint (pc_coverage client)" and "pid = projection_id_of fresh_uuid raw_id"
    and "run = fold (projection_step digest)"
  shows "(\<exists>e. q = Inl e \<and> db' = db)
    \<or> db' = run (ops 0) db \<and> (case q of Inl e \<Rightarrow> sync_guard sy (now 1) fp db' = Inl e
        | Inr r \<Rightarrow> \<exists>a. attempt_of fp pid db' = Some a \<and> r = attempt_result a)
    \<or> (\<exists>swept c left.
        sync_sweep digest sy (\<lambda>i. now (2 + i)) client pid (utc_of (now 0)) (run (ops 0 @ ops 1) db) lg
          (run (ops 0 @ ops 1 @ ops 2) db) = Some (swept, left)
        \<and> (\<forall>cov. swept = Inr cov \<longrightarrow> cr_principal cov = fp \<and> cr_coverage_id cov = strip pid
             \<and> read_components client (sy_subaccount sy) (\<lambda>i. now (5 + i)) = Some c)
        \<and> db' = run (ops 0 @ ops 1 @ ops 2 @ own_sweep sy now client pid (run (ops 0 @ ops 1) db) lg
            @ ops 3 @ [own_commit exn_name sy now client pid swept c]) db)"
  by (rule synchronization_steps [OF assms])

text \<open>
  C30: Whatever leases, sweeps and projections workers commit, and in whatever order: attempts
  are valid, unique and only appended; a complete attempt has all components, read no further
  apart than its bound, and a complete checkpoint of the same principal; the head of a principal
  names its stored attempts, its healthy attempt is complete and is never withdrawn.
\<close>

theorem projections_stay_certified:
  assumes "projection_ok digest db"
  shows "projection_ok digest (fold (projection_step digest) ops db)
    \<and> projection_le db (fold (projection_step digest) ops db)"
  using projections.run_inv [OF assms] projections.run_le [OF assms] by blast

lemma commit_attempt_stored:
  assumes "commit_attempt sy now a db = (Inr q, db')"
  shows "\<exists>b. attempt_of (pa_principal a) (pa_projection_id a) db' = Some b
    \<and> b = (case q of None \<Rightarrow> a | Some x \<Rightarrow> x)"
proof (cases "open_projection sy now (pa_principal a) (pa_projection_id a) db")
  case (Inl e)
  with assms show ?thesis by (simp add: commit_attempt_def transaction_def)
next
  case (Inr x)
  then have known: "attempt_of (pa_principal a) (pa_projection_id a) db = x"
    by (auto simp: open_projection_def res_simps)
  show ?thesis
  proof (cases x)
    case None
    with assms Inr have "q = None" "\<exists>s. add_attempt a db = (Inr (), s) \<and> db' = advance_head a s"
      by (auto simp: commit_attempt_def res_simps)
    moreover have "row_of projection_key (projection_key a) (pj_attempts db) = None"
      using known None by (simp add: attempt_of_def projection_key_def)
    ultimately show ?thesis
      by (auto simp: add_attempt_def insert_row_Inr attempt_of_def row_of_snoc_new simp flip: projection_key_def)
  next
    case (Some y)
    with assms Inr have "q = Some y" "db' = db" by (auto simp: commit_attempt_def transaction_def)
    with known Some show ?thesis by simp
  qed
qed

lemma persist_projection_stored:
  assumes "persist_projection sy now a db = (Inr r, db')"
  shows "\<exists>b. attempt_of (pa_principal a) (pa_projection_id a) db' = Some b \<and> r = attempt_result b"
proof -
  from assms obtain q where "commit_attempt sy now a db = (Inr q, db')"
    "r = attempt_result (case q of None \<Rightarrow> a | Some x \<Rightarrow> x)"
    by (auto simp: persist_projection_def split: prod.splits sum.splits option.splits)
  with commit_attempt_stored show ?thesis by blast
qed

lemma persist_failed_stored:
  assumes "persist_failed_attempt sy now fp pid started completed reason db = (Inr r, db')"
  shows "\<exists>b. attempt_of fp pid db' = Some b \<and> pn_status r = ''incomplete''"
proof -
  from assms obtain q where "commit_attempt sy now (failed_attempt sy fp pid started completed reason) db = (Inr q, db')"
    "pn_status r = ''incomplete''"
    by (auto simp: persist_failed_attempt_def split: prod.splits sum.splits)
  with commit_attempt_stored [OF this(1)] show ?thesis by (auto simp: failed_attempt_def)
qed

lemma synchronize_stored:
  assumes "synchronize digest exn_name sy now client fresh_uuid raw_id lg others db = Some (Inr r, db')"
    and "fp = cc_principal_fingerprint (pc_coverage client)" and "pid = projection_id_of fresh_uuid raw_id"
  shows "\<exists>a. attempt_of fp pid db' = Some a \<and> (r = attempt_result a \<or> pn_status r = ''incomplete'')"
  using assms
proof (cases rule: synchronize_cases)
  case (failed e db4)
  from persist_failed_stored [OF failed(2)] show ?thesis by blast
next
  case (projected cov db4 c)
  from persist_projection_stored [OF projected(3)] show ?thesis
    by (auto simp: projected_attempt_def Let_def)
qed auto

lemma synchronize_known:
  assumes "sync_guard sy (now 1) fp (others 0 s) = Inr ()" "attempt_of fp pid (others 0 s) = Some a"
    and "fp = cc_principal_fingerprint (pc_coverage client)" and "pid = projection_id_of fresh_uuid raw_id"
    and "sha256_text fp" "pid \<noteq> []"
  shows "synchronize digest exn_name sy now client fresh_uuid raw_id lg others s
    = Some (Inr (attempt_result a), others 0 s)"
  using assms by (simp add: synchronize_def Let_def validate_principal_def open_projection_def bindE_def)

lemma synchronize_valid:
  assumes "synchronize digest exn_name sy now client fresh_uuid raw_id lg others db = Some (Inr r, db')"
  shows "sha256_text (cc_principal_fingerprint (pc_coverage client)) \<and> projection_id_of fresh_uuid raw_id \<noteq> []"
  using assms by (auto simp: synchronize_def Let_def validate_principal_def split: if_splits)

text \<open>
  C31: Once a synchronization has returned, an attempt is stored under its id, and it is what
  the synchronization returned unless that was \<open>incomplete\<close>. Every later one under the same
  id, by any worker that holds the lease and whatever happened in between, returns this
  attempt and commits nothing.
\<close>

theorem synchronization_is_recorded_once:
  assumes "projection_ok digest db"
    and "synchronize digest exn_name sy now client fresh_uuid raw_id lg (\<lambda>i. fold (projection_step digest) (ops i)) db
      = Some (Inr r, db1)"
    and "s = fold (projection_step digest) later db1"
    and "cc_principal_fingerprint (pc_coverage client') = cc_principal_fingerprint (pc_coverage client)"
    and "projection_id_of fresh' raw' = projection_id_of fresh_uuid raw_id"
    and "sync_guard sy' (now' 1) (cc_principal_fingerprint (pc_coverage client)) s = Inr ()"
  shows "\<exists>a. (r = attempt_result a \<or> pn_status r = ''incomplete'')
    \<and> synchronize digest exn_name sy' now' client' fresh' raw' lg' (\<lambda>_ x. x) s = Some (Inr (attempt_result a), s)"
proof -
  let ?fp = "cc_principal_fingerprint (pc_coverage client)" and ?pid = "projection_id_of fresh_uuid raw_id"
  obtain a where a: "attempt_of ?fp ?pid db1 = Some a" "r = attempt_result a \<or> pn_status r = ''incomplete''"
    using synchronize_stored [OF assms(2) refl refl] by blast
  have "projection_ok digest db1" by (rule synchronization_keeps [OF assms(1,2)])
  then have "projection_le db1 s" unfolding assms(3) by (rule projections.run_le)
  then have known: "attempt_of ?fp ?pid s = Some a" using a(1) by (rule attempt_of_extends)
  have "synchronize digest exn_name sy' now' client' fresh' raw' lg' (\<lambda>_ x. x) s = Some (Inr (attempt_result a), s)"
  proof (rule synchronize_known [where others = "\<lambda>_ x. x"])
    show "sha256_text ?fp" "?pid \<noteq> []" using synchronize_valid [OF assms(2)] by blast+
  qed (use assms(4-6) known in simp_all)
  with a(2) show ?thesis by blast
qed

text \<open>
  C28: A worker whose token has been superseded cannot write: after an acquisition that returned
  a larger token, and whatever happened since, its sweeps and its attempts leave the database as
  it is, and it neither renews nor releases the lease.
\<close>

theorem superseded_worker_cannot_write:
  assumes "projection_ok digest db" and "acquire fp owner now ttl force (pj_coverage db) = (Inr n, cov)"
    and "s = fold (projection_step digest) ops (db\<lparr>pj_coverage := cov\<rparr>)" and "sy_fence sy < n"
    and "cc_principal_fingerprint (pc_coverage client) = fp" and "pa_principal a = fp"
    and "sync_sweep digest sy clock client pid started db0 lg s = Some (q, s')"
  shows "s' = s \<and> snd (commit_attempt sy t a s) = s
    \<and> snd (renew fp (sy_owner sy) (sy_fence sy) t ttl' (pj_coverage s)) = pj_coverage s
    \<and> snd (release fp (sy_owner sy) (sy_fence sy) t (pj_coverage s)) = pj_coverage s"
proof -
  let ?db1 = "db\<lparr>pj_coverage := cov\<rparr>"
  obtain l where l: "lease_of fp cov = Some l" "ls_fence l = n" using acquire_lease [OF assms(2)] by blast
  have "?db1 = projection_step digest (LeaseStep (Acquire fp owner now ttl force)) db"
    using assms(2) by (simp add: projection_step_def lease_step_def)
  then have "projection_ok digest ?db1" using projections.step_inv [OF assms(1)] by metis
  then have "projection_le ?db1 s" unfolding assms(3) by (rule projections.run_le)
  then have "lease_db_le cov (pj_coverage s)" by (simp add: projection_le_def)
  from lease_below [OF this l(1)] obtain k where k: "lease_of fp (pj_coverage s) = Some k" "sy_fence sy < ls_fence k"
    using l(2) assms(4) by auto
  have "sync_guard sy t fp s \<noteq> Inr ()" using k by (simp add: sync_guard_def)
  then have "commit_attempt sy t a s = (q', s'') \<Longrightarrow> s'' = s" for q' s''
    using assms(6) by (elim commit_attempt_cases) auto
  then have commit: "snd (commit_attempt sy t a s) = s" by (metis prod.collapse)
  have "s' = s"
  proof (cases "make_coverage_service (Some (sy_owner sy)) (Some (sy_fence sy))")
    case (Inl e)
    with assms(7) show ?thesis by (simp add: sync_sweep_def)
  next
    case (Inr svc)
    then have svc: "cs_lease svc = Some (strip (sy_owner sy), sy_fence sy)"
      by (auto simp: make_coverage_service_def split: if_splits)
    from assms(7) Inr obtain c where
      c: "sweep digest svc clock (pc_coverage client) pid (Aware started) (pj_coverage db0) lg (pj_coverage s)
        = Some (q, c)" "s' = s\<lparr>pj_coverage := c\<rparr>"
      by (auto simp: sync_sweep_def split: option.splits)
    have "c = pj_coverage s"
      using sweep_change_guarded [OF c(1)] stale_guard [OF k(1) svc k(2)] assms(5) by blast
    with c(2) show ?thesis by simp
  qed
  with commit stale_lease_kept [OF k] show ?thesis by simp
qed

end
