(* ===== verification/ProjectionReader.thy ===== *)
theory ProjectionReader
  imports ProjectionSteps
begin

text \<open>
  \<open>KalshiPortfolioProjectionReader\<close> of \<open>services/kalshi_portfolio_projection.py\<close>: what one
  repeatable read of the tables shows of a principal, and its readiness. The tables of the
  worker (its control row and its runtime snapshots) are written elsewhere and are an argument,
  as are the database's collation of texts and the clock, which is read at three places.
\<close>

section \<open>What is read\<close>

record worker_control =
  wk_enabled :: bool
  wk_paused :: bool

record runtime_snapshot =
  rt_principal :: string
  rt_updated_at :: "int option"
  rt_running :: bool
  rt_enabled :: bool
  rt_last_error :: "string option"
  rt_stats :: pyval

record runtime_tables =
  wt_control :: "worker_control option"
  wt_snapshots :: "runtime_snapshot list"

record projection_reader =
  rd_stale_after :: int

definition make_reader :: "int \<Rightarrow> projection_reader res" where
  "make_reader stale_after =
     (if stale_after \<le> 0 then Inl (ValueError ''stale_after must be positive'') else Inr \<lparr>rd_stale_after = stale_after\<rparr>)"

text \<open>\<open>v == n\<close>, exact for floats below 2 ^ 53\<close>

definition py_equals_int :: "pyval \<Rightarrow> int \<Rightarrow> bool" where
  "py_equals_int v n =
     (case v of PInt i \<Rightarrow> i = n | PBool b \<Rightarrow> (if b then 1 else 0) = n
      | PFloat r \<Rightarrow> (case parse_decimal r of Some (Fin d) \<Rightarrow> dval d = of_int n | _ \<Rightarrow> False)
      | PDec (Fin d) \<Rightarrow> dval d = of_int n | _ \<Rightarrow> False)"

text \<open>\<open>sorted(set(heads) | set(checkpoints))\<close>\<close>

definition known_principals :: "projection_db \<Rightarrow> string list" where
  "known_principals db =
     sort_texts (remdups (map ph_principal (pj_heads db) @ map cp_principal (cv_checkpoints (pj_coverage db))))"

text \<open>The greatest row by time, then by the collation of the id (\<open>ORDER BY ... DESC LIMIT 1\<close>).\<close>

definition later_checkpoint :: "(string \<Rightarrow> string \<Rightarrow> bool) \<Rightarrow> checkpoint_row \<Rightarrow> checkpoint_row \<Rightarrow> bool" where
  "later_checkpoint collate b c =
     (cp_observed_at b < cp_observed_at c
      \<or> cp_observed_at b = cp_observed_at c \<and> collate (cp_coverage_id b) (cp_coverage_id c))"

definition newest_checkpoint ::
    "(string \<Rightarrow> string \<Rightarrow> bool) \<Rightarrow> string \<Rightarrow> projection_db \<Rightarrow> checkpoint_row option" where
  "newest_checkpoint collate fp db =
     fold (\<lambda>c best. case best of None \<Rightarrow> Some c | Some b \<Rightarrow> if later_checkpoint collate b c then Some c else best)
       (filter (\<lambda>c. cp_principal c = fp) (cv_checkpoints (pj_coverage db))) None"

definition coverage_projected :: "checkpoint_row \<Rightarrow> projection_db \<Rightarrow> bool" where
  "coverage_projected c db =
     list_ex (\<lambda>a. pa_principal a = cp_principal c \<and> pa_coverage_id a = Some (cp_coverage_id c)) (pj_attempts db)"

fun insort_by :: "(string \<Rightarrow> string \<Rightarrow> bool) \<Rightarrow> ('r \<Rightarrow> string) \<Rightarrow> 'r \<Rightarrow> 'r list \<Rightarrow> 'r list" where
  "insort_by collate key x [] = [x]"
| "insort_by collate key x (y # ys) = (if collate (key x) (key y) then x # y # ys else y # insort_by collate key x ys)"

definition order_by :: "(string \<Rightarrow> string \<Rightarrow> bool) \<Rightarrow> ('r \<Rightarrow> string) \<Rightarrow> 'r list \<Rightarrow> 'r list" where
  "order_by collate key xs = foldr (insort_by collate key) xs []"

text \<open>The joins of memberships with observations\<close>

definition coverage_orders ::
    "(string \<Rightarrow> string \<Rightarrow> bool) \<Rightarrow> string \<Rightarrow> string option \<Rightarrow> projection_db \<Rightarrow> order_observation list" where
  "coverage_orders collate fp coverage_id db =
     order_by collate oo_order_id
       (concat (map (\<lambda>m. filter (\<lambda>x. oo_principal x = om_principal m \<and> oo_order_id x = om_order_id m
            \<and> oo_hash x = om_hash m) (cv_orders (pj_coverage db)))
         (filter (\<lambda>m. om_principal m = fp \<and> Some (om_coverage_id m) = coverage_id) (cv_order_members (pj_coverage db)))))"

definition coverage_fills ::
    "(string \<Rightarrow> string \<Rightarrow> bool) \<Rightarrow> string \<Rightarrow> string option \<Rightarrow> projection_db \<Rightarrow> fill_observation list" where
  "coverage_fills collate fp coverage_id db =
     order_by collate fo_fill_id
       (concat (map (\<lambda>m. filter (\<lambda>x. fo_principal x = fm_principal m \<and> fo_fill_id x = fm_fill_id m)
            (cv_fills (pj_coverage db)))
         (filter (\<lambda>m. fm_principal m = fp \<and> Some (fm_coverage_id m) = coverage_id) (cv_fill_members (pj_coverage db)))))"

section \<open>The worker\<close>

record worker_view =
  wv_enabled :: bool
  wv_paused :: bool
  wv_snapshot :: "runtime_snapshot option"
  wv_stats :: pydict
  wv_principal_matches :: bool
  wv_lease_matches :: bool
  wv_fresh :: bool

definition worker_stats :: "runtime_snapshot option \<Rightarrow> pydict" where
  "worker_stats snapshot =
     (case snapshot of None \<Rightarrow> [] | Some s \<Rightarrow> (case rt_stats s of PDict d \<Rightarrow> d | _ \<Rightarrow> []))"

definition view_worker ::
    "projection_reader \<Rightarrow> (nat \<Rightarrow> py_datetime) \<Rightarrow> runtime_tables \<Rightarrow> string \<Rightarrow> projection_db \<Rightarrow> worker_view" where
  "view_worker rd now rt fp db =
     (let snapshot = row_of rt_principal fp (wt_snapshots rt); stats = worker_stats snapshot in
      \<lparr>wv_enabled = (case wt_control rt of None \<Rightarrow> False | Some k \<Rightarrow> wk_enabled k),
       wv_paused = (case wt_control rt of None \<Rightarrow> False | Some k \<Rightarrow> wk_paused k),
       wv_snapshot = snapshot, wv_stats = stats,
       wv_principal_matches = (py_get stats ''principal_fingerprint'' = PStr fp),
       wv_lease_matches = (case lease_of fp (pj_coverage db) of None \<Rightarrow> False
          | Some l \<Rightarrow> py_get stats ''lease_owner_id'' = PStr (ls_owner l)
              \<and> py_equals_int (py_get stats ''lease_fence_token'') (ls_fence l)
              \<and> utc_of (now 0) < ls_expires_at l),
       wv_fresh = (case snapshot of None \<Rightarrow> False
          | Some s \<Rightarrow> (case rt_updated_at s of None \<Rightarrow> False
              | Some t \<Rightarrow> 0 \<le> utc_of (now 1) - t \<and> utc_of (now 1) - t \<le> rd_stale_after rd))\<rparr>)"

definition worker_running :: "worker_view \<Rightarrow> bool" where
  "worker_running w = (case wv_snapshot w of None \<Rightarrow> False | Some s \<Rightarrow> rt_running s)"

definition worker_enabled :: "worker_view \<Rightarrow> bool" where
  "worker_enabled w = (case wv_snapshot w of None \<Rightarrow> False | Some s \<Rightarrow> rt_enabled s)"

definition worker_ready :: "worker_view \<Rightarrow> bool" where
  "worker_ready w = py_bool (py_get_or (PBool False) (wv_stats w) ''ready'')"

section \<open>The view\<close>

record sync_runtime =
  sr_running :: bool
  sr_ready :: bool
  sr_degraded :: bool
  sr_principal_matches :: bool
  sr_fresh :: bool
  sr_updated_at :: "string option"
  sr_error_type :: "string option"

definition sync_runtime_of :: "worker_view \<Rightarrow> sync_runtime" where
  "sync_runtime_of w =
     (let current = wv_principal_matches w \<and> wv_lease_matches w \<and> wv_fresh w in
      \<lparr>sr_running = (worker_running w \<and> current),
       sr_ready = (worker_ready w \<and> current \<and> wv_enabled w \<and> \<not> wv_paused w \<and> worker_running w \<and> worker_enabled w),
       sr_degraded = py_bool (py_get_or (PBool False) (wv_stats w) ''degraded''),
       sr_principal_matches = wv_principal_matches w, sr_fresh = wv_fresh w,
       sr_updated_at = map_option iso_text (Option.bind (wv_snapshot w) rt_updated_at),
       sr_error_type = Option.bind (wv_snapshot w) rt_last_error\<rparr>)"

text \<open>A subaccount stands for the four scopes; the text of the skew is that of a \<open>NUMERIC(38, 6)\<close>.\<close>

record unknown_activity =
  ua_order_ids :: "string list"
  ua_client_order_ids :: "string list"
  ua_fill_ids :: "string list"

record attempt_view =
  av_projection_id :: string
  av_status :: string
  av_reason :: string
  av_completed_at :: string

record projection_view =
  vw_principal :: "string option"
  vw_readiness :: string
  vw_reason :: string
  vw_scope :: "int option"
  vw_projection_id :: "string option"
  vw_last_healthy_as_of :: "string option"
  vw_balance :: "pyval option"
  vw_positions :: "pyval option"
  vw_settlements :: "pyval option"
  vw_orders :: "pydict list"
  vw_fills :: "pydict list"
  vw_unknown :: unknown_activity
  vw_components :: "(string \<times> string option) list"
  vw_skew :: "string option"
  vw_gaps :: "string list"
  vw_latest_attempt :: "attempt_view option"
  vw_sync_runtime :: sync_runtime
  vw_retry_allowed :: bool

definition unknown_of :: "checkpoint_row option \<Rightarrow> unknown_activity" where
  "unknown_of c =
     (case c of None \<Rightarrow> \<lparr>ua_order_ids = [], ua_client_order_ids = [], ua_fill_ids = []\<rparr>
      | Some k \<Rightarrow> \<lparr>ua_order_ids = cp_unknown_order_ids k, ua_client_order_ids = cp_unknown_client_order_ids k,
          ua_fill_ids = cp_unknown_fill_ids k\<rparr>)"

definition base_view :: "string option \<Rightarrow> string \<Rightarrow> string \<Rightarrow> checkpoint_row option \<Rightarrow> sync_runtime \<Rightarrow> projection_view" where
  "base_view fp readiness reason checkpoint runtime =
     \<lparr>vw_principal = fp, vw_readiness = readiness, vw_reason = reason, vw_scope = None, vw_projection_id = None,
      vw_last_healthy_as_of = None, vw_balance = None, vw_positions = None, vw_settlements = None, vw_orders = [],
      vw_fills = [], vw_unknown = unknown_of checkpoint, vw_components = [], vw_skew = None, vw_gaps = [],
      vw_latest_attempt = None, vw_sync_runtime = runtime, vw_retry_allowed = False\<rparr>"

definition no_runtime :: sync_runtime where
  "no_runtime = \<lparr>sr_running = False, sr_ready = False, sr_degraded = False, sr_principal_matches = False,
     sr_fresh = False, sr_updated_at = None, sr_error_type = None\<rparr>"

text \<open>No principal is known, or the principal has no attempt.\<close>

definition worker_readiness :: "bool \<Rightarrow> bool \<Rightarrow> string \<times> string" where
  "worker_readiness enabled paused =
     (if \<not> enabled then (''disabled'', ''projection_worker_disabled'')
      else if paused then (''disabled'', ''projection_worker_paused'')
      else (''never_synchronized'', ''no_projection_attempt''))"

definition unprojected_readiness :: "worker_view \<Rightarrow> bool \<Rightarrow> string \<times> string" where
  "unprojected_readiness w pending =
     (if pending then (''degraded'', ''coverage_pending_projection'')
      else worker_readiness (wv_enabled w) (wv_paused w))"

definition projected_readiness ::
    "worker_view \<Rightarrow> bool \<Rightarrow> projection_attempt \<Rightarrow> projection_attempt \<Rightarrow> bool \<Rightarrow> string \<times> string" where
  "projected_readiness w pending latest healthy stale =
     (if \<not> wv_enabled w then (''disabled'', ''projection_worker_disabled'')
      else if wv_paused w then (''disabled'', ''projection_worker_paused'')
      else if pending then (''degraded'', ''coverage_pending_projection'')
      else if pa_projection_id latest \<noteq> pa_projection_id healthy then (''degraded'', pa_reason latest)
      else if \<not> wv_principal_matches w then (''degraded'', ''private_sync_runtime_principal_mismatch'')
      else if \<not> wv_lease_matches w then (''degraded'', ''private_sync_runtime_lease_lost'')
      else if \<not> wv_fresh w then (''degraded'', ''private_sync_runtime_stale'')
      else if \<not> worker_enabled w then (''degraded'', ''private_sync_runtime_disabled'')
      else if \<not> worker_running w then (''degraded'', ''private_sync_runtime_not_running'')
      else if \<not> worker_ready w then (''degraded'', ''private_sync_runtime_not_ready'')
      else if stale then (''stale'', ''last_healthy_projection_stale'')
      else (''healthy'', ''authoritative_projection_current''))"

definition attempt_times :: "projection_attempt \<Rightarrow> (string \<times> int option) list" where
  "attempt_times a =
     [(''coverage'', pa_coverage_at a), (''positions'', pa_positions_at a), (''balance'', pa_balance_at a),
      (''settlements'', pa_settlements_at a)]"

definition as_of :: "projection_attempt \<Rightarrow> int res" where
  "as_of a =
     (case List.map_filter snd (attempt_times a) of
        [] \<Rightarrow> Inl (ValueError ''min() iterable argument is empty'')
      | t # ts \<Rightarrow> Inr (foldl min t ts))"

definition skew_text :: "int option \<Rightarrow> string res" where
  "skew_text skew =
     (case skew of None \<Rightarrow> Inl (AttributeError ''is_finite'')
      | Some n \<Rightarrow> Inr (int_str (n div 1000000) @ ''.'' @ pad 6 (nat (n mod 1000000))))"

definition healthy_of :: "projection_head \<Rightarrow> projection_db \<Rightarrow> projection_attempt option" where
  "healthy_of h db =
     (case ph_healthy h of None \<Rightarrow> None | Some pid \<Rightarrow> attempt_of (ph_principal h) pid db)"

definition read_head ::
    "projection_reader \<Rightarrow> (string \<Rightarrow> string \<Rightarrow> bool) \<Rightarrow> (nat \<Rightarrow> py_datetime) \<Rightarrow> worker_view \<Rightarrow> string
       \<Rightarrow> checkpoint_row option \<Rightarrow> bool \<Rightarrow> projection_head \<Rightarrow> projection_db \<Rightarrow> projection_view res" where
  "read_head rd collate now w fp safety projected h db =
     (case attempt_of fp (ph_latest h) db of
        None \<Rightarrow> Inl (RuntimeError ''projection head references a missing latest attempt'')
      | Some latest \<Rightarrow>
          let base = (base_view (Some fp) ''degraded'' (pa_reason latest) safety (sync_runtime_of w))
            \<lparr>vw_latest_attempt := Some \<lparr>av_projection_id = pa_projection_id latest, av_status = pa_status latest,
                av_reason = pa_reason latest, av_completed_at = iso_text (pa_completed_at latest)\<rparr>,
              vw_gaps := pa_gaps latest\<rparr>
          in case healthy_of h db of
            None \<Rightarrow> Inr base
          | Some a \<Rightarrow>
              if pa_status a \<noteq> ''complete''
              then Inl (RuntimeError ''healthy projection head references a non-complete attempt'')
              else bindE (as_of a) (\<lambda>t.
              bindE (skew_text (pa_skew a)) (\<lambda>skew.
              let checkpoint = (case safety of Some c \<Rightarrow> Some c
                  | None \<Rightarrow> Option.bind (pa_coverage_id a)
                      (\<lambda>i. row_of checkpoint_key (fp, i) (cv_checkpoints (pj_coverage db))));
                (readiness, reason) = projected_readiness w (checkpoint \<noteq> None \<and> \<not> projected) latest a
                  (rd_stale_after rd < utc_of (now 2) - t)
              in Inr (base\<lparr>vw_readiness := readiness, vw_reason := reason, vw_scope := Some (pa_subaccount a),
                vw_projection_id := Some (pa_projection_id a), vw_last_healthy_as_of := Some (iso_text t),
                vw_balance := pa_balance a, vw_positions := pa_positions a, vw_settlements := pa_settlements a,
                vw_orders := map oo_payload (coverage_orders collate fp (pa_coverage_id a) db),
                vw_fills := map fo_payload (coverage_fills collate fp (pa_coverage_id a) db),
                vw_unknown := unknown_of checkpoint,
                vw_components := map (\<lambda>(k, t). (k, map_option iso_text t)) (attempt_times a),
                vw_skew := Some skew\<rparr>))))"

definition read_principal ::
    "projection_reader \<Rightarrow> (string \<Rightarrow> string \<Rightarrow> bool) \<Rightarrow> (nat \<Rightarrow> py_datetime) \<Rightarrow> runtime_tables \<Rightarrow> string
       \<Rightarrow> projection_db \<Rightarrow> projection_view res" where
  "read_principal rd collate now rt fp db =
     (let w = view_worker rd now rt fp db; safety = newest_checkpoint collate fp db;
          projected = (case safety of None \<Rightarrow> False | Some c \<Rightarrow> coverage_projected c db)
      in case head_of fp db of
        None \<Rightarrow> (let (readiness, reason) = unprojected_readiness w (safety \<noteq> None \<and> \<not> projected)
          in Inr (base_view (Some fp) readiness reason safety (sync_runtime_of w)))
      | Some h \<Rightarrow> read_head rd collate now w fp safety projected h db)"

definition read_projection ::
    "projection_reader \<Rightarrow> (string \<Rightarrow> string \<Rightarrow> bool) \<Rightarrow> (nat \<Rightarrow> py_datetime) \<Rightarrow> runtime_tables \<Rightarrow> string option
       \<Rightarrow> projection_db \<Rightarrow> projection_view res" where
  "read_projection rd collate now rt requested db =
     (let principals = known_principals db in
      case requested of
        Some raw \<Rightarrow> bindE (validate_principal raw) (\<lambda>fp.
          if fp \<notin> set principals
          then Inl (KalshiPortfolioPrincipalNotFoundError ''Kalshi principal has no durable projection history'')
          else read_principal rd collate now rt fp db)
      | None \<Rightarrow>
          (case principals of
             [] \<Rightarrow>
               (let (readiness, reason) = worker_readiness
                    (case wt_control rt of None \<Rightarrow> False | Some k \<Rightarrow> wk_enabled k)
                    (case wt_control rt of None \<Rightarrow> False | Some k \<Rightarrow> wk_paused k)
                in Inr (base_view None readiness reason None no_runtime))
           | [fp] \<Rightarrow> read_principal rd collate now rt fp db
           | _ \<Rightarrow> Inl (KalshiPortfolioPrincipalAmbiguityError principals)))"

section \<open>What a reader can rely on\<close>

text \<open>The conditions of \<open>healthy\<close>\<close>

definition worker_current :: "worker_view \<Rightarrow> bool" where
  "worker_current w =
     (wv_enabled w \<and> \<not> wv_paused w \<and> wv_principal_matches w \<and> wv_lease_matches w \<and> wv_fresh w
      \<and> worker_enabled w \<and> worker_running w \<and> worker_ready w)"

lemma projected_readiness_healthy:
  "fst (projected_readiness w pending latest a stale) = ''healthy'' \<longleftrightarrow>
     worker_current w \<and> \<not> pending \<and> pa_projection_id latest = pa_projection_id a \<and> \<not> stale"
  unfolding projected_readiness_def worker_current_def by simp

lemma not_healthy:
  "fst (worker_readiness enabled paused) \<noteq> ''healthy''" "fst (unprojected_readiness w pending) \<noteq> ''healthy''"
  by (simp_all add: worker_readiness_def unprojected_readiness_def)

lemma foldl_min_le:
  fixes t :: int
  shows "foldl min t ts \<le> t" and "u \<in> set ts \<Longrightarrow> foldl min t ts \<le> u"
proof -
  have le: "foldl min t ts \<le> t" for t :: int
  proof (induction ts arbitrary: t)
    case (Cons u us)
    from Cons [of "min t u"] show ?case by simp
  qed simp
  then show "foldl min t ts \<le> t" .
  show "u \<in> set ts \<Longrightarrow> foldl min t ts \<le> u"
  proof (induction ts arbitrary: t)
    case (Cons x xs)
    have "foldl min (min t x) xs \<le> min t x" for xs
      by (induction xs rule: rev_induct) auto
    with Cons show ?case by auto
  qed simp
qed

lemma set_map_filter: "set (List.map_filter f xs) = {y. Some y \<in> f ` set xs}"
  by (induction xs) (auto simp: map_filter_simps split: option.splits)

lemma as_of_le:
  assumes "as_of a = Inr m" "Some t \<in> snd ` set (attempt_times a)"
  shows "m \<le> t"
proof -
  from assms(2) have "t \<in> set (List.map_filter snd (attempt_times a))" by (simp add: set_map_filter)
  with assms(1) show ?thesis by (auto simp: as_of_def foldl_min_le split: list.splits)
qed

text \<open>The head of a principal, and what it names.\<close>

lemma projection_ok_head:
  assumes "projection_ok digest db" "head_of fp db = Some h"
  obtains a where "ph_principal h = fp" "attempt_of fp (ph_latest h) db = Some a"
    "\<And>b. healthy_of h db = Some b \<Longrightarrow> pa_status b = ''complete'' \<and> attempt_certified db b
       \<and> pa_principal b = fp \<and> attempt_of fp (pa_projection_id b) db = Some b"
proof -
  have h: "h \<in> set (pj_heads db)" "ph_principal h = fp" using head_of_Some [OF assms(2)] by simp_all
  then have ok: "head_ok db h" using assms(1) by (simp add: projection_ok_def)
  then obtain a where "attempt_of fp (ph_latest h) db = Some a" by (auto simp: head_ok_def h)
  moreover have "pa_status b = ''complete'' \<and> attempt_certified db b
      \<and> pa_principal b = fp \<and> attempt_of fp (pa_projection_id b) db = Some b"
    if "healthy_of h db = Some b" for b
  proof -
    from that obtain pid where pid: "ph_healthy h = Some pid" "attempt_of fp pid db = Some b"
      by (auto simp: healthy_of_def h split: option.splits)
    with ok have "pa_status b = ''complete''" by (auto simp: head_ok_def h)
    with attempt_of_Some [OF pid(2)] pid(2) assms(1) show ?thesis by (auto simp: projection_ok_def)
  qed
  ultimately show thesis using that h(2) by blast
qed

lemma complete_evidence_times:
  assumes "complete_evidence a c"
  shows "is_ok (as_of a)" "is_ok (skew_text (pa_skew a))"
  using assms by (auto simp: complete_evidence_def as_of_def attempt_times_def map_filter_simps skew_text_def is_ok_def)

lemma read_principal_returns:
  assumes "projection_ok digest db"
  shows "is_ok (read_principal rd collate now rt fp db)"
proof (cases "head_of fp db")
  case None
  then show ?thesis by (simp add: read_principal_def Let_def is_ok_def split: prod.splits)
next
  case (Some h)
  from projection_ok_head [OF assms Some] obtain a where a: "attempt_of fp (ph_latest h) db = Some a"
    "\<And>b. healthy_of h db = Some b \<Longrightarrow> pa_status b = ''complete'' \<and> attempt_certified db b" by metis
  show ?thesis
  proof (cases "healthy_of h db")
    case None
    then show ?thesis using Some a(1) by (simp add: read_principal_def read_head_def Let_def is_ok_def)
  next
    case (Some b)
    from a(2) [OF Some] obtain c where b: "pa_status b = ''complete''" "complete_evidence b c"
      by (auto simp: attempt_certified_def)
    from complete_evidence_times [OF b(2)] obtain t k where "as_of b = Inr t" "skew_text (pa_skew b) = Inr k"
      by (auto simp: is_ok_iff)
    then show ?thesis using \<open>head_of fp db = Some h\<close> a(1) Some b(1)
      by (simp add: read_principal_def read_head_def Let_def is_ok_def bindE_def split: prod.splits)
  qed
qed

lemma read_principal_healthy:
  assumes "projection_ok digest db" "read_principal rd collate now rt fp db = Inr v" "vw_readiness v = ''healthy''"
  obtains h a t where "head_of fp db = Some h" "attempt_of fp (ph_latest h) db = Some a" "pa_status a = ''complete''"
    "attempt_certified db a" "as_of a = Inr t" "utc_of (now 2) - t \<le> rd_stale_after rd"
    "worker_current (view_worker rd now rt fp db)"
    "\<forall>c. newest_checkpoint collate fp db = Some c \<longrightarrow> coverage_projected c db"
    "vw_principal v = Some fp" "vw_projection_id v = Some (pa_projection_id a)" "vw_balance v = pa_balance a"
    "vw_positions v = pa_positions a" "vw_settlements v = pa_settlements a"
    "vw_orders v = map oo_payload (coverage_orders collate fp (pa_coverage_id a) db)"
    "vw_fills v = map fo_payload (coverage_fills collate fp (pa_coverage_id a) db)"
proof (cases "head_of fp db")
  case None
  with assms(2,3) not_healthy(2) show thesis
    by (auto simp: read_principal_def Let_def base_view_def split: prod.splits) (metis fst_conv)
next
  case (Some h)
  let ?w = "view_worker rd now rt fp db" and ?n = "newest_checkpoint collate fp db"
  let ?p = "case ?n of None \<Rightarrow> False | Some c \<Rightarrow> coverage_projected c db"
  from assms(2) Some have read: "read_head rd collate now ?w fp ?n ?p h db = Inr v"
    by (simp add: read_principal_def Let_def)
  from projection_ok_head [OF assms(1) Some] obtain l where l: "attempt_of fp (ph_latest h) db = Some l"
    "\<And>b. healthy_of h db = Some b \<Longrightarrow> pa_status b = ''complete'' \<and> attempt_certified db b
       \<and> pa_principal b = fp \<and> attempt_of fp (pa_projection_id b) db = Some b" by metis
  show thesis
  proof (cases "healthy_of h db")
    case None
    with read l(1) assms(3) show thesis by (auto simp: read_head_def Let_def base_view_def)
  next
    case (Some a)
    note a = l(2) [OF Some]
    from read Some l(1) a obtain t k where t: "as_of a = Inr t" "skew_text (pa_skew a) = Inr k"
      by (auto simp: read_head_def Let_def bindE_eq_Inr)
    let ?c = "case ?n of Some c \<Rightarrow> Some c
      | None \<Rightarrow> Option.bind (pa_coverage_id a) (\<lambda>i. row_of checkpoint_key (fp, i) (cv_checkpoints (pj_coverage db)))"
    let ?r = "projected_readiness ?w (?c \<noteq> None \<and> \<not> ?p) l a (rd_stale_after rd < utc_of (now 2) - t)"
    obtain readiness reason where r: "?r = (readiness, reason)" by fastforce
    from read Some l(1) a t r have v: "vw_readiness v = readiness" "vw_principal v = Some fp"
      "vw_projection_id v = Some (pa_projection_id a)" "vw_balance v = pa_balance a"
      "vw_positions v = pa_positions a" "vw_settlements v = pa_settlements a"
      "vw_orders v = map oo_payload (coverage_orders collate fp (pa_coverage_id a) db)"
      "vw_fills v = map fo_payload (coverage_fills collate fp (pa_coverage_id a) db)"
      by (auto simp: read_head_def Let_def bindE_def base_view_def)
    with assms(3) r have "fst ?r = ''healthy''" by simp
    then have h: "worker_current ?w" "\<not> (?c \<noteq> None \<and> \<not> ?p)" "pa_projection_id l = pa_projection_id a"
      "utc_of (now 2) - t \<le> rd_stale_after rd" unfolding projected_readiness_healthy by auto
    have "pa_projection_id l = ph_latest h" using attempt_of_Some [OF l(1)] by simp
    with h(3) a l(1) have "l = a" by simp
    from h(2) have "\<forall>c. ?n = Some c \<longrightarrow> coverage_projected c db" by (auto split: option.splits)
    with that \<open>head_of fp db = Some h\<close> l(1) a t(1) h v \<open>l = a\<close> show thesis by simp
  qed
qed

lemma worker_current_view:
  assumes "worker_current (view_worker rd now rt fp db)"
  obtains k l s where "wt_control rt = Some k" "wk_enabled k" "\<not> wk_paused k"
    "lease_of fp (pj_coverage db) = Some l" "utc_of (now 0) < ls_expires_at l"
    "row_of rt_principal fp (wt_snapshots rt) = Some s" "rt_running s" "rt_enabled s"
    "py_get (worker_stats (Some s)) ''lease_owner_id'' = PStr (ls_owner l)"
proof -
  have "\<exists>k l s. wt_control rt = Some k \<and> wk_enabled k \<and> \<not> wk_paused k
    \<and> lease_of fp (pj_coverage db) = Some l \<and> utc_of (now 0) < ls_expires_at l
    \<and> row_of rt_principal fp (wt_snapshots rt) = Some s \<and> rt_running s \<and> rt_enabled s
    \<and> py_get (worker_stats (Some s)) ''lease_owner_id'' = PStr (ls_owner l)"
    using assms
    by (cases "wt_control rt"; cases "lease_of fp (pj_coverage db)"; cases "row_of rt_principal fp (wt_snapshots rt)")
      (simp_all add: worker_current_def view_worker_def Let_def worker_enabled_def worker_running_def)
  then show thesis using that by blast
qed

section \<open>Properties of reads\<close>

text \<open>
  C32: A read that reports \<open>healthy\<close> shows the latest attempt of the one principal asked for, and
  that attempt is complete and certified by a complete checkpoint; none of its components is
  older than the bound, the newest checkpoint of the principal has been projected, the worker
  is switched on, not paused, running and enabled, and the lease it reports is the stored one
  and has not expired.
\<close>

theorem healthy_view_is_authoritative:
  assumes "projection_ok digest db" and "read_projection rd collate now rt requested db = Inr v"
    and "vw_readiness v = ''healthy''"
  shows "\<exists>fp h a i c k l s. vw_principal v = Some fp \<and> (requested = None \<or> requested = Some fp)
    \<and> head_of fp db = Some h \<and> attempt_of fp (ph_latest h) db = Some a \<and> pa_status a = ''complete''
    \<and> pa_coverage_id a = Some i \<and> row_of checkpoint_key (fp, i) (cv_checkpoints (pj_coverage db)) = Some c
    \<and> complete_evidence a c
    \<and> (\<forall>t. Some t \<in> snd ` set (attempt_times a) \<longrightarrow> utc_of (now 2) - t \<le> rd_stale_after rd)
    \<and> (\<forall>n. newest_checkpoint collate fp db = Some n \<longrightarrow> coverage_projected n db)
    \<and> vw_projection_id v = Some (ph_latest h) \<and> vw_balance v = pa_balance a \<and> vw_positions v = pa_positions a
    \<and> vw_settlements v = pa_settlements a
    \<and> vw_orders v = map oo_payload (coverage_orders collate fp (Some i) db)
    \<and> vw_fills v = map fo_payload (coverage_fills collate fp (Some i) db)
    \<and> wt_control rt = Some k \<and> wk_enabled k \<and> \<not> wk_paused k
    \<and> lease_of fp (pj_coverage db) = Some l \<and> utc_of (now 0) < ls_expires_at l
    \<and> row_of rt_principal fp (wt_snapshots rt) = Some s \<and> rt_running s \<and> rt_enabled s
    \<and> py_get (worker_stats (Some s)) ''lease_owner_id'' = PStr (ls_owner l)"
proof -
  have "\<exists>fp. read_principal rd collate now rt fp db = Inr v \<and> (requested = None \<or> requested = Some fp)"
  proof (cases requested)
    case None
    with assms(2,3) not_healthy(1) show ?thesis
      by (auto simp: read_projection_def Let_def base_view_def split: list.splits prod.splits) (metis fst_conv)+
  next
    case (Some raw)
    with assms(2) show ?thesis
      by (auto simp: read_projection_def Let_def validate_principal_def bindE_def split: if_splits)
  qed
  then obtain fp where fp: "read_principal rd collate now rt fp db = Inr v" "requested = None \<or> requested = Some fp"
    by blast
  from read_principal_healthy [OF assms(1) fp(1) assms(3)] obtain h a t where
    h: "head_of fp db = Some h" "attempt_of fp (ph_latest h) db = Some a" "pa_status a = ''complete''"
    "attempt_certified db a" "as_of a = Inr t" "utc_of (now 2) - t \<le> rd_stale_after rd"
    and current: "worker_current (view_worker rd now rt fp db)"
    and v: "\<forall>c. newest_checkpoint collate fp db = Some c \<longrightarrow> coverage_projected c db"
    "vw_principal v = Some fp" "vw_projection_id v = Some (pa_projection_id a)" "vw_balance v = pa_balance a"
    "vw_positions v = pa_positions a" "vw_settlements v = pa_settlements a"
    "vw_orders v = map oo_payload (coverage_orders collate fp (pa_coverage_id a) db)"
    "vw_fills v = map fo_payload (coverage_fills collate fp (pa_coverage_id a) db)" .
  have a: "pa_principal a = fp" "pa_projection_id a = ph_latest h" using attempt_of_Some [OF h(2)] by simp_all
  with h(3,4) obtain i c where c: "pa_coverage_id a = Some i"
    "row_of checkpoint_key (fp, i) (cv_checkpoints (pj_coverage db)) = Some c" "complete_evidence a c"
    by (auto simp: attempt_certified_def)
  have times: "\<forall>u. Some u \<in> snd ` set (attempt_times a) \<longrightarrow> utc_of (now 2) - u \<le> rd_stale_after rd"
    using as_of_le [OF h(5)] h(6) by force
  from worker_current_view [OF current] obtain k l s where "wt_control rt = Some k" "wk_enabled k" "\<not> wk_paused k"
    "lease_of fp (pj_coverage db) = Some l" "utc_of (now 0) < ls_expires_at l"
    "row_of rt_principal fp (wt_snapshots rt) = Some s" "rt_running s" "rt_enabled s"
    "py_get (worker_stats (Some s)) ''lease_owner_id'' = PStr (ls_owner l)" .
  with fp(2) h v c times a show ?thesis
    by (intro exI [of _ fp] exI [of _ h] exI [of _ a] exI [of _ i] exI [of _ c] exI [of _ k] exI [of _ l] exI [of _ s]) simp
qed

text \<open>
  C33: Of a database that only leases, sweeps and projections have written, a read fails only
  over its argument: several principals and none asked for, one that is not known, or a text
  that is no fingerprint. It meets no head without its attempts, no healthy attempt that is not
  complete, and no complete attempt without its times.
\<close>

theorem reads_fail_over_arguments_only:
  assumes "projection_ok digest db" and "read_projection rd collate now rt requested db = Inl e"
  shows "(requested = None \<and> e = KalshiPortfolioPrincipalAmbiguityError (known_principals db)
      \<and> 1 < length (known_principals db))
    \<or> (\<exists>fp. requested = Some fp \<and> (if sha256_text fp
        then fp \<notin> set (known_principals db)
          \<and> e = KalshiPortfolioPrincipalNotFoundError ''Kalshi principal has no durable projection history''
        else e = ValueError ''principal_fingerprint must be 64 lowercase hexadecimal characters''))"
proof -
  have reads: "read_principal rd collate now rt fp db \<noteq> Inl e" for fp
    using read_principal_returns [OF assms(1), of rd collate now rt fp] by (auto simp: is_ok_iff)
  show ?thesis
  proof (cases requested)
    case None
    with assms(2) reads show ?thesis
      by (auto simp: read_projection_def Let_def split: list.splits prod.splits)
  next
    case (Some raw)
    with assms(2) reads show ?thesis
      by (auto simp: read_projection_def Let_def validate_principal_def bindE_def split: if_splits)
  qed
qed

end
