(* ===== verification/CoverageSamples.thy ===== *)
theory CoverageSamples
  imports CoverageProperties
begin

text \<open>A portfolio of one order and one fill, swept into empty tables under a lease.\<close>

definition sample_digest :: "string \<Rightarrow> string" where
  "sample_digest s = replicate 64 CHR ''0''"

definition swept_order :: kalshi_order where
  "swept_order = \<lparr>ord_order_id = ''o-1'', ord_user_id = ''u-1'', ord_client_order_id = ''c-1'', ord_ticker = ''KXA-26'',
     ord_outcome_side = Yes, ord_book_side = Bid, ord_order_type = Limit, ord_status = Executed,
     ord_yes_price = Dec False 5 (-1), ord_no_price = Dec False 5 (-1), ord_fill_count = Dec False 2 0,
     ord_remaining_count = Dec False 0 0, ord_initial_count = Dec False 2 0, ord_taker_fees = Dec False 0 0,
     ord_maker_fees = Dec False 0 0, ord_taker_fill_cost = Dec False 1 0, ord_maker_fill_cost = Dec False 0 0,
     ord_created_time = Some ''1970-01-01T00:00:01Z'', ord_last_update_time = None, ord_expiration_time = None,
     ord_subaccount_number = None, ord_exchange_index = None\<rparr>"

definition swept_fill :: kalshi_fill where
  "swept_fill = \<lparr>fil_fill_id = ''f-1'', fil_trade_id = ''f-1'', fil_order_id = ''o-1'', fil_ticker = ''KXA-26'',
     fil_market_ticker = ''KXA-26'', fil_outcome_side = Yes, fil_book_side = Bid, fil_count = Dec False 2 0,
     fil_yes_price = Dec False 5 (-1), fil_no_price = Dec False 5 (-1), fil_is_taker = True,
     fil_fee_cost = Dec False 0 0, fil_created_time = None, fil_subaccount_number = None, fil_ts = Some 1\<rparr>"

definition sample_cutoff :: kalshi_cutoff where
  "sample_cutoff = \<lparr>cut_market_settled_at = 0, cut_trades_created_at = 0, cut_orders_updated_at = 0,
     cut_market_positions_last_updated_at = None\<rparr>"

definition sample_principal :: string where
  "sample_principal = replicate 64 CHR ''a''"

text \<open>The order is on the current and, again, on the historical page.\<close>

definition sample_coverage_client :: coverage_client where
  "sample_coverage_client = \<lparr>cc_principal_fingerprint = sample_principal, cc_cutoff = (\<lambda>_. Inr sample_cutoff),
     cc_orders = (\<lambda>_ _. Inr ([swept_order], [])), cc_fills = (\<lambda>_ _. Inr ([swept_fill], [])),
     cc_historical_orders = (\<lambda>_ _ _. Inr ([swept_order], [])), cc_historical_fills = (\<lambda>_ _ _. Inr ([], []))\<rparr>"

definition sample_lease_db :: coverage_db where
  "sample_lease_db = \<lparr>cv_leases = [\<lparr>ls_principal = sample_principal, ls_owner = ''w'', ls_fence = 3, ls_expires_at = 9\<rparr>],
     cv_identities = [], cv_orders = [], cv_fills = [], cv_checkpoints = [], cv_order_members = [], cv_fill_members = []\<rparr>"

definition fenced_service :: coverage_service where
  "fenced_service = \<lparr>cs_lease = Some (''w'', 3)\<rparr>"

lemma fenced_service_made: "make_coverage_service (Some '' w'') (Some 3) = Inr fenced_service"
  by code_simp

definition sample_reads :: portfolio_reads where
  "sample_reads = \<lparr>pr_cutoff_before = sample_cutoff, pr_orders = [[swept_order]], pr_fills = [[swept_fill]],
     pr_historical_orders = [[swept_order]], pr_historical_fills = [[]], pr_cutoff_after = sample_cutoff\<rparr>"

lemma single_page: "getter 0 None = Inr (items, []) \<Longrightarrow> traverse_pages source getter = Some (Inr [items])"
  by (simp add: traverse_pages_def read_pages_def walk_pages.simps [of _ _ _ 0])

lemma sample_read: "read_portfolio sample_coverage_client = Some (Inr sample_reads)"
  by (simp add: read_portfolio_def bindO_def sample_coverage_client_def single_page sample_reads_def)

lemma swept_order_time: "order_updated_at swept_order = Inr 1000000"
proof -
  have "rfc3339_match ''1970-01-01T00:00:01Z'' = Some \<lparr>f_year = 1970, f_month = 1, f_day = 1,
      f_hour = 0, f_minute = 0, f_second = 1, f_fraction = None, f_offset = 0\<rparr>" by code_simp
  then show ?thesis
    by (simp add: order_updated_at_def latest_time_def swept_order_def cov_datetime_def excess_fraction_def
        parse_utc_def catchE_def fromisoformat_utc_def valid_fields_def
        local_micros_def ymd_ordinal_def days_before_year_def days_before_month_def days_in_month_def
        fraction_micros_def epoch_ordinal_def min_micros_def max_micros_def micros_per_day_def)
qed

lemma swept_fill_time: "fill_created_at swept_fill = Inr 1000000"
  by (simp add: fill_created_at_def swept_fill_def fromtimestamp_utc_def)

definition sample_assessment :: assessment where
  "sample_assessment = \<lparr>as_orders = [(''o-1'', swept_order)], as_fills = [(''f-1'', swept_fill)],
     as_unique = \<lparr>pc_current_orders = 1, pc_current_fills = 1, pc_historical_orders = 1, pc_historical_fills = 0,
       pc_orders = 1, pc_fills = 1\<rparr>, as_reasons = []\<rparr>"

lemma sample_hashes: "order_hash sample_digest r = sample_digest x" "fill_hash sample_digest f = sample_digest x"
  "identity_hash sample_digest r = sample_digest x"
  by (simp_all add: order_hash_def fill_hash_def identity_hash_def evidence_hash_def sample_digest_def)

lemma swept_order_id: "ord_order_id swept_order = ''o-1''"
  by (simp add: swept_order_def)

lemma swept_group: "dedupe_group sample_digest k [swept_order] = Inr (swept_order, [])"
  "dedupe_group sample_digest k [swept_order, swept_order] = Inr (swept_order, [])"
proof -
  have "is_ok (order_updated_at swept_order)" "order_time swept_order = 1000000"
    by (simp_all add: swept_order_time is_ok_def order_time_def)
  then show "dedupe_group sample_digest k [swept_order] = Inr (swept_order, [])"
    "dedupe_group sample_digest k [swept_order, swept_order] = Inr (swept_order, [])"
    by (simp_all add: dedupe_group_Inr several_def latest_snapshots_def times_conflict_def)
qed

lemma swept_orders:
  "dedupe_orders sample_digest [swept_order] = Inr ([(''o-1'', swept_order)], [])"
  "dedupe_orders sample_digest [swept_order, swept_order] = Inr ([(''o-1'', swept_order)], [])"
  by (simp_all add: dedupe_orders_def group_by_def add_to_group_def swept_order_id swept_group)

lemma swept_fills:
  "dedupe_fills [swept_fill] = Inr [(''f-1'', swept_fill)]" "dedupe_fills [] = Inr []"
  "merge_fills [[(''f-1'', swept_fill)], []] = Inr [(''f-1'', swept_fill)]"
  by (simp_all add: dedupe_fills_def merge_fills_def add_fill_def swept_fill_def)

lemma sample_assess: "assess sample_digest sample_reads = Inr sample_assessment"
proof -
  have "count_mismatches [(''o-1'', swept_order)] [(''f-1'', swept_fill)] = []"
    by (simp add: count_mismatches_def fills_by_order_def group_by_def add_to_group_def total_count_def
        swept_order_def swept_fill_def dval_Dec)
  moreover have "fill_mismatches [(''o-1'', swept_order)] [(''f-1'', swept_fill)] = []"
    by (simp add: fill_mismatches_def fill_matches_order_def swept_order_def swept_fill_def)
  moreover have "orphan_fills [(''o-1'', swept_order)] [(''f-1'', swept_fill)] = []"
    by (simp add: orphan_fills_def swept_fill_def)
  moreover have "user_conflict sample_digest [(''o-1'', swept_order)] = []"
    by (simp add: user_conflict_def several_def)
  ultimately show ?thesis
    by (simp add: assess_def sample_reads_def swept_orders swept_fills sample_assessment_def cutoff_drift_def)
qed

text \<open>The sweep of this portfolio commits.\<close>

definition sample_coverage_result :: coverage_result where
  "sample_coverage_result = coverage_result_of sample_digest sample_principal ''cov'' 7 sample_reads sample_assessment empty_ledger"

lemma sample_texts: "sha256_text sample_principal" "sha256_text (sample_digest x)" "not_blank ''o-1''" "not_blank ''f-1''"
  "not_blank ''cov''" "not_blank ''bounded_evidence_complete''" "strip ''cov'' = ''cov''"
  unfolding sample_digest_def by code_simp+

lemma sample_fill_order: "fil_order_id swept_fill = ''o-1''"
  by (simp add: swept_fill_def)

lemma sample_result_fields:
  "cr_principal sample_coverage_result = sample_principal" "cr_observed_at sample_coverage_result = 7"
  "cr_coverage_id sample_coverage_result = ''cov''" "cr_status sample_coverage_result = Complete"
  by (simp_all add: sample_coverage_result_def sample_assessment_def)

lemma sample_checkpoint_valid:
  "checkpoint_valid (checkpoint_from_result sample_coverage_result sample_cutoff sample_cutoff)"
  "checkpoint_key (checkpoint_from_result sample_coverage_result sample_cutoff sample_cutoff) = (sample_principal, ''cov'')"
proof -
  have "cr_reason sample_coverage_result = ''bounded_evidence_complete''"
    "cr_page_counts sample_coverage_result = \<lparr>pc_current_orders = 1, pc_current_fills = 1,
       pc_historical_orders = 1, pc_historical_fills = 1\<rparr>"
    "sha256_text (cr_evidence_hash sample_coverage_result)"
    by (simp_all add: sample_coverage_result_def coverage_result_of_def Let_def sample_assessment_def reason_text_def
        sample_reads_def observed_evidence_hash_def evidence_hash_def sample_texts(2) split: prod.splits)
  then show "checkpoint_valid (checkpoint_from_result sample_coverage_result sample_cutoff sample_cutoff)"
    "checkpoint_key (checkpoint_from_result sample_coverage_result sample_cutoff sample_cutoff) = (sample_principal, ''cov'')"
    by (simp_all add: checkpoint_valid_def checkpoint_from_result_def Let_def sample_result_fields sample_texts
        checkpoint_key_def)
qed

lemma sample_commit:
  "\<exists>db. commit_coverage sample_digest fenced_service (Aware 5) sample_coverage_result sample_reads sample_assessment
     sample_lease_db = (Inr (), db)
     \<and> cv_checkpoints db = [checkpoint_from_result sample_coverage_result sample_cutoff sample_cutoff]"
proof -
  have guard: "lease_guard fenced_service (Aware 5) sample_principal sample_lease_db = Inr ()"
    by (simp add: lease_guard_def fenced_service_def aware_instant_def sample_lease_db_def)
  have sorted: "sort_items (as_orders sample_assessment) = [(''o-1'', swept_order)]"
    "sort_items (as_fills sample_assessment) = [(''f-1'', swept_fill)]"
    by (simp_all add: sort_items_def sample_assessment_def)
  define h where "h = sample_digest []"
  have hashes: "order_hash sample_digest r = h" "identity_hash sample_digest r = h" "fill_hash sample_digest f = h" for r f
    unfolding h_def using sample_hashes by blast+
  have h: "sha256_text h" unfolding h_def by (rule sample_texts)
  define d1 where "d1 = sample_lease_db\<lparr>cv_identities := [\<lparr>iy_principal = sample_principal, iy_order_id = ''o-1'', iy_hash = h,
      iy_json = order_identity sample_digest swept_order, iy_first_observed_at = 7\<rparr>],
    cv_orders := [\<lparr>oo_principal = sample_principal, oo_order_id = ''o-1'', oo_hash = h,
      oo_payload = cov_order_payload sample_digest swept_order, oo_updated_at = 1000000, oo_first_observed_at = 7\<rparr>]\<rparr>"
  have o1: "store_order sample_digest sample_principal 7 (''o-1'', swept_order) sample_lease_db = (Inr (), d1)"
    by (simp add: store_order_def Let_def bindA_def insert_ignore_def hashes h sample_texts row_of_def identity_key_def
        order_key_def liftE_def readA_def swept_order_time d1_def sample_lease_db_def)
  define d2 where "d2 = d1\<lparr>cv_fills := [\<lparr>fo_principal = sample_principal, fo_fill_id = ''f-1'', fo_hash = h,
      fo_order_id = ''o-1'', fo_payload = cov_fill_payload swept_fill, fo_created_at = 1000000, fo_first_observed_at = 7\<rparr>]\<rparr>"
  have f1: "store_fill sample_digest sample_principal 7 (''f-1'', swept_fill) d1 = (Inr (), d2)"
    by (simp add: store_fill_def Let_def bindA_def insert_ignore_def hashes h sample_texts row_of_def fill_key_def
        sample_fill_order liftE_def readA_def swept_fill_time d2_def d1_def sample_lease_db_def)
  define c where "c = checkpoint_from_result sample_coverage_result sample_cutoff sample_cutoff"
  define d3 where "d3 = d2\<lparr>cv_checkpoints := [c]\<rparr>"
  have c1: "add_checkpoint c d2 = (Inr (), d3)"
    using sample_checkpoint_valid(1) unfolding c_def [symmetric]
    by (simp add: add_checkpoint_def insert_row_def row_of_def d3_def d2_def d1_def sample_lease_db_def)
  have key: "checkpoint_key c = (sample_principal, ''cov'')" unfolding c_def by (rule sample_checkpoint_valid(2))
  define om where "om = \<lparr>om_principal = sample_principal, om_coverage_id = ''cov'', om_order_id = ''o-1'', om_hash = h\<rparr>"
  have om: "order_member_of sample_digest sample_principal ''cov'' (''o-1'', swept_order) = om"
    by (simp add: order_member_of_def hashes om_def)
  define d4 where "d4 = d3\<lparr>cv_order_members := [om]\<rparr>"
  have m1: "add_order_member om d3 = (Inr (), d4)"
    by (simp add: add_order_member_def insert_row_def om_def row_of_def key order_key_def order_member_key_def
        d4_def d3_def d2_def d1_def sample_lease_db_def)
  have m2: "\<exists>db. add_fill_member (fill_member_of sample_principal ''cov'' (''f-1'', swept_fill)) d4 = (Inr (), db)
      \<and> cv_checkpoints db = [checkpoint_from_result sample_coverage_result sample_cutoff sample_cutoff]"
    by (simp add: add_fill_member_def insert_row_def fill_member_of_def row_of_def key fill_key_def fill_member_key_def
        d4_def d3_def d2_def d1_def sample_lease_db_def c_def [symmetric])
  show ?thesis
    using m2 by (auto simp: commit_coverage_def Let_def sample_result_fields bindA_def liftE_def readA_def guard sorted o1 f1 om m1
        c1 [unfolded c_def] sample_reads_def)
qed

definition sample_db :: coverage_db where
  "sample_db = snd (commit_coverage sample_digest fenced_service (Aware 5) sample_coverage_result sample_reads
     sample_assessment sample_lease_db)"

lemma sample_committed:
  "commit_coverage sample_digest fenced_service (Aware 5) sample_coverage_result sample_reads sample_assessment
     sample_lease_db = (Inr (), sample_db)"
  and sample_checkpoints: "cv_checkpoints sample_db
     = [checkpoint_from_result sample_coverage_result sample_cutoff sample_cutoff]"
  using sample_commit by (auto simp: sample_db_def)

lemma sample_sweep:
  "sweep sample_digest fenced_service (\<lambda>_. Aware 5) sample_coverage_client '' cov'' (Aware 7) sample_lease_db
     empty_ledger sample_lease_db = Some (Inr sample_coverage_result, sample_db)"
proof -
  have "strip '' cov'' = ''cov''" by code_simp
  moreover have "load_checkpoint fenced_service (Aware 5) sample_principal ''cov'' sample_lease_db = Inr None"
    by (simp add: load_checkpoint_def lease_guard_def fenced_service_def aware_instant_def sample_lease_db_def row_of_def)
  moreover have "cc_principal_fingerprint sample_coverage_client = sample_principal"
    by (simp add: sample_coverage_client_def)
  ultimately show ?thesis
    by (simp add: sweep_def Let_def sample_texts aware_instant_def sample_read sample_assess transaction_def
        sample_coverage_result_def [symmetric] sample_committed finish_coverage_def)
qed

lemma sample_lease_db_ok: "coverage_ok sample_digest sample_lease_db"
  by (simp add: coverage_ok_def keys_unique_def hashes_match_def identities_hold_def members_exist_def sample_lease_db_def)

lemma sample_changes: "sample_db \<noteq> sample_lease_db"
proof -
  have "row_of checkpoint_key (sample_principal, ''cov'') (cv_checkpoints sample_db) \<noteq> None"
    using commit_coverage_checkpoint [OF sample_lease_db_ok sample_committed] by (simp add: sample_result_fields)
  moreover have "row_of checkpoint_key (sample_principal, ''cov'') (cv_checkpoints sample_lease_db) = None"
    by (simp add: sample_lease_db_def row_of_def)
  ultimately show ?thesis by auto
qed

lemma order_selection_ignores_arrangement_witness:
  "\<exists>m' cs'. dedupe_orders sample_digest [swept_order, swept_order] = Inr (m', cs') \<and> set cs' = {}"
  using order_selection_ignores_arrangement [of "[swept_order]" "[swept_order, swept_order]", OF _ swept_orders(1)] by auto

lemma complete_coverage_certifies_witness:
  "\<exists>r orders fills. portfolio_chained sample_coverage_client r \<and> evidence_complete sample_digest r orders fills"
proof -
  have "row_of checkpoint_key k (cv_checkpoints sample_lease_db) = None" for k
    by (simp add: sample_lease_db_def row_of_def)
  from complete_coverage_certifies [OF sample_sweep sample_result_fields(4) this] show ?thesis by blast
qed

lemma sweep_records_its_evidence_witness:
  "\<exists>r a. portfolio_chained sample_coverage_client r \<and> assess sample_digest r = Inr a"
  using sweep_records_its_evidence [OF sample_lease_db_ok sample_sweep sample_changes] by blast

lemma sweep_only_appends_witness: "coverage_ok sample_digest sample_db \<and> coverage_extends sample_lease_db sample_db"
  using sweep_only_appends [OF sample_lease_db_ok sample_sweep] by blast

lemma fenced_sweep_holds_its_lease_witness:
  "\<exists>l t. l \<in> set (cv_leases sample_lease_db) \<and> ls_owner l = ''w'' \<and> t < ls_expires_at l"
proof -
  have "cs_lease fenced_service = Some (''w'', 3)" by (simp add: fenced_service_def)
  from fenced_sweep_holds_its_lease [OF sample_sweep this sample_changes] show ?thesis by blast
qed

lemma sweep_is_idempotent_witness:
  "sweep sample_digest \<lparr>cs_lease = None\<rparr> (\<lambda>_. Aware 50) sample_coverage_client ''cov'' (Aware 70) sample_db
     empty_ledger sample_db = Some (Inr sample_coverage_result, sample_db)"
proof (rule sweep_is_idempotent [OF sample_lease_db_ok _ sample_sweep])
  show "rows_extend sample_lease_db sample_lease_db" "rows_extend sample_db sample_db" by simp_all
  show "strip ''cov'' = strip '' cov''" by code_simp
qed (simp_all add: lease_guard_def)

lemma sweep_returns_witness:
  "\<exists>q db'. sweep sample_digest fenced_service (\<lambda>_. Aware 5) sample_coverage_client ''cov'' (Aware 7) sample_lease_db
     empty_ledger sample_lease_db = Some (q, db')"
  by (rule sweep_returns [of "{}"]) (simp_all add: cursors_within_def sample_coverage_client_def)

end
