(* ===== verification/ProjectionSamples.thy ===== *)
theory ProjectionSamples
  imports ProjectionReader CoverageSamples
begin

text \<open>
  The sample portfolio synchronized under its lease, superseded leases, and a healthy read of
  what was stored: the inputs on which the properties of leases and projections are applied.
\<close>

section \<open>Leases\<close>

lemma sample_db_leases_ok: "lease_db_ok sample_digest sample_lease_db"
proof -
  have "leases_ok sample_lease_db" by (simp add: leases_ok_def sample_lease_db_def sample_texts(1))
  then show ?thesis by (simp add: lease_db_ok_def sample_lease_db_ok)
qed

definition taken_db :: coverage_db where
  "taken_db = put_lease \<lparr>ls_principal = sample_principal, ls_owner = ''x'', ls_fence = 4, ls_expires_at = 30\<rparr> sample_lease_db"

lemma sample_lease: "lease_of sample_principal sample_lease_db
    = Some \<lparr>ls_principal = sample_principal, ls_owner = ''w'', ls_fence = 3, ls_expires_at = 9\<rparr>"
  by (simp add: lease_of_def sample_lease_db_def)

lemma stripped_names: "strip ''x'' = ''x''" "strip ''w'' = ''w''"
  by code_simp+

lemma sample_time_plus: "time_plus 10 20 = Inr 30"
  by (simp add: time_plus_def min_micros_def max_micros_def micros_per_day_def)

lemma sample_takeover:
  "acquire sample_principal ''x'' (\<lambda>_. Aware 10) 20 False sample_lease_db = (Inr 4, taken_db)"
  by (simp add: acquire_def validate_principal_def sample_texts(1) stripped_names utc_of_def sample_time_plus
      transaction_def sample_lease taken_db_def)

lemma sample_forced:
  "\<exists>db. acquire sample_principal ''w'' (\<lambda>_. Aware 10) 20 True taken_db = (Inr 5, db)"
  by (simp add: acquire_def validate_principal_def sample_texts(1) stripped_names utc_of_def sample_time_plus
      transaction_def taken_db_def lease_of_put)

lemma fence_tokens_increase_witness: "(4::int) < 5"
proof -
  obtain db where "acquire sample_principal ''w'' (\<lambda>_. Aware 10) 20 True (fold (lease_step sample_digest) [] taken_db)
      = (Inr 5, db)" using sample_forced by auto
  from fence_tokens_increase [OF sample_db_leases_ok sample_takeover this] show ?thesis .
qed

section \<open>A synchronization\<close>

definition sample_synchronizer :: synchronizer where
  "sample_synchronizer = \<lparr>sy_subaccount = 0, sy_owner = ''w'', sy_fence = 3, sy_bound = 10\<rparr>"

definition sample_balance :: kalshi_balance_snapshot where
  "sample_balance = \<lparr>bal_balance_cents = 0, bal_balance_dollars = Dec False 0 0, bal_portfolio_value_cents = 0,
     bal_updated_ts = 1, bal_balance_breakdown = []\<rparr>"

definition sample_projection_client :: projection_client where
  "sample_projection_client = \<lparr>pc_coverage = sample_coverage_client,
     pc_positions = (\<lambda>_ _ _. Inr \<lparr>pp_market_positions = [], pp_event_positions = [], pp_cursor = []\<rparr>),
     pc_balance = Inr sample_balance,
     pc_settlements = (\<lambda>_ _ _. Inr \<lparr>sp_settlements = [], sp_cursor = []\<rparr>)\<rparr>"

definition sample_clock :: "nat \<Rightarrow> py_datetime" where
  "sample_clock i = (if i = 0 then Aware 7 else Aware 5)"

definition empty_projections :: "coverage_db \<Rightarrow> projection_db" where
  "empty_projections cov = \<lparr>pj_coverage = cov, pj_attempts = [], pj_heads = []\<rparr>"

lemma empty_projections_ok: "lease_db_ok digest cov \<Longrightarrow> projection_ok digest (empty_projections cov)"
  by (simp add: projection_ok_def empty_projections_def)

lemma sample_service: "make_coverage_service (Some ''w'') (Some 3) = Inr fenced_service"
  by (simp add: make_coverage_service_def stripped_names fenced_service_def)

lemma strip_cov: "strip '' cov'' = ''cov''" "strip ''cov'' = ''cov''"
  by code_simp+

lemma sample_sync_sweep:
  "sync_sweep sample_digest sample_synchronizer (\<lambda>i. sample_clock (2 + i)) sample_projection_client ''cov'' 7
     (empty_projections sample_lease_db) empty_ledger (empty_projections sample_lease_db)
   = Some (Inr sample_coverage_result, empty_projections sample_db)"
proof -
  have "sweep sample_digest fenced_service (\<lambda>_. Aware 5) sample_coverage_client ''cov'' (Aware 7) sample_lease_db
     empty_ledger sample_lease_db = Some (Inr sample_coverage_result, sample_db)"
    using sample_sweep unfolding sweep_def strip_cov .
  then show ?thesis
    by (simp add: sync_sweep_def sample_synchronizer_def sample_service sample_clock_def sample_projection_client_def
        empty_projections_def)
qed

definition sample_components :: components where
  "sample_components =
     \<lparr>co_positions = Some (PDict [(''subaccount_number'', PStr ''0''), (''market_positions'', PList []),
        (''event_positions'', PList [])], 5),
      co_balance = Some (projr (exact_json (balance_dict sample_balance)), 5),
      co_settlements = Some (PDict [(''subaccount_number'', PStr ''0''), (''settlements'', PList [])], 5)\<rparr>"

lemma sample_balance_read: "is_ok (exact_json (balance_dict sample_balance))"
  by code_simp

lemma one_page:
  "fetch 0 None = Inr ([page], []) \<Longrightarrow> take_item acc page = Inr acc' \<Longrightarrow> read_pages fetch take_item repeated acc = Some (Inr acc')"
  by (simp add: read_pages_def walk_pages.simps [of _ _ _ 0] bindE_def)

lemma sample_read_components:
  "read_components sample_projection_client 0 (\<lambda>i. sample_clock (5 + i)) = Some sample_components"
proof -
  have zero: "int_str 0 = ''0''" by code_simp
  have "read_positions sample_projection_client 0 = Some (Inr (PDict [(''subaccount_number'', PStr ''0''),
      (''market_positions'', PList []), (''event_positions'', PList [])]))"
    by (simp add: read_positions_def bindO_def zero take_positions_def sample_projection_client_def bindE_def
        one_page [of _ "\<lparr>pp_market_positions = [], pp_event_positions = [], pp_cursor = []\<rparr>"])
  moreover have "read_settlements sample_projection_client 0
      = Some (Inr (PDict [(''subaccount_number'', PStr ''0''), (''settlements'', PList [])]))"
    by (simp add: read_settlements_def bindO_def zero take_settlements_def sample_projection_client_def bindE_def
        one_page [of _ "\<lparr>sp_settlements = [], sp_cursor = []\<rparr>"])
  moreover obtain b where "exact_json (balance_dict sample_balance) = Inr b"
    using sample_balance_read by (auto simp: is_ok_iff)
  ultimately show ?thesis
    by (simp add: read_components_def observed_def read_balance_def sample_projection_client_def bindE_def
        sample_clock_def utc_of_def sample_components_def)
qed

definition sample_attempt :: projection_attempt where
  "sample_attempt = projected_attempt sample_digest sample_synchronizer sample_principal ''cov'' 7 5
     sample_coverage_result sample_components"

definition sample_head :: projection_head where
  "sample_head = \<lparr>ph_principal = sample_principal, ph_latest = ''cov'', ph_healthy = Some ''cov'', ph_updated_at = 5\<rparr>"

definition projected_db :: projection_db where
  "projected_db = \<lparr>pj_coverage = sample_db, pj_attempts = [sample_attempt], pj_heads = [sample_head]\<rparr>"

lemma sample_no_gaps: "projection_gaps 10 sample_coverage_result sample_components = []"
proof -
  have "snd ` set (component_times sample_coverage_result sample_components) = {7, 5}"
    by (auto simp: component_times_def sample_components_def sample_result_fields)
  then have "component_skew sample_coverage_result sample_components = 2" by (simp add: component_skew_def)
  then show ?thesis by (simp add: projection_gaps_Nil sample_components_def sample_result_fields)
qed

lemma sample_attempt_fields:
  "pa_principal sample_attempt = sample_principal" "pa_projection_id sample_attempt = ''cov''"
  "pa_coverage_id sample_attempt = Some ''cov''" "pa_status sample_attempt = ''complete''"
  "pa_subaccount sample_attempt = 0" "\<not> pa_retry_allowed sample_attempt" "pa_bound sample_attempt = 10"
  "pa_completed_at sample_attempt = 5"
  unfolding sample_attempt_def projected_attempt_def
  by (simp_all add: sample_synchronizer_def sample_no_gaps sample_result_fields)

lemma sample_db_lease: "lease_of sample_principal sample_db
    = Some \<lparr>ls_principal = sample_principal, ls_owner = ''w'', ls_fence = 3, ls_expires_at = 9\<rparr>"
proof -
  have "cv_leases sample_db = cv_leases sample_lease_db"
    using sweep_appends [OF sample_lease_db_ok sample_sweep] by (simp add: coverage_extends_def)
  with sample_lease show ?thesis by (simp add: lease_of_def)
qed

lemma sample_checkpoint: "row_of checkpoint_key (sample_principal, ''cov'') (cv_checkpoints sample_db) \<noteq> None"
  using commit_coverage_checkpoint [OF sample_lease_db_ok sample_committed] by (simp add: sample_result_fields)

lemma sample_persisted:
  "persist_projection sample_synchronizer (Aware 5) sample_attempt (empty_projections sample_db)
     = (Inr (attempt_result sample_attempt), projected_db)"
proof -
  have "attempt_valid sample_attempt"
    by (simp add: attempt_valid_def sample_attempt_fields sample_texts(1))
  moreover have "coverage_exists sample_attempt (empty_projections sample_db)"
    using sample_checkpoint by (simp add: coverage_exists_def sample_attempt_fields empty_projections_def)
  ultimately have "commit_attempt sample_synchronizer (Aware 5) sample_attempt (empty_projections sample_db)
      = (Inr None, projected_db)"
    by (simp add: commit_attempt_def transaction_def open_projection_def sync_guard_def empty_projections_def
        sample_db_lease sample_attempt_fields utc_of_def sample_synchronizer_def bindE_def attempt_of_def row_of_def
        bindA_def add_attempt_def insert_row_def advance_head_def head_of_def projected_db_def sample_head_def)
  then show ?thesis by (simp add: persist_projection_def)
qed

lemma sample_synchronized:
  "synchronize sample_digest (\<lambda>_. ''E'') sample_synchronizer sample_clock sample_projection_client ''u'' (Some '' cov'')
     empty_ledger (\<lambda>i. fold (projection_step sample_digest) []) (empty_projections sample_lease_db)
   = Some (Inr (attempt_result sample_attempt), projected_db)"
proof -
  have fp: "cc_principal_fingerprint (pc_coverage sample_projection_client) = sample_principal"
    by (simp add: sample_projection_client_def sample_coverage_client_def)
  have opened: "open_projection sample_synchronizer (sample_clock 1) sample_principal ''cov'' (empty_projections sample_lease_db)
      = Inr None"
    by (simp add: open_projection_def sync_guard_def empty_projections_def sample_lease sample_synchronizer_def
        sample_clock_def utc_of_def bindE_def attempt_of_def row_of_def)
  have clock: "utc_of (sample_clock 0) = 7" "utc_of (sample_clock 8) = 5" "sample_clock 9 = Aware 5"
    by (simp_all add: sample_clock_def utc_of_def)
  have sub: "sy_subaccount sample_synchronizer = 0" by (simp add: sample_synchronizer_def)
  show ?thesis
    unfolding synchronize_def Let_def fp projection_id_of_def
    by (simp add: validate_principal_def sample_texts(1) strip_cov clock opened sample_sync_sweep sub sample_read_components
        sample_attempt_def [symmetric] sample_persisted del: One_nat_def add_2_eq_Suc add_2_eq_Suc')
qed

lemmas sample_start_ok = empty_projections_ok [OF sample_db_leases_ok]

lemma projected_db_ok: "projection_ok sample_digest projected_db"
  by (rule synchronization_keeps [OF sample_start_ok, where ops = "\<lambda>_. []", OF sample_synchronized])

lemma synchronization_is_steps_witness:
  "\<exists>swept c. cr_principal swept = sample_principal \<and> projected_db = fold (projection_step sample_digest)
     (own_sweep sample_synchronizer sample_clock sample_projection_client ''cov'' (empty_projections sample_lease_db) empty_ledger
       @ [own_commit (\<lambda>_. ''E'') sample_synchronizer sample_clock sample_projection_client ''cov'' (Inr swept) c])
     (empty_projections sample_lease_db)"
proof -
  have id: "projection_id_of ''u'' (Some '' cov'') = ''cov''" by (simp add: projection_id_of_def strip_cov)
  have fp: "cc_principal_fingerprint (pc_coverage sample_projection_client) = sample_principal"
    by (simp add: sample_projection_client_def sample_coverage_client_def)
  have moved: "projected_db \<noteq> empty_projections sample_lease_db" by (simp add: projected_db_def empty_projections_def)
  obtain swept where swept: "\<And>left q. sync_sweep sample_digest sample_synchronizer (\<lambda>i. sample_clock (2 + i))
      sample_projection_client ''cov'' (utc_of (sample_clock 0)) (empty_projections sample_lease_db) empty_ledger
      (empty_projections sample_lease_db) = Some (q, left) \<Longrightarrow> q = Inr swept"
    using sample_sync_sweep by (auto simp: sample_clock_def utc_of_def)
  from synchronization_is_steps [OF sample_start_ok, where ops = "\<lambda>_. []", OF sample_synchronized refl refl refl,
      unfolded id fp append_Nil fold_simps] moved
  obtain c q left where "sync_sweep sample_digest sample_synchronizer (\<lambda>i. sample_clock (2 + i))
      sample_projection_client ''cov'' (utc_of (sample_clock 0)) (empty_projections sample_lease_db) empty_ledger
      (empty_projections sample_lease_db) = Some (q, left)"
    and own: "\<forall>cov. q = Inr cov \<longrightarrow> cr_principal cov = sample_principal"
    "projected_db = fold (projection_step sample_digest)
     (own_sweep sample_synchronizer sample_clock sample_projection_client ''cov'' (empty_projections sample_lease_db) empty_ledger
       @ [own_commit (\<lambda>_. ''E'') sample_synchronizer sample_clock sample_projection_client ''cov'' q c])
     (empty_projections sample_lease_db)"
    by auto
  with swept have "q = Inr swept" by blast
  with own show ?thesis by blast
qed

lemma projections_stay_certified_witness:
  "projection_ok sample_digest (fold (projection_step sample_digest)
     [LeaseStep (Acquire sample_principal ''x'' (\<lambda>_. Aware 10) 20 False)] projected_db)"
  using projections_stay_certified [OF projected_db_ok] by blast

lemma sample_guard: "sync_guard sample_synchronizer (sample_clock 1) sample_principal projected_db = Inr ()"
  by (simp add: sync_guard_def projected_db_def sample_db_lease sample_synchronizer_def sample_clock_def utc_of_def)

lemma synchronization_is_recorded_once_witness:
  "\<exists>a. synchronize sample_digest (\<lambda>_. ''E'') sample_synchronizer sample_clock sample_projection_client ''v'' (Some ''cov'')
     empty_ledger (\<lambda>_ x. x) projected_db = Some (Inr (attempt_result a), projected_db)"
proof -
  have "projection_id_of ''v'' (Some ''cov'') = projection_id_of ''u'' (Some '' cov'')"
    by (simp add: projection_id_of_def strip_cov)
  moreover have "sync_guard sample_synchronizer (sample_clock 1)
      (cc_principal_fingerprint (pc_coverage sample_projection_client)) projected_db = Inr ()"
    using sample_guard by (simp add: sample_projection_client_def sample_coverage_client_def)
  moreover have "projected_db = fold (projection_step sample_digest) [] projected_db" by simp
  ultimately show ?thesis
    using synchronization_is_recorded_once [OF sample_start_ok, where ops = "\<lambda>_. []", OF sample_synchronized, of projected_db "[]"
      sample_projection_client "''v''" "Some ''cov''" sample_synchronizer sample_clock] by blast
qed

section \<open>A superseded worker\<close>

lemma superseded_worker_cannot_write_witness:
  "snd (commit_attempt sample_synchronizer (Aware 11) sample_attempt (empty_projections taken_db)) = empty_projections taken_db"
proof -
  let ?s = "empty_projections taken_db"
  have guard: "lease_guard fenced_service (Aware 5) sample_principal taken_db \<noteq> Inr ()"
  proof (rule stale_guard)
    show "lease_of sample_principal taken_db
        = Some \<lparr>ls_principal = sample_principal, ls_owner = ''x'', ls_fence = 4, ls_expires_at = 30\<rparr>"
      by (simp add: taken_db_def lease_of_put)
    show "cs_lease fenced_service = Some (''w'', 3)" by (simp add: fenced_service_def)
  qed simp
  then obtain e where "load_checkpoint fenced_service (Aware 5) sample_principal ''cov'' taken_db = Inl e"
    by (cases "lease_guard fenced_service (Aware 5) sample_principal taken_db") (simp_all add: load_checkpoint_def bindE_def)
  then have sw: "sync_sweep sample_digest sample_synchronizer (\<lambda>_. Aware 5) sample_projection_client ''cov'' 7 ?s empty_ledger ?s
      = Some (Inl e, ?s)"
    by (simp add: sync_sweep_def sample_synchronizer_def sample_service empty_projections_def sample_projection_client_def
        sweep_def Let_def strip_cov sample_texts(1) aware_instant_def sample_coverage_client_def)
  have taken: "acquire sample_principal ''x'' (\<lambda>_. Aware 10) 20 False (pj_coverage (empty_projections sample_lease_db))
      = (Inr 4, taken_db)" by (simp add: empty_projections_def sample_takeover)
  have s: "?s = fold (projection_step sample_digest) [] ((empty_projections sample_lease_db)\<lparr>pj_coverage := taken_db\<rparr>)"
    by (simp add: empty_projections_def)
  have fields: "sy_fence sample_synchronizer < 4" "pa_principal sample_attempt = sample_principal"
    "cc_principal_fingerprint (pc_coverage sample_projection_client) = sample_principal"
    by (simp_all add: sample_synchronizer_def sample_attempt_fields sample_projection_client_def sample_coverage_client_def)
  show ?thesis
    using superseded_worker_cannot_write [OF sample_start_ok taken s fields(1) fields(3,2) sw] by blast
qed

section \<open>A healthy read\<close>

definition sample_stats :: pydict where
  "sample_stats = [(''principal_fingerprint'', PStr sample_principal), (''lease_owner_id'', PStr ''w''),
     (''lease_fence_token'', PInt 3), (''ready'', PBool True)]"

definition sample_runtime :: runtime_tables where
  "sample_runtime = \<lparr>wt_control = Some \<lparr>wk_enabled = True, wk_paused = False\<rparr>,
     wt_snapshots = [\<lparr>rt_principal = sample_principal, rt_updated_at = Some 5, rt_running = True, rt_enabled = True,
       rt_last_error = None, rt_stats = PDict sample_stats\<rparr>]\<rparr>"

lemma sample_view: "worker_current (view_worker \<lparr>rd_stale_after = 60\<rparr> (\<lambda>_. Aware 8) sample_runtime sample_principal projected_db)"
  by (simp add: worker_current_def view_worker_def Let_def sample_runtime_def row_of_def worker_stats_def sample_stats_def
      py_get_or_def projected_db_def sample_db_lease py_equals_int_def utc_of_def worker_enabled_def worker_running_def
      worker_ready_def py_bool_def)

lemma sample_attempt_times: "as_of sample_attempt = Inr 5"
  by (simp add: as_of_def attempt_times_def sample_attempt_def projected_attempt_def Let_def sample_components_def
      sample_result_fields map_filter_simps)

lemma sample_skew: "is_ok (skew_text (pa_skew sample_attempt))"
  by (simp add: skew_text_def sample_attempt_def projected_attempt_def Let_def is_ok_def)

lemma sample_newest:
  "\<exists>c. newest_checkpoint text_le sample_principal projected_db = Some c \<and> coverage_projected c projected_db"
proof -
  let ?c = "checkpoint_from_result sample_coverage_result sample_cutoff sample_cutoff"
  have fields: "cp_principal ?c = sample_principal" "cp_coverage_id ?c = ''cov''"
    by (simp_all add: checkpoint_from_result_def Let_def sample_result_fields)
  then have "newest_checkpoint text_le sample_principal projected_db = Some ?c"
    by (simp add: newest_checkpoint_def projected_db_def sample_checkpoints)
  moreover have "coverage_projected ?c projected_db"
    by (simp add: coverage_projected_def projected_db_def sample_attempt_fields fields)
  ultimately show ?thesis by blast
qed

lemma sample_healthy:
  "\<exists>v. read_projection \<lparr>rd_stale_after = 60\<rparr> text_le (\<lambda>_. Aware 8) sample_runtime (Some sample_principal) projected_db = Inr v
     \<and> vw_readiness v = ''healthy''"
proof -
  let ?w = "view_worker \<lparr>rd_stale_after = 60\<rparr> (\<lambda>_. Aware 8) sample_runtime sample_principal projected_db"
  have known: "sample_principal \<in> set (known_principals projected_db)"
    by (simp add: known_principals_def projected_db_def sample_head_def)
  have head: "head_of sample_principal projected_db = Some sample_head"
    by (simp add: head_of_def row_of_def projected_db_def sample_head_def)
  have attempt: "attempt_of sample_principal ''cov'' projected_db = Some sample_attempt"
    by (simp add: attempt_of_def row_of_def projection_key_def projected_db_def sample_attempt_fields)
  obtain k where k: "skew_text (pa_skew sample_attempt) = Inr k" using sample_skew by (auto simp: is_ok_iff)
  obtain c where c: "newest_checkpoint text_le sample_principal projected_db = Some c" "coverage_projected c projected_db"
    using sample_newest by blast
  obtain readiness reason where r: "projected_readiness ?w False sample_attempt sample_attempt False = (readiness, reason)"
    by fastforce
  then have "readiness = ''healthy''"
    using projected_readiness_healthy [of ?w False sample_attempt sample_attempt False] sample_view by simp
  with r c known head attempt k show ?thesis
    by (simp add: read_projection_def Let_def validate_principal_def sample_texts(1) bindE_def read_principal_def
        read_head_def healthy_of_def sample_head_def sample_attempt_fields sample_attempt_times utc_of_def)
qed

lemma healthy_view_is_authoritative_witness:
  "\<exists>a c. attempt_of sample_principal ''cov'' projected_db = Some a \<and> complete_evidence a c"
proof -
  obtain v where "read_projection \<lparr>rd_stale_after = 60\<rparr> text_le (\<lambda>_. Aware 8) sample_runtime (Some sample_principal) projected_db = Inr v"
    "vw_readiness v = ''healthy''" using sample_healthy by blast
  from healthy_view_is_authoritative [OF projected_db_ok this] obtain h a c where
    "head_of sample_principal projected_db = Some h" "attempt_of sample_principal (ph_latest h) projected_db = Some a"
    "complete_evidence a c" by auto
  moreover from this(1) have "h = sample_head" by (simp add: head_of_def row_of_def projected_db_def sample_head_def)
  ultimately show ?thesis by (auto simp: sample_head_def)
qed

lemma reads_fail_over_arguments_only_witness:
  "read_projection \<lparr>rd_stale_after = 60\<rparr> text_le (\<lambda>_. Aware 8) sample_runtime (Some ''x'') projected_db
     = Inl (ValueError ''principal_fingerprint must be 64 lowercase hexadecimal characters'')"
proof -
  have x: "\<not> sha256_text ''x''" by code_simp
  then obtain e where e: "read_projection \<lparr>rd_stale_after = 60\<rparr> text_le (\<lambda>_. Aware 8) sample_runtime (Some ''x'') projected_db
      = Inl e" by (auto simp: read_projection_def Let_def validate_principal_def bindE_def)
  from reads_fail_over_arguments_only [OF projected_db_ok e] x have
    "e = ValueError ''principal_fingerprint must be 64 lowercase hexadecimal characters''" by simp
  with e show ?thesis by simp
qed

end
