(* ===== verification/Spec2Isabelle.thy ===== *)
theory Spec2Isabelle
  imports KalshiClient Session Reconciliation PaperStrings PaperTrades PrivateEpochs ProjectionSamples
begin

text \<open>
  A verification library for the exact-arithmetic trading core of Callisto: the Kalshi V2 venue
  client, its WebSocket stack, the execution ledger, the read reconciliation, the portfolio
  sweep, its leases and projection, the paper execution engine and the paper accounts, all under
  \<open>src/backend/services\<close>.

  \<^bold>\<open>The program.\<close> A caller builds a \<open>VenueOrderIntent\<close> (\<open>venues/contracts.py\<close>), records it in the
  \<open>VenueExecutionLedger\<close> (\<open>venue_execution_ledger.py\<close>) before anything is sent, translates it to a
  Kalshi request and submits it once through \<open>KalshiV2Client\<close> (\<open>venues/kalshi_v2.py\<close>). What became
  of it is found out by reading: \<open>KalshiReadReconciliationService\<close>
  (\<open>kalshi_read_reconciliation.py\<close>) searches the venue's current orders and fills and writes what
  it finds into the ledger; \<open>KalshiPortfolioCoverageService\<close> (\<open>kalshi_portfolio_coverage.py\<close>) sweeps
  everything of one account, current and archived, into durable evidence. A worker does so under
  the lease of the account (\<open>KalshiPortfolioLeaseService\<close>), adds positions, balance and settlements
  and persists one attempt (\<open>KalshiPortfolioProjectionSynchronizer\<close>), which
  \<open>KalshiPortfolioProjectionReader\<close> shows with its readiness (\<open>kalshi_portfolio_projection.py\<close>).
  Market data arrives as WebSocket frames: \<open>KalshiV2WSFrameSession\<close>
  (\<open>venues/kalshi_v2_ws_session.py\<close>) routes a frame into \<open>KalshiV2WSLifecycle\<close>
  (\<open>venues/kalshi_v2_ws_lifecycle.py\<close>), which owns the epoch and drives one
  \<open>KalshiOrderbookState\<close> (\<open>venues/kalshi_v2_ws.py\<close>). The account's own orders, fills and positions
  arrive on a second connection, \<open>KalshiPrivateWSLifecycle\<close> (\<open>venues/kalshi_v2_private_ws.py\<close>).
  Paper trades are simulated against a displayed book (\<open>kalshi_paper_execution.py\<close>);
  \<open>KalshiPaperService\<close> (\<open>kalshi_paper_service.py\<close>) takes decisions on opportunities, has them
  simulated, and keeps the accounts, positions and open orders that result.

  \<^bold>\<open>How the code is modelled.\<close> A dataclass or an object's attributes are a \<open>record\<close> whose fields
  carry the attribute's name behind a prefix; an enumeration is a datatype. A method that may
  raise is a function into \<open>exn + 'a\<close> (\<open>res\<close>), one that also changes the object or the database
  a function into a result and the state after it (\<open>action\<close>); the state is returned by the
  raising branches too, so what an exception leaves behind is part of every statement.
  \<open>Decimal\<close> is sign, coefficient and exponent, with the value \<open>dval\<close> a rational. A JSON document
  is a \<open>pyval\<close>. Whatever is not under \<open>src\<close> is an argument: the HTTP transport, the RSA
  signature, SHA-256, the clock, fresh ids, the provider's pages. The hypotheses on them (digests
  that are 64 hexadecimal digits, no collision between two given texts, cursors from a finite
  set) are named where they are used, and the witnesses discharge them for concrete functions.
  Nothing is assumed of the exceptions of the transport.

  \<^bold>\<open>The theories.\<close>

  \<^item> \<open>Prelude\<close>: exceptions, the combinators \<open>bindE\<close>, \<open>bindA\<close> and the collections of facts on
    them; the interfaces between components as locales. \<open>machine\<close> is an object with operations
    that keep an invariant, \<open>monotone_machine\<close> one whose operations also only move up an order,
    \<open>write_once\<close> a table in which the first writer of a key wins. They are interpreted on the
    orderbook, the lifecycle, the session, the private connection, the ledger's tables, the
    leases, the projections and the paper accounts.
  \<^item> \<open>PyText\<close>, \<open>Decimals\<close>, \<open>DecimalDivision\<close>, \<open>PyValue\<close>, \<open>Timestamps\<close>: the parts of Python the
    sources use: \<open>str\<close> methods, \<open>decimal\<close> (parsing, formatting, exact sums, quantized division
    under a context), JSON values and their canonical text, RFC 3339 timestamps in microseconds.
  \<^item> \<open>KalshiFields\<close>, \<open>KalshiModels\<close>, \<open>KalshiAccounts\<close>, \<open>Contracts\<close>, \<open>KalshiClient\<close>: \<open>venues/kalshi_v2.py\<close>
    and \<open>venues/contracts.py\<close> in the order of the file: field readers and query builders, the
    read models, the write models, the signer and the client. Lemmas: what every parser
    guarantees of its result, that it raises its own exception only, that order requests carry
    the intent exactly, that no request is sent unarmed, unsigned or twice.
  \<^item> \<open>Orderbook\<close>, \<open>Lifecycle\<close>, \<open>Session\<close>: the market-data connection, from deltas on one book (with
    its refinement to a map from prices to quantities) over the epochs of a connection to the
    answer to each frame.
  \<^item> \<open>PrivateFrames\<close>, \<open>PrivateLifecycle\<close>, \<open>PrivateEpochs\<close>: the private connection: the parsers of
    \<open>KalshiPrivateOrder\<close>, \<open>KalshiPrivateFill\<close>, \<open>KalshiPrivateMarketPosition\<close>; \<open>begin_connection\<close>,
    \<open>receive\<close>, \<open>disconnect\<close>; whole runs of it.
  \<^item> \<open>Ledger\<close>, \<open>LedgerPrograms\<close>: the tables of \<open>models/database.py\<close> the ledger writes and its
    operations; sequences of them, as the callers' transactions compose them.
  \<^item> \<open>Pagination\<close>, \<open>Reconciliation\<close>: the cursor loop and the reconciliation of one intent. What a
    loop body keeps true of the items it took is the locale \<open>page_collector\<close>.
  \<^item> \<open>CoverageEvidence\<close>, \<open>Coverage\<close>, \<open>CoverageStore\<close>, \<open>CoverageProperties\<close>, \<open>CoverageSamples\<close>: the
    portfolio sweep: payloads, the choice of one snapshot per order, the reasons against
    completeness; the tables, the lease, the transaction and \<open>sweep\<close> itself; what the
    transaction keeps of the tables; the properties; a portfolio on which they are applied. The
    column \<open>created_at\<close> of a checkpoint and \<open>updated_at\<close> of a lease, which no code here reads,
    are left out.
  \<^item> \<open>Leases\<close>, \<open>Projection\<close>, \<open>ProjectionSteps\<close>, \<open>ProjectionReader\<close>, \<open>ProjectionSamples\<close>: leases with
    their fence tokens, sharing the tables of the sweep; the synchronization as three
    transactions, with what other workers commit before each as an argument; all transactions as
    the steps of one machine whose invariant certifies every complete attempt, with the proof
    that a synchronization is a sequence of such steps; the reader and its readiness; samples.
  \<^item> \<open>PaperUnits\<close>, \<open>PaperMatching\<close>, \<open>PaperAverage\<close>, \<open>PaperStrings\<close>: integer units, price ranges and
    the immediate-or-cancel simulation, its average price, and the round trip of its texts.
  \<^item> \<open>PaperTables\<close>, \<open>PaperRequests\<close>, \<open>PaperService\<close>, \<open>PaperDecisions\<close>: the paper accounts: the
    tables with their constraints; the checks on arguments and opportunities; quotes, replies and
    the sums over exits; the operations, where what a commit writes is computed first, as a
    \<open>posting\<close>. The snapshots and fee provenance that a column holds as JSON text are kept as the
    documents. \<open>PaperPosting\<close>, \<open>PaperBooks\<close>, \<open>PaperSteps\<close>, \<open>PaperMachine\<close>: what a posting promises,
    the invariant \<open>paper_ok\<close> of the books, that every transaction keeps it and only adds rows, and
    all transactions as the steps of one machine. \<open>PaperViews\<close>, \<open>PaperLists\<close>,
    \<open>PaperProperties\<close>: replies, recording as a sequence of steps, replays and cancellations.
    \<open>PaperBuys\<close>, \<open>PaperEntries\<close>, \<open>PaperLiveness\<close>: that the constraints admit whatever an eligible
    decision comes to. \<open>PaperSamples\<close>, \<open>PaperTrades\<close>: concrete accounts.

  \<^bold>\<open>Bounds and loops.\<close> A cursor loop may run forever when the provider keeps inventing cursors:
  \<open>walk_pages\<close> is a partial function into \<open>option\<close> without fuel, so that not returning is the value
  \<open>None\<close>, and \<open>reconciliation_returns\<close> and \<open>sweep_returns\<close> prove that it returns as soon as the cursors come from a
  finite set. Every other recursion is structural or on a shrinking text. The model's
  characters are the code points below 256. Timestamps are whole microseconds between the years
  1 and 9999, as \<open>datetime\<close> has them.

  \<^bold>\<open>Not modelled.\<close> Scheduling and sockets: the coordinator, the transport and the private
  synchronisation are \<open>asyncio\<close> tasks around the modelled session. Of
  \<open>kalshi_paper_execution.py\<close>, the HTTP market data client and the result observer, which are
  arguments of the paper accounts; the scripted test trades and the result service on top of
  them; the advisory locks of \<open>kalshi_paper_service.py\<close>, which only keep callers apart, and the
  cancellation of its tasks. The static live readiness report. The Polymarket
  side of the program (orchestrator, live execution, strategies, backtester, scanner,
  discovery) computes with binary floats over third-party services, and is left out.
\<close>

end
